(* ===== verification/Prelude.thy ===== *)
theory Prelude
  imports Main "HOL-Library.Word" "HOL-Library.AList" "HOL-Library.List_Lexorder" "HOL-Library.Multiset"
begin

text \<open>
  Shared vocabulary of the development: the machine integers of the Rust sources, big-endian
  byte access, results, hash maps and the generic laws the components rest on.

  \<^item> \<open>u8\<close> to \<open>u64\<close> are words of that width. \<open>usize\<close> values are lengths and offsets of buffers
    that live in memory and are modelled by \<open>nat\<close>; where the code saturates or checks an
    addition the model says so.
  \<^item> \<open>Instant\<close> is a number of nanoseconds of the monotonic clock; every read of the clock is an argument.
  \<^item> \<open>Result<T, E>\<close> is \<open>('e, 't) outcome\<close>: \<open>Ok\<close>, \<open>Err\<close>, or \<open>Panic\<close> where the code would panic.
  \<^item> \<open>HashMap\<close> and \<open>BTreeMap\<close> are association lists without duplicate keys (\<open>hm_wf\<close>). The order
    of the list stands for the iteration order, which Rust leaves open for a \<open>HashMap\<close>: a
    theorem about every list is a theorem about every iteration order.
\<close>

unbundle bit_operations_syntax

named_theorems store_simps \<open>lookups in updated hash maps\<close>
named_theorems wire_simps \<open>big-endian reads of written bytes\<close>
named_theorems inv_intros \<open>preservation of a component's invariant\<close>

section \<open>Machine integers and instants\<close>

type_synonym u8 = "8 word"
type_synonym u16 = "16 word"
type_synonym u32 = "32 word"
type_synonym u64 = "64 word"
type_synonym bytes = "u8 list"
type_synonym instant = nat

definition saturating_add :: "'a::len word \<Rightarrow> 'a word \<Rightarrow> 'a word" where
  "saturating_add a b = (if unat a + unat b < 2 ^ LENGTH('a) then a + b else - 1)"

definition saturating_sub :: "'a::len word \<Rightarrow> 'a word \<Rightarrow> 'a word" where
  "saturating_sub a b = (if b \<le> a then a - b else 0)"

lemma unat_saturating_add:
  "unat (saturating_add a b) = min (unat a + unat b) (2 ^ LENGTH('a) - 1)"
  for a b :: "'a::len word"
proof (cases "unat a + unat b < 2 ^ LENGTH('a)")
  case True
  then show ?thesis
    by (simp add: saturating_add_def unat_word_ariths)
next
  case False
  then show ?thesis
    by (simp add: saturating_add_def unsigned_minus_1_eq_mask mask_eq_exp_minus_1)
qed

lemma unat_saturating_sub: "unat (saturating_sub a b) = unat a - unat b"
  by (auto simp: saturating_sub_def unat_sub word_le_nat_alt)

section \<open>Big-endian integers\<close>

definition be16 :: "u8 \<Rightarrow> u8 \<Rightarrow> u16" where
  "be16 h l = push_bit 8 (ucast h) OR ucast l"

definition be16_bytes :: "u16 \<Rightarrow> bytes" where
  "be16_bytes w = [ucast (drop_bit 8 w), ucast w]"

definition be32 :: "u8 \<Rightarrow> u8 \<Rightarrow> u8 \<Rightarrow> u8 \<Rightarrow> u32" where
  "be32 a b c d = push_bit 24 (ucast a) OR push_bit 16 (ucast b) OR push_bit 8 (ucast c) OR ucast d"

definition be32_bytes :: "u32 \<Rightarrow> bytes" where
  "be32_bytes w = [ucast (drop_bit 24 w), ucast (drop_bit 16 w), ucast (drop_bit 8 w), ucast w]"

lemma not_bit_u8 [simp]: "\<not> bit (b :: u8) (8 + n)"
  by (auto dest: bit_imp_le_length)

lemma be16_bytes_be16 [wire_simps]: "be16_bytes (be16 h l) = [h, l]"
  by (auto simp: be16_def be16_bytes_def bit_simps intro!: bit_word_eqI)

lemma be16_be16_bytes [wire_simps]: "be16 (be16_bytes w ! 0) (be16_bytes w ! Suc 0) = w"
  by (auto simp: be16_def be16_bytes_def bit_simps intro!: bit_word_eqI)

lemma length_be16_bytes [simp]: "length (be16_bytes w) = 2"
  by (simp add: be16_bytes_def)

lemma length_be32_bytes [simp]: "length (be32_bytes w) = 4"
  by (simp add: be32_bytes_def)

section \<open>Outcomes of fallible code\<close>

text \<open>
  A function that returns \<open>Result<T, E>\<close> and indexes buffers ends in \<open>Ok\<close>, in \<open>Err\<close> or in a
  panic. Indexing and slicing are written with the bounds check of the language, so that the
  absence of panics is a theorem about the model and not an assumption of it.
\<close>

datatype ('e, 'a) outcome = Panic | Err 'e | Ok 'a

fun and_then :: "('e, 'a) outcome \<Rightarrow> ('a \<Rightarrow> ('e, 'b) outcome) \<Rightarrow> ('e, 'b) outcome" where
  "and_then Panic f = Panic"
| "and_then (Err e) f = Err e"
| "and_then (Ok a) f = f a"

definition byte_at :: "'x list \<Rightarrow> nat \<Rightarrow> ('x \<Rightarrow> ('e, 'a) outcome) \<Rightarrow> ('e, 'a) outcome" where
  "byte_at xs i k = (if i < length xs then k (xs ! i) else Panic)"

definition subslice :: "nat \<Rightarrow> nat \<Rightarrow> 'x list \<Rightarrow> 'x list" where
  "subslice i j xs = take (j - i) (drop i xs)"

definition slice_at :: "'x list \<Rightarrow> nat \<Rightarrow> nat \<Rightarrow> ('x list \<Rightarrow> ('e, 'a) outcome) \<Rightarrow> ('e, 'a) outcome" where
  "slice_at xs i j k = (if i \<le> j \<and> j \<le> length xs then k (subslice i j xs) else Panic)"

definition overwrite :: "nat \<Rightarrow> 'x list \<Rightarrow> 'x list \<Rightarrow> 'x list" where
  "overwrite i ys xs = take i xs @ ys @ drop (i + length ys) xs"

definition copy_from_slice :: "nat \<Rightarrow> 'x list \<Rightarrow> 'x list \<Rightarrow> ('e, 'x list) outcome" where
  "copy_from_slice i ys xs = (if i + length ys \<le> length xs then Ok (overwrite i ys xs) else Panic)"

lemma and_then_cong [fundef_cong]:
  "m = m' \<Longrightarrow> (\<And>a. m' = Ok a \<Longrightarrow> f a = f' a) \<Longrightarrow> and_then m f = and_then m' f'"
  by (cases m') auto

lemma byte_at_cong [fundef_cong]:
  "xs = xs' \<Longrightarrow> i = i' \<Longrightarrow> (i' < length xs' \<Longrightarrow> k (xs' ! i') = k' (xs' ! i')) \<Longrightarrow> byte_at xs i k = byte_at xs' i' k'"
  by (simp add: byte_at_def)

lemma and_then_Ok_iff: "and_then m f = Ok b \<longleftrightarrow> (\<exists>a. m = Ok a \<and> f a = Ok b)"
  by (cases m) auto

lemma and_then_Panic_iff: "and_then m f = Panic \<longleftrightarrow> m = Panic \<or> (\<exists>a. m = Ok a \<and> f a = Panic)"
  by (cases m) auto

lemma byte_at_in [simp]: "i < length xs \<Longrightarrow> byte_at xs i k = k (xs ! i)"
  by (simp add: byte_at_def)

lemma slice_at_in [simp]: "i \<le> j \<Longrightarrow> j \<le> length xs \<Longrightarrow> slice_at xs i j k = k (subslice i j xs)"
  by (simp add: slice_at_def)

lemma byte_at_Ok_iff: "byte_at xs i k = Ok a \<longleftrightarrow> i < length xs \<and> k (xs ! i) = Ok a"
  by (simp add: byte_at_def)

lemma slice_at_Ok_iff: "slice_at xs i j k = Ok a \<longleftrightarrow> i \<le> j \<and> j \<le> length xs \<and> k (subslice i j xs) = Ok a"
  by (auto simp: slice_at_def)

lemmas outcome_Ok_iffs = and_then_Ok_iff byte_at_Ok_iff slice_at_Ok_iff

lemma length_subslice [simp]: "j \<le> length xs \<Longrightarrow> length (subslice i j xs) = j - i"
  by (simp add: subslice_def)

lemma subslice_append: "i \<le> j \<Longrightarrow> j \<le> k \<Longrightarrow> subslice i j xs @ subslice j k xs = subslice i k xs"
  using take_add [of "j - i" "k - j" "drop i xs"] by (simp add: subslice_def add.commute)

lemma subslice_nth: "j \<le> length xs \<Longrightarrow> n < j - i \<Longrightarrow> subslice i j xs ! n = xs ! (i + n)"
  by (simp add: subslice_def)

lemma length_overwrite [simp]: "i + length ys \<le> length xs \<Longrightarrow> length (overwrite i ys xs) = length xs"
  by (simp add: overwrite_def)

lemma nth_overwrite:
  "i + length ys \<le> length xs \<Longrightarrow> n < length xs \<Longrightarrow>
   overwrite i ys xs ! n = (if i \<le> n \<and> n < i + length ys then ys ! (n - i) else xs ! n)"
  by (auto simp: overwrite_def nth_append min_def)

lemma subslice_overwrite_same:
  "i + length ys \<le> length xs \<Longrightarrow> j = i + length ys \<Longrightarrow> subslice i j (overwrite i ys xs) = ys"
  by (simp add: subslice_def overwrite_def)

lemma subslice_overwrite_other:
  assumes "i + length ys \<le> length xs" and "b \<le> length xs" and "b \<le> i \<or> i + length ys \<le> a"
  shows "subslice a b (overwrite i ys xs) = subslice a b xs"
  using assms by (intro nth_equalityI) (auto simp: subslice_nth nth_overwrite)

lemma overwrite_subslice: "i + n \<le> length xs \<Longrightarrow> overwrite i (subslice i (i + n) xs) xs = xs"
  by (intro nth_equalityI) (auto simp: nth_overwrite subslice_nth)

section \<open>Wire codecs\<close>

text \<open>
  A codec decodes what it encodes at any offset of a buffer, and accepts nothing but its own
  encodings. Then encodings are self-delimiting, and bytes after a value never change its decoding.
\<close>

locale wire_codec =
  fixes enc :: "'a \<Rightarrow> bytes option"
    and dec :: "bytes \<Rightarrow> nat \<Rightarrow> ('e, 'a \<times> nat) outcome"
  assumes dec_enc: "enc a = Some bs \<Longrightarrow> dec (pre @ bs @ rest) (length pre) = Ok (a, length pre + length bs)"
    and enc_dec: "dec input off = Ok (a, off') \<Longrightarrow> off \<le> off' \<and> off' \<le> length input \<and> enc a = Some (subslice off off' input)"
begin

lemma self_delimiting:
  assumes "enc a = Some x" and "enc b = Some y" and "x @ r = y @ r'"
  shows "a = b \<and> r = r'"
proof -
  have "dec (x @ r) 0 = Ok (a, length x)" using dec_enc [OF assms(1), of "[]" r] by simp
  moreover have "dec (y @ r') 0 = Ok (b, length y)" using dec_enc [OF assms(2), of "[]" r'] by simp
  ultimately show ?thesis using assms by auto
qed

lemma dec_extend:
  assumes "dec input off = Ok (a, off')"
  shows "dec (input @ more) off = Ok (a, off')"
proof -
  from enc_dec [OF assms] have b: "off \<le> off'" "off' \<le> length input" "enc a = Some (subslice off off' input)" by simp_all
  have "input = take off input @ subslice off off' input @ drop off' input"
    using b by (simp add: subslice_def) (metis append_take_drop_id drop_drop le_add_diff_inverse2)
  then have eq: "input @ more = take off input @ subslice off off' input @ drop off' input @ more"
    by (metis append.assoc)
  show ?thesis
    unfolding eq using dec_enc [OF b(3), of "take off input" "drop off' input @ more"] b by simp
qed

end

section \<open>Hash maps\<close>

type_synonym ('k, 'v) hashmap = "('k \<times> 'v) list"

definition hm_get :: "('k, 'v) hashmap \<Rightarrow> 'k \<Rightarrow> 'v option" where
  "hm_get m k = map_of m k"

definition hm_insert :: "'k \<Rightarrow> 'v \<Rightarrow> ('k, 'v) hashmap \<Rightarrow> ('k, 'v) hashmap" where
  "hm_insert k v m = AList.update k v m"

definition hm_remove :: "'k \<Rightarrow> ('k, 'v) hashmap \<Rightarrow> ('k, 'v) hashmap" where
  "hm_remove k m = filter (\<lambda>e. fst e \<noteq> k) m"

definition hm_retain :: "('k \<Rightarrow> 'v \<Rightarrow> bool) \<Rightarrow> ('k, 'v) hashmap \<Rightarrow> ('k, 'v) hashmap" where
  "hm_retain P m = filter (\<lambda>e. P (fst e) (snd e)) m"

definition hm_modify :: "'k \<Rightarrow> ('v \<Rightarrow> 'v) \<Rightarrow> ('k, 'v) hashmap \<Rightarrow> ('k, 'v) hashmap" where
  "hm_modify k f m = map (\<lambda>e. if fst e = k then (k, f (snd e)) else e) m"

definition hm_update_all :: "('v \<Rightarrow> 'v) \<Rightarrow> ('k, 'v) hashmap \<Rightarrow> ('k, 'v) hashmap" where
  "hm_update_all f m = map (\<lambda>e. (fst e, f (snd e))) m"

definition hm_entry_or :: "('k, 'v) hashmap \<Rightarrow> 'k \<Rightarrow> 'v \<Rightarrow> 'v" where
  "hm_entry_or m k d = (case hm_get m k of None \<Rightarrow> d | Some v \<Rightarrow> v)"

definition hm_contains :: "('k, 'v) hashmap \<Rightarrow> 'k \<Rightarrow> bool" where
  "hm_contains m k = (hm_get m k \<noteq> None)"

definition hm_wf :: "('k, 'v) hashmap \<Rightarrow> bool" where
  "hm_wf m = distinct (map fst m)"

lemma hm_get_empty [simp]: "hm_get [] k = None"
  by (simp add: hm_get_def)

lemma hm_get_insert [store_simps]: "hm_get (hm_insert k v m) = (hm_get m)(k \<mapsto> v)"
  by (simp add: hm_get_def hm_insert_def update_conv' fun_eq_iff)

lemma hm_get_remove [store_simps]: "hm_get (hm_remove k m) = (hm_get m)(k := None)"
  unfolding hm_get_def hm_remove_def
  by (induction m) (auto simp: fun_eq_iff)

lemma hm_get_retain [store_simps]:
  assumes "hm_wf m"
  shows "hm_get (hm_retain P m) k =
    (case hm_get m k of None \<Rightarrow> None | Some v \<Rightarrow> if P k v then Some v else None)"
  using assms unfolding hm_get_def hm_retain_def hm_wf_def
  by (induction m) (auto split: option.splits simp: map_of_eq_None_iff image_iff)

lemma hm_get_modify [store_simps]: "hm_get (hm_modify k f m) k' =
    (if k' = k then map_option f (hm_get m k) else hm_get m k')"
  unfolding hm_get_def hm_modify_def
  by (induction m) auto

lemma hm_get_update_all [store_simps]: "hm_get (hm_update_all f m) k = map_option f (hm_get m k)"
  by (induction m) (auto simp: hm_get_def hm_update_all_def)

lemma hm_keys_update_all [simp]: "map fst (hm_update_all f m) = map fst m"
  by (simp add: hm_update_all_def)

lemma hm_wf_update_all [simp]: "hm_wf (hm_update_all f m) = hm_wf m"
  by (simp add: hm_wf_def)

lemma hm_wf_empty [simp]: "hm_wf []"
  by (simp add: hm_wf_def)

lemma hm_wf_insert [simp]: "hm_wf m \<Longrightarrow> hm_wf (hm_insert k v m)"
  by (simp add: hm_wf_def hm_insert_def distinct_update)

lemma hm_wf_filter: "hm_wf m \<Longrightarrow> hm_wf (filter P m)"
  unfolding hm_wf_def by (induction m) (auto simp: image_iff)

lemma hm_wf_remove [simp]: "hm_wf m \<Longrightarrow> hm_wf (hm_remove k m)"
  by (simp add: hm_remove_def hm_wf_filter)

lemma hm_wf_retain [simp]: "hm_wf m \<Longrightarrow> hm_wf (hm_retain P m)"
  by (simp add: hm_retain_def hm_wf_filter)

lemma hm_keys_modify [simp]: "map fst (hm_modify k f m) = map fst m"
  by (induction m) (auto simp: hm_modify_def)

lemma hm_wf_modify [simp]: "hm_wf (hm_modify k f m) = hm_wf m"
  by (simp add: hm_wf_def)

lemma hm_in_set: "hm_wf m \<Longrightarrow> (k, v) \<in> set m \<longleftrightarrow> hm_get m k = Some v"
  by (simp add: hm_wf_def hm_get_def)

lemma hm_get_Some_in_set: "hm_get m k = Some v \<Longrightarrow> (k, v) \<in> set m"
  by (simp add: hm_get_def map_of_SomeD)

lemma hm_keys_iff: "k \<in> fst ` set m \<longleftrightarrow> hm_get m k \<noteq> None"
  by (simp add: hm_get_def map_of_eq_None_iff)

lemma length_hm_remove_le: "length (hm_remove k m) \<le> length m"
  by (simp add: hm_remove_def)

lemma length_hm_retain_le: "length (hm_retain P m) \<le> length m"
  by (simp add: hm_retain_def)

lemma length_hm_insert:
  "length (hm_insert k v m) = (if hm_contains m k then length m else Suc (length m))"
  unfolding hm_insert_def hm_contains_def hm_get_def
  by (induction m) auto

lemma length_hm_remove:
  "hm_wf m \<Longrightarrow> hm_contains m k \<Longrightarrow> Suc (length (hm_remove k m)) = length m"
proof (induction m)
  case Nil
  then show ?case by (simp add: hm_contains_def)
next
  case (Cons e m)
  show ?case
  proof (cases "fst e = k")
    case True
    with Cons.prems have "\<forall>x\<in>set m. fst x \<noteq> k"
      by (auto simp: hm_wf_def image_iff)
    then have "filter (\<lambda>e. fst e \<noteq> k) m = m"
      by (simp add: filter_id_conv)
    with True show ?thesis by (simp add: hm_remove_def)
  next
    case False
    with Cons show ?thesis
      by (auto simp: hm_remove_def hm_contains_def hm_get_def hm_wf_def)
  qed
qed

lemma hm_remove_absent: "hm_get m k = None \<Longrightarrow> hm_remove k m = m"
  unfolding hm_get_def hm_remove_def map_of_eq_None_iff by (induction m) auto

text \<open>Sums of a measure over the values of a map.\<close>

definition hm_sum :: "('v \<Rightarrow> nat) \<Rightarrow> ('k, 'v) hashmap \<Rightarrow> nat" where
  "hm_sum f m = sum_list (map (\<lambda>e. f (snd e)) m)"

lemma hm_sum_insert:
  assumes "hm_wf m"
  shows "hm_sum f (hm_insert k v m) + (case hm_get m k of None \<Rightarrow> 0 | Some v' \<Rightarrow> f v') = hm_sum f m + f v"
  using assms unfolding hm_sum_def hm_get_def hm_insert_def hm_wf_def
  by (induction m) auto

lemma hm_sum_insert_new: "hm_wf m \<Longrightarrow> hm_get m k = None \<Longrightarrow> hm_sum f (hm_insert k v m) = hm_sum f m + f v"
  using hm_sum_insert [of m f k v] by simp

lemma hm_sum_filter: "hm_sum f (filter P m) + hm_sum f (filter (\<lambda>e. \<not> P e) m) = hm_sum f m"
  by (induction m) (auto simp: hm_sum_def)

lemma hm_sum_remove: "hm_wf m \<Longrightarrow> hm_get m k = Some v \<Longrightarrow> hm_sum f (hm_remove k m) + f v = hm_sum f m"
  unfolding hm_sum_def hm_get_def hm_remove_def hm_wf_def
proof (induction m)
  case (Cons e m)
  show ?case
  proof (cases "fst e = k")
    case True
    then have "\<forall>x\<in>set m. fst x \<noteq> k" using Cons.prems(1) by (auto simp: image_iff)
    then have "filter (\<lambda>e. fst e \<noteq> k) m = m" by (simp add: filter_id_conv)
    then show ?thesis using True Cons.prems(2) by (cases e) simp
  next
    case False
    then have "sum_list (map (\<lambda>e. f (snd e)) (filter (\<lambda>e. fst e \<noteq> k) m)) + f v = sum_list (map (\<lambda>e. f (snd e)) m)"
      using Cons by (cases e) auto
    then show ?thesis using False by simp
  qed
qed simp

lemma hm_sum_modify: "hm_wf m \<Longrightarrow> hm_get m k = Some v \<Longrightarrow> hm_sum f (hm_modify k g m) + f v = hm_sum f m + f (g v)"
  unfolding hm_sum_def hm_get_def hm_modify_def hm_wf_def
proof (induction m)
  case (Cons e m)
  show ?case
  proof (cases "fst e = k")
    case True
    then have "map (\<lambda>e. if fst e = k then (k, g (snd e)) else e) m = m"
      using Cons.prems(1) by (intro map_idI) (auto simp: image_iff)
    then show ?thesis using True Cons.prems(2) by (cases e) (simp add: comp_def)
  next
    case False
    then have "sum_list (map (\<lambda>e. f (snd e)) (map (\<lambda>e. if fst e = k then (k, g (snd e)) else e) m)) + f v = sum_list (map (\<lambda>e. f (snd e)) m) + f (g v)"
      using Cons by (cases e) auto
    then show ?thesis using False by simp
  qed
qed simp

lemma hm_sum_member: "hm_get m k = Some v \<Longrightarrow> f v \<le> hm_sum f m"
  unfolding hm_sum_def using hm_get_Some_in_set [of m k v] by (intro member_le_sum_list) force+

text \<open>
  The interface the components use: lookups after updates and removals, and the iterated forms
  that the loops over key lists need, proved once from the laws.
\<close>

locale kv_store =
  fixes get :: "'m \<Rightarrow> 'k \<Rightarrow> 'v option"
    and put :: "'k \<Rightarrow> 'v \<Rightarrow> 'm \<Rightarrow> 'm"
    and del :: "'k \<Rightarrow> 'm \<Rightarrow> 'm"
    and invar :: "'m \<Rightarrow> bool"
  assumes get_put: "get (put k v m) = (get m)(k \<mapsto> v)"
    and get_del: "get (del k m) = (get m)(k := None)"
    and invar_put: "invar m \<Longrightarrow> invar (put k v m)"
    and invar_del: "invar m \<Longrightarrow> invar (del k m)"
begin

lemma get_fold_del:
  "get (fold del ks m) k = (if k \<in> set ks then None else get m k)"
  by (induction ks arbitrary: m) (auto simp: get_del)

lemma invar_fold_del: "invar m \<Longrightarrow> invar (fold del ks m)"
  by (induction ks arbitrary: m) (auto intro: invar_del)

lemma get_put_other: "k' \<noteq> k \<Longrightarrow> get (put k v m) k' = get m k'"
  by (simp add: get_put)

lemma get_rename:
  "get (put new v (del old m)) k =
     (if k = new then Some v else if k = old then None else get m k)"
  by (simp add: get_put get_del)

end

interpretation hm: kv_store hm_get hm_insert hm_remove hm_wf
  by unfold_locales (simp_all add: hm_get_insert hm_get_remove)

section \<open>Ordered maps\<close>

text \<open>A \<open>BTreeMap\<close> is an association list in strictly ascending key order, which is its iteration order.\<close>

fun bt_insert :: "'k::linorder \<Rightarrow> 'v \<Rightarrow> ('k \<times> 'v) list \<Rightarrow> ('k \<times> 'v) list" where
  "bt_insert k v [] = [(k, v)]"
| "bt_insert k v (e # m) =
     (if k < fst e then (k, v) # e # m
      else if k = fst e then (k, v) # m
      else e # bt_insert k v m)"

definition bt_wf :: "('k::linorder \<times> 'v) list \<Rightarrow> bool" where
  "bt_wf m = sorted_wrt (<) (map fst m)"

lemma set_bt_insert_keys: "fst ` set (bt_insert k v m) = insert k (fst ` set m)"
  by (induction m) auto

lemma hm_get_bt_insert [store_simps]: "bt_wf m \<Longrightarrow> hm_get (bt_insert k v m) = (hm_get m)(k \<mapsto> v)"
  by (induction m) (auto simp: hm_get_def fun_eq_iff bt_wf_def)

lemma bt_wf_insert [simp]: "bt_wf m \<Longrightarrow> bt_wf (bt_insert k v m)"
proof (induction m)
  case (Cons e m)
  have "\<forall>x \<in> fst ` set (bt_insert k v m). fst e < x" if "fst e < k"
    using Cons.prems that unfolding set_bt_insert_keys by (auto simp: bt_wf_def)
  with Cons show ?case by (auto simp: bt_wf_def)
qed (simp add: bt_wf_def)

lemma bt_wf_hm_wf: "bt_wf m \<Longrightarrow> hm_wf m"
  by (simp add: bt_wf_def hm_wf_def strict_sorted_iff)

lemma bt_wf_Nil [simp]: "bt_wf []"
  by (simp add: bt_wf_def)

lemma mset_bt_insert: "hm_get m k = None \<Longrightarrow> mset (bt_insert k v m) = add_mset (k, v) (mset m)"
  by (induction m) (auto simp: hm_get_def split: if_splits)

section \<open>Loops over lists\<close>

lemma fold_keeps: "(\<And>x s. P s \<Longrightarrow> P (f x s)) \<Longrightarrow> P s \<Longrightarrow> P (fold f xs s)"
  by (induction xs arbitrary: s) auto

section \<open>First minimum of an iteration\<close>

fun min_by_key :: "('a \<Rightarrow> 'b::linorder) \<Rightarrow> 'a list \<Rightarrow> 'a option" where
  "min_by_key f [] = None"
| "min_by_key f (x # xs) =
     (case min_by_key f xs of None \<Rightarrow> Some x
      | Some y \<Rightarrow> if f x \<le> f y then Some x else Some y)"

lemma min_by_key_None [simp]: "min_by_key f xs = None \<longleftrightarrow> xs = []"
  by (cases xs) (auto split: option.splits)

lemma min_by_key_in: "min_by_key f xs = Some x \<Longrightarrow> x \<in> set xs"
  by (induction xs arbitrary: x) (auto split: option.splits if_splits)

lemma min_by_key_le: "min_by_key f xs = Some x \<Longrightarrow> y \<in> set xs \<Longrightarrow> f x \<le> f y"
  by (induction xs arbitrary: x) (fastforce split: option.splits if_splits)+

section \<open>Reachable states\<close>

inductive reach :: "('s \<Rightarrow> bool) \<Rightarrow> ('s \<Rightarrow> 's \<Rightarrow> bool) \<Rightarrow> 's \<Rightarrow> bool"
  for init :: "'s \<Rightarrow> bool" and step :: "'s \<Rightarrow> 's \<Rightarrow> bool" where
  reach_init: "init s \<Longrightarrow> reach init step s"
| reach_step: "reach init step s \<Longrightarrow> step s t \<Longrightarrow> reach init step t"

locale safe_system =
  fixes init :: "'s \<Rightarrow> bool"
    and step :: "'s \<Rightarrow> 's \<Rightarrow> bool"
    and inv :: "'s \<Rightarrow> bool"
  assumes init_inv: "init s \<Longrightarrow> inv s"
    and step_inv: "inv s \<Longrightarrow> step s t \<Longrightarrow> inv t"
begin

lemma reach_inv: "reach init step s \<Longrightarrow> inv s"
  by (induction rule: reach.induct) (auto intro: init_inv step_inv)

end

end
