(* ===== verification/Net.thy ===== *)
theory Net
  imports Prelude
begin

text \<open>
  The address types of \<open>std::net\<close> the sources use: \<open>Ipv4Addr\<close> and \<open>Ipv6Addr\<close> hold their octets
  in network order, \<open>SocketAddr\<close> keeps the flow label and scope of an IPv6 endpoint. The
  classification methods follow the standard library; \<open>normalizeIpAddress\<close> is the function of
  \<open>ProcessCapture/src/lib.rs\<close> that every key of the flow table goes through. The derived order of
  the Rust types (IPv4 before IPv6, then octet by octet) is an instance of \<open>linorder\<close>.
\<close>

section \<open>Addresses\<close>

datatype Ipv4Addr = Ipv4Addr u8 u8 u8 u8

datatype Ipv6Addr =
  Ipv6Addr u8 u8 u8 u8 u8 u8 u8 u8 u8 u8 u8 u8 u8 u8 u8 u8

datatype IpAddr = V4 Ipv4Addr | V6 Ipv6Addr

datatype SocketAddr =
    SocketAddrV4 Ipv4Addr u16
  | SocketAddrV6 Ipv6Addr u16 u32 u32

primrec ipv4_octets :: "Ipv4Addr \<Rightarrow> bytes" where
  "ipv4_octets (Ipv4Addr a b c d) = [a, b, c, d]"

primrec ipv6_octets :: "Ipv6Addr \<Rightarrow> bytes" where
  "ipv6_octets (Ipv6Addr a b c d e f g h i j k l m n p q) =
     [a, b, c, d, e, f, g, h, i, j, k, l, m, n, p, q]"

text \<open>\<open>Ipv4Addr::from([u8; 4])\<close> and \<open>Ipv6Addr::from([u8; 16])\<close>; callers pass exactly that many octets.\<close>

definition ipv4_from :: "bytes \<Rightarrow> Ipv4Addr" where
  "ipv4_from bs = Ipv4Addr (bs ! 0) (bs ! 1) (bs ! 2) (bs ! 3)"

definition ipv6_from :: "bytes \<Rightarrow> Ipv6Addr" where
  "ipv6_from bs = Ipv6Addr (bs ! 0) (bs ! 1) (bs ! 2) (bs ! 3) (bs ! 4) (bs ! 5) (bs ! 6) (bs ! 7)
     (bs ! 8) (bs ! 9) (bs ! 10) (bs ! 11) (bs ! 12) (bs ! 13) (bs ! 14) (bs ! 15)"

primrec ip_octets :: "IpAddr \<Rightarrow> bytes" where
  "ip_octets (V4 a) = ipv4_octets a"
| "ip_octets (V6 a) = ipv6_octets a"

lemma length_ipv4_octets [simp]: "length (ipv4_octets a) = 4"
  by (cases a) simp

lemma length_ipv6_octets [simp]: "length (ipv6_octets a) = 16"
  by (cases a) simp

lemma ipv4_from_octets [simp]: "ipv4_from (ipv4_octets a) = a"
  by (cases a) (simp add: ipv4_from_def)

lemma ipv6_from_octets [simp]: "ipv6_from (ipv6_octets a) = a"
  by (cases a) (simp add: ipv6_from_def)

lemma ipv4_octets_from: "length bs = 4 \<Longrightarrow> ipv4_octets (ipv4_from bs) = bs"
  by (auto simp: ipv4_from_def eval_nat_numeral length_Suc_conv)

lemma ipv6_octets_from: "length bs = 16 \<Longrightarrow> ipv6_octets (ipv6_from bs) = bs"
  by (auto simp: ipv6_from_def eval_nat_numeral length_Suc_conv)

lemma ipv4_octets_inject [simp]: "ipv4_octets a = ipv4_octets b \<longleftrightarrow> a = b"
  by (cases a; cases b) simp

lemma ipv6_octets_inject [simp]: "ipv6_octets a = ipv6_octets b \<longleftrightarrow> a = b"
  by (cases a; cases b) simp

section \<open>Classification\<close>

primrec is_ipv4 :: "IpAddr \<Rightarrow> bool" where
  "is_ipv4 (V4 a) = True"
| "is_ipv4 (V6 a) = False"

definition ipv4_localhost :: Ipv4Addr where
  "ipv4_localhost = Ipv4Addr 127 0 0 1"

definition ipv4_unspecified :: Ipv4Addr where
  "ipv4_unspecified = Ipv4Addr 0 0 0 0"

definition ipv6_localhost :: Ipv6Addr where
  "ipv6_localhost = Ipv6Addr 0 0 0 0 0 0 0 0 0 0 0 0 0 0 0 1"

definition ipv6_unspecified :: Ipv6Addr where
  "ipv6_unspecified = Ipv6Addr 0 0 0 0 0 0 0 0 0 0 0 0 0 0 0 0"

primrec is_unspecified :: "IpAddr \<Rightarrow> bool" where
  "is_unspecified (V4 a) = (a = ipv4_unspecified)"
| "is_unspecified (V6 a) = (a = ipv6_unspecified)"

primrec is_loopback :: "IpAddr \<Rightarrow> bool" where
  "is_loopback (V4 a) = (ipv4_octets a ! 0 = 127)"
| "is_loopback (V6 a) = (a = ipv6_localhost)"

definition is_unicast_link_local :: "Ipv6Addr \<Rightarrow> bool" where
  "is_unicast_link_local a =
     (be16 (ipv6_octets a ! 0) (ipv6_octets a ! 1) AND 0xffc0 = 0xfe80)"

definition to_ipv4_mapped :: "Ipv6Addr \<Rightarrow> Ipv4Addr option" where
  "to_ipv4_mapped a =
     (if take 12 (ipv6_octets a) = [0, 0, 0, 0, 0, 0, 0, 0, 0, 0, 255, 255]
      then Some (ipv4_from (drop 12 (ipv6_octets a))) else None)"

definition normalizeIpAddress :: "IpAddr \<Rightarrow> IpAddr" where
  "normalizeIpAddress address =
     (case address of
        V6 a \<Rightarrow> (case to_ipv4_mapped a of Some m \<Rightarrow> V4 m | None \<Rightarrow> V6 a)
      | V4 a \<Rightarrow> V4 a)"

definition wildcard_address :: "IpAddr \<Rightarrow> IpAddr" where
  "wildcard_address a = (if is_ipv4 a then V4 ipv4_unspecified else V6 ipv6_unspecified)"

lemma normalizeIpAddress_idem [simp]:
  "normalizeIpAddress (normalizeIpAddress a) = normalizeIpAddress a"
  by (auto simp: normalizeIpAddress_def split: IpAddr.splits option.splits)

lemma normalizeIpAddress_V4 [simp]: "normalizeIpAddress (V4 a) = V4 a"
  by (simp add: normalizeIpAddress_def)

lemma normalizeIpAddress_wildcard [simp]:
  "normalizeIpAddress (wildcard_address a) = wildcard_address a"
  by (auto simp: normalizeIpAddress_def wildcard_address_def to_ipv4_mapped_def ipv6_unspecified_def)

lemma is_ipv4_wildcard_address [simp]: "is_ipv4 (wildcard_address a) = is_ipv4 a"
  by (simp add: wildcard_address_def)

section \<open>Socket addresses\<close>

primrec SocketAddr_new :: "IpAddr \<Rightarrow> u16 \<Rightarrow> SocketAddr" where
  "SocketAddr_new (V4 a) = (\<lambda>port. SocketAddrV4 a port)"
| "SocketAddr_new (V6 a) = (\<lambda>port. SocketAddrV6 a port 0 0)"

primrec sa_ip :: "SocketAddr \<Rightarrow> IpAddr" where
  "sa_ip (SocketAddrV4 a p) = V4 a"
| "sa_ip (SocketAddrV6 a p f s) = V6 a"

primrec sa_port :: "SocketAddr \<Rightarrow> u16" where
  "sa_port (SocketAddrV4 a p) = p"
| "sa_port (SocketAddrV6 a p f s) = p"

lemma sa_ip_new [simp]: "sa_ip (SocketAddr_new a p) = a"
  by (cases a) simp_all

lemma sa_port_new [simp]: "sa_port (SocketAddr_new a p) = p"
  by (cases a) simp_all

section \<open>The derived order\<close>

definition ip_rank :: "IpAddr \<Rightarrow> nat list" where
  "ip_rank a = (if is_ipv4 a then 0 else 1) # map unat (ip_octets a)"

lemma ip_rank_inject: "ip_rank a = ip_rank b \<Longrightarrow> a = b"
proof -
  assume eq: "ip_rank a = ip_rank b"
  then have "map unat (ip_octets a) = map unat (ip_octets b)" and "is_ipv4 a = is_ipv4 b"
    by (simp_all add: ip_rank_def split: if_splits)
  moreover have "inj (unat :: u8 \<Rightarrow> nat)"
    by (auto intro: injI)
  ultimately have "ip_octets a = ip_octets b" and "is_ipv4 a = is_ipv4 b"
    by (simp_all add: inj_map_eq_map)
  then show "a = b"
    by (cases a; cases b) simp_all
qed

instantiation IpAddr :: linorder
begin

definition less_eq_IpAddr :: "IpAddr \<Rightarrow> IpAddr \<Rightarrow> bool" where
  "less_eq_IpAddr a b = (ip_rank a \<le> ip_rank b)"

definition less_IpAddr :: "IpAddr \<Rightarrow> IpAddr \<Rightarrow> bool" where
  "less_IpAddr a b = (ip_rank a < ip_rank b)"

instance
  by intro_classes (auto simp: less_eq_IpAddr_def less_IpAddr_def intro: ip_rank_inject)

end

end
