(* ===== verification/FlowTable.thy ===== *)
theory FlowTable
  imports Net "HOL-Library.Product_Lexorder"
begin

text \<open>
  The capture flow table of \<open>ProcessCapture/src/flowTable.rs\<close>: the index that attributes packets to
  the selected processes and remembers how a redirected connection is undone. \<open>FlowState\<close> is the
  structure behind the write lock, one definition per method or lock section of the source.
  \<open>CaptureFlowTable\<close> adds the wake-up channel of the resolver. Clock reads are arguments, and
  \<open>associateUdpOutboundAt\<close>, which takes the lock several times, has an argument that stands for
  what other threads do to the table in between.
\<close>

section \<open>Data\<close>

definition tcpProtocol :: u8 where "tcpProtocol = 6"
definition udpProtocol :: u8 where "udpProtocol = 17"
definition firstReflectedPort :: u16 where "firstReflectedPort = 49152"
definition fragmentDecisionLifetime :: nat where "fragmentDecisionLifetime = 30000000000"
definition maximumFragmentDecisions :: nat where "maximumFragmentDecisions = 4096"

record CaptureFlow =
  cf_processId :: u32
  cf_endpointId :: u64
  cf_localAddress :: IpAddr
  cf_localPort :: u16
  cf_remoteAddress :: IpAddr
  cf_remotePort :: u16
  cf_protocol :: u8

record UdpAssociationRequest =
  ua_localAddress :: IpAddr
  ua_localPort :: u16
  ua_remoteAddress :: IpAddr
  ua_remotePort :: u16
  ua_configuredProxyAddress :: IpAddr
  ua_proxyPort :: u16
  ua_capturedAtCounter :: "int option"

record OriginalTarget =
  ot_processId :: u32
  ot_address :: SocketAddr

record OutboundKey =
  ok_localAddress :: IpAddr
  ok_localPort :: u16
  ok_remoteAddress :: IpAddr
  ok_remotePort :: u16
  ok_protocol :: u8

record ReflectedKey =
  rk_localAddress :: IpAddr
  rk_localPort :: u16
  rk_remoteAddress :: IpAddr
  rk_protocol :: u8

record UdpBindingKey =
  bk_localAddress :: IpAddr
  bk_localPort :: u16

record FragmentKey =
  fk_sourceAddress :: IpAddr
  fk_destinationAddress :: IpAddr
  fk_identification :: u32
  fk_protocol :: u8
  fk_outbound :: bool

datatype FragmentAction = Allow | Block u64 OriginalTarget

datatype FragmentRecordResult = Recorded | EndpointGone

datatype FragmentLookup = LookupAllow | LookupBlock OriginalTarget | LookupUnknown

record FragmentDecision =
  fd_action :: FragmentAction
  fd_expiresAt :: instant

record NetworkInterface =
  ni_interfaceIndex :: u32
  ni_subinterfaceIndex :: u32

record RewriteTarget =
  rt_endpointId :: u64
  rt_original :: OriginalTarget
  rt_originalLocalAddress :: IpAddr
  rt_proxyAddress :: IpAddr
  rt_originalLocalPort :: u16
  rt_reflectedPort :: u16
  rt_originalInterface :: "NetworkInterface option"

record TrackedTarget =
  tt_endpointId :: u64
  tt_rewrite :: RewriteTarget
  tt_activeFromCounter :: "int option"

record RetiredUdpTarget =
  ru_rewrite :: RewriteTarget
  ru_activeFromCounter :: "int option"
  ru_retiredAt :: instant
  ru_retiredAtCounter :: "int option"

record FlowState =
  outbound :: "(OutboundKey, TrackedTarget) hashmap"
  retiredUdpOutbound :: "(OutboundKey, RetiredUdpTarget list) hashmap"
  reflected :: "(ReflectedKey, RewriteTarget) hashmap"
  endpointKeys :: "(u64, (OutboundKey \<times> ReflectedKey) list) hashmap"
  udpBindings :: "(UdpBindingKey, (u64, u32) hashmap) hashmap"
  udpBindingKeys :: "(u64, UdpBindingKey) hashmap"
  fragmentDecisions :: "(FragmentKey, FragmentDecision) hashmap"
  nextReflectedPort :: u16

definition FlowState_default :: FlowState where
  "FlowState_default =
     \<lparr>outbound = [], retiredUdpOutbound = [], reflected = [], endpointKeys = [],
      udpBindings = [], udpBindingKeys = [], fragmentDecisions = [],
      nextReflectedPort = firstReflectedPort\<rparr>"

text \<open>The bounded wake-up channel: a full channel drops the signal, which carries no data.\<close>

record SyncSender =
  ss_capacity :: nat
  ss_queued :: nat

definition try_send :: "SyncSender \<Rightarrow> SyncSender" where
  "try_send s = (if ss_queued s < ss_capacity s then s\<lparr>ss_queued := Suc (ss_queued s)\<rparr> else s)"

record CaptureFlowTable =
  flowState :: FlowState
  associationNotifier :: "SyncSender option"

section \<open>Construction of flows\<close>

definition CaptureFlow_transport ::
  "u32 \<Rightarrow> u64 \<Rightarrow> IpAddr \<Rightarrow> u16 \<Rightarrow> IpAddr \<Rightarrow> u16 \<Rightarrow> u8 \<Rightarrow> CaptureFlow option" where
  "CaptureFlow_transport processId endpointId localAddress localPort remoteAddress remotePort protocol =
     (let localAddress = normalizeIpAddress localAddress;
          remoteAddress = normalizeIpAddress remoteAddress
      in if localPort = 0 \<or> remotePort = 0 \<or> is_loopback remoteAddress
            \<or> is_ipv4 localAddress \<noteq> is_ipv4 remoteAddress
         then None
         else Some \<lparr>cf_processId = processId, cf_endpointId = endpointId,
                    cf_localAddress = localAddress, cf_localPort = localPort,
                    cf_remoteAddress = remoteAddress, cf_remotePort = remotePort,
                    cf_protocol = protocol\<rparr>)"

definition CaptureFlow_tcp :: "u32 \<Rightarrow> u64 \<Rightarrow> IpAddr \<Rightarrow> u16 \<Rightarrow> IpAddr \<Rightarrow> u16 \<Rightarrow> CaptureFlow option" where
  "CaptureFlow_tcp processId endpointId localAddress localPort remoteAddress remotePort =
     CaptureFlow_transport processId endpointId localAddress localPort remoteAddress remotePort
       tcpProtocol"

definition CaptureFlow_udp :: "u32 \<Rightarrow> u64 \<Rightarrow> IpAddr \<Rightarrow> u16 \<Rightarrow> IpAddr \<Rightarrow> u16 \<Rightarrow> CaptureFlow option" where
  "CaptureFlow_udp processId endpointId localAddress localPort remoteAddress remotePort =
     CaptureFlow_transport processId endpointId localAddress localPort remoteAddress remotePort
       udpProtocol"

definition resolveProxyAddress :: "IpAddr \<Rightarrow> IpAddr \<Rightarrow> IpAddr option" where
  "resolveProxyAddress originalLocalAddress configuredProxyAddress =
     (let configuredProxyAddress = normalizeIpAddress configuredProxyAddress
      in if is_unspecified configuredProxyAddress
         then Some (if is_ipv4 originalLocalAddress then V4 ipv4_localhost else V6 ipv6_localhost)
         else if is_ipv4 configuredProxyAddress = is_ipv4 originalLocalAddress
              then Some configuredProxyAddress else None)"

definition withIpv6Scope :: "OriginalTarget \<Rightarrow> u32 \<Rightarrow> OriginalTarget" where
  "withIpv6Scope target interfaceIndex =
     \<lparr>ot_processId = ot_processId target,
      ot_address = (case ot_address target of
          SocketAddrV6 ip port flowinfo scope \<Rightarrow>
            if is_unicast_link_local ip \<and> scope = 0
            then SocketAddrV6 ip port flowinfo interfaceIndex
            else SocketAddrV6 ip port flowinfo scope
        | SocketAddrV4 ip port \<Rightarrow> SocketAddrV4 ip port)\<rparr>"

section \<open>Sections that run under the write lock\<close>

definition removeUdpBindingLocked :: "u64 \<Rightarrow> FlowState \<Rightarrow> FlowState" where
  "removeUdpBindingLocked endpointId state =
     (case hm_get (udpBindingKeys state) endpointId of
        None \<Rightarrow> state
      | Some bindingKey \<Rightarrow>
          (let state = state\<lparr>udpBindingKeys := hm_remove endpointId (udpBindingKeys state)\<rparr>
           in case hm_get (udpBindings state) bindingKey of
                None \<Rightarrow> state
              | Some bindings \<Rightarrow>
                  (let bindings = hm_remove endpointId bindings
                   in if bindings = []
                      then state\<lparr>udpBindings := hm_remove bindingKey (udpBindings state)\<rparr>
                      else state\<lparr>udpBindings := hm_insert bindingKey bindings (udpBindings state)\<rparr>)))"

definition retireOutbound ::
  "instant \<Rightarrow> int option \<Rightarrow> OutboundKey \<Rightarrow> FlowState \<Rightarrow> FlowState" where
  "retireOutbound now retiredAtCounter outboundKey state =
     (case hm_get (outbound state) outboundKey of
        None \<Rightarrow> state
      | Some tracked \<Rightarrow>
          (let state = state\<lparr>outbound := hm_remove outboundKey (outbound state)\<rparr>
           in if ok_protocol outboundKey = udpProtocol
              then state\<lparr>retiredUdpOutbound :=
                     hm_insert outboundKey
                       (hm_entry_or (retiredUdpOutbound state) outboundKey [] @
                        [\<lparr>ru_rewrite = tt_rewrite tracked,
                          ru_activeFromCounter = tt_activeFromCounter tracked,
                          ru_retiredAt = now, ru_retiredAtCounter = retiredAtCounter\<rparr>])
                       (retiredUdpOutbound state)\<rparr>
              else state))"

fun removeEndpointKeys ::
  "instant \<Rightarrow> int option \<Rightarrow> (OutboundKey \<times> ReflectedKey) list \<Rightarrow> FlowState \<Rightarrow> FlowState" where
  "removeEndpointKeys now retiredAtCounter [] state = state"
| "removeEndpointKeys now retiredAtCounter ((outboundKey, reflectedKey) # keys) state =
     (let state = retireOutbound now retiredAtCounter outboundKey state
      in removeEndpointKeys now retiredAtCounter keys
           (state\<lparr>reflected := hm_remove reflectedKey (reflected state)\<rparr>))"

definition blocks_endpoint :: "u64 \<Rightarrow> FragmentDecision \<Rightarrow> bool" where
  "blocks_endpoint endpointId decision =
     (case fd_action decision of Allow \<Rightarrow> False | Block decisionEndpointId _ \<Rightarrow> decisionEndpointId = endpointId)"

definition removeEndpointLocked ::
  "instant \<Rightarrow> u64 \<Rightarrow> int option \<Rightarrow> FlowState \<Rightarrow> FlowState" where
  "removeEndpointLocked now endpointId retiredAtCounter state =
     (let state = (case hm_get (endpointKeys state) endpointId of
             None \<Rightarrow> state
           | Some keys \<Rightarrow>
               removeEndpointKeys now retiredAtCounter keys
                 (state\<lparr>endpointKeys := hm_remove endpointId (endpointKeys state)\<rparr>));
          state = removeUdpBindingLocked endpointId state
      in state\<lparr>fragmentDecisions :=
           hm_retain (\<lambda>_ decision. \<not> blocks_endpoint endpointId decision) (fragmentDecisions state)\<rparr>)"

definition pruneFragmentState :: "instant \<Rightarrow> FlowState \<Rightarrow> FlowState" where
  "pruneFragmentState now state =
     state\<lparr>fragmentDecisions :=
       hm_retain (\<lambda>_ decision. now < fd_expiresAt decision) (fragmentDecisions state)\<rparr>"

text \<open>The candidate loop runs \<open>u16::MAX\<close> times, so its counter is the recursion argument.\<close>

fun allocateLoop :: "nat \<Rightarrow> FlowState \<Rightarrow> IpAddr \<Rightarrow> IpAddr \<Rightarrow> u16 \<Rightarrow> u8 \<Rightarrow> u16 option \<times> FlowState" where
  "allocateLoop 0 state localAddress remoteAddress proxyPort protocol = (None, state)"
| "allocateLoop (Suc n) state localAddress remoteAddress proxyPort protocol =
     (let candidate = nextReflectedPort state;
          state = state\<lparr>nextReflectedPort := (if candidate = 65535 then 1 else candidate + 1)\<rparr>;
          key = \<lparr>rk_localAddress = localAddress, rk_localPort = candidate,
                 rk_remoteAddress = remoteAddress, rk_protocol = protocol\<rparr>
      in if candidate \<noteq> proxyPort \<and> \<not> hm_contains (reflected state) key
         then (Some candidate, state)
         else allocateLoop n state localAddress remoteAddress proxyPort protocol)"

definition allocateReflectedPort ::
  "FlowState \<Rightarrow> IpAddr \<Rightarrow> IpAddr \<Rightarrow> u16 \<Rightarrow> u8 \<Rightarrow> u16 option \<times> FlowState" where
  "allocateReflectedPort = allocateLoop 65535"

definition flow_key :: "CaptureFlow \<Rightarrow> OutboundKey" where
  "flow_key flow =
     \<lparr>ok_localAddress = cf_localAddress flow, ok_localPort = cf_localPort flow,
      ok_remoteAddress = cf_remoteAddress flow, ok_remotePort = cf_remotePort flow,
      ok_protocol = cf_protocol flow\<rparr>"

definition flow_target :: "CaptureFlow \<Rightarrow> OriginalTarget" where
  "flow_target flow =
     \<lparr>ot_processId = cf_processId flow,
      ot_address = SocketAddr_new (cf_remoteAddress flow) (cf_remotePort flow)\<rparr>"

text \<open>The tail of \<open>insertAt\<close>: the three indices are extended once a port is allocated.\<close>

definition recordFlow ::
  "CaptureFlow \<Rightarrow> IpAddr \<Rightarrow> u16 \<Rightarrow> int option \<Rightarrow> FlowState \<Rightarrow> FlowState" where
  "recordFlow flow proxyAddress reflectedPort activeFromCounter state =
     (let outboundKey = flow_key flow;
          reflectedKey = \<lparr>rk_localAddress = proxyAddress, rk_localPort = reflectedPort,
                          rk_remoteAddress = proxyAddress, rk_protocol = cf_protocol flow\<rparr>;
          rewrite = \<lparr>rt_endpointId = cf_endpointId flow, rt_original = flow_target flow,
                     rt_originalLocalAddress = cf_localAddress flow,
                     rt_proxyAddress = proxyAddress, rt_originalLocalPort = cf_localPort flow,
                     rt_reflectedPort = reflectedPort, rt_originalInterface = None\<rparr>
      in state\<lparr>outbound := hm_insert outboundKey
                 \<lparr>tt_endpointId = cf_endpointId flow, tt_rewrite = rewrite,
                  tt_activeFromCounter = activeFromCounter\<rparr> (outbound state),
               reflected := hm_insert reflectedKey rewrite (reflected state),
               endpointKeys := hm_insert (cf_endpointId flow)
                 (hm_entry_or (endpointKeys state) (cf_endpointId flow) []
                  @ [(outboundKey, reflectedKey)]) (endpointKeys state)\<rparr>)"

definition finishInsert ::
  "CaptureFlow \<Rightarrow> IpAddr \<Rightarrow> u16 \<Rightarrow> int option \<Rightarrow> FlowState \<Rightarrow> bool \<times> FlowState" where
  "finishInsert flow proxyAddress proxyPort activeFromCounter state =
     (case allocateReflectedPort state proxyAddress proxyAddress proxyPort (cf_protocol flow) of
        (None, state) \<Rightarrow> (False, state)
      | (Some reflectedPort, state) \<Rightarrow>
          (True, recordFlow flow proxyAddress reflectedPort activeFromCounter state))"

definition insertAtLocked ::
  "instant \<Rightarrow> CaptureFlow \<Rightarrow> IpAddr \<Rightarrow> u16 \<Rightarrow> int option \<Rightarrow> FlowState \<Rightarrow> bool \<times> FlowState" where
  "insertAtLocked now flow configuredProxyAddress proxyPort activeFromCounter state =
     (case resolveProxyAddress (cf_localAddress flow) configuredProxyAddress of
        None \<Rightarrow> (False, state)
      | Some proxyAddress \<Rightarrow>
          (let state = (if cf_protocol flow = tcpProtocol
                        then removeEndpointLocked now (cf_endpointId flow) None state else state)
           in case hm_get (outbound state) (flow_key flow) of
                None \<Rightarrow> finishInsert flow proxyAddress proxyPort activeFromCounter state
              | Some previous \<Rightarrow>
                  if tt_endpointId previous = cf_endpointId flow then (False, state)
                  else finishInsert flow proxyAddress proxyPort activeFromCounter
                         (removeEndpointLocked now (tt_endpointId previous)
                           (if cf_protocol flow = udpProtocol then activeFromCounter else None) state)))"

definition insertAt ::
  "instant \<Rightarrow> CaptureFlow \<Rightarrow> IpAddr \<Rightarrow> u16 \<Rightarrow> int option \<Rightarrow> CaptureFlowTable \<Rightarrow> bool \<times> CaptureFlowTable" where
  "insertAt now flow configuredProxyAddress proxyPort activeFromCounter table =
     (case insertAtLocked now flow configuredProxyAddress proxyPort activeFromCounter (flowState table) of
        (False, state) \<Rightarrow> (False, table\<lparr>flowState := state\<rparr>)
      | (True, state) \<Rightarrow>
          (True, table\<lparr>flowState := state,
                       associationNotifier := map_option try_send (associationNotifier table)\<rparr>))"

definition insert_flow ::
  "instant \<Rightarrow> CaptureFlow \<Rightarrow> IpAddr \<Rightarrow> u16 \<Rightarrow> CaptureFlowTable \<Rightarrow> bool \<times> CaptureFlowTable" where
  "insert_flow now flow configuredProxyAddress proxyPort table =
     insertAt now flow configuredProxyAddress proxyPort None table"

definition setAssociationNotifier :: "SyncSender option \<Rightarrow> CaptureFlowTable \<Rightarrow> CaptureFlowTable" where
  "setAssociationNotifier notifier table = table\<lparr>associationNotifier := notifier\<rparr>"

definition removeEndpoint :: "instant \<Rightarrow> u64 \<Rightarrow> FlowState \<Rightarrow> FlowState" where
  "removeEndpoint now endpointId state = removeEndpointLocked now endpointId None state"

definition removeEndpointsAt :: "instant \<Rightarrow> u64 list \<Rightarrow> int \<Rightarrow> FlowState \<Rightarrow> FlowState" where
  "removeEndpointsAt now endpointIds eventTimestamp state =
     fold (\<lambda>endpointId. removeEndpointLocked now endpointId (Some eventTimestamp)) endpointIds state"

definition addUdpBinding :: "u32 \<Rightarrow> u64 \<Rightarrow> IpAddr \<Rightarrow> u16 \<Rightarrow> FlowState \<Rightarrow> FlowState" where
  "addUdpBinding processId endpointId localAddress localPort state =
     (let key = \<lparr>bk_localAddress = localAddress, bk_localPort = localPort\<rparr>;
          state = removeUdpBindingLocked endpointId state
      in state\<lparr>udpBindings := hm_insert key
                 (hm_insert endpointId processId (hm_entry_or (udpBindings state) key []))
                 (udpBindings state),
               udpBindingKeys := hm_insert endpointId key (udpBindingKeys state)\<rparr>)"

definition registerUdpBinding ::
  "u32 \<Rightarrow> u64 \<Rightarrow> IpAddr \<Rightarrow> u16 \<Rightarrow> FlowState \<Rightarrow> bool \<times> FlowState" where
  "registerUdpBinding processId endpointId localAddress localPort state =
     (let localAddress = normalizeIpAddress localAddress
      in if localPort = 0 \<or> is_loopback localAddress then (False, state)
         else (True, addUdpBinding processId endpointId localAddress localPort state))"

definition replaceUdpOwnerBindings ::
  "instant \<Rightarrow> u64 list \<Rightarrow> (u32 \<times> u64 \<times> IpAddr \<times> u16) list \<Rightarrow> FlowState \<Rightarrow> FlowState" where
  "replaceUdpOwnerBindings now removedEndpointIds additions state =
     fold (\<lambda>(processId, endpointId, localAddress, localPort) state.
             let localAddress = normalizeIpAddress localAddress
             in if localPort = 0 \<or> is_loopback localAddress then state
                else addUdpBinding processId endpointId localAddress localPort state)
       additions
       (fold (\<lambda>endpointId. removeEndpointLocked now endpointId None) removedEndpointIds state)"

section \<open>Lookups\<close>

definition find_map_key :: "OutboundKey \<Rightarrow> (OutboundKey \<times> ReflectedKey) list \<Rightarrow> ReflectedKey option" where
  "find_map_key key keys = map_of keys key"

text \<open>\<open>iter_mut().find(..)\<close>: only the first matching pair is rewritten.\<close>

fun replaceFirstKey ::
  "OutboundKey \<Rightarrow> OutboundKey \<Rightarrow> (OutboundKey \<times> ReflectedKey) list \<Rightarrow> (OutboundKey \<times> ReflectedKey) list" where
  "replaceFirstKey old new [] = []"
| "replaceFirstKey old new ((outboundKey, reflectedKey) # keys) =
     (if outboundKey = old then (new, reflectedKey) # keys
      else (outboundKey, reflectedKey) # replaceFirstKey old new keys)"

definition outboundTransportTarget ::
  "u8 \<Rightarrow> IpAddr \<Rightarrow> u16 \<Rightarrow> IpAddr \<Rightarrow> u16 \<Rightarrow> FlowState \<Rightarrow> RewriteTarget option \<times> FlowState" where
  "outboundTransportTarget protocol localAddress localPort remoteAddress remotePort state =
     (let key = \<lparr>ok_localAddress = normalizeIpAddress localAddress, ok_localPort = localPort,
                 ok_remoteAddress = normalizeIpAddress remoteAddress, ok_remotePort = remotePort,
                 ok_protocol = protocol\<rparr>
      in case hm_get (outbound state) key of
           Some tracked \<Rightarrow> (Some (tt_rewrite tracked), state)
         | None \<Rightarrow>
             (let wildcardKey = key\<lparr>ok_localAddress := wildcard_address (ok_localAddress key)\<rparr>
              in case hm_get (outbound state) wildcardKey of
                   None \<Rightarrow> (None, state)
                 | Some tracked \<Rightarrow>
                     (case hm_get (endpointKeys state) (tt_endpointId tracked) of
                        None \<Rightarrow> (None, state)
                      | Some keys \<Rightarrow>
                          (case find_map_key wildcardKey keys of
                             None \<Rightarrow> (None, state)
                           | Some reflectedKey \<Rightarrow>
                               (let rewrite = (tt_rewrite tracked)\<lparr>rt_originalLocalAddress := ok_localAddress key\<rparr>;
                                    tracked = tracked\<lparr>tt_rewrite := rewrite\<rparr>
                                in (Some rewrite,
                                    state\<lparr>outbound := hm_insert key tracked
                                             (hm_remove wildcardKey (outbound state)),
                                          reflected := hm_insert reflectedKey rewrite (reflected state),
                                          endpointKeys := hm_insert (tt_endpointId tracked)
                                             (replaceFirstKey wildcardKey key keys)
                                             (endpointKeys state)\<rparr>))))))"

definition outboundTarget ::
  "IpAddr \<Rightarrow> u16 \<Rightarrow> IpAddr \<Rightarrow> u16 \<Rightarrow> FlowState \<Rightarrow> RewriteTarget option \<times> FlowState" where
  "outboundTarget localAddress localPort remoteAddress remotePort state =
     outboundTransportTarget tcpProtocol localAddress localPort remoteAddress remotePort state"

definition reflectedTransportTarget ::
  "u8 \<Rightarrow> IpAddr \<Rightarrow> u16 \<Rightarrow> IpAddr \<Rightarrow> FlowState \<Rightarrow> RewriteTarget option" where
  "reflectedTransportTarget protocol localAddress localPort remoteAddress state =
     hm_get (reflected state)
       \<lparr>rk_localAddress = normalizeIpAddress localAddress, rk_localPort = localPort,
        rk_remoteAddress = normalizeIpAddress remoteAddress, rk_protocol = protocol\<rparr>"

definition reflectedTarget :: "IpAddr \<Rightarrow> u16 \<Rightarrow> IpAddr \<Rightarrow> FlowState \<Rightarrow> RewriteTarget option" where
  "reflectedTarget localAddress localPort remoteAddress state =
     reflectedTransportTarget tcpProtocol localAddress localPort remoteAddress state"

definition originalTargetForPeer :: "IpAddr \<Rightarrow> SocketAddr \<Rightarrow> FlowState \<Rightarrow> OriginalTarget option" where
  "originalTargetForPeer localAddress peer state =
     map_option rt_original (reflectedTarget localAddress (sa_port peer) (sa_ip peer) state)"

definition inboundTransportTarget ::
  "u8 \<Rightarrow> IpAddr \<Rightarrow> u16 \<Rightarrow> IpAddr \<Rightarrow> u16 \<Rightarrow> FlowState \<Rightarrow> RewriteTarget option" where
  "inboundTransportTarget protocol remoteAddress remotePort localAddress localPort state =
     map_option tt_rewrite (hm_get (outbound state)
       \<lparr>ok_localAddress = normalizeIpAddress localAddress, ok_localPort = localPort,
        ok_remoteAddress = normalizeIpAddress remoteAddress, ok_remotePort = remotePort,
        ok_protocol = protocol\<rparr>)"

definition active_at :: "int option \<Rightarrow> int \<Rightarrow> bool" where
  "active_at activeFrom counter = (case activeFrom of None \<Rightarrow> True | Some a \<Rightarrow> a \<le> counter)"

definition retired_covers :: "instant \<Rightarrow> int \<Rightarrow> RetiredUdpTarget \<Rightarrow> bool" where
  "retired_covers capturedAt capturedAtCounter retired =
     (active_at (ru_activeFromCounter retired) capturedAtCounter
      \<and> (case ru_retiredAtCounter retired of
            None \<Rightarrow> capturedAt \<le> ru_retiredAt retired
          | Some retiredAt \<Rightarrow> capturedAtCounter < retiredAt))"

definition udpTargetAt ::
  "IpAddr \<Rightarrow> u16 \<Rightarrow> IpAddr \<Rightarrow> u16 \<Rightarrow> instant \<Rightarrow> int \<Rightarrow> FlowState \<Rightarrow> RewriteTarget option" where
  "udpTargetAt localAddress localPort remoteAddress remotePort capturedAt capturedAtCounter state =
     (let key = \<lparr>ok_localAddress = normalizeIpAddress localAddress, ok_localPort = localPort,
                 ok_remoteAddress = normalizeIpAddress remoteAddress, ok_remotePort = remotePort,
                 ok_protocol = udpProtocol\<rparr>;
          retired = (case hm_get (retiredUdpOutbound state) key of
             None \<Rightarrow> None
           | Some versions \<Rightarrow>
               map_option ru_rewrite (find (retired_covers capturedAt capturedAtCounter) (rev versions)))
      in case hm_get (outbound state) key of
           Some current \<Rightarrow>
             if active_at (tt_activeFromCounter current) capturedAtCounter
             then Some (tt_rewrite current) else retired
         | None \<Rightarrow> retired)"

definition advanceUdpObservationWatermark :: "int \<Rightarrow> FlowState \<Rightarrow> FlowState" where
  "advanceUdpObservationWatermark processedCounter state =
     state\<lparr>retiredUdpOutbound :=
       filter (\<lambda>e. snd e \<noteq> [])
         (map (\<lambda>e. (fst e, filter (\<lambda>retired. case ru_retiredAtCounter retired of
              None \<Rightarrow> True | Some retiredAt \<Rightarrow> processedCounter \<le> retiredAt) (snd e)))
            (retiredUdpOutbound state))\<rparr>"

section \<open>Fragment decisions\<close>

definition fk_order :: "FragmentKey \<Rightarrow> IpAddr \<times> IpAddr \<times> u32 \<times> u8 \<times> bool" where
  "fk_order key = (fk_sourceAddress key, fk_destinationAddress key, fk_identification key,
     fk_protocol key, fk_outbound key)"

definition recordFragmentDecisionAt ::
  "FragmentKey \<Rightarrow> FragmentAction \<Rightarrow> instant \<Rightarrow> FlowState \<Rightarrow> FragmentRecordResult \<times> FlowState" where
  "recordFragmentDecisionAt key action now state =
     (let state = pruneFragmentState now state;
          endpointGone = (case action of Allow \<Rightarrow> False
            | Block endpointId _ \<Rightarrow> \<not> hm_contains (endpointKeys state) endpointId);
          alreadyBlocked = (action = Allow \<and>
            (case hm_get (fragmentDecisions state) key of
               None \<Rightarrow> False
             | Some entry \<Rightarrow> (case fd_action entry of Allow \<Rightarrow> False | Block _ _ \<Rightarrow> True)))
      in if endpointGone then (EndpointGone, state)
         else if alreadyBlocked then (Recorded, state)
         else
           (let decisions = fragmentDecisions state;
                decisions =
                  (if maximumFragmentDecisions \<le> length decisions \<and> \<not> hm_contains decisions key
                   then (case min_by_key (\<lambda>e. (fd_expiresAt (snd e), fk_order (fst e))) decisions of
                           None \<Rightarrow> decisions
                         | Some e \<Rightarrow> hm_remove (fst e) decisions)
                   else decisions)
            in (Recorded, state\<lparr>fragmentDecisions :=
                  hm_insert key \<lparr>fd_action = action,
                    fd_expiresAt = now + fragmentDecisionLifetime\<rparr> decisions\<rparr>)))"

definition fragmentLookupAt :: "FragmentKey \<Rightarrow> instant \<Rightarrow> FlowState \<Rightarrow> FragmentLookup \<times> FlowState" where
  "fragmentLookupAt key now state =
     (let state = pruneFragmentState now state
      in (case hm_get (fragmentDecisions state) key of
            None \<Rightarrow> LookupUnknown
          | Some entry \<Rightarrow> (case fd_action entry of
                Allow \<Rightarrow> LookupAllow | Block _ target \<Rightarrow> LookupBlock target), state))"

section \<open>Selection changes and interfaces\<close>

definition retainProcessIds :: "instant \<Rightarrow> u32 set \<Rightarrow> FlowState \<Rightarrow> FlowState" where
  "retainProcessIds now selectedProcessIds state =
     (let removedEndpointIds =
            map tt_endpointId (filter (\<lambda>target. ot_processId (rt_original (tt_rewrite target)) \<notin> selectedProcessIds)
              (map snd (outbound state)));
          state = fold (\<lambda>endpointId. removeEndpointLocked now endpointId None) removedEndpointIds state;
          removedBindingEndpointIds =
            map fst (filter (\<lambda>(_, processId). processId \<notin> selectedProcessIds)
              (concat (map snd (udpBindings state))))
      in fold removeUdpBindingLocked removedBindingEndpointIds state)"

definition set_original :: "NetworkInterface \<Rightarrow> OriginalTarget \<Rightarrow> RewriteTarget \<Rightarrow> RewriteTarget" where
  "set_original originalInterface scopedOriginal target =
     target\<lparr>rt_originalInterface := Some originalInterface, rt_original := scopedOriginal\<rparr>"

definition setTransportReflectedInterface ::
  "u8 \<Rightarrow> IpAddr \<Rightarrow> u16 \<Rightarrow> IpAddr \<Rightarrow> NetworkInterface \<Rightarrow> FlowState \<Rightarrow> bool \<times> FlowState" where
  "setTransportReflectedInterface protocol proxyAddress reflectedPort remoteAddress originalInterface state =
     (let key = \<lparr>rk_localAddress = normalizeIpAddress proxyAddress, rk_localPort = reflectedPort,
                 rk_remoteAddress = normalizeIpAddress remoteAddress, rk_protocol = protocol\<rparr>
      in case hm_get (reflected state) key of
           None \<Rightarrow> (False, state)
         | Some existing \<Rightarrow>
             (let scopedOriginal = withIpv6Scope (rt_original existing) (ni_interfaceIndex originalInterface);
                  update = set_original originalInterface scopedOriginal;
                  outboundKeys = map fst (hm_entry_or (endpointKeys state) (rt_endpointId existing) [])
              in (True, state\<lparr>reflected := hm_modify key update (reflected state),
                              outbound := fold (\<lambda>outboundKey. hm_modify outboundKey
                                  (\<lambda>target. target\<lparr>tt_rewrite := update (tt_rewrite target)\<rparr>))
                                outboundKeys (outbound state)\<rparr>)))"

definition setReflectedInterface ::
  "IpAddr \<Rightarrow> u16 \<Rightarrow> IpAddr \<Rightarrow> NetworkInterface \<Rightarrow> FlowState \<Rightarrow> bool \<times> FlowState" where
  "setReflectedInterface proxyAddress reflectedPort remoteAddress originalInterface state =
     setTransportReflectedInterface tcpProtocol proxyAddress reflectedPort remoteAddress
       originalInterface state"

section \<open>UDP association\<close>

definition udpBindingCandidate :: "IpAddr \<Rightarrow> u16 \<Rightarrow> FlowState \<Rightarrow> (u64 \<times> u32) option" where
  "udpBindingCandidate localAddress localPort state =
     (let exact = hm_entry_or (udpBindings state)
            \<lparr>bk_localAddress = localAddress, bk_localPort = localPort\<rparr> [];
          wildcard = hm_entry_or (udpBindings state)
            \<lparr>bk_localAddress = wildcard_address localAddress, bk_localPort = localPort\<rparr> [];
          candidates = remdups_adj (sort (exact @ wildcard))
      in case candidates of
           [] \<Rightarrow> None
         | first # _ \<Rightarrow>
             if \<forall>candidate \<in> set candidates. snd candidate = snd first then Some first else None)"

definition lookupUdp ::
  "instant \<Rightarrow> UdpAssociationRequest \<Rightarrow> CaptureFlowTable \<Rightarrow> RewriteTarget option \<times> CaptureFlowTable" where
  "lookupUdp now request table =
     (case ua_capturedAtCounter request of
        None \<Rightarrow>
          (case outboundTransportTarget udpProtocol (ua_localAddress request) (ua_localPort request)
                  (ua_remoteAddress request) (ua_remotePort request) (flowState table) of
             (target, state) \<Rightarrow> (target, table\<lparr>flowState := state\<rparr>))
      | Some capturedAtCounter \<Rightarrow>
          (udpTargetAt (ua_localAddress request) (ua_localPort request) (ua_remoteAddress request)
             (ua_remotePort request) now capturedAtCounter (flowState table), table))"

text \<open>
  \<open>others i\<close> is the effect of the other threads between the \<open>i\<close>-th and the next lock section, and
  \<open>clock i\<close> the clock reading of section \<open>i\<close>.
\<close>

definition associateUdpOutboundAt ::
  "(nat \<Rightarrow> CaptureFlowTable \<Rightarrow> CaptureFlowTable) \<Rightarrow> (nat \<Rightarrow> instant) \<Rightarrow> UdpAssociationRequest \<Rightarrow>
   CaptureFlowTable \<Rightarrow> RewriteTarget option \<times> CaptureFlowTable" where
  "associateUdpOutboundAt others clock request table =
     (case lookupUdp (clock 0) request table of
        (Some target, table) \<Rightarrow> (Some target, table)
      | (None, table) \<Rightarrow>
          (let table = others 0 table;
               localAddress = normalizeIpAddress (ua_localAddress request);
               remoteAddress = normalizeIpAddress (ua_remoteAddress request)
           in case udpBindingCandidate localAddress (ua_localPort request) (flowState table) of
                None \<Rightarrow> (None, table)
              | Some (endpointId, processId) \<Rightarrow>
                  (case CaptureFlow_udp processId endpointId localAddress (ua_localPort request)
                          remoteAddress (ua_remotePort request) of
                     None \<Rightarrow> (None, table)
                   | Some flow \<Rightarrow>
                       (let table = snd (insertAt (clock 1) flow (ua_configuredProxyAddress request)
                              (ua_proxyPort request) (ua_capturedAtCounter request) (others 1 table))
                        in case lookupUdp (clock 2) request (others 2 table) of
                             (target, table) \<Rightarrow>
                               (let table = others 3 table;
                                    bindingStillActive =
                                      hm_contains (udpBindingKeys (flowState table)) endpointId
                                in (target,
                                    if bindingStillActive then table
                                    else (let table = others 4 table
                                          in table\<lparr>flowState :=
                                               removeEndpoint (clock 4) endpointId (flowState table)\<rparr>)))))))"

definition table_len :: "FlowState \<Rightarrow> nat" where
  "table_len state = length (outbound state)"

definition isEmpty :: "FlowState \<Rightarrow> bool" where
  "isEmpty state = (table_len state = 0)"

definition clear :: "FlowState \<Rightarrow> FlowState" where
  "clear state = FlowState_default"

end
