(* ===== verification/FlowIndex.thy ===== *)
theory FlowIndex
  imports FlowTable
begin

text \<open>
  The invariant that keeps the three indices of the flow table in step, stated on the lookup
  functions of the maps: every key pair an endpoint owns is present in the outbound and in the
  reflected index and both entries describe the same redirection, every entry is owned by the
  endpoint it names, and an endpoint that owns a TCP flow owns nothing else. The lemmas follow the
  four ways the code changes the indices: remove an endpoint, record a flow, promote a wildcard
  key, annotate the interface.
\<close>

section \<open>Links between the indices\<close>

type_synonym outbound_index = "OutboundKey \<Rightarrow> TrackedTarget option"
type_synonym reflected_index = "ReflectedKey \<Rightarrow> RewriteTarget option"
type_synonym endpoint_index = "u64 \<Rightarrow> (OutboundKey \<times> ReflectedKey) list option"

definition link :: "endpoint_index \<Rightarrow> u64 \<Rightarrow> OutboundKey \<Rightarrow> ReflectedKey \<Rightarrow> bool" where
  "link E ep okey rkey \<longleftrightarrow> (\<exists>ks. E ep = Some ks \<and> (okey, rkey) \<in> set ks)"

definition reply_key :: "RewriteTarget \<Rightarrow> u8 \<Rightarrow> ReflectedKey" where
  "reply_key r protocol =
     \<lparr>rk_localAddress = rt_proxyAddress r, rk_localPort = rt_reflectedPort r,
      rk_remoteAddress = rt_proxyAddress r, rk_protocol = protocol\<rparr>"

definition wf_key :: "OutboundKey \<Rightarrow> bool" where
  "wf_key k \<longleftrightarrow> normalizeIpAddress (ok_localAddress k) = ok_localAddress k
     \<and> normalizeIpAddress (ok_remoteAddress k) = ok_remoteAddress k
     \<and> is_ipv4 (ok_localAddress k) = is_ipv4 (ok_remoteAddress k)"

definition wf_rewrite :: "OutboundKey \<Rightarrow> RewriteTarget \<Rightarrow> bool" where
  "wf_rewrite k r \<longleftrightarrow> normalizeIpAddress (rt_proxyAddress r) = rt_proxyAddress r
     \<and> is_ipv4 (rt_proxyAddress r) = is_ipv4 (ok_localAddress k)
     \<and> rt_originalLocalAddress r = ok_localAddress k
     \<and> rt_originalLocalPort r = ok_localPort k
     \<and> rt_reflectedPort r \<noteq> 0"

definition wf_original :: "OutboundKey \<Rightarrow> RewriteTarget \<Rightarrow> bool" where
  "wf_original k r \<longleftrightarrow> sa_ip (ot_address (rt_original r)) = ok_remoteAddress k
     \<and> sa_port (ot_address (rt_original r)) = ok_remotePort k"

definition linked ::
  "u64 \<Rightarrow> OutboundKey \<Rightarrow> ReflectedKey \<Rightarrow> TrackedTarget \<Rightarrow> RewriteTarget \<Rightarrow> bool" where
  "linked ep okey rkey t r \<longleftrightarrow>
     tt_endpointId t = ep \<and> rt_endpointId (tt_rewrite t) = ep \<and> rt_endpointId r = ep
     \<and> rkey = reply_key r (ok_protocol okey)
     \<and> rt_proxyAddress (tt_rewrite t) = rt_proxyAddress r
     \<and> rt_reflectedPort (tt_rewrite t) = rt_reflectedPort r
     \<and> wf_key okey \<and> wf_rewrite okey r \<and> wf_rewrite okey (tt_rewrite t)
     \<and> (ok_protocol okey = tcpProtocol \<longrightarrow> tt_rewrite t = r \<and> wf_original okey r)"

definition idx_inv :: "outbound_index \<Rightarrow> reflected_index \<Rightarrow> endpoint_index \<Rightarrow> bool" where
  "idx_inv Out Ref E \<longleftrightarrow>
     (\<forall>ep ks. E ep = Some ks \<longrightarrow> ks \<noteq> [] \<and> distinct (map fst ks) \<and> distinct (map snd ks)
        \<and> (\<forall>okey rkey. (okey, rkey) \<in> set ks \<longrightarrow> ok_protocol okey = tcpProtocol \<longrightarrow> ks = [(okey, rkey)]))
     \<and> (\<forall>ep okey rkey. link E ep okey rkey \<longrightarrow>
          (\<exists>t r. Out okey = Some t \<and> Ref rkey = Some r \<and> linked ep okey rkey t r))
     \<and> (\<forall>okey t. Out okey = Some t \<longrightarrow> (\<exists>rkey. link E (tt_endpointId t) okey rkey))
     \<and> (\<forall>rkey r. Ref rkey = Some r \<longrightarrow> (\<exists>okey. link E (rt_endpointId r) okey rkey))"

lemma idx_inv_empty [simp]: "idx_inv (\<lambda>_. None) (\<lambda>_. None) (\<lambda>_. None)"
  by (simp add: idx_inv_def link_def)

lemma idx_keys:
  "idx_inv Out Ref E \<Longrightarrow> E ep = Some ks \<Longrightarrow> ks \<noteq> [] \<and> distinct (map fst ks) \<and> distinct (map snd ks)"
  by (simp add: idx_inv_def)

lemma idx_tcp_single:
  "idx_inv Out Ref E \<Longrightarrow> E ep = Some ks \<Longrightarrow> (okey, rkey) \<in> set ks \<Longrightarrow> ok_protocol okey = tcpProtocol
   \<Longrightarrow> ks = [(okey, rkey)]"
  by (simp add: idx_inv_def)

lemma idx_link:
  assumes "idx_inv Out Ref E" and "link E ep okey rkey"
  obtains t r where "Out okey = Some t" and "Ref rkey = Some r" and "linked ep okey rkey t r"
  using assms unfolding idx_inv_def by blast

lemma idx_outbound:
  assumes "idx_inv Out Ref E" and "Out okey = Some t"
  obtains rkey where "link E (tt_endpointId t) okey rkey"
  using assms unfolding idx_inv_def by blast

lemma idx_reflected:
  assumes "idx_inv Out Ref E" and "Ref rkey = Some r"
  obtains okey where "link E (rt_endpointId r) okey rkey"
  using assms unfolding idx_inv_def by blast

lemma idx_outbound_ex: "idx_inv Out Ref E \<Longrightarrow> Out okey = Some t \<Longrightarrow> \<exists>rkey. link E (tt_endpointId t) okey rkey"
  by (simp add: idx_inv_def)

lemma idx_reflected_ex: "idx_inv Out Ref E \<Longrightarrow> Ref rkey = Some r \<Longrightarrow> \<exists>okey. link E (rt_endpointId r) okey rkey"
  by (simp add: idx_inv_def)

lemma linked_owner: "linked ep okey rkey t r \<Longrightarrow> tt_endpointId t = ep \<and> rt_endpointId r = ep
   \<and> rt_endpointId (tt_rewrite t) = ep"
  by (simp add: linked_def)

lemma linked_reply_key: "linked ep okey rkey t r \<Longrightarrow> rkey = reply_key (tt_rewrite t) (ok_protocol okey)"
  by (simp add: linked_def reply_key_def)

lemma link_reply_key:
  assumes "idx_inv Out Ref E" and "link E ep okey rkey" and "Out okey = Some t"
  shows "rkey = reply_key (tt_rewrite t) (ok_protocol okey)"
proof -
  from assms(1,2) obtain t' r where "Out okey = Some t'" "linked ep okey rkey t' r" by (rule idx_link)
  with assms(3) show ?thesis by (auto dest: linked_reply_key)
qed

lemma link_owner_outbound:
  assumes "idx_inv Out Ref E" and "link E ep okey rkey" and "link E ep' okey rkey'"
  shows "ep = ep'"
proof -
  from assms(1,2) obtain t r where "Out okey = Some t" "linked ep okey rkey t r"
    by (rule idx_link)
  moreover from assms(1,3) obtain t' r' where "Out okey = Some t'" "linked ep' okey rkey' t' r'"
    by (rule idx_link)
  ultimately show ?thesis by (simp add: linked_def)
qed

lemma link_owner_reflected:
  assumes "idx_inv Out Ref E" and "link E ep okey rkey" and "link E ep' okey' rkey"
  shows "ep = ep'"
proof -
  from assms(1,2) obtain t r where "Ref rkey = Some r" "linked ep okey rkey t r"
    by (rule idx_link)
  moreover from assms(1,3) obtain t' r' where "Ref rkey = Some r'" "linked ep' okey' rkey t' r'"
    by (rule idx_link)
  ultimately show ?thesis by (simp add: linked_def)
qed

section \<open>Removing an endpoint\<close>

definition drop_keys :: "'a set \<Rightarrow> ('a \<Rightarrow> 'b option) \<Rightarrow> 'a \<Rightarrow> 'b option" where
  "drop_keys S f = (\<lambda>k. if k \<in> S then None else f k)"

lemma drop_keys_Some [simp]: "drop_keys S f k = Some v \<longleftrightarrow> k \<notin> S \<and> f k = Some v"
  by (simp add: drop_keys_def)

lemma link_delete: "link (E(ep := None)) ep' okey rkey \<longleftrightarrow> ep' \<noteq> ep \<and> link E ep' okey rkey"
  by (auto simp: link_def)

lemma idx_remove:
  assumes inv: "idx_inv Out Ref E" and ks: "E ep = Some ks"
  shows "idx_inv (drop_keys (fst ` set ks) Out) (drop_keys (snd ` set ks) Ref) (E(ep := None))"
proof -
  have mine: "link E ep okey rkey" if "(okey, rkey) \<in> set ks" for okey rkey
    using that ks by (auto simp: link_def)
  have other_out: "okey \<notin> fst ` set ks" if "link E ep' okey rkey" "ep' \<noteq> ep" for ep' okey rkey
  proof
    assume "okey \<in> fst ` set ks"
    then obtain q where "link E ep okey q" using mine by fastforce
    from link_owner_outbound [OF inv that(1) this] that(2) show False by simp
  qed
  have other_ref: "rkey \<notin> snd ` set ks" if "link E ep' okey rkey" "ep' \<noteq> ep" for ep' okey rkey
  proof
    assume "rkey \<in> snd ` set ks"
    then obtain k where "link E ep k rkey" using mine by fastforce
    from link_owner_reflected [OF inv that(1) this] that(2) show False by simp
  qed
  have "\<exists>t r. Out okey = Some t \<and> Ref rkey = Some r \<and> linked ep' okey rkey t r"
    if "link E ep' okey rkey" for ep' okey rkey
    using idx_link [OF inv that] by blast
  moreover have "\<exists>rkey. tt_endpointId t \<noteq> ep \<and> link E (tt_endpointId t) okey rkey"
    if "Out okey = Some t" "okey \<notin> fst ` set ks" for okey t
  proof -
    from inv that(1) obtain rkey where l: "link E (tt_endpointId t) okey rkey" by (rule idx_outbound)
    with that(2) ks have "tt_endpointId t \<noteq> ep" by (force simp: link_def)
    with l show ?thesis by blast
  qed
  moreover have "\<exists>okey. rt_endpointId r \<noteq> ep \<and> link E (rt_endpointId r) okey rkey"
    if "Ref rkey = Some r" "rkey \<notin> snd ` set ks" for rkey r
  proof -
    from inv that(1) obtain okey where l: "link E (rt_endpointId r) okey rkey" by (rule idx_reflected)
    with that(2) ks have "rt_endpointId r \<noteq> ep" by (force simp: link_def)
    with l show ?thesis by blast
  qed
  moreover have "ks' \<noteq> [] \<and> distinct (map fst ks') \<and> distinct (map snd ks')
      \<and> (\<forall>okey rkey. (okey, rkey) \<in> set ks' \<longrightarrow> ok_protocol okey = tcpProtocol \<longrightarrow> ks' = [(okey, rkey)])"
    if "E ep' = Some ks'" for ep' ks'
    using inv that unfolding idx_inv_def by blast
  ultimately show ?thesis
    unfolding idx_inv_def link_delete
    using other_out other_ref by (simp add: drop_keys_def) blast
qed

section \<open>Recording a flow\<close>

lemma idx_insert:
  assumes inv: "idx_inv Out Ref E"
    and free: "Out okey = None" "Ref rkey = None"
    and lnk: "linked ep okey rkey t r"
    and ks: "ks = (case E ep of None \<Rightarrow> [] | Some ks \<Rightarrow> ks)"
    and tcp: "ok_protocol okey = tcpProtocol \<Longrightarrow> ks = []"
    and udp: "\<And>k. k \<in> fst ` set ks \<Longrightarrow> ok_protocol k \<noteq> tcpProtocol"
  shows "idx_inv (Out(okey \<mapsto> t)) (Ref(rkey \<mapsto> r)) (E(ep \<mapsto> ks @ [(okey, rkey)]))"
proof -
  let ?E = "E(ep \<mapsto> ks @ [(okey, rkey)])"
  have link': "link ?E ep' k q \<longleftrightarrow> link E ep' k q \<or> (ep' = ep \<and> k = okey \<and> q = rkey)" for ep' k q
    using ks by (auto simp: link_def split: option.splits)
  have fresh: "k \<noteq> okey \<and> q \<noteq> rkey" if "link E ep' k q" for ep' k q
    using idx_link [OF inv that] free by (metis option.distinct(1))
  have old_ks: "(k, q) \<in> set ks \<Longrightarrow> link E ep k q" for k q
    using ks by (auto simp: link_def split: option.splits)
  have dist: "distinct (map fst ks) \<and> distinct (map snd ks)"
    using ks inv by (auto simp: idx_inv_def split: option.splits)
  have nf: "okey \<notin> fst ` set ks" "rkey \<notin> snd ` set ks"
    using old_ks fresh by fastforce+
  have keys: "ks' \<noteq> [] \<and> distinct (map fst ks') \<and> distinct (map snd ks')
      \<and> (\<forall>k q. (k, q) \<in> set ks' \<longrightarrow> ok_protocol k = tcpProtocol \<longrightarrow> ks' = [(k, q)])"
    if "?E ep' = Some ks'" for ep' ks'
  proof (cases "ep' = ep")
    case True
    with that have ks': "ks' = ks @ [(okey, rkey)]" by simp
    have "ks' = [(k, q)]" if "(k, q) \<in> set ks'" "ok_protocol k = tcpProtocol" for k q
    proof -
      from that ks' udp [of k] have "(k, q) = (okey, rkey)" by force
      with that tcp ks' show ?thesis by auto
    qed
    with dist nf ks' show ?thesis by simp
  next
    case False
    with that inv show ?thesis unfolding idx_inv_def by simp
  qed
  have links: "\<exists>t' r'. (Out(okey \<mapsto> t)) k = Some t' \<and> (Ref(rkey \<mapsto> r)) q = Some r' \<and> linked ep' k q t' r'"
    if "link ?E ep' k q" for ep' k q
    using that lnk fresh idx_link [OF inv] unfolding link' by (metis fun_upd_other fun_upd_same)
  have outs: "\<exists>q. link ?E (tt_endpointId t') k q" if "(Out(okey \<mapsto> t)) k = Some t'" for k t'
    using that linked_owner [OF lnk] idx_outbound_ex [OF inv, of k t'] unfolding link'
    by (cases "k = okey") auto
  have refs: "\<exists>k. link ?E (rt_endpointId r') k q" if "(Ref(rkey \<mapsto> r)) q = Some r'" for q r'
    using that linked_owner [OF lnk] idx_reflected_ex [OF inv, of q r'] unfolding link'
    by (cases "q = rkey") auto
  show ?thesis
    unfolding idx_inv_def using keys links outs refs by blast
qed

section \<open>Promoting a wildcard key\<close>

lemma map_snd_replaceFirstKey [simp]: "map snd (replaceFirstKey w k ks) = map snd ks"
  by (induction w k ks rule: replaceFirstKey.induct) auto

lemma replaceFirstKey_eq_Nil [simp]: "replaceFirstKey w k ks = [] \<longleftrightarrow> ks = []"
  by (cases ks) (auto split: if_splits)

lemma set_replaceFirstKey:
  "distinct (map fst ks) \<Longrightarrow> map_of ks w = Some q \<Longrightarrow>
   set (replaceFirstKey w k ks) = insert (k, q) (set ks - {(w, q)})"
  by (induction w k ks rule: replaceFirstKey.induct) (auto simp: image_iff split: if_splits)

lemma distinct_replaceFirstKey:
  "distinct (map fst ks) \<Longrightarrow> k \<notin> fst ` set ks \<Longrightarrow> distinct (map fst (replaceFirstKey w k ks))
   \<and> fst ` set (replaceFirstKey w k ks) \<subseteq> insert k (fst ` set ks)"
  by (induction w k ks rule: replaceFirstKey.induct) auto

definition relocate :: "IpAddr \<Rightarrow> TrackedTarget \<Rightarrow> TrackedTarget" where
  "relocate a t = t\<lparr>tt_rewrite := (tt_rewrite t)\<lparr>rt_originalLocalAddress := a\<rparr>\<rparr>"

lemma linked_relocate:
  assumes "linked ep w q t r" and "wf_key k"
    and "k = w\<lparr>ok_localAddress := ok_localAddress k\<rparr>"
    and "is_ipv4 (ok_localAddress k) = is_ipv4 (ok_localAddress w)"
  shows "linked ep k q (relocate (ok_localAddress k) t) (tt_rewrite (relocate (ok_localAddress k) t))"
proof -
  from assms(3) have "ok_localPort k = ok_localPort w" "ok_remoteAddress k = ok_remoteAddress w"
    "ok_remotePort k = ok_remotePort w" "ok_protocol k = ok_protocol w"
    by (metis OutboundKey.select_convs(2-5) OutboundKey.surjective OutboundKey.update_convs(1))+
  with assms(1,2,4) show ?thesis
    by (auto simp: linked_def relocate_def reply_key_def wf_rewrite_def wf_original_def)
qed

lemma map_of_unique: "distinct (map fst ks) \<Longrightarrow> map_of ks w = Some q \<Longrightarrow> (w, b) \<in> set ks \<Longrightarrow> b = q"
  by (metis map_of_eq_Some_iff option.inject)

lemma link_promote:
  assumes inv: "idx_inv Out Ref E" and ks: "E ep = Some ks" and q: "map_of ks w = Some q"
  shows "link (E(ep \<mapsto> replaceFirstKey w k ks)) ep' a b \<longleftrightarrow>
    (link E ep' a b \<and> a \<noteq> w) \<or> (ep' = ep \<and> a = k \<and> b = q)"
proof (cases "ep' = ep")
  case True
  have dk: "distinct (map fst ks)" using idx_keys [OF inv ks] by simp
  from True ks show ?thesis
    by (auto simp: link_def set_replaceFirstKey [OF dk q] dest: map_of_unique [OF dk q])
next
  case False
  have "link E ep w q" using ks q by (auto simp: link_def dest: map_of_SomeD)
  with False have "a \<noteq> w" if "link E ep' a b"
    using link_owner_outbound [OF inv that] that by blast
  with False show ?thesis by (auto simp: link_def)
qed

lemma link_other_reflected:
  assumes inv: "idx_inv Out Ref E" and wq: "link E ep w q" and ab: "link E ep' a b" and aw: "a \<noteq> w"
  shows "b \<noteq> q"
proof
  assume "b = q"
  with ab have l: "link E ep' a q" by simp
  then have "ep' = ep" by (rule link_owner_reflected [OF inv _ wq])
  with l wq obtain ks where ks: "E ep = Some ks" "(a, q) \<in> set ks" "(w, q) \<in> set ks"
    by (auto simp: link_def)
  with idx_keys [OF inv ks(1)] aw show False by (fastforce simp: distinct_map inj_on_def)
qed

lemma promote_keys:
  assumes inv: "idx_inv Out Ref E" and ks: "E ep = Some ks" and q: "map_of ks w = Some q"
    and knot: "k \<notin> fst ` set ks" and pk: "ok_protocol k = ok_protocol w"
  shows "distinct (map fst (replaceFirstKey w k ks))
    \<and> ((a, b) \<in> set (replaceFirstKey w k ks) \<longrightarrow> ok_protocol a = tcpProtocol \<longrightarrow>
       replaceFirstKey w k ks = [(a, b)])"
proof -
  have dk: "distinct (map fst ks)" using idx_keys [OF inv ks] by simp
  have "replaceFirstKey w k ks = [(a, b)]"
    if "(a, b) \<in> set (replaceFirstKey w k ks)" "ok_protocol a = tcpProtocol"
  proof -
    from that have "\<exists>a' b'. (a', b') \<in> set ks \<and> ok_protocol a' = tcpProtocol"
      using map_of_SomeD [OF q] pk by (auto simp: set_replaceFirstKey [OF dk q])
    then obtain a' b' where "ks = [(a', b')]" using idx_tcp_single [OF inv ks] by blast
    with q that show ?thesis by (auto split: if_splits)
  qed
  with distinct_replaceFirstKey [OF dk knot] show ?thesis by blast
qed

lemma idx_promote:
  assumes inv: "idx_inv Out Ref E"
    and w: "Out w = Some t" and ks: "E (tt_endpointId t) = Some ks" and q: "map_of ks w = Some q"
    and k: "Out k = None" "wf_key k" "k = w\<lparr>ok_localAddress := ok_localAddress k\<rparr>"
      "is_ipv4 (ok_localAddress k) = is_ipv4 (ok_localAddress w)"
    and t': "t' = relocate (ok_localAddress k) t"
  shows "idx_inv ((Out(w := None))(k \<mapsto> t')) (Ref(q \<mapsto> tt_rewrite t'))
           (E(tt_endpointId t \<mapsto> replaceFirstKey w k ks))"
proof -
  let ?ep = "tt_endpointId t"
  let ?E = "E(?ep \<mapsto> replaceFirstKey w k ks)" and ?Out = "(Out(w := None))(k \<mapsto> t')"
    and ?Ref = "Ref(q \<mapsto> tt_rewrite t')"
  note link' = link_promote [OF inv ks q, of k]
  have wq: "link E ?ep w q" using ks q by (auto simp: link_def dest: map_of_SomeD)
  then obtain r where "linked ?ep w q t r" using inv w by (metis idx_link option.inject)
  then have lk: "linked ?ep k q t' (tt_rewrite t')"
    unfolding t' by (rule linked_relocate [OF _ k(2-4)])
  have fresh: "a \<noteq> k" if "link E ep a b" for ep a b
    using idx_link [OF inv that] k(1) by (metis option.distinct(1))
  have knot: "k \<notin> fst ` set ks" using fresh ks by (force simp: link_def)
  have pk: "ok_protocol k = ok_protocol w"
    using k(3) by (metis OutboundKey.select_convs(5) OutboundKey.surjective OutboundKey.update_convs(1))
  have keys: "ks' \<noteq> [] \<and> distinct (map fst ks') \<and> distinct (map snd ks')
      \<and> (\<forall>a b. (a, b) \<in> set ks' \<longrightarrow> ok_protocol a = tcpProtocol \<longrightarrow> ks' = [(a, b)])"
    if "?E ep' = Some ks'" for ep' ks'
  proof (cases "ep' = ?ep")
    case True
    with that have "ks' = replaceFirstKey w k ks" by simp
    with promote_keys [OF inv ks q knot pk] idx_keys [OF inv ks] show ?thesis by auto
  next
    case False
    with that inv show ?thesis unfolding idx_inv_def by simp
  qed
  have links: "\<exists>x y. ?Out a = Some x \<and> ?Ref b = Some y \<and> linked ep a b x y" if "link ?E ep a b" for ep a b
    using that lk fresh link_other_reflected [OF inv wq] idx_link [OF inv] unfolding link'
    by (metis fun_upd_other fun_upd_same)
  have outs: "\<exists>b. link ?E (tt_endpointId x) a b" if "?Out a = Some x" for a x
    using that linked_owner [OF lk] idx_outbound_ex [OF inv, of a x] unfolding link'
    by (auto split: if_splits)
  have refs: "\<exists>a. link ?E (rt_endpointId y) a b" if "?Ref b = Some y" for b y
  proof (cases "b = q")
    case True
    with that linked_owner [OF lk] show ?thesis unfolding link' by auto
  next
    case False
    with that obtain a where l: "link E (rt_endpointId y) a b" using idx_reflected [OF inv] by auto
    have "a \<noteq> w"
      using l link_owner_outbound [OF inv l, of ?ep q] wq ks False
        map_of_unique [OF _ q, of b] idx_keys [OF inv ks] by (auto simp: link_def)
    with l show ?thesis unfolding link' by blast
  qed
  show ?thesis
    unfolding idx_inv_def using keys links outs refs by blast
qed

section \<open>Annotating the interface\<close>

lemma withIpv6Scope_endpoint [simp]:
  "sa_ip (ot_address (withIpv6Scope o' i)) = sa_ip (ot_address o')"
  "sa_port (ot_address (withIpv6Scope o' i)) = sa_port (ot_address o')"
  "ot_processId (withIpv6Scope o' i) = ot_processId o'"
  by (auto simp: withIpv6Scope_def split: SocketAddr.splits)

definition annotate :: "(RewriteTarget \<Rightarrow> RewriteTarget) \<Rightarrow> TrackedTarget \<Rightarrow> TrackedTarget" where
  "annotate u t = t\<lparr>tt_rewrite := u (tt_rewrite t)\<rparr>"

lemma linked_annotate:
  assumes "linked ep okey rkey t r" and "u = set_original i so" and "r' = r \<or> r' = u r"
    and "ok_protocol okey = tcpProtocol \<Longrightarrow> r' = u r \<and> wf_original okey (u r)"
  shows "linked ep okey rkey (annotate u t) r'"
  using assms
  by (auto simp: linked_def annotate_def set_original_def wf_rewrite_def reply_key_def)

lemma idx_annotate:
  assumes inv: "idx_inv Out Ref E" and r: "Ref key = Some r"
    and ks: "E (rt_endpointId r) = Some ks"
    and u: "u = set_original i (withIpv6Scope (rt_original r) n)"
    and Out': "Out' = (\<lambda>k. if k \<in> fst ` set ks then map_option (annotate u) (Out k) else Out k)"
  shows "idx_inv Out' (Ref(key \<mapsto> u r)) E"
proof -
  let ?ep = "rt_endpointId r"
  obtain okey where "link E ?ep okey key" using idx_reflected [OF inv r] .
  then have okey: "(okey, key) \<in> set ks" using ks by (simp add: link_def)
  have "\<exists>x y. Out' a = Some x \<and> (Ref(key \<mapsto> u r)) b = Some y \<and> linked ep a b x y"
    if l: "link E ep a b" for ep a b
  proof -
    from inv l obtain x y where xy: "Out a = Some x" "Ref b = Some y" "linked ep a b x y" by (rule idx_link)
    show ?thesis
    proof (cases "a \<in> fst ` set ks")
      case True
      then obtain c where "(a, c) \<in> set ks" by force
      with ks l have ep: "ep = ?ep" using link_owner_outbound [OF inv l, of ?ep c] by (auto simp: link_def)
      have tcp: "b = key \<and> wf_original a (u y)" if "ok_protocol a = tcpProtocol"
      proof -
        from l ep ks have "(a, b) \<in> set ks" by (simp add: link_def)
        then have "ks = [(a, b)]" by (rule idx_tcp_single [OF inv ks _ that])
        with okey have "b = key" by simp
        with xy r that show ?thesis by (auto simp: linked_def u set_original_def wf_original_def)
      qed
      let ?y = "if b = key then u r else y"
      have "linked ep a b (annotate u x) ?y"
        by (rule linked_annotate [OF xy(3) u]) (use tcp xy r in auto)
      with True xy show ?thesis by (auto simp: Out')
    next
      case False
      with okey l ks have "b \<noteq> key"
        using link_owner_reflected [OF inv l, of ?ep okey] by (force simp: link_def)
      with False xy show ?thesis by (simp add: Out')
    qed
  qed
  moreover have "\<exists>b. link E (tt_endpointId x) a b" if "Out' a = Some x" for a x
    using that idx_outbound_ex [OF inv] by (auto simp: Out' annotate_def split: if_splits)
  moreover have "\<exists>a. link E (rt_endpointId y) a b" if "(Ref(key \<mapsto> u r)) b = Some y" for b y
    using that idx_reflected_ex [OF inv] r by (auto simp: u set_original_def split: if_splits)
  ultimately show ?thesis
    using inv unfolding idx_inv_def by blast
qed

end
