(* ===== verification/FlowInvariant.thy ===== *)
theory FlowInvariant
  imports FlowIndex
begin

text \<open>
  The invariant of the whole flow table and its preservation by every operation that changes it:
  the index invariant, the two-way UDP binding index, and the bounded table of fragment decisions
  whose blocking entries always name a live endpoint.
\<close>

section \<open>The invariant\<close>

definition bind_inv :: "(UdpBindingKey, (u64, u32) hashmap) hashmap \<Rightarrow> (u64, UdpBindingKey) hashmap \<Rightarrow> bool" where
  "bind_inv B K \<longleftrightarrow> hm_wf B \<and> hm_wf K
     \<and> (\<forall>key bs. hm_get B key = Some bs \<longrightarrow> bs \<noteq> [] \<and> hm_wf bs)
     \<and> (\<forall>ep key. hm_get K ep = Some key \<longleftrightarrow> (\<exists>bs. hm_get B key = Some bs \<and> hm_contains bs ep))"

definition frag_inv :: "(FragmentKey, FragmentDecision) hashmap \<Rightarrow> (u64, 'b) hashmap \<Rightarrow> bool" where
  "frag_inv F E \<longleftrightarrow> hm_wf F \<and> length F \<le> maximumFragmentDecisions
     \<and> (\<forall>key d ep target. hm_get F key = Some d \<longrightarrow> fd_action d = Block ep target \<longrightarrow> hm_contains E ep)"

definition st_idx :: "FlowState \<Rightarrow> bool" where
  "st_idx st \<longleftrightarrow> hm_wf (outbound st) \<and> hm_wf (reflected st) \<and> hm_wf (endpointKeys st)
     \<and> idx_inv (hm_get (outbound st)) (hm_get (reflected st)) (hm_get (endpointKeys st))"

definition flow_inv :: "FlowState \<Rightarrow> bool" where
  "flow_inv st \<longleftrightarrow> st_idx st \<and> bind_inv (udpBindings st) (udpBindingKeys st)
     \<and> frag_inv (fragmentDecisions st) (endpointKeys st) \<and> nextReflectedPort st \<noteq> 0"

lemma hm_get_empty_fun [simp]: "hm_get [] = (\<lambda>_. None)"
  by (simp add: fun_eq_iff)

lemma flow_inv_default [simp]: "flow_inv FlowState_default"
  by (simp add: flow_inv_def FlowState_default_def st_idx_def bind_inv_def frag_inv_def
      firstReflectedPort_def hm_contains_def)

section \<open>UDP bindings\<close>

lemma removeUdpBindingLocked_frame [simp]:
  "outbound (removeUdpBindingLocked ep st) = outbound st"
  "reflected (removeUdpBindingLocked ep st) = reflected st"
  "endpointKeys (removeUdpBindingLocked ep st) = endpointKeys st"
  "retiredUdpOutbound (removeUdpBindingLocked ep st) = retiredUdpOutbound st"
  "fragmentDecisions (removeUdpBindingLocked ep st) = fragmentDecisions st"
  "nextReflectedPort (removeUdpBindingLocked ep st) = nextReflectedPort st"
  by (auto simp: removeUdpBindingLocked_def Let_def split: option.splits)

lemma hm_contains_remove [simp]: "hm_contains (hm_remove k m) k' \<longleftrightarrow> k' \<noteq> k \<and> hm_contains m k'"
  by (simp add: hm_contains_def hm_get_remove)

lemma hm_contains_insert [simp]: "hm_contains (hm_insert k v m) k' \<longleftrightarrow> k' = k \<or> hm_contains m k'"
  by (simp add: hm_contains_def hm_get_insert)

lemma hm_contains_Nil [simp]: "\<not> hm_contains [] k"
  by (simp add: hm_contains_def)

lemma not_contains_all_Nil: "(\<forall>k. \<not> hm_contains m k) \<longleftrightarrow> m = []"
  by (cases m) (auto simp: hm_contains_def hm_get_def split: if_splits)

lemma bind_inv_insert:
  assumes inv: "bind_inv B K" and fresh: "hm_get K ep = None"
    and bs: "bs = hm_entry_or B key []"
  shows "bind_inv (hm_insert key (hm_insert ep pid bs) B) (hm_insert ep key K)"
proof -
  have "\<not> hm_contains bs' ep" if "hm_get B key' = Some bs'" for key' bs'
    using inv fresh that unfolding bind_inv_def by (metis option.distinct(1))
  moreover have "hm_insert ep pid bs \<noteq> [] \<and> hm_wf (hm_insert ep pid bs)"
    using inv bs by (auto simp: bind_inv_def hm_entry_or_def hm_insert_def distinct_update hm_wf_def
        update_nonempty split: option.splits)
  ultimately show ?thesis
    using inv bs unfolding bind_inv_def
    by (auto simp: hm_get_insert hm_entry_or_def split: option.splits if_splits)
qed

definition bound :: "(UdpBindingKey, (u64, u32) hashmap) hashmap \<Rightarrow> u64 \<Rightarrow> UdpBindingKey \<Rightarrow> bool" where
  "bound B ep key \<longleftrightarrow> (\<exists>bs. hm_get B key = Some bs \<and> hm_contains bs ep)"

definition unbind :: "u64 \<Rightarrow> UdpBindingKey \<Rightarrow> (u64, u32) hashmap \<Rightarrow>
    (UdpBindingKey, (u64, u32) hashmap) hashmap \<Rightarrow> (UdpBindingKey, (u64, u32) hashmap) hashmap" where
  "unbind ep key bs B =
     (if hm_remove ep bs = [] then hm_remove key B else hm_insert key (hm_remove ep bs) B)"

lemma bound_unbind:
  assumes "hm_get B key = Some bs"
  shows "bound (unbind ep key bs B) e k \<longleftrightarrow> bound B e k \<and> (e = ep \<longrightarrow> k \<noteq> key)"
proof (cases "k = key")
  case True
  have "\<not> hm_contains bs e" if "hm_remove ep bs = []" "e \<noteq> ep"
    using that by (metis hm_contains_Nil hm_contains_remove)
  with True assms show ?thesis
    by (auto simp: bound_def unbind_def hm_get_remove hm_get_insert)
next
  case False
  then show ?thesis
    by (simp add: bound_def unbind_def hm_get_remove hm_get_insert)
qed

lemma bind_inv_unbind:
  assumes inv: "bind_inv B K" and key: "hm_get K ep = Some key" and bs: "hm_get B key = Some bs"
  shows "bind_inv (unbind ep key bs B) (hm_remove ep K)"
proof -
  have iff: "hm_get K e = Some k \<longleftrightarrow> bound B e k" for e k
    using inv by (simp add: bind_inv_def bound_def)
  have "hm_get (hm_remove ep K) e = Some k \<longleftrightarrow> bound (unbind ep key bs B) e k" for e k
    using key iff [of e k] iff [of ep key] unfolding bound_unbind [OF bs] by (auto simp: hm_get_remove)
  moreover have "bs' \<noteq> [] \<and> hm_wf bs'" if "hm_get (unbind ep key bs B) k = Some bs'" for k bs'
    using that inv bs
    by (auto simp: unbind_def bind_inv_def hm_get_remove hm_get_insert split: if_splits)
  moreover have "hm_wf (unbind ep key bs B)" "hm_wf (hm_remove ep K)"
    using inv by (simp_all add: unbind_def bind_inv_def)
  ultimately show ?thesis
    unfolding bind_inv_def bound_def by blast
qed

lemma bind_inv_removeUdpBinding [inv_intros]:
  assumes inv: "bind_inv (udpBindings st) (udpBindingKeys st)"
  shows "bind_inv (udpBindings (removeUdpBindingLocked ep st)) (udpBindingKeys (removeUdpBindingLocked ep st))"
proof (cases "hm_get (udpBindingKeys st) ep")
  case None
  then show ?thesis using inv by (simp add: removeUdpBindingLocked_def)
next
  case (Some key)
  with inv obtain bs where bs: "hm_get (udpBindings st) key = Some bs"
    unfolding bind_inv_def by blast
  have "bind_inv (unbind ep key bs (udpBindings st)) (hm_remove ep (udpBindingKeys st))"
    by (rule bind_inv_unbind [OF inv Some bs])
  with Some bs show ?thesis
    by (simp add: removeUdpBindingLocked_def unbind_def Let_def split: if_splits)
qed

lemma removeUdpBindingLocked_unbound:
  assumes "bind_inv (udpBindings st) (udpBindingKeys st)"
  shows "hm_get (udpBindingKeys (removeUdpBindingLocked ep st)) = (hm_get (udpBindingKeys st))(ep := None)"
  using assms
  by (auto simp: removeUdpBindingLocked_def Let_def hm_get_remove fun_eq_iff split: option.splits)

section \<open>Removing endpoints\<close>

lemma retireOutbound_frame [simp]:
  "reflected (retireOutbound now c k st) = reflected st"
  "endpointKeys (retireOutbound now c k st) = endpointKeys st"
  "udpBindings (retireOutbound now c k st) = udpBindings st"
  "udpBindingKeys (retireOutbound now c k st) = udpBindingKeys st"
  "fragmentDecisions (retireOutbound now c k st) = fragmentDecisions st"
  "nextReflectedPort (retireOutbound now c k st) = nextReflectedPort st"
  by (auto simp: retireOutbound_def Let_def split: option.splits)

lemma retireOutbound_outbound [store_simps]:
  "hm_get (outbound (retireOutbound now c k st)) = (hm_get (outbound st))(k := None)"
  by (auto simp: retireOutbound_def Let_def hm_get_remove fun_eq_iff split: option.splits)

lemma retireOutbound_wf [simp]: "hm_wf (outbound st) \<Longrightarrow> hm_wf (outbound (retireOutbound now c k st))"
  by (auto simp: retireOutbound_def Let_def split: option.splits)

lemma removeEndpointKeys_frame [simp]:
  "endpointKeys (removeEndpointKeys now c ks st) = endpointKeys st"
  "udpBindings (removeEndpointKeys now c ks st) = udpBindings st"
  "udpBindingKeys (removeEndpointKeys now c ks st) = udpBindingKeys st"
  "fragmentDecisions (removeEndpointKeys now c ks st) = fragmentDecisions st"
  "nextReflectedPort (removeEndpointKeys now c ks st) = nextReflectedPort st"
  by (induction now c ks st rule: removeEndpointKeys.induct) (simp_all add: Let_def)

lemma removeEndpointKeys_lookup [store_simps]:
  "hm_get (outbound (removeEndpointKeys now c ks st)) = drop_keys (fst ` set ks) (hm_get (outbound st))"
  "hm_get (reflected (removeEndpointKeys now c ks st)) = drop_keys (snd ` set ks) (hm_get (reflected st))"
  by (induction now c ks st rule: removeEndpointKeys.induct)
    (auto simp: Let_def drop_keys_def fun_eq_iff store_simps)

lemma removeEndpointKeys_wf [simp]:
  "hm_wf (outbound st) \<Longrightarrow> hm_wf (outbound (removeEndpointKeys now c ks st))"
  "hm_wf (reflected st) \<Longrightarrow> hm_wf (reflected (removeEndpointKeys now c ks st))"
  by (induction now c ks st rule: removeEndpointKeys.induct) (simp_all add: Let_def)

lemma removeEndpointLocked_endpointKeys [store_simps]:
  "hm_get (endpointKeys (removeEndpointLocked now ep c st)) = (hm_get (endpointKeys st))(ep := None)"
  by (auto simp: removeEndpointLocked_def Let_def hm_get_remove fun_eq_iff split: option.splits)

lemma removeEndpointLocked_nextReflectedPort [simp]:
  "nextReflectedPort (removeEndpointLocked now ep c st) = nextReflectedPort st"
  by (auto simp: removeEndpointLocked_def Let_def split: option.splits)

lemma st_idx_removeEndpoint [inv_intros]: "st_idx st \<Longrightarrow> st_idx (removeEndpointLocked now ep c st)"
  unfolding st_idx_def removeEndpointLocked_def Let_def
  by (cases "hm_get (endpointKeys st) ep") (auto simp: store_simps intro: idx_remove)

lemma removeEndpointLocked_bindings:
  "bind_inv (udpBindings st) (udpBindingKeys st) \<Longrightarrow>
   bind_inv (udpBindings (removeEndpointLocked now ep c st)) (udpBindingKeys (removeEndpointLocked now ep c st))"
  unfolding removeEndpointLocked_def Let_def
  by (cases "hm_get (endpointKeys st) ep") (auto intro!: bind_inv_removeUdpBinding)

lemma frag_inv_removeEndpoint:
  assumes "frag_inv (fragmentDecisions st) (endpointKeys st)"
  shows "frag_inv (fragmentDecisions (removeEndpointLocked now ep c st))
           (endpointKeys (removeEndpointLocked now ep c st))"
proof -
  have F: "fragmentDecisions (removeEndpointLocked now ep c st) =
      hm_retain (\<lambda>_ d. \<not> blocks_endpoint ep d) (fragmentDecisions st)"
    by (auto simp: removeEndpointLocked_def Let_def split: option.splits)
  have E: "hm_contains (endpointKeys (removeEndpointLocked now ep c st)) e \<longleftrightarrow>
      e \<noteq> ep \<and> hm_contains (endpointKeys st) e" for e
    by (simp add: hm_contains_def store_simps)
  have "length (fragmentDecisions (removeEndpointLocked now ep c st)) \<le> length (fragmentDecisions st)"
    by (simp add: F length_hm_retain_le)
  with assms show ?thesis
    unfolding frag_inv_def E F
    by (auto simp: hm_get_retain blocks_endpoint_def split: option.splits if_splits)
qed

lemma flow_inv_removeEndpointLocked [inv_intros]:
  "flow_inv st \<Longrightarrow> flow_inv (removeEndpointLocked now ep c st)"
  unfolding flow_inv_def
  by (simp add: st_idx_removeEndpoint removeEndpointLocked_bindings frag_inv_removeEndpoint)

lemma flow_inv_fold_remove [inv_intros]:
  "flow_inv st \<Longrightarrow> flow_inv (fold (\<lambda>ep. removeEndpointLocked now ep c) eps st)"
  by (rule fold_keeps) (rule inv_intros)

section \<open>Allocating a reflected port\<close>

definition next_port :: "u16 \<Rightarrow> u16" where
  "next_port p = (if p = 65535 then 1 else p + 1)"

definition port_free :: "FlowState \<Rightarrow> IpAddr \<Rightarrow> IpAddr \<Rightarrow> u16 \<Rightarrow> u8 \<Rightarrow> u16 \<Rightarrow> bool" where
  "port_free st localAddress remoteAddress proxyPort protocol p \<longleftrightarrow>
     p \<noteq> proxyPort \<and> \<not> hm_contains (reflected st)
       \<lparr>rk_localAddress = localAddress, rk_localPort = p, rk_remoteAddress = remoteAddress,
        rk_protocol = protocol\<rparr>"

lemma unat_u16: "unat (p :: u16) < 65536"
  using unsigned_less [of p, where ?'a = nat] by simp

lemma unat_next_port: "p \<noteq> 0 \<Longrightarrow> unat (next_port p) = unat p mod 65535 + 1"
proof -
  assume "p \<noteq> 0"
  show ?thesis
  proof (cases "p = 65535")
    case True
    then show ?thesis by (simp add: next_port_def)
  next
    case False
    then have "unat p \<noteq> 65535" by (auto simp: word_unat_eq_iff)
    with unat_u16 [of p] have "unat p + 1 < 65536" by simp
    then show ?thesis using False by (simp add: next_port_def unat_word_ariths)
  qed
qed

lemma next_port_nonzero: "p \<noteq> 0 \<Longrightarrow> next_port p \<noteq> 0"
  using unat_next_port [of p] by auto

lemma allocateLoop_Suc:
  "allocateLoop (Suc n) st la ra pp pr =
     (if port_free st la ra pp pr (nextReflectedPort st)
      then (Some (nextReflectedPort st), st\<lparr>nextReflectedPort := next_port (nextReflectedPort st)\<rparr>)
      else allocateLoop n (st\<lparr>nextReflectedPort := next_port (nextReflectedPort st)\<rparr>) la ra pp pr)"
  by (simp add: Let_def port_free_def next_port_def)

lemma port_free_next [simp]:
  "port_free (st\<lparr>nextReflectedPort := p\<rparr>) la ra pp pr q = port_free st la ra pp pr q"
  by (simp add: port_free_def)

lemma allocateLoop_spec:
  "nextReflectedPort st \<noteq> 0 \<Longrightarrow> \<exists>m. m \<noteq> 0
     \<and> snd (allocateLoop n st la ra pp pr) = st\<lparr>nextReflectedPort := m\<rparr>
     \<and> (case fst (allocateLoop n st la ra pp pr) of None \<Rightarrow> True
        | Some p \<Rightarrow> p \<noteq> 0 \<and> port_free st la ra pp pr p)"
proof (induction n arbitrary: st)
  case 0
  then show ?case by (intro exI [of _ "nextReflectedPort st"]) simp
next
  case (Suc n)
  let ?st = "st\<lparr>nextReflectedPort := next_port (nextReflectedPort st)\<rparr>"
  have nz: "next_port (nextReflectedPort st) \<noteq> 0" using Suc.prems by (rule next_port_nonzero)
  show ?case
  proof (cases "port_free st la ra pp pr (nextReflectedPort st)")
    case True
    with nz Suc.prems show ?thesis by (auto simp: allocateLoop_Suc simp del: allocateLoop.simps)
  next
    case False
    with Suc.IH [of ?st] nz show ?thesis
      by (auto simp: allocateLoop_Suc simp del: allocateLoop.simps cong: option.case_cong)
  qed
qed

lemma allocateLoop_None:
  assumes "fst (allocateLoop n st la ra pp pr) = None" and "i < n"
  shows "\<not> port_free st la ra pp pr ((next_port ^^ i) (nextReflectedPort st))"
  using assms
proof (induction n arbitrary: st i)
  case 0
  then show ?case by simp
next
  case (Suc n)
  from Suc.prems(1) have first: "\<not> port_free st la ra pp pr (nextReflectedPort st)"
    and rest: "fst (allocateLoop n (st\<lparr>nextReflectedPort := next_port (nextReflectedPort st)\<rparr>) la ra pp pr) = None"
    by (auto simp: allocateLoop_Suc simp del: allocateLoop.simps split: if_splits)
  show ?case
  proof (cases i)
    case 0
    with first show ?thesis by simp
  next
    case (Suc j)
    with Suc.IH [OF rest, of j] Suc.prems(2) show ?thesis
      by (simp add: funpow_swap1)
  qed
qed

lemma unat_funpow_next_port:
  assumes "p \<noteq> 0"
  shows "unat ((next_port ^^ i) p) = (unat p - 1 + i) mod 65535 + 1 \<and> (next_port ^^ i) p \<noteq> 0"
proof (induction i)
  case 0
  have "0 < unat p" using assms by (simp add: unat_gt_0)
  with unat_u16 [of p] show ?case using assms by simp
next
  case (Suc i)
  then show ?case
    using unat_next_port [of "(next_port ^^ i) p"] next_port_nonzero [of "(next_port ^^ i) p"]
    by (simp add: mod_Suc_eq)
qed

lemma next_port_covers:
  assumes "s \<noteq> 0" and "p \<noteq> 0"
  shows "\<exists>i < 65535. (next_port ^^ i) s = p"
proof -
  define i where "i = (unat p + 65535 - unat s) mod 65535"
  have b: "unat s < 65536" "unat p < 65536" "0 < unat s" "0 < unat p"
    using assms unat_u16 [of s] unat_u16 [of p] by (simp_all add: unat_gt_0)
  have "(unat s - 1 + i) mod 65535 = (unat s - 1 + (unat p + 65535 - unat s)) mod 65535"
    by (simp add: i_def mod_add_right_eq)
  also have "unat s - 1 + (unat p + 65535 - unat s) = unat p - 1 + 65535"
    using b by simp
  also have "(unat p - 1 + 65535) mod 65535 = unat p - 1"
    using b by (subst mod_add_self2) (rule mod_less, linarith)
  finally have "(unat s - 1 + i) mod 65535 = unat p - 1" .
  then have "unat ((next_port ^^ i) s) = unat p"
    using unat_funpow_next_port [OF assms(1), of i] b by simp
  then have "(next_port ^^ i) s = p" by (simp only: word_unat_eq_iff)
  moreover have "i < 65535" by (simp add: i_def)
  ultimately show ?thesis by blast
qed

lemma allocateReflectedPort_hit:
  assumes "port_free st la ra pp pr (nextReflectedPort st)"
  shows "allocateReflectedPort st la ra pp pr =
    (Some (nextReflectedPort st), st\<lparr>nextReflectedPort := next_port (nextReflectedPort st)\<rparr>)"
proof -
  have "allocateLoop (Suc 65534) st la ra pp pr =
      (Some (nextReflectedPort st), st\<lparr>nextReflectedPort := next_port (nextReflectedPort st)\<rparr>)"
    using assms by (simp only: allocateLoop_Suc if_True)
  then show ?thesis by (simp add: allocateReflectedPort_def)
qed

lemma allocateReflectedPort_complete:
  assumes "nextReflectedPort st \<noteq> 0" and "p \<noteq> 0" and "port_free st la ra pp pr p"
  shows "\<exists>q. fst (allocateReflectedPort st la ra pp pr) = Some q"
proof (rule ccontr)
  assume "\<nexists>q. fst (allocateReflectedPort st la ra pp pr) = Some q"
  then have none: "fst (allocateLoop 65535 st la ra pp pr) = None"
    by (simp add: allocateReflectedPort_def)
  from next_port_covers [OF assms(1,2)] obtain i
    where i: "i < 65535" "(next_port ^^ i) (nextReflectedPort st) = p" by blast
  from allocateLoop_None [OF none i(1)] i(2) assms(3) show False by simp
qed

section \<open>Recording flows\<close>

definition wf_flow :: "CaptureFlow \<Rightarrow> bool" where
  "wf_flow flow \<longleftrightarrow> wf_key (flow_key flow)
     \<and> (cf_protocol flow = tcpProtocol \<or> cf_protocol flow = udpProtocol)"

text \<open>
  An endpoint number names one socket, so a UDP flow is never recorded for an endpoint that owns a
  TCP flow. This is a promise of the driver that numbers the endpoints, not of the table.
\<close>

definition same_protocol :: "FlowState \<Rightarrow> CaptureFlow \<Rightarrow> bool" where
  "same_protocol st flow \<longleftrightarrow> (cf_protocol flow = tcpProtocol
     \<or> (\<forall>k \<in> fst ` set (hm_entry_or (endpointKeys st) (cf_endpointId flow) []). ok_protocol k \<noteq> tcpProtocol))"

lemma wf_flow_transport:
  "CaptureFlow_transport pid ep la lp ra rp protocol = Some flow \<Longrightarrow> protocol \<in> {tcpProtocol, udpProtocol}
   \<Longrightarrow> wf_flow flow"
  by (auto simp: CaptureFlow_transport_def Let_def wf_flow_def wf_key_def flow_key_def split: if_splits)

lemma resolveProxyAddress_wf:
  "resolveProxyAddress la ca = Some pa \<Longrightarrow> normalizeIpAddress pa = pa \<and> is_ipv4 pa = is_ipv4 la"
  by (auto simp: resolveProxyAddress_def Let_def normalizeIpAddress_def to_ipv4_mapped_def
      ipv6_localhost_def ipv4_localhost_def split: if_splits IpAddr.splits option.splits)

lemma frag_inv_mono: "frag_inv F E \<Longrightarrow> (\<And>ep. hm_contains E ep \<Longrightarrow> hm_contains E' ep) \<Longrightarrow> frag_inv F E'"
  by (simp add: frag_inv_def)

lemma flow_inv_recordFlow:
  assumes inv: "flow_inv st" and wf: "wf_flow flow" and same: "same_protocol st flow"
    and tcp: "cf_protocol flow = tcpProtocol \<Longrightarrow> hm_get (endpointKeys st) (cf_endpointId flow) = None"
    and pa: "resolveProxyAddress (cf_localAddress flow) ca = Some pa"
    and new: "hm_get (outbound st) (flow_key flow) = None"
    and port: "p \<noteq> 0" "port_free st pa pa pp (cf_protocol flow) p"
  shows "flow_inv (recordFlow flow pa p c st)"
proof -
  let ?ok = "flow_key flow" and ?ep = "cf_endpointId flow"
  let ?rk = "\<lparr>rk_localAddress = pa, rk_localPort = p, rk_remoteAddress = pa, rk_protocol = cf_protocol flow\<rparr>"
  let ?r = "\<lparr>rt_endpointId = ?ep, rt_original = flow_target flow, rt_originalLocalAddress = cf_localAddress flow,
     rt_proxyAddress = pa, rt_originalLocalPort = cf_localPort flow, rt_reflectedPort = p, rt_originalInterface = None\<rparr>"
  let ?t = "\<lparr>tt_endpointId = ?ep, tt_rewrite = ?r, tt_activeFromCounter = c\<rparr>"
  let ?ks = "hm_entry_or (endpointKeys st) ?ep []"
  have lnk: "linked ?ep ?ok ?rk ?t ?r"
    using wf resolveProxyAddress_wf [OF pa] port(1)
    by (simp add: linked_def wf_flow_def reply_key_def wf_rewrite_def wf_original_def flow_key_def flow_target_def)
  have "idx_inv ((hm_get (outbound st))(?ok \<mapsto> ?t)) ((hm_get (reflected st))(?rk \<mapsto> ?r))
      ((hm_get (endpointKeys st))(?ep \<mapsto> ?ks @ [(?ok, ?rk)]))"
  proof (rule idx_insert)
    show "hm_get (outbound st) ?ok = None" by (rule new)
    show "linked ?ep ?ok ?rk ?t ?r" by (rule lnk)
    show "idx_inv (hm_get (outbound st)) (hm_get (reflected st)) (hm_get (endpointKeys st))"
      using inv by (simp add: flow_inv_def st_idx_def)
    show "hm_get (reflected st) ?rk = None"
      using port(2) by (simp add: port_free_def hm_contains_def)
    show "?ks = (case hm_get (endpointKeys st) ?ep of None \<Rightarrow> [] | Some ks \<Rightarrow> ks)"
      by (simp add: hm_entry_or_def)
    show "?ks = []" if "ok_protocol ?ok = tcpProtocol"
      using that tcp by (simp add: hm_entry_or_def flow_key_def)
    show "ok_protocol k \<noteq> tcpProtocol" if "k \<in> fst ` set ?ks" for k
    proof (cases "cf_protocol flow = tcpProtocol")
      case True
      with that tcp show ?thesis by (simp add: hm_entry_or_def)
    next
      case False
      with that same show ?thesis by (auto simp: same_protocol_def)
    qed
  qed
  moreover have "frag_inv (fragmentDecisions st) (hm_insert ?ep (?ks @ [(?ok, ?rk)]) (endpointKeys st))"
    using inv by (auto simp: flow_inv_def intro: frag_inv_mono)
  ultimately show ?thesis
    using inv by (simp add: flow_inv_def st_idx_def recordFlow_def Let_def store_simps)
qed

lemma removeEndpoint_key_free:
  assumes "flow_inv st" and "hm_get (outbound st) key = Some t"
  shows "hm_get (outbound (removeEndpointLocked now (tt_endpointId t) c st)) key = None"
proof -
  have idx: "idx_inv (hm_get (outbound st)) (hm_get (reflected st)) (hm_get (endpointKeys st))"
    using assms(1) by (simp add: flow_inv_def st_idx_def)
  from idx assms(2) obtain rk where "link (hm_get (endpointKeys st)) (tt_endpointId t) key rk"
    by (rule idx_outbound)
  then show ?thesis
    by (force simp: removeEndpointLocked_def link_def Let_def store_simps drop_keys_def)
qed

lemma same_protocol_remove:
  "same_protocol st flow \<Longrightarrow> same_protocol (removeEndpointLocked now ep c st) flow"
  by (auto simp: same_protocol_def hm_entry_or_def store_simps split: if_splits)

lemma allocateReflectedPort_spec:
  "nextReflectedPort st \<noteq> 0 \<Longrightarrow> \<exists>m. m \<noteq> 0
     \<and> snd (allocateReflectedPort st la ra pp pr) = st\<lparr>nextReflectedPort := m\<rparr>
     \<and> (case fst (allocateReflectedPort st la ra pp pr) of None \<Rightarrow> True
        | Some p \<Rightarrow> p \<noteq> 0 \<and> port_free st la ra pp pr p)"
  unfolding allocateReflectedPort_def by (rule allocateLoop_spec)

lemma allocateReflectedPort_cases:
  assumes "nextReflectedPort st \<noteq> 0"
  obtains (None) m where "m \<noteq> 0"
      "allocateReflectedPort st la ra pp pr = (None, st\<lparr>nextReflectedPort := m\<rparr>)"
  | (Some) m p where "m \<noteq> 0"
      "allocateReflectedPort st la ra pp pr = (Some p, st\<lparr>nextReflectedPort := m\<rparr>)"
      "p \<noteq> 0" "port_free st la ra pp pr p"
proof -
  from allocateReflectedPort_spec [OF assms] obtain m where m: "m \<noteq> 0"
    "snd (allocateReflectedPort st la ra pp pr) = st\<lparr>nextReflectedPort := m\<rparr>"
    "case fst (allocateReflectedPort st la ra pp pr) of None \<Rightarrow> True
        | Some p \<Rightarrow> p \<noteq> 0 \<and> port_free st la ra pp pr p"
    by blast
  show ?thesis
  proof (cases "fst (allocateReflectedPort st la ra pp pr)")
    case None
    show ?thesis by (rule that(1) [OF m(1)]) (simp add: prod_eq_iff m(2) None)
  next
    case (Some p)
    show ?thesis
      by (rule that(2) [OF m(1), of p]) (use m(2,3) Some in \<open>simp_all add: prod_eq_iff\<close>)
  qed
qed

lemma flow_inv_next: "flow_inv s \<Longrightarrow> m \<noteq> 0 \<Longrightarrow> flow_inv (s\<lparr>nextReflectedPort := m\<rparr>)"
  by (simp add: flow_inv_def st_idx_def)

lemma flow_inv_finishInsert:
  assumes s: "flow_inv s" "same_protocol s flow" "hm_get (outbound s) (flow_key flow) = None"
      "cf_protocol flow = tcpProtocol \<Longrightarrow> hm_get (endpointKeys s) (cf_endpointId flow) = None"
    and wf: "wf_flow flow" and pa: "resolveProxyAddress (cf_localAddress flow) ca = Some pa"
  shows "flow_inv (snd (finishInsert flow pa pp c s))"
proof -
  have "nextReflectedPort s \<noteq> 0" using s(1) by (simp add: flow_inv_def)
  then show ?thesis
  proof (cases rule: allocateReflectedPort_cases [where la = pa and ra = pa and pp = pp and pr = "cf_protocol flow"])
    case (None m)
    with s(1) show ?thesis by (simp add: finishInsert_def flow_inv_next)
  next
    case (Some m p)
    have "flow_inv (recordFlow flow pa p c (s\<lparr>nextReflectedPort := m\<rparr>))"
      using s Some by (intro flow_inv_recordFlow [OF _ wf _ _ pa, where pp = pp])
        (simp_all add: flow_inv_next same_protocol_def)
    with Some show ?thesis by (simp add: finishInsert_def)
  qed
qed

lemma flow_inv_insertAtLocked [inv_intros]:
  assumes inv: "flow_inv st" and wf: "wf_flow flow" and same: "same_protocol st flow"
  shows "flow_inv (snd (insertAtLocked now flow ca pp c st))"
proof (cases "resolveProxyAddress (cf_localAddress flow) ca")
  case None
  with inv show ?thesis by (simp add: insertAtLocked_def)
next
  case (Some pa)
  define st1 where "st1 = (if cf_protocol flow = tcpProtocol
    then removeEndpointLocked now (cf_endpointId flow) None st else st)"
  have inv1: "flow_inv st1" and same1: "same_protocol st1 flow"
    using inv same by (auto simp: st1_def intro: inv_intros same_protocol_remove)
  have tcp1: "hm_get (endpointKeys st1) (cf_endpointId flow) = None" if "cf_protocol flow = tcpProtocol"
    using that by (simp add: st1_def store_simps)
  show ?thesis
  proof (cases "hm_get (outbound st1) (flow_key flow)")
    case None
    with flow_inv_finishInsert [OF inv1 same1 None tcp1 wf Some] Some show ?thesis
      by (simp add: insertAtLocked_def st1_def [symmetric])
  next
    case prev: (Some previous)
    let ?st2 = "removeEndpointLocked now (tt_endpointId previous)
       (if cf_protocol flow = udpProtocol then c else None) st1"
    have "flow_inv ?st2" "same_protocol ?st2 flow" "hm_get (outbound ?st2) (flow_key flow) = None"
      using inv1 same1 removeEndpoint_key_free [OF inv1 prev]
      by (auto intro: inv_intros same_protocol_remove)
    from flow_inv_finishInsert [OF this _ wf Some] inv1 tcp1 prev Some show ?thesis
      by (simp add: insertAtLocked_def st1_def [symmetric] store_simps)
  qed
qed

section \<open>Lookups that promote, annotations, bindings and fragment decisions\<close>

lemma idx_of: "flow_inv st \<Longrightarrow> idx_inv (hm_get (outbound st)) (hm_get (reflected st)) (hm_get (endpointKeys st))"
  by (simp add: flow_inv_def st_idx_def)

lemma flow_inv_outboundTransportTarget [inv_intros]:
  assumes inv: "flow_inv st"
  shows "flow_inv (snd (outboundTransportTarget protocol la lp ra rp st))"
proof -
  define key where "key = \<lparr>ok_localAddress = normalizeIpAddress la, ok_localPort = lp,
     ok_remoteAddress = normalizeIpAddress ra, ok_remotePort = rp, ok_protocol = protocol\<rparr>"
  define w where "w = key\<lparr>ok_localAddress := wildcard_address (ok_localAddress key)\<rparr>"
  show ?thesis
  proof (cases "hm_get (outbound st) key = None \<and> (\<exists>t ks q. hm_get (outbound st) w = Some t
      \<and> hm_get (endpointKeys st) (tt_endpointId t) = Some ks \<and> find_map_key w ks = Some q)")
    case False
    then have "snd (outboundTransportTarget protocol la lp ra rp st) = st"
      by (auto simp: outboundTransportTarget_def key_def [symmetric] w_def [symmetric] Let_def split: option.splits)
    with inv show ?thesis by simp
  next
    case True
    then obtain t ks q where o: "hm_get (outbound st) key = None" "hm_get (outbound st) w = Some t"
      "hm_get (endpointKeys st) (tt_endpointId t) = Some ks" "map_of ks w = Some q"
      by (auto simp: find_map_key_def)
    have "link (hm_get (endpointKeys st)) (tt_endpointId t) w q"
      using o by (auto simp: link_def dest: map_of_SomeD)
    then have "wf_key w" using idx_link [OF idx_of [OF inv]] by (metis linked_def)
    then have "wf_key key" "is_ipv4 (ok_localAddress key) = is_ipv4 (ok_localAddress w)"
      "key = w\<lparr>ok_localAddress := ok_localAddress key\<rparr>"
      by (simp_all add: wf_key_def w_def key_def)
    from idx_promote [OF idx_of [OF inv] o(2-4) o(1) this(1,3,2) refl]
    have "idx_inv ((hm_get (outbound st))(w := None, key \<mapsto> relocate (ok_localAddress key) t))
       ((hm_get (reflected st))(q \<mapsto> tt_rewrite (relocate (ok_localAddress key) t)))
       ((hm_get (endpointKeys st))(tt_endpointId t \<mapsto> replaceFirstKey w key ks))" .
    moreover have "frag_inv (fragmentDecisions st)
       (hm_insert (tt_endpointId t) (replaceFirstKey w key ks) (endpointKeys st))"
      using inv by (auto simp: flow_inv_def intro: frag_inv_mono)
    ultimately show ?thesis
      using inv o by (simp add: outboundTransportTarget_def key_def [symmetric] w_def [symmetric] Let_def
          find_map_key_def flow_inv_def st_idx_def store_simps relocate_def)
  qed
qed

lemma hm_get_fold_modify:
  "distinct ks \<Longrightarrow> hm_get (fold (\<lambda>k. hm_modify k f) ks m) k =
     (if k \<in> set ks then map_option f (hm_get m k) else hm_get m k)"
  by (induction ks arbitrary: m) (auto simp: hm_get_modify)

lemma hm_wf_fold_modify [simp]: "hm_wf (fold (\<lambda>k. hm_modify k f) ks m) = hm_wf m"
  by (induction ks arbitrary: m) auto

lemma flow_inv_setTransportReflectedInterface [inv_intros]:
  assumes inv: "flow_inv st"
  shows "flow_inv (snd (setTransportReflectedInterface protocol pa rp ra i st))"
proof -
  define key where "key = \<lparr>rk_localAddress = normalizeIpAddress pa, rk_localPort = rp,
     rk_remoteAddress = normalizeIpAddress ra, rk_protocol = protocol\<rparr>"
  show ?thesis
  proof (cases "hm_get (reflected st) key")
    case None
    with inv show ?thesis by (simp add: setTransportReflectedInterface_def key_def)
  next
    case (Some r)
    define u where "u = set_original i (withIpv6Scope (rt_original r) (ni_interfaceIndex i))"
    obtain ok where "link (hm_get (endpointKeys st)) (rt_endpointId r) ok key"
      using idx_reflected [OF idx_of [OF inv] Some] .
    then obtain ks where ks: "hm_get (endpointKeys st) (rt_endpointId r) = Some ks" by (auto simp: link_def)
    have d: "distinct (map fst ks)" using idx_keys [OF idx_of [OF inv] ks] by simp
    let ?Out = "fold (\<lambda>k. hm_modify k (annotate u)) (map fst ks) (outbound st)"
    have "hm_get ?Out = (\<lambda>k. if k \<in> fst ` set ks then map_option (annotate u) (hm_get (outbound st) k)
        else hm_get (outbound st) k)"
      using hm_get_fold_modify [OF d, of "annotate u" "outbound st"] by (simp only: fun_eq_iff set_map) simp
    from idx_annotate [OF idx_of [OF inv] Some ks u_def this]
    have "idx_inv (hm_get ?Out) ((hm_get (reflected st))(key \<mapsto> u r)) (hm_get (endpointKeys st))" .
    moreover have "(hm_get (reflected st))(key \<mapsto> u r) = hm_get (hm_modify key u (reflected st))"
      using Some by (auto simp: fun_eq_iff hm_get_modify)
    ultimately show ?thesis
      using inv Some ks by (simp add: setTransportReflectedInterface_def key_def [symmetric]
          u_def [symmetric] Let_def flow_inv_def st_idx_def hm_entry_or_def annotate_def [abs_def])
  qed
qed

lemma flow_inv_removeUdpBindingLocked [inv_intros]: "flow_inv st \<Longrightarrow> flow_inv (removeUdpBindingLocked ep st)"
  by (simp add: flow_inv_def st_idx_def bind_inv_removeUdpBinding)

lemma flow_inv_addUdpBinding [inv_intros]:
  assumes inv: "flow_inv st"
  shows "flow_inv (addUdpBinding pid ep la lp st)"
proof -
  let ?st = "removeUdpBindingLocked ep st"
  have "flow_inv ?st" using inv by (rule inv_intros)
  moreover have "hm_get (udpBindingKeys ?st) ep = None"
    using inv by (simp add: flow_inv_def removeUdpBindingLocked_unbound)
  ultimately show ?thesis
    by (simp add: addUdpBinding_def Let_def flow_inv_def st_idx_def bind_inv_insert)
qed

lemma flow_inv_registerUdpBinding [inv_intros]:
  "flow_inv st \<Longrightarrow> flow_inv (snd (registerUdpBinding pid ep la lp st))"
  by (simp add: registerUdpBinding_def Let_def flow_inv_addUdpBinding)

lemma flow_inv_replaceUdpOwnerBindings [inv_intros]:
  "flow_inv st \<Longrightarrow> flow_inv (replaceUdpOwnerBindings now removed additions st)"
proof -
  have "flow_inv s \<Longrightarrow> flow_inv (fold (\<lambda>(pid, ep, la, lp) s. let la = normalizeIpAddress la
      in if lp = 0 \<or> is_loopback la then s else addUdpBinding pid ep la lp s) additions s)" for s
    by (rule fold_keeps) (auto simp: Let_def intro: flow_inv_addUdpBinding)
  then show "flow_inv st \<Longrightarrow> ?thesis"
    unfolding replaceUdpOwnerBindings_def by (blast intro: flow_inv_fold_remove)
qed

lemma flow_inv_retainProcessIds [inv_intros]:
  "flow_inv st \<Longrightarrow> flow_inv (retainProcessIds now sel st)"
proof -
  have "flow_inv s \<Longrightarrow> flow_inv (fold removeUdpBindingLocked eps s)" for eps s
    by (rule fold_keeps) (rule inv_intros)
  then show "flow_inv st \<Longrightarrow> ?thesis"
    unfolding retainProcessIds_def Let_def by (blast intro: flow_inv_fold_remove)
qed

lemma frag_inv_retain: "frag_inv F E \<Longrightarrow> frag_inv (hm_retain P F) E"
  using length_hm_retain_le [of P F]
  by (auto simp: frag_inv_def hm_get_retain split: option.splits if_splits)

lemma flow_inv_pruneFragmentState [inv_intros]: "flow_inv st \<Longrightarrow> flow_inv (pruneFragmentState now st)"
  by (simp add: flow_inv_def st_idx_def pruneFragmentState_def frag_inv_retain)

lemma flow_inv_fragmentLookupAt [inv_intros]: "flow_inv st \<Longrightarrow> flow_inv (snd (fragmentLookupAt key now st))"
  by (simp add: fragmentLookupAt_def Let_def flow_inv_pruneFragmentState)

lemma frag_inv_insert:
  assumes "frag_inv F E" and "length F < maximumFragmentDecisions \<or> hm_contains F key"
    and "\<And>ep target. fd_action d = Block ep target \<Longrightarrow> hm_contains E ep"
  shows "frag_inv (hm_insert key d F) E"
  using assms by (auto simp: frag_inv_def hm_get_insert length_hm_insert split: if_splits)

definition evict :: "FragmentKey \<Rightarrow> (FragmentKey, FragmentDecision) hashmap \<Rightarrow> (FragmentKey, FragmentDecision) hashmap" where
  "evict key F = (if maximumFragmentDecisions \<le> length F \<and> \<not> hm_contains F key
     then (case min_by_key (\<lambda>e. (fd_expiresAt (snd e), fk_order (fst e))) F of
             None \<Rightarrow> F | Some e \<Rightarrow> hm_remove (fst e) F)
     else F)"

lemma evict_makes_room:
  assumes "frag_inv F E"
  shows "frag_inv (evict key F) E \<and> (length (evict key F) < maximumFragmentDecisions \<or> hm_contains (evict key F) key)"
proof (cases "maximumFragmentDecisions \<le> length F \<and> \<not> hm_contains F key")
  case False
  with assms show ?thesis by (auto simp: evict_def)
next
  case True
  then have "F \<noteq> []" by (auto simp: maximumFragmentDecisions_def)
  then obtain e where e: "min_by_key (\<lambda>e. (fd_expiresAt (snd e), fk_order (fst e))) F = Some e"
    by (meson min_by_key_None not_None_eq)
  have "hm_contains F (fst e)"
    using assms min_by_key_in [OF e] hm_in_set [of F "fst e" "snd e"]
    by (simp add: frag_inv_def hm_contains_def)
  with assms have "Suc (length (hm_remove (fst e) F)) = length F"
    by (simp add: frag_inv_def length_hm_remove)
  with assms True e show ?thesis
    by (auto simp: evict_def frag_inv_def hm_get_remove split: if_splits)
qed

lemma flow_inv_recordFragmentDecisionAt [inv_intros]:
  assumes "flow_inv st"
  shows "flow_inv (snd (recordFragmentDecisionAt key action now st))"
proof -
  let ?st = "pruneFragmentState now st"
  have inv: "flow_inv ?st" using assms by (rule inv_intros)
  then have "frag_inv (fragmentDecisions ?st) (endpointKeys ?st)" by (simp add: flow_inv_def)
  then have "frag_inv (hm_insert key \<lparr>fd_action = action, fd_expiresAt = now + fragmentDecisionLifetime\<rparr>
       (evict key (fragmentDecisions ?st))) (endpointKeys ?st)"
    if "\<And>ep target. action = Block ep target \<Longrightarrow> hm_contains (endpointKeys ?st) ep"
    using that evict_makes_room [of "fragmentDecisions ?st" "endpointKeys ?st" key]
    by (intro frag_inv_insert) auto
  with inv show ?thesis
    unfolding recordFragmentDecisionAt_def Let_def evict_def [symmetric]
    by (auto simp: flow_inv_def st_idx_def split: FragmentAction.splits)
qed

lemma flow_inv_advance [inv_intros]: "flow_inv st \<Longrightarrow> flow_inv (advanceUdpObservationWatermark c st)"
  by (simp add: flow_inv_def st_idx_def advanceUdpObservationWatermark_def)

end
