(* ===== verification/FlowProperties.thy ===== *)
theory FlowProperties
  imports FlowInvariant
begin

text \<open>
  What the flow table promises its clients: the properties of every reachable table, the effect of
  inserting, closing and deselecting on the lookups, the choice of a UDP generation by the capture
  counter, and the handling of fragments.
\<close>

section \<open>The table as a state machine\<close>

inductive flow_step :: "FlowState \<Rightarrow> FlowState \<Rightarrow> bool" where
  step_insert: "wf_flow flow \<Longrightarrow> same_protocol st flow \<Longrightarrow>
     flow_step st (snd (insertAtLocked now flow ca pp c st))"
| step_remove: "flow_step st (removeEndpoint now ep st)"
| step_removeAt: "flow_step st (removeEndpointsAt now eps ts st)"
| step_bind: "flow_step st (snd (registerUdpBinding pid ep la lp st))"
| step_owners: "flow_step st (replaceUdpOwnerBindings now removed additions st)"
| step_retain: "flow_step st (retainProcessIds now selected st)"
| step_fragment: "flow_step st (snd (recordFragmentDecisionAt key action now st))"
| step_fragmentLookup: "flow_step st (snd (fragmentLookupAt key now st))"
| step_interface: "flow_step st (snd (setTransportReflectedInterface protocol pa rp ra i st))"
| step_outbound: "flow_step st (snd (outboundTransportTarget protocol la lp ra rp' st))"
| step_watermark: "flow_step st (advanceUdpObservationWatermark ts st)"
| step_clear: "flow_step st (clear st)"

lemma flow_step_inv: "flow_step st st' \<Longrightarrow> flow_inv st \<Longrightarrow> flow_inv st'"
  by (induction rule: flow_step.induct)
    (auto simp: removeEndpoint_def removeEndpointsAt_def clear_def intro: inv_intros)

interpretation flows: safe_system "\<lambda>st. st = FlowState_default" flow_step flow_inv
  by unfold_locales (auto intro: flow_step_inv)

abbreviation reachable_table :: "FlowState \<Rightarrow> bool" where
  "reachable_table \<equiv> reach (\<lambda>st. st = FlowState_default) flow_step"

lemma outbound_linked:
  assumes "flow_inv st" and "hm_get (outbound st) k = Some t"
  obtains r where "hm_get (reflected st) (reply_key (tt_rewrite t) (ok_protocol k)) = Some r"
    and "linked (tt_endpointId t) k (reply_key (tt_rewrite t) (ok_protocol k)) t r"
proof -
  from idx_of [OF assms(1)] assms(2) obtain rk
    where "link (hm_get (endpointKeys st)) (tt_endpointId t) k rk" by (rule idx_outbound)
  with idx_of [OF assms(1)] obtain t' r where "hm_get (outbound st) k = Some t'"
    "hm_get (reflected st) rk = Some r" "linked (tt_endpointId t) k rk t' r" by (rule idx_link)
  with assms(2) that show ?thesis by (simp add: linked_def reply_key_def)
qed

lemma reflected_linked:
  assumes "flow_inv st" and "hm_get (reflected st) rk = Some r"
  obtains k t where "hm_get (outbound st) k = Some t" and "linked (rt_endpointId r) k rk t r"
proof -
  from idx_of [OF assms(1)] assms(2) obtain k
    where "link (hm_get (endpointKeys st)) (rt_endpointId r) k rk" by (rule idx_reflected)
  with idx_of [OF assms(1)] obtain t r' where "hm_get (outbound st) k = Some t"
    "hm_get (reflected st) rk = Some r'" "linked (rt_endpointId r) k rk t r'" by (rule idx_link)
  with assms(2) that show ?thesis by simp
qed

lemma reply_keys_unique:
  assumes inv: "flow_inv st" and k: "hm_get (outbound st) k = Some t" and k': "hm_get (outbound st) k' = Some t'"
    and eq: "reply_key (tt_rewrite t) (ok_protocol k) = reply_key (tt_rewrite t') (ok_protocol k')"
  shows "k = k'"
proof -
  note idx = idx_of [OF inv]
  obtain rk where l: "link (hm_get (endpointKeys st)) (tt_endpointId t) k rk" using idx_outbound [OF idx k] .
  obtain rk' where l': "link (hm_get (endpointKeys st)) (tt_endpointId t') k' rk'" using idx_outbound [OF idx k'] .
  from link_reply_key [OF idx l k] link_reply_key [OF idx l' k'] eq have "rk' = rk" by simp
  with l' have "link (hm_get (endpointKeys st)) (tt_endpointId t') k' rk" by simp
  with link_other_reflected [OF idx l this] show ?thesis by blast
qed

text \<open>
  C1: in every reachable table the outbound and the reflected index agree: the redirection of a
  tracked flow has a reply entry with the same endpoint that restores exactly the flow's local
  address and port, every reply entry belongs to a tracked flow of its endpoint, and two flows never
  share a reply key.
\<close>

theorem flow_indices_agree:
  assumes "reachable_table st"
  shows "(\<forall>k t. hm_get (outbound st) k = Some t \<longrightarrow>
           (\<exists>r. hm_get (reflected st) (reply_key (tt_rewrite t) (ok_protocol k)) = Some r
              \<and> rt_endpointId r = tt_endpointId t
              \<and> rt_originalLocalAddress r = ok_localAddress k \<and> rt_originalLocalPort r = ok_localPort k))
       \<and> (\<forall>rk r. hm_get (reflected st) rk = Some r \<longrightarrow>
           (\<exists>k t. hm_get (outbound st) k = Some t \<and> tt_endpointId t = rt_endpointId r
              \<and> rk = reply_key (tt_rewrite t) (ok_protocol k)))
       \<and> (\<forall>k t k' t'. hm_get (outbound st) k = Some t \<longrightarrow> hm_get (outbound st) k' = Some t' \<longrightarrow>
           reply_key (tt_rewrite t) (ok_protocol k) = reply_key (tt_rewrite t') (ok_protocol k') \<longrightarrow> k = k')"
proof -
  have inv: "flow_inv st" using assms by (rule flows.reach_inv)
  have "\<exists>r. hm_get (reflected st) (reply_key (tt_rewrite t) (ok_protocol k)) = Some r
      \<and> rt_endpointId r = tt_endpointId t
      \<and> rt_originalLocalAddress r = ok_localAddress k \<and> rt_originalLocalPort r = ok_localPort k"
    if "hm_get (outbound st) k = Some t" for k t
    by (rule outbound_linked [OF inv that]) (auto simp: linked_def wf_rewrite_def)
  moreover have "\<exists>k t. hm_get (outbound st) k = Some t \<and> tt_endpointId t = rt_endpointId r
      \<and> rk = reply_key (tt_rewrite t) (ok_protocol k)"
    if "hm_get (reflected st) rk = Some r" for rk r
    by (rule reflected_linked [OF inv that]) (use linked_owner linked_reply_key in blast)
  ultimately show ?thesis using reply_keys_unique [OF inv] by blast
qed

definition sample_flow :: CaptureFlow where
  "sample_flow = \<lparr>cf_processId = 700, cf_endpointId = 8, cf_localAddress = V4 (Ipv4Addr 192 0 2 10),
     cf_localPort = 52000, cf_remoteAddress = V4 (Ipv4Addr 198 51 100 20), cf_remotePort = 443,
     cf_protocol = tcpProtocol\<rparr>"

definition sample_table :: FlowState where
  "sample_table = snd (insertAtLocked 0 sample_flow (V4 ipv4_localhost) 1080 None FlowState_default)"

lemma wf_sample_flow: "wf_flow sample_flow"
  by (simp add: wf_flow_def wf_key_def sample_flow_def flow_key_def)

lemma reachable_default: "reachable_table FlowState_default"
  by (rule reach_init) (rule refl)

lemma reachable_sample_table: "reachable_table sample_table"
  unfolding sample_table_def
  by (rule reach_step [OF reachable_default]) (auto intro!: step_insert wf_sample_flow
      simp: same_protocol_def FlowState_default_def hm_entry_or_def)

definition sample_tracked :: TrackedTarget where
  "sample_tracked = \<lparr>tt_endpointId = 8,
     tt_rewrite = \<lparr>rt_endpointId = 8,
        rt_original = \<lparr>ot_processId = 700, ot_address = SocketAddrV4 (Ipv4Addr 198 51 100 20) 443\<rparr>,
        rt_originalLocalAddress = V4 (Ipv4Addr 192 0 2 10), rt_proxyAddress = V4 (Ipv4Addr 127 0 0 1),
        rt_originalLocalPort = 52000, rt_reflectedPort = 49152, rt_originalInterface = None\<rparr>,
     tt_activeFromCounter = None\<rparr>"

lemmas sample_eval = insertAtLocked_def finishInsert_def allocateReflectedPort_hit port_free_def next_port_def
  resolveProxyAddress_def removeEndpointLocked_def removeUdpBindingLocked_def recordFlow_def
  flow_key_def flow_target_def FlowState_default_def firstReflectedPort_def tcpProtocol_def
  udpProtocol_def hm_retain_def hm_entry_or_def ipv4_localhost_def ipv4_unspecified_def
  hm_get_insert Let_def

lemma sample_table_outbound: "hm_get (outbound sample_table) (flow_key sample_flow) = Some sample_tracked"
  by (simp add: sample_table_def sample_flow_def sample_tracked_def sample_eval)

theorem flow_indices_agree_witness:
  "\<exists>r. hm_get (reflected sample_table) (reply_key (tt_rewrite sample_tracked) 6) = Some r
     \<and> rt_originalLocalPort r = 52000"
proof -
  have "ok_protocol (flow_key sample_flow) = 6" "ok_localPort (flow_key sample_flow) = 52000"
    by (simp_all add: sample_flow_def flow_key_def tcpProtocol_def)
  then show ?thesis
    using conjunct1 [OF flow_indices_agree [OF reachable_sample_table]] sample_table_outbound by force
qed

section \<open>Bounds and liveness of the auxiliary tables\<close>

text \<open>
  C2: in every reachable table the fragment decisions stay within their fixed bound, a blocking
  decision always names an endpoint that still owns a flow, and the two UDP binding indices are
  inverse to each other.
\<close>

theorem flow_table_bounds:
  assumes "reachable_table st"
  shows "length (fragmentDecisions st) \<le> maximumFragmentDecisions
    \<and> (\<forall>key d ep target. hm_get (fragmentDecisions st) key = Some d \<longrightarrow> fd_action d = Block ep target \<longrightarrow>
          (\<exists>k t. hm_get (outbound st) k = Some t \<and> tt_endpointId t = ep))
    \<and> (\<forall>ep key. hm_get (udpBindingKeys st) ep = Some key \<longleftrightarrow>
          (\<exists>bs pid. hm_get (udpBindings st) key = Some bs \<and> hm_get bs ep = Some pid))"
proof -
  have inv: "flow_inv st" using assms by (rule flows.reach_inv)
  have owns: "\<exists>k t. hm_get (outbound st) k = Some t \<and> tt_endpointId t = ep"
    if "hm_contains (endpointKeys st) ep" for ep
  proof -
    from that obtain ks where ks: "hm_get (endpointKeys st) ep = Some ks" by (auto simp: hm_contains_def)
    with idx_keys [OF idx_of [OF inv] ks] obtain k rk where "(k, rk) \<in> set ks"
      by (metis list.set_sel(1) surj_pair)
    with ks have "link (hm_get (endpointKeys st)) ep k rk" by (auto simp: link_def)
    then show ?thesis by (rule idx_link [OF idx_of [OF inv]]) (auto dest: linked_owner)
  qed
  from inv have "frag_inv (fragmentDecisions st) (endpointKeys st)"
    and "bind_inv (udpBindings st) (udpBindingKeys st)" by (simp_all add: flow_inv_def)
  with owns show ?thesis
    unfolding frag_inv_def bind_inv_def hm_contains_def by blast
qed

section \<open>Closing an endpoint\<close>

definition flows_without :: "u64 \<Rightarrow> (OutboundKey \<Rightarrow> TrackedTarget option) \<Rightarrow> OutboundKey \<Rightarrow> TrackedTarget option" where
  "flows_without ep flows k = (case flows k of None \<Rightarrow> None
     | Some t \<Rightarrow> if tt_endpointId t = ep then None else Some t)"

lemma owned_keys:
  assumes inv: "flow_inv st" and t: "hm_get (outbound st) k = Some t"
  shows "tt_endpointId t = ep \<longleftrightarrow> (\<exists>ks. hm_get (endpointKeys st) ep = Some ks \<and> k \<in> fst ` set ks)"
proof
  assume "tt_endpointId t = ep"
  then obtain rk where "link (hm_get (endpointKeys st)) ep k rk"
    using idx_outbound [OF idx_of [OF inv] t] by blast
  then show "\<exists>ks. hm_get (endpointKeys st) ep = Some ks \<and> k \<in> fst ` set ks"
    by (force simp: link_def)
next
  assume "\<exists>ks. hm_get (endpointKeys st) ep = Some ks \<and> k \<in> fst ` set ks"
  then obtain rk where l: "link (hm_get (endpointKeys st)) ep k rk" by (force simp: link_def)
  show "tt_endpointId t = ep"
    by (rule idx_link [OF idx_of [OF inv] l]) (use t linked_owner in auto)
qed

lemma removeEndpointLocked_outbound:
  assumes inv: "flow_inv st"
  shows "hm_get (outbound (removeEndpointLocked now ep c st)) = flows_without ep (hm_get (outbound st))"
proof
  fix k
  have "hm_get (outbound (removeEndpointLocked now ep c st)) k =
      (if \<exists>ks. hm_get (endpointKeys st) ep = Some ks \<and> k \<in> fst ` set ks then None else hm_get (outbound st) k)"
    by (auto simp: removeEndpointLocked_def Let_def store_simps drop_keys_def split: option.splits)
  then show "hm_get (outbound (removeEndpointLocked now ep c st)) k = flows_without ep (hm_get (outbound st)) k"
    using owned_keys [OF inv, of k _ ep]
    by (cases "hm_get (outbound st) k") (auto simp: flows_without_def)
qed

lemma removeEndpointLocked_no_reply:
  assumes inv: "flow_inv st" and r: "hm_get (reflected (removeEndpointLocked now ep c st)) rk = Some r"
  shows "rt_endpointId r \<noteq> ep"
proof -
  have inv': "flow_inv (removeEndpointLocked now ep c st)" using inv by (rule inv_intros)
  show ?thesis
    by (rule reflected_linked [OF inv' r])
      (auto simp: removeEndpointLocked_outbound [OF inv] flows_without_def dest: linked_owner
        split: option.splits if_splits)
qed

text \<open>
  C3: closing an endpoint removes exactly the flows of that endpoint. On the abstract view of the
  table as a map from five-tuples to flows, \<open>removeEndpoint\<close> is the restriction to the other
  endpoints; no reply entry, UDP binding or blocking fragment decision of the endpoint survives.
\<close>

theorem removeEndpoint_refines:
  assumes "reachable_table st"
  shows "hm_get (outbound (removeEndpoint now ep st)) = flows_without ep (hm_get (outbound st))
    \<and> (\<forall>rk r. hm_get (reflected (removeEndpoint now ep st)) rk = Some r \<longrightarrow> rt_endpointId r \<noteq> ep)
    \<and> hm_get (udpBindingKeys (removeEndpoint now ep st)) ep = None
    \<and> (\<forall>key d target. hm_get (fragmentDecisions (removeEndpoint now ep st)) key = Some d \<longrightarrow>
          fd_action d \<noteq> Block ep target)"
proof -
  have inv: "flow_inv st" using assms by (rule flows.reach_inv)
  then have frag: "hm_wf (fragmentDecisions st)" and bind: "bind_inv (udpBindings st) (udpBindingKeys st)"
    by (simp_all add: flow_inv_def frag_inv_def)
  have "hm_get (udpBindingKeys (removeEndpointLocked now ep None st)) ep = None"
    using bind by (auto simp: removeEndpointLocked_def Let_def removeUdpBindingLocked_unbound split: option.splits)
  moreover have "fd_action d \<noteq> Block ep target"
    if "hm_get (fragmentDecisions (removeEndpointLocked now ep None st)) key = Some d" for key d target
    using that frag by (auto simp: removeEndpointLocked_def Let_def hm_get_retain blocks_endpoint_def
        split: option.splits if_splits)
  ultimately show ?thesis
    unfolding removeEndpoint_def
    using removeEndpointLocked_outbound [OF inv] removeEndpointLocked_no_reply [OF inv] by blast
qed

theorem removeEndpoint_refines_witness:
  "hm_get (outbound (removeEndpoint 5 8 sample_table)) (flow_key sample_flow) = None
   \<and> hm_get (outbound (removeEndpoint 5 9 sample_table)) (flow_key sample_flow) = Some sample_tracked"
  using removeEndpoint_refines [OF reachable_sample_table, of 5 8]
    removeEndpoint_refines [OF reachable_sample_table, of 5 9] sample_table_outbound
  by (simp add: flows_without_def sample_tracked_def)

section \<open>Inserting a flow\<close>

text \<open>
  C4: a flow that \<open>insertAt\<close> accepted is found by the outbound lookup of its five-tuple, and the
  reply lookup at the proxy address and the allocated port gives the same redirection, which names
  the process, the target and the local endpoint of the flow. The allocated port is never zero and
  never the proxy's own port.
\<close>

theorem insertAt_then_lookup:
  assumes reach: "reachable_table st" and wf: "wf_flow flow" and same: "same_protocol st flow"
    and ins: "insertAtLocked now flow ca pp c st = (True, st')"
  shows "\<exists>r. outboundTransportTarget (cf_protocol flow) (cf_localAddress flow) (cf_localPort flow)
            (cf_remoteAddress flow) (cf_remotePort flow) st' = (Some r, st')
        \<and> reflectedTransportTarget (cf_protocol flow) (rt_proxyAddress r) (rt_reflectedPort r)
            (rt_proxyAddress r) st' = Some r
        \<and> rt_original r = flow_target flow
        \<and> rt_originalLocalAddress r = cf_localAddress flow \<and> rt_originalLocalPort r = cf_localPort flow
        \<and> rt_reflectedPort r \<noteq> 0 \<and> rt_reflectedPort r \<noteq> pp"
proof -
  have inv: "flow_inv st" using reach by (rule flows.reach_inv)
  have norm: "normalizeIpAddress (cf_localAddress flow) = cf_localAddress flow"
    "normalizeIpAddress (cf_remoteAddress flow) = cf_remoteAddress flow"
    using wf by (simp_all add: wf_flow_def wf_key_def flow_key_def)
  from ins obtain pa s where pa: "resolveProxyAddress (cf_localAddress flow) ca = Some pa"
    and fin: "finishInsert flow pa pp c s = (True, st')" and s: "nextReflectedPort s \<noteq> 0"
    using inv by (auto simp: insertAtLocked_def Let_def flow_inv_def split: option.splits if_splits)
  from s fin show ?thesis
  proof (cases rule: allocateReflectedPort_cases [where la = pa and ra = pa and pp = pp and pr = "cf_protocol flow"])
    case (None m)
    with fin show ?thesis by (simp add: finishInsert_def)
  next
    case (Some m p)
    with fin have "st' = recordFlow flow pa p c (s\<lparr>nextReflectedPort := m\<rparr>)"
      by (simp add: finishInsert_def)
    with Some norm resolveProxyAddress_wf [OF pa] show ?thesis
      by (simp add: outboundTransportTarget_def reflectedTransportTarget_def recordFlow_def Let_def
          flow_key_def store_simps port_free_def)
  qed
qed

lemma sample_insert: "insertAtLocked 0 sample_flow (V4 ipv4_localhost) 1080 None FlowState_default = (True, sample_table)"
  unfolding sample_table_def by (simp add: sample_flow_def sample_eval)

theorem insertAt_then_lookup_witness:
  "\<exists>r. outboundTransportTarget 6 (V4 (Ipv4Addr 192 0 2 10)) 52000 (V4 (Ipv4Addr 198 51 100 20)) 443
        sample_table = (Some r, sample_table) \<and> rt_reflectedPort r \<noteq> 1080"
  using insertAt_then_lookup [OF reachable_default wf_sample_flow _ sample_insert]
  by (auto simp: same_protocol_def sample_flow_def tcpProtocol_def)

text \<open>
  The port search is exhaustive. It fails exactly when every non-zero port is the proxy port or
  already taken for the address pair and protocol, and a port it returns is free.
\<close>

theorem allocateReflectedPort_exhaustive:
  assumes "nextReflectedPort st \<noteq> 0"
  shows "(fst (allocateReflectedPort st la ra pp pr) = None \<longleftrightarrow>
            (\<forall>p. p \<noteq> 0 \<longrightarrow> p = pp \<or> hm_contains (reflected st)
               \<lparr>rk_localAddress = la, rk_localPort = p, rk_remoteAddress = ra, rk_protocol = pr\<rparr>))
    \<and> (\<forall>p. fst (allocateReflectedPort st la ra pp pr) = Some p \<longrightarrow>
            p \<noteq> 0 \<and> p \<noteq> pp \<and> \<not> hm_contains (reflected st)
               \<lparr>rk_localAddress = la, rk_localPort = p, rk_remoteAddress = ra, rk_protocol = pr\<rparr>)"
proof -
  have some: "p \<noteq> 0 \<and> port_free st la ra pp pr p" if "fst (allocateReflectedPort st la ra pp pr) = Some p" for p
    using allocateReflectedPort_spec [OF assms, of la ra pp pr] that by auto
  have "(fst (allocateReflectedPort st la ra pp pr) = None) \<longleftrightarrow> (\<forall>p. p \<noteq> 0 \<longrightarrow> \<not> port_free st la ra pp pr p)"
    using some allocateReflectedPort_complete [OF assms] by (metis not_None_eq option.distinct(1))
  with some show ?thesis by (simp add: port_free_def)
qed

theorem allocateReflectedPort_exhaustive_witness:
  "fst (allocateReflectedPort FlowState_default (V4 ipv4_localhost) (V4 ipv4_localhost) 49152 6) \<noteq> None"
proof -
  have "nextReflectedPort FlowState_default \<noteq> 0" "(1::u16) \<noteq> 0" "(1::u16) \<noteq> 49152"
    "\<not> hm_contains (reflected FlowState_default) key" for key
    by (simp_all add: FlowState_default_def firstReflectedPort_def)
  with allocateReflectedPort_exhaustive [of FlowState_default] show ?thesis by blast
qed

section \<open>Generations of a reused UDP five-tuple\<close>

definition retired_version :: "instant \<Rightarrow> int option \<Rightarrow> TrackedTarget \<Rightarrow> RetiredUdpTarget" where
  "retired_version now c t = \<lparr>ru_rewrite = tt_rewrite t, ru_activeFromCounter = tt_activeFromCounter t,
     ru_retiredAt = now, ru_retiredAtCounter = c\<rparr>"

lemma retireOutbound_retired:
  "hm_get (retiredUdpOutbound (retireOutbound now c k st)) k' =
     (case hm_get (outbound st) k of
        Some t \<Rightarrow> if k' = k \<and> ok_protocol k = udpProtocol
                  then Some (hm_entry_or (retiredUdpOutbound st) k [] @ [retired_version now c t])
                  else hm_get (retiredUdpOutbound st) k'
      | None \<Rightarrow> hm_get (retiredUdpOutbound st) k')"
  by (auto simp: retireOutbound_def Let_def store_simps retired_version_def split: option.splits)

lemma removeEndpointKeys_retired:
  assumes "distinct (map fst ks)" and "ok_protocol k = udpProtocol"
  shows "hm_get (retiredUdpOutbound (removeEndpointKeys now c ks st)) k =
     (case hm_get (outbound st) k of
        Some t \<Rightarrow> if k \<in> fst ` set ks
                  then Some (hm_entry_or (retiredUdpOutbound st) k [] @ [retired_version now c t])
                  else hm_get (retiredUdpOutbound st) k
      | None \<Rightarrow> hm_get (retiredUdpOutbound st) k)"
  using assms
proof (induction now c ks st rule: removeEndpointKeys.induct)
  case (1 now c st)
  then show ?case by (simp split: option.splits)
next
  case (2 now c ok rk ks st)
  show ?case
  proof (cases "k = ok")
    case True
    with 2 show ?thesis
      by (auto simp: Let_def store_simps retireOutbound_retired split: option.splits)
  next
    case False
    with 2 show ?thesis
      by (auto simp: Let_def store_simps retireOutbound_retired hm_entry_or_def split: option.splits)
  qed
qed

lemma retired_after_close:
  assumes inv: "flow_inv st" and t: "hm_get (outbound st) k = Some t" and udp: "ok_protocol k = udpProtocol"
  shows "hm_get (retiredUdpOutbound (removeEndpointLocked now (tt_endpointId t) c st)) k =
     Some (hm_entry_or (retiredUdpOutbound st) k [] @ [retired_version now c t])"
proof -
  obtain ks where ks: "hm_get (endpointKeys st) (tt_endpointId t) = Some ks" "k \<in> fst ` set ks"
    using owned_keys [OF inv t, of "tt_endpointId t"] by blast
  have "distinct (map fst ks)" using idx_keys [OF idx_of [OF inv] ks(1)] by simp
  from removeEndpointKeys_retired [OF this udp] ks t show ?thesis
    by (simp add: removeEndpointLocked_def Let_def)
qed

lemma hm_get_map_values: "hm_get (map (\<lambda>e. (fst e, f (snd e))) m) k = map_option f (hm_get m k)"
  unfolding hm_get_def by (induction m) auto

lemma hm_get_filter_keep:
  "hm_get m k = Some v \<Longrightarrow> P (k, v) \<Longrightarrow> hm_get (filter P m) k = Some v"
  unfolding hm_get_def by (induction m) (auto split: if_splits)

lemma advance_keeps_version:
  assumes "hm_get (retiredUdpOutbound st) k = Some (us @ [retired_version now (Some closedAt) t])"
    and "watermark \<le> closedAt"
  shows "\<exists>vs. hm_get (retiredUdpOutbound (advanceUdpObservationWatermark watermark st)) k =
    Some (vs @ [retired_version now (Some closedAt) t])"
  using assms unfolding advanceUdpObservationWatermark_def
  by (simp add: retired_version_def)
    (rule exI, rule hm_get_filter_keep, simp add: hm_get_map_values, simp)

abbreviation udp_lookup :: "OutboundKey \<Rightarrow> instant \<Rightarrow> int \<Rightarrow> FlowState \<Rightarrow> RewriteTarget option" where
  "udp_lookup k at' c st \<equiv> udpTargetAt (ok_localAddress k) (ok_localPort k) (ok_remoteAddress k)
     (ok_remotePort k) at' c st"

lemma udp_lookup_key:
  "wf_key k \<Longrightarrow> ok_protocol k = udpProtocol \<Longrightarrow>
   \<lparr>ok_localAddress = normalizeIpAddress (ok_localAddress k), ok_localPort = ok_localPort k,
    ok_remoteAddress = normalizeIpAddress (ok_remoteAddress k), ok_remotePort = ok_remotePort k,
    ok_protocol = udpProtocol\<rparr> = k"
  by (simp add: wf_key_def)

lemma outbound_wf_key:
  assumes "flow_inv st" and "hm_get (outbound st) k = Some t"
  shows "wf_key k"
  by (rule outbound_linked [OF assms]) (simp add: linked_def)

text \<open>
  C6: a datagram that was captured before its endpoint closed is still attributed to the process
  that owned the five-tuple then, even after the five-tuple was recorded again for another endpoint
  from a later counter on; datagrams captured from that counter on belong to the new owner. The old
  version survives every watermark up to the closing counter.
\<close>

theorem udp_generation_by_counter:
  assumes reach: "reachable_table st"
    and old: "hm_get (outbound st) k = Some t" "ok_protocol k = udpProtocol"
    and closed: "st1 = removeEndpointsAt now [tt_endpointId t] closedAt st"
    and new: "wf_flow flow" "flow_key flow = k"
    and ins: "insertAtLocked now' flow ca pp (Some reusedAt) st1 = (True, st2)"
    and wm: "watermark \<le> closedAt" "st3 = advanceUdpObservationWatermark watermark st2"
    and early: "active_at (tt_activeFromCounter t) early" "early < closedAt" "early < reusedAt"
    and late: "reusedAt \<le> late"
  shows "udp_lookup k captured early st3 = Some (tt_rewrite t)
    \<and> (\<exists>r. udp_lookup k captured late st3 = Some r \<and> rt_original r = flow_target flow
           \<and> rt_endpointId r = cf_endpointId flow)"
proof -
  have inv: "flow_inv st" using reach by (rule flows.reach_inv)
  let ?v = "retired_version now (Some closedAt) t"
  have st1: "st1 = removeEndpointLocked now (tt_endpointId t) (Some closedAt) st"
    using closed by (simp add: removeEndpointsAt_def)
  have retired1: "hm_get (retiredUdpOutbound st1) k = Some (hm_entry_or (retiredUdpOutbound st) k [] @ [?v])"
    unfolding st1 by (rule retired_after_close [OF inv old])
  have none1: "hm_get (outbound st1) k = None"
    unfolding st1 by (rule removeEndpoint_key_free [OF inv old(1)])
  have proto: "cf_protocol flow = udpProtocol" "udpProtocol \<noteq> tcpProtocol"
    using new(2) old(2) by (auto simp: flow_key_def udpProtocol_def tcpProtocol_def)
  have nz: "nextReflectedPort st1 \<noteq> 0" using inv by (simp add: st1 flow_inv_def)
  from ins obtain pa where fin: "finishInsert flow pa pp (Some reusedAt) st1 = (True, st2)"
    using none1 new(2) proto by (auto simp: insertAtLocked_def split: option.splits)
  from nz fin obtain m p where st2: "st2 = recordFlow flow pa p (Some reusedAt) (st1\<lparr>nextReflectedPort := m\<rparr>)"
    by (cases rule: allocateReflectedPort_cases [where la = pa and ra = pa and pp = pp and pr = "cf_protocol flow"])
      (auto simp: finishInsert_def)
  have key: "\<lparr>ok_localAddress = normalizeIpAddress (ok_localAddress k), ok_localPort = ok_localPort k,
      ok_remoteAddress = normalizeIpAddress (ok_remoteAddress k), ok_remotePort = ok_remotePort k,
      ok_protocol = udpProtocol\<rparr> = k"
    by (rule udp_lookup_key [OF outbound_wf_key [OF inv old(1)] old(2)])
  have "\<exists>vs. hm_get (retiredUdpOutbound st3) k = Some (vs @ [?v])"
    using retired1 wm by (simp add: st2 recordFlow_def Let_def advance_keeps_version)
  then obtain vs where vs: "hm_get (retiredUdpOutbound st3) k = Some (vs @ [?v])" ..
  have cur: "\<exists>r. hm_get (outbound st3) k = Some \<lparr>tt_endpointId = cf_endpointId flow, tt_rewrite = r,
      tt_activeFromCounter = Some reusedAt\<rparr> \<and> rt_original r = flow_target flow \<and> rt_endpointId r = cf_endpointId flow"
    using new(2) by (simp add: wm(2) advanceUdpObservationWatermark_def st2 recordFlow_def Let_def store_simps)
  show ?thesis
    using cur vs early late
    by (auto simp: udpTargetAt_def key Let_def active_at_def retired_covers_def retired_version_def
        split: option.splits)
qed

definition udp_flow :: "u32 \<Rightarrow> u64 \<Rightarrow> CaptureFlow" where
  "udp_flow pid ep = \<lparr>cf_processId = pid, cf_endpointId = ep, cf_localAddress = V4 (Ipv4Addr 192 0 2 10),
     cf_localPort = 53002, cf_remoteAddress = V4 (Ipv4Addr 198 51 100 10), cf_remotePort = 443,
     cf_protocol = udpProtocol\<rparr>"

definition udp_table :: FlowState where
  "udp_table = snd (insertAtLocked 0 (udp_flow 7001 101) (V4 ipv4_localhost) 1080 (Some 100) FlowState_default)"

lemma wf_udp_flow: "wf_flow (udp_flow pid ep)"
  by (simp add: wf_flow_def wf_key_def udp_flow_def flow_key_def)

lemma reachable_udp_table: "reachable_table udp_table"
  unfolding udp_table_def
  by (rule reach_step [OF reachable_default]) (auto intro!: step_insert wf_udp_flow
      simp: same_protocol_def FlowState_default_def hm_entry_or_def)

lemma udp_table_eval:
  "hm_get (outbound udp_table) (flow_key (udp_flow 7002 102)) = Some
     \<lparr>tt_endpointId = 101, tt_rewrite = \<lparr>rt_endpointId = 101, rt_original = flow_target (udp_flow 7001 101),
        rt_originalLocalAddress = V4 (Ipv4Addr 192 0 2 10), rt_proxyAddress = V4 (Ipv4Addr 127 0 0 1),
        rt_originalLocalPort = 53002, rt_reflectedPort = 49152, rt_originalInterface = None\<rparr>,
      tt_activeFromCounter = Some 100\<rparr>"
  "fst (insertAtLocked 1 (udp_flow 7002 102) (V4 ipv4_localhost) 1080 (Some 300)
     (removeEndpointsAt 1 [101] 200 udp_table))"
  by (simp_all add: udp_table_def udp_flow_def sample_eval removeEndpointsAt_def retireOutbound_def
      hm_insert_def hm_remove_def hm_get_def hm_contains_def)

theorem udp_generation_by_counter_witness:
  "\<exists>st3 r. udp_lookup (flow_key (udp_flow 7002 102)) 0 150 st3 = Some r
     \<and> ot_processId (rt_original r) = 7001"
proof -
  obtain st2 where st2: "insertAtLocked 1 (udp_flow 7002 102) (V4 ipv4_localhost) 1080 (Some 300)
      (removeEndpointsAt 1 [101] 200 udp_table) = (True, st2)"
    using udp_table_eval(2) by (metis (full_types) prod.collapse)
  have proto: "ok_protocol (flow_key (udp_flow 7002 102)) = udpProtocol"
    by (simp add: flow_key_def udp_flow_def)
  define st1 where "st1 = removeEndpointsAt 1 [101] 200 udp_table"
  define t where "t = the (hm_get (outbound udp_table) (flow_key (udp_flow 7002 102)))"
  have t: "hm_get (outbound udp_table) (flow_key (udp_flow 7002 102)) = Some t" "tt_endpointId t = 101"
    "active_at (tt_activeFromCounter t) 150" "ot_processId (rt_original (tt_rewrite t)) = 7001"
    by (simp_all add: t_def udp_table_eval(1) active_at_def) (simp add: flow_target_def udp_flow_def)
  have st1: "st1 = removeEndpointsAt 1 [tt_endpointId t] 200 udp_table"
    by (simp add: st1_def t(2))
  show ?thesis
    using udp_generation_by_counter [OF reachable_udp_table t(1) proto st1 wf_udp_flow refl
        st2 [folded st1_def] _ refl t(3), of 200 350 0] t(4)
    by auto
qed

section \<open>Attribution of the first datagram\<close>

lemma lex_le_fst: "x \<le> y \<Longrightarrow> fst x \<le> fst y" for x y :: "'a::order \<times> 'b::order"
  by (auto simp: less_eq_prod_def)

lemma hd_remdups_adj: "xs \<noteq> [] \<Longrightarrow> hd (remdups_adj xs) = hd xs"
  by (induction xs rule: remdups_adj.induct) auto

definition binding_candidates :: "IpAddr \<Rightarrow> u16 \<Rightarrow> FlowState \<Rightarrow> (u64 \<times> u32) set" where
  "binding_candidates la lp st =
     set (hm_entry_or (udpBindings st) \<lparr>bk_localAddress = la, bk_localPort = lp\<rparr> [])
     \<union> set (hm_entry_or (udpBindings st) \<lparr>bk_localAddress = wildcard_address la, bk_localPort = lp\<rparr> [])"

text \<open>
  A first datagram is attributed only when every binding of its local port, exact or wildcard,
  belongs to one process; the chosen endpoint is then the least of them. With bindings of two
  processes, or none, there is no attribution.
\<close>

theorem udpBindingCandidate_unambiguous:
  "udpBindingCandidate la lp st = Some (ep, pid) \<longleftrightarrow>
     (ep, pid) \<in> binding_candidates la lp st
     \<and> (\<forall>e p. (e, p) \<in> binding_candidates la lp st \<longrightarrow> p = pid \<and> ep \<le> e)"
proof -
  define xs where "xs = hm_entry_or (udpBindings st) \<lparr>bk_localAddress = la, bk_localPort = lp\<rparr> [] @
    hm_entry_or (udpBindings st) \<lparr>bk_localAddress = wildcard_address la, bk_localPort = lp\<rparr> []"
  have cands: "binding_candidates la lp st = set xs"
    by (simp add: binding_candidates_def xs_def)
  show ?thesis
  proof (cases "xs = []")
    case True
    then show ?thesis
      by (simp add: udpBindingCandidate_def Let_def xs_def [symmetric] cands)
  next
    case False
    define h where "h = hd (sort xs)"
    obtain ys where ys: "sort xs = h # ys"
      using False unfolding h_def by (metis length_0_conv length_sort list.collapse)
    have h: "h \<in> set xs" "\<forall>x \<in> set xs. h \<le> x"
      using sorted_sort [of xs, unfolded ys] arg_cong [OF ys, of set, unfolded set_sort] by auto
    have "remdups_adj (sort xs) \<noteq> []" "hd (remdups_adj (sort xs)) = h"
      using ys by (simp_all add: hd_remdups_adj)
    then obtain tl where "remdups_adj (sort xs) = h # tl" by (metis list.exhaust_sel)
    moreover from this have "set (h # tl) = set xs" by (metis remdups_adj_set set_sort)
    ultimately have "udpBindingCandidate la lp st = (if \<forall>x \<in> set xs. snd x = snd h then Some h else None)"
      by (simp add: udpBindingCandidate_def Let_def xs_def [symmetric])
    then have "udpBindingCandidate la lp st = Some (ep, pid) \<longleftrightarrow>
        (\<forall>x \<in> set xs. snd x = snd h) \<and> h = (ep, pid)" by (simp split: if_split)
    moreover have "(\<forall>x \<in> set xs. snd x = snd h) \<and> h = (ep, pid) \<longleftrightarrow>
        (ep, pid) \<in> set xs \<and> (\<forall>e p. (e, p) \<in> set xs \<longrightarrow> p = pid \<and> ep \<le> e)"
    proof
      assume a: "(\<forall>x \<in> set xs. snd x = snd h) \<and> h = (ep, pid)"
      have "p = pid \<and> ep \<le> e" if "(e, p) \<in> set xs" for e p
        using h(2) a that lex_le_fst [of h "(e, p)"] by auto
      moreover have "(ep, pid) \<in> set xs" using conjunct2 [OF a] h(1) by (rule subst)
      ultimately show "(ep, pid) \<in> set xs \<and> (\<forall>e p. (e, p) \<in> set xs \<longrightarrow> p = pid \<and> ep \<le> e)"
        by blast
    next
      assume a: "(ep, pid) \<in> set xs \<and> (\<forall>e p. (e, p) \<in> set xs \<longrightarrow> p = pid \<and> ep \<le> e)"
      then have "\<forall>x \<in> set xs. snd x = pid \<and> ep \<le> fst x" by auto
      with h(1) have all: "\<forall>x \<in> set xs. snd x = pid" "snd h = pid" "ep \<le> fst h" by simp_all
      have "fst h \<le> ep" using h(2) a lex_le_fst [of h "(ep, pid)"] by simp
      with all have "h = (ep, pid)" by (simp add: prod_eq_iff)
      with all show "(\<forall>x \<in> set xs. snd x = snd h) \<and> h = (ep, pid)" by simp
    qed
    ultimately show ?thesis unfolding cands by (rule trans)
  qed
qed

definition bound_table :: FlowState where
  "bound_table = snd (registerUdpBinding 42 7 (V4 ipv4_unspecified) 53002 FlowState_default)"

theorem udpBindingCandidate_unambiguous_witness:
  "udpBindingCandidate (V4 (Ipv4Addr 192 0 2 10)) 53002 bound_table = Some (7, 42)"
  unfolding udpBindingCandidate_unambiguous binding_candidates_def bound_table_def
  by (simp add: registerUdpBinding_def addUdpBinding_def removeUdpBindingLocked_def FlowState_default_def
      hm_entry_or_def hm_get_def hm_insert_def wildcard_address_def normalizeIpAddress_def is_loopback_def
      ipv4_unspecified_def Let_def)

section \<open>Deselecting processes\<close>

definition deselected :: "u32 set \<Rightarrow> FlowState \<Rightarrow> u64 set" where
  "deselected selected st = {tt_endpointId t |k t. hm_get (outbound st) k = Some t
     \<and> ot_processId (rt_original (tt_rewrite t)) \<notin> selected}"

lemma fold_removeEndpointLocked_outbound:
  assumes "flow_inv st"
  shows "hm_get (outbound (fold (\<lambda>ep. removeEndpointLocked now ep c) eps st)) k =
    (case hm_get (outbound st) k of None \<Rightarrow> None
     | Some t \<Rightarrow> if tt_endpointId t \<in> set eps then None else Some t)"
  using assms
proof (induction eps arbitrary: st)
  case (Cons ep eps)
  have "flow_inv (removeEndpointLocked now ep c st)" using Cons.prems by (rule inv_intros)
  from Cons.IH [OF this] show ?case
    by (auto simp: removeEndpointLocked_outbound [OF Cons.prems] flows_without_def split: option.splits)
qed (simp split: option.splits)

lemma fold_removeUdpBindingLocked_outbound [simp]:
  "outbound (fold removeUdpBindingLocked eps st) = outbound st"
  by (induction eps arbitrary: st) auto

lemma binding_removed:
  assumes "bind_inv (udpBindings st) (udpBindingKeys st)"
    and "hm_get (udpBindings (removeUdpBindingLocked ep st)) key = Some bs" and "hm_get bs ep' = Some pid"
  shows "ep' \<noteq> ep \<and> (\<exists>bs. hm_get (udpBindings st) key = Some bs \<and> hm_get bs ep' = Some pid)"
proof -
  from bind_inv_removeUdpBinding [OF assms(1), of ep] assms(2,3)
  have "hm_get (udpBindingKeys (removeUdpBindingLocked ep st)) ep' = Some key"
    unfolding bind_inv_def hm_contains_def by blast
  then have "ep' \<noteq> ep"
    unfolding removeUdpBindingLocked_unbound [OF assms(1)] by auto
  with assms(2,3) show ?thesis
    by (auto simp: removeUdpBindingLocked_def Let_def store_simps split: option.splits if_splits)
qed

lemma fold_binding_removed:
  assumes "bind_inv (udpBindings st) (udpBindingKeys st)"
    and "hm_get (udpBindings (fold removeUdpBindingLocked eps st)) key = Some bs" and "hm_get bs ep = Some pid"
  shows "ep \<notin> set eps \<and> (\<exists>bs. hm_get (udpBindings st) key = Some bs \<and> hm_get bs ep = Some pid)"
  using assms
proof (induction eps arbitrary: st)
  case (Cons e eps)
  from Cons.IH [OF bind_inv_removeUdpBinding [OF Cons.prems(1)]] Cons.prems(2,3)
  obtain bs' where "ep \<notin> set eps" "hm_get (udpBindings (removeUdpBindingLocked e st)) key = Some bs'"
    "hm_get bs' ep = Some pid" by auto
  with binding_removed [OF Cons.prems(1)] show ?case by fastforce
qed auto

text \<open>
  C8: after the selection changed, a flow is tracked exactly if it was tracked before and its
  endpoint owned no flow of a deselected process; no tracked flow and no UDP binding belongs to a
  process outside the selection.
\<close>

theorem retainProcessIds_selection:
  assumes "reachable_table st"
  shows "(\<forall>k. hm_get (outbound (retainProcessIds now selected st)) k =
            (case hm_get (outbound st) k of None \<Rightarrow> None
             | Some t \<Rightarrow> if tt_endpointId t \<in> deselected selected st then None else Some t))
    \<and> (\<forall>k t. hm_get (outbound (retainProcessIds now selected st)) k = Some t \<longrightarrow>
            ot_processId (rt_original (tt_rewrite t)) \<in> selected)
    \<and> (\<forall>key bs ep pid. hm_get (udpBindings (retainProcessIds now selected st)) key = Some bs \<longrightarrow>
            hm_get bs ep = Some pid \<longrightarrow> pid \<in> selected)"
proof -
  have inv: "flow_inv st" using assms by (rule flows.reach_inv)
  define eps where "eps = map tt_endpointId (filter (\<lambda>t. ot_processId (rt_original (tt_rewrite t)) \<notin> selected)
    (map snd (outbound st)))"
  define st1 where "st1 = fold (\<lambda>ep. removeEndpointLocked now ep None) eps st"
  define eps1 where "eps1 = map fst (filter (\<lambda>(_, pid). pid \<notin> selected) (concat (map snd (udpBindings st1))))"
  have st': "retainProcessIds now selected st = fold removeUdpBindingLocked eps1 st1"
    by (simp add: retainProcessIds_def Let_def eps_def st1_def eps1_def)
  have "hm_wf (outbound st)" using inv by (simp add: flow_inv_def st_idx_def)
  then have eps: "set eps = deselected selected st"
    by (force simp: eps_def deselected_def hm_in_set [symmetric])
  have inv1: "flow_inv st1" unfolding st1_def by (rule flow_inv_fold_remove [OF inv])
  have out: "hm_get (outbound (retainProcessIds now selected st)) k =
      (case hm_get (outbound st) k of None \<Rightarrow> None
       | Some t \<Rightarrow> if tt_endpointId t \<in> deselected selected st then None else Some t)" for k
    unfolding eps [symmetric] by (simp add: st' st1_def fold_removeEndpointLocked_outbound [OF inv])
  moreover have "ot_processId (rt_original (tt_rewrite t)) \<in> selected"
    if "hm_get (outbound (retainProcessIds now selected st)) k = Some t" for k t
    using that unfolding out by (auto simp: deselected_def split: option.splits if_splits)
  moreover have "pid \<in> selected"
    if "hm_get (udpBindings (retainProcessIds now selected st)) key = Some bs" "hm_get bs ep = Some pid" for key bs ep pid
  proof (rule ccontr)
    assume "pid \<notin> selected"
    from inv1 have "bind_inv (udpBindings st1) (udpBindingKeys st1)" by (simp add: flow_inv_def)
    from fold_binding_removed [OF this that(1) [unfolded st'] that(2)]
    obtain bs' where "ep \<notin> set eps1" "hm_get (udpBindings st1) key = Some bs'" "hm_get bs' ep = Some pid" by blast
    then show False using \<open>pid \<notin> selected\<close>
      by (force simp: eps1_def dest: hm_get_Some_in_set)
  qed
  ultimately show ?thesis by blast
qed

theorem retainProcessIds_selection_witness:
  "\<forall>k. hm_get (outbound (retainProcessIds 9 {} sample_table)) k = None"
  using retainProcessIds_selection [OF reachable_sample_table, of 9 "{}"] by (metis empty_iff not_Some_eq)

section \<open>Fragment decisions\<close>

lemma pruned_decision:
  assumes "frag_inv (fragmentDecisions st) E"
  shows "hm_get (fragmentDecisions (pruneFragmentState now st)) key =
    (case hm_get (fragmentDecisions st) key of None \<Rightarrow> None
     | Some d \<Rightarrow> if now < fd_expiresAt d then Some d else None)"
  using assms by (simp add: pruneFragmentState_def frag_inv_def hm_get_retain)

lemma fragmentLookupAt_decision:
  assumes "flow_inv st"
  shows "fst (fragmentLookupAt key now st) =
    (case hm_get (fragmentDecisions st) key of None \<Rightarrow> LookupUnknown
     | Some d \<Rightarrow> if now < fd_expiresAt d
        then (case fd_action d of Allow \<Rightarrow> LookupAllow | Block _ target \<Rightarrow> LookupBlock target)
        else LookupUnknown)"
proof -
  from assms have "frag_inv (fragmentDecisions st) (endpointKeys st)" by (simp add: flow_inv_def)
  then show ?thesis
    by (simp add: fragmentLookupAt_def Let_def pruned_decision split: option.split)
qed

lemma recordFragmentDecisionAt_block:
  "recordFragmentDecisionAt key (Block ep target) now st =
     (if hm_contains (endpointKeys st) ep
      then (Recorded, (pruneFragmentState now st)\<lparr>fragmentDecisions := hm_insert key
              \<lparr>fd_action = Block ep target, fd_expiresAt = now + fragmentDecisionLifetime\<rparr>
              (evict key (fragmentDecisions (pruneFragmentState now st)))\<rparr>)
      else (EndpointGone, pruneFragmentState now st))"
  unfolding recordFragmentDecisionAt_def Let_def evict_def [symmetric]
  by (simp add: pruneFragmentState_def)

text \<open>
  A blocking decision is recorded exactly while its endpoint owns a flow. From then on every
  fragment of the datagram is blocked with its target, until the decision lifetime ends, after
  which the datagram is unknown again. A live blocking decision is never replaced by an allowing one.
\<close>

theorem fragment_decisions:
  assumes "reachable_table st"
  shows "(fst (recordFragmentDecisionAt key (Block ep target) now st) = Recorded \<longleftrightarrow>
            hm_contains (endpointKeys st) ep)
    \<and> (hm_contains (endpointKeys st) ep \<longrightarrow>
          fst (fragmentLookupAt key later (snd (recordFragmentDecisionAt key (Block ep target) now st)))
            = (if later < now + fragmentDecisionLifetime then LookupBlock target else LookupUnknown))
    \<and> (\<forall>d. hm_get (fragmentDecisions st) key = Some d \<and> fd_action d = Block ep target
          \<and> now < fd_expiresAt d \<and> later < fd_expiresAt d \<longrightarrow>
          fst (fragmentLookupAt key later (snd (recordFragmentDecisionAt key Allow now st))) = LookupBlock target)"
proof -
  have inv: "flow_inv st" using assms by (rule flows.reach_inv)
  then have frag: "frag_inv (fragmentDecisions st) (endpointKeys st)" by (simp add: flow_inv_def)
  let ?blocked = "snd (recordFragmentDecisionAt key (Block ep target) now st)"
  let ?allowed = "snd (recordFragmentDecisionAt key Allow now st)"
  have blocked: "flow_inv ?blocked" and allowed: "flow_inv ?allowed" using inv by (auto intro: inv_intros)
  have "fst (fragmentLookupAt key later ?blocked)
      = (if later < now + fragmentDecisionLifetime then LookupBlock target else LookupUnknown)"
    if "hm_contains (endpointKeys st) ep"
    unfolding fragmentLookupAt_decision [OF blocked]
    using that by (simp add: recordFragmentDecisionAt_block hm_get_insert)
  moreover have "fst (fragmentLookupAt key later ?allowed) = LookupBlock target"
    if "hm_get (fragmentDecisions st) key = Some d" "fd_action d = Block ep target"
      "now < fd_expiresAt d" "later < fd_expiresAt d" for d
  proof -
    from that have "hm_get (fragmentDecisions (pruneFragmentState now st)) key = Some d"
      by (simp add: pruned_decision [OF frag])
    with that have "hm_get (fragmentDecisions ?allowed) key = Some d"
      by (simp add: recordFragmentDecisionAt_def Let_def)
    with that show ?thesis by (simp add: fragmentLookupAt_decision [OF allowed])
  qed
  ultimately show ?thesis by (auto simp: recordFragmentDecisionAt_block)
qed

definition sample_fragment :: FragmentKey where
  "sample_fragment = \<lparr>fk_sourceAddress = V4 (Ipv4Addr 192 0 2 10),
     fk_destinationAddress = V4 (Ipv4Addr 198 51 100 20), fk_identification = 77,
     fk_protocol = 6, fk_outbound = True\<rparr>"

lemma sample_endpoint: "hm_contains (endpointKeys sample_table) 8"
  by (simp add: sample_table_def sample_flow_def sample_eval hm_contains_def)

text \<open>A table with a blocking decision and one with a binding.\<close>

definition blocked_table :: FlowState where
  "blocked_table = snd (recordFragmentDecisionAt sample_fragment (Block 8 (flow_target sample_flow)) 5 sample_table)"

lemma blocked_decision: "map_option fd_action (hm_get (fragmentDecisions blocked_table) sample_fragment) = Some (Block 8 (flow_target sample_flow))"
  using sample_endpoint
  by (simp add: blocked_table_def recordFragmentDecisionAt_def pruneFragmentState_def Let_def hm_get_insert)

lemma reachable_examples: "reachable_table blocked_table" "reachable_table bound_table"
  unfolding blocked_table_def bound_table_def
  by (rule reach_step [OF reachable_sample_table step_fragment]) (rule reach_step [OF reachable_default step_bind])

lemma bound_key: "hm_get (udpBindingKeys bound_table) 7 = Some \<lparr>bk_localAddress = V4 ipv4_unspecified, bk_localPort = 53002\<rparr>"
  by (simp add: bound_table_def registerUdpBinding_def addUdpBinding_def removeUdpBindingLocked_def FlowState_default_def
      hm_get_def hm_insert_def normalizeIpAddress_def ipv4_unspecified_def Let_def)

theorem flow_table_bounds_witness:
  "(\<exists>k t. hm_get (outbound blocked_table) k = Some t \<and> tt_endpointId t = 8)
    \<and> (\<exists>bs pid. hm_get (udpBindings bound_table) \<lparr>bk_localAddress = V4 ipv4_unspecified, bk_localPort = 53002\<rparr> = Some bs \<and> hm_get bs 7 = Some pid)"
proof
  obtain d where "hm_get (fragmentDecisions blocked_table) sample_fragment = Some d" "fd_action d = Block 8 (flow_target sample_flow)"
    using blocked_decision by auto
  then show "\<exists>k t. hm_get (outbound blocked_table) k = Some t \<and> tt_endpointId t = 8"
    using flow_table_bounds [OF reachable_examples(1)] by blast
  show "\<exists>bs pid. hm_get (udpBindings bound_table) \<lparr>bk_localAddress = V4 ipv4_unspecified, bk_localPort = 53002\<rparr> = Some bs \<and> hm_get bs 7 = Some pid"
    using flow_table_bounds [OF reachable_examples(2)] bound_key by blast
qed

theorem fragment_decisions_witness:
  "fst (fragmentLookupAt sample_fragment 7 (snd (recordFragmentDecisionAt sample_fragment
     (Block 8 (flow_target sample_flow)) 5 sample_table))) = LookupBlock (flow_target sample_flow)"
  using fragment_decisions [OF reachable_sample_table, of sample_fragment 8 "flow_target sample_flow" 5 7]
    sample_endpoint
  by (simp add: fragmentDecisionLifetime_def)

section \<open>Association under interference\<close>

lemma reachable_lookupUdp:
  assumes "reachable_table (flowState table)" and "lookupUdp now request table = (target, table')"
  shows "reachable_table (flowState table')"
proof (cases "ua_capturedAtCounter request")
  case None
  with assms(2) have "flowState table' = snd (outboundTransportTarget udpProtocol (ua_localAddress request)
      (ua_localPort request) (ua_remoteAddress request) (ua_remotePort request) (flowState table))"
    by (auto simp: lookupUdp_def split: prod.splits)
  with assms(1) show ?thesis by (auto intro: reach_step step_outbound)
next
  case (Some c)
  with assms show ?thesis by (auto simp: lookupUdp_def)
qed

lemma flowState_insertAt:
  "flowState (snd (insertAt now flow ca pp c table)) = snd (insertAtLocked now flow ca pp c (flowState table))"
  by (auto simp: insertAt_def split: prod.splits bool.splits)

lemma no_flow_after_remove:
  assumes "reachable_table st" and "hm_get (outbound (removeEndpoint now ep st)) k = Some t"
  shows "tt_endpointId t \<noteq> ep"
  using assms(2) removeEndpointLocked_outbound [OF flows.reach_inv [OF assms(1)], of now ep None]
  by (auto simp: removeEndpoint_def flows_without_def split: option.splits if_splits)

text \<open>
  C10: attributing the first datagram of a socket races with the socket's close on other threads,
  which run between the lock sections. Whatever they do to the table within its operations, the
  result is again a reachable table, and either the binding that justified the attribution is still
  registered or no flow of that endpoint is left behind.
\<close>

theorem associateUdpOutbound_no_stale_flow:
  assumes reach: "reachable_table (flowState table)"
    and others: "\<And>i T. reachable_table (flowState T) \<Longrightarrow> reachable_table (flowState (others i T))"
    and miss: "lookupUdp (clock 0) request table = (None, T0)"
    and cand: "udpBindingCandidate (normalizeIpAddress (ua_localAddress request)) (ua_localPort request)
      (flowState (others 0 T0)) = Some (ep, pid)"
    and flow: "CaptureFlow_udp pid ep (normalizeIpAddress (ua_localAddress request)) (ua_localPort request)
      (normalizeIpAddress (ua_remoteAddress request)) (ua_remotePort request) = Some flow"
    and socket: "same_protocol (flowState (others 1 (others 0 T0))) flow"
    and result: "associateUdpOutboundAt others clock request table = (target, final)"
  shows "reachable_table (flowState final)
    \<and> (hm_contains (udpBindingKeys (flowState final)) ep
       \<or> (\<forall>k t. hm_get (outbound (flowState final)) k = Some t \<longrightarrow> tt_endpointId t \<noteq> ep))"
proof -
  define T2 where "T2 = snd (insertAt (clock 1) flow (ua_configuredProxyAddress request)
    (ua_proxyPort request) (ua_capturedAtCounter request) (others 1 (others 0 T0)))"
  obtain tgt T3 where T3: "lookupUdp (clock 2) request (others 2 T2) = (tgt, T3)" by fastforce
  have "reachable_table (flowState T0)" using reach miss by (rule reachable_lookupUdp)
  then have T1: "reachable_table (flowState (others 1 (others 0 T0)))" by (intro others)
  have "wf_flow flow" using flow unfolding CaptureFlow_udp_def by (rule wf_flow_transport) simp
  with T1 socket have "reachable_table (flowState T2)"
    unfolding T2_def flowState_insertAt by (blast intro: reach_step step_insert)
  then have "reachable_table (flowState T3)" using T3 by (blast intro: reachable_lookupUdp others)
  then have T4: "reachable_table (flowState (others 3 T3))" "reachable_table (flowState (others 4 (others 3 T3)))"
    by (intro others, assumption)+
  have final: "final = (if hm_contains (udpBindingKeys (flowState (others 3 T3))) ep then others 3 T3
      else (others 4 (others 3 T3))\<lparr>flowState := removeEndpoint (clock 4) ep (flowState (others 4 (others 3 T3)))\<rparr>)"
    using result miss cand flow T3 by (simp add: associateUdpOutboundAt_def Let_def T2_def split: if_splits)
  show ?thesis
  proof (cases "hm_contains (udpBindingKeys (flowState (others 3 T3))) ep")
    case True
    with final T4(1) show ?thesis by simp
  next
    case False
    with final T4(2) no_flow_after_remove [OF T4(2)] show ?thesis
      by (auto intro: reach_step step_remove)
  qed
qed

definition udp_request :: UdpAssociationRequest where
  "udp_request = \<lparr>ua_localAddress = V4 (Ipv4Addr 192 0 2 10), ua_localPort = 53002,
     ua_remoteAddress = V4 (Ipv4Addr 198 51 100 10), ua_remotePort = 443,
     ua_configuredProxyAddress = V4 ipv4_localhost, ua_proxyPort = 1080, ua_capturedAtCounter = None\<rparr>"

definition closing_others :: "nat \<Rightarrow> CaptureFlowTable \<Rightarrow> CaptureFlowTable" where
  "closing_others i T = (if i = 2 then T\<lparr>flowState := removeEndpoint 0 7 (flowState T)\<rparr> else T)"

lemma bound_table_eval:
  "bound_table = FlowState_default\<lparr>
     udpBindings := [(\<lparr>bk_localAddress = V4 (Ipv4Addr 0 0 0 0), bk_localPort = 53002\<rparr>, [(7, 42)])],
     udpBindingKeys := [(7, \<lparr>bk_localAddress = V4 (Ipv4Addr 0 0 0 0), bk_localPort = 53002\<rparr>)]\<rparr>"
  by (simp add: bound_table_def registerUdpBinding_def addUdpBinding_def removeUdpBindingLocked_def
      FlowState_default_def hm_entry_or_def hm_get_def hm_insert_def ipv4_unspecified_def Let_def)

lemma reachable_bound_table: "reachable_table bound_table"
  unfolding bound_table_def by (rule reach_step [OF reachable_default step_bind])

theorem associateUdpOutbound_no_stale_flow_witness:
  "let final = snd (associateUdpOutboundAt closing_others (\<lambda>_. 0) udp_request
       \<lparr>flowState = bound_table, associationNotifier = None\<rparr>)
   in hm_contains (udpBindingKeys (flowState final)) 7
      \<or> (\<forall>k t. hm_get (outbound (flowState final)) k = Some t \<longrightarrow> tt_endpointId t \<noteq> 7)"
proof -
  let ?T = "\<lparr>flowState = bound_table, associationNotifier = None\<rparr>"
  have reach: "reachable_table (flowState ?T)" by (simp add: reachable_bound_table)
  have others: "reachable_table (flowState T) \<Longrightarrow> reachable_table (flowState (closing_others i T))" for i T
    by (auto simp: closing_others_def intro: reach_step step_remove)
  have miss: "lookupUdp 0 udp_request ?T = (None, ?T)"
    by (simp add: lookupUdp_def udp_request_def outboundTransportTarget_def bound_table_eval
        FlowState_default_def)
  have cand: "udpBindingCandidate (normalizeIpAddress (ua_localAddress udp_request)) (ua_localPort udp_request)
      (flowState (closing_others 0 ?T)) = Some (7, 42)"
    by (simp add: closing_others_def udp_request_def bound_table_eval udpBindingCandidate_def Let_def
        wildcard_address_def ipv4_unspecified_def hm_entry_or_def hm_get_def FlowState_default_def)
  have flow: "CaptureFlow_udp 42 7 (normalizeIpAddress (ua_localAddress udp_request)) (ua_localPort udp_request)
      (normalizeIpAddress (ua_remoteAddress udp_request)) (ua_remotePort udp_request) = Some (udp_flow 42 7)"
    by (simp add: CaptureFlow_udp_def CaptureFlow_transport_def udp_request_def udp_flow_def Let_def)
  have socket: "same_protocol (flowState (closing_others 1 (closing_others 0 ?T))) (udp_flow 42 7)"
    by (simp add: same_protocol_def closing_others_def bound_table_eval FlowState_default_def hm_entry_or_def)
  obtain target final where res:
    "associateUdpOutboundAt closing_others (\<lambda>_. 0) udp_request ?T = (target, final)" by fastforce
  show ?thesis
    using associateUdpOutbound_no_stale_flow [OF reach others miss cand flow socket res] res by simp
qed

end
