(* ===== verification/PacketRewrite.thy ===== *)
theory PacketRewrite
  imports FlowTable
begin

text \<open>
  The packet rewriter of \<open>ProcessCapture/src/packetRewrite.rs\<close>: parsing of IPv4 and IPv6 packets
  down to the TCP or UDP header, redirection of a tracked TCP packet to the local proxy and
  restoration of the proxy's replies. Every index and slice carries the bounds check of the
  language (\<open>byte_at\<close>, \<open>slice_at\<close>, \<open>copy_from_slice\<close>). An \<open>Err\<close> is only returned before anything
  was written, so the caller's packet and table are then the ones it passed.
\<close>

section \<open>Data\<close>

datatype PacketDirection =
    Bypass
  | ObservedUp OriginalTarget
  | ObservedDown OriginalTarget
  | Blocked OriginalTarget
  | Redirected OriginalTarget IpAddr u16
  | Restored OriginalTarget "NetworkInterface option"

datatype PacketRewriteError =
    TruncatedIpHeader
  | UnsupportedIpVersion u8
  | NotTcp
  | NotUdp
  | InvalidIpv6Extension
  | TruncatedTcpHeader
  | TruncatedUdpHeader
  | InvalidPacketLength
  | UnsupportedUdpJumbogram

record ObservedUdpPacket =
  ou_sourceAddress :: IpAddr
  ou_destinationAddress :: IpAddr
  ou_sourcePort :: u16
  ou_destinationPort :: u16
  ou_payloadOffset :: nat
  ou_payloadEnd :: nat

record ParsedTcpPacket =
  pt_sourceAddress :: IpAddr
  pt_destinationAddress :: IpAddr
  pt_sourceAddressOffset :: nat
  pt_destinationAddressOffset :: nat
  pt_tcpOffset :: nat
  pt_fragmentKey :: "FragmentKey option"

datatype ParsedPacket = Tcp ParsedTcpPacket | LaterFragment FragmentKey

datatype UdpDatagramDirection = Up | Down

record UdpDatagramModification =
  um_offsetBytes :: nat
  um_originalBytes :: bytes
  um_modifiedBytes :: bytes

record UdpDatagramEvent =
  ue_processId :: u32
  ue_clientAddress :: SocketAddr
  ue_targetAddress :: SocketAddr
  ue_direction :: UdpDatagramDirection
  ue_payload :: bytes
  ue_capturedAtMilliseconds :: u64
  ue_modifications :: "UdpDatagramModification list"

section \<open>Byte access\<close>

definition ensureExtensionBytes :: "bytes \<Rightarrow> nat \<Rightarrow> nat \<Rightarrow> (PacketRewriteError, unit) outcome" where
  "ensureExtensionBytes packet offset len =
     (if length packet < offset + len then Err InvalidIpv6Extension else Ok ())"

definition writeIpAddress :: "bytes \<Rightarrow> nat \<Rightarrow> IpAddr \<Rightarrow> (PacketRewriteError, bytes) outcome" where
  "writeIpAddress packet offset address =
     (case address of
        V4 a \<Rightarrow> copy_from_slice offset (ipv4_octets a) packet
      | V6 a \<Rightarrow> copy_from_slice offset (ipv6_octets a) packet)"

definition readPort :: "bytes \<Rightarrow> nat \<Rightarrow> (u16 \<Rightarrow> (PacketRewriteError, 'a) outcome) \<Rightarrow> (PacketRewriteError, 'a) outcome" where
  "readPort packet offset k = byte_at packet offset (\<lambda>h. byte_at packet (offset + 1) (\<lambda>l. k (be16 h l)))"

definition writePort :: "bytes \<Rightarrow> nat \<Rightarrow> u16 \<Rightarrow> (PacketRewriteError, bytes) outcome" where
  "writePort packet offset port = copy_from_slice offset (be16_bytes port) packet"

definition read_ipv4 :: "bytes \<Rightarrow> nat \<Rightarrow> (IpAddr \<Rightarrow> (PacketRewriteError, 'a) outcome) \<Rightarrow> (PacketRewriteError, 'a) outcome" where
  "read_ipv4 packet offset k = byte_at packet offset (\<lambda>a. byte_at packet (offset + 1) (\<lambda>b.
     byte_at packet (offset + 2) (\<lambda>c. byte_at packet (offset + 3) (\<lambda>d. k (V4 (Ipv4Addr a b c d))))))"

definition read_ipv6 :: "bytes \<Rightarrow> nat \<Rightarrow> (IpAddr \<Rightarrow> (PacketRewriteError, 'a) outcome) \<Rightarrow> (PacketRewriteError, 'a) outcome" where
  "read_ipv6 packet offset k = slice_at packet offset (offset + 16) (\<lambda>octets. k (V6 (ipv6_from octets)))"

section \<open>Parsing TCP packets\<close>

definition parseIpv4TcpPacket :: "bytes \<Rightarrow> bool \<Rightarrow> (PacketRewriteError, ParsedPacket) outcome" where
  "parseIpv4TcpPacket packet isOutbound =
     (if length packet < 20 then Err TruncatedIpHeader
      else byte_at packet 0 (\<lambda>b0.
        let headerLength = unat (b0 AND 0x0f) * 4
        in if headerLength < 20 \<or> length packet < headerLength then Err TruncatedIpHeader
           else byte_at packet 9 (\<lambda>protocol.
             if protocol \<noteq> 6 then Err NotTcp
             else readPort packet 6 (\<lambda>fragment.
               read_ipv4 packet 12 (\<lambda>sourceAddress.
               read_ipv4 packet 16 (\<lambda>destinationAddress.
               readPort packet 4 (\<lambda>identification.
                 let fragmentKey = \<lparr>fk_sourceAddress = sourceAddress, fk_destinationAddress = destinationAddress,
                       fk_identification = ucast identification, fk_protocol = protocol, fk_outbound = isOutbound\<rparr>
                 in if fragment AND 0x1fff \<noteq> 0 then Ok (LaterFragment fragmentKey)
                    else if length packet < headerLength + 20 then Err TruncatedTcpHeader
                    else Ok (Tcp \<lparr>pt_sourceAddress = sourceAddress, pt_destinationAddress = destinationAddress,
                           pt_sourceAddressOffset = 12, pt_destinationAddressOffset = 16,
                           pt_tcpOffset = headerLength,
                           pt_fragmentKey = (if fragment AND 0x2000 \<noteq> 0 then Some fragmentKey else None)\<rparr>))))))))"

text \<open>
  The extension header loop of \<open>parseIpv6TcpPacket\<close>. It ends with the key of a later fragment
  (\<open>Inl\<close>) or with the offset of the TCP header and the key of a first fragment. Each round moves
  the offset forward inside the packet, which is why it terminates.
\<close>

function ipv6TcpLoop ::
  "bytes \<Rightarrow> bool \<Rightarrow> IpAddr \<Rightarrow> IpAddr \<Rightarrow> u8 \<Rightarrow> nat \<Rightarrow> FragmentKey option \<Rightarrow>
   (PacketRewriteError, FragmentKey + nat \<times> FragmentKey option) outcome" where
  "ipv6TcpLoop packet isOutbound sourceAddress destinationAddress nextHeader offset fragmentKey =
     (if nextHeader = 6 then Ok (Inr (offset, fragmentKey))
      else if nextHeader = 0 \<or> nextHeader = 43 \<or> nextHeader = 60 then
        and_then (ensureExtensionBytes packet offset 2) (\<lambda>_.
          byte_at packet offset (\<lambda>next. byte_at packet (offset + 1) (\<lambda>len.
            if length packet < offset + (unat len + 1) * 8 then Err InvalidIpv6Extension
            else ipv6TcpLoop packet isOutbound sourceAddress destinationAddress next
                   (offset + (unat len + 1) * 8) fragmentKey)))
      else if nextHeader = 44 then
        and_then (ensureExtensionBytes packet offset 8) (\<lambda>_.
          byte_at packet (offset + 2) (\<lambda>h. byte_at packet (offset + 3) (\<lambda>l.
          slice_at packet (offset + 4) (offset + 8) (\<lambda>ident.
          byte_at packet offset (\<lambda>next.
            let fragment = be16 h l;
                key = \<lparr>fk_sourceAddress = sourceAddress, fk_destinationAddress = destinationAddress,
                       fk_identification = be32 (ident ! 0) (ident ! 1) (ident ! 2) (ident ! 3),
                       fk_protocol = next, fk_outbound = isOutbound\<rparr>
            in if fragment AND 0xfff8 \<noteq> 0 then Ok (Inl key)
               else if length packet < offset + 8 then Err InvalidIpv6Extension
               else ipv6TcpLoop packet isOutbound sourceAddress destinationAddress next (offset + 8)
                      (if fragment AND 0x0001 \<noteq> 0 then Some key else None))))))
      else if nextHeader = 51 then
        and_then (ensureExtensionBytes packet offset 2) (\<lambda>_.
          byte_at packet offset (\<lambda>next. byte_at packet (offset + 1) (\<lambda>len.
            if length packet < offset + (unat len + 2) * 4 then Err InvalidIpv6Extension
            else ipv6TcpLoop packet isOutbound sourceAddress destinationAddress next
                   (offset + (unat len + 2) * 4) fragmentKey)))
      else Err NotTcp)"
  by pat_completeness auto
termination
  by (relation "measure (\<lambda>(packet, _, _, _, _, offset, _). length packet - offset)")
    (auto simp: byte_at_def)

definition parseIpv6TcpPacket :: "bytes \<Rightarrow> bool \<Rightarrow> (PacketRewriteError, ParsedPacket) outcome" where
  "parseIpv6TcpPacket packet isOutbound =
     (if length packet < 40 then Err TruncatedIpHeader
      else byte_at packet 6 (\<lambda>nextHeader.
        read_ipv6 packet 8 (\<lambda>sourceAddress.
        read_ipv6 packet 24 (\<lambda>destinationAddress.
          and_then (ipv6TcpLoop packet isOutbound sourceAddress destinationAddress nextHeader 40 None) (\<lambda>r.
            case r of
              Inl key \<Rightarrow> Ok (LaterFragment key)
            | Inr (offset, fragmentKey) \<Rightarrow>
                if length packet < offset + 20 then Err TruncatedTcpHeader
                else Ok (Tcp \<lparr>pt_sourceAddress = sourceAddress, pt_destinationAddress = destinationAddress,
                       pt_sourceAddressOffset = 8, pt_destinationAddressOffset = 24,
                       pt_tcpOffset = offset, pt_fragmentKey = fragmentKey\<rparr>))))))"

definition parsePacket :: "bytes \<Rightarrow> bool \<Rightarrow> (PacketRewriteError, ParsedPacket) outcome" where
  "parsePacket packet isOutbound =
     (case packet of
        [] \<Rightarrow> Err TruncatedIpHeader
      | first # _ \<Rightarrow>
          (let version = drop_bit 4 first
           in if version = 4 then parseIpv4TcpPacket packet isOutbound
              else if version = 6 then parseIpv6TcpPacket packet isOutbound
              else Err (UnsupportedIpVersion version)))"

definition isTcpStartPacket :: "bytes \<Rightarrow> (PacketRewriteError, bool) outcome" where
  "isTcpStartPacket packet =
     (case parsePacket packet True of
        Ok (Tcp parsed) \<Rightarrow>
          byte_at packet (pt_tcpOffset parsed + 13) (\<lambda>flags.
            Ok (flags AND 0x02 \<noteq> 0 \<and> flags AND 0x10 = 0))
      | Ok (LaterFragment _) \<Rightarrow> Ok False
      | Err _ \<Rightarrow> Ok False
      | Panic \<Rightarrow> Panic)"

section \<open>Rewriting TCP packets\<close>

text \<open>A match on a first fragment blocks the datagram; both results of the recording block it.\<close>

definition blockFragment ::
  "instant \<Rightarrow> FragmentKey \<Rightarrow> RewriteTarget \<Rightarrow> bytes \<Rightarrow> FlowState \<Rightarrow>
   (PacketRewriteError, PacketDirection \<times> bytes \<times> FlowState) outcome" where
  "blockFragment now fragmentKey target packet flowTable =
     (case recordFragmentDecisionAt fragmentKey (Block (rt_endpointId target) (rt_original target)) now flowTable of
        (Recorded, flowTable) \<Rightarrow> Ok (Blocked (rt_original target), packet, flowTable)
      | (EndpointGone, flowTable) \<Rightarrow> Ok (Blocked (rt_original target), packet, flowTable))"

definition writeTuple ::
  "ParsedTcpPacket \<Rightarrow> IpAddr \<Rightarrow> IpAddr \<Rightarrow> u16 \<Rightarrow> u16 \<Rightarrow> bytes \<Rightarrow> (PacketRewriteError, bytes) outcome" where
  "writeTuple parsed source destination sourcePort destinationPort packet =
     and_then (writeIpAddress packet (pt_sourceAddressOffset parsed) source) (\<lambda>packet.
     and_then (writeIpAddress packet (pt_destinationAddressOffset parsed) destination) (\<lambda>packet.
     and_then (writePort packet (pt_tcpOffset parsed) sourcePort) (\<lambda>packet.
       writePort packet (pt_tcpOffset parsed + 2) destinationPort)))"

definition restoreReply ::
  "instant \<Rightarrow> ParsedTcpPacket \<Rightarrow> RewriteTarget \<Rightarrow> bytes \<Rightarrow> FlowState \<Rightarrow>
   (PacketRewriteError, PacketDirection \<times> bytes \<times> FlowState) outcome" where
  "restoreReply now parsed target packet flowTable =
     (case pt_fragmentKey parsed of
        Some fragmentKey \<Rightarrow> blockFragment now fragmentKey target packet flowTable
      | None \<Rightarrow>
          and_then (writeTuple parsed (sa_ip (ot_address (rt_original target))) (rt_originalLocalAddress target)
                      (sa_port (ot_address (rt_original target))) (rt_originalLocalPort target) packet) (\<lambda>packet.
            Ok (Restored (rt_original target) (rt_originalInterface target), packet, flowTable)))"

definition redirectOutbound ::
  "instant \<Rightarrow> ParsedTcpPacket \<Rightarrow> u16 \<Rightarrow> u16 \<Rightarrow> u16 \<Rightarrow> bytes \<Rightarrow> FlowState \<Rightarrow>
   (PacketRewriteError, PacketDirection \<times> bytes \<times> FlowState) outcome" where
  "redirectOutbound now parsed sourcePort destinationPort proxyPort packet flowTable =
     (case outboundTarget (pt_sourceAddress parsed) sourcePort (pt_destinationAddress parsed) destinationPort flowTable of
        (None, flowTable) \<Rightarrow>
          (case pt_fragmentKey parsed of
             None \<Rightarrow> Ok (Bypass, packet, flowTable)
           | Some fragmentKey \<Rightarrow>
               Ok (Bypass, packet, snd (recordFragmentDecisionAt fragmentKey Allow now flowTable)))
      | (Some target, flowTable) \<Rightarrow>
          (case pt_fragmentKey parsed of
             Some fragmentKey \<Rightarrow> blockFragment now fragmentKey target packet flowTable
           | None \<Rightarrow>
               and_then (writeTuple parsed (rt_proxyAddress target) (rt_proxyAddress target)
                           (rt_reflectedPort target) proxyPort packet) (\<lambda>packet.
                 Ok (Redirected (rt_original target) (rt_proxyAddress target) (rt_reflectedPort target),
                     packet, flowTable))))"

definition rewriteTcpPacket ::
  "instant \<Rightarrow> bytes \<Rightarrow> bool \<Rightarrow> u16 \<Rightarrow> FlowState \<Rightarrow>
   (PacketRewriteError, PacketDirection \<times> bytes \<times> FlowState) outcome" where
  "rewriteTcpPacket now packet isOutbound proxyPort flowTable =
     (if \<not> isOutbound then Ok (Bypass, packet, flowTable)
      else and_then (parsePacket packet isOutbound) (\<lambda>p.
        case p of
          LaterFragment key \<Rightarrow>
            (case fragmentLookupAt key now flowTable of
               (LookupBlock target, flowTable) \<Rightarrow> Ok (Blocked target, packet, flowTable)
             | (LookupAllow, flowTable) \<Rightarrow> Ok (Bypass, packet, flowTable)
             | (LookupUnknown, flowTable) \<Rightarrow> Ok (Bypass, packet, flowTable))
        | Tcp parsed \<Rightarrow>
            readPort packet (pt_tcpOffset parsed) (\<lambda>sourcePort.
            readPort packet (pt_tcpOffset parsed + 2) (\<lambda>destinationPort.
              case (if sourcePort = proxyPort
                    then reflectedTarget (pt_sourceAddress parsed) destinationPort (pt_destinationAddress parsed) flowTable
                    else None) of
                Some target \<Rightarrow> restoreReply now parsed target packet flowTable
              | None \<Rightarrow> redirectOutbound now parsed sourcePort destinationPort proxyPort packet flowTable))))"

section \<open>UDP packets\<close>

text \<open>The extension header loop of \<open>parseUdpPacket\<close>; \<open>None\<close> is the early return for a fragment.\<close>

function ipv6UdpLoop :: "bytes \<Rightarrow> nat \<Rightarrow> u8 \<Rightarrow> nat \<Rightarrow> (PacketRewriteError, nat option) outcome" where
  "ipv6UdpLoop packet ipEnd nextHeader offset =
     (if nextHeader = udpProtocol then Ok (Some offset)
      else if nextHeader = 0 \<or> nextHeader = 43 \<or> nextHeader = 60 then
        and_then (ensureExtensionBytes packet offset 2) (\<lambda>_.
          byte_at packet offset (\<lambda>next. byte_at packet (offset + 1) (\<lambda>len.
            if ipEnd < offset + (unat len + 1) * 8 then Err InvalidIpv6Extension
            else ipv6UdpLoop packet ipEnd next (offset + (unat len + 1) * 8))))
      else if nextHeader = 51 then
        and_then (ensureExtensionBytes packet offset 2) (\<lambda>_.
          byte_at packet offset (\<lambda>next. byte_at packet (offset + 1) (\<lambda>len.
            if ipEnd < offset + (unat len + 2) * 4 then Err InvalidIpv6Extension
            else ipv6UdpLoop packet ipEnd next (offset + (unat len + 2) * 4))))
      else if nextHeader = 44 then Ok None
      else Err NotUdp)"
  by pat_completeness auto
termination
  by (relation "measure (\<lambda>(packet, _, _, offset). length packet - offset)")
    (auto simp: byte_at_def)

text \<open>
  The part of \<open>parseUdpPacket\<close> per IP version: source, destination, offset of the UDP header and end
  of the IP payload, or \<open>None\<close> for a fragment.
\<close>

definition parseUdpIpv4 ::
  "bytes \<Rightarrow> (PacketRewriteError, (IpAddr \<times> IpAddr \<times> nat \<times> nat) option) outcome" where
  "parseUdpIpv4 packet =
     (if length packet < 20 then Err TruncatedIpHeader
      else byte_at packet 0 (\<lambda>b0.
        let headerLength = unat (b0 AND 0x0f) * 4
        in if headerLength < 20 \<or> length packet < headerLength then Err TruncatedIpHeader
           else byte_at packet 9 (\<lambda>protocol.
             if protocol \<noteq> udpProtocol then Err NotUdp
             else readPort packet 2 (\<lambda>total.
               if unat total < headerLength + 8 \<or> length packet < unat total then Err InvalidPacketLength
               else readPort packet 6 (\<lambda>fragment.
                 if fragment AND 0x3fff \<noteq> 0 then Ok None
                 else read_ipv4 packet 12 (\<lambda>sourceAddress. read_ipv4 packet 16 (\<lambda>destinationAddress.
                   Ok (Some (sourceAddress, destinationAddress, headerLength, unat total)))))))))"

definition parseUdpIpv6 ::
  "bytes \<Rightarrow> (PacketRewriteError, (IpAddr \<times> IpAddr \<times> nat \<times> nat) option) outcome" where
  "parseUdpIpv6 packet =
     (if length packet < 40 then Err TruncatedIpHeader
      else readPort packet 4 (\<lambda>payloadLength.
        if payloadLength = 0 then Err UnsupportedUdpJumbogram
        else (let ipEnd = 40 + unat payloadLength
              in if length packet < ipEnd then Err InvalidPacketLength
                 else byte_at packet 6 (\<lambda>nextHeader.
                   and_then (ipv6UdpLoop packet ipEnd nextHeader 40) (\<lambda>r.
                     case r of
                       None \<Rightarrow> Ok None
                     | Some offset \<Rightarrow>
                         read_ipv6 packet 8 (\<lambda>sourceAddress. read_ipv6 packet 24 (\<lambda>destinationAddress.
                           Ok (Some (sourceAddress, destinationAddress, offset, ipEnd)))))))))"

definition parseUdpPacket :: "bytes \<Rightarrow> (PacketRewriteError, ObservedUdpPacket option) outcome" where
  "parseUdpPacket packet =
     (case packet of
        [] \<Rightarrow> Err TruncatedIpHeader
      | first # _ \<Rightarrow>
          (let version = drop_bit 4 first
           in and_then (if version = 4 then parseUdpIpv4 packet
                        else if version = 6 then parseUdpIpv6 packet
                        else Err (UnsupportedIpVersion version)) (\<lambda>r.
             case r of
               None \<Rightarrow> Ok None
             | Some (sourceAddress, destinationAddress, udpOffset, ipEnd) \<Rightarrow>
                 if ipEnd < udpOffset + 8 then Err TruncatedUdpHeader
                 else readPort packet (udpOffset + 4) (\<lambda>udpLength.
                   if unat udpLength < 8 \<or> ipEnd < udpOffset + unat udpLength then Err InvalidPacketLength
                   else readPort packet udpOffset (\<lambda>sourcePort.
                     readPort packet (udpOffset + 2) (\<lambda>destinationPort.
                       Ok (Some \<lparr>ou_sourceAddress = sourceAddress, ou_destinationAddress = destinationAddress,
                             ou_sourcePort = sourcePort, ou_destinationPort = destinationPort,
                             ou_payloadOffset = udpOffset + 8,
                             ou_payloadEnd = udpOffset + unat udpLength\<rparr>)))))))"

definition parseObservedUdpPacket :: "bytes \<Rightarrow> (PacketRewriteError, ObservedUdpPacket option) outcome" where
  "parseObservedUdpPacket packet = parseUdpPacket packet"

definition udpDatagramEvent ::
  "bytes \<Rightarrow> OriginalTarget \<Rightarrow> UdpDatagramDirection \<Rightarrow> u64 \<Rightarrow>
   (PacketRewriteError, UdpDatagramEvent option) outcome" where
  "udpDatagramEvent packet target direction capturedAtMilliseconds =
     (case parseUdpPacket packet of
        Panic \<Rightarrow> Panic
      | Err _ \<Rightarrow> Ok None
      | Ok None \<Rightarrow> Ok None
      | Ok (Some parsed) \<Rightarrow>
          slice_at packet (ou_payloadOffset parsed) (ou_payloadEnd parsed) (\<lambda>payload.
            Ok (Some \<lparr>ue_processId = ot_processId target,
              ue_clientAddress = (case direction of
                  Up \<Rightarrow> SocketAddr_new (ou_sourceAddress parsed) (ou_sourcePort parsed)
                | Down \<Rightarrow> SocketAddr_new (ou_destinationAddress parsed) (ou_destinationPort parsed)),
              ue_targetAddress = ot_address target, ue_direction = direction, ue_payload = payload,
              ue_capturedAtMilliseconds = capturedAtMilliseconds, ue_modifications = []\<rparr>)))"

end
