(* ===== verification/PacketProperties.thy ===== *)
theory PacketProperties
  imports FlowProperties PacketRewrite
begin

text \<open>
  What the packet rewriter guarantees: parsing and rewriting never index outside the packet, an
  unmatched packet keeps its bytes, a redirected packet carries the proxy's addresses and ports and
  is otherwise unchanged, and the reply to it is restored to the swapped five-tuple of the original.
\<close>

section \<open>Parser bounds\<close>

lemma readPort_in [simp]:
  "offset + 2 \<le> length packet \<Longrightarrow> readPort packet offset k = k (be16 (packet ! offset) (packet ! Suc offset))"
  by (simp add: readPort_def)

lemma read_ipv4_in [simp]:
  "offset + 4 \<le> length packet \<Longrightarrow> read_ipv4 packet offset k = k (V4 (ipv4_from (subslice offset (offset + 4) packet)))"
  by (simp add: read_ipv4_def ipv4_from_def subslice_nth)

lemma read_ipv6_in [simp]:
  "offset + 16 \<le> length packet \<Longrightarrow> read_ipv6 packet offset k = k (V6 (ipv6_from (subslice offset (offset + 16) packet)))"
  by (simp add: read_ipv6_def)

lemma ensureExtensionBytes_simps:
  "ensureExtensionBytes packet offset n = (if offset + n \<le> length packet then Ok () else Err InvalidIpv6Extension)"
  by (simp add: ensureExtensionBytes_def not_less)

declare ipv6TcpLoop.simps [simp del] ipv6UdpLoop.simps [simp del]

text \<open>One round of the loop, with the bounds checks resolved.\<close>

definition ext_len :: "bytes \<Rightarrow> u8 \<Rightarrow> nat \<Rightarrow> nat" where
  "ext_len packet nh offset =
     (if nh = 51 then (unat (packet ! Suc offset) + 2) * 4 else (unat (packet ! Suc offset) + 1) * 8)"

definition ext_fragment_key :: "bytes \<Rightarrow> bool \<Rightarrow> IpAddr \<Rightarrow> IpAddr \<Rightarrow> nat \<Rightarrow> FragmentKey" where
  "ext_fragment_key packet b s d offset =
     \<lparr>fk_sourceAddress = s, fk_destinationAddress = d,
      fk_identification = (let ident = subslice (offset + 4) (offset + 8) packet
         in be32 (ident ! 0) (ident ! 1) (ident ! 2) (ident ! 3)),
      fk_protocol = packet ! offset, fk_outbound = b\<rparr>"

lemma ext_len_pos: "0 < ext_len packet nh offset"
  by (simp add: ext_len_def)

lemma tcp_loop_done: "ipv6TcpLoop packet b s d 6 offset fk = Ok (Inr (offset, fk))"
  by (subst ipv6TcpLoop.simps) simp

lemma tcp_loop_ext:
  assumes "nh \<in> {0, 43, 60, 51}"
  shows "ipv6TcpLoop packet b s d nh offset fk =
     (if offset + 2 \<le> length packet \<and> offset + ext_len packet nh offset \<le> length packet
      then ipv6TcpLoop packet b s d (packet ! offset) (offset + ext_len packet nh offset) fk
      else Err InvalidIpv6Extension)"
proof (cases "nh = 51")
  case True
  then show ?thesis
    by (cases "offset + 2 \<le> length packet")
      (simp_all add: ipv6TcpLoop.simps [of _ _ _ _ 51] ensureExtensionBytes_simps ext_len_def not_le)
next
  case False
  with assms have nh: "nh = 0 \<or> nh = 43 \<or> nh = 60" "nh \<noteq> 6" by auto
  have "ext_len packet nh offset = (unat (packet ! Suc offset) + 1) * 8" using False by (simp add: ext_len_def)
  with nh False show ?thesis
    by (cases "offset + 2 \<le> length packet")
      (simp_all add: ipv6TcpLoop.simps [of _ _ _ _ nh] ensureExtensionBytes_simps not_le)
qed

definition fragment_field :: "bytes \<Rightarrow> nat \<Rightarrow> u16" where
  "fragment_field packet offset = be16 (packet ! (offset + 2)) (packet ! (offset + 3))"

lemma tcp_loop_fragment:
  "ipv6TcpLoop packet b s d 44 offset fk =
     (if offset + 8 \<le> length packet
      then (if fragment_field packet offset AND 0xfff8 \<noteq> 0 then Ok (Inl (ext_fragment_key packet b s d offset))
            else ipv6TcpLoop packet b s d (packet ! offset) (offset + 8)
                   (if fragment_field packet offset AND 1 \<noteq> 0
                    then Some (ext_fragment_key packet b s d offset) else None))
      else Err InvalidIpv6Extension)"
  by (cases "offset + 8 \<le> length packet")
    (simp_all add: ipv6TcpLoop.simps [of _ _ _ _ 44] ensureExtensionBytes_simps Let_def
      ext_fragment_key_def fragment_field_def)

lemma tcp_loop_other:
  "nh \<notin> {6, 0, 43, 60, 51, 44} \<Longrightarrow> ipv6TcpLoop packet b s d nh offset fk = Err NotTcp"
  by (subst ipv6TcpLoop.simps) simp

lemma ipv6TcpLoop_bounds:
  assumes "offset \<le> length packet"
  shows "ipv6TcpLoop packet b s d nh offset fk \<noteq> Panic \<and>
    (\<forall>off fk'. ipv6TcpLoop packet b s d nh offset fk = Ok (Inr (off, fk')) \<longrightarrow> offset \<le> off \<and> off \<le> length packet)"
  using assms
proof (induction "length packet - offset" arbitrary: nh offset fk rule: less_induct)
  case less
  let ?n = "offset + ext_len packet nh offset"
  have ext: "ipv6TcpLoop packet b s d nh' ?n fk' \<noteq> Panic \<and>
      (\<forall>off fk''. ipv6TcpLoop packet b s d nh' ?n fk' = Ok (Inr (off, fk'')) \<longrightarrow> ?n \<le> off \<and> off \<le> length packet)"
    if "offset + 2 \<le> length packet" "?n \<le> length packet" for nh' fk'
    using less.hyps [of ?n nh' fk'] that ext_len_pos [of packet nh offset] by simp
  have frag: "ipv6TcpLoop packet b s d nh' (offset + 8) fk' \<noteq> Panic \<and>
      (\<forall>off fk''. ipv6TcpLoop packet b s d nh' (offset + 8) fk' = Ok (Inr (off, fk'')) \<longrightarrow> offset + 8 \<le> off \<and> off \<le> length packet)"
    if "offset + 8 \<le> length packet" for nh' fk'
    using less.hyps [of "offset + 8" nh' fk'] that by simp
  consider "nh = 6" | "nh \<in> {0, 43, 60, 51}" | "nh = 44" | "nh \<notin> {6, 0, 43, 60, 51, 44}" by blast
  then show ?case
  proof cases
    case 1
    with less.prems show ?thesis by (simp add: tcp_loop_done)
  next
    case 2
    show ?thesis
    proof (cases "offset + 2 \<le> length packet \<and> ?n \<le> length packet")
      case True
      with ext [of "packet ! offset" fk] show ?thesis unfolding tcp_loop_ext [OF 2] by auto
    qed (auto simp: tcp_loop_ext [OF 2])
  next
    case 3
    show ?thesis
    proof (cases "offset + 8 \<le> length packet")
      case True
      define fk2 where "fk2 = (if fragment_field packet offset AND 1 \<noteq> 0 then Some (ext_fragment_key packet b s d offset) else None)"
      from True frag [OF True, of "packet ! offset" fk2] show ?thesis
        unfolding 3 tcp_loop_fragment fk2_def [symmetric] by (auto dest: add_leD1)
    qed (simp add: 3 tcp_loop_fragment)
  next
    case 4
    then show ?thesis by (simp add: tcp_loop_other)
  qed
qed

text \<open>
  The loop reads only bytes between its start and the header it finds, so it finds the same header
  in a packet that agrees there.
\<close>

lemma ipv6TcpLoop_agree:
  assumes "ipv6TcpLoop packet b s d nh offset fk = Ok (Inr (off, fk'))" and "offset \<le> length packet"
    and "length packet' = length packet" and "\<And>n. offset \<le> n \<Longrightarrow> n < off \<Longrightarrow> packet' ! n = packet ! n"
    and "(fk = None) = (fk2 = None)"
  shows "\<exists>fk2'. ipv6TcpLoop packet' b s' d' nh offset fk2 = Ok (Inr (off, fk2')) \<and> (fk' = None) = (fk2' = None)"
  using assms
proof (induction "length packet - offset" arbitrary: nh offset fk fk2 rule: less_induct)
  case less
  have bnd: "offset' \<le> off"
    if "ipv6TcpLoop packet b s d nh' offset' fk'' = Ok (Inr (off, fk'))" "offset' \<le> length packet" for nh' offset' fk''
    using ipv6TcpLoop_bounds that by blast
  consider "nh = 6" | "nh \<in> {0, 43, 60, 51}" | "nh = 44" | "nh \<notin> {6, 0, 43, 60, 51, 44}" by blast
  then show ?case
  proof cases
    case 1
    with less.prems show ?thesis by (simp add: tcp_loop_done)
  next
    case 2
    let ?n = "offset + ext_len packet nh offset"
    from less.prems(1) have n: "offset + 2 \<le> length packet" "?n \<le> length packet"
      and rec: "ipv6TcpLoop packet b s d (packet ! offset) ?n fk = Ok (Inr (off, fk'))"
      unfolding tcp_loop_ext [OF 2] by (auto split: if_splits)
    have "offset + 2 \<le> ?n" by (simp add: ext_len_def)
    with bnd [OF rec n(2)] have eq: "packet' ! offset = packet ! offset" "packet' ! Suc offset = packet ! Suc offset"
      by (auto intro!: less.prems(4))
    then have len: "ext_len packet' nh offset = ext_len packet nh offset" by (simp add: ext_len_def)
    have "\<exists>fk2'. ipv6TcpLoop packet' b s' d' (packet ! offset) ?n fk2 = Ok (Inr (off, fk2')) \<and> (fk' = None) = (fk2' = None)"
      using less.prems n ext_len_pos [of packet nh offset] by (intro less.hyps [OF _ rec]) auto
    with n len eq less.prems(3) show ?thesis unfolding tcp_loop_ext [OF 2] by simp
  next
    case 3
    define frag where "frag = fragment_field packet offset"
    from 3 less.prems(1) have n: "offset + 8 \<le> length packet" "frag AND 0xfff8 = 0"
      and rec: "ipv6TcpLoop packet b s d (packet ! offset) (offset + 8)
        (if frag AND 1 \<noteq> 0 then Some (ext_fragment_key packet b s d offset) else None) = Ok (Inr (off, fk'))"
      by (auto simp: tcp_loop_fragment frag_def split: if_splits)
    have eq: "packet' ! (offset + i) = packet ! (offset + i)" if "i < 8" for i
      using that bnd [OF rec n(1)] by (intro less.prems(4)) auto
    have "\<exists>fk2'. ipv6TcpLoop packet' b s' d' (packet ! offset) (offset + 8)
        (if frag AND 1 \<noteq> 0 then Some (ext_fragment_key packet' b s' d' offset) else None) = Ok (Inr (off, fk2'))
        \<and> (fk' = None) = (fk2' = None)"
      using less.prems n by (intro less.hyps [OF _ rec]) auto
    moreover have "fragment_field packet' offset = frag" "packet' ! offset = packet ! offset"
      using eq [of 2] eq [of 3] eq [of 0] by (simp_all add: frag_def fragment_field_def)
    ultimately show ?thesis using n less.prems(3) unfolding 3 tcp_loop_fragment by simp
  next
    case 4
    with less.prems(1) show ?thesis by (simp add: tcp_loop_other)
  qed
qed

section \<open>Layout of a parsed packet\<close>

definition addr_width :: "ParsedTcpPacket \<Rightarrow> nat" where
  "addr_width parsed = (if is_ipv4 (pt_sourceAddress parsed) then 4 else 16)"

definition tcp_layout :: "bytes \<Rightarrow> ParsedTcpPacket \<Rightarrow> bool" where
  "tcp_layout packet parsed \<longleftrightarrow>
     pt_sourceAddressOffset parsed = (if is_ipv4 (pt_sourceAddress parsed) then 12 else 8)
     \<and> pt_destinationAddressOffset parsed = pt_sourceAddressOffset parsed + addr_width parsed
     \<and> pt_destinationAddressOffset parsed + addr_width parsed \<le> pt_tcpOffset parsed
     \<and> pt_tcpOffset parsed + 20 \<le> length packet
     \<and> is_ipv4 (pt_destinationAddress parsed) = is_ipv4 (pt_sourceAddress parsed)"

lemma parsePacket_cases:
  "parsePacket packet b = (if packet = [] then Err TruncatedIpHeader
     else if drop_bit 4 (packet ! 0) = 4 then parseIpv4TcpPacket packet b
     else if drop_bit 4 (packet ! 0) = 6 then parseIpv6TcpPacket packet b
     else Err (UnsupportedIpVersion (drop_bit 4 (packet ! 0))))"
  by (cases packet) (simp_all add: parsePacket_def Let_def)

definition ipv4_tcp :: "bytes \<Rightarrow> bool \<Rightarrow> ParsedTcpPacket" where
  "ipv4_tcp packet b = (let s = V4 (ipv4_from (subslice 12 16 packet)); d = V4 (ipv4_from (subslice 16 20 packet)) in
     \<lparr>pt_sourceAddress = s, pt_destinationAddress = d, pt_sourceAddressOffset = 12,
      pt_destinationAddressOffset = 16, pt_tcpOffset = unat (packet ! 0 AND 0x0f) * 4,
      pt_fragmentKey = (if be16 (packet ! 6) (packet ! 7) AND 0x2000 \<noteq> 0
        then Some \<lparr>fk_sourceAddress = s, fk_destinationAddress = d,
                   fk_identification = ucast (be16 (packet ! 4) (packet ! 5)), fk_protocol = packet ! 9, fk_outbound = b\<rparr>
        else None)\<rparr>)"

lemma parseIpv4_Tcp:
  "parseIpv4TcpPacket packet b = Ok (Tcp parsed) \<longleftrightarrow>
     20 \<le> unat (packet ! 0 AND 0x0f) * 4 \<and> unat (packet ! 0 AND 0x0f) * 4 + 20 \<le> length packet
     \<and> packet ! 9 = 6 \<and> be16 (packet ! 6) (packet ! 7) AND 0x1fff = 0 \<and> parsed = ipv4_tcp packet b"
proof (cases "length packet < 20")
  case False
  then have "packet \<noteq> []" by auto
  with False show ?thesis by (auto simp: parseIpv4TcpPacket_def Let_def ipv4_tcp_def)
qed (auto simp: parseIpv4TcpPacket_def)

lemma parseIpv4_no_panic: "parseIpv4TcpPacket packet b \<noteq> Panic"
proof (cases "length packet < 20")
  case False
  then have "packet \<noteq> []" by auto
  with False show ?thesis by (auto simp: parseIpv4TcpPacket_def Let_def)
qed (simp add: parseIpv4TcpPacket_def)

lemma parseIpv6_no_panic: "parseIpv6TcpPacket packet b \<noteq> Panic"
proof (cases "length packet < 40")
  case False
  let ?s = "V6 (ipv6_from (subslice 8 24 packet))" and ?d = "V6 (ipv6_from (subslice 24 40 packet))"
  have "ipv6TcpLoop packet b ?s ?d (packet ! 6) 40 None \<noteq> Panic"
    using False ipv6TcpLoop_bounds [of 40 packet] by simp
  with False show ?thesis
    by (auto simp: parseIpv6TcpPacket_def and_then_Panic_iff split: sum.splits if_splits)
qed (simp add: parseIpv6TcpPacket_def)

lemma parseIpv6_Tcp:
  "parseIpv6TcpPacket packet b = Ok (Tcp parsed) \<longleftrightarrow>
     40 \<le> length packet \<and> pt_tcpOffset parsed + 20 \<le> length packet
     \<and> pt_sourceAddressOffset parsed = 8 \<and> pt_destinationAddressOffset parsed = 24
     \<and> pt_sourceAddress parsed = V6 (ipv6_from (subslice 8 24 packet))
     \<and> pt_destinationAddress parsed = V6 (ipv6_from (subslice 24 40 packet))
     \<and> ipv6TcpLoop packet b (pt_sourceAddress parsed) (pt_destinationAddress parsed) (packet ! 6) 40 None
         = Ok (Inr (pt_tcpOffset parsed, pt_fragmentKey parsed))"
proof (cases "length packet < 40")
  case False
  let ?loop = "ipv6TcpLoop packet b (V6 (ipv6_from (subslice 8 24 packet))) (V6 (ipv6_from (subslice 24 40 packet))) (packet ! 6) 40 None"
  consider "?loop = Panic" | e where "?loop = Err e" | key where "?loop = Ok (Inl key)"
    | off fk where "?loop = Ok (Inr (off, fk))"
    by (metis outcome.exhaust sum.exhaust surj_pair)
  then show ?thesis
  proof cases
    case (4 off fk)
    with False show ?thesis by (cases parsed) (auto simp: parseIpv6TcpPacket_def)
  qed (use False in \<open>auto simp: parseIpv6TcpPacket_def\<close>)
qed (auto simp: parseIpv6TcpPacket_def)

lemma parsePacket_no_panic: "parsePacket packet b \<noteq> Panic"
  by (simp add: parsePacket_cases parseIpv4_no_panic parseIpv6_no_panic)

lemma parsePacket_layout:
  assumes "parsePacket packet b = Ok (Tcp parsed)"
  shows "tcp_layout packet parsed"
proof (cases "drop_bit 4 (packet ! 0) = 4")
  case True
  with assms have "parseIpv4TcpPacket packet b = Ok (Tcp parsed)"
    by (simp add: parsePacket_cases split: if_splits)
  then show ?thesis
    unfolding parseIpv4_Tcp by (auto simp: tcp_layout_def addr_width_def ipv4_tcp_def Let_def)
next
  case False
  with assms have *: "parseIpv6TcpPacket packet b = Ok (Tcp parsed)"
    by (auto simp: parsePacket_cases split: if_splits)
  then have "40 \<le> pt_tcpOffset parsed"
    using ipv6TcpLoop_bounds [of 40 packet] unfolding parseIpv6_Tcp by blast
  with * show ?thesis
    unfolding parseIpv6_Tcp by (auto simp: tcp_layout_def addr_width_def)
qed

section \<open>Writing the tuple\<close>

definition tuple_written ::
  "ParsedTcpPacket \<Rightarrow> IpAddr \<Rightarrow> IpAddr \<Rightarrow> u16 \<Rightarrow> u16 \<Rightarrow> bytes \<Rightarrow> bytes \<Rightarrow> bool" where
  "tuple_written parsed s d sp dp packet packet' \<longleftrightarrow>
     length packet' = length packet
     \<and> (\<forall>n < length packet. n < pt_sourceAddressOffset parsed
           \<or> (pt_destinationAddressOffset parsed + addr_width parsed \<le> n \<and> n < pt_tcpOffset parsed)
           \<or> pt_tcpOffset parsed + 4 \<le> n \<longrightarrow> packet' ! n = packet ! n)
     \<and> subslice (pt_sourceAddressOffset parsed) (pt_sourceAddressOffset parsed + addr_width parsed) packet' = ip_octets s
     \<and> subslice (pt_destinationAddressOffset parsed) (pt_destinationAddressOffset parsed + addr_width parsed) packet' = ip_octets d
     \<and> be16 (packet' ! pt_tcpOffset parsed) (packet' ! (pt_tcpOffset parsed + 1)) = sp
     \<and> be16 (packet' ! (pt_tcpOffset parsed + 2)) (packet' ! (pt_tcpOffset parsed + 3)) = dp"

lemma length_ip_octets: "length (ip_octets a) = (if is_ipv4 a then 4 else 16)"
  by (cases a) simp_all

lemma writeIpAddress_octets: "writeIpAddress packet offset a = copy_from_slice offset (ip_octets a) packet"
  by (simp add: writeIpAddress_def split: IpAddr.split)

lemma writeTuple_eval:
  assumes "pt_sourceAddressOffset parsed + length (ip_octets s) \<le> length packet"
    and "pt_destinationAddressOffset parsed + length (ip_octets d) \<le> length packet"
    and "pt_tcpOffset parsed + 20 \<le> length packet"
  shows "writeTuple parsed s d sp dp packet =
    Ok (overwrite (pt_tcpOffset parsed + 2) (be16_bytes dp) (overwrite (pt_tcpOffset parsed) (be16_bytes sp)
        (overwrite (pt_destinationAddressOffset parsed) (ip_octets d)
          (overwrite (pt_sourceAddressOffset parsed) (ip_octets s) packet))))"
  using assms by (simp add: writeTuple_def writeIpAddress_octets writePort_def copy_from_slice_def)

lemma writeTuple_written:
  assumes layout: "tcp_layout packet parsed"
    and s: "is_ipv4 s = is_ipv4 (pt_sourceAddress parsed)" and d: "is_ipv4 d = is_ipv4 (pt_sourceAddress parsed)"
  shows "\<exists>packet'. writeTuple parsed s d sp dp packet = Ok packet' \<and> tuple_written parsed s d sp dp packet packet'"
proof -
  let ?so = "pt_sourceAddressOffset parsed" and ?do = "pt_destinationAddressOffset parsed" and ?to = "pt_tcpOffset parsed"
  have len: "length (ip_octets s) = addr_width parsed" "length (ip_octets d) = addr_width parsed"
    using s d by (simp_all add: length_ip_octets addr_width_def)
  have order: "?do = ?so + addr_width parsed" "?do + addr_width parsed \<le> ?to" "?to + 20 \<le> length packet"
    using layout by (simp_all add: tcp_layout_def)
  let ?p1 = "overwrite ?so (ip_octets s) packet"
  let ?p2 = "overwrite ?do (ip_octets d) ?p1"
  let ?p3 = "overwrite ?to (be16_bytes sp) ?p2"
  let ?p4 = "overwrite (?to + 2) (be16_bytes dp) ?p3"
  have lens: "length ?p1 = length packet" "length ?p2 = length packet" "length ?p3 = length packet" "length ?p4 = length packet"
    using len order by simp_all
  have nth: "?p4 ! n = (if ?to + 2 \<le> n \<and> n < ?to + 4 then be16_bytes dp ! (n - (?to + 2))
      else if ?to \<le> n \<and> n < ?to + 2 then be16_bytes sp ! (n - ?to)
      else if ?do \<le> n \<and> n < ?do + addr_width parsed then ip_octets d ! (n - ?do)
      else if ?so \<le> n \<and> n < ?so + addr_width parsed then ip_octets s ! (n - ?so) else packet ! n)"
    if "n < length packet" for n
    using that order len lens by (simp add: nth_overwrite)
  have "subslice ?so (?so + addr_width parsed) ?p4 = ip_octets s"
    using order len lens nth by (intro nth_equalityI) (auto simp: subslice_nth)
  moreover have "subslice ?do (?do + addr_width parsed) ?p4 = ip_octets d"
    using order len lens nth by (intro nth_equalityI) (auto simp: subslice_nth)
  moreover have "be16 (?p4 ! ?to) (?p4 ! (?to + 1)) = sp" "be16 (?p4 ! (?to + 2)) (?p4 ! (?to + 3)) = dp"
    using order nth by (simp_all add: wire_simps)
  ultimately have "tuple_written parsed s d sp dp packet ?p4"
    using lens nth order unfolding tuple_written_def by auto
  then show ?thesis using order len by (simp add: writeTuple_eval)
qed

lemma tuple_written_agree:
  assumes "tuple_written parsed s d sp dp packet packet'"
  shows "length packet' = length packet"
    and "n < length packet \<Longrightarrow> n < pt_sourceAddressOffset parsed \<Longrightarrow> packet' ! n = packet ! n"
    and "pt_destinationAddressOffset parsed + addr_width parsed \<le> n \<Longrightarrow> n < pt_tcpOffset parsed \<Longrightarrow>
      pt_tcpOffset parsed \<le> length packet \<Longrightarrow> packet' ! n = packet ! n"
  using assms by (auto simp: tuple_written_def)

lemma reparse_ipv4:
  assumes parse: "parseIpv4TcpPacket packet b = Ok (Tcp parsed)" and nofrag: "pt_fragmentKey parsed = None"
    and written: "tuple_written parsed s d sp dp packet packet'" and "is_ipv4 s" "is_ipv4 d"
  shows "parseIpv4TcpPacket packet' b = Ok (Tcp (parsed\<lparr>pt_sourceAddress := s, pt_destinationAddress := d\<rparr>))"
proof -
  from \<open>is_ipv4 s\<close> \<open>is_ipv4 d\<close> obtain s4 d4 where sd: "s = V4 s4" "d = V4 d4" by (cases s; cases d) auto
  from parse have parsed: "parsed = ipv4_tcp packet b" and len: "20 \<le> unat (packet ! 0 AND 0x0f) * 4"
      "unat (packet ! 0 AND 0x0f) * 4 + 20 \<le> length packet"
    unfolding parseIpv4_Tcp by simp_all
  have offs: "pt_sourceAddressOffset parsed = 12" "pt_destinationAddressOffset parsed = 16" "addr_width parsed = 4"
    by (simp_all add: parsed ipv4_tcp_def Let_def addr_width_def)
  have eq: "packet' ! n = packet ! n" if "n < 12" for n
    using that len offs by (intro tuple_written_agree(2) [OF written]) auto
  have "subslice 12 16 packet' = ipv4_octets s4" "subslice 16 20 packet' = ipv4_octets d4"
    using written offs by (simp_all add: tuple_written_def sd)
  then have "ipv4_tcp packet' b = parsed\<lparr>pt_sourceAddress := s, pt_destinationAddress := d\<rparr>"
    using nofrag by (simp add: parsed ipv4_tcp_def Let_def eq sd split: if_splits)
  then show ?thesis
    using parse tuple_written_agree(1) [OF written] unfolding parseIpv4_Tcp by (simp add: eq)
qed

lemma reparse_ipv6:
  assumes parse: "parseIpv6TcpPacket packet b = Ok (Tcp parsed)" and nofrag: "pt_fragmentKey parsed = None"
    and written: "tuple_written parsed s d sp dp packet packet'" and "\<not> is_ipv4 s" "\<not> is_ipv4 d"
  shows "parseIpv6TcpPacket packet' b = Ok (Tcp (parsed\<lparr>pt_sourceAddress := s, pt_destinationAddress := d\<rparr>))"
proof -
  from \<open>\<not> is_ipv4 s\<close> \<open>\<not> is_ipv4 d\<close> obtain s6 d6 where sd: "s = V6 s6" "d = V6 d6" by (cases s; cases d) auto
  note p = parse [unfolded parseIpv6_Tcp]
  have len: "length packet' = length packet" using written by (rule tuple_written_agree)
  have width: "addr_width parsed = 16" using p by (simp add: addr_width_def)
  have eq: "packet' ! n = packet ! n" if "40 \<le> n" "n < pt_tcpOffset parsed" for n
    using that p width by (intro tuple_written_agree(3) [OF written]) auto
  have "\<exists>fk'. ipv6TcpLoop packet' b s d (packet ! 6) 40 None = Ok (Inr (pt_tcpOffset parsed, fk'))
      \<and> (pt_fragmentKey parsed = None) = (fk' = None)"
    using p len eq by (intro ipv6TcpLoop_agree [where packet = packet]) auto
  moreover have "packet' ! 6 = packet ! 6"
    using p by (intro tuple_written_agree(2) [OF written]) auto
  moreover have "subslice 8 24 packet' = ipv6_octets s6" "subslice 24 40 packet' = ipv6_octets d6"
    using written p width by (simp_all add: tuple_written_def sd)
  ultimately show ?thesis
    using p len nofrag unfolding parseIpv6_Tcp by (simp add: sd)
qed

lemma reparse:
  assumes parse: "parsePacket packet b = Ok (Tcp parsed)" and nofrag: "pt_fragmentKey parsed = None"
    and written: "tuple_written parsed s d sp dp packet packet'"
    and fam: "is_ipv4 s = is_ipv4 (pt_sourceAddress parsed)" "is_ipv4 d = is_ipv4 (pt_sourceAddress parsed)"
  shows "parsePacket packet' b = Ok (Tcp (parsed\<lparr>pt_sourceAddress := s, pt_destinationAddress := d\<rparr>))"
proof -
  note layout = parsePacket_layout [OF parse, unfolded tcp_layout_def]
  have "packet' ! 0 = packet ! 0"
    using layout by (intro tuple_written_agree(2) [OF written]) (auto split: if_splits)
  moreover have "packet \<noteq> []" "packet' \<noteq> []"
    using parse tuple_written_agree(1) [OF written] by (auto simp: parsePacket_cases)
  moreover have "parseIpv4TcpPacket packet' b = Ok (Tcp (parsed\<lparr>pt_sourceAddress := s, pt_destinationAddress := d\<rparr>))"
    if p: "parseIpv4TcpPacket packet b = Ok (Tcp parsed)"
  proof -
    have "is_ipv4 (pt_sourceAddress parsed)"
      using p unfolding parseIpv4_Tcp by (simp add: ipv4_tcp_def Let_def)
    with reparse_ipv4 [OF p nofrag written] fam show ?thesis by simp
  qed
  moreover have "parseIpv6TcpPacket packet' b = Ok (Tcp (parsed\<lparr>pt_sourceAddress := s, pt_destinationAddress := d\<rparr>))"
    if p: "parseIpv6TcpPacket packet b = Ok (Tcp parsed)"
  proof -
    have "\<not> is_ipv4 (pt_sourceAddress parsed)"
      using p unfolding parseIpv6_Tcp by simp
    with reparse_ipv6 [OF p nofrag written] fam show ?thesis by simp
  qed
  ultimately show ?thesis
    using parse unfolding parsePacket_cases by (simp split: if_splits)
qed

section \<open>What the rewriter needs of the flow table\<close>

text \<open>
  The contract between the rewriter and the table: a lookup that redirects a tuple names an address
  and a port under which the reply lookup finds the same redirection, and the redirection restores
  the tuple; all addresses of an entry belong to one family.
\<close>

locale reflecting_table =
  fixes redirect :: "IpAddr \<Rightarrow> u16 \<Rightarrow> IpAddr \<Rightarrow> u16 \<Rightarrow> 's \<Rightarrow> RewriteTarget option \<times> 's"
    and reply :: "IpAddr \<Rightarrow> u16 \<Rightarrow> IpAddr \<Rightarrow> 's \<Rightarrow> RewriteTarget option"
    and invar :: "'s \<Rightarrow> bool"
  assumes redirect_reply: "invar s \<Longrightarrow> redirect la lp ra rp s = (Some r, s') \<Longrightarrow>
      reply (rt_proxyAddress r) (rt_reflectedPort r) (rt_proxyAddress r) s' = Some r"
    and redirect_names: "invar s \<Longrightarrow> redirect la lp ra rp s = (Some r, s') \<Longrightarrow>
      rt_originalLocalAddress r = normalizeIpAddress la \<and> rt_originalLocalPort r = lp
      \<and> sa_ip (ot_address (rt_original r)) = normalizeIpAddress ra \<and> sa_port (ot_address (rt_original r)) = rp"
    and redirect_family: "invar s \<Longrightarrow> redirect la lp ra rp s = (Some r, s') \<Longrightarrow>
      is_ipv4 (rt_proxyAddress r) = is_ipv4 (normalizeIpAddress la)"
    and reply_family: "invar s \<Longrightarrow> reply la lp ra s = Some r \<Longrightarrow>
      is_ipv4 (rt_originalLocalAddress r) = is_ipv4 (normalizeIpAddress la)
      \<and> is_ipv4 (sa_ip (ot_address (rt_original r))) = is_ipv4 (normalizeIpAddress la)"
begin

lemma reply_swaps:
  assumes "invar s" and "redirect la lp ra rp s = (Some r, s')"
    and "normalizeIpAddress la = la" "normalizeIpAddress ra = ra"
  shows "\<exists>r'. reply (rt_proxyAddress r) (rt_reflectedPort r) (rt_proxyAddress r) s' = Some r'
    \<and> rt_original r' = rt_original r \<and> sa_ip (ot_address (rt_original r')) = ra
    \<and> sa_port (ot_address (rt_original r')) = rp
    \<and> rt_originalLocalAddress r' = la \<and> rt_originalLocalPort r' = lp"
  using redirect_reply [OF assms(1,2)] redirect_names [OF assms(1,2)] assms(3,4) by auto

end

lemma outboundTransportTarget_tracked:
  assumes "outboundTransportTarget pr la lp ra rp st = (Some r, st')"
  shows "\<exists>t. hm_get (outbound st') \<lparr>ok_localAddress = normalizeIpAddress la, ok_localPort = lp,
      ok_remoteAddress = normalizeIpAddress ra, ok_remotePort = rp, ok_protocol = pr\<rparr> = Some t \<and> tt_rewrite t = r"
  using assms
  by (auto simp: outboundTransportTarget_def Let_def hm_get_insert split: option.splits)

lemma outboundTarget_linked:
  assumes inv: "flow_inv st" and out: "outboundTarget la lp ra rp st = (Some r, st')"
  defines "k \<equiv> \<lparr>ok_localAddress = normalizeIpAddress la, ok_localPort = lp,
    ok_remoteAddress = normalizeIpAddress ra, ok_remotePort = rp, ok_protocol = tcpProtocol\<rparr>"
  shows "hm_get (reflected st') (reply_key r tcpProtocol) = Some r" and "wf_key k" and "wf_rewrite k r" and "wf_original k r"
proof -
  from out obtain t where t: "hm_get (outbound st') k = Some t" "tt_rewrite t = r"
    unfolding outboundTarget_def k_def using outboundTransportTarget_tracked by blast
  have inv': "flow_inv st'"
    using flow_inv_outboundTransportTarget [OF inv, of tcpProtocol la lp ra rp] out
    by (simp add: outboundTarget_def)
  have tcp: "ok_protocol k = tcpProtocol" by (simp add: k_def)
  from outbound_linked [OF inv' t(1)] obtain r' where
    r': "hm_get (reflected st') (reply_key r tcpProtocol) = Some r'"
      "linked (tt_endpointId t) k (reply_key r tcpProtocol) t r'" unfolding t(2) tcp .
  then have "r' = r" "wf_key k \<and> wf_rewrite k r \<and> wf_original k r"
    unfolding linked_def using t(2) tcp by simp_all
  with r' show "hm_get (reflected st') (reply_key r tcpProtocol) = Some r" "wf_key k" "wf_rewrite k r" "wf_original k r"
    by simp_all
qed

lemma reflectedTarget_linked:
  assumes inv: "flow_inv st" and r: "reflectedTarget la lp ra st = Some r"
  obtains k where "wf_key k" and "wf_rewrite k r" and "wf_original k r" and "rt_proxyAddress r = normalizeIpAddress la"
proof -
  from r have "hm_get (reflected st) \<lparr>rk_localAddress = normalizeIpAddress la, rk_localPort = lp,
      rk_remoteAddress = normalizeIpAddress ra, rk_protocol = tcpProtocol\<rparr> = Some r"
    by (simp add: reflectedTarget_def reflectedTransportTarget_def)
  then show ?thesis
    by (rule reflected_linked [OF inv]) (auto simp: linked_def reply_key_def intro: that)
qed

interpretation table: reflecting_table outboundTarget reflectedTarget flow_inv
proof
  fix st st' la lp ra rp r
  assume "flow_inv st" "outboundTarget la lp ra rp st = (Some r, st')"
  note * = outboundTarget_linked [OF this]
  from * show "reflectedTarget (rt_proxyAddress r) (rt_reflectedPort r) (rt_proxyAddress r) st' = Some r"
    unfolding reflectedTarget_def reflectedTransportTarget_def reply_key_def wf_rewrite_def by simp
  from * show "rt_originalLocalAddress r = normalizeIpAddress la \<and> rt_originalLocalPort r = lp
      \<and> sa_ip (ot_address (rt_original r)) = normalizeIpAddress ra \<and> sa_port (ot_address (rt_original r)) = rp"
    by (simp add: wf_rewrite_def wf_original_def)
  from * show "is_ipv4 (rt_proxyAddress r) = is_ipv4 (normalizeIpAddress la)"
    by (simp add: wf_rewrite_def)
next
  fix st la lp ra r
  assume "flow_inv st" "reflectedTarget la lp ra st = Some r"
  then show "is_ipv4 (rt_originalLocalAddress r) = is_ipv4 (normalizeIpAddress la)
      \<and> is_ipv4 (sa_ip (ot_address (rt_original r))) = is_ipv4 (normalizeIpAddress la)"
    by (rule reflectedTarget_linked) (auto simp: wf_key_def wf_rewrite_def wf_original_def)
qed

section \<open>Properties of the rewriter\<close>

lemma fits_layout:
  assumes "tcp_layout packet parsed" and "is_ipv4 a = is_ipv4 (normalizeIpAddress (pt_sourceAddress parsed))"
  shows "pt_sourceAddressOffset parsed + length (ip_octets a) \<le> length packet"
    and "pt_destinationAddressOffset parsed + length (ip_octets a) \<le> length packet"
  using assms by (cases "pt_sourceAddress parsed"; auto simp: tcp_layout_def addr_width_def length_ip_octets)+

lemma writeTuple_total:
  assumes "tcp_layout packet parsed"
    and "is_ipv4 s = is_ipv4 (normalizeIpAddress (pt_sourceAddress parsed))"
    and "is_ipv4 d = is_ipv4 (normalizeIpAddress (pt_sourceAddress parsed))"
  shows "\<exists>packet'. writeTuple parsed s d sp dp packet = Ok packet' \<and> length packet' = length packet"
  using assms fits_layout [OF assms(1,2)] fits_layout [OF assms(1,3)]
  by (simp add: writeTuple_eval tcp_layout_def)

definition changes_packet :: "PacketDirection \<Rightarrow> bool" where
  "changes_packet direction = (case direction of Redirected _ _ _ \<Rightarrow> True | Restored _ _ \<Rightarrow> True | _ \<Rightarrow> False)"

definition sound_result ::
  "bytes \<Rightarrow> (PacketRewriteError, PacketDirection \<times> bytes \<times> FlowState) outcome \<Rightarrow> bool" where
  "sound_result packet res \<longleftrightarrow> (case res of Panic \<Rightarrow> False | Err _ \<Rightarrow> True
     | Ok (direction, packet', _) \<Rightarrow> length packet' = length packet \<and> (changes_packet direction \<or> packet' = packet))"

lemma sound_blockFragment: "sound_result packet (blockFragment now key target packet st)"
  by (auto simp: blockFragment_def sound_result_def split: prod.split FragmentRecordResult.split)

lemma sound_restoreReply:
  assumes "flow_inv st" and "tcp_layout packet parsed"
    and "reflectedTarget (pt_sourceAddress parsed) dp (pt_destinationAddress parsed) st = Some target"
  shows "sound_result packet (restoreReply now parsed target packet st)"
proof (cases "pt_fragmentKey parsed")
  case None
  from writeTuple_total [OF assms(2)] table.reply_family [OF assms(1,3)]
  obtain packet' where "writeTuple parsed (sa_ip (ot_address (rt_original target))) (rt_originalLocalAddress target)
      (sa_port (ot_address (rt_original target))) (rt_originalLocalPort target) packet = Ok packet'"
      "length packet' = length packet" by blast
  with None show ?thesis by (simp add: restoreReply_def sound_result_def changes_packet_def)
qed (simp add: restoreReply_def sound_blockFragment)

lemma sound_redirectOutbound:
  assumes "flow_inv st" and "tcp_layout packet parsed"
  shows "sound_result packet (redirectOutbound now parsed sp dp pp packet st)"
proof -
  obtain found st' where out: "outboundTarget (pt_sourceAddress parsed) sp (pt_destinationAddress parsed) dp st = (found, st')"
    by fastforce
  show ?thesis
  proof (cases found)
    case None
    with out show ?thesis by (simp add: redirectOutbound_def sound_result_def split: option.split)
  next
    case (Some target)
    with out have out: "outboundTarget (pt_sourceAddress parsed) sp (pt_destinationAddress parsed) dp st = (Some target, st')"
      by simp
    from writeTuple_total [OF assms(2)] table.redirect_family [OF assms(1) out]
    obtain packet' where "writeTuple parsed (rt_proxyAddress target) (rt_proxyAddress target)
        (rt_reflectedPort target) pp packet = Ok packet'" "length packet' = length packet" by blast
    with out show ?thesis
      by (cases "pt_fragmentKey parsed")
        (simp_all add: redirectOutbound_def sound_blockFragment, simp add: sound_result_def changes_packet_def)
  qed
qed

text \<open>The evaluation of \<open>rewriteTcpPacket\<close> on a parsed packet with its ports read.\<close>

definition tcp_ports :: "bytes \<Rightarrow> ParsedTcpPacket \<Rightarrow> u16 \<times> u16" where
  "tcp_ports packet parsed =
     (be16 (packet ! pt_tcpOffset parsed) (packet ! (pt_tcpOffset parsed + 1)),
      be16 (packet ! (pt_tcpOffset parsed + 2)) (packet ! (pt_tcpOffset parsed + 3)))"

lemma rewriteTcpPacket_Tcp:
  assumes "parsePacket packet True = Ok (Tcp parsed)" and "tcp_ports packet parsed = (sp, dp)"
  shows "rewriteTcpPacket now packet True pp st =
     (case (if sp = pp then reflectedTarget (pt_sourceAddress parsed) dp (pt_destinationAddress parsed) st else None) of
        Some target \<Rightarrow> restoreReply now parsed target packet st
      | None \<Rightarrow> redirectOutbound now parsed sp dp pp packet st)"
  using assms parsePacket_layout [OF assms(1)]
  by (auto simp: rewriteTcpPacket_def tcp_ports_def tcp_layout_def numeral_3_eq_3 split: option.split)

lemma rewriteTcpPacket_sound:
  assumes inv: "flow_inv st"
  shows "sound_result packet (rewriteTcpPacket now packet b pp st)"
proof (cases b)
  case True
  consider e where "parsePacket packet True = Err e" | key where "parsePacket packet True = Ok (LaterFragment key)"
    | parsed where "parsePacket packet True = Ok (Tcp parsed)"
    by (metis ParsedPacket.exhaust outcome.exhaust parsePacket_no_panic)
  then show ?thesis
  proof cases
    case (3 parsed)
    obtain sp dp where ports: "tcp_ports packet parsed = (sp, dp)" by fastforce
    note layout = parsePacket_layout [OF 3]
    show ?thesis
      using True rewriteTcpPacket_Tcp [OF 3 ports, of now pp st] sound_restoreReply [OF inv layout] sound_redirectOutbound [OF inv layout]
      by (auto split: option.splits)
  qed (simp_all add: True rewriteTcpPacket_def sound_result_def split: prod.split FragmentLookup.split)
qed (simp add: rewriteTcpPacket_def sound_result_def)

text \<open>
  C11: over a reachable flow table the rewriter handles every byte sequence without an out-of-range
  access; the length of the packet never changes, and a packet that is neither redirected nor
  restored keeps every byte. Inbound packets are always left alone.
\<close>

theorem rewriteTcpPacket_safe:
  assumes "reachable_table st"
  shows "case rewriteTcpPacket now packet isOutbound proxyPort st of
      Panic \<Rightarrow> False
    | Err _ \<Rightarrow> isOutbound
    | Ok (direction, packet', _) \<Rightarrow> length packet' = length packet
        \<and> ((isOutbound \<and> ((\<exists>original proxy port. direction = Redirected original proxy port)
             \<or> (\<exists>original interface. direction = Restored original interface)))
           \<or> packet' = packet)"
proof (cases isOutbound)
  case True
  have "flow_inv st" using assms by (rule flows.reach_inv)
  from rewriteTcpPacket_sound [OF this, of packet now isOutbound proxyPort] True show ?thesis
    by (auto simp: sound_result_def changes_packet_def split: outcome.splits PacketDirection.splits)
qed (simp add: rewriteTcpPacket_def)

lemma redirected_cases:
  assumes parse: "parsePacket packet True = Ok (Tcp parsed)" and ports: "tcp_ports packet parsed = (sp, dp)"
    and res: "rewriteTcpPacket now packet True pp st = Ok (Redirected original proxy port, packet', st')"
  obtains r where "outboundTarget (pt_sourceAddress parsed) sp (pt_destinationAddress parsed) dp st = (Some r, st')"
    and "r = r\<lparr>rt_original := original, rt_proxyAddress := proxy, rt_reflectedPort := port\<rparr>"
    and "pt_fragmentKey parsed = None" and "writeTuple parsed proxy proxy port pp packet = Ok packet'"
  using res unfolding rewriteTcpPacket_Tcp [OF parse ports]
  by (auto simp: restoreReply_def redirectOutbound_def blockFragment_def and_then_Ok_iff
      split: option.splits prod.splits FragmentRecordResult.splits if_splits)

lemma redirectOutbound_decides:
  assumes inv: "flow_inv st" and parse: "parsePacket packet True = Ok (Tcp parsed)"
    and native: "normalizeIpAddress (pt_sourceAddress parsed) = pt_sourceAddress parsed"
    and out: "outboundTarget (pt_sourceAddress parsed) sp (pt_destinationAddress parsed) dp st = (Some r, st')"
    and whole: "pt_fragmentKey parsed = None"
  shows "\<exists>packet'. redirectOutbound now parsed sp dp pp packet st
        = Ok (Redirected (rt_original r) (rt_proxyAddress r) (rt_reflectedPort r), packet', st')
      \<and> parsePacket packet' True
          = Ok (Tcp (parsed\<lparr>pt_sourceAddress := rt_proxyAddress r, pt_destinationAddress := rt_proxyAddress r\<rparr>))
      \<and> tcp_ports packet' parsed = (rt_reflectedPort r, pp)
      \<and> tuple_written parsed (rt_proxyAddress r) (rt_proxyAddress r) (rt_reflectedPort r) pp packet packet'"
proof -
  have fam: "is_ipv4 (rt_proxyAddress r) = is_ipv4 (pt_sourceAddress parsed)"
    using table.redirect_family [OF inv out] native by simp
  from writeTuple_written [OF parsePacket_layout [OF parse] fam fam, of "rt_reflectedPort r" pp] obtain packet' where
    w: "writeTuple parsed (rt_proxyAddress r) (rt_proxyAddress r) (rt_reflectedPort r) pp packet = Ok packet'"
    and written: "tuple_written parsed (rt_proxyAddress r) (rt_proxyAddress r) (rt_reflectedPort r) pp packet packet'" by blast
  have "redirectOutbound now parsed sp dp pp packet st
      = Ok (Redirected (rt_original r) (rt_proxyAddress r) (rt_reflectedPort r), packet', st')"
    using out whole w by (simp add: redirectOutbound_def)
  moreover have "tcp_ports packet' parsed = (rt_reflectedPort r, pp)"
    using written by (simp add: tuple_written_def tcp_ports_def)
  ultimately show ?thesis using written reparse [OF parse whole written fam fam] by blast
qed

text \<open>
  C12: the decision on an outbound packet. Take a TCP packet whose source address is not IPv4-mapped
  and that is not a reply of the proxy. The flow table decides: when it has no flow for the tuple of
  the packet, the packet passes unchanged. When it has one, a first fragment is blocked, and a whole
  packet is redirected: the result names the target of the flow, which is the destination of the
  packet, and the proxy address and the reflected port of the flow; the new packet parses as TCP at
  the same offsets with that proxy address on both sides, that port as source and the proxy port as
  destination, all bytes outside the address and port fields are those of the original, and the
  reply lookup at the new tuple finds the flow again.
\<close>

theorem rewriteTcpPacket_redirect:
  assumes reach: "reachable_table st"
    and parse: "parsePacket packet True = Ok (Tcp parsed)" and ports: "tcp_ports packet parsed = (sp, dp)"
    and native: "normalizeIpAddress (pt_sourceAddress parsed) = pt_sourceAddress parsed"
    and outgoing: "sp \<noteq> proxyPort \<or> reflectedTarget (pt_sourceAddress parsed) dp (pt_destinationAddress parsed) st = None"
  shows "case outboundTarget (pt_sourceAddress parsed) sp (pt_destinationAddress parsed) dp st of
      (None, st') \<Rightarrow> \<exists>st''. rewriteTcpPacket now packet True proxyPort st = Ok (Bypass, packet, st'')
        \<and> (pt_fragmentKey parsed = None \<longrightarrow> st'' = st')
    | (Some r, st') \<Rightarrow>
        sa_ip (ot_address (rt_original r)) = normalizeIpAddress (pt_destinationAddress parsed)
        \<and> sa_port (ot_address (rt_original r)) = dp
        \<and> reflectedTarget (rt_proxyAddress r) (rt_reflectedPort r) (rt_proxyAddress r) st' = Some r
        \<and> (if pt_fragmentKey parsed \<noteq> None
           then \<exists>st''. rewriteTcpPacket now packet True proxyPort st = Ok (Blocked (rt_original r), packet, st'')
           else \<exists>packet'. rewriteTcpPacket now packet True proxyPort st
                  = Ok (Redirected (rt_original r) (rt_proxyAddress r) (rt_reflectedPort r), packet', st')
                \<and> parsePacket packet' True
                    = Ok (Tcp (parsed\<lparr>pt_sourceAddress := rt_proxyAddress r, pt_destinationAddress := rt_proxyAddress r\<rparr>))
                \<and> tcp_ports packet' parsed = (rt_reflectedPort r, proxyPort)
                \<and> tuple_written parsed (rt_proxyAddress r) (rt_proxyAddress r) (rt_reflectedPort r) proxyPort packet packet')"
proof -
  have inv: "flow_inv st" using reach by (rule flows.reach_inv)
  have run: "rewriteTcpPacket now packet True proxyPort st = redirectOutbound now parsed sp dp proxyPort packet st"
    unfolding rewriteTcpPacket_Tcp [OF parse ports] using outgoing by auto
  obtain found st' where out: "outboundTarget (pt_sourceAddress parsed) sp (pt_destinationAddress parsed) dp st = (found, st')"
    by fastforce
  show ?thesis
  proof (cases found)
    case None
    then show ?thesis unfolding run using out by (simp add: redirectOutbound_def split: option.split)
  next
    case (Some r)
    note hit = out [unfolded Some]
    have "\<exists>st''. redirectOutbound now parsed sp dp proxyPort packet st = Ok (Blocked (rt_original r), packet, st'')"
      if "pt_fragmentKey parsed \<noteq> None"
      using that hit by (auto simp: redirectOutbound_def blockFragment_def split: prod.split FragmentRecordResult.split)
    moreover note redirectOutbound_decides [OF inv parse native hit, of now proxyPort]
    ultimately show ?thesis
      unfolding run hit using table.redirect_names [OF inv hit] table.redirect_reply [OF inv hit] by simp
  qed
qed

text \<open>
  C13: the round trip. After a packet was redirected, any unfragmented packet that the proxy sends
  from its port to the reflected port is restored: it names the original target, and it parses with
  the addresses and ports of the original packet exchanged, so the selected process sees a reply
  from the peer it addressed.
\<close>

theorem rewriteTcpPacket_roundtrip:
  assumes reach: "reachable_table st"
    and parse: "parsePacket packet True = Ok (Tcp parsed)"
    and native: "normalizeIpAddress (pt_sourceAddress parsed) = pt_sourceAddress parsed"
      "normalizeIpAddress (pt_destinationAddress parsed) = pt_destinationAddress parsed"
    and res: "rewriteTcpPacket now packet True proxyPort st = Ok (Redirected original proxy port, packet', st')"
    and reply: "parsePacket answer True = Ok (Tcp back)" "pt_fragmentKey back = None"
      "pt_sourceAddress back = proxy" "pt_destinationAddress back = proxy" "tcp_ports answer back = (proxyPort, port)"
  shows "\<exists>answer' interface. rewriteTcpPacket later answer True proxyPort st' = Ok (Restored original interface, answer', st')
    \<and> parsePacket answer' True = Ok (Tcp (back\<lparr>pt_sourceAddress := pt_destinationAddress parsed,
                                                  pt_destinationAddress := pt_sourceAddress parsed\<rparr>))
    \<and> tcp_ports answer' back = prod.swap (tcp_ports packet parsed)"
proof -
  have inv: "flow_inv st" using reach by (rule flows.reach_inv)
  obtain sp dp where ports: "tcp_ports packet parsed = (sp, dp)" by fastforce
  from parse this res obtain r where
    r: "outboundTarget (pt_sourceAddress parsed) sp (pt_destinationAddress parsed) dp st = (Some r, st')"
      "r = r\<lparr>rt_original := original, rt_proxyAddress := proxy, rt_reflectedPort := port\<rparr>"
    by (rule redirected_cases)
  have r_fields: "rt_original r = original" "rt_proxyAddress r = proxy" "rt_reflectedPort r = port"
    using arg_cong [OF r(2), of rt_original] arg_cong [OF r(2), of rt_proxyAddress]
      arg_cong [OF r(2), of rt_reflectedPort] by simp_all
  from table.reply_swaps [OF inv r(1) native] obtain r' where
    r': "reflectedTarget proxy port proxy st' = Some r'" "rt_original r' = original"
      "sa_ip (ot_address original) = pt_destinationAddress parsed" "sa_port (ot_address original) = dp"
      "rt_originalLocalAddress r' = pt_sourceAddress parsed" "rt_originalLocalPort r' = sp"
    unfolding r_fields by force
  have layout: "is_ipv4 (pt_destinationAddress parsed) = is_ipv4 (pt_sourceAddress parsed)"
    using parsePacket_layout [OF parse] by (simp add: tcp_layout_def)
  have fam: "is_ipv4 (pt_destinationAddress parsed) = is_ipv4 (pt_sourceAddress back)"
      "is_ipv4 (pt_sourceAddress parsed) = is_ipv4 (pt_sourceAddress back)"
    using table.redirect_family [OF inv r(1)] native layout r_fields reply(3) by simp_all
  from writeTuple_written [OF parsePacket_layout [OF reply(1)] fam, of dp sp] obtain answer' where
    w: "writeTuple back (pt_destinationAddress parsed) (pt_sourceAddress parsed) dp sp answer = Ok answer'"
      "tuple_written back (pt_destinationAddress parsed) (pt_sourceAddress parsed) dp sp answer answer'" by blast
  have "rewriteTcpPacket later answer True proxyPort st' = Ok (Restored original (rt_originalInterface r'), answer', st')"
    unfolding rewriteTcpPacket_Tcp [OF reply(1,5)] reply(3,4) using r' w(1) by (simp add: restoreReply_def reply(2))
  moreover have "tcp_ports answer' back = prod.swap (tcp_ports packet parsed)"
    unfolding ports using w(2) by (simp add: tuple_written_def tcp_ports_def)
  ultimately show ?thesis using reparse [OF reply(1,2) w(2) fam] by blast
qed

definition sample_packet :: "bytes \<Rightarrow> bytes \<Rightarrow> u16 \<Rightarrow> u16 \<Rightarrow> bytes" where
  "sample_packet s d sp dp = [0x45, 0, 0, 40, 0, 0, 0, 0, 64, 6, 0, 0] @ s @ d @ be16_bytes sp @ be16_bytes dp
     @ [0, 0, 0, 0, 0, 0, 0, 0, 0x50, 2, 0, 0, 0, 0, 0, 0]"

definition sample_parsed :: "Ipv4Addr \<Rightarrow> Ipv4Addr \<Rightarrow> ParsedTcpPacket" where
  "sample_parsed s d = \<lparr>pt_sourceAddress = V4 s, pt_destinationAddress = V4 d, pt_sourceAddressOffset = 12,
     pt_destinationAddressOffset = 16, pt_tcpOffset = 20, pt_fragmentKey = None\<rparr>"

lemma sample_parse:
  "parsePacket (sample_packet [192, 0, 2, 10] [198, 51, 100, 20] 52000 443) True
     = Ok (Tcp (sample_parsed (Ipv4Addr 192 0 2 10) (Ipv4Addr 198 51 100 20)))"
  "parsePacket (sample_packet [127, 0, 0, 1] [127, 0, 0, 1] 1080 49152) True
     = Ok (Tcp (sample_parsed (Ipv4Addr 127 0 0 1) (Ipv4Addr 127 0 0 1)))"
  "tcp_ports (sample_packet [192, 0, 2, 10] [198, 51, 100, 20] 52000 443)
     (sample_parsed (Ipv4Addr 192 0 2 10) (Ipv4Addr 198 51 100 20)) = (52000, 443)"
  "tcp_ports (sample_packet [127, 0, 0, 1] [127, 0, 0, 1] 1080 49152)
     (sample_parsed (Ipv4Addr 127 0 0 1) (Ipv4Addr 127 0 0 1)) = (1080, 49152)"
  by code_simp+

lemma sample_outboundTarget:
  "outboundTarget (V4 (Ipv4Addr 192 0 2 10)) 52000 (V4 (Ipv4Addr 198 51 100 20)) 443 sample_table
     = (Some (tt_rewrite sample_tracked), sample_table)"
proof -
  have "flow_key sample_flow = \<lparr>ok_localAddress = V4 (Ipv4Addr 192 0 2 10), ok_localPort = 52000,
      ok_remoteAddress = V4 (Ipv4Addr 198 51 100 20), ok_remotePort = 443, ok_protocol = tcpProtocol\<rparr>"
    by (simp add: flow_key_def sample_flow_def)
  with sample_table_outbound show ?thesis
    by (simp add: outboundTarget_def outboundTransportTarget_def)
qed

lemma sample_redirect:
  "rewriteTcpPacket 0 (sample_packet [192, 0, 2, 10] [198, 51, 100, 20] 52000 443) True 1080 sample_table
     = Ok (Redirected (flow_target sample_flow) (V4 (Ipv4Addr 127 0 0 1)) 49152,
           sample_packet [127, 0, 0, 1] [127, 0, 0, 1] 49152 1080, sample_table)"
proof -
  have "writeTuple (sample_parsed (Ipv4Addr 192 0 2 10) (Ipv4Addr 198 51 100 20)) (V4 (Ipv4Addr 127 0 0 1))
      (V4 (Ipv4Addr 127 0 0 1)) 49152 1080 (sample_packet [192, 0, 2, 10] [198, 51, 100, 20] 52000 443)
    = Ok (sample_packet [127, 0, 0, 1] [127, 0, 0, 1] 49152 1080)" by code_simp
  then show ?thesis
    unfolding rewriteTcpPacket_Tcp [OF sample_parse(1,3)]
    by (simp add: redirectOutbound_def sample_parsed_def sample_outboundTarget)
      (simp add: sample_tracked_def flow_target_def sample_flow_def SocketAddr_new_def)
qed

theorem rewriteTcpPacket_safe_witness:
  "rewriteTcpPacket 0 [0x45, 1, 2] True 1080 sample_table \<noteq> Panic
    \<and> (case rewriteTcpPacket 0 (sample_packet [192, 0, 2, 10] [198, 51, 100, 20] 52000 443) True 1080 sample_table of
         Ok (direction, packet', _) \<Rightarrow> direction \<noteq> Bypass \<and> length packet' = length (sample_packet [192, 0, 2, 10] [198, 51, 100, 20] 52000 443)
       | _ \<Rightarrow> False)"
proof
  show "rewriteTcpPacket 0 [0x45, 1, 2] True 1080 sample_table \<noteq> Panic"
    using rewriteTcpPacket_safe [OF reachable_sample_table, where now = 0 and packet = "[0x45, 1, 2]" and isOutbound = True and proxyPort = 1080] by auto
  show "case rewriteTcpPacket 0 (sample_packet [192, 0, 2, 10] [198, 51, 100, 20] 52000 443) True 1080 sample_table of
      Ok (direction, packet', _) \<Rightarrow> direction \<noteq> Bypass \<and> length packet' = length (sample_packet [192, 0, 2, 10] [198, 51, 100, 20] 52000 443)
    | _ \<Rightarrow> False"
    using rewriteTcpPacket_safe [OF reachable_sample_table, where now = 0 and isOutbound = True and proxyPort = 1080
      and packet = "sample_packet [192, 0, 2, 10] [198, 51, 100, 20] 52000 443"]
    unfolding sample_redirect by simp
qed

theorem rewriteTcpPacket_redirect_witness:
  "\<exists>packet'. rewriteTcpPacket 0 (sample_packet [192, 0, 2, 10] [198, 51, 100, 20] 52000 443) True 1080 sample_table
      = Ok (Redirected (flow_target sample_flow) (V4 (Ipv4Addr 127 0 0 1)) 49152, packet', sample_table)
    \<and> tcp_ports packet' (sample_parsed (Ipv4Addr 192 0 2 10) (Ipv4Addr 198 51 100 20)) = (49152, 1080)"
proof -
  have "rt_original (tt_rewrite sample_tracked) = flow_target sample_flow"
    "rt_proxyAddress (tt_rewrite sample_tracked) = V4 (Ipv4Addr 127 0 0 1)" "rt_reflectedPort (tt_rewrite sample_tracked) = 49152"
    by (simp_all add: sample_tracked_def flow_target_def sample_flow_def SocketAddr_new_def)
  with rewriteTcpPacket_redirect [OF reachable_sample_table sample_parse(1,3), of 1080 0] show ?thesis
    by (auto simp: sample_parsed_def sample_outboundTarget)
qed

theorem rewriteTcpPacket_roundtrip_witness:
  "\<exists>answer' interface. rewriteTcpPacket 9 (sample_packet [127, 0, 0, 1] [127, 0, 0, 1] 1080 49152) True 1080 sample_table
     = Ok (Restored (flow_target sample_flow) interface, answer', sample_table)"
  using rewriteTcpPacket_roundtrip [OF reachable_sample_table sample_parse(1) _ _ sample_redirect sample_parse(2) _ _ _ sample_parse(4), of 9]
  by (auto simp: sample_parsed_def)

section \<open>UDP packets\<close>

lemma ipv6UdpLoop_bounds:
  assumes "offset \<le> length packet" and "ipEnd \<le> length packet"
  shows "ipv6UdpLoop packet ipEnd nh offset \<noteq> Panic"
  using assms
proof (induction packet ipEnd nh offset rule: ipv6UdpLoop.induct)
  case (1 packet ipEnd nh offset)
  consider "nh = udpProtocol" | "nh \<noteq> udpProtocol" "nh = 0 \<or> nh = 43 \<or> nh = 60" | "nh \<noteq> udpProtocol" "nh = 51"
    | "nh \<notin> {udpProtocol, 0, 43, 60, 51}" by blast
  then show ?case
  proof cases
    case 2
    with 1 show ?thesis
      by (cases "offset + 2 \<le> length packet") (simp_all add: ipv6UdpLoop.simps [of _ _ nh] ensureExtensionBytes_simps)
  next
    case 3
    with 1 show ?thesis
      by (cases "offset + 2 \<le> length packet") (simp_all add: ipv6UdpLoop.simps [of _ _ 51] ensureExtensionBytes_simps)
  next
    case 1
    then show ?thesis by (simp add: ipv6UdpLoop.simps [of _ _ udpProtocol])
  next
    case 4
    then show ?thesis by (simp add: ipv6UdpLoop.simps [of _ _ nh])
  qed
qed

lemma parseUdpIpv4_bounds:
  "parseUdpIpv4 packet \<noteq> Panic \<and> (\<forall>s d off ipEnd. parseUdpIpv4 packet = Ok (Some (s, d, off, ipEnd)) \<longrightarrow> ipEnd \<le> length packet)"
proof (cases "length packet < 20")
  case False
  then have "packet \<noteq> []" by auto
  with False show ?thesis by (auto simp: parseUdpIpv4_def Let_def)
qed (simp add: parseUdpIpv4_def)

lemma parseUdpIpv6_bounds:
  "parseUdpIpv6 packet \<noteq> Panic \<and> (\<forall>s d off ipEnd. parseUdpIpv6 packet = Ok (Some (s, d, off, ipEnd)) \<longrightarrow> ipEnd \<le> length packet)"
proof (cases "length packet < 40")
  case False
  then show ?thesis
    using ipv6UdpLoop_bounds [of 40 packet]
    by (auto simp: parseUdpIpv6_def Let_def and_then_Ok_iff and_then_Panic_iff not_less split: option.splits)
qed (simp add: parseUdpIpv6_def)

definition udp_ip_layer :: "bytes \<Rightarrow> (PacketRewriteError, (IpAddr \<times> IpAddr \<times> nat \<times> nat) option) outcome" where
  "udp_ip_layer packet = (if packet = [] then Err TruncatedIpHeader
     else if drop_bit 4 (packet ! 0) = 4 then parseUdpIpv4 packet
     else if drop_bit 4 (packet ! 0) = 6 then parseUdpIpv6 packet
     else Err (UnsupportedIpVersion (drop_bit 4 (packet ! 0))))"

lemma udp_ip_layer_bounds:
  "udp_ip_layer packet \<noteq> Panic"
  "udp_ip_layer packet = Ok (Some (s, d, off, ipEnd)) \<Longrightarrow> ipEnd \<le> length packet"
  using parseUdpIpv4_bounds [of packet] parseUdpIpv6_bounds [of packet]
  by (auto simp: udp_ip_layer_def split: if_splits)

lemma parseUdpPacket_layer:
  "parseUdpPacket packet = and_then (udp_ip_layer packet) (\<lambda>r. case r of None \<Rightarrow> Ok None
     | Some (s, d, off, ipEnd) \<Rightarrow>
         if ipEnd < off + 8 then Err TruncatedUdpHeader
         else readPort packet (off + 4) (\<lambda>udpLength.
           if unat udpLength < 8 \<or> ipEnd < off + unat udpLength then Err InvalidPacketLength
           else readPort packet off (\<lambda>sp. readPort packet (off + 2) (\<lambda>dp.
             Ok (Some \<lparr>ou_sourceAddress = s, ou_destinationAddress = d, ou_sourcePort = sp,
               ou_destinationPort = dp, ou_payloadOffset = off + 8, ou_payloadEnd = off + unat udpLength\<rparr>)))))"
proof (cases packet)
  case (Cons a list)
  show ?thesis unfolding Cons by (simp add: parseUdpPacket_def udp_ip_layer_def Let_def)
qed (simp add: parseUdpPacket_def udp_ip_layer_def)

lemma parseUdpPacket_bounds:
  "parseUdpPacket packet \<noteq> Panic"
  "parseUdpPacket packet = Ok (Some parsed) \<Longrightarrow>
     8 \<le> ou_payloadOffset parsed \<and> ou_payloadOffset parsed \<le> ou_payloadEnd parsed \<and> ou_payloadEnd parsed \<le> length packet"
proof -
  consider e where "udp_ip_layer packet = Err e" | "udp_ip_layer packet = Ok None"
    | s d off ipEnd where "udp_ip_layer packet = Ok (Some (s, d, off, ipEnd))"
    by (metis option.exhaust outcome.exhaust prod_cases4 udp_ip_layer_bounds(1))
  then have "parseUdpPacket packet \<noteq> Panic \<and> (parseUdpPacket packet = Ok (Some parsed) \<longrightarrow>
     8 \<le> ou_payloadOffset parsed \<and> ou_payloadOffset parsed \<le> ou_payloadEnd parsed \<and> ou_payloadEnd parsed \<le> length packet)"
  proof cases
    case (3 s d off ipEnd)
    with udp_ip_layer_bounds(2) [OF 3] show ?thesis
      by (cases "ipEnd < off + 8") (auto simp: parseUdpPacket_layer)
  qed (simp_all add: parseUdpPacket_layer)
  then show "parseUdpPacket packet \<noteq> Panic"
    "parseUdpPacket packet = Ok (Some parsed) \<Longrightarrow>
       8 \<le> ou_payloadOffset parsed \<and> ou_payloadOffset parsed \<le> ou_payloadEnd parsed \<and> ou_payloadEnd parsed \<le> length packet"
    by blast+
qed

text \<open>
  The UDP parser never reads outside the packet, and what it reports lies inside it: the
  payload starts eight bytes after the UDP header, its end is within the packet, so the event built
  from it copies exactly the payload and never fails on the slice.
\<close>

theorem parseUdpPacket_payload_bounds:
  "parseUdpPacket packet \<noteq> Panic
   \<and> (case parseUdpPacket packet of
        Ok (Some parsed) \<Rightarrow> 8 \<le> ou_payloadOffset parsed \<and> ou_payloadOffset parsed \<le> ou_payloadEnd parsed
          \<and> ou_payloadEnd parsed \<le> length packet
          \<and> (\<exists>event. udpDatagramEvent packet target direction time = Ok (Some event)
               \<and> ue_payload event = subslice (ou_payloadOffset parsed) (ou_payloadEnd parsed) packet
               \<and> ue_targetAddress event = ot_address target)
      | _ \<Rightarrow> udpDatagramEvent packet target direction time = Ok None)"
proof (cases "parseUdpPacket packet")
  case (Ok r)
  with parseUdpPacket_bounds(2) [of packet] show ?thesis
    by (cases r) (auto simp: udpDatagramEvent_def)
qed (simp_all add: parseUdpPacket_bounds(1) udpDatagramEvent_def)

end
