(* ===== verification/UdpFragment.thy ===== *)
theory UdpFragment
  imports PacketRewrite
begin

text \<open>
  The bounded reassembly of fragmented UDP datagrams of \<open>ProcessCapture/src/udpFragment.rs\<close>. The
  assembler is generic in the observation kept with each fragment (the captured packet). Its
  methods return the result and the new assembler, because an error leaves the assembler behind
  for the caller to drain. The error strings of the source are the constructors of
  \<open>FragmentError\<close>; diagnostics printed to standard error are not modelled. The sizes are natural
  numbers, so the subtractions of the accounting are proved not to cut off at zero.
\<close>

section \<open>Data\<close>

definition ipv4FragmentLifetime :: nat where "ipv4FragmentLifetime = 60000000000"
definition ipv6FragmentLifetime :: nat where "ipv6FragmentLifetime = 60000000000"
definition maximumFragmentGroups :: nat where "maximumFragmentGroups = 1024"
definition maximumBufferedFragmentBytes :: nat where "maximumBufferedFragmentBytes = 64 * 1024 * 1024"
definition maximumBufferedFragmentObservations :: nat where "maximumBufferedFragmentObservations = 8192"
definition maximumBufferedObservationBytes :: nat where "maximumBufferedObservationBytes = 64 * 1024 * 1024"

datatype FragmentError =
    ShortIpHeader | UnknownIpVersion u8 | ShortIpv4Header | Ipv4LengthOutOfRange | Ipv4NotUdp
  | ShortIpv6Header | Ipv6Jumbogram | Ipv6LengthOutOfRange | Ipv6ChainNotUdp | Ipv6ExtensionOutOfRange
  | PostFragmentChainNotUdp | PostFragmentExtensionOutOfRange
  | UnalignedFragment | ShortFirstFragment
  | FragmentGroupLimit | FragmentBytesLimit | ObservationLimit
  | ConflictingOverlap | ConflictingFinalLength | DispositionOnLaterFragment
  | FragmentTimeout | IncompleteAtStop nat
  | MissingUdpOffset | ShortReassembledUdp | UdpLengthOutOfRange

record UdpFragmentKey =
  ufk_sourceAddress :: IpAddr
  ufk_destinationAddress :: IpAddr
  ufk_identification :: u32
  ufk_outbound :: bool

record UdpFragmentPart =
  fp_key :: UdpFragmentKey
  fp_payloadOffset :: nat
  fp_moreFragments :: bool
  fp_fragmentPayload :: bytes
  fp_packetBytes :: nat
  fp_sourcePort :: "u16 option"
  fp_destinationPort :: "u16 option"
  fp_udpHeaderOffset :: "nat option"
  fp_packetPayloadOffset :: nat

datatype UdpPacketFragment = Whole | Fragment UdpFragmentPart

datatype UdpFragmentDisposition =
    Selected OriginalTarget UdpDatagramDirection SocketAddr u64
  | Ignored

record 'o FragmentGroup =
  fg_pieces :: "(nat \<times> bytes) list"
  fg_finalLength :: "nat option"
  fg_disposition :: "UdpFragmentDisposition option"
  fg_udpHeaderOffset :: "nat option"
  fg_packetCount :: u64
  fg_packetBytes :: u64
  fg_expiresAt :: instant
  fg_observations :: "'o list"
  fg_observationBytes :: nat

record 'o ReassembledUdpDatagram =
  rd_event :: "UdpDatagramEvent option"
  rd_packetCount :: u64
  rd_packetBytes :: u64
  rd_observations :: "'o list"

record 'o UdpFragmentAssembler =
  as_groups :: "(UdpFragmentKey, 'o FragmentGroup) hashmap"
  as_faultObservations :: "'o list"
  as_bufferedBytes :: nat
  as_bufferedObservations :: nat
  as_bufferedObservationBytes :: nat
  as_fragmentLifetimeOverride :: "nat option"

definition UdpFragmentAssembler_default :: "'o UdpFragmentAssembler" where
  "UdpFragmentAssembler_default =
     \<lparr>as_groups = [], as_faultObservations = [], as_bufferedBytes = 0, as_bufferedObservations = 0,
      as_bufferedObservationBytes = 0, as_fragmentLifetimeOverride = None\<rparr>"

definition withFragmentLifetime :: "nat \<Rightarrow> unit UdpFragmentAssembler" where
  "withFragmentLifetime lifetime =
     UdpFragmentAssembler_default\<lparr>as_fragmentLifetimeOverride := Some lifetime\<rparr>"

section \<open>Inspecting packets\<close>

definition ensureBytes :: "nat \<Rightarrow> nat \<Rightarrow> nat \<Rightarrow> (FragmentError, unit) outcome" where
  "ensureBytes packetEnd offset len =
     (if offset + len \<le> packetEnd then Ok () else Err Ipv6ExtensionOutOfRange)"

definition read_be16 :: "bytes \<Rightarrow> nat \<Rightarrow> (u16 \<Rightarrow> ('e, 'a) outcome) \<Rightarrow> ('e, 'a) outcome" where
  "read_be16 packet offset k = byte_at packet offset (\<lambda>h. byte_at packet (offset + 1) (\<lambda>l. k (be16 h l)))"

definition fragmentPart ::
  "UdpFragmentKey \<Rightarrow> nat \<Rightarrow> bool \<Rightarrow> bytes \<Rightarrow> nat \<Rightarrow> nat option \<Rightarrow> nat \<Rightarrow> (FragmentError, UdpPacketFragment) outcome" where
  "fragmentPart key payloadOffset moreFragments fragmentPayload packetBytes udpHeaderOffset packetPayloadOffset =
     (let build = (\<lambda>sourcePort destinationPort. Ok (Fragment
            \<lparr>fp_key = key, fp_payloadOffset = payloadOffset, fp_moreFragments = moreFragments,
             fp_fragmentPayload = fragmentPayload, fp_packetBytes = packetBytes, fp_sourcePort = sourcePort,
             fp_destinationPort = destinationPort, fp_udpHeaderOffset = udpHeaderOffset,
             fp_packetPayloadOffset = packetPayloadOffset\<rparr>))
      in if moreFragments \<and> length fragmentPayload mod 8 \<noteq> 0 then Err UnalignedFragment
         else (case udpHeaderOffset of
                 None \<Rightarrow> build None None
               | Some udpOffset \<Rightarrow>
                   if length fragmentPayload < udpOffset + 8 then Err ShortFirstFragment
                   else read_be16 fragmentPayload udpOffset (\<lambda>sourcePort.
                     read_be16 fragmentPayload (udpOffset + 2) (\<lambda>destinationPort.
                       build (Some sourcePort) (Some destinationPort)))))"

definition inspectIpv4Fragment :: "bytes \<Rightarrow> bool \<Rightarrow> (FragmentError, UdpPacketFragment) outcome" where
  "inspectIpv4Fragment packet isOutbound =
     (if length packet < 20 then Err ShortIpv4Header
      else byte_at packet 0 (\<lambda>b0. read_be16 packet 2 (\<lambda>total.
        let headerLength = unat (b0 AND 0x0f) * 4;
            totalLength = unat total
        in if headerLength < 20 \<or> totalLength < headerLength \<or> length packet < totalLength
           then Err Ipv4LengthOutOfRange
           else byte_at packet 9 (\<lambda>protocol.
             if protocol \<noteq> 17 then Err Ipv4NotUdp
             else read_be16 packet 6 (\<lambda>fragment.
               let offset = unat (fragment AND 0x1fff) * 8;
                   moreFragments = (fragment AND 0x2000 \<noteq> 0)
               in if offset = 0 \<and> \<not> moreFragments then Ok Whole
                  else slice_at packet 12 16 (\<lambda>source. slice_at packet 16 20 (\<lambda>destination.
                    read_be16 packet 4 (\<lambda>identification.
                    slice_at packet headerLength totalLength (\<lambda>fragmentPayload.
                      fragmentPart
                        \<lparr>ufk_sourceAddress = V4 (ipv4_from source), ufk_destinationAddress = V4 (ipv4_from destination),
                         ufk_identification = ucast identification, ufk_outbound = isOutbound\<rparr>
                        offset moreFragments fragmentPayload (length packet)
                        (if offset = 0 then Some 0 else None) headerLength)))))))))"

function locateLoop :: "bytes \<Rightarrow> u8 \<Rightarrow> nat \<Rightarrow> (FragmentError, nat) outcome" where
  "locateLoop payload nextHeader offset =
     (if nextHeader = 17 then Ok offset
      else if nextHeader = 0 \<or> nextHeader = 43 \<or> nextHeader = 60 then
        and_then (ensureBytes (length payload) offset 2) (\<lambda>_.
          byte_at payload offset (\<lambda>next. byte_at payload (offset + 1) (\<lambda>len.
            if length payload < offset + (unat len + 1) * 8 then Err PostFragmentExtensionOutOfRange
            else locateLoop payload next (offset + (unat len + 1) * 8))))
      else if nextHeader = 51 then
        and_then (ensureBytes (length payload) offset 2) (\<lambda>_.
          byte_at payload offset (\<lambda>next. byte_at payload (offset + 1) (\<lambda>len.
            if length payload < offset + (unat len + 2) * 4 then Err PostFragmentExtensionOutOfRange
            else locateLoop payload next (offset + (unat len + 2) * 4))))
      else Err PostFragmentChainNotUdp)"
  by pat_completeness auto
termination
  by (relation "measure (\<lambda>(payload, _, offset). length payload - offset)") (auto simp: byte_at_def)

definition locatePostFragmentUdpHeader :: "bytes \<Rightarrow> u8 \<Rightarrow> (FragmentError, nat) outcome" where
  "locatePostFragmentUdpHeader payload nextHeader = locateLoop payload nextHeader 0"

function inspectIpv6Loop ::
  "bytes \<Rightarrow> bool \<Rightarrow> nat \<Rightarrow> IpAddr \<Rightarrow> IpAddr \<Rightarrow> u8 \<Rightarrow> nat \<Rightarrow> (FragmentError, UdpPacketFragment) outcome" where
  "inspectIpv6Loop packet isOutbound packetEnd sourceAddress destinationAddress nextHeader offset =
     (if nextHeader = 17 then Ok Whole
      else if nextHeader = 0 \<or> nextHeader = 43 \<or> nextHeader = 60 then
        and_then (ensureBytes packetEnd offset 2) (\<lambda>_.
          byte_at packet offset (\<lambda>next. byte_at packet (offset + 1) (\<lambda>len.
            if packetEnd < offset + (unat len + 1) * 8 then Err Ipv6ExtensionOutOfRange
            else inspectIpv6Loop packet isOutbound packetEnd sourceAddress destinationAddress next
                   (offset + (unat len + 1) * 8))))
      else if nextHeader = 51 then
        and_then (ensureBytes packetEnd offset 2) (\<lambda>_.
          byte_at packet offset (\<lambda>next. byte_at packet (offset + 1) (\<lambda>len.
            if packetEnd < offset + (unat len + 2) * 4 then Err Ipv6ExtensionOutOfRange
            else inspectIpv6Loop packet isOutbound packetEnd sourceAddress destinationAddress next
                   (offset + (unat len + 2) * 4))))
      else if nextHeader = 44 then
        and_then (ensureBytes packetEnd offset 8) (\<lambda>_.
          read_be16 packet (offset + 2) (\<lambda>fragment.
          slice_at packet (offset + 8) packetEnd (\<lambda>fragmentPayload.
          byte_at packet offset (\<lambda>next.
          and_then (if unat (fragment AND 0xfff8) = 0
                    then and_then (locatePostFragmentUdpHeader fragmentPayload next) (\<lambda>udpOffset. Ok (Some udpOffset))
                    else Ok None) (\<lambda>udpHeaderOffset.
          slice_at packet (offset + 4) (offset + 8) (\<lambda>ident.
            fragmentPart
              \<lparr>ufk_sourceAddress = sourceAddress, ufk_destinationAddress = destinationAddress,
               ufk_identification = be32 (ident ! 0) (ident ! 1) (ident ! 2) (ident ! 3), ufk_outbound = isOutbound\<rparr>
              (unat (fragment AND 0xfff8)) (fragment AND 0x0001 \<noteq> 0) fragmentPayload (length packet)
              udpHeaderOffset (offset + 8)))))))
      else Err Ipv6ChainNotUdp)"
  by pat_completeness auto
termination
  by (relation "measure (\<lambda>(packet, _, _, _, _, _, offset). length packet - offset)") (auto simp: byte_at_def)

definition inspectIpv6Fragment :: "bytes \<Rightarrow> bool \<Rightarrow> (FragmentError, UdpPacketFragment) outcome" where
  "inspectIpv6Fragment packet isOutbound =
     (if length packet < 40 then Err ShortIpv6Header
      else read_be16 packet 4 (\<lambda>payloadLength.
        if payloadLength = 0 then Err Ipv6Jumbogram
        else if length packet < 40 + unat payloadLength then Err Ipv6LengthOutOfRange
        else slice_at packet 8 24 (\<lambda>source. slice_at packet 24 40 (\<lambda>destination.
          byte_at packet 6 (\<lambda>nextHeader.
            inspectIpv6Loop packet isOutbound (40 + unat payloadLength) (V6 (ipv6_from source))
              (V6 (ipv6_from destination)) nextHeader 40)))))"

definition inspectUdpFragment :: "bytes \<Rightarrow> bool \<Rightarrow> (FragmentError, UdpPacketFragment) outcome" where
  "inspectUdpFragment packet isOutbound =
     (case packet of
        [] \<Rightarrow> Err ShortIpHeader
      | first # _ \<Rightarrow>
          (let version = drop_bit 4 first
           in if version = 4 then inspectIpv4Fragment packet isOutbound
              else if version = 6 then inspectIpv6Fragment packet isOutbound
              else Err (UnknownIpVersion version)))"

definition fragmentPayloadRange :: "UdpFragmentPart \<Rightarrow> nat \<times> nat \<times> nat" where
  "fragmentPayloadRange part = (fp_payloadOffset part, fp_packetPayloadOffset part, length (fp_fragmentPayload part))"

definition fragmentUdpHeaderOffset :: "UdpFragmentPart \<Rightarrow> nat option" where
  "fragmentUdpHeaderOffset part = fp_udpHeaderOffset part"

definition fragmentPayloadPrefix :: "UdpFragmentPart \<Rightarrow> nat \<Rightarrow> (bytes \<times> IpAddr) option" where
  "fragmentPayloadPrefix part prefixLength =
     (if fp_payloadOffset part = 0 \<and> prefixLength \<le> length (fp_fragmentPayload part)
      then Some (take prefixLength (fp_fragmentPayload part), ufk_sourceAddress (fp_key part)) else None)"

definition firstFragmentTuple :: "UdpFragmentPart \<Rightarrow> (IpAddr \<times> u16 \<times> IpAddr \<times> u16) option" where
  "firstFragmentTuple part =
     (case fp_sourcePort part of
        None \<Rightarrow> None
      | Some sourcePort \<Rightarrow>
          (case fp_destinationPort part of
             None \<Rightarrow> None
           | Some destinationPort \<Rightarrow>
               Some (ufk_sourceAddress (fp_key part), sourcePort, ufk_destinationAddress (fp_key part), destinationPort)))"

section \<open>Groups\<close>

fun validateNoConflictingOverlap :: "(nat \<times> bytes) list \<Rightarrow> nat \<Rightarrow> bytes \<Rightarrow> (FragmentError, unit) outcome" where
  "validateNoConflictingOverlap [] offset content = Ok ()"
| "validateNoConflictingOverlap ((existingOffset, existing) # pieces) offset content =
     (if offset < existingOffset + length existing \<and> existingOffset < offset + length content
      then (if existingOffset = offset \<and> existing = content then Ok () else Err ConflictingOverlap)
      else validateNoConflictingOverlap pieces offset content)"

fun piecesEnd :: "nat \<Rightarrow> (nat \<times> bytes) list \<Rightarrow> nat option" where
  "piecesEnd nextOffset [] = Some nextOffset"
| "piecesEnd nextOffset ((offset, content) # pieces) =
     (if offset \<noteq> nextOffset then None else piecesEnd (nextOffset + length content) pieces)"

definition isComplete :: "'o FragmentGroup \<Rightarrow> bool" where
  "isComplete grp =
     (case fg_finalLength grp of
        None \<Rightarrow> False
      | Some finalLength \<Rightarrow>
          fg_disposition grp \<noteq> None \<and> piecesEnd 0 (fg_pieces grp) = Some finalLength)"

definition assembleGroup ::
  "'o FragmentGroup \<Rightarrow> (FragmentError \<times> 'o list, 'o ReassembledUdpDatagram) outcome" where
  "assembleGroup grp =
     (case fg_disposition grp of
        None \<Rightarrow> Panic
      | Some Ignored \<Rightarrow>
          Ok \<lparr>rd_event = None, rd_packetCount = fg_packetCount grp, rd_packetBytes = fg_packetBytes grp,
              rd_observations = fg_observations grp\<rparr>
      | Some (Selected target direction clientAddress capturedAtMilliseconds) \<Rightarrow>
          (if fg_finalLength grp = None then Panic
           else (let udpBytes = concat (map snd (fg_pieces grp))
                 in case fg_udpHeaderOffset grp of
                      None \<Rightarrow> Err (MissingUdpOffset, fg_observations grp)
                    | Some udpOffset \<Rightarrow>
                        if length udpBytes < udpOffset + 8 then Err (ShortReassembledUdp, fg_observations grp)
                        else read_be16 udpBytes (udpOffset + 4) (\<lambda>udpLength.
                          if unat udpLength < 8 \<or> length udpBytes < udpOffset + unat udpLength
                          then Err (UdpLengthOutOfRange, fg_observations grp)
                          else slice_at udpBytes (udpOffset + 8) (udpOffset + unat udpLength) (\<lambda>payload.
                            Ok \<lparr>rd_event = Some \<lparr>ue_processId = ot_processId target, ue_clientAddress = clientAddress,
                                  ue_targetAddress = ot_address target, ue_direction = direction, ue_payload = payload,
                                  ue_capturedAtMilliseconds = capturedAtMilliseconds, ue_modifications = []\<rparr>,
                                rd_packetCount = fg_packetCount grp, rd_packetBytes = fg_packetBytes grp,
                                rd_observations = fg_observations grp\<rparr>)))))"

section \<open>The assembler\<close>

definition pieces_size :: "(nat \<times> bytes) list \<Rightarrow> nat" where
  "pieces_size pieces = sum_list (map (length \<circ> snd) pieces)"

definition is_ignored :: "'o FragmentGroup \<Rightarrow> bool" where
  "is_ignored grp = (fg_disposition grp = Some Ignored)"

definition is_selected :: "UdpFragmentDisposition option \<Rightarrow> bool" where
  "is_selected disposition = (case disposition of Some (Selected _ _ _ _) \<Rightarrow> True | _ \<Rightarrow> False)"

definition fragmentLifetime :: "UdpFragmentKey \<Rightarrow> 'o UdpFragmentAssembler \<Rightarrow> nat" where
  "fragmentLifetime key asm =
     (case as_fragmentLifetimeOverride asm of
        Some lifetime \<Rightarrow> lifetime
      | None \<Rightarrow> (case ufk_sourceAddress key of V4 _ \<Rightarrow> ipv4FragmentLifetime | V6 _ \<Rightarrow> ipv6FragmentLifetime))"

definition removeGroup :: "UdpFragmentKey \<Rightarrow> 'o UdpFragmentAssembler \<Rightarrow> 'o UdpFragmentAssembler" where
  "removeGroup key asm =
     (case hm_get (as_groups asm) key of
        None \<Rightarrow> asm
      | Some grp \<Rightarrow>
          asm\<lparr>as_groups := hm_remove key (as_groups asm),
              as_bufferedBytes := as_bufferedBytes asm - pieces_size (fg_pieces grp),
              as_bufferedObservations := as_bufferedObservations asm - length (fg_observations grp),
              as_bufferedObservationBytes := as_bufferedObservationBytes asm - fg_observationBytes grp\<rparr>)"

definition pruneExpired :: "instant \<Rightarrow> 'o UdpFragmentAssembler \<Rightarrow> (FragmentError, unit) outcome \<times> 'o UdpFragmentAssembler" where
  "pruneExpired now asm =
     (if \<exists>grp \<in> set (map snd (as_groups asm)). fg_expiresAt grp \<le> now \<and> \<not> is_ignored grp
      then (Err FragmentTimeout, asm)
      else (Ok (), fold removeGroup (map fst (filter (\<lambda>e. fg_expiresAt (snd e) \<le> now) (as_groups asm))) asm))"

definition evictIgnoredGroup :: "UdpFragmentKey option \<Rightarrow> 'o UdpFragmentAssembler \<Rightarrow> bool \<times> 'o UdpFragmentAssembler" where
  "evictIgnoredGroup excludedKey asm =
     (case min_by_key (\<lambda>e. fg_expiresAt (snd e))
             (filter (\<lambda>e. Some (fst e) \<noteq> excludedKey \<and> is_ignored (snd e)) (as_groups asm)) of
        None \<Rightarrow> (False, asm)
      | Some e \<Rightarrow> (True, removeGroup (fst e) asm))"

lemma length_evictIgnoredGroup:
  "evictIgnoredGroup excludedKey asm = (True, asm') \<Longrightarrow> length (as_groups asm') < length (as_groups asm)"
proof -
  assume "evictIgnoredGroup excludedKey asm = (True, asm')"
  then obtain e where e: "e \<in> set (as_groups asm)" and asm': "asm' = removeGroup (fst e) asm"
    by (auto simp: evictIgnoredGroup_def dest!: min_by_key_in split: option.splits)
  from e have "hm_get (as_groups asm) (fst e) \<noteq> None"
    unfolding hm_get_def map_of_eq_None_iff by simp
  moreover have "length (hm_remove (fst e) (as_groups asm)) < length (as_groups asm)"
    unfolding hm_remove_def using e by (intro length_filter_less) auto
  ultimately show ?thesis by (auto simp: asm' removeGroup_def split: option.splits)
qed

text \<open>
  The two budget loops of \<open>pushWithObservation\<close>: evict ignored groups while the budget is exceeded;
  \<open>False\<close> when nothing is left to evict. Every round removes a group.
\<close>

function makeRoom ::
  "('o UdpFragmentAssembler \<Rightarrow> bool) \<Rightarrow> UdpFragmentKey \<Rightarrow> 'o UdpFragmentAssembler \<Rightarrow> bool \<times> 'o UdpFragmentAssembler" where
  "makeRoom full key asm =
     (if full asm
      then (case evictIgnoredGroup (Some key) asm of
              (False, asm) \<Rightarrow> (False, asm)
            | (True, asm) \<Rightarrow> makeRoom full key asm)
      else (True, asm))"
  by pat_completeness auto
termination
  by (relation "measure (\<lambda>(_, _, asm). length (as_groups asm))") (simp_all add: length_evictIgnoredGroup)

definition bytes_full :: "nat \<Rightarrow> 'o UdpFragmentAssembler \<Rightarrow> bool" where
  "bytes_full newBytes asm = (maximumBufferedFragmentBytes < as_bufferedBytes asm + newBytes)"

definition observations_full :: "nat \<Rightarrow> 'o UdpFragmentAssembler \<Rightarrow> bool" where
  "observations_full observationBytes asm =
     (maximumBufferedFragmentObservations \<le> as_bufferedObservations asm
      \<or> maximumBufferedObservationBytes < as_bufferedObservationBytes asm + observationBytes)"

type_synonym 'o push_result = "(FragmentError, 'o ReassembledUdpDatagram option) outcome"

definition newGroup :: "instant \<Rightarrow> 'o FragmentGroup" where
  "newGroup expiresAt =
     \<lparr>fg_pieces = [], fg_finalLength = None, fg_disposition = None, fg_udpHeaderOffset = None, fg_packetCount = 0,
      fg_packetBytes = 0, fg_expiresAt = expiresAt, fg_observations = [], fg_observationBytes = 0\<rparr>"

text \<open>How the group of the key changes when the fragment is accepted.\<close>

definition extendGroup ::
  "UdpFragmentPart \<Rightarrow> UdpFragmentDisposition option \<Rightarrow> 'o \<Rightarrow> nat \<Rightarrow> nat \<Rightarrow> 'o FragmentGroup \<Rightarrow> 'o FragmentGroup" where
  "extendGroup part disposition observation observationBytes newBytes grp =
     (let grp = (case disposition of
             None \<Rightarrow> grp
           | Some d \<Rightarrow> grp\<lparr>fg_disposition := Some d, fg_udpHeaderOffset := fp_udpHeaderOffset part\<rparr>);
          grp = (if newBytes \<noteq> 0
                   then grp\<lparr>fg_pieces := bt_insert (fp_payloadOffset part) (fp_fragmentPayload part) (fg_pieces grp)\<rparr>
                   else grp);
          grp = grp\<lparr>fg_packetCount := fg_packetCount grp + 1,
                        fg_packetBytes := fg_packetBytes grp + of_nat (fp_packetBytes part),
                        fg_observations := fg_observations grp @ [observation],
                        fg_observationBytes := fg_observationBytes grp + observationBytes\<rparr>
      in if fp_moreFragments part then grp
         else grp\<lparr>fg_finalLength := Some (fp_payloadOffset part + length (fp_fragmentPayload part))\<rparr>)"

text \<open>The tail of \<open>pushWithObservation\<close>: the fragment is stored, and a complete group is assembled.\<close>

definition storeFragment ::
  "instant \<Rightarrow> UdpFragmentPart \<Rightarrow> UdpFragmentDisposition option \<Rightarrow> 'o \<Rightarrow> nat \<Rightarrow> nat \<Rightarrow>
   'o UdpFragmentAssembler \<Rightarrow> 'o push_result \<times> 'o UdpFragmentAssembler" where
  "storeFragment now part disposition observation observationBytes newBytes asm =
     (let key = fp_key part;
          grp = hm_entry_or (as_groups asm) key (newGroup (now + fragmentLifetime key asm))
      in if disposition \<noteq> None \<and> fp_payloadOffset part \<noteq> 0
         then (Err DispositionOnLaterFragment, asm\<lparr>as_groups := hm_insert key grp (as_groups asm)\<rparr>)
         else
           (let grp = extendGroup part disposition observation observationBytes newBytes grp;
                asm = asm\<lparr>as_groups := hm_insert key grp (as_groups asm),
                          as_bufferedBytes := as_bufferedBytes asm + newBytes,
                          as_bufferedObservations := as_bufferedObservations asm + 1,
                          as_bufferedObservationBytes := as_bufferedObservationBytes asm + observationBytes\<rparr>
            in if \<not> isComplete grp then (Ok None, asm)
               else
                 (let asm = removeGroup key asm
                  in case assembleGroup grp of
                       Ok reassembled \<Rightarrow> (Ok (Some reassembled), asm)
                     | Err (detail, observations) \<Rightarrow>
                         (Err detail, asm\<lparr>as_faultObservations := as_faultObservations asm @ observations\<rparr>)
                     | Panic \<Rightarrow> (Panic, asm))))"

text \<open>The two conflict checks: an error for a selected datagram, otherwise the group is dropped.\<close>

definition conflict :: "UdpFragmentPart \<Rightarrow> 'o UdpFragmentAssembler \<Rightarrow> FragmentError option" where
  "conflict part asm =
     (case hm_get (as_groups asm) (fp_key part) of
        None \<Rightarrow> None
      | Some grp \<Rightarrow>
          (case validateNoConflictingOverlap (fg_pieces grp) (fp_payloadOffset part) (fp_fragmentPayload part) of
             Err detail \<Rightarrow> Some detail
           | _ \<Rightarrow>
               if \<not> fp_moreFragments part \<and> fg_finalLength grp \<noteq> None
                  \<and> fg_finalLength grp \<noteq> Some (fp_payloadOffset part + length (fp_fragmentPayload part))
               then Some ConflictingFinalLength else None))"

definition new_bytes :: "UdpFragmentPart \<Rightarrow> 'o UdpFragmentAssembler \<Rightarrow> nat" where
  "new_bytes part asm =
     (case hm_get (as_groups asm) (fp_key part) of
        None \<Rightarrow> length (fp_fragmentPayload part)
      | Some grp \<Rightarrow>
          if hm_get (fg_pieces grp) (fp_payloadOffset part) = Some (fp_fragmentPayload part)
          then 0 else length (fp_fragmentPayload part))"

definition admitFragment ::
  "instant \<Rightarrow> UdpFragmentPart \<Rightarrow> UdpFragmentDisposition option \<Rightarrow> 'o \<Rightarrow> nat \<Rightarrow> bool \<Rightarrow> bool \<Rightarrow>
   'o UdpFragmentAssembler \<Rightarrow> 'o push_result \<times> 'o UdpFragmentAssembler" where
  "admitFragment now part disposition observation observationBytes selected ignored asm =
     (let newBytes = new_bytes part asm
      in case makeRoom (bytes_full newBytes) (fp_key part) asm of
           (False, asm) \<Rightarrow> (if ignored then Ok None else Err FragmentBytesLimit, asm)
         | (True, asm) \<Rightarrow>
             (case makeRoom (observations_full observationBytes) (fp_key part) asm of
                (False, asm) \<Rightarrow> (if ignored then Ok None else Err ObservationLimit, asm)
              | (True, asm) \<Rightarrow>
                  (case conflict part asm of
                     Some detail \<Rightarrow>
                       if selected then (Err detail, asm) else (Ok None, removeGroup (fp_key part) asm)
                   | None \<Rightarrow> storeFragment now part disposition observation observationBytes newBytes asm)))"

definition pushWithObservation ::
  "instant \<Rightarrow> instant \<Rightarrow> UdpFragmentPart \<Rightarrow> UdpFragmentDisposition option \<Rightarrow> 'o \<Rightarrow> nat \<Rightarrow>
   'o UdpFragmentAssembler \<Rightarrow> 'o push_result \<times> 'o UdpFragmentAssembler" where
  "pushWithObservation now later part disposition observation observationBytes asm =
     (case pruneExpired now asm of
        (Panic, asm) \<Rightarrow> (Panic, asm)
      | (Err detail, asm) \<Rightarrow> (Err detail, asm)
      | (Ok _, asm) \<Rightarrow>
          (let existing = hm_get (as_groups asm) (fp_key part);
               selected = ((\<exists>grp \<in> set_option existing. is_selected (fg_disposition grp)) \<or> is_selected disposition);
               ignored = ((\<exists>grp \<in> set_option existing. is_ignored grp) \<or> disposition = Some Ignored)
           in if existing = None \<and> maximumFragmentGroups \<le> length (as_groups asm)
              then (case evictIgnoredGroup None asm of
                      (False, asm) \<Rightarrow> (if ignored then Ok None else Err FragmentGroupLimit, asm)
                    | (True, asm) \<Rightarrow>
                        admitFragment later part disposition observation observationBytes selected ignored asm)
              else admitFragment later part disposition observation observationBytes selected ignored asm))"

definition push_part ::
  "instant \<Rightarrow> instant \<Rightarrow> UdpFragmentPart \<Rightarrow> UdpFragmentDisposition option \<Rightarrow> unit UdpFragmentAssembler \<Rightarrow>
   unit push_result \<times> unit UdpFragmentAssembler" where
  "push_part now later part disposition asm =
     pushWithObservation now later part disposition () (fp_packetBytes part) asm"

definition finish :: "'o UdpFragmentAssembler \<Rightarrow> (FragmentError, unit) outcome" where
  "finish asm =
     (let incompleteRequired = length (filter (\<lambda>grp. \<not> is_ignored grp) (map snd (as_groups asm)))
      in if incompleteRequired = 0 then Ok () else Err (IncompleteAtStop incompleteRequired))"

definition pollExpired :: "instant \<Rightarrow> 'o UdpFragmentAssembler \<Rightarrow> (FragmentError, unit) outcome \<times> 'o UdpFragmentAssembler" where
  "pollExpired now asm = pruneExpired now asm"

definition drainPendingObservations :: "'o UdpFragmentAssembler \<Rightarrow> 'o list \<times> 'o UdpFragmentAssembler" where
  "drainPendingObservations asm =
     (as_faultObservations asm @ concat (map (fg_observations \<circ> snd) (as_groups asm)),
      asm\<lparr>as_faultObservations := [],
          as_groups := map (\<lambda>e. (fst e, (snd e)\<lparr>fg_observations := []\<rparr>)) (as_groups asm)\<rparr>)"

end
