(* ===== verification/FragmentProperties.thy ===== *)
theory FragmentProperties
  imports UdpFragment
begin

text \<open>
  Properties of the UDP reassembly: the accounting of the three budgets is exact and within its
  limits in every reachable assembler, packets that may belong to a selected process are never lost
  silently, and the fragments of a datagram, pushed in any order, are all accepted and return exactly the
  payload of the datagram with the fragment that completes it.
\<close>

section \<open>Totals over the groups\<close>

definition total :: "('v \<Rightarrow> 'a::comm_monoid_add) \<Rightarrow> ('k, 'v) hashmap \<Rightarrow> 'a" where
  "total w m = sum_list (map (w \<circ> snd) m)"

definition weight_at :: "('v \<Rightarrow> 'a::comm_monoid_add) \<Rightarrow> ('k, 'v) hashmap \<Rightarrow> 'k \<Rightarrow> 'a" where
  "weight_at w m k = (case hm_get m k of None \<Rightarrow> 0 | Some v \<Rightarrow> w v)"

lemma total_remove: "hm_wf m \<Longrightarrow> total w m = weight_at w m k + total w (hm_remove k m)"
proof (induction m)
  case (Cons e m)
  show ?case
  proof (cases "fst e = k")
    case True
    with Cons.prems have "hm_get m k = None"
      unfolding hm_get_def map_of_eq_None_iff by (auto simp: hm_wf_def)
    then have "hm_remove k (e # m) = m" using True hm_remove_absent [of m k] by (simp add: hm_remove_def)
    with True show ?thesis by (simp add: total_def weight_at_def hm_get_def)
  next
    case False
    with Cons have "total w m = weight_at w m k + total w (hm_remove k m)" by (simp add: hm_wf_def)
    with False show ?thesis
      by (simp add: total_def weight_at_def hm_get_def hm_remove_def ac_simps)
  qed
qed (simp add: total_def weight_at_def hm_remove_def)

lemma hm_remove_insert: "hm_remove k (hm_insert k v m) = hm_remove k m"
  unfolding hm_remove_def hm_insert_def by (induction m) auto

lemma total_insert:
  assumes "hm_wf m"
  shows "total w (hm_insert k v m) = w v + total w (hm_remove k m)"
proof -
  have "total w (hm_insert k v m) = weight_at w (hm_insert k v m) k + total w (hm_remove k (hm_insert k v m))"
    using assms by (intro total_remove) simp
  then show ?thesis by (simp add: weight_at_def hm_get_insert hm_remove_insert)
qed

section \<open>Pieces\<close>

definition disjoint_pieces :: "(nat \<times> bytes) list \<Rightarrow> bool" where
  "disjoint_pieces ps \<longleftrightarrow> (\<forall>o1 b1 o2 b2. (o1, b1) \<in> set ps \<longrightarrow> (o2, b2) \<in> set ps \<longrightarrow> o1 < o2 \<longrightarrow> o1 + length b1 \<le> o2)"

definition pieces_ok :: "(nat \<times> bytes) list \<Rightarrow> bool" where
  "pieces_ok ps \<longleftrightarrow> bt_wf ps \<and> (\<forall>p \<in> set ps. snd p \<noteq> []) \<and> disjoint_pieces ps"

lemma validate_Ok:
  "validateNoConflictingOverlap ps off c = Ok () \<Longrightarrow>
   (off, c) \<in> set ps \<or> (\<forall>(eo, e) \<in> set ps. eo + length e \<le> off \<or> off + length c \<le> eo)"
  by (induction ps off c rule: validateNoConflictingOverlap.induct) (auto split: if_splits)

lemma validate_no_panic: "validateNoConflictingOverlap ps off c \<noteq> Panic"
  by (induction ps off c rule: validateNoConflictingOverlap.induct) auto

lemma set_bt_insert: "hm_get m k = None \<Longrightarrow> set (bt_insert k v m) = insert (k, v) (set m)"
  using arg_cong [OF mset_bt_insert [of m k v], of set_mset] by simp

lemma new_piece:
  assumes "pieces_ok ps" and "validateNoConflictingOverlap ps off c = Ok ()"
    and "hm_get ps off \<noteq> Some c" and "c \<noteq> []"
  shows "hm_get ps off = None" and "pieces_ok (bt_insert off c ps)"
proof -
  have wf: "bt_wf ps" "hm_wf ps" using assms(1) bt_wf_hm_wf by (auto simp: pieces_ok_def)
  have apart: "eo + length e \<le> off \<or> off + length c \<le> eo" if "(eo, e) \<in> set ps" for eo e
    using validate_Ok [OF assms(2)] assms(3) hm_in_set [OF wf(2)] that by blast
  show none: "hm_get ps off = None"
  proof (rule ccontr)
    assume "hm_get ps off \<noteq> None"
    then obtain e where "hm_get ps off = Some e" by blast
    then have "(off, e) \<in> set ps" by (rule hm_get_Some_in_set)
    with apart [of off e] assms(1,4) show False by (auto simp: pieces_ok_def)
  qed
  show "pieces_ok (bt_insert off c ps)"
    using assms(1,4) apart none wf unfolding pieces_ok_def disjoint_pieces_def
    by (auto simp: set_bt_insert) (use nat_le_linear in fastforce)+
qed

section \<open>The invariant of the assembler\<close>

definition account_ok :: "'o UdpFragmentAssembler \<Rightarrow> bool" where
  "account_ok asm \<longleftrightarrow>
     as_bufferedBytes asm = total (\<lambda>g. pieces_size (fg_pieces g)) (as_groups asm)
     \<and> as_bufferedObservations asm = total (\<lambda>g. length (fg_observations g)) (as_groups asm)
     \<and> as_bufferedObservationBytes asm = total fg_observationBytes (as_groups asm)"

definition limits_ok :: "'o UdpFragmentAssembler \<Rightarrow> bool" where
  "limits_ok asm \<longleftrightarrow> length (as_groups asm) \<le> maximumFragmentGroups
     \<and> as_bufferedBytes asm \<le> maximumBufferedFragmentBytes
     \<and> as_bufferedObservations asm \<le> maximumBufferedFragmentObservations
     \<and> as_bufferedObservationBytes asm \<le> maximumBufferedObservationBytes"

definition asm_inv :: "'o UdpFragmentAssembler \<Rightarrow> bool" where
  "asm_inv asm \<longleftrightarrow> hm_wf (as_groups asm) \<and> account_ok asm \<and> limits_ok asm
     \<and> (\<forall>k g. hm_get (as_groups asm) k = Some g \<longrightarrow> pieces_ok (fg_pieces g))"

text \<open>\<open>sheds asm asm'\<close>: between the two, ignored groups were dropped and nothing else happened.\<close>

definition sheds :: "'o UdpFragmentAssembler \<Rightarrow> 'o UdpFragmentAssembler \<Rightarrow> bool" where
  "sheds asm asm' \<longleftrightarrow>
     (\<forall>k. hm_get (as_groups asm') k = hm_get (as_groups asm) k
        \<or> (hm_get (as_groups asm') k = None \<and> (\<exists>g. hm_get (as_groups asm) k = Some g \<and> is_ignored g)))
     \<and> as_faultObservations asm' = as_faultObservations asm
     \<and> as_fragmentLifetimeOverride asm' = as_fragmentLifetimeOverride asm
     \<and> length (as_groups asm') \<le> length (as_groups asm)
     \<and> as_bufferedBytes asm' \<le> as_bufferedBytes asm
     \<and> as_bufferedObservations asm' \<le> as_bufferedObservations asm
     \<and> as_bufferedObservationBytes asm' \<le> as_bufferedObservationBytes asm"

lemma sheds_refl [simp]: "sheds asm asm"
  by (simp add: sheds_def)

lemma sheds_trans: "sheds a b \<Longrightarrow> sheds b c \<Longrightarrow> sheds a c"
  unfolding sheds_def by (intro conjI allI) (metis, simp_all)

lemma sheds_required:
  "sheds asm asm' \<Longrightarrow> hm_get (as_groups asm) k = Some g \<Longrightarrow> \<not> is_ignored g \<Longrightarrow> hm_get (as_groups asm') k = Some g"
  unfolding sheds_def by (metis option.inject)

lemma removeGroup_inv: "asm_inv asm \<Longrightarrow> asm_inv (removeGroup k asm)"
proof (cases "hm_get (as_groups asm) k")
  case (Some g)
  assume inv: "asm_inv asm"
  then have "hm_wf (as_groups asm)" by (simp add: asm_inv_def)
  from total_remove [OF this, of _ k] have "total w (as_groups asm) = w g + total w (hm_remove k (as_groups asm))"
    for w :: "'a FragmentGroup \<Rightarrow> nat" by (simp add: weight_at_def Some)
  with inv Some show ?thesis
    using length_hm_remove_le [of k "as_groups asm"]
    by (auto simp: asm_inv_def account_ok_def limits_ok_def removeGroup_def hm_get_remove split: if_splits)
qed (simp add: removeGroup_def)

lemma removeGroup_get: "hm_get (as_groups (removeGroup k asm)) = (hm_get (as_groups asm))(k := None)"
  by (auto simp: removeGroup_def hm_get_remove fun_eq_iff split: option.splits)

lemma removeGroup_sheds:
  assumes "\<And>g. hm_get (as_groups asm) k = Some g \<Longrightarrow> is_ignored g"
  shows "sheds asm (removeGroup k asm)"
proof (cases "hm_get (as_groups asm) k")
  case (Some g)
  with assms show ?thesis
    using length_hm_remove_le [of k "as_groups asm"]
    by (auto simp: sheds_def removeGroup_def hm_get_remove)
qed (simp add: removeGroup_def)

lemma evict_spec:
  assumes inv: "asm_inv asm" and ev: "evictIgnoredGroup ex asm = (b, asm')"
  shows "sheds asm asm'" and "asm_inv asm'" and "b \<Longrightarrow> length (as_groups asm') < length (as_groups asm)"
    and "ex = Some k \<Longrightarrow> hm_get (as_groups asm') k = hm_get (as_groups asm) k"
    and "hm_get (as_groups asm) k = None \<Longrightarrow> hm_get (as_groups asm') k = None"
proof -
  have "sheds asm asm' \<and> asm_inv asm' \<and> (\<forall>k. ex = Some k \<longrightarrow> hm_get (as_groups asm') k = hm_get (as_groups asm) k)"
  proof (cases "min_by_key (\<lambda>e. fg_expiresAt (snd e)) (filter (\<lambda>e. Some (fst e) \<noteq> ex \<and> is_ignored (snd e)) (as_groups asm))")
    case None
    with ev inv show ?thesis by (simp add: evictIgnoredGroup_def)
  next
    case (Some e)
    from min_by_key_in [OF Some] have e: "(fst e, snd e) \<in> set (as_groups asm)" "Some (fst e) \<noteq> ex" "is_ignored (snd e)"
      by auto
    have "hm_wf (as_groups asm)" using inv by (simp add: asm_inv_def)
    from hm_in_set [OF this] e(1) have "hm_get (as_groups asm) (fst e) = Some (snd e)" by (rule iffD1)
    with e have "sheds asm (removeGroup (fst e) asm)" by (intro removeGroup_sheds) simp
    moreover have "asm' = removeGroup (fst e) asm" using ev Some by (simp add: evictIgnoredGroup_def)
    ultimately show ?thesis using inv e(2) by (auto simp: removeGroup_inv removeGroup_get)
  qed
  then show s: "sheds asm asm'" and "asm_inv asm'" and "ex = Some k \<Longrightarrow> hm_get (as_groups asm') k = hm_get (as_groups asm) k"
    by blast+
  show "b \<Longrightarrow> length (as_groups asm') < length (as_groups asm)" 
    using ev length_evictIgnoredGroup [of ex asm asm'] by simp
  show "hm_get (as_groups asm) k = None \<Longrightarrow> hm_get (as_groups asm') k = None"
    using s by (auto simp: sheds_def dest: spec [of _ k])
qed

declare makeRoom.simps [simp del]

lemma makeRoom_spec:
  assumes "asm_inv asm" and "makeRoom full key asm = (b, asm')"
  shows "sheds asm asm' \<and> asm_inv asm' \<and> hm_get (as_groups asm') key = hm_get (as_groups asm) key \<and> (b \<longrightarrow> \<not> full asm')"
  using assms
proof (induction full key asm rule: makeRoom.induct)
  case (1 full key asm)
  show ?case
  proof (cases "full asm")
    case False
    with 1 show ?thesis by (simp add: makeRoom.simps [of full])
  next
    case True
    obtain c asm1 where ev: "evictIgnoredGroup (Some key) asm = (c, asm1)" by fastforce
    note s = evict_spec [OF "1.prems"(1) ev]
    show ?thesis
    proof (cases c)
      case False
      with True ev "1.prems" s show ?thesis by (simp add: makeRoom.simps [of full])
    next
      case c: True
      with True ev "1.prems"(2) have "makeRoom full key asm1 = (b, asm')" by (simp add: makeRoom.simps [of full key asm])
      from "1.IH" [OF True ev [symmetric, unfolded c] _ s(2) this] c
      have "sheds asm1 asm' \<and> asm_inv asm' \<and> hm_get (as_groups asm') key = hm_get (as_groups asm1) key \<and> (b \<longrightarrow> \<not> full asm')"
        by simp
      with s(1) s(4) [of key] sheds_trans show ?thesis by auto
    qed
  qed
qed

lemma fold_removeGroup_spec:
  assumes "asm_inv asm" and "\<And>k g. k \<in> set ks \<Longrightarrow> hm_get (as_groups asm) k = Some g \<Longrightarrow> is_ignored g"
  shows "sheds asm (fold removeGroup ks asm) \<and> asm_inv (fold removeGroup ks asm)"
  using assms
proof (induction ks arbitrary: asm)
  case (Cons k ks)
  have s: "sheds asm (removeGroup k asm)" using Cons.prems by (intro removeGroup_sheds) auto
  have "sheds (removeGroup k asm) (fold removeGroup ks (removeGroup k asm)) \<and> asm_inv (fold removeGroup ks (removeGroup k asm))"
    using Cons.prems by (intro Cons.IH removeGroup_inv) (auto simp: removeGroup_get split: if_splits)
  with s show ?case by (auto intro: sheds_trans)
qed simp

lemma pruneExpired_spec:
  assumes inv: "asm_inv asm" and pr: "pruneExpired now asm = (r, asm')"
  shows "sheds asm asm'" and "asm_inv asm'" and "r \<noteq> Panic"
    and "r = Err e \<Longrightarrow> e = FragmentTimeout \<and> asm' = asm"
proof -
  have "hm_wf (as_groups asm)" using inv by (simp add: asm_inv_def)
  note in_set = hm_in_set [OF this]
  have "sheds asm asm' \<and> asm_inv asm' \<and> r \<noteq> Panic \<and> (r = Err e \<longrightarrow> e = FragmentTimeout \<and> asm' = asm)"
  proof (cases "\<exists>grp \<in> set (map snd (as_groups asm)). fg_expiresAt grp \<le> now \<and> \<not> is_ignored grp")
    case True
    with pr inv show ?thesis by (auto simp: pruneExpired_def)
  next
    case False
    let ?ks = "map fst (filter (\<lambda>e. fg_expiresAt (snd e) \<le> now) (as_groups asm))"
    have asm': "asm' = fold removeGroup ?ks asm" "r = Ok ()"
      using pr unfolding pruneExpired_def if_not_P [OF False] by simp_all
    have "is_ignored g" if "k \<in> set ?ks" "hm_get (as_groups asm) k = Some g" for k g
    proof -
      from that(1) obtain g' where g': "(k, g') \<in> set (as_groups asm)" "fg_expiresAt g' \<le> now" by auto
      with that(2) in_set have "g' = g" by simp
      with g' False show ?thesis by force
    qed
    then have "sheds asm (fold removeGroup ?ks asm) \<and> asm_inv (fold removeGroup ?ks asm)"
      by (intro fold_removeGroup_spec [OF inv]) blast
    with asm' show ?thesis by simp
  qed
  then show "sheds asm asm'" and "asm_inv asm'" and "r \<noteq> Panic"
    and "r = Err e \<Longrightarrow> e = FragmentTimeout \<and> asm' = asm" by blast+
qed

section \<open>Storing a fragment\<close>

lemma extendGroup_fields:
  "fg_pieces (extendGroup part d obs ob nb g) =
     (if nb \<noteq> 0 then bt_insert (fp_payloadOffset part) (fp_fragmentPayload part) (fg_pieces g) else fg_pieces g)"
  "fg_observations (extendGroup part d obs ob nb g) = fg_observations g @ [obs]"
  "fg_observationBytes (extendGroup part d obs ob nb g) = fg_observationBytes g + ob"
  "fg_disposition (extendGroup part d obs ob nb g) = (case d of None \<Rightarrow> fg_disposition g | Some x \<Rightarrow> Some x)"
  "fg_udpHeaderOffset (extendGroup part d obs ob nb g) = (case d of None \<Rightarrow> fg_udpHeaderOffset g | Some x \<Rightarrow> fp_udpHeaderOffset part)"
  "fg_finalLength (extendGroup part d obs ob nb g) = (if fp_moreFragments part then fg_finalLength g
     else Some (fp_payloadOffset part + length (fp_fragmentPayload part)))"
  by (auto simp: extendGroup_def Let_def split: option.split)

lemma pieces_size_insert: "hm_get ps off = None \<Longrightarrow> pieces_size (bt_insert off c ps) = pieces_size ps + length c"
  unfolding pieces_size_def
  using arg_cong [OF mset_bt_insert [of ps off c], of "\<lambda>M. sum_mset (image_mset (length \<circ> snd) M)"]
  by (simp add: sum_mset_sum_list [symmetric])

lemma pieces_ok_Nil [simp]: "pieces_ok []"
  by (simp add: pieces_ok_def disjoint_pieces_def)

text \<open>The group that a fragment extends, and what is known of it when there is no conflict.\<close>

definition group_for :: "instant \<Rightarrow> UdpFragmentPart \<Rightarrow> 'o UdpFragmentAssembler \<Rightarrow> 'o FragmentGroup" where
  "group_for now part asm = hm_entry_or (as_groups asm) (fp_key part) (newGroup (now + fragmentLifetime (fp_key part) asm))"

lemma group_for_pieces:
  assumes "asm_inv asm" and "conflict part asm = None"
  shows "pieces_ok (fg_pieces (group_for now part asm))"
    and "validateNoConflictingOverlap (fg_pieces (group_for now part asm)) (fp_payloadOffset part) (fp_fragmentPayload part) = Ok ()"
    and "new_bytes part asm = (if hm_get (fg_pieces (group_for now part asm)) (fp_payloadOffset part) = Some (fp_fragmentPayload part)
      then 0 else length (fp_fragmentPayload part))"
  using assms
  by (auto simp: asm_inv_def conflict_def group_for_def hm_entry_or_def newGroup_def new_bytes_def validate_no_panic
      split: option.splits outcome.splits)

lemma extended_pieces:
  fixes now :: instant
  assumes "asm_inv asm" and "conflict part asm = None"
  defines "g \<equiv> group_for now part asm"
  shows "pieces_ok (fg_pieces (extendGroup part d obs ob (new_bytes part asm) g))"
    and "pieces_size (fg_pieces (extendGroup part d obs ob (new_bytes part asm) g)) = pieces_size (fg_pieces g) + new_bytes part asm"
proof -
  note g = group_for_pieces [OF assms(1,2), of now, folded g_def]
  have "pieces_ok (fg_pieces (extendGroup part d obs ob (new_bytes part asm) g)) \<and>
    pieces_size (fg_pieces (extendGroup part d obs ob (new_bytes part asm) g)) = pieces_size (fg_pieces g) + new_bytes part asm"
  proof (cases "new_bytes part asm = 0")
    case False
    with g(3) have "hm_get (fg_pieces g) (fp_payloadOffset part) \<noteq> Some (fp_fragmentPayload part)"
      "fp_fragmentPayload part \<noteq> []" "new_bytes part asm = length (fp_fragmentPayload part)" by (auto split: if_splits)
    with new_piece [OF g(1,2)] False show ?thesis by (simp add: extendGroup_fields pieces_size_insert)
  qed (simp add: extendGroup_fields g(1))
  then show "pieces_ok (fg_pieces (extendGroup part d obs ob (new_bytes part asm) g))"
    and "pieces_size (fg_pieces (extendGroup part d obs ob (new_bytes part asm) g)) = pieces_size (fg_pieces g) + new_bytes part asm"
    by blast+
qed

definition stored :: "instant \<Rightarrow> UdpFragmentPart \<Rightarrow> UdpFragmentDisposition option \<Rightarrow> 'o \<Rightarrow> nat \<Rightarrow>
    'o UdpFragmentAssembler \<Rightarrow> 'o UdpFragmentAssembler" where
  "stored now part d obs ob asm =
     asm\<lparr>as_groups := hm_insert (fp_key part) (extendGroup part d obs ob (new_bytes part asm) (group_for now part asm)) (as_groups asm),
         as_bufferedBytes := as_bufferedBytes asm + new_bytes part asm,
         as_bufferedObservations := as_bufferedObservations asm + 1,
         as_bufferedObservationBytes := as_bufferedObservationBytes asm + ob\<rparr>"

lemma weight_group_for:
  "w (newGroup (now + fragmentLifetime (fp_key part) asm)) = 0 \<Longrightarrow>
   weight_at w (as_groups asm) (fp_key part) = w (group_for now part asm)"
  by (simp add: weight_at_def group_for_def hm_entry_or_def split: option.split)

lemma stored_total:
  assumes "hm_wf (as_groups asm)" and "w (newGroup (now + fragmentLifetime (fp_key part) asm)) = 0"
    and "w (extendGroup part d obs ob (new_bytes part asm) (group_for now part asm)) = w (group_for now part asm) + delta"
  shows "total w (as_groups (stored now part d obs ob asm)) = total w (as_groups asm) + delta"
  using assms total_remove [OF assms(1), of w "fp_key part"] weight_group_for [of w now part asm, OF assms(2)]
  by (simp add: stored_def total_insert ac_simps)

lemma stored_inv:
  assumes inv: "asm_inv asm" and nc: "conflict part asm = None"
    and room: "hm_get (as_groups asm) (fp_key part) \<noteq> None \<or> length (as_groups asm) < maximumFragmentGroups"
    and nb: "\<not> bytes_full (new_bytes part asm) asm" and no: "\<not> observations_full ob asm"
  shows "asm_inv (stored now part d obs ob asm)"
proof -
  have wf: "hm_wf (as_groups asm)" using inv by (simp add: asm_inv_def)
  note ext = extended_pieces [OF inv nc, where now = now and d = d and obs = obs and ob = ob]
  have "account_ok (stored now part d obs ob asm)"
    unfolding account_ok_def
    using inv stored_total [OF wf, of "\<lambda>g. pieces_size (fg_pieces g)" now part d obs ob "new_bytes part asm"] ext(2)
      stored_total [OF wf, of "\<lambda>g. length (fg_observations g)" now part d obs ob 1]
      stored_total [OF wf, of fg_observationBytes now part d obs ob ob]
    by (simp add: asm_inv_def account_ok_def newGroup_def extendGroup_fields)
      (simp add: stored_def pieces_size_def)
  moreover have "limits_ok (stored now part d obs ob asm)"
    using inv room nb no
    by (auto simp: stored_def asm_inv_def limits_ok_def bytes_full_def observations_full_def length_hm_insert hm_contains_def)
  ultimately show ?thesis
    using inv ext(1) by (auto simp: asm_inv_def stored_def hm_get_insert split: if_splits)
qed

section \<open>The branches of a push\<close>

definition selected_for :: "UdpFragmentPart \<Rightarrow> UdpFragmentDisposition option \<Rightarrow> 'o UdpFragmentAssembler \<Rightarrow> bool" where
  "selected_for part d asm \<longleftrightarrow>
     (\<exists>g. hm_get (as_groups asm) (fp_key part) = Some g \<and> is_selected (fg_disposition g)) \<or> is_selected d"

definition ignored_for :: "UdpFragmentPart \<Rightarrow> UdpFragmentDisposition option \<Rightarrow> 'o UdpFragmentAssembler \<Rightarrow> bool" where
  "ignored_for part d asm \<longleftrightarrow>
     (\<exists>g. hm_get (as_groups asm) (fp_key part) = Some g \<and> is_ignored g) \<or> d = Some Ignored"

definition has_room :: "UdpFragmentPart \<Rightarrow> 'o UdpFragmentAssembler \<Rightarrow> bool" where
  "has_room part asm \<longleftrightarrow> hm_get (as_groups asm) (fp_key part) \<noteq> None \<or> length (as_groups asm) < maximumFragmentGroups"

definition rejection :: "bool \<Rightarrow> 'o push_result \<Rightarrow> bool" where
  "rejection ignored r \<longleftrightarrow> (if ignored then r = Ok None
     else r \<in> {Err FragmentGroupLimit, Err FragmentBytesLimit, Err ObservationLimit})"

lemma same_group:
  assumes "hm_get (as_groups asm') (fp_key part) = hm_get (as_groups asm) (fp_key part)"
  shows "selected_for part d asm' = selected_for part d asm" and "ignored_for part d asm' = ignored_for part d asm"
    and "new_bytes part asm' = new_bytes part asm"
  using assms by (simp_all add: selected_for_def ignored_for_def new_bytes_def)

lemma admit_cases:
  assumes inv: "asm_inv asm" and room: "has_room part asm"
    and sel: "selected = selected_for part d asm" and ign: "ignored = ignored_for part d asm"
    and adm: "admitFragment now part d obs ob selected ignored asm = (r, asm')"
  obtains (rejected) "sheds asm asm'" "asm_inv asm'" "rejection (ignored_for part d asm') r"
    | (conflicting) mid detail where "sheds asm mid" "asm_inv mid" "conflict part mid = Some detail"
        "(r, asm') = (if selected_for part d mid then (Err detail, mid) else (Ok None, removeGroup (fp_key part) mid))"
    | (store) mid where "sheds asm mid" "asm_inv mid" "conflict part mid = None" "has_room part mid"
        "\<not> bytes_full (new_bytes part mid) mid" "\<not> observations_full ob mid"
        "(r, asm') = storeFragment now part d obs ob (new_bytes part mid) mid"
proof -
  obtain b1 asm1 where m1: "makeRoom (bytes_full (new_bytes part asm)) (fp_key part) asm = (b1, asm1)" by fastforce
  note s1 = makeRoom_spec [OF inv m1]
  then have inv1: "asm_inv asm1" by simp
  obtain b2 asm2 where m2: "makeRoom (observations_full ob) (fp_key part) asm1 = (b2, asm2)" by fastforce
  note s2 = makeRoom_spec [OF inv1 m2]
  have sheds2: "sheds asm asm2" using s1 s2 sheds_trans by blast
  note g1 = same_group(2) [of asm1 part asm d]
    and g2 = same_group(1) [of asm2 part asm d] same_group(2) [of asm2 part asm d] same_group(3) [of asm2 part asm]
  have key2: "hm_get (as_groups asm2) (fp_key part) = hm_get (as_groups asm) (fp_key part)" using s1 s2 by simp
  consider "\<not> b1" | "b1" "\<not> b2" | "b1" "b2" "conflict part asm2 \<noteq> None" | "b1" "b2" "conflict part asm2 = None" by blast
  then show thesis
  proof cases
    case 1
    with adm m1 have "asm' = asm1" "r = (if ignored then Ok None else Err FragmentBytesLimit)"
      by (auto simp: admitFragment_def Let_def)
    then show thesis using s1 g1 ign by (intro rejected) (auto simp: rejection_def)
  next
    case 2
    with adm m1 m2 have "asm' = asm2" "r = (if ignored then Ok None else Err ObservationLimit)"
      by (auto simp: admitFragment_def Let_def)
    then show thesis using s2 sheds2 g2(2) key2 ign by (intro rejected) (auto simp: rejection_def)
  next
    case 3
    then obtain detail where c: "conflict part asm2 = Some detail" by blast
    with 3 adm m1 m2 have "(r, asm') = (if selected then (Err detail, asm2) else (Ok None, removeGroup (fp_key part) asm2))"
      by (simp add: admitFragment_def Let_def split: if_splits)
    then show thesis using s2 sheds2 g2(1) key2 sel c by (intro conflicting) auto
  next
    case 4
    with adm m1 m2 g2(3) key2 have st: "(r, asm') = storeFragment now part d obs ob (new_bytes part asm2) asm2"
      by (simp add: admitFragment_def Let_def)
    have "has_room part asm2" using room sheds2 key2 by (auto simp: has_room_def sheds_def)
    moreover have "\<not> bytes_full (new_bytes part asm2) asm2"
      using s1 s2 4 g2(3) key2 by (auto simp: bytes_full_def sheds_def)
    ultimately show thesis using s2 4 sheds2 st by (intro store) auto
  qed
qed

lemma push_cases:
  assumes inv: "asm_inv asm" and push: "pushWithObservation now later part d obs ob asm = (r, asm')"
  obtains (timeout) "r = Err FragmentTimeout" "asm' = asm"
    | (rejected) "sheds asm asm'" "asm_inv asm'" "rejection (ignored_for part d asm') r"
    | (conflicting) mid detail where "sheds asm mid" "asm_inv mid" "conflict part mid = Some detail"
        "(r, asm') = (if selected_for part d mid then (Err detail, mid) else (Ok None, removeGroup (fp_key part) mid))"
    | (store) mid where "sheds asm mid" "asm_inv mid" "conflict part mid = None" "has_room part mid"
        "\<not> bytes_full (new_bytes part mid) mid" "\<not> observations_full ob mid"
        "(r, asm') = storeFragment later part d obs ob (new_bytes part mid) mid"
proof -
  obtain pr asm0 where p: "pruneExpired now asm = (pr, asm0)" by fastforce
  note s0 = pruneExpired_spec [OF inv p]
  have sel: "((\<exists>grp \<in> set_option (hm_get (as_groups a) (fp_key part)). is_selected (fg_disposition grp)) \<or> is_selected d) = selected_for part d a"
    and ign: "((\<exists>grp \<in> set_option (hm_get (as_groups a) (fp_key part)). is_ignored grp) \<or> d = Some Ignored) = ignored_for part d a" for a :: "'a UdpFragmentAssembler"
    by (auto simp: selected_for_def ignored_for_def)
  have admit: thesis if a: "asm_inv a" "sheds asm a" "has_room part a"
      and adm: "admitFragment later part d obs ob (selected_for part d a) (ignored_for part d a) a = (r, asm')" for a
    using a(1,3) refl refl adm by (rule admit_cases) (use a(2) sheds_trans rejected conflicting store in blast)+
  show thesis
  proof (cases pr)
    case Panic
    with s0(3) show thesis by simp
  next
    case (Err e)
    with s0(4) p push show thesis by (intro timeout) (auto simp: pushWithObservation_def)
  next
    case (Ok u)
    show thesis
    proof (cases "hm_get (as_groups asm0) (fp_key part) = None \<and> maximumFragmentGroups \<le> length (as_groups asm0)")
      case False
      with push p Ok have "admitFragment later part d obs ob (selected_for part d asm0) (ignored_for part d asm0) asm0 = (r, asm')"
        by (auto simp: pushWithObservation_def Let_def sel ign)
      with False s0 show thesis by (intro admit [of asm0]) (auto simp: has_room_def)
    next
      case True
      obtain b asm1 where ev: "evictIgnoredGroup None asm0 = (b, asm1)" by fastforce
      note e = evict_spec [OF s0(2) ev]
      have s1: "sheds asm asm1" using s0(1) e(1) by (rule sheds_trans)
      have key: "hm_get (as_groups asm1) (fp_key part) = hm_get (as_groups asm0) (fp_key part)" using True e(5) by simp
      show thesis
      proof (cases b)
        case False
        with True push p Ok ev have "asm' = asm1" "r = (if ignored_for part d asm0 then Ok None else Err FragmentGroupLimit)"
          by (auto simp: pushWithObservation_def Let_def ignored_for_def)
        with s1 e(2) same_group(2) [OF key, of d] show thesis by (intro rejected) (auto simp: rejection_def)
      next
        case b: True
        with True push p Ok ev key
        have "admitFragment later part d obs ob (selected_for part d asm1) (ignored_for part d asm1) asm1 = (r, asm')"
          by (auto simp: pushWithObservation_def Let_def selected_for_def ignored_for_def)
        moreover have "has_room part asm1"
          using e(3) b s0(2) by (auto simp: has_room_def asm_inv_def limits_ok_def)
        ultimately show thesis using e(2) s1 by (intro admit [of asm1])
      qed
    qed
  qed
qed

lemma stored_group [simp]:
  "hm_get (as_groups (stored now part d obs ob asm)) (fp_key part)
     = Some (extendGroup part d obs ob (new_bytes part asm) (group_for now part asm))"
  by (simp add: stored_def hm_get_insert)

lemma stored_other: "k \<noteq> fp_key part \<Longrightarrow> hm_get (as_groups (stored now part d obs ob asm)) k = hm_get (as_groups asm) k"
  by (simp add: stored_def hm_get_insert)

lemma removeGroup_fault [simp]: "as_faultObservations (removeGroup k asm) = as_faultObservations asm"
  by (simp add: removeGroup_def split: option.split)

lemma removeGroup_fault_update [simp]:
  "asm_inv (asm\<lparr>as_faultObservations := x\<rparr>) = asm_inv asm"
  by (simp add: asm_inv_def account_ok_def limits_ok_def)

lemma assembleGroup_spec:
  assumes "isComplete g"
  shows "assembleGroup g \<noteq> Panic"
    and "assembleGroup g = Ok rd \<Longrightarrow> rd_observations rd = fg_observations g"
    and "assembleGroup g = Err (e, os) \<Longrightarrow> os = fg_observations g"
  using assms
  by (auto simp: assembleGroup_def isComplete_def Let_def read_be16_def byte_at_def slice_at_def
      split: option.splits UdpFragmentDisposition.splits if_splits)

lemma store_cases:
  assumes st: "storeFragment now part d obs ob (new_bytes part asm) asm = (r, asm')"
  defines "g \<equiv> extendGroup part d obs ob (new_bytes part asm) (group_for now part asm)"
  obtains (refused) "d \<noteq> None" "fp_payloadOffset part \<noteq> 0" "r = Err DispositionOnLaterFragment"
      "asm' = asm\<lparr>as_groups := hm_insert (fp_key part) (group_for now part asm) (as_groups asm)\<rparr>"
    | (waiting) "\<not> isComplete g" "r = Ok None" "asm' = stored now part d obs ob asm"
    | (complete) rd where "isComplete g" "assembleGroup g = Ok rd" "r = Ok (Some rd)"
        "asm' = removeGroup (fp_key part) (stored now part d obs ob asm)"
    | (faulty) e os where "isComplete g" "assembleGroup g = Err (e, os)" "r = Err e"
        "asm' = (removeGroup (fp_key part) (stored now part d obs ob asm))
           \<lparr>as_faultObservations := as_faultObservations asm @ fg_observations g\<rparr>"
proof -
  have sto: "stored now part d obs ob asm = asm\<lparr>as_groups := hm_insert (fp_key part) g (as_groups asm),
      as_bufferedBytes := as_bufferedBytes asm + new_bytes part asm, as_bufferedObservations := as_bufferedObservations asm + 1,
      as_bufferedObservationBytes := as_bufferedObservationBytes asm + ob\<rparr>"
    by (simp add: stored_def g_def)
  have fault: "as_faultObservations (stored now part d obs ob asm) = as_faultObservations asm" by (simp add: stored_def)
  consider "d \<noteq> None \<and> fp_payloadOffset part \<noteq> 0" | "\<not> (d \<noteq> None \<and> fp_payloadOffset part \<noteq> 0)" "\<not> isComplete g"
    | "\<not> (d \<noteq> None \<and> fp_payloadOffset part \<noteq> 0)" "isComplete g" by blast
  then show thesis
  proof cases
    case 1
    with st show thesis by (intro refused) (simp_all add: storeFragment_def Let_def group_for_def)
  next
    case 2
    with st show thesis
      by (intro waiting) (simp_all add: storeFragment_def Let_def group_for_def g_def stored_def split: if_splits)
  next
    case 3
    note spec = assembleGroup_spec [OF 3(2)]
    have res: "(r, asm') = (case assembleGroup g of Ok rd \<Rightarrow> (Ok (Some rd), removeGroup (fp_key part) (stored now part d obs ob asm))
        | Err (e, os) \<Rightarrow> (Err e, (removeGroup (fp_key part) (stored now part d obs ob asm))\<lparr>as_faultObservations := as_faultObservations asm @ os\<rparr>)
        | Panic \<Rightarrow> (Panic, removeGroup (fp_key part) (stored now part d obs ob asm)))"
      using st 3 unfolding storeFragment_def Let_def group_for_def [symmetric] g_def [symmetric] sto [symmetric]
      by (auto simp: fault split: if_splits outcome.splits prod.splits)
    show thesis
    proof (cases "assembleGroup g")
      case Panic
      with spec show thesis by simp
    next
      case (Err x)
      then obtain e os where "assembleGroup g = Err (e, os)" by (cases x) auto
      with res spec(3) 3 show thesis by (intro faulty [of e os]) auto
    next
      case (Ok rd)
      with res 3 show thesis by (intro complete [of rd]) auto
    qed
  qed
qed

lemma refused_inv:
  assumes inv: "asm_inv asm" and room: "has_room part asm" and nc: "conflict part asm = None"
  shows "asm_inv (asm\<lparr>as_groups := hm_insert (fp_key part) (group_for now part asm) (as_groups asm)\<rparr>)"
proof -
  have wf: "hm_wf (as_groups asm)" using inv by (simp add: asm_inv_def)
  have same: "total w (hm_insert (fp_key part) (group_for now part asm) (as_groups asm)) = total w (as_groups asm)"
    if "w (newGroup (now + fragmentLifetime (fp_key part) asm)) = 0" for w :: "'a FragmentGroup \<Rightarrow> nat"
    using total_remove [OF wf, of w "fp_key part"] weight_group_for [of w now part asm, OF that]
    by (simp add: total_insert [OF wf])
  have "account_ok (asm\<lparr>as_groups := hm_insert (fp_key part) (group_for now part asm) (as_groups asm)\<rparr>)"
    using inv same [of "\<lambda>g. pieces_size (fg_pieces g)"] same [of "\<lambda>g. length (fg_observations g)"] same [of fg_observationBytes]
    by (simp add: asm_inv_def account_ok_def newGroup_def pieces_size_def)
  with inv room group_for_pieces(1) [OF inv nc, of now] show ?thesis
    by (auto simp: asm_inv_def limits_ok_def has_room_def hm_get_insert length_hm_insert hm_contains_def split: if_splits)
qed

lemma push_inv:
  assumes inv: "asm_inv asm" and push: "pushWithObservation now later part d obs ob asm = (r, asm')"
  shows "asm_inv asm'" and "r \<noteq> Panic"
proof -
  from inv push have "asm_inv asm' \<and> r \<noteq> Panic"
  proof (cases rule: push_cases)
    case timeout
    with inv show ?thesis by simp
  next
    case rejected
    then show ?thesis by (auto simp: rejection_def split: if_splits)
  next
    case (conflicting mid detail)
    then show ?thesis by (auto simp: removeGroup_inv split: if_splits)
  next
    case (store mid)
    have sinv: "asm_inv (stored later part d obs ob mid)"
      using store by (intro stored_inv) (auto simp: has_room_def)
    from store(7) [symmetric] show ?thesis
    proof (cases rule: store_cases)
      case refused
      then show ?thesis using refused_inv [OF store(2,4,3)] by simp
    qed (use sinv in \<open>auto simp: removeGroup_inv\<close>)
  qed
  then show "asm_inv asm'" and "r \<noteq> Panic" by blast+
qed

section \<open>Reachable assemblers\<close>

text \<open>
  Pushes and polls in any order. Draining is not a step: it empties the observations without touching the counters,
  and the code drains an assembler only before it is discarded.
\<close>

inductive asm_step :: "'o UdpFragmentAssembler \<Rightarrow> 'o UdpFragmentAssembler \<Rightarrow> bool" where
  step_push: "asm_step asm (snd (pushWithObservation now later part d obs ob asm))"
| step_poll: "asm_step asm (snd (pollExpired now asm))"

definition asm_init :: "'o UdpFragmentAssembler \<Rightarrow> bool" where
  "asm_init asm \<longleftrightarrow> (\<exists>lifetime. asm = UdpFragmentAssembler_default\<lparr>as_fragmentLifetimeOverride := lifetime\<rparr>)"

lemma asm_init_inv: "asm_init asm \<Longrightarrow> asm_inv asm"
  by (auto simp: asm_init_def UdpFragmentAssembler_default_def asm_inv_def account_ok_def limits_ok_def total_def)

lemma asm_step_inv: "asm_step asm asm' \<Longrightarrow> asm_inv asm \<Longrightarrow> asm_inv asm'"
  by (cases rule: asm_step.cases, assumption)
    (metis prod.collapse push_inv(1), metis pollExpired_def prod.collapse pruneExpired_spec(2))

interpretation assemblers: safe_system asm_init asm_step asm_inv
  by unfold_locales (auto intro: asm_init_inv asm_step_inv)

abbreviation reachable_assembler :: "'o UdpFragmentAssembler \<Rightarrow> bool" where
  "reachable_assembler \<equiv> reach asm_init asm_step"

text \<open>
  C15: in every reachable assembler the three running counters equal what is really buffered (bytes
  of the stored pieces, captured packets, bytes of the captured packets), so no subtraction of the
  accounting underflows, and the buffers stay within 1024 groups, 64 MiB of pieces, 8192 packets
  and 64 MiB of packets. A push never panics.
\<close>

theorem fragment_accounting:
  assumes "reachable_assembler asm"
  shows "as_bufferedBytes asm = sum_list (map (\<lambda>e. sum_list (map (length \<circ> snd) (fg_pieces (snd e)))) (as_groups asm))
    \<and> as_bufferedObservations asm = sum_list (map (\<lambda>e. length (fg_observations (snd e))) (as_groups asm))
    \<and> as_bufferedObservationBytes asm = sum_list (map (\<lambda>e. fg_observationBytes (snd e)) (as_groups asm))
    \<and> length (as_groups asm) \<le> 1024 \<and> as_bufferedBytes asm \<le> 67108864
    \<and> as_bufferedObservations asm \<le> 8192 \<and> as_bufferedObservationBytes asm \<le> 67108864
    \<and> fst (pushWithObservation now later part d obs ob asm) \<noteq> Panic"
proof -
  have inv: "asm_inv asm" using assms by (rule assemblers.reach_inv)
  moreover have "fst (pushWithObservation now later part d obs ob asm) \<noteq> Panic"
    using push_inv(2) [OF inv] by (metis prod.collapse)
  ultimately show ?thesis
    by (simp add: asm_inv_def account_ok_def limits_ok_def total_def comp_def pieces_size_def
        maximumFragmentGroups_def maximumBufferedFragmentBytes_def
        maximumBufferedFragmentObservations_def maximumBufferedObservationBytes_def)
qed

definition sample_part :: "nat \<Rightarrow> bool \<Rightarrow> bytes \<Rightarrow> UdpFragmentPart" where
  "sample_part offset mf payload = \<lparr>fp_key = \<lparr>ufk_sourceAddress = V4 (Ipv4Addr 192 0 2 10),
       ufk_destinationAddress = V4 (Ipv4Addr 198 51 100 10), ufk_identification = 7, ufk_outbound = True\<rparr>,
     fp_payloadOffset = offset, fp_moreFragments = mf, fp_fragmentPayload = payload, fp_packetBytes = 28,
     fp_sourcePort = None, fp_destinationPort = None, fp_udpHeaderOffset = (if offset = 0 then Some 0 else None),
     fp_packetPayloadOffset = 20\<rparr>"

definition sample_disposition :: UdpFragmentDisposition where
  "sample_disposition = Selected \<lparr>ot_processId = 700, ot_address = SocketAddrV4 (Ipv4Addr 198 51 100 10) 53\<rparr> Up
     (SocketAddrV4 (Ipv4Addr 192 0 2 10) 40000) 5"

text \<open>The first of two fragments of a datagram with the UDP length twelve: eight header bytes.\<close>

definition waiting_assembler :: "nat UdpFragmentAssembler" where
  "waiting_assembler = snd (pushWithObservation 0 0 (sample_part 0 True [156, 64, 0, 53, 0, 12, 0, 0])
     (Some sample_disposition) 1 28 UdpFragmentAssembler_default)"

lemma reachable_waiting: "reachable_assembler waiting_assembler"
  unfolding waiting_assembler_def
  by (rule reach_step, rule reach_init [of asm_init UdpFragmentAssembler_default])
    (auto simp: asm_init_def UdpFragmentAssembler_default_def intro: step_push)

theorem fragment_accounting_witness: "as_bufferedBytes waiting_assembler \<le> 67108864"
  using fragment_accounting [OF reachable_waiting] by blast

section \<open>Selected datagrams are not lost\<close>

lemma selected_not_ignored: "is_selected (fg_disposition g) \<Longrightarrow> \<not> is_ignored g"
  by (auto simp: is_selected_def is_ignored_def)

lemma group_for_existing: "hm_get (as_groups asm) (fp_key part) = Some g \<Longrightarrow> group_for now part asm = g"
  by (simp add: group_for_def hm_entry_or_def)

lemma push_other_group:
  assumes inv: "asm_inv asm" and push: "pushWithObservation now later part d obs ob asm = (r, asm')"
    and g: "hm_get (as_groups asm) k = Some g" "\<not> is_ignored g" and k: "k \<noteq> fp_key part"
  shows "hm_get (as_groups asm') k = Some g"
  using inv push
proof (cases rule: push_cases)
  case timeout
  with g show ?thesis by simp
next
  case rejected
  with g show ?thesis by (blast intro: sheds_required)
next
  case (conflicting mid detail)
  have "hm_get (as_groups mid) k = Some g" using conflicting(1) g by (rule sheds_required)
  with conflicting(4) k show ?thesis by (auto simp: removeGroup_get split: if_splits)
next
  case (store mid)
  have "hm_get (as_groups mid) k = Some g" using store(1) g by (rule sheds_required)
  with k have "hm_get (as_groups (stored later part d obs ob mid)) k = Some g" by (simp add: stored_other)
  with store(7) [symmetric] k \<open>hm_get (as_groups mid) k = Some g\<close> show ?thesis
    by (cases rule: store_cases) (auto simp: removeGroup_get hm_get_insert)
qed

text \<open>The packets that wait with the group of a key.\<close>

definition pending_at :: "UdpFragmentKey \<Rightarrow> 'o UdpFragmentAssembler \<Rightarrow> 'o list" where
  "pending_at key asm = (case hm_get (as_groups asm) key of None \<Rightarrow> [] | Some g \<Rightarrow> fg_observations g)"

lemma group_for_pending: "fg_observations (group_for now part asm) = pending_at (fp_key part) asm"
  by (simp add: group_for_def pending_at_def hm_entry_or_def newGroup_def split: option.split)

lemma sheds_own:
  assumes "sheds asm mid" and "\<forall>g. hm_get (as_groups asm) (fp_key part) = Some g \<longrightarrow> \<not> is_ignored g"
  shows "hm_get (as_groups mid) (fp_key part) = hm_get (as_groups asm) (fp_key part)"
    and "pending_at (fp_key part) mid = pending_at (fp_key part) asm"
    and "conflict part mid = conflict part asm" and "as_faultObservations mid = as_faultObservations asm"
proof -
  show same: "hm_get (as_groups mid) (fp_key part) = hm_get (as_groups asm) (fp_key part)"
    using assms unfolding sheds_def by metis
  show "pending_at (fp_key part) mid = pending_at (fp_key part) asm" "conflict part mid = conflict part asm"
    by (simp_all add: pending_at_def conflict_def same)
  show "as_faultObservations mid = as_faultObservations asm" using assms(1) by (simp add: sheds_def)
qed

lemma push_own_group:
  assumes inv: "asm_inv asm" and push: "pushWithObservation now later part d obs ob asm = (r, asm')"
    and own: "\<forall>g. hm_get (as_groups asm) (fp_key part) = Some g \<longrightarrow> \<not> is_ignored g" and d: "d \<noteq> Some Ignored"
  shows "case r of
      Panic \<Rightarrow> False
    | Err e \<Rightarrow>
        (\<forall>g. hm_get (as_groups asm) (fp_key part) = Some g \<longrightarrow> hm_get (as_groups asm') (fp_key part) = Some g)
          \<and> pending_at (fp_key part) asm' = pending_at (fp_key part) asm \<and> as_faultObservations asm' = as_faultObservations asm
        \<or> as_faultObservations asm' = as_faultObservations asm @ pending_at (fp_key part) asm @ [obs]
    | Ok None \<Rightarrow> as_faultObservations asm' = as_faultObservations asm
        \<and> (pending_at (fp_key part) asm' = pending_at (fp_key part) asm @ [obs]
           \<or> \<not> selected_for part d asm \<and> conflict part asm \<noteq> None)
    | Ok (Some rd) \<Rightarrow> as_faultObservations asm' = as_faultObservations asm
        \<and> rd_observations rd = pending_at (fp_key part) asm @ [obs]"
  using inv push
proof (cases rule: push_cases)
  case timeout
  then show ?thesis by simp
next
  case rejected
  note same = sheds_own [OF rejected(1) own]
  have "\<not> ignored_for part d asm'" using same(1) own d by (auto simp: ignored_for_def)
  with rejected(3) same show ?thesis by (auto simp: rejection_def)
next
  case (conflicting mid detail)
  note same = sheds_own [OF conflicting(1) own]
  have "selected_for part d mid = selected_for part d asm" by (rule same_group(1) [OF same(1)])
  with conflicting(3,4) same show ?thesis by (auto split: if_splits)
next
  case (store mid)
  note same = sheds_own [OF store(1) own]
  note pending = group_for_pending [of later part mid, unfolded same(2)]
  from store(7) [symmetric] show ?thesis
  proof (cases rule: store_cases)
    case refused
    have "hm_get (as_groups asm') (fp_key part) = Some g" if "hm_get (as_groups asm) (fp_key part) = Some g" for g
      using that refused(4) same(1) group_for_existing [of mid part g later] by (simp add: hm_get_insert)
    moreover have "pending_at (fp_key part) asm' = pending_at (fp_key part) asm"
      unfolding pending [symmetric] refused(4) by (simp add: pending_at_def hm_get_insert)
    ultimately show ?thesis using refused(3,4) same(4) by simp
  next
    case waiting
    then have "pending_at (fp_key part) asm' = pending_at (fp_key part) asm @ [obs]"
      unfolding pending [symmetric] by (simp add: pending_at_def extendGroup_fields)
    then show ?thesis using waiting same(4) by (simp add: stored_def)
  next
    case (complete rd)
    with assembleGroup_spec(2) [OF complete(1,2)] pending same(4) show ?thesis by (simp add: extendGroup_fields stored_def)
  next
    case (faulty e os)
    then show ?thesis using pending same(4) by (simp add: extendGroup_fields)
  qed
qed

lemma drained_set:
  "hm_wf (as_groups asm) \<Longrightarrow> set (fst (drainPendingObservations asm)) =
     set (as_faultObservations asm) \<union> (\<Union>g \<in> {g. \<exists>k. hm_get (as_groups asm) k = Some g}. set (fg_observations g))"
  by (force simp: drainPendingObservations_def hm_in_set [symmetric])

lemma pollExpired_keeps:
  assumes "asm_inv asm"
  shows "hm_get (as_groups asm) k = Some g \<Longrightarrow> \<not> is_ignored g \<Longrightarrow> hm_get (as_groups (snd (pollExpired now asm))) k = Some g"
    and "as_faultObservations (snd (pollExpired now asm)) = as_faultObservations asm"
proof -
  have "sheds asm (snd (pollExpired now asm))"
    unfolding pollExpired_def by (rule pruneExpired_spec(1) [OF assms]) (rule prod.collapse [symmetric])
  then show "hm_get (as_groups asm) k = Some g \<Longrightarrow> \<not> is_ignored g \<Longrightarrow> hm_get (as_groups (snd (pollExpired now asm))) k = Some g"
    and "as_faultObservations (snd (pollExpired now asm)) = as_faultObservations asm"
    by (auto intro: sheds_required) (simp add: sheds_def)
qed

lemma finish_Ok_iff:
  assumes "hm_wf (as_groups asm)"
  shows "finish asm = Ok () \<longleftrightarrow> (\<forall>k g. hm_get (as_groups asm) k = Some g \<longrightarrow> is_ignored g)"
proof -
  have "finish asm = Ok () \<longleftrightarrow> (\<forall>e \<in> set (as_groups asm). is_ignored (snd e))"
    by (auto simp: finish_def Let_def filter_empty_conv)
  then show ?thesis using hm_in_set [OF assms] by (metis prod.collapse snd_conv)
qed

text \<open>
  C16: no captured packet that may belong to a selected process is lost silently. A push never touches the
  groups of other datagrams unless they are ignored ones. When its own datagram is not ignored, whether it is
  already attributed or not, the packet is kept behind the packets of its group, or returned behind them with the
  completed datagram, or set aside behind them when the datagram is malformed; every other outcome is an error
  that leaves the group and the packets set aside as they were. The one exception is a fragment that contradicts
  its group while nothing says yet that the datagram is selected: then the group is dropped. Polling drops ignored groups
  only, the final check passes exactly when only ignored groups are left, and draining hands out all packets that
  are still pending or set aside.
\<close>

theorem selected_fragments_kept:
  assumes "reachable_assembler asm" and push: "pushWithObservation now later part d obs ob asm = (r, asm')"
  shows "(\<forall>k g. k \<noteq> fp_key part \<and> hm_get (as_groups asm) k = Some g \<and> \<not> is_ignored g \<longrightarrow> hm_get (as_groups asm') k = Some g)
    \<and> ((\<forall>g. hm_get (as_groups asm) (fp_key part) = Some g \<longrightarrow> \<not> is_ignored g) \<and> d \<noteq> Some Ignored \<longrightarrow>
        (case r of
           Panic \<Rightarrow> False
         | Err e \<Rightarrow>
             (\<forall>g. hm_get (as_groups asm) (fp_key part) = Some g \<longrightarrow> hm_get (as_groups asm') (fp_key part) = Some g)
               \<and> pending_at (fp_key part) asm' = pending_at (fp_key part) asm \<and> as_faultObservations asm' = as_faultObservations asm
             \<or> as_faultObservations asm' = as_faultObservations asm @ pending_at (fp_key part) asm @ [obs]
         | Ok None \<Rightarrow> as_faultObservations asm' = as_faultObservations asm
             \<and> (pending_at (fp_key part) asm' = pending_at (fp_key part) asm @ [obs]
                \<or> \<not> selected_for part d asm \<and> conflict part asm \<noteq> None)
         | Ok (Some rd) \<Rightarrow> as_faultObservations asm' = as_faultObservations asm
             \<and> rd_observations rd = pending_at (fp_key part) asm @ [obs]))
    \<and> (\<forall>k g. hm_get (as_groups asm) k = Some g \<and> \<not> is_ignored g \<longrightarrow> hm_get (as_groups (snd (pollExpired now asm))) k = Some g)
    \<and> as_faultObservations (snd (pollExpired now asm)) = as_faultObservations asm
    \<and> (finish asm = Ok () \<longleftrightarrow> (\<forall>k g. hm_get (as_groups asm) k = Some g \<longrightarrow> is_ignored g))
    \<and> set (fst (drainPendingObservations asm)) = set (as_faultObservations asm) \<union> (\<Union>k. set (pending_at k asm))"
proof -
  have inv: "asm_inv asm" using assms(1) by (rule assemblers.reach_inv)
  then have wf: "hm_wf (as_groups asm)" by (simp add: asm_inv_def)
  have "(\<Union>g \<in> {g. \<exists>k. hm_get (as_groups asm) k = Some g}. set (fg_observations g)) = (\<Union>k. set (pending_at k asm))"
  proof (intro equalityI subsetI)
    fix x assume "x \<in> (\<Union>g \<in> {g. \<exists>k. hm_get (as_groups asm) k = Some g}. set (fg_observations g))"
    then obtain k g where "hm_get (as_groups asm) k = Some g" "x \<in> set (fg_observations g)" by blast
    then have "x \<in> set (pending_at k asm)" by (simp add: pending_at_def)
    then show "x \<in> (\<Union>k. set (pending_at k asm))" by blast
  next
    fix x assume "x \<in> (\<Union>k. set (pending_at k asm))"
    then obtain k where "x \<in> set (pending_at k asm)" by blast
    then obtain g where "hm_get (as_groups asm) k = Some g" "x \<in> set (fg_observations g)"
      by (cases "hm_get (as_groups asm) k") (auto simp: pending_at_def)
    then show "x \<in> (\<Union>g \<in> {g. \<exists>k. hm_get (as_groups asm) k = Some g}. set (fg_observations g))" by blast
  qed
  with drained_set [OF wf] have drained: "set (fst (drainPendingObservations asm)) = set (as_faultObservations asm) \<union> (\<Union>k. set (pending_at k asm))"
    by simp
  note own = push_own_group [OF inv push]
  have others: "hm_get (as_groups asm') k = Some g"
    if "k \<noteq> fp_key part \<and> hm_get (as_groups asm) k = Some g \<and> \<not> is_ignored g" for k g
    using push_other_group [OF inv push] that by blast
  have polled: "hm_get (as_groups (snd (pollExpired now asm))) k = Some g"
    if "hm_get (as_groups asm) k = Some g \<and> \<not> is_ignored g" for k g
    using pollExpired_keeps(1) [OF inv] that by blast
  show ?thesis
    by (intro conjI allI impI, rule others, assumption, rule own, erule conjunct1, erule conjunct2, rule polled, assumption,
        rule pollExpired_keeps(2) [OF inv], rule finish_Ok_iff [OF wf], rule drained)
qed

lemma waiting_group:
  "hm_get (as_groups waiting_assembler) (fp_key (sample_part offset mf payload)) = Some
     \<lparr>fg_pieces = [(0, [156, 64, 0, 53, 0, 12, 0, 0])], fg_finalLength = None, fg_disposition = Some sample_disposition,
      fg_udpHeaderOffset = Some 0, fg_packetCount = 1, fg_packetBytes = 28, fg_expiresAt = 60000000000,
      fg_observations = [1], fg_observationBytes = 28\<rparr>"
  by (simp add: waiting_assembler_def sample_part_def UdpFragmentAssembler_default_def pushWithObservation_def
      pruneExpired_def admitFragment_def makeRoom.simps bytes_full_def observations_full_def new_bytes_def
      storeFragment_def extendGroup_def newGroup_def isComplete_def fragmentLifetime_def ipv4FragmentLifetime_def
      conflict_def hm_entry_or_def Let_def hm_get_insert maximumFragmentGroups_def maximumBufferedFragmentBytes_def
      maximumBufferedFragmentObservations_def maximumBufferedObservationBytes_def)

lemma waiting_pending: "pending_at (fp_key (sample_part offset mf payload)) waiting_assembler = [1]"
  by (simp add: pending_at_def waiting_group)

text \<open>A later fragment waits behind the first one.\<close>

theorem selected_fragments_kept_witness:
  "case pushWithObservation 1 1 (sample_part 16 False [9, 8, 7, 6]) None 2 28 waiting_assembler of
     (r, asm') \<Rightarrow> r = Ok None \<and> pending_at (fp_key (sample_part 16 False [9, 8, 7, 6])) asm' = [1, 2]"
proof -
  let ?part = "sample_part 16 False [9, 8, 7, 6]"
  obtain r asm' where push: "pushWithObservation 1 1 ?part None 2 28 waiting_assembler = (r, asm')" by fastforce
  have "fst (pushWithObservation 1 1 ?part None 2 28 waiting_assembler) = Ok None"
    by (simp add: waiting_assembler_def sample_part_def UdpFragmentAssembler_default_def pushWithObservation_def
      pruneExpired_def admitFragment_def makeRoom.simps bytes_full_def observations_full_def new_bytes_def
      storeFragment_def extendGroup_def newGroup_def isComplete_def fragmentLifetime_def ipv4FragmentLifetime_def
      is_selected_def sample_disposition_def is_ignored_def hm_insert_def hm_get_def
      conflict_def hm_entry_or_def Let_def maximumFragmentGroups_def maximumBufferedFragmentBytes_def
      maximumBufferedFragmentObservations_def maximumBufferedObservationBytes_def)
  then have r: "r = Ok None" using push by simp
  have selected: "selected_for ?part None waiting_assembler"
    "\<forall>g. hm_get (as_groups waiting_assembler) (fp_key ?part) = Some g \<longrightarrow> \<not> is_ignored g"
    by (simp_all add: selected_for_def waiting_group is_selected_def is_ignored_def sample_disposition_def)
  have "pending_at (fp_key ?part) asm' = [1] @ [2]"
    using conjunct1 [OF conjunct2 [OF selected_fragments_kept [OF reachable_waiting push]]] selected
    unfolding waiting_pending r by simp
  then show ?thesis using push r by simp
qed

section \<open>Errors do not keep the current packet\<close>

lemma sheds_drained:
  assumes "asm_inv asm" "asm_inv asm'" "sheds asm asm'"
  shows "set (fst (drainPendingObservations asm')) \<subseteq> set (fst (drainPendingObservations asm))"
proof -
  have wf: "hm_wf (as_groups asm)" "hm_wf (as_groups asm')" using assms by (simp_all add: asm_inv_def)
  have "hm_get (as_groups asm') k = Some g \<Longrightarrow> hm_get (as_groups asm) k = Some g" for k g
    using assms(3) unfolding sheds_def by (metis option.distinct(1))
  with assms(3) show ?thesis unfolding drained_set [OF wf(1)] drained_set [OF wf(2)] by (auto simp: sheds_def)
qed

text \<open>
  C17: an error of the budgets, of a conflicting fragment or of a timeout does not retain the packet
  that was being pushed: everything the assembler would hand back afterwards was already pending
  before the call. The caller alone still holds that packet.
\<close>

theorem push_error_keeps_no_copy:
  assumes "reachable_assembler asm" and push: "pushWithObservation now later part d obs ob asm = (Err e, asm')"
    and "e \<in> {FragmentGroupLimit, FragmentBytesLimit, ObservationLimit, ConflictingOverlap, ConflictingFinalLength, FragmentTimeout}"
  shows "set (fst (drainPendingObservations asm')) \<subseteq> set (fst (drainPendingObservations asm))"
proof -
  have inv: "asm_inv asm" using assms(1) by (rule assemblers.reach_inv)
  from inv push show ?thesis
  proof (cases rule: push_cases)
    case timeout
    then show ?thesis by simp
  next
    case rejected
    show ?thesis by (rule sheds_drained [OF inv rejected(2,1)])
  next
    case (conflicting mid detail)
    then have "asm' = mid" by (auto split: if_splits)
    with sheds_drained [OF inv conflicting(2,1)] show ?thesis by simp
  next
    case (store mid)
    from store(7) [symmetric] show ?thesis
    proof (cases rule: store_cases)
      case (faulty e' os)
      then have "e' \<in> {MissingUdpOffset, ShortReassembledUdp, UdpLengthOutOfRange}"
        by (auto simp: assembleGroup_def Let_def read_be16_def byte_at_def slice_at_def
            split: option.splits UdpFragmentDisposition.splits if_splits)
      with faulty(3) assms(3) show ?thesis by auto
    qed (use assms(3) in auto)
  qed
qed

lemma overlapping_push:
  "\<exists>asm'. pushWithObservation 1 1 (sample_part 0 True [0, 0, 0, 0, 0, 0, 0, 0]) None 2 28 waiting_assembler = (Err ConflictingOverlap, asm')"
  by (simp add: waiting_assembler_def sample_part_def UdpFragmentAssembler_default_def pushWithObservation_def
      pruneExpired_def admitFragment_def makeRoom.simps bytes_full_def observations_full_def new_bytes_def
      storeFragment_def extendGroup_def newGroup_def isComplete_def fragmentLifetime_def ipv4FragmentLifetime_def
      is_selected_def sample_disposition_def is_ignored_def hm_insert_def hm_get_def
      conflict_def hm_entry_or_def Let_def maximumFragmentGroups_def maximumBufferedFragmentBytes_def
      maximumBufferedFragmentObservations_def maximumBufferedObservationBytes_def)

theorem push_error_keeps_no_copy_witness:
  "\<exists>asm'. pushWithObservation 1 1 (sample_part 0 True [0, 0, 0, 0, 0, 0, 0, 0]) None 2 28 waiting_assembler = (Err ConflictingOverlap, asm')
     \<and> set (fst (drainPendingObservations asm')) \<subseteq> set (fst (drainPendingObservations waiting_assembler))"
  using overlapping_push push_error_keeps_no_copy [OF reachable_waiting] by blast

section \<open>Reassembly\<close>

definition slices_of :: "bytes \<Rightarrow> (nat \<times> bytes) list \<Rightarrow> bool" where
  "slices_of D ps \<longleftrightarrow> (\<forall>p \<in> set ps. fst p + length (snd p) \<le> length D \<and> snd p = subslice (fst p) (fst p + length (snd p)) D)"

definition covers :: "nat \<Rightarrow> bytes \<Rightarrow> (nat \<times> bytes) list \<Rightarrow> bool" where
  "covers n D ps \<longleftrightarrow> (\<forall>i. n \<le> i \<longrightarrow> i < length D \<longrightarrow> (\<exists>p \<in> set ps. fst p \<le> i \<and> i < fst p + length (snd p)))"

lemma subslice_all [simp]: "subslice 0 (length D) D = D"
  by (simp add: subslice_def)

lemma subslice_empty [simp]: "subslice i i D = []"
  by (simp add: subslice_def)

lemma piecesEnd_concat:
  "piecesEnd n ps = Some m \<Longrightarrow> slices_of D ps \<Longrightarrow> n \<le> length D \<Longrightarrow> n \<le> m \<and> m \<le> length D \<and> concat (map snd ps) = subslice n m D"
proof (induction n ps rule: piecesEnd.induct)
  case (2 n off c ps)
  then have off: "off = n" "piecesEnd (n + length c) ps = Some m" "n + length c \<le> length D"
    "c = subslice n (n + length c) D" "slices_of D ps" by (auto simp: slices_of_def split: if_splits)
  with 2 have "n + length c \<le> m \<and> m \<le> length D \<and> concat (map snd ps) = subslice (n + length c) m D" by simp
  with off subslice_append [of n "n + length c" m D] show ?case by simp
qed simp

lemma piecesEnd_complete:
  assumes "bt_wf ps" "disjoint_pieces ps" "\<forall>p \<in> set ps. snd p \<noteq> []" "slices_of D ps" "covers n D ps"
    and "\<forall>p \<in> set ps. n \<le> fst p" "n \<le> length D"
  shows "piecesEnd n ps = Some (length D)"
  using assms
proof (induction ps arbitrary: n)
  case Nil
  then have "\<not> n < length D" by (auto simp: covers_def)
  with Nil show ?case by simp
next
  case (Cons p ps)
  obtain off c where p: "p = (off, c)" by fastforce
  have c: "c \<noteq> []" "off + length c \<le> length D" "n \<le> off" using Cons.prems by (auto simp: p slices_of_def)
  then have "0 < length c" by simp
  with c have "n < length D" by linarith
  then obtain q where q: "q \<in> set (p # ps)" "fst q \<le> n"
    using Cons.prems(5) [unfolded covers_def, rule_format, OF order_refl] by blast
  moreover have "off \<le> fst q"
    using q(1) Cons.prems(1) by (cases "q = p") (auto simp: p bt_wf_def less_imp_le)
  ultimately have off: "off = n" using c by simp
  have after: "n + length c \<le> fst q" if "q \<in> set ps" for q
  proof -
    have "off < fst q" using that Cons.prems(1) by (auto simp: p bt_wf_def)
    then show ?thesis
      using Cons.prems(2) that unfolding disjoint_pieces_def p off [symmetric]
      by (metis list.set_intros(1,2) prod.collapse)
  qed
  have "covers (n + length c) D ps"
    unfolding covers_def
  proof (intro allI impI)
    fix i assume i: "n + length c \<le> i" "i < length D"
    then obtain q where "q \<in> set (p # ps)" "fst q \<le> i" "i < fst q + length (snd q)"
      using Cons.prems(5) unfolding covers_def by (metis add_leD1)
    with i show "\<exists>q \<in> set ps. fst q \<le> i \<and> i < fst q + length (snd q)" by (auto simp: p off)
  qed
  moreover have "bt_wf ps" "disjoint_pieces ps" "slices_of D ps" "\<forall>p \<in> set ps. snd p \<noteq> []"
    using Cons.prems by (auto simp: bt_wf_def disjoint_pieces_def slices_of_def)
  ultimately have "piecesEnd (n + length c) ps = Some (length D)"
    using after c off by (intro Cons.IH) auto
  then show ?case by (simp add: p off)
qed

definition udp_payload :: "bytes \<Rightarrow> nat \<Rightarrow> bytes" where
  "udp_payload D off = subslice (off + 8) (off + unat (be16 (D ! (off + 4)) (D ! (off + 5)))) D"

text \<open>A fragment that meets no limit, no conflict and no expired datagram is stored.\<close>

lemma push_accepts:
  assumes inv: "asm_inv asm"
    and live: "\<And>k g. hm_get (as_groups asm) k = Some g \<Longrightarrow> \<not> is_ignored g \<Longrightarrow> now < fg_expiresAt g"
    and own: "\<And>g. hm_get (as_groups asm) (fp_key part) = Some g \<Longrightarrow> \<not> is_ignored g"
    and room: "has_room part asm" "\<not> bytes_full (new_bytes part asm) asm" "\<not> observations_full ob asm"
    and agree: "conflict part asm = None"
  obtains mid where "sheds asm mid" "asm_inv mid"
    "hm_get (as_groups mid) (fp_key part) = hm_get (as_groups asm) (fp_key part)"
    "conflict part mid = None" "has_room part mid" "\<not> bytes_full (new_bytes part mid) mid" "\<not> observations_full ob mid"
    "pushWithObservation now later part d obs ob asm = storeFragment later part d obs ob (new_bytes part mid) mid"
proof -
  obtain pr mid where p: "pruneExpired now asm = (pr, mid)" by fastforce
  note s = pruneExpired_spec [OF inv p]
  have wf: "hm_wf (as_groups asm)" using inv by (simp add: asm_inv_def)
  have "now < fg_expiresAt g" if "g \<in> set (map snd (as_groups asm))" "\<not> is_ignored g" for g
    using that live hm_in_set [OF wf] by auto
  then have "\<not> (\<exists>g \<in> set (map snd (as_groups asm)). fg_expiresAt g \<le> now \<and> \<not> is_ignored g)" by (meson not_le)
  then have ok: "pr = Ok ()" using p unfolding pruneExpired_def by (simp only: if_False) simp
  have same: "hm_get (as_groups mid) (fp_key part) = hm_get (as_groups asm) (fp_key part)"
    using s(1) own unfolding sheds_def by metis
  have nb: "new_bytes part mid = new_bytes part asm" by (rule same_group(3) [OF same])
  have agree': "conflict part mid = None" using agree unfolding conflict_def same .
  have room': "has_room part mid" "\<not> bytes_full (new_bytes part mid) mid" "\<not> observations_full ob mid"
    using room s(1) same nb by (auto simp: has_room_def bytes_full_def observations_full_def sheds_def)
  then have "pushWithObservation now later part d obs ob asm = storeFragment later part d obs ob (new_bytes part mid) mid"
    using agree' by (auto simp: pushWithObservation_def p ok has_room_def admitFragment_def Let_def makeRoom.simps)
  with s(1,2) same agree' room' show thesis by (rule that)
qed

lemma piecesEnd_covers: "piecesEnd n ps = Some m \<Longrightarrow> n \<le> i \<Longrightarrow> i < m \<Longrightarrow> \<exists>p \<in> set ps. fst p \<le> i \<and> i < fst p + length (snd p)"
proof (induction n ps rule: piecesEnd.induct)
  case (2 n off c ps)
  then have "off = n" "piecesEnd (n + length c) ps = Some m" by (auto split: if_splits)
  with 2 show ?case by (cases "i < n + length c") force+
qed simp

text \<open>The fragments of a datagram, as they arrive: each with its time, its attribution and its captured packet.\<close>

record 'o arrival =
  ar_now :: instant
  ar_later :: instant
  ar_part :: UdpFragmentPart
  ar_disposition :: "UdpFragmentDisposition option"
  ar_observation :: 'o
  ar_bytes :: nat

definition piece_of :: "'o arrival \<Rightarrow> nat \<times> bytes" where
  "piece_of x = (fp_payloadOffset (ar_part x), fp_fragmentPayload (ar_part x))"

fun push_all :: "'o arrival list \<Rightarrow> 'o UdpFragmentAssembler \<Rightarrow> 'o push_result list \<times> 'o UdpFragmentAssembler" where
  "push_all [] asm = ([], asm)"
| "push_all (x # xs) asm =
     (let (r, asm) = pushWithObservation (ar_now x) (ar_later x) (ar_part x) (ar_disposition x) (ar_observation x) (ar_bytes x) asm;
          (rs, asm) = push_all xs asm
      in (r # rs, asm))"

text \<open>
  The arrivals cut the datagram \<open>D\<close>: every one is a non-empty slice, the slice at offset zero brings
  the attribution and the offset of the UDP header, only the last slice says that none follows,
  different slices do not overlap (one may arrive again), and together they are the whole of \<open>D\<close>.
\<close>

definition fragment_of :: "bytes \<Rightarrow> nat \<Rightarrow> UdpFragmentKey \<Rightarrow> UdpFragmentDisposition \<Rightarrow> 'o arrival \<Rightarrow> bool" where
  "fragment_of D off key sel x \<longleftrightarrow>
     fp_key (ar_part x) = key \<and> snd (piece_of x) \<noteq> [] \<and> slices_of D [piece_of x]
     \<and> (fp_moreFragments (ar_part x) \<longleftrightarrow> fst (piece_of x) + length (snd (piece_of x)) \<noteq> length D)
     \<and> (if fst (piece_of x) = 0 then ar_disposition x = Some sel \<and> fp_udpHeaderOffset (ar_part x) = Some off
        else ar_disposition x = None)"

definition apart :: "nat \<times> bytes \<Rightarrow> nat \<times> bytes \<Rightarrow> bool" where
  "apart p q \<longleftrightarrow> fst p + length (snd p) \<le> fst q \<or> fst q + length (snd q) \<le> fst p"

definition cuts :: "bytes \<Rightarrow> nat \<Rightarrow> UdpFragmentKey \<Rightarrow> UdpFragmentDisposition \<Rightarrow> 'o arrival list \<Rightarrow> bool" where
  "cuts D off key sel xs \<longleftrightarrow>
     (\<forall>x \<in> set xs. fragment_of D off key sel x)
     \<and> (\<forall>x \<in> set xs. \<forall>y \<in> set xs. piece_of x = piece_of y \<or> apart (piece_of x) (piece_of y))
     \<and> covers 0 D (map piece_of xs)"

text \<open>The group after the arrivals \<open>xs\<close>, and the assembler that began as \<open>asm0\<close>.\<close>

definition gathered :: "bytes \<Rightarrow> nat \<Rightarrow> UdpFragmentDisposition \<Rightarrow> 'o arrival list \<Rightarrow> 'o FragmentGroup \<Rightarrow> bool" where
  "gathered D off sel xs g \<longleftrightarrow>
     set (fg_pieces g) = piece_of ` set xs
     \<and> fg_finalLength g = (if \<exists>x \<in> set xs. \<not> fp_moreFragments (ar_part x) then Some (length D) else None)
     \<and> fg_disposition g = (if \<exists>x \<in> set xs. fst (piece_of x) = 0 then Some sel else None)
     \<and> fg_udpHeaderOffset g = (if \<exists>x \<in> set xs. fst (piece_of x) = 0 then Some off else None)
     \<and> fg_packetCount g = of_nat (length xs)
     \<and> fg_packetBytes g = of_nat (sum_list (map (fp_packetBytes \<circ> ar_part) xs))
     \<and> fg_observations g = map ar_observation xs"

lemma gathered_new: "gathered D off sel [] (newGroup t)"
  by (simp add: gathered_def newGroup_def)

lemma gathered_extend:
  assumes g: "gathered D off sel xs g" and x: "fragment_of D off key sel x"
    and nb: "if piece_of x \<in> piece_of ` set xs then nb = 0 else nb \<noteq> 0 \<and> hm_get (fg_pieces g) (fst (piece_of x)) = None"
  shows "gathered D off sel (xs @ [x]) (extendGroup (ar_part x) (ar_disposition x) (ar_observation x) ob nb g)"
proof -
  have pieces: "set (fg_pieces (extendGroup (ar_part x) (ar_disposition x) (ar_observation x) ob nb g)) = piece_of ` set (xs @ [x])"
    using g nb by (auto simp: gathered_def extendGroup_fields piece_of_def set_bt_insert split: if_splits)
  have counts: "fg_packetCount (extendGroup (ar_part x) (ar_disposition x) (ar_observation x) ob nb g) = fg_packetCount g + 1"
    "fg_packetBytes (extendGroup (ar_part x) (ar_disposition x) (ar_observation x) ob nb g) = fg_packetBytes g + of_nat (fp_packetBytes (ar_part x))"
    by (simp_all add: extendGroup_def Let_def split: option.split)
  show ?thesis
    using g x unfolding gathered_def pieces counts
    by (auto simp: fragment_of_def extendGroup_fields piece_of_def split: if_splits)
qed

lemma gathered_complete:
  assumes g: "gathered D off sel xs g" and ok: "pieces_ok (fg_pieces g)"
    and xs: "\<forall>x \<in> set xs. fragment_of D off key sel x" and D: "D \<noteq> []"
  shows "isComplete g \<longleftrightarrow> covers 0 D (map piece_of xs)"
proof
  assume c: "isComplete g"
  with g have "piecesEnd 0 (fg_pieces g) = Some (length D)" by (auto simp: isComplete_def gathered_def split: option.splits if_splits)
  then show "covers 0 D (map piece_of xs)"
    using piecesEnd_covers [of 0 "fg_pieces g" "length D"] g by (simp add: covers_def gathered_def)
next
  assume c: "covers 0 D (map piece_of xs)"
  have sl: "slices_of D (fg_pieces g)" "covers 0 D (fg_pieces g)"
    using g xs c by (auto simp: gathered_def fragment_of_def slices_of_def covers_def)
  then have "piecesEnd 0 (fg_pieces g) = Some (length D)"
    using ok by (intro piecesEnd_complete) (auto simp: pieces_ok_def)
  moreover from c D obtain x where "x \<in> set xs" "fst (piece_of x) = 0" by (force simp: covers_def)
  moreover from c D obtain y where "y \<in> set xs" "length D - 1 < fst (piece_of y) + length (snd (piece_of y))"
    using c [unfolded covers_def, rule_format, of "length D - 1"] D by auto
  moreover from this xs have "\<not> fp_moreFragments (ar_part y)" by (auto simp: fragment_of_def slices_of_def)
  ultimately show "isComplete g" using g by (auto simp: isComplete_def gathered_def)
qed

lemma gathered_assemble:
  assumes g: "gathered D off (Selected target direction client ms) xs g" and c: "isComplete g"
    and xs: "\<forall>x \<in> set xs. fragment_of D off key (Selected target direction client ms) x"
    and udp: "off + 8 \<le> length D" "8 \<le> unat (be16 (D ! (off + 4)) (D ! (off + 5)))"
      "off + unat (be16 (D ! (off + 4)) (D ! (off + 5))) \<le> length D"
  shows "assembleGroup g = Ok
    \<lparr>rd_event = Some \<lparr>ue_processId = ot_processId target, ue_clientAddress = client, ue_targetAddress = ot_address target,
       ue_direction = direction, ue_payload = udp_payload D off, ue_capturedAtMilliseconds = ms, ue_modifications = []\<rparr>,
     rd_packetCount = of_nat (length xs), rd_packetBytes = of_nat (sum_list (map (fp_packetBytes \<circ> ar_part) xs)),
     rd_observations = map ar_observation xs\<rparr>"
proof -
  from c g have pe: "piecesEnd 0 (fg_pieces g) = Some (length D)"
    by (auto simp: isComplete_def gathered_def split: option.splits if_splits)
  have "slices_of D (fg_pieces g)" using g xs by (auto simp: gathered_def fragment_of_def slices_of_def)
  with pe piecesEnd_concat [of 0 "fg_pieces g" "length D" D] have all: "concat (map snd (fg_pieces g)) = D" by simp
  from c g have sel: "fg_disposition g = Some (Selected target direction client ms)" "fg_udpHeaderOffset g = Some off"
      "fg_finalLength g \<noteq> None"
    by (auto simp: isComplete_def gathered_def split: option.splits if_splits)
  show ?thesis
    using g sel udp by (simp add: assembleGroup_def all Let_def read_be16_def udp_payload_def byte_at_def slice_at_def
        numeral_eq_Suc gathered_def)
qed

lemma validate_apart:
  "(\<And>p. p \<in> set ps \<Longrightarrow> p = (off, c) \<or> apart (off, c) p) \<Longrightarrow> validateNoConflictingOverlap ps off c = Ok ()"
proof (induction ps off c rule: validateNoConflictingOverlap.induct)
  case (2 eo e ps off c)
  show ?case
  proof (cases "off < eo + length e \<and> eo < off + length c")
    case True
    then have "(eo, e) = (off, c)" using "2.prems" [of "(eo, e)"] by (auto simp: apart_def)
    then show ?thesis using True by simp
  next
    case False
    then show ?thesis using "2.IH" "2.prems" by auto
  qed
qed simp

definition underway :: "bytes \<Rightarrow> nat \<Rightarrow> UdpFragmentKey \<Rightarrow> UdpFragmentDisposition \<Rightarrow> 'o UdpFragmentAssembler \<Rightarrow>
    'o arrival list \<Rightarrow> 'o UdpFragmentAssembler \<Rightarrow> bool" where
  "underway D off key sel asm0 xs asm \<longleftrightarrow> asm_inv asm
     \<and> (\<forall>k g. k \<noteq> key \<and> hm_get (as_groups asm) k = Some g \<longrightarrow> hm_get (as_groups asm0) k = Some g)
     \<and> as_fragmentLifetimeOverride asm = as_fragmentLifetimeOverride asm0
     \<and> as_bufferedBytes asm \<le> as_bufferedBytes asm0 + sum_list (map (length \<circ> snd \<circ> piece_of) xs)
     \<and> as_bufferedObservations asm \<le> as_bufferedObservations asm0 + length xs
     \<and> as_bufferedObservationBytes asm \<le> as_bufferedObservationBytes asm0 + sum_list (map ar_bytes xs)
     \<and> (if xs = [] then hm_get (as_groups asm) key = None \<and> length (as_groups asm) < maximumFragmentGroups
        else \<exists>g. hm_get (as_groups asm) key = Some g \<and> gathered D off sel xs g
          \<and> fg_expiresAt g = ar_later (hd xs) + fragmentLifetime key asm0)"

text \<open>Nothing that must be kept expires while the fragments arrive, and the buffers have room for them.\<close>

definition timely :: "UdpFragmentKey \<Rightarrow> 'o UdpFragmentAssembler \<Rightarrow> 'o arrival list \<Rightarrow> bool" where
  "timely key asm0 xs \<longleftrightarrow>
     (\<forall>x \<in> set xs. \<forall>k g. hm_get (as_groups asm0) k = Some g \<and> \<not> is_ignored g \<longrightarrow> ar_now x < fg_expiresAt g)
     \<and> (\<forall>x \<in> set (tl xs). ar_now x < ar_later (hd xs) + fragmentLifetime key asm0)"

definition budgeted :: "'o UdpFragmentAssembler \<Rightarrow> 'o arrival list \<Rightarrow> bool" where
  "budgeted asm0 xs \<longleftrightarrow> length (as_groups asm0) < maximumFragmentGroups
     \<and> as_bufferedBytes asm0 + sum_list (map (length \<circ> snd \<circ> piece_of) xs) \<le> maximumBufferedFragmentBytes
     \<and> as_bufferedObservations asm0 + length xs \<le> maximumBufferedFragmentObservations
     \<and> as_bufferedObservationBytes asm0 + sum_list (map ar_bytes xs) \<le> maximumBufferedObservationBytes"

lemma gathered_not_ignored: "gathered D off sel xs g \<Longrightarrow> sel \<noteq> Ignored \<Longrightarrow> \<not> is_ignored g"
  by (auto simp: gathered_def is_ignored_def split: if_splits)

lemma underway_group:
  assumes u: "underway D off key sel asm0 xs asm" and part: "fp_key part = key"
  shows "gathered D off sel xs (group_for now part asm)" and "pieces_ok (fg_pieces (group_for now part asm))"
    and "hm_get (as_groups asm) key = Some g \<Longrightarrow> group_for now part asm = g"
proof -
  show "gathered D off sel xs (group_for now part asm)"
    using u gathered_new by (auto simp: underway_def group_for_def hm_entry_or_def part split: if_splits)
  show "pieces_ok (fg_pieces (group_for now part asm))"
    using u by (auto simp: underway_def asm_inv_def group_for_def hm_entry_or_def part newGroup_def split: option.split)
qed (simp add: group_for_def hm_entry_or_def part)

lemma underway_agrees:
  assumes u: "underway D off key sel asm0 xs asm" and x: "fragment_of D off key sel x"
    and xs: "\<forall>y \<in> set xs. piece_of x = piece_of y \<or> apart (piece_of x) (piece_of y)"
  shows "conflict (ar_part x) asm = None"
    and "if piece_of x \<in> piece_of ` set xs then new_bytes (ar_part x) asm = 0
      else new_bytes (ar_part x) asm = length (snd (piece_of x)) \<and> hm_get (fg_pieces (group_for now (ar_part x) asm)) (fst (piece_of x)) = None"
proof -
  let ?g = "group_for now (ar_part x) asm"
  have key: "fp_key (ar_part x) = key" using x by (simp add: fragment_of_def)
  note g = underway_group(1,2) [OF u key, of now]
  have pieces: "set (fg_pieces ?g) = piece_of ` set xs" using g(1) by (simp add: gathered_def)
  have valid: "validateNoConflictingOverlap (fg_pieces ?g) (fp_payloadOffset (ar_part x)) (fp_fragmentPayload (ar_part x)) = Ok ()"
    using xs pieces by (intro validate_apart) (auto simp: piece_of_def)
  have final: "fg_finalLength ?g \<in> {None, Some (length D)}" using g(1) by (simp add: gathered_def)
  show "conflict (ar_part x) asm = None"
  proof (cases "hm_get (as_groups asm) key")
    case None
    then show ?thesis by (simp add: conflict_def key)
  next
    case (Some h)
    then have "?g = h" by (rule underway_group(3) [OF u key])
    then show ?thesis using Some valid final x by (auto simp: conflict_def key fragment_of_def piece_of_def)
  qed
  have wf: "hm_wf (fg_pieces ?g)" using g(2) bt_wf_hm_wf by (auto simp: pieces_ok_def)
  have found: "hm_get (fg_pieces ?g) (fp_payloadOffset (ar_part x)) = Some (fp_fragmentPayload (ar_part x)) \<longleftrightarrow> piece_of x \<in> piece_of ` set xs"
    using hm_in_set [OF wf, of "fp_payloadOffset (ar_part x)" "fp_fragmentPayload (ar_part x)"] pieces by (simp add: piece_of_def)
  have nb: "new_bytes (ar_part x) asm = (if hm_get (fg_pieces ?g) (fp_payloadOffset (ar_part x)) = Some (fp_fragmentPayload (ar_part x))
      then 0 else length (fp_fragmentPayload (ar_part x)))"
    using underway_group(3) [OF u key] by (cases "hm_get (as_groups asm) key") (auto simp: new_bytes_def key group_for_def hm_entry_or_def newGroup_def hm_get_def)
  have "fp_fragmentPayload (ar_part x) \<noteq> []" using x by (simp add: fragment_of_def piece_of_def)
  then show "if piece_of x \<in> piece_of ` set xs then new_bytes (ar_part x) asm = 0
      else new_bytes (ar_part x) asm = length (snd (piece_of x)) \<and> hm_get (fg_pieces ?g) (fst (piece_of x)) = None"
    using nb found new_piece(1) [OF g(2) valid] by (auto simp: piece_of_def)
qed

lemma extendGroup_expires [simp]: "fg_expiresAt (extendGroup part d obs ob nb g) = fg_expiresAt g"
  by (simp add: extendGroup_def Let_def split: option.split)

lemma sheds_underway:
  assumes u: "underway D off key sel asm0 xs asm" and s: "sheds asm mid" and inv: "asm_inv mid"
    and same: "hm_get (as_groups mid) key = hm_get (as_groups asm) key"
  shows "underway D off key sel asm0 xs mid"
proof -
  have old: "hm_get (as_groups asm) k = Some g" if "hm_get (as_groups mid) k = Some g" for k g
    using that s unfolding sheds_def by (metis option.distinct(1))
  have len: "length (as_groups mid) \<le> length (as_groups asm)" "as_fragmentLifetimeOverride mid = as_fragmentLifetimeOverride asm"
    "as_bufferedBytes mid \<le> as_bufferedBytes asm" "as_bufferedObservations mid \<le> as_bufferedObservations asm"
    "as_bufferedObservationBytes mid \<le> as_bufferedObservationBytes asm"
    using s by (simp_all add: sheds_def)
  have u': "\<forall>k g. k \<noteq> key \<and> hm_get (as_groups asm) k = Some g \<longrightarrow> hm_get (as_groups asm0) k = Some g"
    "as_fragmentLifetimeOverride asm = as_fragmentLifetimeOverride asm0"
    "as_bufferedBytes asm \<le> as_bufferedBytes asm0 + sum_list (map (length \<circ> snd \<circ> piece_of) xs)"
    "as_bufferedObservations asm \<le> as_bufferedObservations asm0 + length xs"
    "as_bufferedObservationBytes asm \<le> as_bufferedObservationBytes asm0 + sum_list (map ar_bytes xs)"
    "if xs = [] then hm_get (as_groups asm) key = None \<and> length (as_groups asm) < maximumFragmentGroups
        else \<exists>g. hm_get (as_groups asm) key = Some g \<and> gathered D off sel xs g
          \<and> fg_expiresAt g = ar_later (hd xs) + fragmentLifetime key asm0"
    using u by (simp_all add: underway_def)
  have "\<forall>k g. k \<noteq> key \<and> hm_get (as_groups mid) k = Some g \<longrightarrow> hm_get (as_groups asm0) k = Some g" using u'(1) old by blast
  moreover have "if xs = [] then hm_get (as_groups mid) key = None \<and> length (as_groups mid) < maximumFragmentGroups
        else \<exists>g. hm_get (as_groups mid) key = Some g \<and> gathered D off sel xs g
          \<and> fg_expiresAt g = ar_later (hd xs) + fragmentLifetime key asm0"
    using u'(6) len(1) unfolding same by (simp split: if_splits)
  moreover have "as_bufferedBytes mid \<le> as_bufferedBytes asm0 + sum_list (map (length \<circ> snd \<circ> piece_of) xs)"
    "as_bufferedObservations mid \<le> as_bufferedObservations asm0 + length xs"
    "as_bufferedObservationBytes mid \<le> as_bufferedObservationBytes asm0 + sum_list (map ar_bytes xs)"
    using u'(3-5) len by linarith+
  moreover have "as_fragmentLifetimeOverride mid = as_fragmentLifetimeOverride asm0" using u'(2) len(2) by simp
  ultimately show ?thesis using inv unfolding underway_def by (intro conjI)
qed

lemma underway_stored:
  assumes u: "underway D off key sel asm0 xs asm" and x: "fragment_of D off key sel x"
    and xs: "\<forall>y \<in> set xs. piece_of x = piece_of y \<or> apart (piece_of x) (piece_of y)"
    and inv: "asm_inv (stored (ar_later x) (ar_part x) (ar_disposition x) (ar_observation x) (ar_bytes x) asm)"
  shows "underway D off key sel asm0 (xs @ [x]) (stored (ar_later x) (ar_part x) (ar_disposition x) (ar_observation x) (ar_bytes x) asm)"
    and "gathered D off sel (xs @ [x]) (extendGroup (ar_part x) (ar_disposition x) (ar_observation x) (ar_bytes x)
        (new_bytes (ar_part x) asm) (group_for (ar_later x) (ar_part x) asm))"
proof -
  let ?s = "stored (ar_later x) (ar_part x) (ar_disposition x) (ar_observation x) (ar_bytes x) asm"
  let ?g = "group_for (ar_later x) (ar_part x) asm"
  have key: "fp_key (ar_part x) = key" using x by (simp add: fragment_of_def)
  note nb = underway_agrees(2) [OF u x xs, of "ar_later x"]
  show g: "gathered D off sel (xs @ [x]) (extendGroup (ar_part x) (ar_disposition x) (ar_observation x) (ar_bytes x) (new_bytes (ar_part x) asm) ?g)"
    using underway_group(1) [OF u key] x nb
    by (intro gathered_extend) (auto simp: fragment_of_def split: if_splits)
  have less: "new_bytes (ar_part x) asm \<le> length (snd (piece_of x))" using nb by (auto split: if_splits)
  have expires: "fg_expiresAt ?g = ar_later (hd (xs @ [x])) + fragmentLifetime key asm0"
    using u by (auto simp: underway_def group_for_def hm_entry_or_def key newGroup_def fragmentLifetime_def split: if_splits)
  have others: "hm_get (as_groups asm0) k = Some h" if "k \<noteq> key" "hm_get (as_groups ?s) k = Some h" for k h
    using that u by (auto simp: underway_def stored_other key)
  have counters: "as_bufferedBytes ?s = as_bufferedBytes asm + new_bytes (ar_part x) asm"
    "as_bufferedObservations ?s = as_bufferedObservations asm + 1" "as_bufferedObservationBytes ?s = as_bufferedObservationBytes asm + ar_bytes x"
    "as_fragmentLifetimeOverride ?s = as_fragmentLifetimeOverride asm"
    by (simp_all add: stored_def)
  have own: "hm_get (as_groups ?s) key = Some (extendGroup (ar_part x) (ar_disposition x) (ar_observation x) (ar_bytes x) (new_bytes (ar_part x) asm) ?g)"
    unfolding key [symmetric] by (rule stored_group)
  show "underway D off key sel asm0 (xs @ [x]) ?s"
    using u inv others g expires less unfolding underway_def counters own by simp
qed

lemma underway_push:
  assumes u: "underway D off key (Selected target direction client ms) asm0 xs asm"
    and all: "\<forall>y \<in> set (xs @ [x]). fragment_of D off key (Selected target direction client ms) y"
    and xs: "\<forall>y \<in> set xs. piece_of x = piece_of y \<or> apart (piece_of x) (piece_of y)"
    and time: "timely key asm0 (xs @ [x])" and room: "budgeted asm0 (xs @ [x])" and D: "D \<noteq> []"
  defines "push \<equiv> pushWithObservation (ar_now x) (ar_later x) (ar_part x) (ar_disposition x) (ar_observation x) (ar_bytes x) asm"
  shows "if covers 0 D (map piece_of (xs @ [x]))
    then \<exists>g asm'. gathered D off (Selected target direction client ms) (xs @ [x]) g \<and> isComplete g
      \<and> (\<forall>rd. assembleGroup g = Ok rd \<longrightarrow> push = (Ok (Some rd), asm') \<and> hm_get (as_groups asm') key = None)
    else \<exists>asm'. push = (Ok None, asm') \<and> underway D off key (Selected target direction client ms) asm0 (xs @ [x]) asm'"
proof -
  let ?sel = "Selected target direction client ms"
  have x: "fragment_of D off key ?sel x" using all by simp
  then have key: "fp_key (ar_part x) = key" by (simp add: fragment_of_def)
  have inv: "asm_inv asm" using u by (simp add: underway_def)
  have own: "\<not> is_ignored g" if "hm_get (as_groups asm) (fp_key (ar_part x)) = Some g" for g
    using underway_group(1,3) [OF u key] that gathered_not_ignored [of D off ?sel xs] by (metis UdpFragmentDisposition.distinct(1) key)
  have live: "ar_now x < fg_expiresAt g" if g: "hm_get (as_groups asm) k = Some g" "\<not> is_ignored g" for k g
  proof (cases "k = key")
    case True
    then have "xs \<noteq> []" "fg_expiresAt g = ar_later (hd xs) + fragmentLifetime key asm0" using u g by (auto simp: underway_def split: if_splits)
    then show ?thesis using time by (simp add: timely_def)
  next
    case False
    then have "hm_get (as_groups asm0) k = Some g" using u g by (auto simp: underway_def)
    then show ?thesis using time g(2) by (simp add: timely_def)
  qed
  have nb: "new_bytes (ar_part x) asm \<le> length (snd (piece_of x))"
    using underway_agrees(2) [OF u x xs, of 0] by (auto split: if_splits)
  have fits: "has_room (ar_part x) asm" "\<not> bytes_full (new_bytes (ar_part x) asm) asm" "\<not> observations_full (ar_bytes x) asm"
    using u room nb by (auto simp: underway_def budgeted_def has_room_def bytes_full_def observations_full_def key split: if_splits)
  obtain mid where s: "sheds asm mid" "asm_inv mid" and same: "hm_get (as_groups mid) key = hm_get (as_groups asm) key"
    and m: "conflict (ar_part x) mid = None" "has_room (ar_part x) mid" "\<not> bytes_full (new_bytes (ar_part x) mid) mid" "\<not> observations_full (ar_bytes x) mid"
    and run: "push = storeFragment (ar_later x) (ar_part x) (ar_disposition x) (ar_observation x) (ar_bytes x) (new_bytes (ar_part x) mid) mid"
    unfolding push_def key [symmetric]
    by (rule push_accepts [OF inv live own fits underway_agrees(1) [OF u x xs]])
  have mid: "underway D off key ?sel asm0 xs mid" by (rule sheds_underway [OF u s same])
  let ?s = "stored (ar_later x) (ar_part x) (ar_disposition x) (ar_observation x) (ar_bytes x) mid"
  let ?g = "extendGroup (ar_part x) (ar_disposition x) (ar_observation x) (ar_bytes x) (new_bytes (ar_part x) mid) (group_for (ar_later x) (ar_part x) mid)"
  have sinv: "asm_inv ?s" using s(2) m by (intro stored_inv) (auto simp: has_room_def)
  note st = underway_stored [OF mid x xs sinv]
  have "pieces_ok (fg_pieces ?g)" by (rule extended_pieces(1) [OF s(2) m(1)])
  from gathered_complete [OF st(2) this all D] have whole: "isComplete ?g \<longleftrightarrow> covers 0 D (map piece_of (xs @ [x]))" .
  have d: "\<not> (ar_disposition x \<noteq> None \<and> fp_payloadOffset (ar_part x) \<noteq> 0)" using x by (simp add: fragment_of_def piece_of_def split: if_splits)
  obtain r asm' where res: "push = (r, asm')" by fastforce
  from run [unfolded res, symmetric] show ?thesis
  proof (cases rule: store_cases)
    case refused
    with d show ?thesis by simp
  next
    case waiting
    then show ?thesis using whole st(1) unfolding res by (simp only: if_False) blast
  next
    case (complete rd)
    have "hm_get (as_groups asm') key = None" using complete(4) key by (simp add: removeGroup_get)
    then show ?thesis using whole st(2) complete unfolding res by auto
  next
    case (faulty e os)
    then show ?thesis using whole st(2) unfolding res by auto
  qed
qed

lemma cuts_prefix:
  assumes cuts: "cuts D off key sel (xs @ x # ys)"
  shows "\<forall>y \<in> set (xs @ [x]). fragment_of D off key sel y" and "\<forall>y \<in> set xs. piece_of x = piece_of y \<or> apart (piece_of x) (piece_of y)"
  using cuts by (auto simp: cuts_def)

lemma timely_prefix: "timely key asm0 (xs @ x # ys) \<Longrightarrow> timely key asm0 (xs @ [x])"
  by (cases xs) (auto simp: timely_def)

lemma budgeted_prefix: "budgeted asm0 (xs @ x # ys) \<Longrightarrow> budgeted asm0 (xs @ [x])"
  by (auto simp: budgeted_def)

text \<open>A slice that differs from all others of the cut is missed when it has not arrived.\<close>

lemma cut_needs_all:
  assumes cuts: "cuts D off key sel (xs @ ys @ [z])" and last: "piece_of z \<notin> piece_of ` set (xs @ ys)"
  shows "\<not> covers 0 D (map piece_of xs)"
proof
  assume c: "covers 0 D (map piece_of xs)"
  have z: "fragment_of D off key sel z" using cuts by (simp add: cuts_def)
  then have "0 < length (snd (piece_of z))" "fst (piece_of z) + length (snd (piece_of z)) \<le> length D" by (auto simp: fragment_of_def slices_of_def)
  then have "fst (piece_of z) < length D" by linarith
  with c obtain y where y: "y \<in> set xs" "fst (piece_of y) \<le> fst (piece_of z)" "fst (piece_of z) < fst (piece_of y) + length (snd (piece_of y))"
    by (auto simp: covers_def)
  then have "piece_of y \<in> piece_of ` set (xs @ ys)" by simp
  then have "piece_of y \<noteq> piece_of z" using last by metis
  moreover have "piece_of z = piece_of y \<or> apart (piece_of z) (piece_of y)" using cuts y(1) by (simp add: cuts_def)
  ultimately have "apart (piece_of z) (piece_of y)" by simp
  with y \<open>0 < length (snd (piece_of z))\<close> show False unfolding apart_def by linarith
qed

lemma push_all_underway:
  assumes cuts: "cuts D off key (Selected target direction client ms) (xs @ ys @ [z])"
    and last: "piece_of z \<notin> piece_of ` set (xs @ ys)"
    and time: "timely key asm0 (xs @ ys @ [z])" and room: "budgeted asm0 (xs @ ys @ [z])"
    and udp: "off + 8 \<le> length D" "8 \<le> unat (be16 (D ! (off + 4)) (D ! (off + 5)))"
      "off + unat (be16 (D ! (off + 4)) (D ! (off + 5))) \<le> length D"
    and u: "underway D off key (Selected target direction client ms) asm0 xs asm"
  shows "\<exists>asm'. push_all (ys @ [z]) asm = (replicate (length ys) (Ok None) @ [Ok (Some
      \<lparr>rd_event = Some \<lparr>ue_processId = ot_processId target, ue_clientAddress = client, ue_targetAddress = ot_address target,
         ue_direction = direction, ue_payload = udp_payload D off, ue_capturedAtMilliseconds = ms, ue_modifications = []\<rparr>,
       rd_packetCount = of_nat (length (xs @ ys @ [z])), rd_packetBytes = of_nat (sum_list (map (fp_packetBytes \<circ> ar_part) (xs @ ys @ [z]))),
       rd_observations = map ar_observation (xs @ ys @ [z])\<rparr>)], asm') \<and> hm_get (as_groups asm') key = None"
  using cuts last time room u
proof (induction ys arbitrary: xs asm)
  case Nil
  have D: "D \<noteq> []" using udp(1) by auto
  note whole = cuts_prefix [of D off key "Selected target direction client ms" xs z "[]"]
  have "covers 0 D (map piece_of (xs @ [z]))" using Nil.prems(1) by (simp add: cuts_def)
  with underway_push [OF Nil.prems(5) whole _ _ D] Nil.prems obtain g asm' where
    g: "gathered D off (Selected target direction client ms) (xs @ [z]) g" "isComplete g"
    and res: "\<And>rd. assembleGroup g = Ok rd \<Longrightarrow> pushWithObservation (ar_now z) (ar_later z) (ar_part z) (ar_disposition z) (ar_observation z) (ar_bytes z) asm
        = (Ok (Some rd), asm') \<and> hm_get (as_groups asm') key = None" by auto
  have "\<forall>y \<in> set (xs @ [z]). fragment_of D off key (Selected target direction client ms) y" using Nil.prems(1) by (auto simp: cuts_def)
  from res [OF gathered_assemble [OF g this udp]] show ?case by (simp add: comp_def)
next
  case (Cons y ys)
  have D: "D \<noteq> []" using udp(1) by auto
  note cut = Cons.prems(1) [unfolded append_Cons]
  have "\<not> covers 0 D (map piece_of (xs @ [y]))"
    using cut_needs_all [of D off key "Selected target direction client ms" "xs @ [y]" ys z] Cons.prems(1,2) by simp
  with underway_push [OF Cons.prems(5) cuts_prefix [OF cut] timely_prefix budgeted_prefix D] Cons.prems(3,4) obtain mid where
    push: "pushWithObservation (ar_now y) (ar_later y) (ar_part y) (ar_disposition y) (ar_observation y) (ar_bytes y) asm = (Ok None, mid)"
    and u: "underway D off key (Selected target direction client ms) asm0 (xs @ [y]) mid" by auto
  from Cons.IH [OF _ _ _ _ u] Cons.prems show ?case by (auto simp: push)
qed

text \<open>
  C18: datagrams are reassembled. Let \<open>D\<close> be the fragmentable part of an IP datagram with its UDP header
  at \<open>off\<close> and a UDP length that fits. Its fragments arrive in any order, some possibly again, at an assembler
  in any reachable state that has no group for the datagram; the one at offset zero is attributed to a selected
  process, none arrives after the lifetime of the group or of another datagram that must be kept, and the
  buffers have room. Then every fragment is accepted, and exactly the one that completes the datagram returns it:
  the event names the target, the client and the direction of the attribution and carries exactly the UDP payload
  of \<open>D\<close>, with the packets in the order of their arrival, and nothing of the datagram is left behind.
\<close>

theorem reassembly_correct:
  assumes "reachable_assembler asm" and "hm_get (as_groups asm) key = None"
    and "cuts D off key (Selected target direction client ms) (xs @ [z])" and "piece_of z \<notin> piece_of ` set xs"
    and "timely key asm (xs @ [z])" and "budgeted asm (xs @ [z])"
    and "off + 8 \<le> length D" and "8 \<le> unat (be16 (D ! (off + 4)) (D ! (off + 5)))"
    and "off + unat (be16 (D ! (off + 4)) (D ! (off + 5))) \<le> length D"
  shows "\<exists>asm'. push_all (xs @ [z]) asm = (replicate (length xs) (Ok None) @ [Ok (Some
      \<lparr>rd_event = Some \<lparr>ue_processId = ot_processId target, ue_clientAddress = client, ue_targetAddress = ot_address target,
         ue_direction = direction, ue_payload = udp_payload D off, ue_capturedAtMilliseconds = ms, ue_modifications = []\<rparr>,
       rd_packetCount = of_nat (length (xs @ [z])), rd_packetBytes = of_nat (sum_list (map (fp_packetBytes \<circ> ar_part) (xs @ [z]))),
       rd_observations = map ar_observation (xs @ [z])\<rparr>)], asm') \<and> hm_get (as_groups asm') key = None"
proof -
  have "asm_inv asm" using assms(1) by (rule assemblers.reach_inv)
  then have "underway D off key (Selected target direction client ms) asm [] asm"
    using assms(2,6) by (simp add: underway_def budgeted_def)
  with push_all_underway [where xs = "[]" and ys = xs and z = z and ?asm0.0 = asm] assms show ?thesis by simp
qed

definition sample_arrival :: "nat \<Rightarrow> nat \<Rightarrow> bytes \<Rightarrow> UdpFragmentDisposition option \<Rightarrow> nat \<Rightarrow> nat arrival" where
  "sample_arrival now offset payload d obs = \<lparr>ar_now = now, ar_later = now, ar_part = sample_part offset (offset = 0) payload,
     ar_disposition = d, ar_observation = obs, ar_bytes = 28\<rparr>"

text \<open>Both fragments of a datagram, the last one first and twice.\<close>

theorem reassembly_correct_witness:
  "\<exists>asm'. push_all ([sample_arrival 1 8 [9, 8, 7, 6] None 1, sample_arrival 2 8 [9, 8, 7, 6] None 2]
        @ [sample_arrival 3 0 [156, 64, 0, 53, 0, 12, 0, 0] (Some sample_disposition) 3]) UdpFragmentAssembler_default
     = ([Ok None, Ok None, Ok (Some
        \<lparr>rd_event = Some \<lparr>ue_processId = 700, ue_clientAddress = SocketAddrV4 (Ipv4Addr 192 0 2 10) 40000,
           ue_targetAddress = SocketAddrV4 (Ipv4Addr 198 51 100 10) 53, ue_direction = Up, ue_payload = [9, 8, 7, 6],
           ue_capturedAtMilliseconds = 5, ue_modifications = []\<rparr>,
         rd_packetCount = 3, rd_packetBytes = 84, rd_observations = [1, 2, 3]\<rparr>)], asm')"
proof -
  let ?D = "[156, 64, 0, 53, 0, 12, 0, 0, 9, 8, 7, 6] :: bytes" and ?asm = "UdpFragmentAssembler_default :: nat UdpFragmentAssembler"
  let ?xs = "[sample_arrival 1 8 [9, 8, 7, 6] None 1, sample_arrival 2 8 [9, 8, 7, 6] None 2]"
  let ?z = "sample_arrival 3 0 [156, 64, 0, 53, 0, 12, 0, 0] (Some sample_disposition) 3"
  let ?key = "fp_key (sample_part 0 True [])"
  have reach: "reachable_assembler ?asm"
    by (rule reach_init) (auto simp: asm_init_def UdpFragmentAssembler_default_def)
  have none: "hm_get (as_groups ?asm) ?key = None" by (simp add: UdpFragmentAssembler_default_def)
  have pieces: "map piece_of (?xs @ [?z]) = [(8, [9, 8, 7, 6]), (8, [9, 8, 7, 6]), (0, [156, 64, 0, 53, 0, 12, 0, 0])]"
    by (simp add: piece_of_def sample_arrival_def sample_part_def)
  have "covers 0 ?D (map piece_of (?xs @ [?z]))" unfolding pieces by (auto simp: covers_def not_less)
  then have cuts: "cuts ?D 0 ?key sample_disposition (?xs @ [?z])"
    by (simp add: cuts_def fragment_of_def piece_of_def sample_arrival_def sample_part_def slices_of_def subslice_def apart_def)
  have new: "piece_of ?z \<notin> piece_of ` set ?xs" by (simp add: piece_of_def sample_arrival_def sample_part_def)
  have time: "timely ?key ?asm (?xs @ [?z])"
    by (simp add: timely_def UdpFragmentAssembler_default_def sample_arrival_def fragmentLifetime_def sample_part_def ipv4FragmentLifetime_def)
  have room: "budgeted ?asm (?xs @ [?z])"
    by (simp add: budgeted_def UdpFragmentAssembler_default_def sample_arrival_def piece_of_def sample_part_def maximumFragmentGroups_def
        maximumBufferedFragmentBytes_def maximumBufferedFragmentObservations_def maximumBufferedObservationBytes_def)
  have udp: "unat (be16 (?D ! (0 + 4)) (?D ! (0 + 5))) = 12" "udp_payload ?D 0 = [9, 8, 7, 6]" by code_simp+
  have sel: "cuts ?D 0 ?key (Selected \<lparr>ot_processId = 700, ot_address = SocketAddrV4 (Ipv4Addr 198 51 100 10) 53\<rparr> Up
      (SocketAddrV4 (Ipv4Addr 192 0 2 10) 40000) 5) (?xs @ [?z])"
    unfolding sample_disposition_def [symmetric] by (rule cuts)
  have parts: "replicate (length ?xs) r @ [q] = [r, r, q]" "of_nat (length (?xs @ [?z])) = (3 :: u64)"
      "of_nat (sum_list (map (fp_packetBytes \<circ> ar_part) (?xs @ [?z]))) = (84 :: u64)" "map ar_observation (?xs @ [?z]) = [1, 2, 3]" for r q :: "nat push_result"
    by (simp_all add: sample_arrival_def sample_part_def)
  have "(0 :: nat) + 8 \<le> length ?D" "8 \<le> unat (be16 (?D ! (0 + 4)) (?D ! (0 + 5)))" "0 + unat (be16 (?D ! (0 + 4)) (?D ! (0 + 5))) \<le> length ?D"
    unfolding udp(1) by simp_all
  from reassembly_correct [OF reach none sel new time room this, unfolded parts udp(2)] show ?thesis by auto
qed

section \<open>Inspecting packets\<close>

definition part_in :: "bytes \<Rightarrow> UdpFragmentPart \<Rightarrow> bool" where
  "part_in packet part \<longleftrightarrow>
     fp_packetPayloadOffset part + length (fp_fragmentPayload part) \<le> length packet
     \<and> fp_fragmentPayload part = subslice (fp_packetPayloadOffset part) (fp_packetPayloadOffset part + length (fp_fragmentPayload part)) packet
     \<and> (fp_moreFragments part \<longrightarrow> length (fp_fragmentPayload part) mod 8 = 0)
     \<and> (firstFragmentTuple part \<noteq> None \<longleftrightarrow> fp_payloadOffset part = 0)
     \<and> (\<forall>u. fp_udpHeaderOffset part = Some u \<longrightarrow> u + 8 \<le> length (fp_fragmentPayload part))"

definition inspected :: "bytes \<Rightarrow> (FragmentError, UdpPacketFragment) outcome \<Rightarrow> bool" where
  "inspected packet res = (case res of Panic \<Rightarrow> False | Ok (Fragment part) \<Rightarrow> part_in packet part | _ \<Rightarrow> True)"

lemma read_be16_in [simp]:
  "offset + 2 \<le> length packet \<Longrightarrow> read_be16 packet offset k = k (be16 (packet ! offset) (packet ! Suc offset))"
  by (simp add: read_be16_def)

lemma inspected_fragmentPart:
  assumes "start \<le> stop" "stop \<le> length packet" "(u = None) = (off \<noteq> 0)"
  shows "inspected packet (fragmentPart key off mf (subslice start stop packet) n u start)"
  using assms
  by (cases u) (auto simp: fragmentPart_def Let_def inspected_def part_in_def firstFragmentTuple_def)

lemma inspected_ipv4: "inspected packet (inspectIpv4Fragment packet b)"
proof (cases "length packet < 20")
  case False
  then have "packet \<noteq> []" by auto
  with False show ?thesis
    by (auto simp: inspectIpv4Fragment_def Let_def intro!: inspected_fragmentPart) (auto simp: inspected_def)
qed (simp add: inspectIpv4Fragment_def inspected_def)

declare locateLoop.simps [simp del] inspectIpv6Loop.simps [simp del]

lemma ensureBytes_if: "ensureBytes e offset n = (if offset + n \<le> e then Ok () else Err Ipv6ExtensionOutOfRange)"
  by (simp add: ensureBytes_def)

lemma locateLoop_no_panic: "locateLoop payload nh offset \<noteq> Panic"
proof (induction payload nh offset rule: locateLoop.induct)
  case (1 payload nh offset)
  show ?case
  proof (cases "offset + 2 \<le> length payload")
    case True
    with 1 show ?thesis by (subst locateLoop.simps) (auto simp: ensureBytes_if)
  next
    case False
    then show ?thesis by (subst locateLoop.simps) (auto simp: ensureBytes_if)
  qed
qed

lemma inspected_ipv6Loop:
  assumes "offset \<le> packetEnd" "packetEnd \<le> length packet"
  shows "inspected packet (inspectIpv6Loop packet b packetEnd s d nh offset)"
  using assms
proof (induction packet b packetEnd s d nh offset rule: inspectIpv6Loop.induct)
  case (1 packet b packetEnd s d nh offset)
  consider "nh = 17" | "nh \<noteq> 17" "nh = 0 \<or> nh = 43 \<or> nh = 60" | "nh = 51" | "nh = 44" | "nh \<notin> {17, 0, 43, 60, 51, 44}" by blast
  then show ?case
  proof cases
    case 2
    with 1 show ?thesis
      by (cases "offset + 2 \<le> packetEnd") (simp_all add: inspectIpv6Loop.simps [of _ _ _ _ _ nh] ensureBytes_if inspected_def)
  next
    case 3
    with 1 show ?thesis
      by (cases "offset + 2 \<le> packetEnd") (simp_all add: inspectIpv6Loop.simps [of _ _ _ _ _ 51] ensureBytes_if inspected_def)
  next
    case 4
    show ?thesis
    proof (cases "offset + 8 \<le> packetEnd")
      case True
      define f where "f = be16 (packet ! (offset + 2)) (packet ! (offset + 3))"
      define u where "u = (if unat (f AND 0xfff8) = 0
        then and_then (locatePostFragmentUdpHeader (subslice (offset + 8) packetEnd packet) (packet ! offset)) (\<lambda>n. Ok (Some n))
        else Ok None)"
      have loop: "\<exists>key. inspectIpv6Loop packet b packetEnd s d 44 offset = and_then u (\<lambda>u. fragmentPart key
          (unat (f AND 0xfff8)) (f AND 1 \<noteq> 0) (subslice (offset + 8) packetEnd packet) (length packet) u (offset + 8))"
        using True "1.prems"
        by (intro exI, subst inspectIpv6Loop.simps) (simp add: ensureBytes_if u_def f_def numeral_3_eq_3)
      have u: "u \<noteq> Panic" "u = Ok v \<Longrightarrow> (v = None) = (unat (f AND 0xfff8) \<noteq> 0)" for v
        using locateLoop_no_panic
        by (auto simp: u_def locatePostFragmentUdpHeader_def and_then_Panic_iff and_then_Ok_iff split: if_splits)
      show ?thesis
      proof (cases u)
        case (Ok v)
        with loop u(2) [OF Ok] True "1.prems" 4 show ?thesis by (auto intro!: inspected_fragmentPart)
      qed (use loop u(1) 4 in \<open>auto simp: inspected_def\<close>)
    next
      case False
      with 4 show ?thesis by (simp add: inspectIpv6Loop.simps [of _ _ _ _ _ 44] ensureBytes_if inspected_def)
    qed
  next
    case 1
    then show ?thesis by (simp add: inspectIpv6Loop.simps [of _ _ _ _ _ 17] inspected_def)
  next
    case 5
    then show ?thesis by (simp add: inspectIpv6Loop.simps [of _ _ _ _ _ nh] inspected_def)
  qed
qed

lemma inspected_ipv6: "inspected packet (inspectIpv6Fragment packet b)"
  by (cases "length packet < 40")
    (auto simp: inspectIpv6Fragment_def intro!: inspected_ipv6Loop, auto simp: inspected_def)

text \<open>
  The fragment parser never reads outside the packet, and the fragment it reports is the slice
  of the packet it names: a non-final fragment has a length divisible by eight, exactly the
  fragments at offset zero carry ports, and the UDP header they name lies inside the fragment.
\<close>

theorem inspectUdpFragment_bounds:
  "case inspectUdpFragment packet isOutbound of
      Panic \<Rightarrow> False
    | Err _ \<Rightarrow> True
    | Ok Whole \<Rightarrow> True
    | Ok (Fragment part) \<Rightarrow>
        fp_packetPayloadOffset part + length (fp_fragmentPayload part) \<le> length packet
        \<and> fp_fragmentPayload part
            = subslice (fp_packetPayloadOffset part) (fp_packetPayloadOffset part + length (fp_fragmentPayload part)) packet
        \<and> (if fp_moreFragments part then length (fp_fragmentPayload part) mod 8 = 0 else True)
        \<and> (firstFragmentTuple part \<noteq> None) = (fp_payloadOffset part = 0)
        \<and> (case fp_udpHeaderOffset part of None \<Rightarrow> True | Some u \<Rightarrow> u + 8 \<le> length (fp_fragmentPayload part))"
proof -
  have "inspected packet (inspectUdpFragment packet isOutbound)"
    using inspected_ipv4 inspected_ipv6
    by (auto simp: inspectUdpFragment_def Let_def inspected_def split: list.split)
  then show ?thesis
    by (auto simp: inspected_def part_in_def split: outcome.splits UdpPacketFragment.splits option.splits)
qed

end
