(* ===== verification/SocksAddress.thy ===== *)
theory SocksAddress
  imports Net
begin

text \<open>
  The SOCKS5 address codec of \<open>Socks5/src/address.rs\<close> and the error type of \<open>Socks5/src/error.rs\<close>.
  A Rust \<open>String\<close> is the byte sequence of its UTF-8 encoding; \<open>from_utf8\<close> is the validity check of the
  standard library. Messages inside errors keep which check failed (\<open>UdpFault\<close>). The slice codec
  works on a buffer and an offset, the stream codec on the byte stream of \<open>ByteStream\<close>.
\<close>

section \<open>Errors\<close>

datatype ErrorKind =
    BrokenPipe | ConnectionAborted | ConnectionReset | NotConnected | UnexpectedEof
  | ConnectionRefused | HostUnreachable | NetworkUnreachable | TimedOut | PermissionDenied
  | InvalidInput | InvalidData | OtherKind

datatype UdpFault =
    MissingAddressType | TruncatedIpv4 | TruncatedIpv6 | MissingDomainLength | TruncatedDomain
  | TruncatedPort | DatagramTooShort | ReservedNotZero | FragmentsRefused

datatype TimeoutStage =
    AuthenticationStage | PluginAuthenticationStage | ExternalAuthenticationStage | RequestStage
  | UdpClientStage | OverrideConnectStage | RemoteConnectStage | BindWaitStage | BindTargetStage

datatype Socks5Error =
    Configuration string
  | Io ErrorKind
  | Timeout TimeoutStage
  | RelayIdleTimeout
  | UnsupportedVersion u8
  | NoAcceptableAuthentication
  | AuthenticationFailed
  | InvalidReservedByte u8
  | UnsupportedCommand u8
  | UnsupportedAddressType u8
  | InvalidDomain
  | Resolve bytes
  | InvalidUdpPacket UdpFault
  | InvalidUdpSource
  | RemoteConnect string
  | PluginClosed
  | Runtime string

definition isNormalRelayTermination :: "Socks5Error \<Rightarrow> bool" where
  "isNormalRelayTermination error =
     (case error of
        RelayIdleTimeout \<Rightarrow> True
      | Io kind \<Rightarrow> kind \<in> {BrokenPipe, ConnectionAborted, ConnectionReset, NotConnected, UnexpectedEof}
      | _ \<Rightarrow> False)"

section \<open>UTF-8\<close>

definition is_cont :: "u8 \<Rightarrow> bool" where
  "is_cont b = (0x80 \<le> b \<and> b \<le> 0xbf)"

fun valid_utf8 :: "bytes \<Rightarrow> bool" where
  "valid_utf8 [] = True"
| "valid_utf8 (a # rest) =
     (if a \<le> 0x7f then valid_utf8 rest
      else if 0xc2 \<le> a \<and> a \<le> 0xdf then
        (case rest of b # rest' \<Rightarrow> is_cont b \<and> valid_utf8 rest' | _ \<Rightarrow> False)
      else if 0xe0 \<le> a \<and> a \<le> 0xef then
        (case rest of b # c # rest' \<Rightarrow>
           is_cont c \<and> (if a = 0xe0 then 0xa0 \<le> b \<and> b \<le> 0xbf
                        else if a = 0xed then 0x80 \<le> b \<and> b \<le> 0x9f
                        else is_cont b) \<and> valid_utf8 rest'
         | _ \<Rightarrow> False)
      else if 0xf0 \<le> a \<and> a \<le> 0xf4 then
        (case rest of b # c # d # rest' \<Rightarrow>
           is_cont c \<and> is_cont d \<and> (if a = 0xf0 then 0x90 \<le> b \<and> b \<le> 0xbf
                                     else if a = 0xf4 then 0x80 \<le> b \<and> b \<le> 0x8f
                                     else is_cont b) \<and> valid_utf8 rest'
         | _ \<Rightarrow> False)
      else False)"

section \<open>Addresses\<close>

definition addressTypeIpv4 :: u8 where "addressTypeIpv4 = 0x01"
definition addressTypeDomain :: u8 where "addressTypeDomain = 0x03"
definition addressTypeIpv6 :: u8 where "addressTypeIpv6 = 0x04"

datatype TargetHost = Ip IpAddr | Domain bytes

record TargetAddress =
  ta_host :: TargetHost
  ta_port :: u16

definition fromSocketAddress :: "SocketAddr \<Rightarrow> TargetAddress" where
  "fromSocketAddress address = \<lparr>ta_host = Ip (sa_ip address), ta_port = sa_port address\<rparr>"

definition isUnspecified :: "TargetAddress \<Rightarrow> bool" where
  "isUnspecified address = (case ta_host address of Ip a \<Rightarrow> is_unspecified a | Domain _ \<Rightarrow> False)"

text \<open>
  \<open>lookup\<close> is the resolver of the operating system, \<open>override\<close> the optional \<open>AddressOverride\<close> and
  \<open>render\<close> the textual form of an address, which only appears in the error.
\<close>

definition resolveWithOverride ::
  "(bytes \<Rightarrow> u16 \<Rightarrow> bytes + SocketAddr list) \<Rightarrow> (TargetAddress \<Rightarrow> bytes) \<Rightarrow> (bytes \<Rightarrow> IpAddr option) option \<Rightarrow>
   TargetAddress \<Rightarrow> Socks5Error + SocketAddr list" where
  "resolveWithOverride lookup render override address =
     (let found = (case ta_host address of
            Ip a \<Rightarrow> Inr [SocketAddr_new a (ta_port address)]
          | Domain domain \<Rightarrow>
              (case (case override of None \<Rightarrow> None | Some resolver \<Rightarrow> resolver domain) of
                 Some a \<Rightarrow> Inr [SocketAddr_new a (ta_port address)]
               | None \<Rightarrow> (case lookup domain (ta_port address) of
                    Inl detail \<Rightarrow> Inl (Resolve detail)
                  | Inr addresses \<Rightarrow> Inr addresses)))
      in case found of
           Inl e \<Rightarrow> Inl e
         | Inr [] \<Rightarrow> Inl (Resolve (render address))
         | Inr addresses \<Rightarrow> Inr addresses)"

definition resolve ::
  "(bytes \<Rightarrow> u16 \<Rightarrow> bytes + SocketAddr list) \<Rightarrow> (TargetAddress \<Rightarrow> bytes) \<Rightarrow> TargetAddress \<Rightarrow> Socks5Error + SocketAddr list" where
  "resolve lookup render address = resolveWithOverride lookup render None address"

section \<open>The slice codec\<close>

definition encodeTargetAddress :: "TargetAddress \<Rightarrow> bytes \<Rightarrow> (Socks5Error, bytes) outcome" where
  "encodeTargetAddress address output =
     (case ta_host address of
        Ip (V4 a) \<Rightarrow> Ok (output @ [addressTypeIpv4] @ ipv4_octets a @ be16_bytes (ta_port address))
      | Ip (V6 a) \<Rightarrow> Ok (output @ [addressTypeIpv6] @ ipv6_octets a @ be16_bytes (ta_port address))
      | Domain domain \<Rightarrow>
          if 255 < length domain then Err InvalidDomain
          else if length domain = 0 then Err InvalidDomain
          else Ok (output @ [addressTypeDomain, of_nat (length domain)] @ domain @ be16_bytes (ta_port address)))"

text \<open>\<open>input.get(i..j)\<close> and \<open>input.get(i)\<close>: an absent range is an error, not a panic.\<close>

definition get_range :: "bytes \<Rightarrow> nat \<Rightarrow> nat \<Rightarrow> UdpFault \<Rightarrow> (bytes \<Rightarrow> (Socks5Error, 'a) outcome) \<Rightarrow> (Socks5Error, 'a) outcome" where
  "get_range input i j fault k =
     (if i \<le> j \<and> j \<le> length input then k (subslice i j input) else Err (InvalidUdpPacket fault))"

definition get_byte :: "bytes \<Rightarrow> nat \<Rightarrow> UdpFault \<Rightarrow> (u8 \<Rightarrow> (Socks5Error, 'a) outcome) \<Rightarrow> (Socks5Error, 'a) outcome" where
  "get_byte input i fault k = (if i < length input then k (input ! i) else Err (InvalidUdpPacket fault))"

definition decodePort ::
  "bytes \<Rightarrow> nat \<Rightarrow> TargetHost \<Rightarrow> (Socks5Error, TargetAddress \<times> nat) outcome" where
  "decodePort input cursor host =
     get_range input cursor (cursor + 2) TruncatedPort (\<lambda>portBytes.
       byte_at portBytes 0 (\<lambda>h. byte_at portBytes 1 (\<lambda>l.
         Ok (\<lparr>ta_host = host, ta_port = be16 h l\<rparr>, cursor + 2))))"

definition decodeTargetAddress :: "bytes \<Rightarrow> nat \<Rightarrow> (Socks5Error, TargetAddress \<times> nat) outcome" where
  "decodeTargetAddress input offset =
     get_byte input offset MissingAddressType (\<lambda>addressType.
       let cursor = offset + 1
       in if addressType = addressTypeIpv4 then
            get_range input cursor (cursor + 4) TruncatedIpv4 (\<lambda>octets.
              byte_at octets 0 (\<lambda>a. byte_at octets 1 (\<lambda>b. byte_at octets 2 (\<lambda>c. byte_at octets 3 (\<lambda>d.
                decodePort input (cursor + 4) (Ip (V4 (Ipv4Addr a b c d))))))))
          else if addressType = addressTypeIpv6 then
            get_range input cursor (cursor + 16) TruncatedIpv6 (\<lambda>octets.
              decodePort input (cursor + 16) (Ip (V6 (ipv6_from octets))))
          else if addressType = addressTypeDomain then
            get_byte input cursor MissingDomainLength (\<lambda>len.
              let length' = unat len; cursor = cursor + 1
              in if length' = 0 then Err InvalidDomain
                 else get_range input cursor (cursor + length') TruncatedDomain (\<lambda>domain.
                   if valid_utf8 domain then decodePort input (cursor + length') (Domain domain)
                   else Err InvalidDomain))
          else Err (UnsupportedAddressType addressType))"

section \<open>Round trips\<close>

text \<open>A \<open>String\<close> always holds valid UTF-8.\<close>

definition wf_address :: "TargetAddress \<Rightarrow> bool" where
  "wf_address address = (case ta_host address of Ip _ \<Rightarrow> True | Domain domain \<Rightarrow> valid_utf8 domain)"

definition address_wire :: "TargetAddress \<Rightarrow> bytes option" where
  "address_wire address =
     (if wf_address address then (case encodeTargetAddress address [] of Ok bs \<Rightarrow> Some bs | _ \<Rightarrow> None) else None)"

lemma encodeTargetAddress_output:
  "encodeTargetAddress address output = (case encodeTargetAddress address [] of
     Ok bs \<Rightarrow> Ok (output @ bs) | Err e \<Rightarrow> Err e | Panic \<Rightarrow> Panic)"
  by (simp add: encodeTargetAddress_def split: TargetHost.split IpAddr.split)

lemma subslice_mid: "subslice (length pre + i) (length pre + j) (pre @ xs) = subslice i j xs"
  by (simp add: subslice_def)

lemma subslice_prefix: "i = length xs \<Longrightarrow> subslice 0 i (xs @ ys) = xs"
  by (simp add: subslice_def)

lemma subslice_after: "i = length xs \<Longrightarrow> j = i + length ys \<Longrightarrow> subslice i j (xs @ ys @ zs) = ys"
  by (simp add: subslice_def)

lemma decodePort_at:
  "cursor = length pre \<Longrightarrow> decodePort (pre @ be16_bytes p @ rest) cursor host = Ok (\<lparr>ta_host = host, ta_port = p\<rparr>, cursor + 2)"
  using be16_be16_bytes [of p]
  by (simp add: decodePort_def get_range_def subslice_after)

lemma get_byte_at: "i = length pre \<Longrightarrow> get_byte (pre @ b # rest) i f k = k b"
  by (simp add: get_byte_def)

lemma get_range_at: "i = length pre \<Longrightarrow> j = i + length ys \<Longrightarrow> get_range (pre @ ys @ rest) i j f k = k ys"
  by (simp add: get_range_def subslice_after)

lemma decode_ipv4:
  "decodeTargetAddress (pre @ addressTypeIpv4 # ipv4_octets a @ be16_bytes p @ rest) (length pre)
     = Ok (\<lparr>ta_host = Ip (V4 a), ta_port = p\<rparr>, length pre + 7)"
proof -
  have range: "get_range (pre @ addressTypeIpv4 # ipv4_octets a @ be16_bytes p @ rest) (length pre + 1) (length pre + 1 + 4) f k = k (ipv4_octets a)"
    for f and k :: "bytes \<Rightarrow> (Socks5Error, TargetAddress \<times> nat) outcome"
    using get_range_at [of "length pre + 1" "pre @ [addressTypeIpv4]" "length pre + 1 + 4" "ipv4_octets a" "be16_bytes p @ rest" f k] by simp
  have port: "decodePort (pre @ addressTypeIpv4 # ipv4_octets a @ be16_bytes p @ rest) (length pre + 1 + 4) host = Ok (\<lparr>ta_host = host, ta_port = p\<rparr>, length pre + 7)" for host
    using decodePort_at [of "length pre + 5" "pre @ addressTypeIpv4 # ipv4_octets a" p rest host] by (simp add: ac_simps)
  show ?thesis
    by (cases a) (use range port in \<open>simp add: decodeTargetAddress_def get_byte_at\<close>)
qed

lemma decode_ipv6:
  "decodeTargetAddress (pre @ addressTypeIpv6 # ipv6_octets a @ be16_bytes p @ rest) (length pre)
     = Ok (\<lparr>ta_host = Ip (V6 a), ta_port = p\<rparr>, length pre + 19)"
proof -
  have range: "get_range (pre @ addressTypeIpv6 # ipv6_octets a @ be16_bytes p @ rest) (length pre + 1) (length pre + 1 + 16) f k = k (ipv6_octets a)"
    for f and k :: "bytes \<Rightarrow> (Socks5Error, TargetAddress \<times> nat) outcome"
    using get_range_at [of "length pre + 1" "pre @ [addressTypeIpv6]" "length pre + 1 + 16" "ipv6_octets a" "be16_bytes p @ rest" f k] by simp
  have port: "decodePort (pre @ addressTypeIpv6 # ipv6_octets a @ be16_bytes p @ rest) (length pre + 1 + 16) host = Ok (\<lparr>ta_host = host, ta_port = p\<rparr>, length pre + 19)" for host
    using decodePort_at [of "length pre + 17" "pre @ addressTypeIpv6 # ipv6_octets a" p rest host] by (simp add: ac_simps)
  have "addressTypeIpv6 \<noteq> addressTypeIpv4" by (simp add: addressTypeIpv6_def addressTypeIpv4_def)
  then show ?thesis
    using range port by (simp add: decodeTargetAddress_def get_byte_at)
qed

lemma decode_domain:
  assumes "domain \<noteq> []" "length domain \<le> 255" "valid_utf8 domain"
  shows "decodeTargetAddress (pre @ addressTypeDomain # of_nat (length domain) # domain @ be16_bytes p @ rest) (length pre)
     = Ok (\<lparr>ta_host = Domain domain, ta_port = p\<rparr>, length pre + 4 + length domain)"
proof -
  let ?all = "pre @ addressTypeDomain # of_nat (length domain) # domain @ be16_bytes p @ rest"
  have len: "unat (of_nat (length domain) :: u8) = length domain" using assms(2) by (simp add: unat_of_nat)
  have byte: "get_byte ?all (length pre + 1) f k = k (of_nat (length domain))"
    for f and k :: "u8 \<Rightarrow> (Socks5Error, TargetAddress \<times> nat) outcome"
    using get_byte_at [of "length pre + 1" "pre @ [addressTypeDomain]" "of_nat (length domain)" "domain @ be16_bytes p @ rest" f k] by simp
  have range: "get_range ?all (length pre + 1 + 1) (length pre + 1 + 1 + length domain) f k = k domain"
    for f and k :: "bytes \<Rightarrow> (Socks5Error, TargetAddress \<times> nat) outcome"
    using get_range_at [of "length pre + 2" "pre @ [addressTypeDomain, of_nat (length domain)]" "length pre + 2 + length domain" domain "be16_bytes p @ rest" f k] by simp
  have port: "decodePort ?all (length pre + 1 + 1 + length domain) host = Ok (\<lparr>ta_host = host, ta_port = p\<rparr>, length pre + 4 + length domain)" for host
    using decodePort_at [of "length pre + 2 + length domain" "pre @ addressTypeDomain # of_nat (length domain) # domain" p rest host] by simp
  have "addressTypeDomain \<noteq> addressTypeIpv4" "addressTypeDomain \<noteq> addressTypeIpv6"
    by (simp_all add: addressTypeIpv6_def addressTypeIpv4_def addressTypeDomain_def)
  then show ?thesis
    using byte range port len assms by (simp add: decodeTargetAddress_def get_byte_at Let_def)
qed

lemma decodeTargetAddress_wire:
  assumes "address_wire address = Some bs"
  shows "decodeTargetAddress (pre @ bs @ rest) (length pre) = Ok (address, length pre + length bs)"
proof -
  obtain host p where addr: "address = \<lparr>ta_host = host, ta_port = p\<rparr>" by (cases address) auto
  consider a where "host = Ip (V4 a)" | a where "host = Ip (V6 a)" | domain where "host = Domain domain"
    by (metis IpAddr.exhaust TargetHost.exhaust)
  then show ?thesis
  proof cases
    case (1 a)
    with assms addr have "bs = addressTypeIpv4 # ipv4_octets a @ be16_bytes p"
      by (simp add: address_wire_def wf_address_def encodeTargetAddress_def)
    with 1 addr decode_ipv4 [of pre a p rest] show ?thesis by simp
  next
    case (2 a)
    with assms addr have "bs = addressTypeIpv6 # ipv6_octets a @ be16_bytes p"
      by (simp add: address_wire_def wf_address_def encodeTargetAddress_def)
    with 2 addr decode_ipv6 [of pre a p rest] show ?thesis by simp
  next
    case (3 domain)
    with assms addr have "bs = addressTypeDomain # of_nat (length domain) # domain @ be16_bytes p"
      "domain \<noteq> []" "length domain \<le> 255" "valid_utf8 domain"
      by (auto simp: address_wire_def wf_address_def encodeTargetAddress_def split: if_splits)
    with 3 addr decode_domain [of domain pre p rest] show ?thesis by (simp add: ac_simps)
  qed
qed

lemma decodePort_Ok:
  assumes "decodePort input cursor host = Ok (address, off')"
  shows "off' = cursor + 2 \<and> off' \<le> length input \<and> ta_host address = host
    \<and> be16_bytes (ta_port address) = subslice cursor off' input"
  using assms
  by (auto simp: decodePort_def get_range_def wire_simps subslice_nth split: if_splits
      intro!: nth_equalityI) (auto simp: less_Suc_eq)

lemma subslice_Cons: "off < off' \<Longrightarrow> off' \<le> length xs \<Longrightarrow> subslice off off' xs = xs ! off # subslice (Suc off) off' xs"
  unfolding subslice_def by (metis Cons_nth_drop_Suc Suc_diff_Suc dual_order.strict_trans1 take_Suc_Cons)

lemma subslice_split: "i \<le> j \<Longrightarrow> j \<le> k \<Longrightarrow> k \<le> length xs \<Longrightarrow> subslice i k xs = subslice i j xs @ subslice j k xs"
  by (intro nth_equalityI) (auto simp: subslice_nth nth_append ac_simps)

lemma decodeTargetAddress_Ok:
  assumes "decodeTargetAddress input off = Ok (address, off')"
  shows "off \<le> off' \<and> off' \<le> length input \<and> address_wire address = Some (subslice off off' input)"
proof -
  from assms have off: "off < length input" by (auto simp: decodeTargetAddress_def get_byte_def split: if_splits)
  have port: "off' = c + 2 \<and> off' \<le> length input \<and> ta_host address = host
      \<and> subslice off off' input = input ! off # subslice (off + 1) c input @ be16_bytes (ta_port address)"
    if "decodePort input c host = Ok (address, off')" "off + 1 \<le> c" for c host
    using decodePort_Ok [OF that(1)] that(2) off subslice_Cons [of off off' input] subslice_split [of "off + 1" c off' input]
    by auto
  consider "input ! off = addressTypeIpv4" | "input ! off = addressTypeIpv6" "input ! off \<noteq> addressTypeIpv4"
    | "input ! off = addressTypeDomain" "input ! off \<noteq> addressTypeIpv4" "input ! off \<noteq> addressTypeIpv6"
    using assms off by (auto simp: decodeTargetAddress_def get_byte_def Let_def split: if_splits)
  then show ?thesis
  proof cases
    case 1
    with assms off have *: "off + 5 \<le> length input"
        "decodePort input (off + 5) (Ip (V4 (ipv4_from (subslice (off + 1) (off + 5) input)))) = Ok (address, off')"
      by (auto simp: decodeTargetAddress_def get_byte_def get_range_def ipv4_from_def ac_simps split: if_splits)
    have "ipv4_octets (ipv4_from (subslice (off + 1) (off + 5) input)) = subslice (off + 1) (off + 5) input"
      using *(1) by (intro ipv4_octets_from) simp
    with port [OF *(2)] 1 show ?thesis
      by (auto simp: address_wire_def wf_address_def encodeTargetAddress_def)
  next
    case 2
    with assms off have *: "off + 17 \<le> length input"
        "decodePort input (off + 17) (Ip (V6 (ipv6_from (subslice (off + 1) (off + 17) input)))) = Ok (address, off')"
      by (auto simp: decodeTargetAddress_def get_byte_def get_range_def ac_simps split: if_splits)
    have "ipv6_octets (ipv6_from (subslice (off + 1) (off + 17) input)) = subslice (off + 1) (off + 17) input"
      using *(1) by (intro ipv6_octets_from) simp
    with port [OF *(2)] 2 show ?thesis
      by (auto simp: address_wire_def wf_address_def encodeTargetAddress_def)
  next
    case 3
    define n where "n = unat (input ! (off + 1))"
    define domain where "domain = subslice (off + 2) (off + 2 + n) input"
    from 3 assms off have *: "off + 2 + n \<le> length input" "n \<noteq> 0" "valid_utf8 domain"
        "decodePort input (off + 2 + n) (Domain domain) = Ok (address, off')"
      unfolding domain_def n_def
      by (auto simp: decodeTargetAddress_def get_byte_def get_range_def Let_def split: if_splits)
    have len: "length domain = n" using *(1) by (simp add: domain_def)
    have "n < 256" using unsigned_less [of "input ! (off + 1)", where ?'a = nat] by (simp add: n_def)
    moreover have "subslice (off + 1) (off + 2 + n) input = of_nat n # domain"
      using *(1) subslice_Cons [of "off + 1" "off + 2 + n" input] by (simp add: n_def domain_def)
    ultimately show ?thesis
      using port [OF *(4)] 3 *(2,3) len
      by (auto simp: address_wire_def wf_address_def encodeTargetAddress_def)
  qed
qed

interpretation address: wire_codec address_wire decodeTargetAddress
  by unfold_locales (fact decodeTargetAddress_wire, fact decodeTargetAddress_Ok)

text \<open>
  C20: the address codec is exact. An encoded address is decoded at any position of a buffer to the
  same address, with the cursor right behind it; and whatever the decoder accepts is byte for byte
  the encoding of its result, so two different addresses never share an encoding and no read leaves
  the buffer.
\<close>

theorem address_codec_exact:
  "(\<forall>pre bs rest. address_wire address = Some bs \<longrightarrow>
      decodeTargetAddress (pre @ bs @ rest) (length pre) = Ok (address, length pre + length bs))
   \<and> (\<forall>input off off'. decodeTargetAddress input off = Ok (address, off') \<longrightarrow>
      off \<le> off' \<and> off' \<le> length input \<and> address_wire address = Some (subslice off off' input))
   \<and> (\<forall>other x y r r'. address_wire address = Some x \<longrightarrow> address_wire other = Some y \<longrightarrow> x @ r = y @ r' \<longrightarrow>
      address = other \<and> r = r')"
  using address.dec_enc address.enc_dec address.self_delimiting by blast

theorem address_codec_exact_witness:
  "decodeTargetAddress [9, 9, 3, 2, 97, 98, 1, 187, 7] 2 = Ok (\<lparr>ta_host = Domain [97, 98], ta_port = 443\<rparr>, 8)"
proof -
  have "address_wire \<lparr>ta_host = Domain [97, 98], ta_port = 443\<rparr> = Some [3, 2, 97, 98, 1, 187]"
    by code_simp
  with address_codec_exact [of "\<lparr>ta_host = Domain [97, 98], ta_port = 443\<rparr>"]
  have "decodeTargetAddress ([9, 9] @ [3, 2, 97, 98, 1, 187] @ [7]) (length [9, 9 :: u8])
      = Ok (\<lparr>ta_host = Domain [97, 98], ta_port = 443\<rparr>, length [9, 9 :: u8] + length [3, 2, 97, 98, 1, 187 :: u8])" by blast
  then show ?thesis by (simp add: numeral_eq_Suc)
qed

end
