(* ===== verification/ByteStream.thy ===== *)
theory ByteStream
  imports SocksAddress
begin

text \<open>
  The asynchronous byte stream the SOCKS5 negotiation runs on. The state holds the bytes the peer
  will still deliver, what happens after them (the peer closes or stalls), the bytes written so far
  and an optional fault of the sending side. A protocol step either finishes, fails, or stays
  pending because the peer stalls, and \<open>timeout\<close> turns pending into its error. This is the
  cancellation at the deadline of \<open>tokio::time::timeout\<close>, seen from the peer's behaviour.
\<close>

datatype StreamEnd = Closed | Stalled

record Stream =
  st_input :: bytes
  st_end :: StreamEnd
  st_output :: bytes
  st_writeFault :: "ErrorKind option"

datatype 'a io = Pending | Fail Socks5Error | Done 'a

type_synonym 'a proto = "Stream \<Rightarrow> 'a io \<times> Stream"

definition pure_p :: "'a \<Rightarrow> 'a proto" where
  "pure_p a s = (Done a, s)"

definition fail_p :: "Socks5Error \<Rightarrow> 'a proto" where
  "fail_p e s = (Fail e, s)"

definition bind_p :: "'a proto \<Rightarrow> ('a \<Rightarrow> 'b proto) \<Rightarrow> 'b proto" where
  "bind_p m f s =
     (case m s of (Pending, s) \<Rightarrow> (Pending, s) | (Fail e, s) \<Rightarrow> (Fail e, s) | (Done a, s) \<Rightarrow> f a s)"

definition read_exact :: "nat \<Rightarrow> bytes proto" where
  "read_exact n s =
     (if n \<le> length (st_input s)
      then (Done (take n (st_input s)), s\<lparr>st_input := drop n (st_input s)\<rparr>)
      else (case st_end s of
              Closed \<Rightarrow> (Fail (Io UnexpectedEof), s\<lparr>st_input := []\<rparr>)
            | Stalled \<Rightarrow> (Pending, s\<lparr>st_input := []\<rparr>)))"

definition read_u8 :: "u8 proto" where
  "read_u8 = bind_p (read_exact 1) (\<lambda>bs. pure_p (bs ! 0))"

definition read_u16 :: "u16 proto" where
  "read_u16 = bind_p (read_exact 2) (\<lambda>bs. pure_p (be16 (bs ! 0) (bs ! 1)))"

definition write_all :: "bytes \<Rightarrow> unit proto" where
  "write_all bs s =
     (case st_writeFault s of
        None \<Rightarrow> (Done (), s\<lparr>st_output := st_output s @ bs\<rparr>)
      | Some kind \<Rightarrow> (Fail (Io kind), s))"

definition flush_p :: "unit proto" where
  "flush_p s = (case st_writeFault s of None \<Rightarrow> (Done (), s) | Some kind \<Rightarrow> (Fail (Io kind), s))"

definition timeout_p :: "TimeoutStage \<Rightarrow> 'a proto \<Rightarrow> Stream \<Rightarrow> (Socks5Error, 'a) outcome \<times> Stream" where
  "timeout_p stage m s =
     (case m s of
        (Pending, s) \<Rightarrow> (Err (Timeout stage), s)
      | (Fail e, s) \<Rightarrow> (Err e, s)
      | (Done a, s) \<Rightarrow> (Ok a, s))"

lemma bind_p_Done: "m s = (Done a, s') \<Longrightarrow> bind_p m f s = f a s'"
  by (simp add: bind_p_def)

lemma bind_p_Done_iff: "bind_p m f s = (Done b, s') \<longleftrightarrow> (\<exists>a s1. m s = (Done a, s1) \<and> f a s1 = (Done b, s'))"
  by (auto simp: bind_p_def split: prod.splits io.splits)

lemma read_exact_Done_iff:
  "read_exact n s = (Done bs, s') \<longleftrightarrow> n \<le> length (st_input s) \<and> bs = take n (st_input s) \<and> s' = s\<lparr>st_input := drop n (st_input s)\<rparr>"
  by (auto simp: read_exact_def split: StreamEnd.splits)

lemma read_u8_Done_iff:
  "read_u8 s = (Done b, s') \<longleftrightarrow> (\<exists>rest. st_input s = b # rest \<and> s' = s\<lparr>st_input := rest\<rparr>)"
  by (cases "st_input s") (auto simp: read_u8_def bind_p_Done_iff read_exact_Done_iff pure_p_def)

lemma read_u16_Done_iff:
  "read_u16 s = (Done p, s') \<longleftrightarrow> (\<exists>rest. st_input s = be16_bytes p @ rest \<and> s' = s\<lparr>st_input := rest\<rparr>)"
proof
  assume "read_u16 s = (Done p, s')"
  then have len: "2 \<le> length (st_input s)" and p: "p = be16 (st_input s ! 0) (st_input s ! 1)"
    and s': "s' = s\<lparr>st_input := drop 2 (st_input s)\<rparr>"
    by (auto simp: read_u16_def bind_p_Done_iff read_exact_Done_iff pure_p_def)
  have "take 2 (st_input s) = [st_input s ! 0, st_input s ! 1]"
    using len by (intro nth_equalityI) (auto simp: less_2_cases_iff)
  then have "st_input s = be16_bytes p @ drop 2 (st_input s)"
    using append_take_drop_id [of 2 "st_input s"] by (simp add: p be16_bytes_be16)
  with s' show "\<exists>rest. st_input s = be16_bytes p @ rest \<and> s' = s\<lparr>st_input := rest\<rparr>" by blast
next
  assume "\<exists>rest. st_input s = be16_bytes p @ rest \<and> s' = s\<lparr>st_input := rest\<rparr>"
  then show "read_u16 s = (Done p, s')"
    using be16_be16_bytes [of p]
    by (auto simp: read_u16_def bind_p_Done_iff read_exact_Done_iff pure_p_def nth_append)
qed

lemma read_u8_eval: "st_input s = b # rest \<Longrightarrow> read_u8 s = (Done b, s\<lparr>st_input := rest\<rparr>)"
  by (simp add: read_u8_Done_iff)

lemma read_exact_eval: "st_input s = xs @ rest \<Longrightarrow> n = length xs \<Longrightarrow> read_exact n s = (Done xs, s\<lparr>st_input := rest\<rparr>)"
  by (simp add: read_exact_Done_iff)

lemma read_u16_eval: "st_input s = be16_bytes p @ rest \<Longrightarrow> read_u16 s = (Done p, s\<lparr>st_input := rest\<rparr>)"
  by (simp add: read_u16_Done_iff)

lemmas read_evals = read_u8_eval read_exact_eval read_u16_eval

lemmas read_Done_iffs = bind_p_Done_iff read_exact_Done_iff read_u8_Done_iff read_u16_Done_iff

section \<open>The stream codec of addresses\<close>

definition readTargetAddress :: "TargetAddress proto" where
  "readTargetAddress =
     bind_p read_u8 (\<lambda>addressType.
     bind_p (if addressType = addressTypeIpv4 then
               bind_p (read_exact 4) (\<lambda>octets. pure_p (Ip (V4 (ipv4_from octets))))
             else if addressType = addressTypeIpv6 then
               bind_p (read_exact 16) (\<lambda>octets. pure_p (Ip (V6 (ipv6_from octets))))
             else if addressType = addressTypeDomain then
               bind_p read_u8 (\<lambda>domainLength.
                 if domainLength = 0 then fail_p InvalidDomain
                 else bind_p (read_exact (unat domainLength)) (\<lambda>domainBytes.
                   if valid_utf8 domainBytes then pure_p (Domain domainBytes) else fail_p InvalidDomain))
             else fail_p (UnsupportedAddressType addressType)) (\<lambda>host.
     bind_p read_u16 (\<lambda>port. pure_p \<lparr>ta_host = host, ta_port = port\<rparr>)))"

definition writeTargetAddress :: "TargetAddress \<Rightarrow> unit proto" where
  "writeTargetAddress address =
     bind_p (case ta_host address of
        Ip (V4 a) \<Rightarrow> bind_p (write_all [addressTypeIpv4]) (\<lambda>_. write_all (ipv4_octets a))
      | Ip (V6 a) \<Rightarrow> bind_p (write_all [addressTypeIpv6]) (\<lambda>_. write_all (ipv6_octets a))
      | Domain domain \<Rightarrow>
          if 255 < length domain then fail_p (Io InvalidInput)
          else if length domain = 0 then fail_p InvalidDomain
          else bind_p (write_all [addressTypeDomain]) (\<lambda>_.
               bind_p (write_all [of_nat (length domain)]) (\<lambda>_. write_all domain))) (\<lambda>_.
     write_all (be16_bytes (ta_port address)))"

lemma writeTargetAddress_wire:
  assumes "st_writeFault s = None" and "address_wire address = Some bs"
  shows "writeTargetAddress address s = (Done (), s\<lparr>st_output := st_output s @ bs\<rparr>)"
  using assms
  by (auto simp: writeTargetAddress_def address_wire_def encodeTargetAddress_def bind_p_def write_all_def
      split: TargetHost.splits IpAddr.splits if_splits)

lemma readTargetAddress_decode:
  "readTargetAddress s = (Done address, s') \<longleftrightarrow>
     (\<exists>bs rest. address_wire address = Some bs \<and> st_input s = bs @ rest \<and> s' = s\<lparr>st_input := rest\<rparr>)"
proof
  assume "readTargetAddress s = (Done address, s')"
  then obtain ty r0 host s1 port rest where inp: "st_input s = ty # r0"
    and host: "(if ty = addressTypeIpv4 then bind_p (read_exact 4) (\<lambda>octets. pure_p (Ip (V4 (ipv4_from octets))))
        else if ty = addressTypeIpv6 then bind_p (read_exact 16) (\<lambda>octets. pure_p (Ip (V6 (ipv6_from octets))))
        else if ty = addressTypeDomain then bind_p read_u8 (\<lambda>domainLength.
                 if domainLength = 0 then fail_p InvalidDomain
                 else bind_p (read_exact (unat domainLength)) (\<lambda>domainBytes.
                   if valid_utf8 domainBytes then pure_p (Domain domainBytes) else fail_p InvalidDomain))
        else fail_p (UnsupportedAddressType ty)) (s\<lparr>st_input := r0\<rparr>) = (Done host, s1)"
    and port: "st_input s1 = be16_bytes port @ rest" "s' = s1\<lparr>st_input := rest\<rparr>" "address = \<lparr>ta_host = host, ta_port = port\<rparr>"
    unfolding readTargetAddress_def by (auto simp: read_Done_iffs pure_p_def)
  consider "ty = addressTypeIpv4" | "ty = addressTypeIpv6" "ty \<noteq> addressTypeIpv4"
    | "ty = addressTypeDomain" "ty \<noteq> addressTypeIpv4" "ty \<noteq> addressTypeIpv6"
    using host by (auto simp: fail_p_def split: if_splits)
  then have "\<exists>bs. address_wire address = Some bs \<and> st_input s = bs @ rest \<and> s' = s\<lparr>st_input := rest\<rparr>"
  proof cases
    case 1
    with host have "4 \<le> length r0" "host = Ip (V4 (ipv4_from (take 4 r0)))" "s1 = s\<lparr>st_input := drop 4 r0\<rparr>"
      by (auto simp: read_Done_iffs pure_p_def)
    with port inp 1 append_take_drop_id [of 4 r0] show ?thesis
      by (auto simp: address_wire_def wf_address_def encodeTargetAddress_def ipv4_octets_from)
  next
    case 2
    with host have "16 \<le> length r0" "host = Ip (V6 (ipv6_from (take 16 r0)))" "s1 = s\<lparr>st_input := drop 16 r0\<rparr>"
      by (auto simp: read_Done_iffs pure_p_def)
    with port inp 2 append_take_drop_id [of 16 r0] show ?thesis
      by (auto simp: address_wire_def wf_address_def encodeTargetAddress_def ipv6_octets_from)
  next
    case 3
    with host obtain len r1 where r1: "r0 = len # r1" "len \<noteq> 0" "unat len \<le> length r1" "valid_utf8 (take (unat len) r1)"
      "host = Domain (take (unat len) r1)" "s1 = s\<lparr>st_input := drop (unat len) r1\<rparr>"
      by (auto simp: read_Done_iffs pure_p_def fail_p_def split: if_splits)
    moreover have "unat len < 256" using unsigned_less [of len, where ?'a = nat] by simp
    moreover have "unat len \<noteq> 0" using r1(2) by (simp add: word_unat_eq_iff)
    ultimately show ?thesis
      using port inp 3 append_take_drop_id [of "unat len" r1]
      by (auto simp: address_wire_def wf_address_def encodeTargetAddress_def min_def)
  qed
  then show "\<exists>bs rest. address_wire address = Some bs \<and> st_input s = bs @ rest \<and> s' = s\<lparr>st_input := rest\<rparr>" by blast
next
  assume "\<exists>bs rest. address_wire address = Some bs \<and> st_input s = bs @ rest \<and> s' = s\<lparr>st_input := rest\<rparr>"
  then obtain bs rest where w: "address_wire address = Some bs" "st_input s = bs @ rest" "s' = s\<lparr>st_input := rest\<rparr>" by blast
  obtain host p where addr: "address = \<lparr>ta_host = host, ta_port = p\<rparr>" by (cases address) auto
  have types: "addressTypeIpv6 \<noteq> addressTypeIpv4" "addressTypeDomain \<noteq> addressTypeIpv4" "addressTypeDomain \<noteq> addressTypeIpv6"
    by (simp_all add: addressTypeIpv6_def addressTypeIpv4_def addressTypeDomain_def)
  have small: "unat (of_nat (length d) :: u8) = length d" if "length d \<le> 255" for d :: bytes
    using that by (simp add: unat_of_nat)
  have nonzero: "(of_nat (length d) :: u8) \<noteq> 0" if "d \<noteq> []" "length d \<le> 255" for d :: bytes
    using small [OF that(2)] that(1) by (metis length_0_conv unsigned_0)
  consider a where "host = Ip (V4 a)" "bs = addressTypeIpv4 # ipv4_octets a @ be16_bytes p"
    | a where "host = Ip (V6 a)" "bs = addressTypeIpv6 # ipv6_octets a @ be16_bytes p"
    | d where "host = Domain d" "bs = addressTypeDomain # of_nat (length d) # d @ be16_bytes p" "d \<noteq> []" "length d \<le> 255" "valid_utf8 d"
    using w(1) by (auto simp: address_wire_def wf_address_def addr encodeTargetAddress_def split: TargetHost.splits IpAddr.splits if_splits)
  then show "readTargetAddress s = (Done address, s')"
  proof cases
    case (3 d)
    with w small [of d] nonzero [of d] types addr show ?thesis
      by (simp add: readTargetAddress_def bind_p_def read_evals pure_p_def)
  qed (use w types addr in \<open>simp_all add: readTargetAddress_def bind_p_def read_evals pure_p_def\<close>)
qed

end
