(* ===== verification/SocksProtocol.thy ===== *)
theory SocksProtocol
  imports ByteStream
begin

text \<open>
  The SOCKS5 handshake of \<open>Socks5/src/protocol.rs\<close>: method negotiation, RFC 1929 credentials, the
  command request and the UDP datagram header. The verifiers of the plugin and account service
  modes are parameters; these two negotiations have the same text in the source but for the name
  of the timeout, and share one definition here.
\<close>

section \<open>Constants and data\<close>

definition socksVersion :: u8 where "socksVersion = 0x05"
definition usernamePasswordVersion :: u8 where "usernamePasswordVersion = 0x01"
definition methodNoAuth :: u8 where "methodNoAuth = 0x00"
definition methodUsernamePassword :: u8 where "methodUsernamePassword = 0x02"
definition methodNoAcceptable :: u8 where "methodNoAcceptable = 0xff"
definition replyGeneralFailure :: u8 where "replyGeneralFailure = 0x01"
definition replyConnectionNotAllowed :: u8 where "replyConnectionNotAllowed = 0x02"
definition replyNetworkUnreachable :: u8 where "replyNetworkUnreachable = 0x03"
definition replyHostUnreachable :: u8 where "replyHostUnreachable = 0x04"
definition replyConnectionRefused :: u8 where "replyConnectionRefused = 0x05"
definition replyTtlExpired :: u8 where "replyTtlExpired = 0x06"

datatype AuthenticationMode = NoAuth | UsernamePassword | Plugin | AccountService

record SocksRequest =
  sr_command :: u8
  sr_destination :: TargetAddress

record UdpPacket =
  up_destination :: TargetAddress
  up_payload :: bytes

section \<open>Credentials\<close>

definition constantTimeEqual :: "bytes \<Rightarrow> bytes \<Rightarrow> bool" where
  "constantTimeEqual expected actual =
     (let maximumLength = max (length expected) (length actual);
          byte = (\<lambda>xs index. if index < length xs then xs ! index else 0)
      in fold (\<lambda>index difference. difference OR unat (byte expected index XOR byte actual index))
           [0..<maximumLength] (length expected XOR length actual) = (0 :: nat))"

definition writeAuthenticationStatus :: "bool \<Rightarrow> unit proto" where
  "writeAuthenticationStatus authenticated =
     bind_p (write_all [usernamePasswordVersion, (if authenticated then 0 else 1)]) (\<lambda>_. flush_p)"

definition readUsernamePassword :: "(bytes \<times> bytes) proto" where
  "readUsernamePassword =
     bind_p read_u8 (\<lambda>version.
     if version \<noteq> usernamePasswordVersion
     then bind_p (writeAuthenticationStatus False) (\<lambda>_. fail_p (UnsupportedVersion version))
     else bind_p read_u8 (\<lambda>usernameLength.
     if usernameLength = 0
     then bind_p (writeAuthenticationStatus False) (\<lambda>_. fail_p AuthenticationFailed)
     else bind_p (read_exact (unat usernameLength)) (\<lambda>usernameBytes.
     bind_p read_u8 (\<lambda>passwordLength.
     if passwordLength = 0
     then bind_p (writeAuthenticationStatus False) (\<lambda>_. fail_p AuthenticationFailed)
     else bind_p (read_exact (unat passwordLength)) (\<lambda>passwordBytes.
     if \<not> valid_utf8 usernameBytes
     then bind_p (writeAuthenticationStatus False) (\<lambda>_. fail_p AuthenticationFailed)
     else if \<not> valid_utf8 passwordBytes
     then bind_p (writeAuthenticationStatus False) (\<lambda>_. fail_p AuthenticationFailed)
     else pure_p (usernameBytes, passwordBytes))))))"

definition authenticateUsernamePassword :: "(bytes, bytes) hashmap \<Rightarrow> bytes proto" where
  "authenticateUsernamePassword users =
     bind_p readUsernamePassword (\<lambda>(username, password).
     let valid = (case hm_get users username of None \<Rightarrow> False | Some expected \<Rightarrow> constantTimeEqual expected password)
     in bind_p (writeAuthenticationStatus valid) (\<lambda>_.
        if \<not> valid then fail_p AuthenticationFailed else pure_p username))"

section \<open>Negotiation\<close>

definition readMethods :: "bytes proto" where
  "readMethods =
     bind_p read_u8 (\<lambda>version.
     if version \<noteq> socksVersion then fail_p (UnsupportedVersion version)
     else bind_p read_u8 (\<lambda>methodCount. read_exact (unat methodCount)))"

definition selectMethod :: "AuthenticationMode \<Rightarrow> bytes \<Rightarrow> u8" where
  "selectMethod mode methods =
     (case mode of
        NoAuth \<Rightarrow> if methodNoAuth \<in> set methods then methodNoAuth else methodNoAcceptable
      | UsernamePassword \<Rightarrow> if methodUsernamePassword \<in> set methods then methodUsernamePassword else methodNoAcceptable
      | Plugin \<Rightarrow> if methodUsernamePassword \<in> set methods then methodUsernamePassword else methodNoAcceptable
      | AccountService \<Rightarrow> if methodUsernamePassword \<in> set methods then methodUsernamePassword else methodNoAcceptable)"

definition negotiateAuthentication ::
  "AuthenticationMode \<Rightarrow> (bytes, bytes) hashmap \<Rightarrow> Stream \<Rightarrow> (Socks5Error, bytes) outcome \<times> Stream" where
  "negotiateAuthentication mode users =
     timeout_p AuthenticationStage (
       bind_p readMethods (\<lambda>methods.
       let selectedMethod = selectMethod mode methods
       in bind_p (write_all [socksVersion, selectedMethod]) (\<lambda>_.
          bind_p flush_p (\<lambda>_.
          if selectedMethod = methodNoAcceptable then fail_p NoAcceptableAuthentication
          else if selectedMethod = methodNoAuth then pure_p []
          else if mode = Plugin \<or> mode = AccountService then fail_p AuthenticationFailed
          else authenticateUsernamePassword users))))"

text \<open>The body shared by the plugin and the account service negotiation; they differ in the timeout.\<close>

definition negotiateVerified :: "TimeoutStage \<Rightarrow> (bytes \<Rightarrow> bytes \<Rightarrow> 't option) \<Rightarrow> Stream \<Rightarrow> (Socks5Error, 't) outcome \<times> Stream" where
  "negotiateVerified stage verifier =
     timeout_p stage (
       bind_p readMethods (\<lambda>methods.
       let selectedMethod = (if methodUsernamePassword \<in> set methods then methodUsernamePassword else methodNoAcceptable)
       in bind_p (write_all [socksVersion, selectedMethod]) (\<lambda>_.
          bind_p flush_p (\<lambda>_.
          if selectedMethod = methodNoAcceptable then fail_p NoAcceptableAuthentication
          else bind_p readUsernamePassword (\<lambda>(username, password).
            let principal = verifier username password
            in bind_p (writeAuthenticationStatus (principal \<noteq> None)) (\<lambda>_.
               case principal of None \<Rightarrow> fail_p AuthenticationFailed | Some p \<Rightarrow> pure_p p))))))"

definition negotiatePluginAuthentication ::
  "(bytes \<Rightarrow> bytes \<Rightarrow> bytes option) \<Rightarrow> Stream \<Rightarrow> (Socks5Error, bytes) outcome \<times> Stream" where
  "negotiatePluginAuthentication verifier = negotiateVerified PluginAuthenticationStage verifier"

definition negotiateExternalAuthentication ::
  "(bytes \<Rightarrow> bytes \<Rightarrow> 't option) \<Rightarrow> Stream \<Rightarrow> (Socks5Error, 't) outcome \<times> Stream" where
  "negotiateExternalAuthentication verifier = negotiateVerified ExternalAuthenticationStage verifier"

section \<open>Requests, replies and datagrams\<close>

definition readRequest :: "Stream \<Rightarrow> (Socks5Error, SocksRequest) outcome \<times> Stream" where
  "readRequest =
     timeout_p RequestStage (
       bind_p read_u8 (\<lambda>version.
       if version \<noteq> socksVersion then fail_p (UnsupportedVersion version)
       else bind_p read_u8 (\<lambda>command.
       bind_p read_u8 (\<lambda>reserved.
       if reserved \<noteq> 0 then fail_p (InvalidReservedByte reserved)
       else bind_p readTargetAddress (\<lambda>destination.
         pure_p \<lparr>sr_command = command, sr_destination = destination\<rparr>)))))"

definition writeReply :: "u8 \<Rightarrow> SocketAddr \<Rightarrow> unit proto" where
  "writeReply replyCode boundAddress =
     bind_p (write_all [socksVersion, replyCode, 0]) (\<lambda>_.
     bind_p (writeTargetAddress (fromSocketAddress boundAddress)) (\<lambda>_. flush_p))"

definition decodeUdpPacket :: "bytes \<Rightarrow> (Socks5Error, UdpPacket) outcome" where
  "decodeUdpPacket rawPacket =
     (if length rawPacket < 4 then Err (InvalidUdpPacket DatagramTooShort)
      else byte_at rawPacket 0 (\<lambda>r0. byte_at rawPacket 1 (\<lambda>r1.
        if r0 \<noteq> 0 \<or> r1 \<noteq> 0 then Err (InvalidUdpPacket ReservedNotZero)
        else byte_at rawPacket 2 (\<lambda>frag.
          if frag \<noteq> 0 then Err (InvalidUdpPacket FragmentsRefused)
          else and_then (decodeTargetAddress rawPacket 3) (\<lambda>(destination, payloadOffset).
            slice_at rawPacket payloadOffset (length rawPacket) (\<lambda>payload.
              Ok \<lparr>up_destination = destination, up_payload = payload\<rparr>))))))"

definition encodeUdpPacket :: "SocketAddr \<Rightarrow> bytes \<Rightarrow> (Socks5Error, bytes) outcome" where
  "encodeUdpPacket source payload =
     and_then (encodeTargetAddress (fromSocketAddress source) [0, 0, 0]) (\<lambda>packet. Ok (packet @ payload))"

definition mapIoErrorToReply :: "ErrorKind \<Rightarrow> u8" where
  "mapIoErrorToReply kind =
     (case kind of
        ConnectionRefused \<Rightarrow> replyConnectionRefused
      | HostUnreachable \<Rightarrow> replyHostUnreachable
      | NetworkUnreachable \<Rightarrow> replyNetworkUnreachable
      | TimedOut \<Rightarrow> replyTtlExpired
      | PermissionDenied \<Rightarrow> replyConnectionNotAllowed
      | _ \<Rightarrow> replyGeneralFailure)"

section \<open>Credential comparison\<close>

lemma fold_or_zero: "fold (\<lambda>i d. d OR f i) is (x :: nat) = 0 \<longleftrightarrow> x = 0 \<and> (\<forall>i \<in> set is. f i = 0)"
  by (induction "is" arbitrary: x) (auto simp: or_eq_0_iff)

lemma xor_zero_iff: "a XOR b = 0 \<longleftrightarrow> a = b" for a b :: "'a :: semiring_bit_operations"
  by (auto simp: bit_eq_iff bit_xor_iff)

lemma constantTimeEqual_eq: "constantTimeEqual expected actual = (expected = actual)"
proof -
  have "constantTimeEqual expected actual \<longleftrightarrow> length expected = length actual
      \<and> (\<forall>i \<in> {0..<length expected}. expected ! i = actual ! i)"
    unfolding constantTimeEqual_def Let_def fold_or_zero unat_0_iff xor_zero_iff by auto
  then show ?thesis by (auto intro: nth_equalityI)
qed

text \<open>
  The comparison of a password that always runs over the longer of the two strings accepts
  exactly equal strings.
\<close>

theorem constantTimeEqual_correct: "constantTimeEqual expected actual = (expected = actual)"
  by (rule constantTimeEqual_eq)

section \<open>Datagrams\<close>

lemma address_wire_ip: "\<exists>bs. address_wire (fromSocketAddress a) = Some bs \<and> encodeTargetAddress (fromSocketAddress a) out = Ok (out @ bs)"
  by (simp add: address_wire_def wf_address_def fromSocketAddress_def encodeTargetAddress_def split: IpAddr.split)

lemma decodeTargetAddress_no_panic: "decodeTargetAddress input off \<noteq> Panic"
  by (auto simp: decodeTargetAddress_def get_byte_def get_range_def decodePort_def Let_def)

lemma decodeUdpPacket_Ok:
  assumes "decodeUdpPacket raw = Ok packet"
  shows "\<exists>bs. address_wire (up_destination packet) = Some bs \<and> raw = [0, 0, 0] @ bs @ up_payload packet"
proof -
  from assms obtain off where zero: "raw ! 0 = 0" "raw ! 1 = 0" "raw ! 2 = 0" "4 \<le> length raw"
    and dec: "decodeTargetAddress raw 3 = Ok (up_destination packet, off)" and pay: "up_payload packet = drop off raw"
    by (auto simp: decodeUdpPacket_def outcome_Ok_iffs subslice_def split: if_splits)
  from address.enc_dec [OF dec] have off: "3 \<le> off" "off \<le> length raw"
    "address_wire (up_destination packet) = Some (subslice 3 off raw)" by simp_all
  have "take 3 raw = [0, 0, 0]"
    using zero by (intro nth_equalityI) (auto simp: less_Suc_eq numeral_3_eq_3 numeral_2_eq_2)
  moreover have "raw = take 3 raw @ subslice 3 off raw @ drop off raw"
    using off by (simp add: subslice_def) (metis append_take_drop_id drop_drop le_add_diff_inverse2)
  ultimately have "raw = [0, 0, 0] @ subslice 3 off raw @ up_payload packet" using pay by simp
  with off(3) show ?thesis by blast
qed

lemma decodeUdpPacket_encoded:
  assumes "address_wire address = Some bs"
  shows "decodeUdpPacket ([0, 0, 0] @ bs @ payload) = Ok \<lparr>up_destination = address, up_payload = payload\<rparr>"
proof -
  have dec: "decodeTargetAddress ([0, 0, 0] @ bs @ payload) 3 = Ok (address, 3 + length bs)"
    using address.dec_enc [OF assms, of "[0, 0, 0]" payload] by (simp add: numeral_3_eq_3)
  have "bs \<noteq> []" using assms
    by (auto simp: address_wire_def encodeTargetAddress_def split: TargetHost.splits IpAddr.splits if_splits)
  then have "0 < length bs" by simp
  moreover have "subslice (3 + length bs) (length ([0, 0, 0] @ bs @ payload)) ([0, 0, 0] @ bs @ payload) = payload"
    by (simp add: subslice_def numeral_3_eq_3)
  ultimately show ?thesis
    using dec by (simp add: decodeUdpPacket_def)
qed

lemma encodeUdpPacket_Ok: "\<exists>raw. encodeUdpPacket source payload = Ok raw
  \<and> decodeUdpPacket raw = Ok \<lparr>up_destination = fromSocketAddress source, up_payload = payload\<rparr>"
proof -
  obtain bs where "address_wire (fromSocketAddress source) = Some bs"
    "encodeTargetAddress (fromSocketAddress source) [0, 0, 0] = Ok ([0, 0, 0] @ bs)" using address_wire_ip by blast
  with decodeUdpPacket_encoded [of "fromSocketAddress source" bs payload]
  show ?thesis by (simp add: encodeUdpPacket_def)
qed

lemma decodeUdpPacket_no_panic: "decodeUdpPacket raw \<noteq> Panic"
proof (cases "length raw < 4")
  case False
  then have "raw \<noteq> []" by auto
  with False show ?thesis
    using decodeTargetAddress_no_panic [of raw 3] address.enc_dec [of raw 3]
    by (auto simp: decodeUdpPacket_def and_then_Panic_iff slice_at_def)
qed (simp add: decodeUdpPacket_def)

text \<open>
  C22: the UDP datagram header. Encoding never fails, and decoding the result gives back the source
  address and the payload; decoding never panics; and a datagram that is accepted consists of the
  three zero bytes, the encoding of its destination and its payload, nothing else.
\<close>

theorem udp_datagram_codec:
  "(\<exists>raw. encodeUdpPacket source payload = Ok raw
      \<and> decodeUdpPacket raw = Ok \<lparr>up_destination = fromSocketAddress source, up_payload = payload\<rparr>)
   \<and> decodeUdpPacket any \<noteq> Panic
   \<and> (case decodeUdpPacket any of
        Ok packet \<Rightarrow> \<exists>bs. address_wire (up_destination packet) = Some bs \<and> any = [0, 0, 0] @ bs @ up_payload packet
      | _ \<Rightarrow> True)"
proof (intro conjI)
  show "case decodeUdpPacket any of
        Ok packet \<Rightarrow> \<exists>bs. address_wire (up_destination packet) = Some bs \<and> any = [0, 0, 0] @ bs @ up_payload packet
      | _ \<Rightarrow> True"
    using decodeUdpPacket_Ok [of any] by (simp split: outcome.split)
qed (rule encodeUdpPacket_Ok decodeUdpPacket_no_panic)+

section \<open>Negotiation\<close>

lemma write_eval: "st_writeFault s = None \<Longrightarrow> write_all bs s = (Done (), s\<lparr>st_output := st_output s @ bs\<rparr>)"
  by (simp add: write_all_def)

lemma flush_eval: "st_writeFault s = None \<Longrightarrow> flush_p s = (Done (), s)"
  by (simp add: flush_p_def)

lemma status_eval: "st_writeFault s = None \<Longrightarrow>
  writeAuthenticationStatus ok s = (Done (), s\<lparr>st_output := st_output s @ [usernamePasswordVersion, if ok then 0 else 1]\<rparr>)"
  by (simp add: writeAuthenticationStatus_def bind_p_def write_eval flush_eval)

lemmas io_evals = write_eval flush_eval status_eval

text \<open>Steps that only read leave the output alone.\<close>

definition quiet :: "'a proto \<Rightarrow> bool" where
  "quiet m \<longleftrightarrow> (\<forall>s r s'. m s = (r, s') \<longrightarrow> st_output s' = st_output s \<and> st_writeFault s' = st_writeFault s)"

lemma quiet_bind: "quiet m \<Longrightarrow> (\<And>a. quiet (f a)) \<Longrightarrow> quiet (bind_p m f)"
  unfolding quiet_def bind_p_def by (fastforce split: prod.splits io.splits)

lemma quiet_basics [simp]: "quiet (pure_p a)" "quiet (fail_p e)" "quiet (read_exact n)"
  by (auto simp: quiet_def pure_p_def fail_p_def read_exact_def split: if_splits StreamEnd.splits)

lemma quiet_reads [simp]: "quiet read_u8" "quiet readMethods"
  by (auto simp: read_u8_def readMethods_def intro!: quiet_bind)

definition methods_frame :: "bytes \<Rightarrow> bytes \<Rightarrow> bool" where
  "methods_frame methods frame \<longleftrightarrow> (\<exists>n. unat n = length methods \<and> frame = [5, n] @ methods)"

definition credentials_frame :: "bytes \<Rightarrow> bytes \<Rightarrow> bytes \<Rightarrow> bool" where
  "credentials_frame username password frame \<longleftrightarrow>
     (\<exists>n m. unat n = length username \<and> unat m = length password \<and> username \<noteq> [] \<and> password \<noteq> []
        \<and> valid_utf8 username \<and> valid_utf8 password \<and> frame = [1, n] @ username @ [m] @ password)"

lemma readMethods_Done:
  "readMethods s = (Done methods, s') \<longleftrightarrow>
     (\<exists>frame rest. methods_frame methods frame \<and> st_input s = frame @ rest \<and> s' = s\<lparr>st_input := rest\<rparr>)"
proof
  assume "readMethods s = (Done methods, s')"
  then obtain n r where "st_input s = 5 # n # r" "unat n \<le> length r" "methods = take (unat n) r" "s' = s\<lparr>st_input := drop (unat n) r\<rparr>"
    by (auto simp: readMethods_def read_Done_iffs fail_p_def socksVersion_def split: if_splits)
  then have "methods_frame methods ([5, n] @ methods)" "st_input s = ([5, n] @ methods) @ drop (unat n) r"
    "s' = s\<lparr>st_input := drop (unat n) r\<rparr>" by (auto simp: methods_frame_def min_def)
  then show "\<exists>frame rest. methods_frame methods frame \<and> st_input s = frame @ rest \<and> s' = s\<lparr>st_input := rest\<rparr>" by blast
next
  assume "\<exists>frame rest. methods_frame methods frame \<and> st_input s = frame @ rest \<and> s' = s\<lparr>st_input := rest\<rparr>"
  then show "readMethods s = (Done methods, s')"
    by (auto simp: methods_frame_def readMethods_def bind_p_def read_evals socksVersion_def)
qed

lemma readUsernamePassword_Done:
  assumes "st_writeFault s = None"
  shows "readUsernamePassword s = (Done (username, password), s') \<longleftrightarrow>
     (\<exists>frame rest. credentials_frame username password frame \<and> st_input s = frame @ rest \<and> s' = s\<lparr>st_input := rest\<rparr>)"
proof
  assume "readUsernamePassword s = (Done (username, password), s')"
  then obtain n m r1 r2 where "st_input s = 1 # n # r1" "n \<noteq> 0" "unat n \<le> length r1" "drop (unat n) r1 = m # r2" "m \<noteq> 0"
    "unat m \<le> length r2" "username = take (unat n) r1" "password = take (unat m) r2" "valid_utf8 username" "valid_utf8 password"
    "s' = s\<lparr>st_input := drop (unat m) r2\<rparr>"
    by (auto simp: readUsernamePassword_def read_Done_iffs fail_p_def pure_p_def usernamePasswordVersion_def split: if_splits)
  moreover from this have "unat n \<noteq> 0" "unat m \<noteq> 0" by (simp_all add: unat_0_iff)
  ultimately have "credentials_frame username password ([1, n] @ username @ [m] @ password)"
    "st_input s = ([1, n] @ username @ [m] @ password) @ drop (unat m) r2" "s' = s\<lparr>st_input := drop (unat m) r2\<rparr>"
    using append_take_drop_id [of "unat n" r1] by (auto simp: credentials_frame_def min_def)
  then show "\<exists>frame rest. credentials_frame username password frame \<and> st_input s = frame @ rest \<and> s' = s\<lparr>st_input := rest\<rparr>" by blast
next
  assume "\<exists>frame rest. credentials_frame username password frame \<and> st_input s = frame @ rest \<and> s' = s\<lparr>st_input := rest\<rparr>"
  then obtain n m rest where "unat n = length username" "unat m = length password" "username \<noteq> []" "password \<noteq> []"
    "valid_utf8 username" "valid_utf8 password" "st_input s = 1 # n # username @ m # password @ rest" "s' = s\<lparr>st_input := rest\<rparr>"
    by (auto simp: credentials_frame_def)
  moreover from this have "n \<noteq> 0" "m \<noteq> 0" by (auto simp: unat_0_iff [symmetric])
  ultimately show "readUsernamePassword s = (Done (username, password), s')"
    by (simp add: readUsernamePassword_def bind_p_def read_evals pure_p_def usernamePasswordVersion_def)
qed

text \<open>\<open>says A B m\<close>: on a writable stream, \<open>m\<close> sends a string of \<open>A\<close> when it finishes and of \<open>B\<close> when it does not.\<close>

definition says :: "bytes set \<Rightarrow> bytes set \<Rightarrow> 'a proto \<Rightarrow> bool" where
  "says A B m \<longleftrightarrow> (\<forall>s r s'. st_writeFault s = None \<longrightarrow> m s = (r, s') \<longrightarrow>
     st_writeFault s' = None \<and> (\<exists>out. st_output s' = st_output s @ out \<and> (case r of Done _ \<Rightarrow> out \<in> A | _ \<Rightarrow> out \<in> B)))"

lemma says_bind:
  assumes m: "says A1 B1 m" and f: "\<And>a. says A2 B2 (f a)"
    and B1: "B1 \<subseteq> B" and A: "\<And>x y. x \<in> A1 \<Longrightarrow> y \<in> A2 \<Longrightarrow> x @ y \<in> A" and B: "\<And>x y. x \<in> A1 \<Longrightarrow> y \<in> B2 \<Longrightarrow> x @ y \<in> B"
  shows "says A B (bind_p m f)"
  unfolding says_def
proof (intro allI impI)
  fix s r s'
  assume wf: "st_writeFault s = None" and run: "bind_p m f s = (r, s')"
  obtain r1 s1 where m1: "m s = (r1, s1)" by fastforce
  with m wf obtain out1 where out1: "st_writeFault s1 = None" "st_output s1 = st_output s @ out1"
    "case r1 of Done _ \<Rightarrow> out1 \<in> A1 | _ \<Rightarrow> out1 \<in> B1" unfolding says_def by blast
  show "st_writeFault s' = None \<and> (\<exists>out. st_output s' = st_output s @ out \<and> (case r of Done _ \<Rightarrow> out \<in> A | _ \<Rightarrow> out \<in> B))"
  proof (cases r1)
    case (Done a)
    with run m1 have "f a s1 = (r, s')" by (simp add: bind_p_def)
    with f [of a] out1(1) obtain out2 where "st_writeFault s' = None" "st_output s' = st_output s1 @ out2"
      "case r of Done _ \<Rightarrow> out2 \<in> A2 | _ \<Rightarrow> out2 \<in> B2" unfolding says_def by blast
    with out1 Done A B show ?thesis by (auto split: io.splits)
  qed (use run m1 out1 B1 in \<open>auto simp: bind_p_def\<close>)
qed

lemma says_quiet: "quiet m \<Longrightarrow> says {[]} {[]} m"
  unfolding says_def quiet_def by (auto split: io.split)

lemma says_weaken:
  assumes "says A B m" and "A \<subseteq> A'" and "B \<subseteq> B'"
  shows "says A' B' m"
  unfolding says_def
proof (intro allI impI)
  fix s r s'
  assume "st_writeFault s = None" and "m s = (r, s')"
  with assms(1) obtain out where "st_writeFault s' = None" "st_output s' = st_output s @ out"
    "case r of Done _ \<Rightarrow> out \<in> A | _ \<Rightarrow> out \<in> B" unfolding says_def by blast
  with assms(2,3) show "st_writeFault s' = None
      \<and> (\<exists>out. st_output s' = st_output s @ out \<and> (case r of Done _ \<Rightarrow> out \<in> A' | _ \<Rightarrow> out \<in> B'))"
    by (cases r) auto
qed

lemma says_basics:
  "says {bs} {} (write_all bs)" "says {[]} {} flush_p" "says {[]} {} (pure_p a)" "says {} {[]} (fail_p e)"
  "says {[1, if ok then 0 else 1]} {} (writeAuthenticationStatus ok)"
  by (auto simp: says_def write_all_def flush_p_def pure_p_def fail_p_def status_eval usernamePasswordVersion_def)

lemma says_refuse: "says {} {[1, 1]} (bind_p (writeAuthenticationStatus False) (\<lambda>_. fail_p e))"
  using says_basics(5) [of False] by (rule says_bind) (auto intro: says_basics(4))

lemma says_read: "quiet m \<Longrightarrow> (\<And>a. says A B (f a)) \<Longrightarrow> [] \<in> B \<Longrightarrow> says A B (bind_p m f)"
  by (rule says_bind [OF says_quiet]) auto

lemma says_if: "says A B x \<Longrightarrow> says A B y \<Longrightarrow> says A B (if c then x else y)"
  by simp

lemma says_ends:
  "says {[]} {[], [1, 1]} (bind_p (writeAuthenticationStatus False) (\<lambda>_. fail_p e))" "says {[]} {[], [1, 1]} (pure_p a)"
  by (auto intro: says_weaken [OF says_refuse] says_weaken [OF says_basics(3)])

lemma says_readUsernamePassword: "says {[]} {[], [1, 1]} readUsernamePassword"
  unfolding readUsernamePassword_def
  by (intro says_ends says_if says_read quiet_reads quiet_basics) simp_all

lemma says_authenticate: "says {[1, 0]} {[], [1, 1]} (authenticateUsernamePassword users)"
  unfolding authenticateUsernamePassword_def
proof (rule says_bind [OF says_readUsernamePassword])
  fix c :: "bytes \<times> bytes"
  obtain u p where c: "c = (u, p)" by fastforce
  define valid where "valid = (case hm_get users u of None \<Rightarrow> False | Some expected \<Rightarrow> constantTimeEqual expected p)"
  have "says {[1, 0]} {[1, 1]} (bind_p (writeAuthenticationStatus valid) (\<lambda>_. if \<not> valid then fail_p AuthenticationFailed else pure_p u))"
  proof (cases valid)
    case True
    then show ?thesis
      using says_basics(5) [of True] by (auto intro!: says_bind [OF _ says_basics(3)])
  next
    case False
    then show ?thesis
      using says_basics(5) [of False] by (auto intro!: says_bind [OF _ says_basics(4)])
  qed
  then show "says {[1, 0]} {[1, 1]} (case c of (username, password) \<Rightarrow>
      let valid = (case hm_get users username of None \<Rightarrow> False | Some expected \<Rightarrow> constantTimeEqual expected password)
      in bind_p (writeAuthenticationStatus valid) (\<lambda>_. if \<not> valid then fail_p AuthenticationFailed else pure_p username))"
    by (simp add: c valid_def Let_def)
qed auto

lemmas method_consts = socksVersion_def methodNoAuth_def methodUsernamePassword_def methodNoAcceptable_def

lemma says_outcome:
  assumes "says A B m" and "st_writeFault s = None" and "timeout_p stage m s = (r, s')"
  shows "(case r of Ok _ \<Rightarrow> st_output s' \<in> (@) (st_output s) ` A | Err _ \<Rightarrow> st_output s' \<in> (@) (st_output s) ` B | Panic \<Rightarrow> False)"
proof -
  obtain q s1 where run: "m s = (q, s1)" by fastforce
  with assms(1,2) obtain out where "st_output s1 = st_output s @ out" "case q of Done _ \<Rightarrow> out \<in> A | _ \<Rightarrow> out \<in> B"
    unfolding says_def by blast
  with run assms(3) show ?thesis by (cases q) (auto simp: timeout_p_def)
qed

lemma says_choose:
  assumes "says A B m"
  shows "says ((@) bs ` A) ((@) bs ` B) (bind_p (write_all bs) (\<lambda>_. bind_p flush_p (\<lambda>_. m)))"
  by (rule says_bind [OF says_basics(1) says_bind [OF says_basics(2) assms]]) auto

lemma says_after_methods:
  assumes "\<And>methods. says A B (f methods)" and "[] \<in> B"
  shows "says A B (bind_p readMethods f)"
  by (rule says_read) (use assms in simp_all)

lemma selectMethod_cases:
  "selectMethod mode methods = methodNoAcceptable \<or> selectMethod mode methods = methodNoAuth
    \<or> selectMethod mode methods = methodUsernamePassword"
  by (simp add: selectMethod_def split: AuthenticationMode.split)

lemma negotiation_says:
  "says {[5, 0], [5, 2, 1, 0]} {[], [5, 0xff], [5, 2], [5, 2, 1, 1]}
     (bind_p readMethods (\<lambda>methods.
       let selectedMethod = selectMethod mode methods
       in bind_p (write_all [socksVersion, selectedMethod]) (\<lambda>_.
          bind_p flush_p (\<lambda>_.
          if selectedMethod = methodNoAcceptable then fail_p NoAcceptableAuthentication
          else if selectedMethod = methodNoAuth then pure_p []
          else if mode = Plugin \<or> mode = AccountService then fail_p AuthenticationFailed
          else authenticateUsernamePassword users))))"
proof (rule says_after_methods, unfold Let_def)
  fix methods
  consider "selectMethod mode methods = methodNoAcceptable" | "selectMethod mode methods = methodNoAuth"
    | "selectMethod mode methods = methodUsernamePassword"
    using selectMethod_cases [of mode methods] by blast
  then show "says {[5, 0], [5, 2, 1, 0]} {[], [5, 0xff], [5, 2], [5, 2, 1, 1]}
      (bind_p (write_all [socksVersion, selectMethod mode methods]) (\<lambda>_. bind_p flush_p (\<lambda>_.
          if selectMethod mode methods = methodNoAcceptable then fail_p NoAcceptableAuthentication
          else if selectMethod mode methods = methodNoAuth then pure_p []
          else if mode = Plugin \<or> mode = AccountService then fail_p AuthenticationFailed
          else authenticateUsernamePassword users)))"
  proof cases
    case 1
    then show ?thesis
      by (simp add: method_consts) (rule says_weaken [OF says_choose [OF says_basics(4)]]; simp)
  next
    case 2
    then show ?thesis
      by (simp add: method_consts) (rule says_weaken [OF says_choose [OF says_basics(3)]]; simp)
  next
    case 3
    then show ?thesis
      by (auto simp: method_consts intro!: says_weaken [OF says_choose [OF says_basics(4)]]
          says_weaken [OF says_choose [OF says_authenticate]])
  qed
qed simp

lemma timeout_Ok_iff: "timeout_p stage m s = (Ok a, s') \<longleftrightarrow> m s = (Done a, s')"
  by (auto simp: timeout_p_def split: prod.splits io.splits)

lemma choose_Done_iff:
  "bind_p (write_all bs) (\<lambda>_. bind_p flush_p (\<lambda>_. m)) s = (Done a, s') \<longleftrightarrow>
     st_writeFault s = None \<and> m (s\<lparr>st_output := st_output s @ bs\<rparr>) = (Done a, s')"
  by (cases "st_writeFault s") (simp_all add: bind_p_def write_all_def flush_p_def)

lemma after_methods_Done_iff:
  "bind_p readMethods (\<lambda>methods. bind_p (write_all (w methods)) (\<lambda>_. bind_p flush_p (\<lambda>_. k methods))) s = (Done a, s') \<longleftrightarrow>
     st_writeFault s = None
     \<and> (\<exists>methods frame rest. methods_frame methods frame \<and> st_input s = frame @ rest
          \<and> k methods (s\<lparr>st_input := rest, st_output := st_output s @ w methods\<rparr>) = (Done a, s'))" (is "?l \<longleftrightarrow> ?r")
proof
  assume ?l
  then obtain methods s1 where m: "readMethods s = (Done methods, s1)" and "st_writeFault s1 = None"
    and k: "k methods (s1\<lparr>st_output := st_output s1 @ w methods\<rparr>) = (Done a, s')"
    unfolding bind_p_Done_iff [of readMethods] choose_Done_iff by blast
  moreover from m obtain frame rest where "methods_frame methods frame" "st_input s = frame @ rest" "s1 = s\<lparr>st_input := rest\<rparr>"
    unfolding readMethods_Done by blast
  ultimately have "st_writeFault s = None" "methods_frame methods frame \<and> st_input s = frame @ rest
      \<and> k methods (s\<lparr>st_input := rest, st_output := st_output s @ w methods\<rparr>) = (Done a, s')" by simp_all
  then show ?r by blast
next
  assume ?r
  then obtain methods rest where "st_writeFault s = None" and m: "readMethods s = (Done methods, s\<lparr>st_input := rest\<rparr>)"
    and k: "k methods (s\<lparr>st_input := rest, st_output := st_output s @ w methods\<rparr>) = (Done a, s')"
    unfolding readMethods_Done by blast
  then show ?l by (simp add: bind_p_Done [where m = readMethods, OF m] choose_Done_iff)
qed

lemma status_Done_iff:
  "bind_p (writeAuthenticationStatus ok) (\<lambda>_. m) s = (Done a, s') \<longleftrightarrow>
     st_writeFault s = None \<and> m (s\<lparr>st_output := st_output s @ [1, if ok then 0 else 1]\<rparr>) = (Done a, s')"
  by (cases "st_writeFault s") (simp_all add: bind_p_def writeAuthenticationStatus_def write_all_def flush_p_def usernamePasswordVersion_def)

lemma authenticate_Done_iff:
  assumes "st_writeFault s = None"
  shows "authenticateUsernamePassword users s = (Done user, s') \<longleftrightarrow>
     (\<exists>password frame rest. credentials_frame user password frame \<and> st_input s = frame @ rest
        \<and> hm_get users user = Some password \<and> s' = s\<lparr>st_input := rest, st_output := st_output s @ [1, 0]\<rparr>)"
proof
  assume "authenticateUsernamePassword users s = (Done user, s')"
  then obtain password s1 where "readUsernamePassword s = (Done (user, password), s1)" "hm_get users user = Some password"
    "s' = s1\<lparr>st_output := st_output s1 @ [1, 0]\<rparr>"
    unfolding authenticateUsernamePassword_def bind_p_Done_iff [of readUsernamePassword] Let_def
    by (auto simp: status_Done_iff constantTimeEqual_eq pure_p_def fail_p_def split: option.splits if_splits)
  moreover from this(1) obtain frame rest where "credentials_frame user password frame" "st_input s = frame @ rest" "s1 = s\<lparr>st_input := rest\<rparr>"
    unfolding readUsernamePassword_Done [OF assms] by blast
  ultimately have "credentials_frame user password frame \<and> st_input s = frame @ rest
        \<and> hm_get users user = Some password \<and> s' = s\<lparr>st_input := rest, st_output := st_output s @ [1, 0]\<rparr>" by simp
  then show "\<exists>password frame rest. credentials_frame user password frame \<and> st_input s = frame @ rest
        \<and> hm_get users user = Some password \<and> s' = s\<lparr>st_input := rest, st_output := st_output s @ [1, 0]\<rparr>" by blast
next
  assume "\<exists>password frame rest. credentials_frame user password frame \<and> st_input s = frame @ rest
        \<and> hm_get users user = Some password \<and> s' = s\<lparr>st_input := rest, st_output := st_output s @ [1, 0]\<rparr>"
  then obtain password rest where "readUsernamePassword s = (Done (user, password), s\<lparr>st_input := rest\<rparr>)"
    and user: "hm_get users user = Some password" "s' = s\<lparr>st_input := rest, st_output := st_output s @ [1, 0]\<rparr>"
    unfolding readUsernamePassword_Done [OF assms] by blast
  then show "authenticateUsernamePassword users s = (Done user, s')"
    by (simp add: authenticateUsernamePassword_def bind_p_Done Let_def status_Done_iff constantTimeEqual_eq pure_p_def assms)
qed

text \<open>
  C23: the built-in negotiation, on a stream that can be written. It succeeds exactly when the peer
  sends a method list that holds the method the mode asks for and, in user name mode, a credential
  frame whose user is registered with that very password; it then has consumed exactly these frames
  and sent \<open>05 00\<close> or \<open>05 02 01 00\<close>. A run that fails has sent nothing, a refusal of the methods, the
  method choice alone, or a negative credential status: never a success code.
\<close>

theorem negotiateAuthentication_decides:
  assumes "st_writeFault s = None"
  shows "(negotiateAuthentication mode users s = (Ok user, s') \<longleftrightarrow>
     (\<exists>methods frame rest. methods_frame methods frame \<and> st_input s = frame @ rest
       \<and> (case mode of
            NoAuth \<Rightarrow> methodNoAuth \<in> set methods \<and> user = []
              \<and> s' = s\<lparr>st_input := rest, st_output := st_output s @ [5, 0]\<rparr>
          | UsernamePassword \<Rightarrow> methodUsernamePassword \<in> set methods
              \<and> (\<exists>password credentials remaining. credentials_frame user password credentials
                   \<and> rest = credentials @ remaining \<and> hm_get users user = Some password
                   \<and> s' = s\<lparr>st_input := remaining, st_output := st_output s @ [5, 2, 1, 0]\<rparr>)
          | _ \<Rightarrow> False)))
   \<and> (case negotiateAuthentication mode users s of
        (Ok _, s') \<Rightarrow> st_output s' \<in> (@) (st_output s) ` {[5, 0], [5, 2, 1, 0]}
      | (Err _, s') \<Rightarrow> st_output s' \<in> (@) (st_output s) ` {[], [5, 0xff], [5, 2], [5, 2, 1, 1]}
      | (Panic, _) \<Rightarrow> False)" (is "(_ = ?accepted) \<and> _")
proof (rule conjI)
  let ?after = "\<lambda>methods rest. s\<lparr>st_input := rest, st_output := st_output s @ [5, selectMethod mode methods]\<rparr>"
  let ?continue = "\<lambda>methods. if selectMethod mode methods = methodNoAcceptable then fail_p NoAcceptableAuthentication
          else if selectMethod mode methods = methodNoAuth then pure_p []
          else if mode = Plugin \<or> mode = AccountService then fail_p AuthenticationFailed
          else authenticateUsernamePassword users"
  have "(negotiateAuthentication mode users s = (Ok user, s')) =
     (\<exists>methods frame rest. methods_frame methods frame \<and> st_input s = frame @ rest
        \<and> ?continue methods (?after methods rest) = (Done user, s'))"
    unfolding negotiateAuthentication_def timeout_Ok_iff Let_def after_methods_Done_iff socksVersion_def
    using assms by simp
  also have "\<dots> = ?accepted"
  proof (intro ex_cong1 conj_cong refl)
    fix methods rest
    show "?continue methods (?after methods rest) = (Done user, s') \<longleftrightarrow>
       (case mode of
            NoAuth \<Rightarrow> methodNoAuth \<in> set methods \<and> user = []
              \<and> s' = s\<lparr>st_input := rest, st_output := st_output s @ [5, 0]\<rparr>
          | UsernamePassword \<Rightarrow> methodUsernamePassword \<in> set methods
              \<and> (\<exists>password credentials remaining. credentials_frame user password credentials
                   \<and> rest = credentials @ remaining \<and> hm_get users user = Some password
                   \<and> s' = s\<lparr>st_input := remaining, st_output := st_output s @ [5, 2, 1, 0]\<rparr>)
          | _ \<Rightarrow> False)"
      by (cases mode) (auto simp: selectMethod_def method_consts pure_p_def fail_p_def authenticate_Done_iff assms)
  qed
  finally show "(negotiateAuthentication mode users s = (Ok user, s')) = ?accepted" .
next
  obtain r s1 where run: "negotiateAuthentication mode users s = (r, s1)" by fastforce
  from says_outcome [OF negotiation_says assms run [unfolded negotiateAuthentication_def]] run
  show "case negotiateAuthentication mode users s of
        (Ok _, s') \<Rightarrow> st_output s' \<in> (@) (st_output s) ` {[5, 0], [5, 2, 1, 0]}
      | (Err _, s') \<Rightarrow> st_output s' \<in> (@) (st_output s) ` {[], [5, 0xff], [5, 2], [5, 2, 1, 1]}
      | (Panic, _) \<Rightarrow> False"
    by simp
qed

definition sampleLogin :: Stream where
  "sampleLogin = \<lparr>st_input = [5, 2, 0, 2, 1, 1, 0x61, 1, 0x70, 9], st_end = Closed, st_output = [], st_writeFault = None\<rparr>"

definition sampleUsers :: "(bytes, bytes) hashmap" where
  "sampleUsers = hm_insert [0x61] [0x70] []"

lemma sampleLogin_frames:
  "methods_frame [0, 2] [5, 2, 0, 2]" "credentials_frame [0x61] [0x70] [1, 1, 0x61, 1, 0x70]"
  "st_input sampleLogin = [5, 2, 0, 2] @ [1, 1, 0x61, 1, 0x70] @ [9]"
  by (auto simp: methods_frame_def credentials_frame_def sampleLogin_def valid_utf8.simps)

lemma hm_get_sample: "hm_get sampleUsers [0x61] = Some [0x70]"
  by (simp add: sampleUsers_def hm_get_def hm_insert_def)

theorem negotiateAuthentication_decides_witness:
  "negotiateAuthentication UsernamePassword sampleUsers sampleLogin
     = (Ok [0x61], sampleLogin\<lparr>st_input := [9], st_output := [5, 2, 1, 0]\<rparr>)"
proof -
  have "st_writeFault sampleLogin = None" by (simp add: sampleLogin_def)
  moreover have "st_output sampleLogin = []" by (simp add: sampleLogin_def)
  ultimately show ?thesis
    using sampleLogin_frames hm_get_sample
    by (subst negotiateAuthentication_decides [THEN conjunct1]) (simp, rule exI [of _ "[0, 2]"], rule exI [of _ "[5, 2, 0, 2]"],
        rule exI [of _ "[1, 1, 0x61, 1, 0x70, 9]"], simp add: methodUsernamePassword_def,
        rule exI [of _ "[0x70]"], rule exI [of _ "[1, 1, 0x61, 1, 0x70]"], simp)
qed

text \<open>
  C24: the two negotiations that ask an external verifier (a plugin or the account service). One
  succeeds with token \<open>t\<close> exactly when the stream can be written, the peer offers user name
  authentication and presents a well-formed credential frame, and the verifier answered \<open>t\<close> for
  exactly the presented user name and password; the bytes sent are then \<open>05 02 01 00\<close> and exactly
  the two frames are consumed. The two differ in nothing but the timeout they report.
\<close>

theorem negotiateVerified_decides:
  "negotiateVerified stage verifier s = (Ok token, s') \<longleftrightarrow>
     st_writeFault s = None
     \<and> (\<exists>methods frame username password credentials rest.
          methods_frame methods frame \<and> methodUsernamePassword \<in> set methods
          \<and> credentials_frame username password credentials \<and> st_input s = frame @ credentials @ rest
          \<and> verifier username password = Some token
          \<and> s' = s\<lparr>st_input := rest, st_output := st_output s @ [5, 2, 1, 0]\<rparr>)" (is "?l \<longleftrightarrow> ?r")
proof
  assume ?l
  then obtain methods frame rest where fault: "st_writeFault s = None" and m: "methods_frame methods frame" "st_input s = frame @ rest"
      "methodUsernamePassword \<in> set methods" and
    k: "bind_p readUsernamePassword (\<lambda>(username, password).
            bind_p (writeAuthenticationStatus (verifier username password \<noteq> None)) (\<lambda>_.
               case verifier username password of None \<Rightarrow> fail_p AuthenticationFailed | Some p \<Rightarrow> pure_p p))
          (s\<lparr>st_input := rest, st_output := st_output s @ [5, 2]\<rparr>) = (Done token, s')"
    unfolding negotiateVerified_def timeout_Ok_iff Let_def after_methods_Done_iff
    by (auto simp: method_consts fail_p_def split: if_splits)
  from k obtain username password s1 where
    c: "readUsernamePassword (s\<lparr>st_input := rest, st_output := st_output s @ [5, 2]\<rparr>) = (Done (username, password), s1)"
      "verifier username password = Some token" "s' = s1\<lparr>st_output := st_output s1 @ [1, 0]\<rparr>"
    unfolding bind_p_Done_iff [of readUsernamePassword]
    by (auto simp: status_Done_iff pure_p_def fail_p_def split: option.splits)
  from c(1) fault obtain credentials remaining where "credentials_frame username password credentials" "rest = credentials @ remaining"
    "s1 = s\<lparr>st_input := remaining, st_output := st_output s @ [5, 2]\<rparr>"
    by (auto simp: readUsernamePassword_Done)
  with m c have "methods_frame methods frame \<and> methodUsernamePassword \<in> set methods
      \<and> credentials_frame username password credentials \<and> st_input s = frame @ credentials @ remaining
      \<and> verifier username password = Some token \<and> s' = s\<lparr>st_input := remaining, st_output := st_output s @ [5, 2, 1, 0]\<rparr>"
    by simp
  with fault show ?r by blast
next
  assume ?r
  then obtain methods frame username password credentials rest where fault: "st_writeFault s = None"
    and m: "methods_frame methods frame" "methodUsernamePassword \<in> set methods" "st_input s = frame @ credentials @ rest"
    and c: "credentials_frame username password credentials" "verifier username password = Some token"
      "s' = s\<lparr>st_input := rest, st_output := st_output s @ [5, 2, 1, 0]\<rparr>" by blast
  let ?s = "s\<lparr>st_input := credentials @ rest, st_output := st_output s @ [5, 2]\<rparr>"
  have "readUsernamePassword ?s = (Done (username, password), ?s\<lparr>st_input := rest\<rparr>)"
    using fault c(1) by (subst readUsernamePassword_Done) auto
  then have "bind_p readUsernamePassword (\<lambda>(username, password).
            bind_p (writeAuthenticationStatus (verifier username password \<noteq> None)) (\<lambda>_.
               case verifier username password of None \<Rightarrow> fail_p AuthenticationFailed | Some p \<Rightarrow> pure_p p)) ?s = (Done token, s')"
    using c fault by (simp add: bind_p_Done status_Done_iff pure_p_def)
  with fault m show ?l
    unfolding negotiateVerified_def timeout_Ok_iff Let_def after_methods_Done_iff
    by - (rule conjI, simp, rule exI [of _ methods], rule exI [of _ frame], rule exI [of _ "credentials @ rest"],
      simp add: method_consts)
qed

text \<open>
  C25: requests and replies. A request is accepted exactly when the next bytes are the version, a
  command, a zero byte and the encoding of an address, of which nothing more is consumed; nothing is
  ever written while reading it. A reply is one frame of the same shape, so that reading it back
  gives the reply code and the bound address; if the stream cannot be written, the fault is reported.
\<close>

theorem readRequest_exact:
  "(readRequest s = (Ok request, s') \<longleftrightarrow>
     (\<exists>bs rest. address_wire (sr_destination request) = Some bs
        \<and> st_input s = [5, sr_command request, 0] @ bs @ rest \<and> s' = s\<lparr>st_input := rest\<rparr>))
   \<and> (case st_writeFault s of
     None \<Rightarrow> \<exists>frame. writeReply replyCode boundAddress s = (Done (), s\<lparr>st_output := st_output s @ frame\<rparr>)
       \<and> readRequest (s\<lparr>st_input := frame @ rest\<rparr>)
          = (Ok \<lparr>sr_command = replyCode, sr_destination = fromSocketAddress boundAddress\<rparr>, s\<lparr>st_input := rest\<rparr>)
   | Some kind \<Rightarrow> writeReply replyCode boundAddress s = (Fail (Io kind), s))"
proof -
  have exact: "readRequest s = (Ok request, s') \<longleftrightarrow>
     (\<exists>bs rest. address_wire (sr_destination request) = Some bs
        \<and> st_input s = [5, sr_command request, 0] @ bs @ rest \<and> s' = s\<lparr>st_input := rest\<rparr>)" (is "_ \<longleftrightarrow> ?r s request s'")
    for s request s'
  proof
    assume "readRequest s = (Ok request, s')"
    then obtain r where "st_input s = 5 # sr_command request # 0 # r"
      and "readTargetAddress (s\<lparr>st_input := r\<rparr>) = (Done (sr_destination request), s')"
      unfolding readRequest_def timeout_Ok_iff
      by (auto simp: read_Done_iffs fail_p_def pure_p_def socksVersion_def split: if_splits)
    then show "?r s request s'" by (auto simp: readTargetAddress_decode)
  next
    assume "?r s request s'"
    then obtain bs rest where "st_input s = 5 # sr_command request # 0 # bs @ rest" "address_wire (sr_destination request) = Some bs"
      and s': "s' = s\<lparr>st_input := rest\<rparr>" by auto
    moreover from this have "readTargetAddress (s\<lparr>st_input := bs @ rest\<rparr>) = (Done (sr_destination request), s')"
      by (subst readTargetAddress_decode) auto
    ultimately show "readRequest s = (Ok request, s')"
      unfolding readRequest_def timeout_Ok_iff by (simp add: bind_p_def read_evals pure_p_def socksVersion_def)
  qed
  obtain bs where bs: "address_wire (fromSocketAddress boundAddress) = Some bs" using address_wire_ip by blast
  have "case st_writeFault s of
     None \<Rightarrow> \<exists>frame. writeReply replyCode boundAddress s = (Done (), s\<lparr>st_output := st_output s @ frame\<rparr>)
       \<and> readRequest (s\<lparr>st_input := frame @ rest\<rparr>)
          = (Ok \<lparr>sr_command = replyCode, sr_destination = fromSocketAddress boundAddress\<rparr>, s\<lparr>st_input := rest\<rparr>)
   | Some kind \<Rightarrow> writeReply replyCode boundAddress s = (Fail (Io kind), s)"
  proof (cases "st_writeFault s")
    case None
    then have "writeReply replyCode boundAddress s = (Done (), s\<lparr>st_output := st_output s @ [5, replyCode, 0] @ bs\<rparr>)"
      by (simp add: writeReply_def bind_p_def io_evals writeTargetAddress_wire [OF _ bs] socksVersion_def)
    moreover have "readRequest (s\<lparr>st_input := ([5, replyCode, 0] @ bs) @ rest\<rparr>)
        = (Ok \<lparr>sr_command = replyCode, sr_destination = fromSocketAddress boundAddress\<rparr>, s\<lparr>st_input := rest\<rparr>)"
      by (subst exact) (simp add: bs)
    ultimately show ?thesis using None by auto
  qed (simp add: writeReply_def bind_p_def write_all_def)
  with exact show ?thesis by blast
qed

end
