(* ===== verification/RustText.thy ===== *)
theory RustText
  imports Net "HOL-Library.Sublist"
begin

text \<open>
  Rust's \<open>str\<close> and the parts of the standard library the text handling of the sources uses. A string
  is the list of its Unicode scalar values (what \<open>chars()\<close> yields), so \<open>trim\<close>, \<open>split\<close> and character
  tests work per scalar and \<open>str::len\<close> is the length of the UTF-8 encoding. Number parsing follows
  \<open>from_str_radix\<close> (a single leading plus sign is accepted), address parsing and printing follow
  \<open>core::net\<close>.
\<close>

type_synonym str = "nat list"

definition lit :: "string \<Rightarrow> str" where
  "lit s = map of_char s"

section \<open>Characters\<close>

definition is_whitespace :: "nat \<Rightarrow> bool" where
  "is_whitespace c = (9 \<le> c \<and> c \<le> 13 \<or> c = 0x20 \<or> c = 0x85 \<or> c = 0xA0 \<or> c = 0x1680
     \<or> 0x2000 \<le> c \<and> c \<le> 0x200A \<or> c = 0x2028 \<or> c = 0x2029 \<or> c = 0x202F \<or> c = 0x205F \<or> c = 0x3000)"

definition is_ascii_whitespace :: "nat \<Rightarrow> bool" where
  "is_ascii_whitespace c = (c = 0x20 \<or> c = 9 \<or> c = 10 \<or> c = 12 \<or> c = 13)"

definition is_control :: "nat \<Rightarrow> bool" where
  "is_control c = (c \<le> 0x1F \<or> 0x7F \<le> c \<and> c \<le> 0x9F)"

definition to_ascii_lower :: "nat \<Rightarrow> nat" where
  "to_ascii_lower c = (if 65 \<le> c \<and> c \<le> 90 then c + 32 else c)"

definition to_digit :: "nat \<Rightarrow> nat \<Rightarrow> nat option" where
  "to_digit radix c =
     (let d = (if 48 \<le> c \<and> c \<le> 57 then c - 48 else if 97 \<le> c \<and> c \<le> 122 then c - 87
               else if 65 \<le> c \<and> c \<le> 90 then c - 55 else radix)
      in if d < radix then Some d else None)"

definition len_utf8 :: "nat \<Rightarrow> nat" where
  "len_utf8 c = (if c < 0x80 then 1 else if c < 0x800 then 2 else if c < 0x10000 then 3 else 4)"

section \<open>Strings\<close>

definition str_len :: "str \<Rightarrow> nat" where
  "str_len s = sum_list (map len_utf8 s)"

definition trim_end :: "(nat \<Rightarrow> bool) \<Rightarrow> str \<Rightarrow> str" where
  "trim_end p s = rev (dropWhile p (rev s))"

definition trim :: "str \<Rightarrow> str" where
  "trim s = dropWhile is_whitespace (trim_end is_whitespace s)"

definition to_ascii_lowercase :: "str \<Rightarrow> str" where
  "to_ascii_lowercase s = map to_ascii_lower s"

fun split_at :: "(nat \<Rightarrow> bool) \<Rightarrow> str \<Rightarrow> str list" where
  "split_at p [] = [[]]"
| "split_at p (c # s) = (if p c then [] # split_at p s else (case split_at p s of [] \<Rightarrow> [[c]] | w # ws \<Rightarrow> (c # w) # ws))"

definition split_ascii_whitespace :: "str \<Rightarrow> str list" where
  "split_ascii_whitespace s = filter (\<lambda>w. w \<noteq> []) (split_at is_ascii_whitespace s)"

definition split_once :: "nat \<Rightarrow> str \<Rightarrow> (str \<times> str) option" where
  "split_once c s = (if c \<in> set s then Some (takeWhile (\<lambda>d. d \<noteq> c) s, drop 1 (dropWhile (\<lambda>d. d \<noteq> c) s)) else None)"

definition strip_prefix :: "str \<Rightarrow> str \<Rightarrow> str option" where
  "strip_prefix p s = (if take (length p) s = p then Some (drop (length p) s) else None)"

definition strip_suffix :: "str \<Rightarrow> str \<Rightarrow> str option" where
  "strip_suffix p s = map_option rev (strip_prefix (rev p) (rev s))"

definition starts_with :: "str \<Rightarrow> str \<Rightarrow> bool" where
  "starts_with p s = (strip_prefix p s \<noteq> None)"

definition ends_with :: "str \<Rightarrow> str \<Rightarrow> bool" where
  "ends_with p s = (strip_suffix p s \<noteq> None)"

fun contains_str :: "str \<Rightarrow> str \<Rightarrow> bool" where
  "contains_str p [] = (p = [])"
| "contains_str p (c # s) = (starts_with p (c # s) \<or> contains_str p s)"

lemma strip_prefix_Some: "strip_prefix p s = Some r \<longleftrightarrow> s = p @ r"
proof
  assume "strip_prefix p s = Some r"
  then have "take (length p) s = p" "r = drop (length p) s" by (auto simp: strip_prefix_def split: if_splits)
  then show "s = p @ r" using append_take_drop_id [of "length p" s] by simp
qed (simp add: strip_prefix_def)

lemma strip_suffix_Some: "strip_suffix p s = Some r \<longleftrightarrow> s = r @ p"
proof -
  have "strip_suffix p s = Some r \<longleftrightarrow> strip_prefix (rev p) (rev s) = Some (rev r)"
    by (auto simp: strip_suffix_def)
  also have "\<dots> \<longleftrightarrow> rev s = rev (r @ p)" by (simp add: strip_prefix_Some)
  finally show ?thesis by (simp only: rev_is_rev_conv)
qed

lemma starts_with_prefix: "starts_with p s \<longleftrightarrow> prefix p s"
  unfolding starts_with_def prefix_def using strip_prefix_Some by blast

lemma contains_str_sublist: "contains_str p s \<longleftrightarrow> sublist p s"
  by (induction s) (auto simp: starts_with_prefix sublist_Cons_right)

lemma split_at_not_Nil [simp]: "split_at p s \<noteq> []"
  by (induction s) (auto split: list.splits)

section \<open>Numbers\<close>

fun digits_value :: "nat \<Rightarrow> nat \<Rightarrow> str \<Rightarrow> nat option" where
  "digits_value radix acc [] = Some acc"
| "digits_value radix acc (c # s) =
     (case to_digit radix c of None \<Rightarrow> None | Some d \<Rightarrow> digits_value radix (acc * radix + d) s)"

definition from_str_radix :: "nat \<Rightarrow> nat \<Rightarrow> str \<Rightarrow> nat option" where
  "from_str_radix maximum radix s =
     (let digits = (case s of [] \<Rightarrow> [] | c # r \<Rightarrow> if c = 43 then r else s)
      in if digits = [] then None
         else (case digits_value radix 0 digits of
                 None \<Rightarrow> None
               | Some v \<Rightarrow> if v \<le> maximum then Some v else None))"

fun print_digits :: "nat \<Rightarrow> nat \<Rightarrow> str" where
  "print_digits radix n =
     (let d = (if n mod radix < 10 then 48 + n mod radix else 87 + n mod radix)
      in if n < radix \<or> radix < 2 then [d] else print_digits radix (n div radix) @ [d])"

declare print_digits.simps [simp del]

section \<open>Address text\<close>

text \<open>The parser of \<open>core::net\<close>: every reader returns its value and the unread text.\<close>

definition read_number :: "nat \<Rightarrow> nat \<Rightarrow> bool \<Rightarrow> nat \<Rightarrow> str \<Rightarrow> (nat \<times> str) option" where
  "read_number radix maxDigits allowZeroPrefix maximum s =
     (let ds = takeWhile (\<lambda>c. to_digit radix c \<noteq> None) s
      in if ds = [] \<or> maxDigits < length ds then None
         else if \<not> allowZeroPrefix \<and> hd ds = 48 \<and> 1 < length ds then None
         else (case digits_value radix 0 ds of
                 None \<Rightarrow> None
               | Some v \<Rightarrow> if v \<le> maximum then Some (v, drop (length ds) s) else None))"

definition read_given_char :: "nat \<Rightarrow> str \<Rightarrow> str option" where
  "read_given_char c s = strip_prefix [c] s"

definition read_separator :: "nat \<Rightarrow> nat \<Rightarrow> (str \<Rightarrow> ('a \<times> str) option) \<Rightarrow> str \<Rightarrow> ('a \<times> str) option" where
  "read_separator sep index inner s =
     (if 0 < index then (case read_given_char sep s of None \<Rightarrow> None | Some r \<Rightarrow> inner r) else inner s)"

fun read_octets :: "nat \<Rightarrow> nat \<Rightarrow> str \<Rightarrow> (nat list \<times> str) option" where
  "read_octets 0 i s = Some ([], s)"
| "read_octets (Suc n) i s =
     (case read_separator 46 i (read_number 10 3 False 255) s of
        None \<Rightarrow> None
      | Some (v, r) \<Rightarrow> (case read_octets n (Suc i) r of None \<Rightarrow> None | Some (vs, r) \<Rightarrow> Some (v # vs, r)))"

definition read_ipv4_addr :: "str \<Rightarrow> (nat list \<times> str) option" where
  "read_ipv4_addr s = read_octets 4 0 s"

text \<open>Groups \<open>i\<close> to \<open>limit\<close>; the result holds the groups read, whether they end in an IPv4 address, and the rest.\<close>

function read_groups :: "nat \<Rightarrow> nat \<Rightarrow> str \<Rightarrow> nat list \<times> bool \<times> str" where
  "read_groups limit i s =
     (if limit \<le> i then ([], False, s)
      else (case (if i + 1 < limit then read_separator 58 i read_ipv4_addr s else None) of
              Some (v4, r) \<Rightarrow> ([v4 ! 0 * 256 + v4 ! 1, v4 ! 2 * 256 + v4 ! 3], True, r)
            | None \<Rightarrow>
                (case read_separator 58 i (read_number 16 4 True 65535) s of
                   None \<Rightarrow> ([], False, s)
                 | Some (g, r) \<Rightarrow> (case read_groups limit (Suc i) r of (gs, v4, r) \<Rightarrow> (g # gs, v4, r)))))"
  by pat_completeness auto
termination
  by (relation "measure (\<lambda>(limit, i, _). limit - i)") auto

definition read_ipv6_addr :: "str \<Rightarrow> (nat list \<times> str) option" where
  "read_ipv6_addr s =
     (case read_groups 8 0 s of (front, v4, r) \<Rightarrow>
        if length front = 8 then Some (front, r)
        else if v4 then None
        else (case strip_prefix [58, 58] r of
                None \<Rightarrow> None
              | Some r \<Rightarrow>
                  (case read_groups (8 - (length front + 1)) 0 r of (back, _, r) \<Rightarrow>
                     Some (front @ replicate (8 - length front - length back) 0 @ back, r))))"

definition ipv4_of :: "nat list \<Rightarrow> Ipv4Addr" where
  "ipv4_of vs = ipv4_from (map of_nat vs)"

definition ipv6_of :: "nat list \<Rightarrow> Ipv6Addr" where
  "ipv6_of gs = ipv6_from (concat (map (\<lambda>g. [of_nat (g div 256), of_nat (g mod 256)]) gs))"

definition parse_with :: "(str \<Rightarrow> ('a \<times> str) option) \<Rightarrow> str \<Rightarrow> 'a option" where
  "parse_with p s = (case p s of Some (a, []) \<Rightarrow> Some a | _ \<Rightarrow> None)"

definition parse_Ipv6Addr :: "str \<Rightarrow> Ipv6Addr option" where
  "parse_Ipv6Addr s = map_option ipv6_of (parse_with read_ipv6_addr s)"

definition parse_IpAddr :: "str \<Rightarrow> IpAddr option" where
  "parse_IpAddr s =
     parse_with (\<lambda>s. case read_ipv4_addr s of
                       Some (v, r) \<Rightarrow> Some (V4 (ipv4_of v), r)
                     | None \<Rightarrow> map_option (\<lambda>(g, r). (V6 (ipv6_of g), r)) (read_ipv6_addr s)) s"

text \<open>\<open>Display\<close> of addresses: the first longest run of at least two zero groups is abbreviated.\<close>

definition print_ipv4 :: "Ipv4Addr \<Rightarrow> str" where
  "print_ipv4 a = concat (map (\<lambda>o'. print_digits 10 (unat o') @ [46]) (butlast (ipv4_octets a)))
     @ print_digits 10 (unat (last (ipv4_octets a)))"

fun segments_of :: "bytes \<Rightarrow> nat list" where
  "segments_of (h # l # rest) = (unat h * 256 + unat l) # segments_of rest"
| "segments_of _ = []"

fun zero_run :: "nat \<Rightarrow> nat \<times> nat \<Rightarrow> nat \<times> nat \<Rightarrow> nat list \<Rightarrow> nat \<times> nat" where
  "zero_run i current longest [] = longest"
| "zero_run i (start, len) longest (g # gs) =
     (if g = 0 then
        (let current = (if len = 0 then i else start, len + 1)
         in zero_run (Suc i) current (if snd longest < snd current then current else longest) gs)
      else zero_run (Suc i) (0, 0) longest gs)"

fun print_groups :: "nat list \<Rightarrow> str" where
  "print_groups [] = []"
| "print_groups [g] = print_digits 16 g"
| "print_groups (g # gs) = print_digits 16 g @ [58] @ print_groups gs"

definition print_ipv6 :: "Ipv6Addr \<Rightarrow> str" where
  "print_ipv6 a =
     (case to_ipv4_mapped a of
        Some m \<Rightarrow> lit ''::ffff:'' @ print_ipv4 m
      | None \<Rightarrow>
          (let segments = segments_of (ipv6_octets a)
           in case zero_run 0 (0, 0) (0, 0) segments of (start, len) \<Rightarrow>
                if 1 < len
                then print_groups (take start segments) @ [58, 58] @ print_groups (drop (start + len) segments)
                else print_groups segments))"

end
