(* ===== verification/Location.thy ===== *)
theory Location
  imports RustText
begin

text \<open>
  The rule matcher of \<open>Location/src\<close>: validation of a location pattern and of a candidate, port
  expressions, and the greedy wildcard matcher. Strings are lists of characters as in \<open>RustText\<close>; the
  Unicode table behind \<open>str::to_lowercase\<close> is a parameter, since no property depends on it.
\<close>

section \<open>Data\<close>

record LocationPattern =
  lp_protocol :: str
  lp_host :: str
  lp_port :: str
  lp_path :: str
  lp_query :: "str option"

record ResolvedLocation =
  rl_protocol :: str
  rl_host :: str
  rl_port :: nat
  rl_path :: str
  rl_query :: str
  rl_display :: str

record LocationMatchOptions =
  lo_caseSensitiveHost :: bool
  lo_normalizePath :: bool

definition LocationMatchOptions_default :: LocationMatchOptions where
  "LocationMatchOptions_default = \<lparr>lo_caseSensitiveHost = False, lo_normalizePath = True\<rparr>"

datatype LocationError = InvalidProtocol | InvalidHost | InvalidPort | InvalidPath | InvalidCandidate

type_synonym 'a location_result = "(LocationError, 'a) outcome"

definition star :: nat where "star = 42"
definition anyone :: nat where "anyone = 63"

section \<open>Validation\<close>

definition validateProtocol :: "str \<Rightarrow> unit location_result" where
  "validateProtocol protocol =
     (if protocol = [] \<or> to_ascii_lowercase protocol \<in>
           {lit ''*'', lit ''http'', lit ''https'', lit ''ws'', lit ''wss'', lit ''socks'', lit ''tcp'', lit ''tls'', lit ''udp''}
      then Ok () else Err InvalidProtocol)"

definition containsQuerySyntax :: "str \<Rightarrow> bool" where
  "containsQuerySyntax host =
     (case split_once 63 host of None \<Rightarrow> False | Some (_, rest) \<Rightarrow> 61 \<in> set rest \<or> 38 \<in> set rest)"

definition stripIpv6Brackets :: "str \<Rightarrow> str" where
  "stripIpv6Brackets host =
     (case strip_prefix [91] host of
        None \<Rightarrow> host
      | Some value \<Rightarrow> (case strip_suffix [93] value of None \<Rightarrow> host | Some v \<Rightarrow> v))"

definition validateHost :: "str \<Rightarrow> unit location_result" where
  "validateHost host =
     (if host = [] \<or> host = [star] then Ok ()
      else if (\<exists>c \<in> set host. is_whitespace c) \<or> 47 \<in> set host \<or> 35 \<in> set host \<or> containsQuerySyntax host
      then Err InvalidHost
      else
        (let hasOpeningBracket = starts_with [91] host;
             hasClosingBracket = ends_with [93] host;
             normalizedHost = stripIpv6Brackets host
         in if hasOpeningBracket \<noteq> hasClosingBracket then Err InvalidHost
            else if normalizedHost = [] then Err InvalidHost
            else if hasOpeningBracket \<and> parse_Ipv6Addr normalizedHost = None then Err InvalidHost
            else if 58 \<in> set normalizedHost \<and> parse_IpAddr normalizedHost = None then Err InvalidHost
            else Ok ()))"

definition validatePath :: "str \<Rightarrow> unit location_result" where
  "validatePath path = (if path = [] \<or> path = [star] \<or> starts_with [47] path then Ok () else Err InvalidPath)"

definition validateCandidate :: "ResolvedLocation \<Rightarrow> unit location_result" where
  "validateCandidate candidate =
     (if rl_protocol candidate = [] \<or> rl_host candidate = [] \<or> rl_port candidate = 0
         \<or> (rl_path candidate \<noteq> [] \<and> \<not> starts_with [47] (rl_path candidate))
         \<or> rl_protocol candidate = [star]
         \<or> validateProtocol (rl_protocol candidate) \<noteq> Ok ()
         \<or> validateHost (rl_host candidate) \<noteq> Ok ()
         \<or> star \<in> set (rl_host candidate) \<or> anyone \<in> set (rl_host candidate)
      then Err InvalidCandidate else Ok ())"

section \<open>Port expressions\<close>

definition parsePort :: "str \<Rightarrow> nat location_result" where
  "parsePort value =
     (case from_str_radix 65535 10 (trim value) of
        None \<Rightarrow> Err InvalidPort
      | Some port \<Rightarrow> if port = 0 then Err InvalidPort else Ok port)"

definition parseRange :: "str \<Rightarrow> (nat \<times> nat) location_result" where
  "parseRange segment0 =
     (let segment = trim segment0
      in if segment = [] then Err InvalidPort
         else
           (let bounds = split_at (\<lambda>c. c = 45) segment
            in and_then (parsePort (hd bounds)) (\<lambda>start.
               and_then (case tl bounds of [] \<Rightarrow> Ok start | value # _ \<Rightarrow> parsePort value) (\<lambda>end'.
                 if 2 < length bounds \<or> end' < start then Err InvalidPort else Ok (start, end')))))"

fun parseSegments :: "str list \<Rightarrow> (nat \<times> nat) list location_result" where
  "parseSegments [] = Ok []"
| "parseSegments (segment # segments) =
     and_then (parseRange segment) (\<lambda>range. and_then (parseSegments segments) (\<lambda>ranges. Ok (range # ranges)))"

definition parsePortRanges :: "str \<Rightarrow> (nat \<times> nat) list location_result" where
  "parsePortRanges portExpression =
     (let trimmedExpression = trim portExpression
      in if trimmedExpression = [] \<or> trimmedExpression = [star] then Ok []
         else parseSegments (split_at (\<lambda>c. c = 44) trimmedExpression))"

definition validateLocationPattern :: "LocationPattern \<Rightarrow> unit location_result" where
  "validateLocationPattern pattern =
     and_then (validateProtocol (lp_protocol pattern)) (\<lambda>_.
     and_then (validateHost (lp_host pattern)) (\<lambda>_.
     and_then (parsePortRanges (lp_port pattern)) (\<lambda>_.
     and_then (validatePath (lp_path pattern)) (\<lambda>_. Ok ()))))"

section \<open>The wildcard matcher\<close>

text \<open>
  The loop of \<open>wildcardMatches\<close> with its four variables; \<open>None\<close> is the early \<open>return false\<close>. Before the
  first backtracking step only \<open>patternIndex\<close> grows; from then on every step either moves to a later
  star, retries a star one character later, or consumes pattern.
\<close>

definition star_ahead :: "nat \<Rightarrow> nat \<Rightarrow> nat option \<Rightarrow> nat \<Rightarrow> nat" where
  "star_ahead patternIndex candidateIndex latestStar starCandidateIndex =
     (case latestStar of None \<Rightarrow> 0 | Some s \<Rightarrow> if s < patternIndex \<and> starCandidateIndex \<le> candidateIndex then 0 else 1)"

function wildcardLoop :: "str \<Rightarrow> str \<Rightarrow> nat \<Rightarrow> nat \<Rightarrow> nat option \<Rightarrow> nat \<Rightarrow> nat option" where
  "wildcardLoop pattern candidate patternIndex candidateIndex latestStar starCandidateIndex =
     (if candidateIndex < length candidate then
        if patternIndex < length pattern
           \<and> (pattern ! patternIndex = anyone \<or> pattern ! patternIndex = candidate ! candidateIndex)
        then wildcardLoop pattern candidate (patternIndex + 1) (candidateIndex + 1) latestStar starCandidateIndex
        else if patternIndex < length pattern \<and> pattern ! patternIndex = star
        then wildcardLoop pattern candidate (patternIndex + 1) candidateIndex (Some patternIndex) candidateIndex
        else
          (case latestStar of
             None \<Rightarrow> None
           | Some starIndex \<Rightarrow>
               wildcardLoop pattern candidate (starIndex + 1) (starCandidateIndex + 1) (Some starIndex) (starCandidateIndex + 1))
      else Some patternIndex)"
  by pat_completeness auto
termination
  by (relation "measures [
        \<lambda>(p, c, pi, ci, st, si). star_ahead pi ci st si,
        \<lambda>(p, c, pi, ci, st, si). case st of None \<Rightarrow> length p + 1 | Some s \<Rightarrow> length p - s,
        \<lambda>(p, c, pi, ci, st, si). length c - si,
        \<lambda>(p, c, pi, ci, st, si). length p - pi]")
    (auto simp: star_ahead_def split: option.splits if_splits)

definition wildcardMatches :: "str \<Rightarrow> str \<Rightarrow> bool" where
  "wildcardMatches pattern candidate =
     (case wildcardLoop pattern candidate 0 0 None 0 of
        None \<Rightarrow> False
      | Some patternIndex \<Rightarrow>
          patternIndex + length (takeWhile (\<lambda>c. c = star) (drop patternIndex pattern)) = length pattern)"

declare wildcardLoop.simps [simp del]

section \<open>Matching\<close>

definition matchesProtocol :: "str \<Rightarrow> str \<Rightarrow> bool" where
  "matchesProtocol pattern candidate =
     (pattern = [] \<or> pattern = [star] \<or> to_ascii_lowercase pattern = to_ascii_lowercase candidate)"

definition matchesHost :: "(str \<Rightarrow> str) \<Rightarrow> str \<Rightarrow> str \<Rightarrow> bool \<Rightarrow> bool" where
  "matchesHost to_lowercase pattern candidate caseSensitive =
     (if pattern = [] \<or> pattern = [star] then True
      else
        (let pattern = stripIpv6Brackets pattern; candidate = stripIpv6Brackets candidate
         in if caseSensitive then wildcardMatches pattern candidate
            else wildcardMatches (to_lowercase pattern) (to_lowercase candidate)))"

definition matchesPort :: "str \<Rightarrow> nat \<Rightarrow> bool location_result" where
  "matchesPort portExpression candidate =
     and_then (parsePortRanges portExpression) (\<lambda>ranges.
       Ok (ranges = [] \<or> (\<exists>(start, end') \<in> set ranges. start \<le> candidate \<and> candidate \<le> end')))"

definition normalizedPath :: "str \<Rightarrow> bool \<Rightarrow> str" where
  "normalizedPath path doNormalize =
     (if \<not> doNormalize \<or> path = [47] then path
      else (let normalized = trim_end (\<lambda>c. c = 47) path in if normalized = [] then [47] else normalized))"

definition matchesPath :: "str \<Rightarrow> str \<Rightarrow> bool \<Rightarrow> bool" where
  "matchesPath pattern candidate normalizePath =
     (if pattern = [] \<or> pattern = [star] then True
      else
        (let pattern = normalizedPath pattern normalizePath; candidate = normalizedPath candidate normalizePath
         in if star \<in> set pattern \<or> anyone \<in> set pattern then wildcardMatches pattern candidate
            else candidate = pattern
              \<or> (case strip_prefix pattern candidate of None \<Rightarrow> False | Some rest \<Rightarrow> starts_with [47] rest)))"

definition matchesQuery :: "str option \<Rightarrow> str \<Rightarrow> bool" where
  "matchesQuery pattern candidate =
     (case pattern of
        None \<Rightarrow> True
      | Some pattern \<Rightarrow>
          if pattern = [] \<or> pattern = [star] then True
          else if star \<in> set pattern \<or> anyone \<in> set pattern then wildcardMatches pattern candidate
          else contains_str pattern candidate)"

definition locationMatches ::
  "(str \<Rightarrow> str) \<Rightarrow> LocationPattern \<Rightarrow> ResolvedLocation \<Rightarrow> LocationMatchOptions \<Rightarrow> bool location_result" where
  "locationMatches to_lowercase pattern candidate options =
     and_then (validateLocationPattern pattern) (\<lambda>_.
     and_then (validateCandidate candidate) (\<lambda>_.
       if \<not> matchesProtocol (lp_protocol pattern) (rl_protocol candidate) then Ok False
       else if \<not> matchesHost to_lowercase (lp_host pattern) (rl_host candidate) (lo_caseSensitiveHost options) then Ok False
       else and_then (matchesPort (lp_port pattern) (rl_port candidate)) (\<lambda>portMatches.
         if \<not> portMatches then Ok False
         else if \<not> matchesPath (lp_path pattern) (rl_path candidate) (lo_normalizePath options) then Ok False
         else Ok (matchesQuery (lp_query pattern) (rl_query candidate)))))"

end
