(* ===== verification/LocationProperties.thy ===== *)
theory LocationProperties
  imports Location
begin

text \<open>
  The wildcard matcher against a declarative definition of globbing, port expressions against their
  printed form, and the meaning of a whole location rule.
\<close>

section \<open>Globbing\<close>

text \<open>The meaning of a pattern: a star stands for any string, a question mark for any character.\<close>

fun glob :: "str \<Rightarrow> str \<Rightarrow> bool" where
  "glob [] c = (c = [])"
| "glob (x # p) c =
     (if x = star then \<exists>k \<le> length c. glob p (drop k c)
      else (case c of [] \<Rightarrow> False | y # r \<Rightarrow> (x = anyone \<or> x = y) \<and> glob p r))"

lemma glob_Nil: "glob p [] \<longleftrightarrow> (\<forall>x \<in> set p. x = star)"
  by (induction p) auto

lemma glob_star_drop:
  assumes "n \<le> length c"
  shows "glob (star # p) (drop n c) \<longleftrightarrow> glob p (drop n c) \<or> (\<exists>k. n < k \<and> k \<le> length c \<and> glob p (drop k c))"
    (is "?l \<longleftrightarrow> ?r")
proof
  assume ?l
  then obtain j where j: "j \<le> length c - n" "glob p (drop (n + j) c)" by (auto simp: add.commute)
  show ?r
  proof (cases "j = 0")
    case False
    with j assms have "n < n + j" "n + j \<le> length c" by auto
    with j(2) show ?thesis by blast
  qed (use j in simp)
next
  assume ?r
  then obtain k where k: "n \<le> k" "k \<le> length c" "glob p (drop k c)"
    using assms by (meson less_imp_le order_refl)
  then have "k - n \<le> length (drop n c)" "glob p (drop (k - n) (drop n c))" by auto
  then show ?l by auto
qed

lemma glob_segment:
  assumes "glob q c" and "n \<le> length q" and "\<forall>i < n. q ! i \<noteq> star"
  shows "n \<le> length c \<and> glob (drop n q) (drop n c)"
  using assms
proof (induction n arbitrary: q c)
  case (Suc n)
  then obtain x p where q: "q = x # p" by (cases q) auto
  with Suc.prems(3) have "x \<noteq> star" by auto
  with Suc.prems(1) q obtain y r where c: "c = y # r" "glob p r" by (auto split: list.splits)
  moreover have "\<forall>i < n. p ! i \<noteq> star" using Suc.prems(3) q by auto
  ultimately show ?case using Suc.IH [of p r] Suc.prems(2) q by auto
qed simp

lemma glob_star_mono: "glob (star # p) (drop k c) \<Longrightarrow> j \<le> k \<Longrightarrow> k \<le> length c \<Longrightarrow> glob (star # p) (drop j c)"
proof -
  assume "glob (star # p) (drop k c)" and jk: "j \<le> k" "k \<le> length c"
  then obtain n where "n \<le> length c - k" "glob p (drop (k + n) c)" by (auto simp: add.commute)
  with jk have "k - j + n \<le> length (drop j c)" "glob p (drop (k - j + n) (drop j c))" by auto
  then show ?thesis by auto
qed

definition star_inv :: "str \<Rightarrow> str \<Rightarrow> nat \<Rightarrow> nat \<Rightarrow> nat option \<Rightarrow> nat \<Rightarrow> bool" where
  "star_inv p c pi ci st si \<longleftrightarrow> ci \<le> length c \<and> pi \<le> length p
     \<and> (case st of None \<Rightarrow> True
        | Some s \<Rightarrow> s < pi \<and> si \<le> ci \<and> p ! s = star \<and> pi - Suc s = ci - si \<and> (\<forall>i. s < i \<and> i < pi \<longrightarrow> p ! i \<noteq> star))"

definition expected :: "str \<Rightarrow> str \<Rightarrow> nat \<Rightarrow> nat \<Rightarrow> nat option \<Rightarrow> nat \<Rightarrow> bool" where
  "expected p c pi ci st si \<longleftrightarrow> glob (drop pi p) (drop ci c)
     \<or> (case st of None \<Rightarrow> False | Some s \<Rightarrow> \<exists>k. si < k \<and> k \<le> length c \<and> glob (drop (Suc s) p) (drop k c))"

text \<open>An alternative for an earlier star skips a fixed number of characters, so it ends no earlier than this one.\<close>

lemma earlier_star:
  assumes inv: "star_inv p c pi ci (Some s) si" and alt: "si < k" "k \<le> length c" "glob (drop (Suc s) p) (drop k c)"
  shows "\<exists>j. ci < j \<and> j \<le> length c \<and> glob (drop pi p) (drop j c)"
proof -
  let ?n = "pi - Suc s"
  from inv have n: "s < pi" "pi \<le> length p" "si \<le> ci" "?n = ci - si" "\<forall>i. s < i \<and> i < pi \<longrightarrow> p ! i \<noteq> star"
    by (auto simp: star_inv_def)
  have "\<forall>i < ?n. drop (Suc s) p ! i \<noteq> star" using n by auto
  with alt(3) n have "?n \<le> length (drop k c)" "glob (drop ?n (drop (Suc s) p)) (drop ?n (drop k c))"
    using glob_segment [of "drop (Suc s) p" "drop k c" ?n] by auto
  moreover have "?n + Suc s = pi" using n(1) by simp
  ultimately have "k + ?n \<le> length c" "glob (drop pi p) (drop (k + ?n) c)" using alt(2) by (auto simp: add.commute)
  moreover have "ci < k + ?n" using n alt(1) by linarith
  ultimately show ?thesis by blast
qed

definition finished :: "str \<Rightarrow> nat option \<Rightarrow> bool" where
  "finished p r \<longleftrightarrow> (case r of None \<Rightarrow> False | Some i \<Rightarrow> \<forall>x \<in> set (drop i p). x = star)"

lemma wildcardLoop_expected:
  "star \<notin> set c \<Longrightarrow> star_inv p c pi ci st si \<Longrightarrow> finished p (wildcardLoop p c pi ci st si) = expected p c pi ci st si"
proof (induction p c pi ci st si rule: wildcardLoop.induct)
  case (1 p c pi ci st si)
  note no_star = "1.prems"(1) and inv = "1.prems"(2)
  consider "length c \<le> ci" | "ci < length c" "pi < length p" "p ! pi = anyone \<or> p ! pi = c ! ci"
    | "ci < length c" "pi < length p" "p ! pi \<noteq> anyone" "p ! pi \<noteq> c ! ci" "p ! pi = star"
    | "ci < length c" "pi < length p \<longrightarrow> p ! pi \<noteq> anyone \<and> p ! pi \<noteq> c ! ci \<and> p ! pi \<noteq> star"
    by fastforce
  then show ?case
  proof cases
    case 1
    then have "wildcardLoop p c pi ci st si = Some pi" by (simp add: wildcardLoop.simps)
    moreover have "\<not> (\<exists>k. si < k \<and> k \<le> length c \<and> glob (drop (Suc s) p) (drop k c))" if "st = Some s" for s
      using earlier_star [of p c pi ci s si] inv that 1 by fastforce
    ultimately show ?thesis
      using 1 by (auto simp: finished_def expected_def glob_Nil split: option.split)
  next
    case 2
    then have step: "wildcardLoop p c pi ci st si = wildcardLoop p c (pi + 1) (ci + 1) st si"
      by (simp add: wildcardLoop.simps [of p c pi])
    have "c ! ci \<noteq> star" using 2 no_star nth_mem by metis
    then have "p ! pi \<noteq> star" using 2 by (auto simp: star_def anyone_def)
    then have "star_inv p c (pi + 1) (ci + 1) st si"
      using inv 2 by (auto simp: star_inv_def less_Suc_eq Suc_diff_le split: option.splits)
    moreover have "glob (drop pi p) (drop ci c) = glob (drop (pi + 1) p) (drop (ci + 1) c)"
      using 2 \<open>p ! pi \<noteq> star\<close> by (simp add: Cons_nth_drop_Suc [symmetric])
    ultimately show ?thesis
      using "1.IH"(1) 2 step no_star by (simp add: expected_def)
  next
    case 3
    then have step: "wildcardLoop p c pi ci st si = wildcardLoop p c (pi + 1) ci (Some pi) ci"
      by (simp add: wildcardLoop.simps [of p c pi])
    have drop_pi: "drop pi p = star # drop (Suc pi) p" using 3 by (metis Cons_nth_drop_Suc)
    have "star_inv p c (pi + 1) ci (Some pi) ci" using inv 3 by (auto simp: star_inv_def)
    with "1.IH"(2) 3 step no_star have "finished p (wildcardLoop p c pi ci st si) = expected p c (pi + 1) ci (Some pi) ci" by simp
    also have "\<dots> = glob (drop pi p) (drop ci c)"
      unfolding drop_pi expected_def using 3 glob_star_drop [of ci c "drop (Suc pi) p"] by simp
    also have "\<dots> = expected p c pi ci st si"
    proof -
      have "glob (drop pi p) (drop ci c)" if "st = Some s" "si < k" "k \<le> length c" "glob (drop (Suc s) p) (drop k c)" for s k
      proof -
        from earlier_star [of p c pi ci s si k] inv that
        obtain j where "ci < j" "j \<le> length c" "glob (star # drop (Suc pi) p) (drop j c)" unfolding drop_pi by blast
        then show ?thesis unfolding drop_pi using glob_star_mono less_imp_le by blast
      qed
      then show ?thesis by (auto simp: expected_def split: option.split)
    qed
    finally show ?thesis .
  next
    case 4
    have no: "\<not> glob (drop pi p) (drop ci c)"
    proof (cases "pi < length p")
      case True
      with 4 show ?thesis by (simp add: Cons_nth_drop_Suc [symmetric])
    qed (use 4 in simp)
    show ?thesis
    proof (cases st)
      case None
      with 4 have "wildcardLoop p c pi ci st si = None" by (subst wildcardLoop.simps) auto
      with None no show ?thesis by (simp add: finished_def expected_def)
    next
      case (Some s)
      with 4 have step: "wildcardLoop p c pi ci st si = wildcardLoop p c (s + 1) (si + 1) (Some s) (si + 1)"
        by (subst wildcardLoop.simps) auto
      have "si < length c" using inv 4 Some by (auto simp: star_inv_def)
      moreover from this have "star_inv p c (s + 1) (si + 1) (Some s) (si + 1)"
        using inv Some by (auto simp: star_inv_def)
      ultimately have "finished p (wildcardLoop p c pi ci st si) = expected p c (s + 1) (si + 1) (Some s) (si + 1)"
        using "1.IH"(3) [of s] 4 Some step no_star by auto
      also have "\<dots> = expected p c pi ci st si"
        using no Some \<open>si < length c\<close> by (auto simp: expected_def) (meson Suc_lessD, metis Suc_lessI)
      finally show ?thesis .
    qed
  qed
qed

lemma takeWhile_star: "i \<le> length p \<Longrightarrow>
  i + length (takeWhile (\<lambda>x. x = star) (drop i p)) = length p \<longleftrightarrow> (\<forall>x \<in> set (drop i p). x = star)"
proof -
  assume "i \<le> length p"
  then have "i + length (takeWhile (\<lambda>x. x = star) (drop i p)) = length p
      \<longleftrightarrow> length (takeWhile (\<lambda>x. x = star) (drop i p)) = length (drop i p)" by auto
  also have "\<dots> \<longleftrightarrow> takeWhile (\<lambda>x. x = star) (drop i p) = drop i p"
    by (metis append_eq_conv_conj order_refl take_all takeWhile_dropWhile_id)
  finally show ?thesis by (simp add: takeWhile_eq_all_conv)
qed

lemma wildcardLoop_bound: "wildcardLoop p c pi ci st si = Some i \<Longrightarrow> pi \<le> length p \<Longrightarrow>
    (case st of None \<Rightarrow> True | Some s \<Rightarrow> s < length p) \<Longrightarrow> i \<le> length p"
proof (induction p c pi ci st si rule: wildcardLoop.induct)
  case (1 p c pi ci st si)
  from "1.prems" show ?case
    by (subst (asm) wildcardLoop.simps) (use 1 in \<open>auto split: if_splits option.splits\<close>)
qed

lemma wildcardMatches_eq_glob: "star \<notin> set candidate \<Longrightarrow> wildcardMatches pattern candidate = glob pattern candidate"
proof -
  assume no_star: "star \<notin> set candidate"
  have "wildcardMatches pattern candidate = finished pattern (wildcardLoop pattern candidate 0 0 None 0)"
    using wildcardLoop_bound [of pattern candidate 0 0 None 0]
    by (auto simp: wildcardMatches_def finished_def takeWhile_star split: option.split)
  also have "\<dots> = expected pattern candidate 0 0 None 0"
    by (rule wildcardLoop_expected [OF no_star]) (simp add: star_inv_def)
  finally show ?thesis by (simp add: expected_def)
qed

text \<open>
  C26: the greedy matcher with its single backtracking position decides exactly the globbing relation,
  for every candidate that holds no literal star. It is a total function: the loop always ends.
\<close>

theorem wildcardMatches_glob:
  assumes "star \<notin> set candidate"
  shows "wildcardMatches pattern candidate = glob pattern candidate"
  by (rule wildcardMatches_eq_glob [OF assms])

theorem wildcardMatches_glob_witness:
  "wildcardMatches (lit ''/a*?c*'') (lit ''/abcxbccz'') = glob (lit ''/a*?c*'') (lit ''/abcxbccz'')"
  by (rule wildcardMatches_glob) (simp add: lit_def star_def)

text \<open>
  The hypothesis matters: a star of the pattern that meets a literal star of the candidate is consumed
  as an ordinary character and is not remembered, so \<open>/a*\<close> does not match \<open>/a*b\<close>.
\<close>

lemma wildcardMatches_literal_star:
  "\<not> wildcardMatches (lit ''/a*'') (lit ''/a*b'') \<and> glob (lit ''/a*'') (lit ''/a*b'')"
proof -
  have "wildcardLoop [47, 97, 42] [47, 97, 42, 98] 0 0 None 0 = None"
    by (simp add: wildcardLoop.simps [of _ _ 0] wildcardLoop.simps [of _ _ "Suc 0"] wildcardLoop.simps [of _ _ "Suc (Suc 0)"]
        wildcardLoop.simps [of _ _ "Suc (Suc (Suc 0))"])
  then show ?thesis
    by (simp add: wildcardMatches_def lit_def) (auto simp: star_def anyone_def intro: exI [of _ "Suc (Suc 0)"])
qed

section \<open>Port expressions\<close>

lemma digits_value_append:
  "digits_value radix acc (xs @ ys) = Option.bind (digits_value radix acc xs) (\<lambda>v. digits_value radix v ys)"
  by (induction xs arbitrary: acc) (auto split: option.split)

lemma to_digit_decimal: "d < 10 \<Longrightarrow> to_digit 10 (48 + d) = Some d"
  by (simp add: to_digit_def)

lemma digits_value_print: "digits_value 10 0 (print_digits 10 n) = Some n"
proof (induction n rule: less_induct)
  case (less n)
  show ?case
  proof (cases "n < 10")
    case True
    then show ?thesis by (subst print_digits.simps) (simp add: to_digit_decimal)
  next
    case False
    then have "digits_value 10 0 (print_digits 10 (n div 10)) = Some (n div 10)" by (intro less.IH) simp
    with False show ?thesis
      by (subst print_digits.simps) (simp add: digits_value_append to_digit_decimal Let_def)
  qed
qed

lemma print_digits_chars: "\<forall>c \<in> set (print_digits 10 n). 48 \<le> c \<and> c \<le> 57"
proof (induction n rule: less_induct)
  case (less n)
  have last: "48 \<le> 48 + n mod 10 \<and> 48 + n mod 10 \<le> 57" using mod_less_divisor [of 10 n] by linarith
  show ?case
  proof (cases "n < 10")
    case True
    with last show ?thesis by (subst print_digits.simps) simp
  next
    case False
    then have "\<forall>c \<in> set (print_digits 10 (n div 10)). 48 \<le> c \<and> c \<le> 57" by (intro less.IH) simp
    with False last show ?thesis by (subst print_digits.simps) (simp add: Let_def)
  qed
qed

lemma print_digits_not_Nil [simp]: "print_digits radix n \<noteq> []"
  by (subst print_digits.simps) (simp add: Let_def)

lemma trim_id: "(\<And>c. c \<in> set s \<Longrightarrow> \<not> is_whitespace c) \<Longrightarrow> trim s = s"
  by (simp add: trim_def trim_end_def dropWhile_eq_self_iff hd_rev)
    (metis dropWhile_eq_self_iff hd_in_set list.set_sel(1) rev_rev_ident set_rev)

lemma digit_not_whitespace: "48 \<le> c \<and> c \<le> 57 \<Longrightarrow> \<not> is_whitespace c"
  by (auto simp: is_whitespace_def)

lemma parsePort_print: "0 < n \<Longrightarrow> n \<le> 65535 \<Longrightarrow> parsePort (print_digits 10 n) = Ok n"
proof -
  assume n: "0 < n" "n \<le> 65535"
  have "trim (print_digits 10 n) = print_digits 10 n"
    using print_digits_chars digit_not_whitespace by (intro trim_id) blast
  moreover have "(case print_digits 10 n of [] \<Rightarrow> [] | c # r \<Rightarrow> if c = 43 then r else print_digits 10 n) = print_digits 10 n"
    using print_digits_chars [of n] by (cases "print_digits 10 n") auto
  ultimately show ?thesis
    using n by (simp add: parsePort_def from_str_radix_def digits_value_print)
qed

lemma split_at_none: "(\<And>c. c \<in> set w \<Longrightarrow> \<not> p c) \<Longrightarrow> split_at p w = [w]"
  by (induction w) auto

lemma split_at_cons: "(\<And>c. c \<in> set w \<Longrightarrow> \<not> p c) \<Longrightarrow> p d \<Longrightarrow> split_at p (w @ d # s) = w # split_at p s"
  by (induction w) auto

definition valid_range :: "nat \<times> nat \<Rightarrow> bool" where
  "valid_range r \<longleftrightarrow> 0 < fst r \<and> fst r \<le> snd r \<and> snd r \<le> 65535"

definition print_range :: "nat \<times> nat \<Rightarrow> str" where
  "print_range r = (if fst r = snd r then print_digits 10 (fst r)
                    else print_digits 10 (fst r) @ [45] @ print_digits 10 (snd r))"

fun print_ranges :: "(nat \<times> nat) list \<Rightarrow> str" where
  "print_ranges [] = []"
| "print_ranges [r] = print_range r"
| "print_ranges (r # rs) = print_range r @ [44] @ print_ranges rs"

lemma print_range_chars: "c \<in> set (print_range r) \<Longrightarrow> c = 45 \<or> 48 \<le> c \<and> c \<le> 57"
  using print_digits_chars by (auto simp: print_range_def split: if_splits)

lemma print_range_plain: "c \<in> set (print_range r) \<Longrightarrow> \<not> is_whitespace c \<and> c \<noteq> 44"
  by (drule print_range_chars) (auto simp: is_whitespace_def)

lemma print_range_not_Nil: "print_range r \<noteq> []"
  by (simp add: print_range_def)

lemma print_ranges_chars: "c \<in> set (print_ranges rs) \<Longrightarrow> c = 44 \<or> c = 45 \<or> 48 \<le> c \<and> c \<le> 57"
  by (induction rs rule: print_ranges.induct) (auto dest: print_range_chars)

lemma parseRange_print:
  assumes "valid_range r"
  shows "parseRange (print_range r) = Ok r"
proof -
  have whitespace: "trim (print_range r) = print_range r"
    using print_range_plain by (intro trim_id) blast
  have digits: "c \<in> set (print_digits 10 n) \<Longrightarrow> c \<noteq> 45" for c n
    using print_digits_chars [of n] by auto
  show ?thesis
  proof (cases "fst r = snd r")
    case True
    then have "split_at (\<lambda>c. c = 45) (print_range r) = [print_digits 10 (fst r)]"
      using split_at_none [of "print_digits 10 (fst r)" "\<lambda>c. c = 45"] digits by (auto simp: print_range_def)
    with True assms show ?thesis
      by (simp add: parseRange_def whitespace print_range_not_Nil parsePort_print valid_range_def prod_eq_iff)
  next
    case False
    then have "split_at (\<lambda>c. c = 45) (print_range r) = [print_digits 10 (fst r), print_digits 10 (snd r)]"
      using split_at_cons [of "print_digits 10 (fst r)" "\<lambda>c. c = 45" 45 "print_digits 10 (snd r)"]
        split_at_none [of "print_digits 10 (snd r)" "\<lambda>c. c = 45"] digits by (auto simp: print_range_def)
    with assms show ?thesis
      by (simp add: parseRange_def whitespace print_range_not_Nil parsePort_print valid_range_def prod_eq_iff)
  qed
qed

lemma parseSegments_print:
  "rs \<noteq> [] \<Longrightarrow> list_all valid_range rs \<Longrightarrow> parseSegments (split_at (\<lambda>c. c = 44) (print_ranges rs)) = Ok rs"
proof (induction rs rule: print_ranges.induct)
  case (2 r)
  have "split_at (\<lambda>c. c = 44) (print_range r) = [print_range r]"
    using print_range_plain by (intro split_at_none) blast
  with 2 show ?case by (simp add: parseRange_print)
next
  case (3 r r' rs)
  have "split_at (\<lambda>c. c = 44) (print_range r @ 44 # print_ranges (r' # rs))
      = print_range r # split_at (\<lambda>c. c = 44) (print_ranges (r' # rs))"
    using print_range_plain by (intro split_at_cons) blast+
  with 3 show ?case by (simp add: parseRange_print)
qed simp

lemma print_ranges_not_special: "rs \<noteq> [] \<Longrightarrow> print_ranges rs \<noteq> [] \<and> print_ranges rs \<noteq> [star]"
proof -
  assume "rs \<noteq> []"
  then have "print_ranges rs \<noteq> []" by (induction rs rule: print_ranges.induct) (auto simp: print_range_not_Nil)
  then show ?thesis using print_ranges_chars [of star rs] by (auto simp: star_def)
qed

lemma parsePort_sound: "case parsePort s of Ok n \<Rightarrow> 0 < n \<and> n \<le> 65535 | Err e \<Rightarrow> e = InvalidPort | Panic \<Rightarrow> False"
  by (auto simp: parsePort_def from_str_radix_def Let_def split: option.splits if_splits)

lemma parseRange_sound: "case parseRange s of Ok r \<Rightarrow> valid_range r | Err e \<Rightarrow> e = InvalidPort | Panic \<Rightarrow> False"
proof -
  let ?bounds = "split_at (\<lambda>c. c = 45) (trim s)"
  consider e where "parsePort (hd ?bounds) = Err e" | n where "parsePort (hd ?bounds) = Ok n"
    using parsePort_sound [of "hd ?bounds"] by (cases "parsePort (hd ?bounds)") auto
  then show ?thesis
  proof cases
    case 1
    then show ?thesis using parsePort_sound [of "hd ?bounds"] by (auto simp: parseRange_def Let_def)
  next
    case (2 n)
    show ?thesis
    proof (cases "tl ?bounds")
      case Nil
      with 2 show ?thesis using parsePort_sound [of "hd ?bounds"] by (auto simp: parseRange_def Let_def valid_range_def)
    next
      case (Cons v vs)
      with 2 show ?thesis using parsePort_sound [of "hd ?bounds"] parsePort_sound [of v]
        by (cases "parsePort v") (auto simp: parseRange_def Let_def valid_range_def)
    qed
  qed
qed

lemma parseSegments_sound:
  "case parseSegments ss of Ok rs \<Rightarrow> list_all valid_range rs | Err e \<Rightarrow> e = InvalidPort | Panic \<Rightarrow> False"
proof (induction ss)
  case (Cons s ss)
  then show ?case
    using parseRange_sound [of s] by (cases "parseRange s"; cases "parseSegments ss") auto
qed simp

text \<open>
  Port expressions. A list of port ranges is recovered exactly from its printed form; and whatever
  the text, parsing yields ranges of non-zero ports whose start is not above their end, or the port
  error, and never panics.
\<close>

theorem parsePortRanges_roundtrip:
  assumes "rs \<noteq> []" and "list_all valid_range rs"
  shows "parsePortRanges (print_ranges rs) = Ok rs
     \<and> (case parsePortRanges text of Ok ranges \<Rightarrow> list_all valid_range ranges | Err e \<Rightarrow> e = InvalidPort | Panic \<Rightarrow> False)"
proof
  have "trim (print_ranges rs) = print_ranges rs"
  proof (rule trim_id)
    fix c assume "c \<in> set (print_ranges rs)"
    from print_ranges_chars [OF this] show "\<not> is_whitespace c" by (auto simp: is_whitespace_def)
  qed
  then show "parsePortRanges (print_ranges rs) = Ok rs"
    using assms print_ranges_not_special by (simp add: parsePortRanges_def parseSegments_print)
  show "case parsePortRanges text of Ok ranges \<Rightarrow> list_all valid_range ranges | Err e \<Rightarrow> e = InvalidPort | Panic \<Rightarrow> False"
    using parseSegments_sound [of "split_at (\<lambda>c. c = 44) (trim text)"] by (simp add: parsePortRanges_def Let_def)
qed

theorem parsePortRanges_roundtrip_witness:
  "parsePortRanges (print_ranges [(80, 80), (8000, 8080)]) = Ok [(80, 80), (8000, 8080)]"
  by (rule parsePortRanges_roundtrip [THEN conjunct1]) (simp_all add: valid_range_def)

section \<open>Rules\<close>

definition rule_matches :: "(str \<Rightarrow> str) \<Rightarrow> LocationPattern \<Rightarrow> ResolvedLocation \<Rightarrow> LocationMatchOptions \<Rightarrow> bool" where
  "rule_matches lower pattern candidate options \<longleftrightarrow>
     (lp_protocol pattern \<in> {[], [star]} \<or> to_ascii_lowercase (lp_protocol pattern) = to_ascii_lowercase (rl_protocol candidate))
     \<and> (let norm = (\<lambda>h. if lo_caseSensitiveHost options then stripIpv6Brackets h else lower (stripIpv6Brackets h))
        in lp_host pattern \<in> {[], [star]} \<or> glob (norm (lp_host pattern)) (norm (rl_host candidate)))
     \<and> (case parsePortRanges (lp_port pattern) of
          Ok ranges \<Rightarrow> ranges = [] \<or> (\<exists>r \<in> set ranges. fst r \<le> rl_port candidate \<and> rl_port candidate \<le> snd r)
        | _ \<Rightarrow> False)
     \<and> (let norm = (\<lambda>p. normalizedPath p (lo_normalizePath options)); p = norm (lp_path pattern); c = norm (rl_path candidate)
        in lp_path pattern \<in> {[], [star]}
           \<or> (if star \<in> set p \<or> anyone \<in> set p then glob p c else c = p \<or> prefix (p @ [47]) c))
     \<and> (case lp_query pattern of
          None \<Rightarrow> True
        | Some q \<Rightarrow> q \<in> {[], [star]}
            \<or> (if star \<in> set q \<or> anyone \<in> set q then glob q (rl_query candidate) else sublist q (rl_query candidate)))"

lemma set_trim_end: "set (trim_end p s) \<subseteq> set s"
  using set_dropWhileD [of _ p "rev s"] by (auto simp: trim_end_def)

lemma star_normalizedPath: "star \<notin> set path \<Longrightarrow> star \<notin> set (normalizedPath path b)"
  using set_trim_end [of "\<lambda>c. c = 47" path] by (auto simp: normalizedPath_def Let_def star_def)

lemma star_stripIpv6Brackets: "star \<notin> set host \<Longrightarrow> star \<notin> set (stripIpv6Brackets host)"
  by (auto simp: stripIpv6Brackets_def strip_prefix_Some strip_suffix_Some split: option.splits)

lemma prefix_boundary:
  "prefix (p @ [47]) c \<longleftrightarrow> (case strip_prefix p c of None \<Rightarrow> False | Some rest \<Rightarrow> starts_with [47] rest)"
proof (cases "strip_prefix p c")
  case None
  then have "\<not> prefix p c" using starts_with_prefix [of p c] by (simp add: starts_with_def)
  with None show ?thesis using append_prefixD by auto
next
  case (Some rest)
  then have "c = p @ rest" by (simp add: strip_prefix_Some)
  with Some show ?thesis by (simp add: starts_with_prefix)
qed

lemma matchesPath_iff:
  assumes "star \<notin> set candidate"
  shows "matchesPath pattern candidate b \<longleftrightarrow> pattern \<in> {[], [star]}
     \<or> (if star \<in> set (normalizedPath pattern b) \<or> anyone \<in> set (normalizedPath pattern b)
        then glob (normalizedPath pattern b) (normalizedPath candidate b)
        else normalizedPath candidate b = normalizedPath pattern b
          \<or> prefix (normalizedPath pattern b @ [47]) (normalizedPath candidate b))"
  using star_normalizedPath [OF assms] by (simp add: matchesPath_def Let_def wildcardMatches_eq_glob prefix_boundary)

lemma matchesQuery_iff:
  assumes "star \<notin> set candidate"
  shows "matchesQuery pattern candidate \<longleftrightarrow> (case pattern of
          None \<Rightarrow> True
        | Some q \<Rightarrow> q \<in> {[], [star]}
            \<or> (if star \<in> set q \<or> anyone \<in> set q then glob q candidate else sublist q candidate))"
  using assms by (simp add: matchesQuery_def wildcardMatches_eq_glob contains_str_sublist split: option.split) blast

lemma matchesHost_iff:
  assumes "star \<notin> set candidate" and "star \<notin> set (lower (stripIpv6Brackets candidate))"
  shows "matchesHost lower pattern candidate sensitive \<longleftrightarrow> pattern \<in> {[], [star]}
     \<or> glob (if sensitive then stripIpv6Brackets pattern else lower (stripIpv6Brackets pattern))
            (if sensitive then stripIpv6Brackets candidate else lower (stripIpv6Brackets candidate))"
  using assms star_stripIpv6Brackets [OF assms(1)] by (simp add: matchesHost_def Let_def wildcardMatches_eq_glob)

text \<open>
  C28: the meaning of a location rule, on every branch. The result is the first validation error of the
  rule or of the candidate; otherwise the rule matches exactly when protocol, host, port, path and query
  all do: globs where the rule has wildcards, a directory prefix for a plain path, a substring for a
  plain query. The lower-casing of hosts is any function that introduces no star; path and query of the
  candidate hold no literal star.
\<close>

theorem locationMatches_spec:
  assumes lower: "\<And>s. star \<notin> set s \<Longrightarrow> star \<notin> set (lower s)"
    and plain: "star \<notin> set (rl_path candidate)" "star \<notin> set (rl_query candidate)"
  shows "locationMatches lower pattern candidate options =
     (case validateLocationPattern pattern of
        Ok _ \<Rightarrow>
          (case validateCandidate candidate of
             Ok _ \<Rightarrow> Ok (rule_matches lower pattern candidate options)
           | Err e \<Rightarrow> Err e | Panic \<Rightarrow> Panic)
      | Err e \<Rightarrow> Err e | Panic \<Rightarrow> Panic)"
proof (cases "validateLocationPattern pattern = Ok () \<and> validateCandidate candidate = Ok ()")
  case False
  then show ?thesis
    by (cases "validateLocationPattern pattern"; cases "validateCandidate candidate") (auto simp: locationMatches_def)
next
  case True
  then obtain ranges where ranges: "parsePortRanges (lp_port pattern) = Ok ranges"
    by (auto simp: validateLocationPattern_def and_then_Ok_iff)
  from True have host: "star \<notin> set (rl_host candidate)" by (auto simp: validateCandidate_def split: if_splits)
  note host_iff = matchesHost_iff [where lower = lower, OF host lower [OF star_stripIpv6Brackets [OF host]]]
  have "locationMatches lower pattern candidate options =
      Ok (matchesProtocol (lp_protocol pattern) (rl_protocol candidate)
        \<and> matchesHost lower (lp_host pattern) (rl_host candidate) (lo_caseSensitiveHost options)
        \<and> (ranges = [] \<or> (\<exists>r \<in> set ranges. fst r \<le> rl_port candidate \<and> rl_port candidate \<le> snd r))
        \<and> matchesPath (lp_path pattern) (rl_path candidate) (lo_normalizePath options)
        \<and> matchesQuery (lp_query pattern) (rl_query candidate))"
    using True ranges by (simp add: locationMatches_def matchesPort_def case_prod_beta)
  also have "\<dots> = Ok (rule_matches lower pattern candidate options)"
    using ranges by (simp add: rule_matches_def matchesProtocol_def host_iff matchesPath_iff [OF plain(1)]
        matchesQuery_iff [OF plain(2)] Let_def)
  finally show ?thesis using True by simp
qed

definition samplePattern :: LocationPattern where
  "samplePattern = \<lparr>lp_protocol = lit ''HTTP'', lp_host = lit ''*.a.com'', lp_port = [], lp_path = lit ''/api'', lp_query = None\<rparr>"

definition sampleLocation :: ResolvedLocation where
  "sampleLocation = \<lparr>rl_protocol = lit ''http'', rl_host = lit ''x.a.com'', rl_port = 81, rl_path = lit ''/api/x'', rl_query = [],
     rl_display = []\<rparr>"

theorem locationMatches_spec_witness:
  "locationMatches to_ascii_lowercase samplePattern sampleLocation LocationMatchOptions_default
   = Ok (rule_matches to_ascii_lowercase samplePattern sampleLocation LocationMatchOptions_default)"
proof -
  have lower: "star \<notin> set (to_ascii_lowercase s)" if "star \<notin> set s" for s
    using that by (auto simp: to_ascii_lowercase_def to_ascii_lower_def star_def split: if_splits)
  have "star \<notin> set (rl_path sampleLocation)" "star \<notin> set (rl_query sampleLocation)"
    by (simp_all add: sampleLocation_def lit_def star_def)
  moreover have "validateLocationPattern samplePattern = Ok ()" "validateCandidate sampleLocation = Ok ()"
    by (simp_all add: validateLocationPattern_def validateCandidate_def validateProtocol_def validateHost_def validatePath_def
        parsePortRanges_def samplePattern_def sampleLocation_def lit_def to_ascii_lowercase_def to_ascii_lower_def star_def anyone_def
        is_whitespace_def containsQuerySyntax_def split_once_def starts_with_def ends_with_def strip_prefix_def strip_suffix_def
        stripIpv6Brackets_def trim_def trim_end_def)
  ultimately show ?thesis
    using locationMatches_spec [of to_ascii_lowercase sampleLocation samplePattern LocationMatchOptions_default] lower by simp
qed

end
