(* ===== verification/PacketFilter.thy ===== *)
theory PacketFilter
  imports RustText PacketRewrite
begin

text \<open>
  The packet filters of \<open>PluginHost/src/packetFilters.rs\<close>, the ordered byte rules every chunk and
  datagram passes before it is written, and the wire differences of \<open>extensionDataPlane.rs\<close>. The scan
  for a pattern is a loop that would not end for an empty pattern; it is a partial function, and a
  result \<open>Err Diverges\<close> stands for a run that does not end. Missing patterns and out-of-range slices
  are \<open>Panic\<close>. The read/write lock around the compiled snapshot is the state argument.
\<close>

section \<open>Data\<close>

datatype TransportKind = TransportTcp | TransportUdp
datatype StreamDirection = ClientToServer | ServerToClient

record ConnectionMetadata =
  cm_transport :: TransportKind
  cm_clientAddress :: str
  cm_targetHost :: str
  cm_targetPort :: u16

datatype PacketFilterTransport = AnyTransport | FilterTcp | FilterUdp
datatype PacketFilterDirection = AnyDirection | FilterUp | FilterDown
datatype PacketFilterAction = Modify | DropPacket | CloseConnection

record PacketFilterRule =
  pf_id :: str
  pf_name :: str
  pf_enabled :: bool
  pf_transport :: PacketFilterTransport
  pf_direction :: PacketFilterDirection
  pf_host :: str
  pf_port :: "u16 option"
  pf_minimumLength :: "nat option"
  pf_maximumLength :: "nat option"
  pf_pattern :: str
  pf_replacement :: str
  pf_action :: PacketFilterAction
  pf_replaceAll :: bool
  pf_continueMatching :: bool

definition PacketFilterRule_default :: PacketFilterRule where
  "PacketFilterRule_default =
     \<lparr>pf_id = [], pf_name = [], pf_enabled = False, pf_transport = AnyTransport, pf_direction = AnyDirection, pf_host = [],
      pf_port = None, pf_minimumLength = None, pf_maximumLength = None, pf_pattern = [], pf_replacement = [],
      pf_action = Modify, pf_replaceAll = False, pf_continueMatching = False\<rparr>"

record PacketFilterConfiguration =
  pc_enabled :: bool
  pc_rules :: "PacketFilterRule list"

definition PacketFilterConfiguration_default :: PacketFilterConfiguration where
  "PacketFilterConfiguration_default = \<lparr>pc_enabled = False, pc_rules = []\<rparr>"

datatype PacketFilterError = TooManyRules | InvalidIdentifier | DuplicateIdentifier | InvalidName
  | FilterInvalidHost | InvalidLength | InvalidPattern | InvalidReplacement

datatype PacketFilterResult = Forward bytes | ResultDrop | ResultClose

type_synonym byte_pattern = "u8 option list"

record CompiledRule =
  cr_transport :: PacketFilterTransport
  cr_direction :: PacketFilterDirection
  cr_host :: str
  cr_port :: "u16 option"
  cr_minimumLength :: "nat option"
  cr_maximumLength :: "nat option"
  cr_pattern :: "byte_pattern option"
  cr_replacement :: "byte_pattern option"
  cr_action :: PacketFilterAction
  cr_replaceAll :: bool
  cr_continueMatching :: bool

record CompiledConfiguration =
  cc_source :: PacketFilterConfiguration
  cc_rules :: "CompiledRule list"

definition MAXIMUM_RULES :: nat where "MAXIMUM_RULES = 256"
definition MAXIMUM_IDENTIFIER_BYTES :: nat where "MAXIMUM_IDENTIFIER_BYTES = 64"
definition MAXIMUM_NAME_BYTES :: nat where "MAXIMUM_NAME_BYTES = 128"
definition MAXIMUM_HOST_BYTES :: nat where "MAXIMUM_HOST_BYTES = 253"
definition MAXIMUM_PATTERN_TOKENS :: nat where "MAXIMUM_PATTERN_TOKENS = 512"
definition MAXIMUM_PACKET_BYTES :: nat where "MAXIMUM_PACKET_BYTES = 16 * 1024 * 1024"

section \<open>Compilation\<close>

definition normalizeHost :: "str \<Rightarrow> str" where
  "normalizeHost value = to_ascii_lowercase (trim_end (\<lambda>c. c = 46) (trim value))"

definition validateText :: "str \<Rightarrow> nat \<Rightarrow> bool" where
  "validateText value maximumBytes =
     (let trimmed = trim value
      in \<not> (trimmed = [] \<or> maximumBytes < str_len trimmed \<or> (\<exists>c \<in> set trimmed. is_control c)))"

definition validateFilterHost :: "str \<Rightarrow> (PacketFilterError, str) outcome" where
  "validateFilterHost value =
     (let normalized = normalizeHost value
      in if MAXIMUM_HOST_BYTES < str_len normalized
            \<or> (\<exists>c \<in> set normalized. is_control c)
            \<or> 42 \<in> set normalized \<and> \<not> starts_with [42, 46] normalized
            \<or> 1 < length (filter (\<lambda>c. c = 42) normalized)
            \<or> normalized = [42, 46]
         then Err FilterInvalidHost else Ok normalized)"

definition validateLengths :: "nat option \<Rightarrow> nat option \<Rightarrow> (PacketFilterError, unit) outcome" where
  "validateLengths minimum maximum =
     (if (case minimum of None \<Rightarrow> False | Some value \<Rightarrow> value = 0 \<or> MAXIMUM_PACKET_BYTES < value)
         \<or> (case maximum of None \<Rightarrow> False | Some value \<Rightarrow> value = 0 \<or> MAXIMUM_PACKET_BYTES < value)
         \<or> (case (minimum, maximum) of (Some mn, Some mx) \<Rightarrow> mx < mn | _ \<Rightarrow> False)
      then Err InvalidLength else Ok ())"

definition parseToken :: "bool \<Rightarrow> str \<Rightarrow> u8 option option" where
  "parseToken allowWildcard token =
     (if allowWildcard \<and> token = [63, 63] then Some None
      else if str_len token = 2 then map_option (\<lambda>v. Some (of_nat v)) (from_str_radix 255 16 token)
      else None)"

text \<open>Outer \<open>None\<close> is the error, inner \<open>None\<close> the empty text.\<close>

definition parseBytePattern :: "str \<Rightarrow> bool \<Rightarrow> byte_pattern option option" where
  "parseBytePattern value allowWildcard =
     (let trimmed = trim value
      in if trimmed = [] then Some None
         else
           (let tokens = split_ascii_whitespace trimmed
            in if tokens = [] \<or> MAXIMUM_PATTERN_TOKENS < length tokens then None
               else map_option Some (those (map (parseToken allowWildcard) tokens))))"

definition parsePattern :: "str \<Rightarrow> (PacketFilterError, byte_pattern option) outcome" where
  "parsePattern value = (case parseBytePattern value True of None \<Rightarrow> Err InvalidPattern | Some p \<Rightarrow> Ok p)"

definition compileBytePatterns ::
  "PacketFilterRule \<Rightarrow> (PacketFilterError, byte_pattern option \<times> byte_pattern option) outcome" where
  "compileBytePatterns rule =
     and_then (parsePattern (pf_pattern rule)) (\<lambda>pattern.
       if pf_action rule \<noteq> Modify then
         (if trim (pf_replacement rule) = [] then Ok (pattern, None) else Err InvalidReplacement)
       else
         (case pattern of
            None \<Rightarrow> Err InvalidReplacement
          | Some patternBytes \<Rightarrow>
              (case parseBytePattern (pf_replacement rule) True of
                 None \<Rightarrow> Err InvalidReplacement
               | Some None \<Rightarrow> Err InvalidReplacement
               | Some (Some replacement) \<Rightarrow>
                   Ok (Some (if length patternBytes < length replacement
                             then patternBytes @ replicate (length replacement - length patternBytes) None
                             else patternBytes),
                       Some replacement))))"

text \<open>One rule of the loop of \<open>compileConfiguration\<close>: the seen identifiers and the compiled rule, if enabled.\<close>

definition compileRule ::
  "str set \<Rightarrow> PacketFilterRule \<Rightarrow> (PacketFilterError, CompiledRule) outcome" where
  "compileRule identifiers rule =
     (if \<not> validateText (pf_id rule) MAXIMUM_IDENTIFIER_BYTES then Err InvalidIdentifier
      else if pf_id rule \<in> identifiers then Err DuplicateIdentifier
      else if \<not> validateText (pf_name rule) MAXIMUM_NAME_BYTES then Err InvalidName
      else and_then (validateFilterHost (pf_host rule)) (\<lambda>host.
           and_then (validateLengths (pf_minimumLength rule) (pf_maximumLength rule)) (\<lambda>_.
           and_then (compileBytePatterns rule) (\<lambda>(pattern, replacement).
             Ok \<lparr>cr_transport = pf_transport rule, cr_direction = pf_direction rule, cr_host = host, cr_port = pf_port rule,
                 cr_minimumLength = pf_minimumLength rule, cr_maximumLength = pf_maximumLength rule,
                 cr_pattern = pattern, cr_replacement = replacement, cr_action = pf_action rule,
                 cr_replaceAll = pf_replaceAll rule, cr_continueMatching = pf_continueMatching rule\<rparr>))))"

fun compileRules :: "str set \<Rightarrow> PacketFilterRule list \<Rightarrow> (PacketFilterError, CompiledRule list) outcome" where
  "compileRules identifiers [] = Ok []"
| "compileRules identifiers (rule # rules) =
     and_then (compileRule identifiers rule) (\<lambda>compiled.
     and_then (compileRules (insert (pf_id rule) identifiers) rules) (\<lambda>compiledRules.
       Ok (if pf_enabled rule then compiled # compiledRules else compiledRules)))"

definition compileConfiguration :: "PacketFilterConfiguration \<Rightarrow> (PacketFilterError, CompiledConfiguration) outcome" where
  "compileConfiguration configuration =
     (if MAXIMUM_RULES < length (pc_rules configuration) then Err TooManyRules
      else and_then (compileRules {} (pc_rules configuration)) (\<lambda>rules.
        Ok \<lparr>cc_source = configuration, cc_rules = rules\<rparr>))"

section \<open>The runtime\<close>

definition runtime_new :: "PacketFilterConfiguration \<Rightarrow> (PacketFilterError, CompiledConfiguration) outcome" where
  "runtime_new configuration = compileConfiguration configuration"

definition runtime_configuration :: "CompiledConfiguration \<Rightarrow> PacketFilterConfiguration" where
  "runtime_configuration runtime = cc_source runtime"

definition replaceConfiguration ::
  "PacketFilterConfiguration \<Rightarrow> CompiledConfiguration \<Rightarrow> (PacketFilterError, unit) outcome \<times> CompiledConfiguration" where
  "replaceConfiguration configuration runtime =
     (case compileConfiguration configuration of
        Ok compiled \<Rightarrow> (Ok (), compiled)
      | Err e \<Rightarrow> (Err e, runtime)
      | Panic \<Rightarrow> (Panic, runtime))"

section \<open>Matching\<close>

datatype Divergence = Diverges

definition pattern_at :: "byte_pattern \<Rightarrow> bytes \<Rightarrow> nat \<Rightarrow> bool" where
  "pattern_at pattern bs offset =
     list_all (\<lambda>(expected, actual). case expected of None \<Rightarrow> True | Some e \<Rightarrow> e = actual)
       (zip pattern (subslice offset (offset + length pattern) bs))"

partial_function (option) findLoop :: "byte_pattern \<Rightarrow> bytes \<Rightarrow> bool \<Rightarrow> nat \<Rightarrow> nat list option" where
  "findLoop pattern bs replaceAll offset =
     (if offset + length pattern \<le> length bs then
        if pattern_at pattern bs offset then
          (if \<not> replaceAll then Some [offset]
           else Option.bind (findLoop pattern bs replaceAll (offset + length pattern)) (\<lambda>offsets. Some (offset # offsets)))
        else findLoop pattern bs replaceAll (offset + 1)
      else Some [])"

definition findOffsets :: "byte_pattern \<Rightarrow> bytes \<Rightarrow> bool \<Rightarrow> (Divergence, nat list) outcome" where
  "findOffsets pattern bs replaceAll =
     (if length bs < length pattern then Ok []
      else (case findLoop pattern bs replaceAll 0 of None \<Rightarrow> Err Diverges | Some offsets \<Rightarrow> Ok offsets))"

definition matchesFilterHost :: "CompiledRule \<Rightarrow> str \<Rightarrow> bool" where
  "matchesFilterHost rule host =
     (if cr_host rule = [] then True
      else
        (let candidate = normalizeHost host
         in case strip_prefix [42, 46] (cr_host rule) of
              Some ending \<Rightarrow>
                (case strip_suffix ending candidate of
                   None \<Rightarrow> False
                 | Some front \<Rightarrow> ends_with [46] front \<and> 1 < str_len front)
            | None \<Rightarrow> candidate = cr_host rule))"

definition matchesMetadata :: "CompiledRule \<Rightarrow> ConnectionMetadata \<Rightarrow> StreamDirection \<Rightarrow> nat \<Rightarrow> bool" where
  "matchesMetadata rule metadata direction len =
     ((cr_transport rule = AnyTransport
       \<or> (cr_transport rule, cm_transport metadata) \<in> {(FilterTcp, TransportTcp), (FilterUdp, TransportUdp)})
      \<and> (cr_direction rule = AnyDirection
         \<or> (cr_direction rule, direction) \<in> {(FilterUp, ClientToServer), (FilterDown, ServerToClient)})
      \<and> matchesFilterHost rule (cm_targetHost metadata)
      \<and> (case cr_port rule of None \<Rightarrow> True | Some port \<Rightarrow> port = cm_targetPort metadata)
      \<and> (case cr_minimumLength rule of None \<Rightarrow> True | Some minimum \<Rightarrow> minimum \<le> len)
      \<and> (case cr_maximumLength rule of None \<Rightarrow> True | Some maximum \<Rightarrow> len \<le> maximum))"

definition matchingOffsets ::
  "CompiledRule \<Rightarrow> ConnectionMetadata \<Rightarrow> StreamDirection \<Rightarrow> bytes \<Rightarrow> (Divergence, nat list option) outcome" where
  "matchingOffsets rule metadata direction bs =
     (if \<not> matchesMetadata rule metadata direction (length bs) then Ok None
      else (case cr_pattern rule of
              None \<Rightarrow> Ok (Some [0])
            | Some pattern \<Rightarrow>
                and_then (findOffsets pattern bs (cr_replaceAll rule)) (\<lambda>offsets.
                  Ok (if offsets = [] then None else Some offsets))))"

text \<open>The bytes written for one match: a wildcard keeps the byte of the packet at its position.\<close>

fun replacementBytes :: "byte_pattern \<Rightarrow> bytes \<Rightarrow> nat \<Rightarrow> nat \<Rightarrow> (Divergence, bytes) outcome" where
  "replacementBytes [] bs offset index = Ok []"
| "replacementBytes (r # rs) bs offset index =
     byte_at bs (offset + index) (\<lambda>kept.
       and_then (replacementBytes rs bs offset (Suc index)) (\<lambda>rest.
         Ok ((case r of Some b \<Rightarrow> b | None \<Rightarrow> kept) # rest)))"

fun replaceLoop :: "nat \<Rightarrow> byte_pattern \<Rightarrow> bytes \<Rightarrow> nat list \<Rightarrow> nat \<Rightarrow> (Divergence, bytes) outcome" where
  "replaceLoop patternLength replacement bs [] sourceOffset =
     slice_at bs sourceOffset (length bs) (\<lambda>rest. Ok rest)"
| "replaceLoop patternLength replacement bs (offset # offsets) sourceOffset =
     slice_at bs sourceOffset offset (\<lambda>front.
     and_then (replacementBytes replacement bs offset 0) (\<lambda>written.
     and_then (replaceLoop patternLength replacement bs offsets (offset + patternLength)) (\<lambda>rest.
       Ok (front @ written @ rest))))"

definition applyReplacement :: "CompiledRule \<Rightarrow> bytes \<Rightarrow> nat list \<Rightarrow> (Divergence, bytes) outcome" where
  "applyReplacement rule bs offsets =
     (case (cr_pattern rule, cr_replacement rule) of
        (Some pattern, Some replacement) \<Rightarrow>
          if length bs < length pattern * length offsets then Panic
          else replaceLoop (length pattern) replacement bs offsets 0
      | _ \<Rightarrow> Panic)"

fun processRules ::
  "ConnectionMetadata \<Rightarrow> StreamDirection \<Rightarrow> CompiledRule list \<Rightarrow> bytes \<Rightarrow> (Divergence, PacketFilterResult) outcome" where
  "processRules metadata direction [] bs = Ok (Forward bs)"
| "processRules metadata direction (rule # rules) bs =
     and_then (matchingOffsets rule metadata direction bs) (\<lambda>m.
       case m of
         None \<Rightarrow> processRules metadata direction rules bs
       | Some offsets \<Rightarrow>
           (case cr_action rule of
              Modify \<Rightarrow>
                and_then (applyReplacement rule bs offsets) (\<lambda>bs.
                  if \<not> cr_continueMatching rule then Ok (Forward bs)
                  else processRules metadata direction rules bs)
            | DropPacket \<Rightarrow> Ok ResultDrop
            | CloseConnection \<Rightarrow> Ok ResultClose))"

definition process ::
  "CompiledConfiguration \<Rightarrow> ConnectionMetadata \<Rightarrow> StreamDirection \<Rightarrow> bytes \<Rightarrow> (Divergence, PacketFilterResult) outcome" where
  "process runtime metadata direction bs =
     (if \<not> pc_enabled (cc_source runtime) then Ok (Forward bs)
      else processRules metadata direction (cc_rules runtime) bs)"

section \<open>Wire differences\<close>

record WireByteModification =
  wm_offsetBytes :: nat
  wm_originalBytes :: bytes
  wm_modifiedBytes :: bytes

text \<open>
  The loop over two texts of equal length; the inner loop takes the run of differing bytes, which is
  not empty where it starts, so that the maximum with one changes nothing.
\<close>

function equalLengthLoop :: "bytes \<Rightarrow> bytes \<Rightarrow> nat \<Rightarrow> WireByteModification list" where
  "equalLengthLoop original modified offset =
     (if offset < length original then
        if original ! offset = modified ! offset then equalLengthLoop original modified (offset + 1)
        else
          (let n = length (takeWhile (\<lambda>(a, b). a \<noteq> b) (drop offset (zip original modified)));
               next' = offset + max 1 n
           in \<lparr>wm_offsetBytes = offset, wm_originalBytes = subslice offset next' original,
               wm_modifiedBytes = subslice offset next' modified\<rparr>
              # equalLengthLoop original modified next')
      else [])"
  by pat_completeness auto
termination
  by (relation "measure (\<lambda>(original, _, offset). length original - offset)") (auto simp: Let_def)

declare equalLengthLoop.simps [simp del]

definition deriveWireByteModifications :: "bytes \<Rightarrow> bytes \<Rightarrow> WireByteModification list" where
  "deriveWireByteModifications original modified =
     (if original = modified then []
      else if length original = length modified then equalLengthLoop original modified 0
      else
        (let prefixBytes = length (takeWhile (\<lambda>(l, r). l = r) (zip original modified));
             maximumSuffixBytes = min (length original - prefixBytes) (length modified - prefixBytes);
             suffixBytes = length (takeWhile (\<lambda>(l, r). l = r) (take maximumSuffixBytes (zip (rev original) (rev modified))))
         in [\<lparr>wm_offsetBytes = prefixBytes,
              wm_originalBytes = subslice prefixBytes (length original - suffixBytes) original,
              wm_modifiedBytes = subslice prefixBytes (length modified - suffixBytes) modified\<rparr>]))"

section \<open>The datagram processor\<close>

datatype UdpDatagramDecision = DecisionForward bytes "WireByteModification list" | DecisionDrop | DecisionClose

datatype DataPlaneActionResult = ActionForward bytes | ActionHold | ActionDrop | ActionClose

definition processFinalWireBytes ::
  "CompiledConfiguration \<Rightarrow> ConnectionMetadata \<Rightarrow> StreamDirection \<Rightarrow> bytes \<Rightarrow> (Divergence, DataPlaneActionResult) outcome" where
  "processFinalWireBytes packetFilters metadata direction bs =
     and_then (process packetFilters metadata direction bs) (\<lambda>r.
       Ok (case r of Forward b \<Rightarrow> ActionForward b | ResultDrop \<Rightarrow> ActionDrop | ResultClose \<Rightarrow> ActionClose))"

definition print_ip :: "IpAddr \<Rightarrow> str" where
  "print_ip a = (case a of V4 v \<Rightarrow> print_ipv4 v | V6 v \<Rightarrow> print_ipv6 v)"

definition print_socket :: "SocketAddr \<Rightarrow> str" where
  "print_socket a =
     (case a of
        SocketAddrV4 ip port \<Rightarrow> print_ipv4 ip @ [58] @ print_digits 10 (unat port)
      | SocketAddrV6 ip port _ scope \<Rightarrow>
          [91] @ print_ipv6 ip @ (if scope = 0 then [] else [37] @ print_digits 10 (unat scope)) @ [93, 58]
            @ print_digits 10 (unat port))"

definition processDatagram ::
  "CompiledConfiguration \<Rightarrow> UdpDatagramEvent \<Rightarrow> (Divergence, UdpDatagramDecision) outcome" where
  "processDatagram packetFilters event =
     (let metadata = \<lparr>cm_transport = TransportUdp, cm_clientAddress = print_socket (ue_clientAddress event),
                      cm_targetHost = print_ip (sa_ip (ue_targetAddress event)),
                      cm_targetPort = sa_port (ue_targetAddress event)\<rparr>;
          direction = (case ue_direction event of Up \<Rightarrow> ClientToServer | Down \<Rightarrow> ServerToClient)
      in and_then (processFinalWireBytes packetFilters metadata direction (ue_payload event)) (\<lambda>r.
           Ok (case r of
                 ActionForward b \<Rightarrow> DecisionForward b (deriveWireByteModifications (ue_payload event) b)
               | ActionDrop \<Rightarrow> DecisionDrop
               | ActionHold \<Rightarrow> DecisionDrop
               | ActionClose \<Rightarrow> DecisionClose)))"

end
