(* ===== verification/PacketFilterProperties.thy ===== *)
theory PacketFilterProperties
  imports PacketFilter
begin

text \<open>
  Packet filters against a one-pass definition of substitution: a compiled configuration always
  answers, without panic, with the result of applying its rules in order. And the recorded wire
  differences against the bytes they were derived from.
\<close>

section \<open>Substitution\<close>

fun fits :: "byte_pattern \<Rightarrow> bytes \<Rightarrow> bool" where
  "fits [] bs = True"
| "fits (p # ps) [] = False"
| "fits (p # ps) (b # bs) = ((p = None \<or> p = Some b) \<and> fits ps bs)"

fun fill :: "byte_pattern \<Rightarrow> bytes \<Rightarrow> bytes" where
  "fill [] bs = []"
| "fill (r # rs) [] = []"
| "fill (r # rs) (b # bs) = (case r of Some x \<Rightarrow> x | None \<Rightarrow> b) # fill rs bs"

text \<open>Replace the leftmost match, and with \<open>every\<close> go on behind it.\<close>

function substitute :: "bool \<Rightarrow> byte_pattern \<Rightarrow> byte_pattern \<Rightarrow> bytes \<Rightarrow> bytes" where
  "substitute every pattern replacement bs =
     (if pattern = [] \<or> length bs < length pattern then bs
      else if fits pattern bs
      then fill replacement bs
           @ (if every then substitute every pattern replacement (drop (length pattern) bs) else drop (length pattern) bs)
      else hd bs # substitute every pattern replacement (tl bs))"
  by pat_completeness auto
termination
  by (relation "measure (\<lambda>(_, _, _, bs). length bs)") (auto simp: not_less neq_Nil_conv)

declare substitute.simps [simp del]

definition occurs :: "byte_pattern \<Rightarrow> bytes \<Rightarrow> bool" where
  "occurs pattern bs \<longleftrightarrow> (\<exists>i \<le> length bs. fits pattern (drop i bs))"

lemma fits_length: "fits pattern bs \<Longrightarrow> length pattern \<le> length bs"
  by (induction pattern bs rule: fits.induct) auto

lemma pattern_at_fits:
  assumes "offset + length pattern \<le> length bs"
  shows "pattern_at pattern bs offset = fits pattern (drop offset bs)"
proof -
  have "list_all (\<lambda>(expected, actual). case expected of None \<Rightarrow> True | Some e \<Rightarrow> e = actual) (zip ps (take (length ps) xs)) = fits ps xs"
    if "length ps \<le> length xs" for ps :: byte_pattern and xs
    using that by (induction ps xs rule: fits.induct) (auto split: option.split)
  from this [of pattern "drop offset bs"] assms show ?thesis by (simp add: pattern_at_def subslice_def)
qed

lemma replacementBytes_fill:
  "offset + index + length replacement \<le> length bs \<Longrightarrow>
    replacementBytes replacement bs offset index = Ok (fill replacement (drop (offset + index) bs))"
proof (induction replacement arbitrary: index)
  case (Cons r rs)
  then have "drop (offset + index) bs = bs ! (offset + index) # drop (offset + Suc index) bs"
    using Cons_nth_drop_Suc [of "offset + index" bs] by simp
  with Cons show ?case by simp
qed simp

lemma findLoop_stop: "\<not> offset + length pattern \<le> length bs \<Longrightarrow> findLoop pattern bs every offset = Some []"
  by (simp add: findLoop.simps)

lemma subslice_snoc: "i \<le> j \<Longrightarrow> j < length xs \<Longrightarrow> subslice i (Suc j) xs = subslice i j xs @ [xs ! j]"
  by (simp add: subslice_def Suc_diff_le take_Suc_conv_app_nth)

lemma subslice_to_end: "i \<le> j \<Longrightarrow> j \<le> length xs \<Longrightarrow> subslice i (length xs) xs = subslice i j xs @ drop j xs"
  by (simp add: subslice_def) (metis append_take_drop_id drop_drop le_add_diff_inverse2)

text \<open>The scan ends for a non-empty pattern, and the two passes together are one substitution.\<close>

lemma findLoop_substitute:
  assumes "pattern \<noteq> []" and "length replacement \<le> length pattern" and "source \<le> offset" and "offset \<le> length bs"
  shows "\<exists>offsets. findLoop pattern bs every offset = Some offsets
    \<and> offset + length pattern * length offsets \<le> length bs
    \<and> (offsets = [] \<longleftrightarrow> (\<forall>i. offset \<le> i \<longrightarrow> \<not> fits pattern (drop i bs)))
    \<and> replaceLoop (length pattern) replacement bs offsets source
        = Ok (subslice source offset bs @ substitute every pattern replacement (drop offset bs))"
  using assms(3,4)
proof (induction "length bs - offset" arbitrary: offset source rule: less_induct)
  case less
  note pat = assms(1,2)
  let ?n = "length pattern"
  have n: "0 < ?n" using pat by simp
  consider "\<not> offset + ?n \<le> length bs" | "offset + ?n \<le> length bs" "fits pattern (drop offset bs)"
    | "offset + ?n \<le> length bs" "\<not> fits pattern (drop offset bs)" by blast
  then show ?case
  proof cases
    case 1
    have "\<not> fits pattern (drop i bs)" if "offset \<le> i" for i
    proof
      assume "fits pattern (drop i bs)"
      then have "?n \<le> length bs - i" using fits_length by fastforce
      with 1 n that show False by linarith
    qed
    moreover have "length (drop offset bs) < ?n" using 1 less.prems by simp
    moreover from this have "substitute every pattern replacement (drop offset bs) = drop offset bs"
      by (simp add: substitute.simps)
    ultimately show ?thesis
      using 1 less.prems subslice_to_end [of source offset bs] by (simp add: findLoop_stop)
  next
    case 2
    let ?next = "offset + ?n"
    have written: "replacementBytes replacement bs offset 0 = Ok (fill replacement (drop offset bs))"
      using replacementBytes_fill [of offset 0 replacement bs] 2 pat by simp
    have long: "\<not> length bs - offset < ?n" using 2(1) by linarith
    have found: "\<not> (\<forall>i. offset \<le> i \<longrightarrow> \<not> fits pattern (drop i bs))" using 2 by blast
    show ?thesis
    proof (cases every)
      case True
      have "length bs - ?next < length bs - offset" using 2(1) n by linarith
      from less.hyps [OF this, of ?next] 2(1)
      obtain offsets where IH: "findLoop pattern bs every ?next = Some offsets" "?next + ?n * length offsets \<le> length bs"
        "replaceLoop ?n replacement bs offsets ?next
          = Ok (subslice ?next ?next bs @ substitute every pattern replacement (drop ?next bs))"
        by blast
      have "findLoop pattern bs every offset = Some (offset # offsets)"
        using IH(1) 2 True by (subst findLoop.simps) (simp add: pattern_at_fits)
      moreover have "substitute every pattern replacement (drop offset bs)
          = fill replacement (drop offset bs) @ substitute every pattern replacement (drop ?next bs)"
        using 2 True pat long by (subst substitute.simps) (simp add: add.commute)
      ultimately show ?thesis
        using IH(2,3) written found less.prems by (auto simp: subslice_def)
    next
      case False
      then have "findLoop pattern bs every offset = Some [offset]"
        using 2 by (subst findLoop.simps) (simp add: pattern_at_fits)
      moreover have "substitute every pattern replacement (drop offset bs)
          = fill replacement (drop offset bs) @ drop ?next bs"
        using 2 False pat long by (subst substitute.simps) (simp add: add.commute)
      ultimately show ?thesis
        using written found less.prems 2 by (auto simp: subslice_def)
    qed
  next
    case 3
    then have lt: "offset < length bs" using n by linarith
    then have "length bs - Suc offset < length bs - offset" by linarith
    from less.hyps [OF this, of source] less.prems(1) lt
    obtain offsets where IH: "findLoop pattern bs every (Suc offset) = Some offsets"
      "Suc offset + ?n * length offsets \<le> length bs"
      "offsets = [] \<longleftrightarrow> (\<forall>i. Suc offset \<le> i \<longrightarrow> \<not> fits pattern (drop i bs))"
      "replaceLoop ?n replacement bs offsets source
        = Ok (subslice source (Suc offset) bs @ substitute every pattern replacement (drop (Suc offset) bs))"
      by auto
    have "findLoop pattern bs every offset = Some offsets"
      using IH(1) 3 by (subst findLoop.simps) (simp add: pattern_at_fits)
    moreover have "substitute every pattern replacement (drop offset bs)
        = bs ! offset # substitute every pattern replacement (drop (Suc offset) bs)"
      using 3 pat lt by (subst substitute.simps) (simp add: hd_drop_conv_nth tl_drop drop_Suc not_less)
    moreover have "(\<forall>i. offset \<le> i \<longrightarrow> \<not> fits pattern (drop i bs)) \<longleftrightarrow> (\<forall>i. Suc offset \<le> i \<longrightarrow> \<not> fits pattern (drop i bs))"
      using 3(2) by (metis Suc_leD Suc_leI le_neq_implies_less)
    ultimately show ?thesis
      using less.prems subslice_snoc [of source offset bs] IH lt by simp
  qed
qed

section \<open>Compiled rules\<close>

definition wf_rule :: "CompiledRule \<Rightarrow> bool" where
  "wf_rule rule \<longleftrightarrow> cr_pattern rule \<noteq> Some []
     \<and> (case cr_action rule of
          Modify \<Rightarrow> (case (cr_pattern rule, cr_replacement rule) of (Some p, Some r) \<Rightarrow> length r \<le> length p | _ \<Rightarrow> False)
        | _ \<Rightarrow> True)"

lemma parseBytePattern_not_Nil: "parseBytePattern s w \<noteq> Some (Some [])"
proof
  assume "parseBytePattern s w = Some (Some [])"
  then obtain ts where "ts \<noteq> []" "those (map (parseToken w) ts) = Some []"
    by (auto simp: parseBytePattern_def Let_def split: if_splits)
  then show False by (cases ts) (auto split: option.splits)
qed

lemma compileRule_wf: "compileRule ids rule = Ok compiled \<Longrightarrow> wf_rule compiled"
  using parseBytePattern_not_Nil
  by (auto simp: compileRule_def compileBytePatterns_def parsePattern_def outcome_Ok_iffs wf_rule_def
      split: if_splits option.splits PacketFilterAction.splits)

lemma compileRules_wf: "compileRules ids rules = Ok compiled \<Longrightarrow> list_all wf_rule compiled"
  by (induction ids rules arbitrary: compiled rule: compileRules.induct) (auto simp: outcome_Ok_iffs compileRule_wf)

text \<open>A token may also be a plus sign and one digit, since \<open>from_str_radix\<close> accepts a sign.\<close>

lemma parseToken_plus_sign: "parseToken True (lit ''+f'') = Some (Some 0x0f)"
  by (simp add: parseToken_def lit_def str_len_def len_utf8_def from_str_radix_def to_digit_def)

section \<open>The meaning of a configuration\<close>

fun run_rules :: "ConnectionMetadata \<Rightarrow> StreamDirection \<Rightarrow> CompiledRule list \<Rightarrow> bytes \<Rightarrow> PacketFilterResult" where
  "run_rules metadata direction [] bs = Forward bs"
| "run_rules metadata direction (rule # rules) bs =
     (if matchesMetadata rule metadata direction (length bs)
         \<and> (case cr_pattern rule of None \<Rightarrow> True | Some pattern \<Rightarrow> occurs pattern bs)
      then (case cr_action rule of
              DropPacket \<Rightarrow> ResultDrop
            | CloseConnection \<Rightarrow> ResultClose
            | Modify \<Rightarrow>
                (let bs' = substitute (cr_replaceAll rule) (the (cr_pattern rule)) (the (cr_replacement rule)) bs
                 in if cr_continueMatching rule then run_rules metadata direction rules bs' else Forward bs'))
      else run_rules metadata direction rules bs)"

lemma occurs_iff: "pattern \<noteq> [] \<Longrightarrow> occurs pattern bs \<longleftrightarrow> (\<exists>i. fits pattern (drop i bs))"
  by (auto simp: occurs_def) (metis drop_all fits_length le_zero_eq length_0_conv linear list.size(3))

lemma findOffsets_correct:
  assumes "pattern \<noteq> []"
  shows "\<exists>offsets. findOffsets pattern bs every = Ok offsets \<and> (offsets \<noteq> [] \<longleftrightarrow> occurs pattern bs)
    \<and> length pattern * length offsets \<le> length bs
    \<and> (\<forall>replacement. length replacement \<le> length pattern \<longrightarrow>
        replaceLoop (length pattern) replacement bs offsets 0 = Ok (substitute every pattern replacement bs))"
proof -
  obtain offsets where offsets: "findLoop pattern bs every 0 = Some offsets" "length pattern * length offsets \<le> length bs"
      "offsets = [] \<longleftrightarrow> (\<forall>i. \<not> fits pattern (drop i bs))"
    using findLoop_substitute [OF assms, of "[]" 0 0 bs every] by auto
  have "replaceLoop (length pattern) replacement bs offsets 0 = Ok (substitute every pattern replacement bs)"
    if "length replacement \<le> length pattern" for replacement
    using findLoop_substitute [OF assms that, of 0 0 bs every] offsets(1) by (auto simp: subslice_def)
  moreover have "findOffsets pattern bs every = Ok offsets"
    using offsets(1) findLoop_stop [of 0 pattern bs every] by (auto simp: findOffsets_def)
  ultimately show ?thesis using offsets occurs_iff [OF assms] by blast
qed

lemma processRules_run:
  "list_all wf_rule rules \<Longrightarrow> processRules metadata direction rules bs = Ok (run_rules metadata direction rules bs)"
proof (induction rules arbitrary: bs)
  case (Cons rule rules)
  then have wf: "wf_rule rule" and IH: "\<And>bs. processRules metadata direction rules bs = Ok (run_rules metadata direction rules bs)"
    by simp_all
  show ?case
  proof (cases "matchesMetadata rule metadata direction (length bs)")
    case True
    show ?thesis
    proof (cases "cr_pattern rule")
      case None
      with True wf show ?thesis by (auto simp: matchingOffsets_def wf_rule_def split: PacketFilterAction.splits)
    next
      case (Some pattern)
      then have "pattern \<noteq> []" using wf by (auto simp: wf_rule_def)
      then obtain offsets where found: "findOffsets pattern bs (cr_replaceAll rule) = Ok offsets"
        "offsets \<noteq> [] \<longleftrightarrow> occurs pattern bs" "length pattern * length offsets \<le> length bs"
        "\<forall>replacement. length replacement \<le> length pattern \<longrightarrow>
           replaceLoop (length pattern) replacement bs offsets 0 = Ok (substitute (cr_replaceAll rule) pattern replacement bs)"
        using findOffsets_correct [of pattern bs "cr_replaceAll rule"] by blast
      have "applyReplacement rule bs offsets = Ok (substitute (cr_replaceAll rule) pattern (the (cr_replacement rule)) bs)"
        if "cr_action rule = Modify"
        using that wf Some found(3,4) by (auto simp: wf_rule_def applyReplacement_def split: option.splits)
      with True Some found(1,2) IH show ?thesis
        by (auto simp: matchingOffsets_def Let_def split: PacketFilterAction.splits)
    qed
  qed (simp add: matchingOffsets_def IH)
qed simp

text \<open>
  C29: a configuration that compiles always answers. The scan for a pattern ends, no index leaves the
  packet and no rule lacks the patterns its action needs; the answer is the one of the rules taken in
  order, where a matching \<open>Modify\<close> rule performs the substitution of its leftmost match, or of all
  matches from left to right, and stops unless it asks to continue.
\<close>

theorem process_runs_rules:
  assumes "compileConfiguration configuration = Ok runtime"
  shows "process runtime metadata direction bs
    = Ok (if pc_enabled configuration then run_rules metadata direction (cc_rules runtime) bs else Forward bs)"
proof -
  from assms obtain rules where "compileRules {} (pc_rules configuration) = Ok rules"
    "runtime = \<lparr>cc_source = configuration, cc_rules = rules\<rparr>"
    by (auto simp: compileConfiguration_def outcome_Ok_iffs split: if_splits)
  then show ?thesis using compileRules_wf by (simp add: process_def processRules_run)
qed

definition sampleFilterRule :: PacketFilterRule where
  "sampleFilterRule = PacketFilterRule_default\<lparr>pf_id := lit ''a'', pf_name := lit ''b'', pf_enabled := True,
     pf_pattern := lit ''41 ??'', pf_replacement := lit ''7f'', pf_replaceAll := True\<rparr>"

definition sampleFilters :: PacketFilterConfiguration where
  "sampleFilters = \<lparr>pc_enabled = True, pc_rules = [sampleFilterRule]\<rparr>"

definition sampleCompiled :: CompiledRule where
  "sampleCompiled = \<lparr>cr_transport = AnyTransport, cr_direction = AnyDirection, cr_host = [], cr_port = None, cr_minimumLength = None,
     cr_maximumLength = None, cr_pattern = Some [Some 0x41, None], cr_replacement = Some [Some 0x7f], cr_action = Modify,
     cr_replaceAll = True, cr_continueMatching = False\<rparr>"

lemmas filter_text_defs = validateText_def trim_def trim_end_def lit_def is_whitespace_def is_control_def str_len_def len_utf8_def
  normalizeHost_def validateFilterHost_def to_ascii_lowercase_def parseBytePattern_def parseToken_def split_ascii_whitespace_def
  is_ascii_whitespace_def from_str_radix_def to_digit_def

lemma sampleFilters_compile:
  "compileConfiguration sampleFilters = Ok \<lparr>cc_source = sampleFilters, cc_rules = [sampleCompiled]\<rparr>"
  by (simp add: compileConfiguration_def compileRule_def compileBytePatterns_def parsePattern_def validateLengths_def
      sampleFilters_def sampleFilterRule_def sampleCompiled_def PacketFilterRule_default_def filter_text_defs
      MAXIMUM_RULES_def MAXIMUM_IDENTIFIER_BYTES_def MAXIMUM_NAME_BYTES_def MAXIMUM_HOST_BYTES_def MAXIMUM_PATTERN_TOKENS_def)

definition sampleMetadata :: ConnectionMetadata where
  "sampleMetadata = \<lparr>cm_transport = TransportUdp, cm_clientAddress = [], cm_targetHost = [], cm_targetPort = 53\<rparr>"

theorem process_runs_rules_witness:
  "process \<lparr>cc_source = sampleFilters, cc_rules = [sampleCompiled]\<rparr> sampleMetadata ClientToServer [1, 0x41, 2, 0x41, 0x41, 3]
     = Ok (Forward [1, 0x7f, 0x7f, 3])"
proof -
  have "occurs [Some 0x41, None] [1, 0x41, 2, 0x41, 0x41, 3]" by (auto simp: occurs_def intro!: exI [of _ "Suc 0"])
  moreover have "substitute True [Some 0x41, None] [Some 0x7f] [1, 0x41, 2, 0x41, 0x41, 3] = [1, 0x7f, 0x7f, 3]"
    by (simp add: substitute.simps)
  ultimately show ?thesis
    using process_runs_rules [OF sampleFilters_compile, of sampleMetadata ClientToServer "[1, 0x41, 2, 0x41, 0x41, 3]"]
    by (simp add: sampleFilters_def sampleCompiled_def sampleMetadata_def matchesMetadata_def matchesFilterHost_def)
qed

section \<open>Wire differences\<close>

definition apply_modification :: "WireByteModification \<Rightarrow> bytes \<Rightarrow> bytes" where
  "apply_modification m bs = take (wm_offsetBytes m) bs @ wm_modifiedBytes m @ drop (wm_offsetBytes m + length (wm_originalBytes m)) bs"

definition undo_modification :: "WireByteModification \<Rightarrow> bytes \<Rightarrow> bytes" where
  "undo_modification m bs = take (wm_offsetBytes m) bs @ wm_originalBytes m @ drop (wm_offsetBytes m + length (wm_modifiedBytes m)) bs"

lemma common_prefix:
  "n = length (takeWhile (\<lambda>(l, r). l = r) (zip xs ys)) \<Longrightarrow> n \<le> length xs \<and> n \<le> length ys \<and> take n xs = take n ys"
proof (induction xs ys arbitrary: n rule: list_induct2')
  case (4 x xs y ys)
  then show ?case by (cases "x = y") auto
qed auto

lemma common_suffix:
  assumes n: "n = length (takeWhile (\<lambda>(l, r). l = r) (take k (zip (rev xs) (rev ys))))"
  shows "n \<le> k \<and> n \<le> length xs \<and> n \<le> length ys \<and> drop (length xs - n) xs = drop (length ys - n) ys"
proof -
  have eq: "take k (zip (rev xs) (rev ys)) = zip (take k (rev xs)) (take k (rev ys))" by (simp add: take_zip)
  have pre: "n \<le> length (take k (rev xs))" "n \<le> length (take k (rev ys))" "take n (take k (rev xs)) = take n (take k (rev ys))"
    using common_prefix [of n "take k (rev xs)" "take k (rev ys)"] n unfolding eq by auto
  from pre(1) have "n \<le> k" by simp
  with pre(3) have "take n (rev xs) = take n (rev ys)" by (simp add: min_absorb1)
  then have "rev (drop (length xs - n) xs) = rev (drop (length ys - n) ys)" by (simp add: take_rev)
  with pre show ?thesis by simp
qed

lemma equalLengthLoop_apply:
  assumes "length original = length modified" and "offset \<le> length original"
  shows "fold apply_modification (equalLengthLoop original modified offset) (take offset modified @ drop offset original) = modified
    \<and> fold undo_modification (equalLengthLoop original modified offset) (take offset original @ drop offset modified) = original
    \<and> list_all (\<lambda>m. wm_originalBytes m \<noteq> wm_modifiedBytes m) (equalLengthLoop original modified offset)"
  using assms(2)
proof (induction "length original - offset" arbitrary: offset rule: less_induct)
  case less
  note len = assms(1)
  show ?case
  proof (cases "offset < length original")
    case False
    with less.prems len show ?thesis by (simp add: equalLengthLoop.simps)
  next
    case lt: True
    show ?thesis
    proof (cases "original ! offset = modified ! offset")
      case True
      have "take (Suc offset) modified @ drop (Suc offset) original = take offset modified @ drop offset original"
        "take (Suc offset) original @ drop (Suc offset) modified = take offset original @ drop offset modified"
        using lt len True by (simp_all add: take_Suc_conv_app_nth Cons_nth_drop_Suc [symmetric])
      moreover have "equalLengthLoop original modified offset = equalLengthLoop original modified (Suc offset)"
        using lt True by (subst equalLengthLoop.simps) simp
      moreover have "length original - Suc offset < length original - offset" using lt by linarith
      ultimately show ?thesis using less.hyps [of "Suc offset"] lt by (simp add: Suc_le_eq)
    next
      case False
      define n where "n = length (takeWhile (\<lambda>(a, b). a \<noteq> b) (drop offset (zip original modified)))"
      define j where "j = offset + max 1 n"
      have "n \<le> length (drop offset (zip original modified))" unfolding n_def by (rule length_takeWhile_le)
      then have j: "offset < j" "j \<le> length original" using lt len by (auto simp: j_def)
      let ?m = "\<lparr>wm_offsetBytes = offset, wm_originalBytes = subslice offset j original, wm_modifiedBytes = subslice offset j modified\<rparr>"
      have step: "equalLengthLoop original modified offset = ?m # equalLengthLoop original modified j"
        using lt False by (subst equalLengthLoop.simps) (simp add: n_def j_def Let_def)
      have app: "apply_modification ?m (take offset modified @ drop offset original) = take j modified @ drop j original"
        "undo_modification ?m (take offset original @ drop offset modified) = take j original @ drop j modified"
        using j len by (simp_all add: apply_modification_def undo_modification_def subslice_def min_def)
          (metis add_diff_inverse_nat less_imp_le not_less take_add)+
      have "subslice offset j original ! 0 \<noteq> subslice offset j modified ! 0"
        using False j len by (simp add: subslice_nth)
      then have "wm_originalBytes ?m \<noteq> wm_modifiedBytes ?m" by auto
      moreover have "length original - j < length original - offset" using j by linarith
      ultimately show ?thesis using less.hyps [of j] j app by (simp add: step)
    qed
  qed
qed

lemma splice:
  assumes "p \<le> q" and "q \<le> length ys" and "take p xs = take p ys" and "drop r xs = drop q ys"
  shows "take p xs @ subslice p q ys @ drop r xs = ys"
proof -
  have "take p ys @ subslice p q ys @ drop q ys = ys"
    using assms(1,2) by (simp add: subslice_def) (metis append_take_drop_id drop_drop le_add_diff_inverse2)
  then show ?thesis by (simp add: assms(3,4))
qed

lemma replacement_modification:
  assumes "p \<le> length xs - s" and "p \<le> length ys - s" and "s \<le> length xs" and "s \<le> length ys"
    and "take p xs = take p ys" and "drop (length xs - s) xs = drop (length ys - s) ys"
  shows "take p xs @ subslice p (length ys - s) ys @ drop (p + length (subslice p (length xs - s) xs)) xs = ys"
proof -
  have "p + length (subslice p (length xs - s) xs) = length xs - s" using assms(1) by simp
  then show ?thesis using splice [OF assms(2) _ assms(5,6)] by simp
qed

text \<open>
  The recorded differences of a packet are exact. Applying them to the bytes that were read gives
  the bytes that were written, undoing them on the written bytes gives back the original, and no
  difference is empty of change.
\<close>

theorem deriveWireByteModifications_exact:
  "fold apply_modification (deriveWireByteModifications original modified) original = modified
   \<and> fold undo_modification (deriveWireByteModifications original modified) modified = original
   \<and> list_all (\<lambda>m. wm_originalBytes m \<noteq> wm_modifiedBytes m) (deriveWireByteModifications original modified)"
proof (cases "length original = length modified")
  case True
  then show ?thesis using equalLengthLoop_apply [of original modified 0] by (auto simp: deriveWireByteModifications_def)
next
  case False
  define p where "p = length (takeWhile (\<lambda>(l, r). l = r) (zip original modified))"
  define k where "k = min (length original - p) (length modified - p)"
  define s where "s = length (takeWhile (\<lambda>(l, r). l = r) (take k (zip (rev original) (rev modified))))"
  have p: "p \<le> length original" "p \<le> length modified" "take p original = take p modified"
    using common_prefix [OF p_def] by auto
  have s: "s \<le> k" "s \<le> length original" "s \<le> length modified"
    "drop (length original - s) original = drop (length modified - s) modified"
    using common_suffix [OF s_def] by auto
  have bounds: "p \<le> length original - s" "p \<le> length modified - s" using p s(1) by (auto simp: k_def)
  let ?m = "\<lparr>wm_offsetBytes = p, wm_originalBytes = subslice p (length original - s) original,
              wm_modifiedBytes = subslice p (length modified - s) modified\<rparr>"
  have "deriveWireByteModifications original modified = [?m]"
    using False by (auto simp: deriveWireByteModifications_def Let_def p_def k_def s_def)
  moreover have "apply_modification ?m original = modified"
    using replacement_modification [OF bounds s(2,3) p(3) s(4)] by (simp add: apply_modification_def)
  moreover have "undo_modification ?m modified = original"
    using replacement_modification [OF bounds(2,1) s(3,2) p(3) [symmetric] s(4) [symmetric]] by (simp add: undo_modification_def)
  moreover have lengths: "length (wm_originalBytes ?m) \<noteq> length (wm_modifiedBytes ?m)" using False bounds s p by simp
  moreover from lengths have "wm_originalBytes ?m \<noteq> wm_modifiedBytes ?m" by metis
  ultimately show ?thesis by simp
qed

end
