(* ===== verification/AccountModel.thy ===== *)
theory AccountModel
  imports RustText
begin

text \<open>
  The data of the account service (\<open>AccountService/src/model.rs\<close> and \<open>error.rs\<close>): policies, accounts and
  the requests and responses of the lease protocol. \<open>i64\<close> values are integers with the saturation of
  the code written out, \<open>u64\<close> counters are natural numbers with the saturation of multiplications
  written out. Error texts are named by constructors.
\<close>

definition i64_max :: int where "i64_max = 2 ^ 63 - 1"
definition i64_min :: int where "i64_min = - (2 ^ 63)"
definition u64_max :: nat where "u64_max = 2 ^ 64 - 1"

definition i64_sat :: "int \<Rightarrow> int" where
  "i64_sat x = max i64_min (min i64_max x)"

datatype Complaint = PolicyField string | SourceIpInvalid | BatchSize | BatchSelection | BatchValue | BatchExtension
  | BatchEmpty | ExtensionOverflow | CredentialLength | UsernameCharacters | RemarkLength | QueryRange
  | RuleSetName | RuleSetSize | RuleSetLine nat | RuleSetMissing string | RuleSetIds

datatype Conflict = InstanceChanged | BatchContentChanged | BatchForgotten

datatype AccountServiceError = AccountNotFound | AccountConflict | PolicyRevisionConflict int
  | RuleSetNotFound | RuleSetConflict | RuleSetRevisionConflict int | ManagementAuthenticationFailed
  | SocksAuthenticationFailed | LeaseNotFound | InternalAuthenticationFailed | RateLimited
  | Validation Complaint | StateConflict Conflict | Database | Json | Io | Credential

type_synonym 'a service_result = "(AccountServiceError, 'a) outcome"

record AccountPolicy =
  ap_maxUploadBytesPerSecond :: int
  ap_maxDownloadBytesPerSecond :: int
  ap_maxConnections :: int
  ap_maxOnlineIps :: int
  ap_expiresAt :: int

definition validatePolicy :: "AccountPolicy \<Rightarrow> unit service_result" where
  "validatePolicy policy =
     (case filter (\<lambda>(name, value). value < -1)
             [(''maxUploadBytesPerSecond'', ap_maxUploadBytesPerSecond policy),
              (''maxDownloadBytesPerSecond'', ap_maxDownloadBytesPerSecond policy),
              (''maxConnections'', ap_maxConnections policy),
              (''maxOnlineIps'', ap_maxOnlineIps policy),
              (''expiresAt'', ap_expiresAt policy)] of
        [] \<Rightarrow> Ok ()
      | (name, _) # _ \<Rightarrow> Err (Validation (PolicyField name)))"

definition disabled :: "AccountPolicy \<Rightarrow> bool" where
  "disabled policy =
     (ap_maxUploadBytesPerSecond policy = 0 \<or> ap_maxDownloadBytesPerSecond policy = 0
      \<or> ap_maxConnections policy = 0 \<or> ap_maxOnlineIps policy = 0 \<or> ap_expiresAt policy = 0)"

definition expired :: "AccountPolicy \<Rightarrow> int \<Rightarrow> bool" where
  "expired policy serverTime = (0 < ap_expiresAt policy \<and> ap_expiresAt policy < serverTime)"

record StoredAccount =
  ac_accountId :: str
  ac_username :: str
  ac_passwordHash :: "str option"
  ac_passwordSalt :: "str option"
  ac_policy :: AccountPolicy
  ac_policyRevision :: int
  ac_remark :: "str option"
  ac_createdAt :: int
  ac_updatedAt :: int

record CreateAccountRequest =
  ca_username :: str
  ca_password :: "str option"
  ca_policy :: AccountPolicy
  ca_remark :: "str option"

record UpdateAccountRequest =
  ua_policyRevision :: int
  ua_policy :: AccountPolicy
  ua_remark :: "str option"

record BatchAccountSelection =
  bs_accountId :: str
  bs_policyRevision :: int

record BatchUpdateAccountsRequest =
  bu_accounts :: "BatchAccountSelection list"
  bu_maxOnlineIps :: "int option"
  bu_maxConnections :: "int option"
  bu_maxUploadBytesPerSecond :: "int option"
  bu_maxDownloadBytesPerSecond :: "int option"
  bu_extendByMilliseconds :: "int option"

record LeaseAuthenticationRequest =
  la_connectionId :: str
  la_username :: str
  la_password :: str
  la_sourceIp :: str

record LeaseAuthenticationResponse =
  lg_serviceInstanceId :: str
  lg_accountId :: str
  lg_leaseId :: str
  lg_username :: str
  lg_policyRevision :: int
  lg_maxUploadBytesPerSecond :: int
  lg_maxDownloadBytesPerSecond :: int

record LeaseProgress =
  pr_leaseId :: str
  pr_connectionId :: str
  pr_uploadedBytes :: nat
  pr_downloadedBytes :: nat
  pr_final :: bool

record LeaseSynchronizationRequest =
  rq_serviceInstanceId :: str
  rq_batchId :: str
  rq_leases :: "LeaseProgress list"

record LeaseSynchronizationResult =
  rs_leaseId :: str
  rs_acknowledgedUploadedBytes :: nat
  rs_acknowledgedDownloadedBytes :: nat
  rs_policyRevision :: int
  rs_maxUploadBytesPerSecond :: int
  rs_maxDownloadBytesPerSecond :: int
  rs_revoked :: bool
  rs_errorCode :: "string option"

record LeaseSynchronizationResponse =
  rp_serviceInstanceId :: str
  rp_batchId :: str
  rp_leases :: "LeaseSynchronizationResult list"

record ConnectionView =
  cv_leaseId :: str
  cv_accountId :: str
  cv_connectionId :: str
  cv_sourceIp :: str
  cv_createdAt :: int
  cv_lastHeartbeatAt :: int
  cv_uploadedBytes :: nat
  cv_downloadedBytes :: nat
  cv_uploadBytesPerSecond :: nat
  cv_downloadBytesPerSecond :: nat
  cv_revoked :: bool

record UsageIncrement =
  ui_uploadedBytes :: int
  ui_downloadedBytes :: int
  ui_acceptedConnections :: int
  ui_rejectedAuthentications :: int

definition UsageIncrement_default :: UsageIncrement where
  "UsageIncrement_default =
     \<lparr>ui_uploadedBytes = 0, ui_downloadedBytes = 0, ui_acceptedConnections = 0, ui_rejectedAuthentications = 0\<rparr>"


record RuleSetView =
  rv_ruleSetId :: str
  rv_name :: str
  rv_content :: str
  rv_enabled :: bool
  rv_revision :: int
  rv_createdAt :: int
  rv_updatedAt :: int

record CreateRuleSetRequest =
  cr_name :: str
  cr_content :: str
  cr_enabled :: bool

record UpdateRuleSetRequest =
  ur_revision :: int
  ur_name :: str
  ur_content :: str

record SetRuleSetEnabledRequest =
  se_revision :: int
  se_enabled :: bool

end
