(* ===== verification/AccountLease.thy ===== *)
theory AccountLease
  imports AccountModel
begin

text \<open>
  The lease registry of \<open>AccountService/src/lease.rs\<close>: the leases of the running connections and the
  remembered synchronisation batches. Every method runs under the registry's mutex and is one
  definition here. The clock, the identifier a UUID provides and the digest of a request (SHA-256 of
  its JSON text) are arguments.
\<close>

section \<open>State\<close>

record LeaseState =
  ls_leaseId :: str
  ls_accountId :: str
  ls_connectionId :: str
  ls_sourceIp :: str
  ls_createdAt :: int
  ls_lastHeartbeatAt :: int
  ls_policy :: AccountPolicy
  ls_policyRevision :: int
  ls_uploadedBytes :: nat
  ls_downloadedBytes :: nat
  ls_uploadBytesPerSecond :: nat
  ls_downloadBytesPerSecond :: nat
  ls_rateObservedAt :: int
  ls_persistedUploadedBytes :: nat
  ls_persistedDownloadedBytes :: nat
  ls_finalPending :: bool
  ls_revoked :: bool

record 'd BatchRecord =
  br_requestDigest :: 'd
  br_response :: LeaseSynchronizationResponse

record 'd LeaseRegistry =
  lr_leases :: "(str, LeaseState) hashmap"
  lr_batches :: "(str, 'd BatchRecord) hashmap"
  lr_batchOrder :: "str list"

definition leaseHeartbeatTimeoutMilliseconds :: int where "leaseHeartbeatTimeoutMilliseconds = 8000"
definition maximumRememberedBatches :: nat where "maximumRememberedBatches = 4096"

definition LeaseRegistry_new :: "'d LeaseRegistry" where
  "LeaseRegistry_new = \<lparr>lr_leases = [], lr_batches = [], lr_batchOrder = []\<rparr>"

section \<open>Helpers\<close>

definition normalizeSourceIp :: "str \<Rightarrow> str service_result" where
  "normalizeSourceIp sourceIp =
     (case parse_IpAddr sourceIp of
        None \<Rightarrow> Err (Validation SourceIpInvalid)
      | Some (V6 ipv6) \<Rightarrow> Ok (case to_ipv4_mapped ipv6 of None \<Rightarrow> print_ipv6 ipv6 | Some ipv4 \<Rightarrow> print_ipv4 ipv4)
      | Some (V4 ipv4) \<Rightarrow> Ok (print_ipv4 ipv4))"

definition bytesPerSecond :: "nat \<Rightarrow> int \<Rightarrow> nat" where
  "bytesPerSecond bytes elapsedMilliseconds =
     (if elapsedMilliseconds \<le> 0 then 0 else min u64_max (bytes * 1000) div nat elapsedMilliseconds)"

definition freshRate :: "nat \<Rightarrow> int \<Rightarrow> int \<Rightarrow> nat" where
  "freshRate rate observedAt now =
     (if leaseHeartbeatTimeoutMilliseconds < i64_sat (now - observedAt) then 0 else rate)"

definition timedOut :: "int \<Rightarrow> LeaseState \<Rightarrow> bool" where
  "timedOut now lease = (leaseHeartbeatTimeoutMilliseconds < i64_sat (now - ls_lastHeartbeatAt lease))"

text \<open>The closure of \<open>retain\<close> marks a timed out lease before it decides whether to keep it.\<close>

definition purgeExpiredLeases :: "int \<Rightarrow> 'd LeaseRegistry \<Rightarrow> 'd LeaseRegistry" where
  "purgeExpiredLeases now state =
     state\<lparr>lr_leases :=
       hm_retain (\<lambda>_ lease. \<not> timedOut now lease
           \<or> ls_uploadedBytes lease \<noteq> ls_persistedUploadedBytes lease
           \<or> ls_downloadedBytes lease \<noteq> ls_persistedDownloadedBytes lease)
         (hm_update_all (\<lambda>lease. if timedOut now lease then lease\<lparr>ls_revoked := True, ls_finalPending := True\<rparr> else lease)
           (lr_leases state))\<rparr>"

definition missingLeaseResult :: "str \<Rightarrow> LeaseSynchronizationResult" where
  "missingLeaseResult leaseId =
     \<lparr>rs_leaseId = leaseId, rs_acknowledgedUploadedBytes = 0, rs_acknowledgedDownloadedBytes = 0, rs_policyRevision = 0,
      rs_maxUploadBytesPerSecond = 0, rs_maxDownloadBytesPerSecond = 0, rs_revoked = True,
      rs_errorCode = Some ''leaseNotFound''\<rparr>"

definition rememberBatch ::
  "str \<Rightarrow> 'd \<Rightarrow> LeaseSynchronizationResponse \<Rightarrow> 'd LeaseRegistry \<Rightarrow> 'd LeaseRegistry" where
  "rememberBatch batchId requestDigest response state =
     (let state = (if maximumRememberedBatches \<le> length (lr_batches state)
                   then (case lr_batchOrder state of
                           [] \<Rightarrow> state
                         | expiredBatchId # rest \<Rightarrow>
                             state\<lparr>lr_batchOrder := rest, lr_batches := hm_remove expiredBatchId (lr_batches state)\<rparr>)
                   else state)
      in state\<lparr>lr_batchOrder := lr_batchOrder state @ [batchId],
              lr_batches := hm_insert batchId \<lparr>br_requestDigest = requestDigest, br_response = response\<rparr> (lr_batches state)\<rparr>)"

definition uploadedDelta :: "LeaseState \<Rightarrow> nat" where
  "uploadedDelta lease = ls_uploadedBytes lease - ls_persistedUploadedBytes lease"

definition downloadedDelta :: "LeaseState \<Rightarrow> nat" where
  "downloadedDelta lease = ls_downloadedBytes lease - ls_persistedDownloadedBytes lease"

definition addPending :: "LeaseState \<Rightarrow> (str, UsageIncrement) hashmap \<Rightarrow> (str, UsageIncrement) hashmap" where
  "addPending lease usageByAccount =
     (if uploadedDelta lease = 0 \<and> downloadedDelta lease = 0 then usageByAccount
      else
        (let usage = hm_entry_or usageByAccount (ls_accountId lease) UsageIncrement_default
         in hm_insert (ls_accountId lease)
              (usage\<lparr>ui_uploadedBytes := i64_sat (ui_uploadedBytes usage + min (int (uploadedDelta lease)) i64_max),
                     ui_downloadedBytes := i64_sat (ui_downloadedBytes usage + min (int (downloadedDelta lease)) i64_max)\<rparr>)
              usageByAccount))"

definition pendingUsage :: "'d LeaseRegistry \<Rightarrow> (str, UsageIncrement) hashmap" where
  "pendingUsage state = fold addPending (map snd (lr_leases state)) []"

definition connectionView :: "int \<Rightarrow> LeaseState \<Rightarrow> ConnectionView" where
  "connectionView now lease =
     \<lparr>cv_leaseId = ls_leaseId lease, cv_accountId = ls_accountId lease, cv_connectionId = ls_connectionId lease,
      cv_sourceIp = ls_sourceIp lease, cv_createdAt = ls_createdAt lease, cv_lastHeartbeatAt = ls_lastHeartbeatAt lease,
      cv_uploadedBytes = ls_uploadedBytes lease, cv_downloadedBytes = ls_downloadedBytes lease,
      cv_uploadBytesPerSecond = freshRate (ls_uploadBytesPerSecond lease) (ls_rateObservedAt lease) now,
      cv_downloadBytesPerSecond = freshRate (ls_downloadBytesPerSecond lease) (ls_rateObservedAt lease) now,
      cv_revoked = ls_revoked lease\<rparr>"

definition activeLeases :: "str \<Rightarrow> 'd LeaseRegistry \<Rightarrow> LeaseState list" where
  "activeLeases accountId state =
     filter (\<lambda>lease. ls_accountId lease = accountId \<and> \<not> ls_revoked lease) (map snd (lr_leases state))"

definition onlineIps :: "LeaseState list \<Rightarrow> str list" where
  "onlineIps leases = remdups (map ls_sourceIp leases)"

section \<open>Operations\<close>

definition newLease :: "int \<Rightarrow> str \<Rightarrow> str \<Rightarrow> StoredAccount \<Rightarrow> LeaseAuthenticationRequest \<Rightarrow> LeaseState" where
  "newLease now leaseId sourceIp account request =
     \<lparr>ls_leaseId = leaseId, ls_accountId = ac_accountId account, ls_connectionId = la_connectionId request,
      ls_sourceIp = sourceIp, ls_createdAt = now, ls_lastHeartbeatAt = now, ls_policy = ac_policy account,
      ls_policyRevision = ac_policyRevision account, ls_uploadedBytes = 0, ls_downloadedBytes = 0,
      ls_uploadBytesPerSecond = 0, ls_downloadBytesPerSecond = 0, ls_rateObservedAt = now,
      ls_persistedUploadedBytes = 0, ls_persistedDownloadedBytes = 0, ls_finalPending = False, ls_revoked = False\<rparr>"

definition createLease ::
  "int \<Rightarrow> str \<Rightarrow> StoredAccount \<Rightarrow> LeaseAuthenticationRequest \<Rightarrow> 'd LeaseRegistry \<Rightarrow> str service_result \<times> 'd LeaseRegistry" where
  "createLease now leaseId account request state =
     (case normalizeSourceIp (la_sourceIp request) of
        Panic \<Rightarrow> (Panic, state)
      | Err e \<Rightarrow> (Err e, state)
      | Ok sourceIp \<Rightarrow>
          (let state = purgeExpiredLeases now state;
               accountLeases = activeLeases (ac_accountId account) state;
               policy = ac_policy account
           in if 0 < ap_maxConnections policy \<and> nat (ap_maxConnections policy) \<le> length accountLeases
              then (Err SocksAuthenticationFailed, state)
              else if sourceIp \<notin> set (onlineIps accountLeases) \<and> 0 < ap_maxOnlineIps policy
                      \<and> nat (ap_maxOnlineIps policy) \<le> length (onlineIps accountLeases)
              then (Err SocksAuthenticationFailed, state)
              else (Ok leaseId,
                    state\<lparr>lr_leases := hm_insert leaseId (newLease now leaseId sourceIp account request) (lr_leases state)\<rparr>)))"

definition acceptProgress :: "int \<Rightarrow> LeaseProgress \<Rightarrow> LeaseState \<Rightarrow> LeaseState" where
  "acceptProgress now progress lease =
     (let elapsedMilliseconds = i64_sat (now - ls_lastHeartbeatAt lease)
      in lease\<lparr>ls_uploadBytesPerSecond := bytesPerSecond (pr_uploadedBytes progress - ls_uploadedBytes lease) elapsedMilliseconds,
               ls_downloadBytesPerSecond := bytesPerSecond (pr_downloadedBytes progress - ls_downloadedBytes lease) elapsedMilliseconds,
               ls_rateObservedAt := now,
               ls_uploadedBytes := pr_uploadedBytes progress,
               ls_downloadedBytes := pr_downloadedBytes progress,
               ls_lastHeartbeatAt := now,
               ls_revoked := ls_revoked lease \<or> disabled (ls_policy lease) \<or> expired (ls_policy lease) now\<rparr>)"

definition leaseResult :: "LeaseState \<Rightarrow> bool \<Rightarrow> string option \<Rightarrow> LeaseSynchronizationResult" where
  "leaseResult lease revoked errorCode =
     \<lparr>rs_leaseId = ls_leaseId lease, rs_acknowledgedUploadedBytes = ls_uploadedBytes lease,
      rs_acknowledgedDownloadedBytes = ls_downloadedBytes lease, rs_policyRevision = ls_policyRevision lease,
      rs_maxUploadBytesPerSecond = ap_maxUploadBytesPerSecond (ls_policy lease),
      rs_maxDownloadBytesPerSecond = ap_maxDownloadBytesPerSecond (ls_policy lease),
      rs_revoked = revoked, rs_errorCode = errorCode\<rparr>"

text \<open>One round of the loop of \<open>synchronize\<close>.\<close>

definition synchronizeOne ::
  "int \<Rightarrow> LeaseProgress \<Rightarrow> (str, LeaseState) hashmap \<Rightarrow> LeaseSynchronizationResult \<times> (str, LeaseState) hashmap" where
  "synchronizeOne now progress leases =
     (case hm_get leases (pr_leaseId progress) of
        None \<Rightarrow> (missingLeaseResult (pr_leaseId progress), leases)
      | Some lease \<Rightarrow>
          if ls_connectionId lease \<noteq> pr_connectionId progress then (missingLeaseResult (pr_leaseId progress), leases)
          else if pr_uploadedBytes progress < ls_uploadedBytes lease \<or> pr_downloadedBytes progress < ls_downloadedBytes lease
          then (leaseResult lease True (Some ''nonMonotonicUsage''),
                hm_modify (pr_leaseId progress) (\<lambda>lease. lease\<lparr>ls_revoked := True\<rparr>) leases)
          else
            (let accepted = acceptProgress now progress lease
             in (leaseResult accepted (ls_revoked accepted) None,
                 hm_modify (pr_leaseId progress)
                   (\<lambda>_. if pr_final progress then accepted\<lparr>ls_finalPending := True\<rparr> else accepted) leases)))"

fun synchronizeAll ::
  "int \<Rightarrow> LeaseProgress list \<Rightarrow> (str, LeaseState) hashmap \<Rightarrow> LeaseSynchronizationResult list \<times> (str, LeaseState) hashmap" where
  "synchronizeAll now [] leases = ([], leases)"
| "synchronizeAll now (progress # rest) leases =
     (case synchronizeOne now progress leases of (result, leases) \<Rightarrow>
        (case synchronizeAll now rest leases of (results, leases) \<Rightarrow> (result # results, leases)))"

definition synchronize ::
  "(LeaseSynchronizationRequest \<Rightarrow> 'd) \<Rightarrow> int \<Rightarrow> str \<Rightarrow> LeaseSynchronizationRequest \<Rightarrow> 'd LeaseRegistry \<Rightarrow>
   (LeaseSynchronizationResponse \<times> (str, UsageIncrement) hashmap) service_result \<times> 'd LeaseRegistry" where
  "synchronize digest now serviceInstanceId request state =
     (if rq_serviceInstanceId request \<noteq> serviceInstanceId then (Err (StateConflict InstanceChanged), state)
      else
        (case hm_get (lr_batches state) (rq_batchId request) of
           Some batch \<Rightarrow>
             if br_requestDigest batch \<noteq> digest request then (Err (StateConflict BatchContentChanged), state)
             else (Ok (br_response batch, pendingUsage state), state)
         | None \<Rightarrow>
             (let state = purgeExpiredLeases now state
              in case synchronizeAll now (rq_leases request) (lr_leases state) of (results, leases) \<Rightarrow>
                   (let response = \<lparr>rp_serviceInstanceId = serviceInstanceId, rp_batchId = rq_batchId request,
                                    rp_leases = results\<rparr>;
                        state = rememberBatch (rq_batchId request) (digest request) response (state\<lparr>lr_leases := leases\<rparr>)
                    in (Ok (response, pendingUsage state), state)))))"

definition confirmUsageCommitted :: "str \<Rightarrow> 'd LeaseRegistry \<Rightarrow> unit service_result \<times> 'd LeaseRegistry" where
  "confirmUsageCommitted batchId state =
     (case hm_get (lr_batches state) batchId of
        None \<Rightarrow> (Err (StateConflict BatchForgotten), state)
      | Some _ \<Rightarrow>
          (Ok (),
           state\<lparr>lr_leases :=
             hm_retain (\<lambda>_ lease. \<not> ls_finalPending lease)
               (hm_update_all (\<lambda>lease. lease\<lparr>ls_persistedUploadedBytes := ls_uploadedBytes lease,
                                             ls_persistedDownloadedBytes := ls_downloadedBytes lease\<rparr>)
                 (lr_leases state))\<rparr>))"

definition reconcileAccount :: "StoredAccount \<Rightarrow> int \<Rightarrow> 'd LeaseRegistry \<Rightarrow> 'd LeaseRegistry" where
  "reconcileAccount account serverTime state =
     (let active = activeLeases (ac_accountId account) state;
          policy = ac_policy account;
          exceedsConnections = (0 < ap_maxConnections policy \<and> nat (ap_maxConnections policy) < length active);
          exceedsIps = (0 < ap_maxOnlineIps policy \<and> nat (ap_maxOnlineIps policy) < length (onlineIps active));
          revokeAll = (disabled policy \<or> expired policy serverTime \<or> exceedsConnections \<or> exceedsIps)
      in state\<lparr>lr_leases :=
           hm_update_all (\<lambda>lease.
             if ls_accountId lease = ac_accountId account
             then lease\<lparr>ls_policy := policy, ls_policyRevision := ac_policyRevision account,
                        ls_revoked := ls_revoked lease \<or> revokeAll\<rparr>
             else lease) (lr_leases state)\<rparr>)"

definition revokeAccount :: "str \<Rightarrow> 'd LeaseRegistry \<Rightarrow> nat \<times> 'd LeaseRegistry" where
  "revokeAccount accountId state =
     (length (activeLeases accountId state),
      state\<lparr>lr_leases :=
        hm_update_all (\<lambda>lease. if ls_accountId lease = accountId then lease\<lparr>ls_revoked := True\<rparr> else lease) (lr_leases state)\<rparr>)"

definition removeAccount :: "str \<Rightarrow> 'd LeaseRegistry \<Rightarrow> nat \<times> 'd LeaseRegistry" where
  "removeAccount accountId state =
     (let leases = hm_retain (\<lambda>_ lease. ls_accountId lease \<noteq> accountId) (lr_leases state)
      in (length (lr_leases state) - length leases, state\<lparr>lr_leases := leases\<rparr>))"

definition connections :: "int \<Rightarrow> str option \<Rightarrow> 'd LeaseRegistry \<Rightarrow> ConnectionView list \<times> 'd LeaseRegistry" where
  "connections now accountId state =
     (let state = purgeExpiredLeases now state;
          selected = filter (\<lambda>lease. accountId = None \<or> accountId = Some (ls_accountId lease)) (map snd (lr_leases state))
      in (sort_key (\<lambda>c. - cv_createdAt c) (map (connectionView now) selected), state))"

definition accountPresence :: "int \<Rightarrow> str \<Rightarrow> 'd LeaseRegistry \<Rightarrow> (nat \<times> nat) \<times> 'd LeaseRegistry" where
  "accountPresence now accountId state =
     (let state = purgeExpiredLeases now state; active = activeLeases accountId state
      in ((length active, length (onlineIps active)), state))"

definition totalRate :: "(LeaseState \<Rightarrow> nat) \<Rightarrow> int \<Rightarrow> LeaseState list \<Rightarrow> nat" where
  "totalRate rate now leases =
     fold (\<lambda>lease total. min u64_max (total + freshRate (rate lease) (ls_rateObservedAt lease) now)) leases 0"

definition aggregateOverview :: "int \<Rightarrow> 'd LeaseRegistry \<Rightarrow> (nat \<times> nat \<times> nat \<times> nat \<times> nat) \<times> 'd LeaseRegistry" where
  "aggregateOverview now state =
     (let state = purgeExpiredLeases now state;
          active = filter (\<lambda>lease. \<not> ls_revoked lease) (map snd (lr_leases state))
      in ((length (remdups (map ls_accountId active)),
           length (remdups (map (\<lambda>lease. (ls_accountId lease, ls_sourceIp lease)) active)),
           length active,
           totalRate ls_uploadBytesPerSecond now active,
           totalRate ls_downloadBytesPerSecond now active), state))"

end
