(* ===== verification/AccountStore.thy ===== *)
theory AccountStore
  imports AccountModel
begin

text \<open>
  The account tables of \<open>AccountService/src/store.rs\<close>. The tables its SQL statements name are
  association lists by primary key; a statement is the change of these lists it describes. Every
  method runs one transaction: the argument \<open>fault\<close> says whether SQLite reports a failure in it, in
  which case it rolls back. The row the creating and updating methods read back after their commit has
  its own flag \<open>readFault\<close>. The clock never runs negative, so the day of a row is a floor. Argon2 and the UUID are arguments.
\<close>

section \<open>Tables\<close>

record UsageCounters =
  uc_uploadedBytes :: int
  uc_downloadedBytes :: int
  uc_acceptedConnections :: int
  uc_rejectedAuthentications :: int
  uc_lastConnectedAt :: "int option"
  uc_updatedAt :: int

record AuditEntry =
  au_occurredAt :: int
  au_actorType :: string
  au_action :: string
  au_accountId :: "str option"
  au_result :: string
  au_details :: str

record AccountStore =
  at_accounts :: "(str, StoredAccount) hashmap"
  at_usageCounters :: "(str, UsageCounters) hashmap"
  at_usageDaily :: "(str \<times> int, UsageIncrement) hashmap"
  at_auditLogs :: "AuditEntry list"
  at_ruleSets :: "(str, RuleSetView) hashmap"

definition AccountStore_empty :: AccountStore where
  "AccountStore_empty = \<lparr>at_accounts = [], at_usageCounters = [], at_usageDaily = [], at_auditLogs = [], at_ruleSets = []\<rparr>"

definition maximumUsernameBytes :: nat where "maximumUsernameBytes = 255"
definition maximumPasswordBytes :: nat where "maximumPasswordBytes = 255"
definition maximumRemarkBytes :: nat where "maximumRemarkBytes = 512"
definition maximumBatchAccounts :: nat where "maximumBatchAccounts = 500"

definition insertAudit :: "AuditEntry \<Rightarrow> AccountStore \<Rightarrow> AccountStore" where
  "insertAudit entry db = db\<lparr>at_auditLogs := at_auditLogs db @ [entry]\<rparr>"

definition accountAudit :: "int \<Rightarrow> string \<Rightarrow> str \<Rightarrow> str \<Rightarrow> AuditEntry" where
  "accountAudit now action accountId details =
     \<lparr>au_occurredAt = now, au_actorType = ''management'', au_action = action, au_accountId = Some accountId,
      au_result = ''success'', au_details = details\<rparr>"

definition noDetails :: str where "noDetails = lit ''{}''"

definition print_int :: "int \<Rightarrow> str" where
  "print_int i = (if i < 0 then 45 # print_digits 10 (nat (- i)) else print_digits 10 (nat i))"

definition revisionDetails :: "int \<Rightarrow> str" where
  "revisionDetails revision = lit ''{\"policyRevision\":'' @ print_int revision @ lit ''}''"

section \<open>Validation\<close>

definition validateCredentialText :: "str \<Rightarrow> nat \<Rightarrow> unit service_result" where
  "validateCredentialText value maximumBytes =
     (if value = [] \<or> maximumBytes < str_len value then Err (Validation CredentialLength) else Ok ())"

definition isSharedProtocolUsername :: "str \<Rightarrow> bool" where
  "isSharedProtocolUsername value = (58 \<notin> set value \<and> \<not> (\<exists>c \<in> set value. is_control c))"

definition validateUsernameText :: "str \<Rightarrow> unit service_result" where
  "validateUsernameText value =
     and_then (validateCredentialText value maximumUsernameBytes) (\<lambda>_.
       if \<not> isSharedProtocolUsername value then Err (Validation UsernameCharacters) else Ok ())"

definition validateRemark :: "str option \<Rightarrow> unit service_result" where
  "validateRemark remark =
     (if (case remark of None \<Rightarrow> False | Some value \<Rightarrow> maximumRemarkBytes < str_len value)
      then Err (Validation RemarkLength) else Ok ())"

definition validateAccountRequest :: "CreateAccountRequest \<Rightarrow> unit service_result" where
  "validateAccountRequest request =
     and_then (validateUsernameText (ca_username request)) (\<lambda>_.
     and_then (case ca_password request of None \<Rightarrow> Ok () | Some password \<Rightarrow> validateCredentialText password maximumPasswordBytes) (\<lambda>_.
     and_then (validatePolicy (ca_policy request)) (\<lambda>_. validateRemark (ca_remark request))))"

definition validateBatchSelections :: "BatchAccountSelection list \<Rightarrow> unit service_result" where
  "validateBatchSelections selections =
     (if selections = [] \<or> maximumBatchAccounts < length selections then Err (Validation BatchSize)
      else if (\<exists>s \<in> set selections. bs_accountId s = [] \<or> bs_policyRevision s \<le> 0) \<or> \<not> distinct (map bs_accountId selections)
      then Err (Validation BatchSelection) else Ok ())"

definition validateBatchMutation :: "BatchUpdateAccountsRequest \<Rightarrow> unit service_result" where
  "validateBatchMutation request =
     (let values = [bu_maxOnlineIps request, bu_maxConnections request, bu_maxUploadBytesPerSecond request,
                    bu_maxDownloadBytesPerSecond request]
      in if (\<exists>v \<in> set values. case v of None \<Rightarrow> False | Some value \<Rightarrow> value < -1) then Err (Validation BatchValue)
         else if (case bu_extendByMilliseconds request of None \<Rightarrow> False | Some value \<Rightarrow> value \<le> 0)
         then Err (Validation BatchExtension)
         else if list_all (\<lambda>v. v = None) values \<and> bu_extendByMilliseconds request = None then Err (Validation BatchEmpty)
         else Ok ())"

definition applyBatchPolicy :: "AccountPolicy \<Rightarrow> BatchUpdateAccountsRequest \<Rightarrow> (bool \<times> AccountPolicy) service_result" where
  "applyBatchPolicy original request =
     (let policy = (case bu_maxOnlineIps request of None \<Rightarrow> original | Some v \<Rightarrow> original\<lparr>ap_maxOnlineIps := v\<rparr>);
          policy = (case bu_maxConnections request of None \<Rightarrow> policy | Some v \<Rightarrow> policy\<lparr>ap_maxConnections := v\<rparr>);
          policy = (case bu_maxUploadBytesPerSecond request of None \<Rightarrow> policy | Some v \<Rightarrow> policy\<lparr>ap_maxUploadBytesPerSecond := v\<rparr>);
          policy = (case bu_maxDownloadBytesPerSecond request of None \<Rightarrow> policy | Some v \<Rightarrow> policy\<lparr>ap_maxDownloadBytesPerSecond := v\<rparr>)
      in case bu_extendByMilliseconds request of
           Some extension \<Rightarrow>
             if 0 < ap_expiresAt policy
             then (if i64_max < ap_expiresAt policy + extension then Err (Validation ExtensionOverflow)
                   else (let policy = policy\<lparr>ap_expiresAt := ap_expiresAt policy + extension\<rparr> in Ok (policy \<noteq> original, policy)))
             else Ok (policy \<noteq> original, policy)
         | None \<Rightarrow> Ok (policy \<noteq> original, policy))"

section \<open>Accounts\<close>

definition accountById :: "bool \<Rightarrow> str \<Rightarrow> AccountStore \<Rightarrow> StoredAccount service_result" where
  "accountById fault accountId db =
     (if fault then Err Database
      else (case hm_get (at_accounts db) accountId of None \<Rightarrow> Err AccountNotFound | Some account \<Rightarrow> Ok account))"

definition accountByUsername :: "bool \<Rightarrow> str \<Rightarrow> AccountStore \<Rightarrow> StoredAccount option service_result" where
  "accountByUsername fault username db =
     (if fault then Err Database
      else Ok (find (\<lambda>account. ac_username account = username) (map snd (at_accounts db))))"

definition passwordDigest :: "(str \<Rightarrow> (str \<times> str) option) \<Rightarrow> str option \<Rightarrow> (str option \<times> str option) service_result" where
  "passwordDigest hashPassword password =
     (case password of
        None \<Rightarrow> Ok (None, None)
      | Some value \<Rightarrow>
          (case hashPassword value of None \<Rightarrow> Err Credential | Some (hash, salt) \<Rightarrow> Ok (Some hash, Some salt)))"

definition newAccount :: "int \<Rightarrow> str \<Rightarrow> str option \<times> str option \<Rightarrow> CreateAccountRequest \<Rightarrow> StoredAccount" where
  "newAccount now accountId digest request =
     \<lparr>ac_accountId = accountId, ac_username = ca_username request, ac_passwordHash = fst digest,
      ac_passwordSalt = snd digest, ac_policy = ca_policy request, ac_policyRevision = 1,
      ac_remark = ca_remark request, ac_createdAt = now, ac_updatedAt = now\<rparr>"

definition newCounters :: "int \<Rightarrow> UsageCounters" where
  "newCounters now =
     \<lparr>uc_uploadedBytes = 0, uc_downloadedBytes = 0, uc_acceptedConnections = 0, uc_rejectedAuthentications = 0,
      uc_lastConnectedAt = None, uc_updatedAt = now\<rparr>"

text \<open>The identifier is a fresh UUID; a collision, which the code may report as a conflict, is a database error here.\<close>

definition createAccountRow ::
  "bool \<Rightarrow> bool \<Rightarrow> int \<Rightarrow> str \<Rightarrow> (str \<Rightarrow> (str \<times> str) option) \<Rightarrow> CreateAccountRequest \<Rightarrow> AccountStore \<Rightarrow>
   StoredAccount service_result \<times> AccountStore" where
  "createAccountRow fault readFault now accountId hashPassword request db =
     (case and_then (validateAccountRequest request) (\<lambda>_. passwordDigest hashPassword (ca_password request)) of
        Panic \<Rightarrow> (Panic, db)
      | Err e \<Rightarrow> (Err e, db)
      | Ok digest \<Rightarrow>
          if fault \<or> hm_contains (at_accounts db) accountId then (Err Database, db)
          else if ca_username request \<in> set (map (ac_username \<circ> snd) (at_accounts db)) then (Err AccountConflict, db)
          else
            (let db = insertAudit (accountAudit now ''account.create'' accountId noDetails)
                        (db\<lparr>at_accounts := hm_insert accountId (newAccount now accountId digest request) (at_accounts db),
                            at_usageCounters := hm_insert accountId (newCounters now) (at_usageCounters db)\<rparr>)
             in (accountById readFault accountId db, db)))"

definition updateAccountRow ::
  "bool \<Rightarrow> bool \<Rightarrow> int \<Rightarrow> str \<Rightarrow> UpdateAccountRequest \<Rightarrow> AccountStore \<Rightarrow> StoredAccount service_result \<times> AccountStore" where
  "updateAccountRow fault readFault now accountId request db =
     (case and_then (validatePolicy (ua_policy request)) (\<lambda>_. validateRemark (ua_remark request)) of
        Panic \<Rightarrow> (Panic, db)
      | Err e \<Rightarrow> (Err e, db)
      | Ok _ \<Rightarrow>
          if fault then (Err Database, db)
          else
            (case hm_get (at_accounts db) accountId of
               None \<Rightarrow> (Err AccountNotFound, db)
             | Some account \<Rightarrow>
                 if ac_policyRevision account \<noteq> ua_policyRevision request
                 then (Err (PolicyRevisionConflict (ac_policyRevision account)), db)
                 else
                   (let db = insertAudit (accountAudit now ''account.update'' accountId
                                (revisionDetails (i64_sat (ac_policyRevision account + 1))))
                          (db\<lparr>at_accounts := hm_modify accountId (\<lambda>account. account\<lparr>ac_policy := ua_policy request,
                                ac_policyRevision := i64_sat (ac_policyRevision account + 1), ac_remark := ua_remark request,
                                ac_updatedAt := now\<rparr>) (at_accounts db)\<rparr>)
                    in (accountById readFault accountId db, db))))"

text \<open>
  One round of the loop of \<open>updateAccountsBatch\<close>: the account, whether it counts as updated and the
  tables. The loop runs inside a transaction, so any error abandons the changed tables.
\<close>

definition batchUpdateOne ::
  "int \<Rightarrow> BatchUpdateAccountsRequest \<Rightarrow> BatchAccountSelection \<Rightarrow> AccountStore \<Rightarrow>
   (StoredAccount \<times> nat \<times> AccountStore) service_result" where
  "batchUpdateOne now request selection db =
     (case hm_get (at_accounts db) (bs_accountId selection) of
        None \<Rightarrow> Err AccountNotFound
      | Some account \<Rightarrow>
          if ac_policyRevision account \<noteq> bs_policyRevision selection
          then Err (PolicyRevisionConflict (ac_policyRevision account))
          else and_then (applyBatchPolicy (ac_policy account) request) (\<lambda>(changed, policy).
            if changed then
              and_then (validatePolicy policy) (\<lambda>_.
                (let account = account\<lparr>ac_policy := policy, ac_policyRevision := i64_sat (ac_policyRevision account + 1),
                                       ac_updatedAt := now\<rparr>
                 in Ok (account, 1, insertAudit (accountAudit now ''account.batchUpdate'' (ac_accountId account)
                          (revisionDetails (ac_policyRevision account)))
                       (db\<lparr>at_accounts := hm_modify (ac_accountId account) (\<lambda>_. account) (at_accounts db)\<rparr>))))
            else Ok (account, 0, db)))"

fun batchUpdateLoop ::
  "int \<Rightarrow> BatchUpdateAccountsRequest \<Rightarrow> BatchAccountSelection list \<Rightarrow> AccountStore \<Rightarrow>
   (StoredAccount list \<times> nat \<times> AccountStore) service_result" where
  "batchUpdateLoop now request [] db = Ok ([], 0, db)"
| "batchUpdateLoop now request (selection # selections) db =
     and_then (batchUpdateOne now request selection db) (\<lambda>(account, changed, db).
     and_then (batchUpdateLoop now request selections db) (\<lambda>(accounts, updated, db).
       Ok (account # accounts, changed + updated, db)))"

definition updateAccountRows ::
  "bool \<Rightarrow> int \<Rightarrow> BatchUpdateAccountsRequest \<Rightarrow> AccountStore \<Rightarrow> (StoredAccount list \<times> nat) service_result \<times> AccountStore" where
  "updateAccountRows fault now request db =
     (case and_then (validateBatchSelections (bu_accounts request)) (\<lambda>_.
           and_then (validateBatchMutation request) (\<lambda>_.
             if fault then Err Database else batchUpdateLoop now request (bu_accounts request) db)) of
        Panic \<Rightarrow> (Panic, db)
      | Err e \<Rightarrow> (Err e, db)
      | Ok (accounts, updatedAccounts, db) \<Rightarrow> (Ok (accounts, updatedAccounts), db))"

text \<open>Deleting an account row cascades to its counters and daily rows.\<close>

definition deleteRow :: "str \<Rightarrow> AccountStore \<Rightarrow> AccountStore" where
  "deleteRow accountId db =
     db\<lparr>at_accounts := hm_remove accountId (at_accounts db), at_usageCounters := hm_remove accountId (at_usageCounters db),
        at_usageDaily := hm_retain (\<lambda>k _. fst k \<noteq> accountId) (at_usageDaily db)\<rparr>"

fun checkRevisions :: "BatchAccountSelection list \<Rightarrow> AccountStore \<Rightarrow> unit service_result" where
  "checkRevisions [] db = Ok ()"
| "checkRevisions (selection # selections) db =
     (case hm_get (at_accounts db) (bs_accountId selection) of
        None \<Rightarrow> Err AccountNotFound
      | Some account \<Rightarrow>
          if ac_policyRevision account \<noteq> bs_policyRevision selection
          then Err (PolicyRevisionConflict (ac_policyRevision account))
          else checkRevisions selections db)"

definition deleteAccountRows ::
  "bool \<Rightarrow> int \<Rightarrow> BatchAccountSelection list \<Rightarrow> AccountStore \<Rightarrow> nat service_result \<times> AccountStore" where
  "deleteAccountRows fault now selections db =
     (case and_then (validateBatchSelections selections) (\<lambda>_.
             if fault then Err Database else checkRevisions selections db) of
        Panic \<Rightarrow> (Panic, db)
      | Err e \<Rightarrow> (Err e, db)
      | Ok _ \<Rightarrow>
          (Ok (length selections),
           fold (\<lambda>selection db. insertAudit (accountAudit now ''account.batchDelete'' (bs_accountId selection) noDetails)
                   (deleteRow (bs_accountId selection) db)) selections db))"

definition deleteAccountRow :: "bool \<Rightarrow> int \<Rightarrow> str \<Rightarrow> AccountStore \<Rightarrow> unit service_result \<times> AccountStore" where
  "deleteAccountRow fault now accountId db =
     (if fault then (Err Database, db)
      else if \<not> hm_contains (at_accounts db) accountId then (Err AccountNotFound, db)
      else (Ok (), insertAudit (accountAudit now ''account.delete'' accountId noDetails) (deleteRow accountId db)))"

definition replaceAccountPassword ::
  "bool \<Rightarrow> int \<Rightarrow> str \<Rightarrow> (str \<times> str) option \<Rightarrow> AccountStore \<Rightarrow> unit service_result \<times> AccountStore" where
  "replaceAccountPassword fault now accountId digest db =
     (if fault then (Err Database, db)
      else if \<not> hm_contains (at_accounts db) accountId then (Err AccountNotFound, db)
      else (Ok (), insertAudit (accountAudit now ''account.password.update'' accountId noDetails)
              (db\<lparr>at_accounts := hm_modify accountId (\<lambda>account. account\<lparr>ac_passwordHash := map_option fst digest,
                    ac_passwordSalt := map_option snd digest, ac_policyRevision := ac_policyRevision account + 1,
                    ac_updatedAt := now\<rparr>) (at_accounts db)\<rparr>)))"

definition setAccountPasswordRow ::
  "bool \<Rightarrow> int \<Rightarrow> (str \<Rightarrow> (str \<times> str) option) \<Rightarrow> str \<Rightarrow> str \<Rightarrow> AccountStore \<Rightarrow> unit service_result \<times> AccountStore" where
  "setAccountPasswordRow fault now hashPassword accountId password db =
     (case and_then (validateCredentialText password maximumPasswordBytes) (\<lambda>_.
             case hashPassword password of None \<Rightarrow> Err Credential | Some digest \<Rightarrow> Ok digest) of
        Panic \<Rightarrow> (Panic, db)
      | Err e \<Rightarrow> (Err e, db)
      | Ok digest \<Rightarrow> replaceAccountPassword fault now accountId (Some digest) db)"

definition clearAccountPasswordRow :: "bool \<Rightarrow> int \<Rightarrow> str \<Rightarrow> AccountStore \<Rightarrow> unit service_result \<times> AccountStore" where
  "clearAccountPasswordRow fault now accountId db = replaceAccountPassword fault now accountId None db"

section \<open>Usage\<close>

text \<open>The columns are 64-bit integers; the counters of the model are unbounded, which agrees while the totals fit.\<close>

definition addCounters :: "int \<Rightarrow> UsageIncrement \<Rightarrow> UsageCounters \<Rightarrow> UsageCounters" where
  "addCounters now usage row =
     row\<lparr>uc_uploadedBytes := uc_uploadedBytes row + ui_uploadedBytes usage,
         uc_downloadedBytes := uc_downloadedBytes row + ui_downloadedBytes usage,
         uc_acceptedConnections := uc_acceptedConnections row + ui_acceptedConnections usage,
         uc_rejectedAuthentications := uc_rejectedAuthentications row + ui_rejectedAuthentications usage,
         uc_lastConnectedAt := (if 0 < ui_acceptedConnections usage then Some now else uc_lastConnectedAt row),
         uc_updatedAt := now\<rparr>"

definition addDaily :: "UsageIncrement \<Rightarrow> UsageIncrement \<Rightarrow> UsageIncrement" where
  "addDaily usage row =
     \<lparr>ui_uploadedBytes = ui_uploadedBytes row + ui_uploadedBytes usage,
      ui_downloadedBytes = ui_downloadedBytes row + ui_downloadedBytes usage,
      ui_acceptedConnections = ui_acceptedConnections row + ui_acceptedConnections usage,
      ui_rejectedAuthentications = ui_rejectedAuthentications row + ui_rejectedAuthentications usage\<rparr>"

definition applyUsageRow :: "int \<Rightarrow> str \<times> UsageIncrement \<Rightarrow> AccountStore \<Rightarrow> AccountStore" where
  "applyUsageRow now entry db =
     (case entry of (accountId, usage) \<Rightarrow>
        (let key = (accountId, now div 86400000)
         in db\<lparr>at_usageCounters := hm_modify accountId (addCounters now usage) (at_usageCounters db),
               at_usageDaily := (case hm_get (at_usageDaily db) key of
                   None \<Rightarrow> hm_insert key usage (at_usageDaily db)
                 | Some row \<Rightarrow> hm_insert key (addDaily usage row) (at_usageDaily db))\<rparr>))"

text \<open>The foreign key of the daily rows makes the transaction fail for an account that does not exist.\<close>

definition applyUsage :: "bool \<Rightarrow> int \<Rightarrow> (str, UsageIncrement) hashmap \<Rightarrow> AccountStore \<Rightarrow> unit service_result \<times> AccountStore" where
  "applyUsage fault now usageByAccount db =
     (if usageByAccount = [] then (Ok (), db)
      else if fault \<or> (\<exists>entry \<in> set usageByAccount. \<not> hm_contains (at_accounts db) (fst entry)) then (Err Database, db)
      else (Ok (), fold (applyUsageRow now) usageByAccount db))"

definition usageTotals :: "bool \<Rightarrow> AccountStore \<Rightarrow> (str, int \<times> int) hashmap service_result" where
  "usageTotals fault db =
     (if fault then Err Database
      else Ok (map (\<lambda>e. (fst e, (uc_uploadedBytes (snd e), uc_downloadedBytes (snd e)))) (at_usageCounters db)))"

end
