(* ===== verification/AccountService.thy ===== *)
theory AccountService
  imports AccountLease AccountStore
begin

text \<open>
  The domain service of \<open>AccountService/src/service.rs\<close>, which joins the store and the lease registry.
  Every operation that changes both holds the account operation lock from start to end, so it is one
  definition on the pair of states. Each read of the clock (\<open>t1\<close>, \<open>t2\<close>, \<open>t3\<close>), each failure of a
  database call (\<open>f1\<close>, \<open>f2\<close>, \<open>f3\<close>) and the password functions are arguments.
\<close>

record 'd AccountDomain =
  ds_store :: AccountStore
  ds_leases :: "'d LeaseRegistry"
  ds_serviceInstanceId :: str

definition AccountDomain_new :: "AccountStore \<Rightarrow> str \<Rightarrow> 'd AccountDomain" where
  "AccountDomain_new store instanceId =
     \<lparr>ds_store = store, ds_leases = LeaseRegistry_new, ds_serviceInstanceId = instanceId\<rparr>"

datatype PasswordMode = AnyPassword | FixedPassword

record AccountView =
  av_accountId :: str
  av_username :: str
  av_passwordMode :: PasswordMode
  av_policy :: AccountPolicy
  av_policyRevision :: int
  av_remark :: "str option"
  av_createdAt :: int
  av_updatedAt :: int
  av_uploadedBytes :: int
  av_downloadedBytes :: int
  av_activeConnections :: nat
  av_onlineIps :: nat

section \<open>Authentication\<close>

type_synonym password_check = "str \<Rightarrow> str \<Rightarrow> str \<Rightarrow> bool"

definition validateAccountAuthentication :: "password_check \<Rightarrow> StoredAccount \<Rightarrow> str \<Rightarrow> int \<Rightarrow> unit service_result" where
  "validateAccountAuthentication verifyPassword account password serverTime =
     (if password = [] \<or> disabled (ac_policy account) \<or> expired (ac_policy account) serverTime
      then Err SocksAuthenticationFailed
      else (case (ac_passwordHash account, ac_passwordSalt account) of
              (None, None) \<Rightarrow> Ok ()
            | (Some hash, Some salt) \<Rightarrow>
                if verifyPassword password hash salt then Ok () else Err SocksAuthenticationFailed
            | _ \<Rightarrow> Err SocksAuthenticationFailed))"

definition verifyAccountCredentials ::
  "password_check \<Rightarrow> bool \<Rightarrow> int \<Rightarrow> str \<Rightarrow> str \<Rightarrow> 'd AccountDomain \<Rightarrow> unit service_result" where
  "verifyAccountCredentials verifyPassword f1 t1 username password state =
     and_then (accountByUsername f1 username (ds_store state)) (\<lambda>found.
       case found of
         None \<Rightarrow> Err SocksAuthenticationFailed
       | Some account \<Rightarrow> validateAccountAuthentication verifyPassword account password t1)"

definition authenticateLease ::
  "password_check \<Rightarrow> bool \<Rightarrow> bool \<Rightarrow> int \<Rightarrow> int \<Rightarrow> int \<Rightarrow> str \<Rightarrow> LeaseAuthenticationRequest \<Rightarrow> 'd AccountDomain \<Rightarrow>
   LeaseAuthenticationResponse service_result \<times> 'd AccountDomain" where
  "authenticateLease verifyPassword f1 f2 t1 t2 t3 leaseId request state =
     (case accountByUsername f1 (la_username request) (ds_store state) of
        Panic \<Rightarrow> (Panic, state)
      | Err e \<Rightarrow> (Err e, state)
      | Ok None \<Rightarrow> (Err SocksAuthenticationFailed, state)
      | Ok (Some account) \<Rightarrow>
          (case validateAccountAuthentication verifyPassword account (la_password request) t1 of
             Panic \<Rightarrow> (Panic, state)
           | Err error \<Rightarrow>
               (case applyUsage f2 t2 [(ac_accountId account, UsageIncrement_default\<lparr>ui_rejectedAuthentications := 1\<rparr>)]
                       (ds_store state) of
                  (Ok _, store) \<Rightarrow> (Err error, state\<lparr>ds_store := store\<rparr>)
                | (Err e, store) \<Rightarrow> (Err e, state\<lparr>ds_store := store\<rparr>)
                | (Panic, store) \<Rightarrow> (Panic, state\<lparr>ds_store := store\<rparr>))
           | Ok _ \<Rightarrow>
               (case createLease t2 leaseId account request (ds_leases state) of
                  (Panic, leases) \<Rightarrow> (Panic, state\<lparr>ds_leases := leases\<rparr>)
                | (Err e, leases) \<Rightarrow> (Err e, state\<lparr>ds_leases := leases\<rparr>)
                | (Ok leaseId, leases) \<Rightarrow>
                    (case applyUsage f2 t3 [(ac_accountId account, UsageIncrement_default\<lparr>ui_acceptedConnections := 1\<rparr>)]
                            (ds_store state) of
                       (Panic, store) \<Rightarrow> (Panic, state\<lparr>ds_leases := leases, ds_store := store\<rparr>)
                     | (Err e, store) \<Rightarrow> (Err e, state\<lparr>ds_leases := leases, ds_store := store\<rparr>)
                     | (Ok _, store) \<Rightarrow>
                         (Ok \<lparr>lg_serviceInstanceId = ds_serviceInstanceId state, lg_accountId = ac_accountId account,
                              lg_leaseId = leaseId, lg_username = ac_username account,
                              lg_policyRevision = ac_policyRevision account,
                              lg_maxUploadBytesPerSecond = ap_maxUploadBytesPerSecond (ac_policy account),
                              lg_maxDownloadBytesPerSecond = ap_maxDownloadBytesPerSecond (ac_policy account)\<rparr>,
                          state\<lparr>ds_leases := leases, ds_store := store\<rparr>)))))"

definition synchronizeLeases ::
  "(LeaseSynchronizationRequest \<Rightarrow> 'd) \<Rightarrow> bool \<Rightarrow> int \<Rightarrow> int \<Rightarrow> LeaseSynchronizationRequest \<Rightarrow> 'd AccountDomain \<Rightarrow>
   LeaseSynchronizationResponse service_result \<times> 'd AccountDomain" where
  "synchronizeLeases digest f1 t1 t2 request state =
     (case synchronize digest t1 (ds_serviceInstanceId state) request (ds_leases state) of
        (Panic, leases) \<Rightarrow> (Panic, state\<lparr>ds_leases := leases\<rparr>)
      | (Err e, leases) \<Rightarrow> (Err e, state\<lparr>ds_leases := leases\<rparr>)
      | (Ok (response, usage), leases) \<Rightarrow>
          (case applyUsage f1 t2 usage (ds_store state) of
             (Panic, store) \<Rightarrow> (Panic, state\<lparr>ds_leases := leases, ds_store := store\<rparr>)
           | (Err e, store) \<Rightarrow> (Err e, state\<lparr>ds_leases := leases, ds_store := store\<rparr>)
           | (Ok _, store) \<Rightarrow>
               (case confirmUsageCommitted (rq_batchId request) leases of
                  (Panic, leases) \<Rightarrow> (Panic, state\<lparr>ds_leases := leases, ds_store := store\<rparr>)
                | (Err e, leases) \<Rightarrow> (Err e, state\<lparr>ds_leases := leases, ds_store := store\<rparr>)
                | (Ok _, leases) \<Rightarrow> (Ok response, state\<lparr>ds_leases := leases, ds_store := store\<rparr>))))"

section \<open>Account operations\<close>

definition accountView :: "bool \<Rightarrow> int \<Rightarrow> StoredAccount \<Rightarrow> 'd AccountDomain \<Rightarrow> AccountView service_result \<times> 'd AccountDomain" where
  "accountView fault now account state =
     (case usageTotals fault (ds_store state) of
        Panic \<Rightarrow> (Panic, state)
      | Err e \<Rightarrow> (Err e, state)
      | Ok usage \<Rightarrow>
          (case accountPresence now (ac_accountId account) (ds_leases state) of ((activeConnections, ips), leases) \<Rightarrow>
             (case hm_entry_or usage (ac_accountId account) (0, 0) of (uploaded, downloaded) \<Rightarrow>
                (Ok \<lparr>av_accountId = ac_accountId account, av_username = ac_username account,
                     av_passwordMode = (if ac_passwordHash account \<noteq> None then FixedPassword else AnyPassword),
                     av_policy = ac_policy account, av_policyRevision = ac_policyRevision account,
                     av_remark = ac_remark account, av_createdAt = ac_createdAt account, av_updatedAt = ac_updatedAt account,
                     av_uploadedBytes = uploaded, av_downloadedBytes = downloaded,
                     av_activeConnections = activeConnections, av_onlineIps = ips\<rparr>,
                 state\<lparr>ds_leases := leases\<rparr>))))"

definition createAccount ::
  "bool \<Rightarrow> bool \<Rightarrow> bool \<Rightarrow> int \<Rightarrow> int \<Rightarrow> str \<Rightarrow> (str \<Rightarrow> (str \<times> str) option) \<Rightarrow> CreateAccountRequest \<Rightarrow> 'd AccountDomain \<Rightarrow>
   AccountView service_result \<times> 'd AccountDomain" where
  "createAccount f1 f2 f3 t1 t2 accountId hashPassword request state =
     (case createAccountRow f1 f2 t1 accountId hashPassword request (ds_store state) of
        (Panic, store) \<Rightarrow> (Panic, state\<lparr>ds_store := store\<rparr>)
      | (Err e, store) \<Rightarrow> (Err e, state\<lparr>ds_store := store\<rparr>)
      | (Ok account, store) \<Rightarrow> accountView f3 t2 account (state\<lparr>ds_store := store\<rparr>))"

definition updateAccount ::
  "bool \<Rightarrow> bool \<Rightarrow> bool \<Rightarrow> int \<Rightarrow> int \<Rightarrow> int \<Rightarrow> str \<Rightarrow> UpdateAccountRequest \<Rightarrow> 'd AccountDomain \<Rightarrow>
   AccountView service_result \<times> 'd AccountDomain" where
  "updateAccount f1 f2 f3 t1 t2 t3 accountId request state =
     (case updateAccountRow f1 f2 t1 accountId request (ds_store state) of
        (Panic, store) \<Rightarrow> (Panic, state\<lparr>ds_store := store\<rparr>)
      | (Err e, store) \<Rightarrow> (Err e, state\<lparr>ds_store := store\<rparr>)
      | (Ok account, store) \<Rightarrow>
          accountView f3 t3 account (state\<lparr>ds_store := store, ds_leases := reconcileAccount account t2 (ds_leases state)\<rparr>))"

text \<open>The loop of \<open>updateAccountsBatch\<close>; \<open>fs\<close> tells for each account whether reading its totals fails.\<close>

fun reconcileLoop ::
  "(nat \<Rightarrow> bool) \<Rightarrow> int \<Rightarrow> int \<Rightarrow> nat \<Rightarrow> StoredAccount list \<Rightarrow> 'd AccountDomain \<Rightarrow> AccountView list service_result \<times> 'd AccountDomain" where
  "reconcileLoop fs now t i [] state = (Ok [], state)"
| "reconcileLoop fs now t i (account # accounts) state =
     (case accountView (fs i) t account (state\<lparr>ds_leases := reconcileAccount account now (ds_leases state)\<rparr>) of
        (Panic, state) \<Rightarrow> (Panic, state)
      | (Err e, state) \<Rightarrow> (Err e, state)
      | (Ok view, state) \<Rightarrow>
          (case reconcileLoop fs now t (Suc i) accounts state of
             (Ok views, state) \<Rightarrow> (Ok (view # views), state)
           | (Err e, state) \<Rightarrow> (Err e, state)
           | (Panic, state) \<Rightarrow> (Panic, state)))"

definition updateAccountsBatch ::
  "bool \<Rightarrow> (nat \<Rightarrow> bool) \<Rightarrow> int \<Rightarrow> int \<Rightarrow> int \<Rightarrow> BatchUpdateAccountsRequest \<Rightarrow> 'd AccountDomain \<Rightarrow>
   (AccountView list \<times> nat) service_result \<times> 'd AccountDomain" where
  "updateAccountsBatch f1 fs t1 t2 t3 request state =
     (case updateAccountRows f1 t1 request (ds_store state) of
        (Panic, store) \<Rightarrow> (Panic, state\<lparr>ds_store := store\<rparr>)
      | (Err e, store) \<Rightarrow> (Err e, state\<lparr>ds_store := store\<rparr>)
      | (Ok (accounts, updatedAccounts), store) \<Rightarrow>
          (case reconcileLoop fs t2 t3 0 accounts (state\<lparr>ds_store := store\<rparr>) of
             (Ok views, state) \<Rightarrow> (Ok (views, updatedAccounts), state)
           | (Err e, state) \<Rightarrow> (Err e, state)
           | (Panic, state) \<Rightarrow> (Panic, state)))"

definition deleteAccountsBatch ::
  "bool \<Rightarrow> int \<Rightarrow> BatchAccountSelection list \<Rightarrow> 'd AccountDomain \<Rightarrow> nat service_result \<times> 'd AccountDomain" where
  "deleteAccountsBatch f1 t1 selections state =
     (case deleteAccountRows f1 t1 selections (ds_store state) of
        (Panic, store) \<Rightarrow> (Panic, state\<lparr>ds_store := store\<rparr>)
      | (Err e, store) \<Rightarrow> (Err e, state\<lparr>ds_store := store\<rparr>)
      | (Ok deletedAccounts, store) \<Rightarrow>
          (Ok deletedAccounts,
           state\<lparr>ds_store := store,
                 ds_leases := fold (\<lambda>s leases. snd (removeAccount (bs_accountId s) leases)) selections (ds_leases state)\<rparr>))"

definition setAccountPassword ::
  "bool \<Rightarrow> int \<Rightarrow> (str \<Rightarrow> (str \<times> str) option) \<Rightarrow> str \<Rightarrow> str \<Rightarrow> 'd AccountDomain \<Rightarrow> unit service_result \<times> 'd AccountDomain" where
  "setAccountPassword f1 t1 hashPassword accountId password state =
     (case setAccountPasswordRow f1 t1 hashPassword accountId password (ds_store state) of
        (Panic, store) \<Rightarrow> (Panic, state\<lparr>ds_store := store\<rparr>)
      | (Err e, store) \<Rightarrow> (Err e, state\<lparr>ds_store := store\<rparr>)
      | (Ok _, store) \<Rightarrow> (Ok (), state\<lparr>ds_store := store, ds_leases := snd (revokeAccount accountId (ds_leases state))\<rparr>))"

definition clearAccountPassword ::
  "bool \<Rightarrow> int \<Rightarrow> str \<Rightarrow> 'd AccountDomain \<Rightarrow> unit service_result \<times> 'd AccountDomain" where
  "clearAccountPassword f1 t1 accountId state =
     (case clearAccountPasswordRow f1 t1 accountId (ds_store state) of
        (Panic, store) \<Rightarrow> (Panic, state\<lparr>ds_store := store\<rparr>)
      | (Err e, store) \<Rightarrow> (Err e, state\<lparr>ds_store := store\<rparr>)
      | (Ok _, store) \<Rightarrow> (Ok (), state\<lparr>ds_store := store, ds_leases := snd (revokeAccount accountId (ds_leases state))\<rparr>))"

definition deleteAccount :: "bool \<Rightarrow> int \<Rightarrow> str \<Rightarrow> 'd AccountDomain \<Rightarrow> unit service_result \<times> 'd AccountDomain" where
  "deleteAccount f1 t1 accountId state =
     (case deleteAccountRow f1 t1 accountId (ds_store state) of
        (Panic, store) \<Rightarrow> (Panic, state\<lparr>ds_store := store\<rparr>)
      | (Err e, store) \<Rightarrow> (Err e, state\<lparr>ds_store := store\<rparr>)
      | (Ok _, store) \<Rightarrow> (Ok (), state\<lparr>ds_store := store, ds_leases := snd (removeAccount accountId (ds_leases state))\<rparr>))"

definition disconnectAccount :: "bool \<Rightarrow> str \<Rightarrow> 'd AccountDomain \<Rightarrow> nat service_result \<times> 'd AccountDomain" where
  "disconnectAccount f1 accountId state =
     (case accountById f1 accountId (ds_store state) of
        Panic \<Rightarrow> (Panic, state)
      | Err e \<Rightarrow> (Err e, state)
      | Ok _ \<Rightarrow> (case revokeAccount accountId (ds_leases state) of (n, leases) \<Rightarrow> (Ok n, state\<lparr>ds_leases := leases\<rparr>)))"

definition serviceConnections :: "int \<Rightarrow> str option \<Rightarrow> 'd AccountDomain \<Rightarrow> ConnectionView list \<times> 'd AccountDomain" where
  "serviceConnections t1 accountId state =
     (case connections t1 accountId (ds_leases state) of (views, leases) \<Rightarrow> (views, state\<lparr>ds_leases := leases\<rparr>))"

section \<open>Steps\<close>

text \<open>
  The operations of the service as steps, with any clock, any request and any database failure. An update
  commits its row before it reads the row back, and a batch update commits before it reads the totals of each account: when
  one of these reads fails, the leases are not reconciled with the new rows. Such failures happen for accounts of \<open>U\<close>
  only, so \<open>U\<close> names the accounts whose leases may have missed a change; with all accounts in \<open>U\<close> the steps
  are unrestricted. Fresh lease identifiers are not in use.
\<close>

inductive service_step :: "str set \<Rightarrow> 'd AccountDomain \<Rightarrow> 'd AccountDomain \<Rightarrow> bool" for U where
  step_authenticate: "hm_get (lr_leases (ds_leases s)) leaseId = None \<Longrightarrow>
    service_step U s (snd (authenticateLease verify f1 f2 t1 t2 t3 leaseId request s))"
| step_synchronize: "service_step U s (snd (synchronizeLeases digest f1 t1 t2 sync s))"
| step_create: "service_step U s (snd (createAccount f1 f2 f3 t1 t2 accountId hash create s))"
| step_update: "(f2 \<Longrightarrow> accountId \<in> U) \<Longrightarrow> service_step U s (snd (updateAccount f1 f2 f3 t1 t2 t3 accountId update s))"
| step_updateBatch: "(\<And>i. fs i \<Longrightarrow> set (map bs_accountId (bu_accounts batch)) \<subseteq> U) \<Longrightarrow>
    service_step U s (snd (updateAccountsBatch f1 fs t1 t2 t3 batch s))"
| step_deleteBatch: "service_step U s (snd (deleteAccountsBatch f1 t1 selections s))"
| step_setPassword: "service_step U s (snd (setAccountPassword f1 t1 hash accountId password s))"
| step_clearPassword: "service_step U s (snd (clearAccountPassword f1 t1 accountId s))"
| step_delete: "service_step U s (snd (deleteAccount f1 t1 accountId s))"
| step_disconnect: "service_step U s (snd (disconnectAccount f1 accountId s))"
| step_connections: "service_step U s (snd (serviceConnections t1 filter_id s))"

end
