(* ===== verification/AccountInvariant.thy ===== *)
theory AccountInvariant
  imports AccountService "HOL-Library.Sublist"
begin

text \<open>
  The invariant of the account service: every lease belongs to an account and carries its policy, and
  the active leases of an account respect its quotas. Registry operations that only narrow leases
  (purging, synchronising, confirming, revoking) share one contract, a locale interpreted for each.
\<close>

section \<open>Presence\<close>

definition presence :: "str \<Rightarrow> (str, LeaseState) hashmap \<Rightarrow> str list" where
  "presence accountId leases =
     map ls_sourceIp (filter (\<lambda>lease. ls_accountId lease = accountId \<and> \<not> ls_revoked lease) (map snd leases))"

lemma presence_active: "presence accountId (lr_leases state) = map ls_sourceIp (activeLeases accountId state)"
  by (simp add: presence_def activeLeases_def)

lemma length_activeLeases: "length (activeLeases accountId state) = length (presence accountId (lr_leases state))"
  by (simp add: presence_active)

lemma onlineIps_presence: "onlineIps (activeLeases accountId state) = remdups (presence accountId (lr_leases state))"
  by (simp add: presence_active onlineIps_def)

definition quota_ok :: "AccountPolicy \<Rightarrow> str list \<Rightarrow> bool" where
  "quota_ok policy ips \<longleftrightarrow>
     (0 < ap_maxConnections policy \<longrightarrow> length ips \<le> nat (ap_maxConnections policy))
     \<and> (0 < ap_maxOnlineIps policy \<longrightarrow> length (remdups ips) \<le> nat (ap_maxOnlineIps policy))
     \<and> (disabled policy \<longrightarrow> ips = [])"

lemma length_remdups_subset: "set xs \<subseteq> set ys \<Longrightarrow> length (remdups xs) \<le> length (remdups ys)"
  by (simp add: length_remdups_card_conv card_mono)

lemma subseq_set_mono: "subseq xs ys \<Longrightarrow> set xs \<subseteq> set ys"
  by (induction rule: list_emb.induct) auto

lemma quota_ok_subseq:
  assumes "subseq xs ys" and quota: "quota_ok policy ys"
  shows "quota_ok policy xs"
proof -
  have "length xs \<le> length ys" using assms(1) by (rule list_emb_length)
  moreover have "set xs \<subseteq> set ys" using assms(1) by (rule subseq_set_mono)
  then have "length (remdups xs) \<le> length (remdups ys)" by (rule length_remdups_subset)
  moreover have "ys = [] \<Longrightarrow> xs = []" using assms(1) by simp
  ultimately show ?thesis using quota unfolding quota_ok_def by (meson order_trans)
qed

section \<open>Leases\<close>

text \<open>
  The accounts of \<open>U\<close> are exempt: their row may have changed without the leases having been reconciled with it.
\<close>

definition lease_ok :: "str set \<Rightarrow> (str, StoredAccount) hashmap \<Rightarrow> LeaseState \<Rightarrow> bool" where
  "lease_ok U accounts lease \<longleftrightarrow>
     (\<exists>account. hm_get accounts (ls_accountId lease) = Some account \<and> (ls_accountId lease \<notin> U \<longrightarrow> ls_policy lease = ac_policy account
        \<and> (\<not> ls_revoked lease \<longrightarrow> ls_policyRevision lease = ac_policyRevision account)))
     \<and> ls_persistedUploadedBytes lease \<le> ls_uploadedBytes lease
     \<and> ls_persistedDownloadedBytes lease \<le> ls_downloadedBytes lease"

definition leases_inv :: "str set \<Rightarrow> (str, StoredAccount) hashmap \<Rightarrow> (str, LeaseState) hashmap \<Rightarrow> bool" where
  "leases_inv U accounts leases \<longleftrightarrow> hm_wf leases
     \<and> (\<forall>l lease. hm_get leases l = Some lease \<longrightarrow> ls_leaseId lease = l \<and> lease_ok U accounts lease)
     \<and> (\<forall>aid account. aid \<notin> U \<longrightarrow> hm_get accounts aid = Some account \<longrightarrow> quota_ok (ac_policy account) (presence aid leases))"

text \<open>What a narrowing operation may change in a lease.\<close>

definition narrows :: "LeaseState \<Rightarrow> LeaseState \<Rightarrow> bool" where
  "narrows lease lease' \<longleftrightarrow>
     ls_leaseId lease' = ls_leaseId lease \<and> ls_accountId lease' = ls_accountId lease \<and> ls_sourceIp lease' = ls_sourceIp lease
     \<and> ls_policy lease' = ls_policy lease \<and> ls_policyRevision lease' = ls_policyRevision lease
     \<and> (ls_revoked lease \<longrightarrow> ls_revoked lease')
     \<and> (ls_persistedUploadedBytes lease \<le> ls_uploadedBytes lease \<longrightarrow> ls_persistedUploadedBytes lease' \<le> ls_uploadedBytes lease')
     \<and> (ls_persistedDownloadedBytes lease \<le> ls_downloadedBytes lease \<longrightarrow> ls_persistedDownloadedBytes lease' \<le> ls_downloadedBytes lease')"

locale narrowing =
  fixes narrow :: "(str, LeaseState) hashmap \<Rightarrow> (str, LeaseState) hashmap"
  assumes keeps_wf: "hm_wf leases \<Longrightarrow> hm_wf (narrow leases)"
    and origin: "hm_wf leases \<Longrightarrow> hm_get (narrow leases) l = Some lease' \<Longrightarrow>
      \<exists>lease. hm_get leases l = Some lease \<and> narrows lease lease'"
    and fewer: "hm_wf leases \<Longrightarrow> subseq (presence aid (narrow leases)) (presence aid leases)"
begin

lemma keeps_inv:
  assumes "leases_inv U accounts leases"
  shows "leases_inv U accounts (narrow leases)"
proof -
  from assms have wf: "hm_wf leases" and quota: "\<And>aid account. aid \<notin> U \<Longrightarrow> hm_get accounts aid = Some account \<Longrightarrow> quota_ok (ac_policy account) (presence aid leases)"
    by (auto simp: leases_inv_def)
  have "ls_leaseId lease' = l \<and> lease_ok U accounts lease'" if got: "hm_get (narrow leases) l = Some lease'" for l lease'
  proof -
    from origin [OF wf got] obtain lease where "hm_get leases l = Some lease" "narrows lease lease'" by blast
    moreover from this assms have "ls_leaseId lease = l" "lease_ok U accounts lease" by (auto simp: leases_inv_def)
    ultimately show ?thesis by (auto simp: narrows_def lease_ok_def)
  qed
  with keeps_wf [OF wf] quota quota_ok_subseq [OF fewer [OF wf]] show ?thesis by (auto simp: leases_inv_def)
qed

end

section \<open>The narrowing operations\<close>

lemma presence_Cons: "presence aid (e # leases) =
  (if ls_accountId (snd e) = aid \<and> \<not> ls_revoked (snd e) then ls_sourceIp (snd e) # presence aid leases else presence aid leases)"
  by (simp add: presence_def)

lemma presence_Nil [simp]: "presence aid [] = []"
  by (simp add: presence_def)

lemma presence_update_all:
  assumes "\<And>lease. narrows lease (f lease)"
  shows "subseq (presence aid (hm_update_all f leases)) (presence aid leases)"
proof (induction leases)
  case (Cons e leases)
  then show ?case
    using assms [of "snd e"] by (auto simp: hm_update_all_def presence_Cons narrows_def)
qed (simp add: hm_update_all_def)

lemma presence_retain: "subseq (presence aid (hm_retain P leases)) (presence aid leases)"
  by (induction leases) (auto simp: hm_retain_def presence_Cons)

lemma presence_modify:
  assumes "hm_wf leases" and "hm_get leases k = Some lease" and "narrows lease (f lease)"
  shows "subseq (presence aid (hm_modify k f leases)) (presence aid leases)"
  using assms(1,2)
proof (induction leases)
  case (Cons e leases)
  show ?case
  proof (cases "fst e = k")
    case True
    then have "snd e = lease" using Cons.prems(2) by (cases e) (simp add: hm_get_def)
    moreover have "k \<notin> fst ` set leases" using Cons.prems(1) True by (auto simp: hm_wf_def)
    then have "hm_modify k f leases = leases" unfolding hm_modify_def by (intro map_idI) force
    ultimately show ?thesis
      using True assms(3) by (auto simp: hm_modify_def presence_Cons narrows_def)
  next
    case False
    then have "hm_get leases k = Some lease" using Cons.prems(2) by (cases e) (simp add: hm_get_def)
    then have "subseq (presence aid (hm_modify k f leases)) (presence aid leases)" using Cons by (simp add: hm_wf_def)
    with False show ?thesis by (auto simp: hm_modify_def presence_Cons)
  qed
qed (simp add: hm_modify_def)

lemma narrowing_update_all: "(\<And>lease. narrows lease (f lease)) \<Longrightarrow> narrowing (hm_update_all f)"
  by unfold_locales (auto simp: store_simps presence_update_all)

lemma narrows_refl: "narrows lease lease"
  by (simp add: narrows_def)

lemma narrows_trans: "narrows a b \<Longrightarrow> narrows b c \<Longrightarrow> narrows a c"
  by (auto simp: narrows_def)

lemma narrowing_compose:
  assumes "narrowing f" and "narrowing g"
  shows "narrowing (\<lambda>leases. f (g leases))"
proof
  fix leases :: "(str, LeaseState) hashmap" and l lease' aid
  assume wf: "hm_wf leases"
  then have wf': "hm_wf (g leases)" by (rule narrowing.keeps_wf [OF assms(2)])
  then show "hm_wf (f (g leases))" by (rule narrowing.keeps_wf [OF assms(1)])
  show "subseq (presence aid (f (g leases))) (presence aid leases)"
    using narrowing.fewer [OF assms(1) wf'] narrowing.fewer [OF assms(2) wf] by (rule subseq_order.trans)
  assume "hm_get (f (g leases)) l = Some lease'"
  with narrowing.origin [OF assms(1) wf'] obtain mid where "hm_get (g leases) l = Some mid" "narrows mid lease'" by blast
  moreover from this narrowing.origin [OF assms(2) wf] obtain lease where "hm_get leases l = Some lease" "narrows lease mid" by blast
  ultimately show "\<exists>lease. hm_get leases l = Some lease \<and> narrows lease lease'" using narrows_trans by blast
qed

lemma narrowing_retain: "narrowing (hm_retain P)"
proof
  fix leases :: "(str, LeaseState) hashmap" and l lease' aid
  assume "hm_wf leases"
  then show "hm_wf (hm_retain P leases)" by simp
  show "subseq (presence aid (hm_retain P leases)) (presence aid leases)" by (rule presence_retain)
  assume "hm_get (hm_retain P leases) l = Some lease'"
  then have "hm_get leases l = Some lease'"
    using \<open>hm_wf leases\<close> by (simp add: store_simps split: option.splits if_splits)
  then show "\<exists>lease. hm_get leases l = Some lease \<and> narrows lease lease'" using narrows_refl by blast
qed

definition mark_timed_out :: "int \<Rightarrow> LeaseState \<Rightarrow> LeaseState" where
  "mark_timed_out now lease = (if timedOut now lease then lease\<lparr>ls_revoked := True, ls_finalPending := True\<rparr> else lease)"

definition settled :: "LeaseState \<Rightarrow> bool" where
  "settled lease \<longleftrightarrow> ls_uploadedBytes lease = ls_persistedUploadedBytes lease
     \<and> ls_downloadedBytes lease = ls_persistedDownloadedBytes lease"

definition purge_leases :: "int \<Rightarrow> (str, LeaseState) hashmap \<Rightarrow> (str, LeaseState) hashmap" where
  "purge_leases now leases = hm_retain (\<lambda>_ lease. \<not> timedOut now lease \<or> \<not> settled lease) (hm_update_all (mark_timed_out now) leases)"

definition settle :: "LeaseState \<Rightarrow> LeaseState" where
  "settle lease = lease\<lparr>ls_persistedUploadedBytes := ls_uploadedBytes lease, ls_persistedDownloadedBytes := ls_downloadedBytes lease\<rparr>"

definition confirm_leases :: "(str, LeaseState) hashmap \<Rightarrow> (str, LeaseState) hashmap" where
  "confirm_leases leases = hm_retain (\<lambda>_ lease. \<not> ls_finalPending lease) (hm_update_all settle leases)"

definition revoke_lease :: "str \<Rightarrow> LeaseState \<Rightarrow> LeaseState" where
  "revoke_lease aid lease = (if ls_accountId lease = aid then lease\<lparr>ls_revoked := True\<rparr> else lease)"

lemma leases_of_ops:
  "purgeExpiredLeases now state = state\<lparr>lr_leases := purge_leases now (lr_leases state)\<rparr>"
  "snd (confirmUsageCommitted batchId state) =
     (if hm_contains (lr_batches state) batchId then state\<lparr>lr_leases := confirm_leases (lr_leases state)\<rparr> else state)"
  "snd (revokeAccount aid state) = state\<lparr>lr_leases := hm_update_all (revoke_lease aid) (lr_leases state)\<rparr>"
proof -
  have [simp]: "mark_timed_out now = (\<lambda>lease. if timedOut now lease then lease\<lparr>ls_revoked := True, ls_finalPending := True\<rparr> else lease)"
    "settle = (\<lambda>lease. lease\<lparr>ls_persistedUploadedBytes := ls_uploadedBytes lease, ls_persistedDownloadedBytes := ls_downloadedBytes lease\<rparr>)"
    "revoke_lease aid = (\<lambda>lease. if ls_accountId lease = aid then lease\<lparr>ls_revoked := True\<rparr> else lease)"
    by (simp_all add: fun_eq_iff mark_timed_out_def settle_def revoke_lease_def)
  show "purgeExpiredLeases now state = state\<lparr>lr_leases := purge_leases now (lr_leases state)\<rparr>"
    by (simp add: purgeExpiredLeases_def purge_leases_def settled_def)
  show "snd (confirmUsageCommitted batchId state) =
     (if hm_contains (lr_batches state) batchId then state\<lparr>lr_leases := confirm_leases (lr_leases state)\<rparr> else state)"
    by (simp add: confirmUsageCommitted_def confirm_leases_def hm_contains_def split: option.split)
  show "snd (revokeAccount aid state) = state\<lparr>lr_leases := hm_update_all (revoke_lease aid) (lr_leases state)\<rparr>"
    by (simp add: revokeAccount_def)
qed

interpretation purge: narrowing "purge_leases now" for now
proof -
  have "narrows lease (mark_timed_out now lease)" for lease by (simp add: narrows_def mark_timed_out_def)
  from narrowing_compose [OF narrowing_retain narrowing_update_all [OF this]]
  show "narrowing (purge_leases now)" unfolding purge_leases_def .
qed

interpretation confirm: narrowing confirm_leases
proof -
  have "narrows lease (settle lease)" for lease by (simp add: narrows_def settle_def)
  from narrowing_compose [OF narrowing_retain narrowing_update_all [OF this]]
  show "narrowing confirm_leases" unfolding confirm_leases_def .
qed

interpretation revoke: narrowing "hm_update_all (revoke_lease aid)" for aid
  by (rule narrowing_update_all) (simp add: narrows_def revoke_lease_def)

lemma narrowing_id: "narrowing (\<lambda>leases. leases)"
  by unfold_locales (auto simp: narrows_refl)

text \<open>How one accepted or refused progress report changes the lease it names.\<close>

definition progress_lease :: "int \<Rightarrow> LeaseProgress \<Rightarrow> LeaseState \<Rightarrow> LeaseState" where
  "progress_lease now progress lease =
     (if ls_connectionId lease \<noteq> pr_connectionId progress then lease
      else if pr_uploadedBytes progress < ls_uploadedBytes lease \<or> pr_downloadedBytes progress < ls_downloadedBytes lease
      then lease\<lparr>ls_revoked := True\<rparr>
      else if pr_final progress then (acceptProgress now progress lease)\<lparr>ls_finalPending := True\<rparr>
      else acceptProgress now progress lease)"

lemma hm_modify_same: "hm_get m k = Some v \<Longrightarrow> f v = v \<Longrightarrow> hm_wf m \<Longrightarrow> hm_modify k f m = m"
  unfolding hm_modify_def by (rule map_idI) (auto simp: hm_in_set)

lemma hm_modify_cong: "hm_get m k = Some v \<Longrightarrow> f v = g v \<Longrightarrow> hm_wf m \<Longrightarrow> hm_modify k f m = hm_modify k g m"
  unfolding hm_modify_def by (rule map_cong) (auto simp: hm_in_set)

lemma hm_modify_absent: "hm_get m k = None \<Longrightarrow> hm_modify k f m = m"
  unfolding hm_modify_def by (intro map_idI) (force simp: hm_get_def map_of_eq_None_iff)

lemma snd_synchronizeOne:
  assumes "hm_wf leases"
  shows "snd (synchronizeOne now progress leases) = hm_modify (pr_leaseId progress) (progress_lease now progress) leases"
proof (cases "hm_get leases (pr_leaseId progress)")
  case None
  then show ?thesis by (simp add: synchronizeOne_def hm_modify_absent)
next
  case (Some lease)
  note cong = hm_modify_cong [OF Some _ assms]
  show ?thesis
    using Some hm_modify_same [OF Some _ assms, of "progress_lease now progress"]
    by (auto simp: synchronizeOne_def progress_lease_def Let_def intro!: cong)
qed

lemma narrows_progress: "narrows lease (progress_lease now progress lease)"
  by (auto simp: narrows_def progress_lease_def acceptProgress_def Let_def)

lemma narrowing_synchronizeOne: "narrowing (\<lambda>leases. snd (synchronizeOne now progress leases))"
proof
  fix leases :: "(str, LeaseState) hashmap" and l lease' aid
  assume wf: "hm_wf leases"
  then show "hm_wf (snd (synchronizeOne now progress leases))" by (simp add: snd_synchronizeOne)
  show "subseq (presence aid (snd (synchronizeOne now progress leases))) (presence aid leases)"
    unfolding snd_synchronizeOne [OF wf]
  proof (cases "hm_get leases (pr_leaseId progress)")
    case None
    then show "subseq (presence aid (hm_modify (pr_leaseId progress) (progress_lease now progress) leases)) (presence aid leases)"
      by (simp add: hm_modify_absent)
  next
    case (Some lease)
    from presence_modify [where f = "progress_lease now progress", OF wf Some narrows_progress]
    show "subseq (presence aid (hm_modify (pr_leaseId progress) (progress_lease now progress) leases)) (presence aid leases)" .
  qed
  assume "hm_get (snd (synchronizeOne now progress leases)) l = Some lease'"
  then show "\<exists>lease. hm_get leases l = Some lease \<and> narrows lease lease'"
    unfolding snd_synchronizeOne [OF wf] using narrows_progress narrows_refl
    by (auto simp: hm_get_modify split: if_splits)
qed

lemma synchronizeAll_step:
  "snd (synchronizeAll now (p # ps) leases) = snd (synchronizeAll now ps (snd (synchronizeOne now p leases)))"
  by (simp split: prod.split)

lemma narrowing_synchronizeAll: "narrowing (\<lambda>leases. snd (synchronizeAll now ps leases))"
proof (induction ps)
  case Nil
  then show ?case using narrowing_id by simp
next
  case (Cons p ps)
  from narrowing_compose [OF Cons narrowing_synchronizeOne] show ?case unfolding synchronizeAll_step .
qed

interpretation sync: narrowing "\<lambda>leases. snd (synchronizeAll now ps leases)" for now ps
  by (rule narrowing_synchronizeAll)


section \<open>Changes of the account table\<close>

text \<open>Each lemma joins one change of the account table with the change of the leases that follows it.\<close>

lemma leases_inv_cong: "hm_get accounts' = hm_get accounts \<Longrightarrow> leases_inv U accounts' leases = leases_inv U accounts leases"
  by (simp add: leases_inv_def lease_ok_def)

lemma leases_invI:
  assumes "hm_wf leases"
    and "\<And>l lease. hm_get leases l = Some lease \<Longrightarrow> ls_leaseId lease = l \<and> lease_ok U accounts lease"
    and "\<And>aid account. aid \<notin> U \<Longrightarrow> hm_get accounts aid = Some account \<Longrightarrow> quota_ok (ac_policy account) (presence aid leases)"
  shows "leases_inv U accounts leases"
  using assms by (simp add: leases_inv_def)

lemma leases_invD:
  assumes "leases_inv U accounts leases"
  shows "hm_wf leases"
    and "\<And>l lease. hm_get leases l = Some lease \<Longrightarrow> ls_leaseId lease = l"
    and "\<And>l lease. hm_get leases l = Some lease \<Longrightarrow> lease_ok U accounts lease"
    and "\<And>aid account. aid \<notin> U \<Longrightarrow> hm_get accounts aid = Some account \<Longrightarrow> quota_ok (ac_policy account) (presence aid leases)"
  using assms by (simp_all add: leases_inv_def)

lemma quota_ok_Nil [simp]: "quota_ok policy []"
  by (simp add: quota_ok_def)

lemma presence_update_all_other:
  assumes "\<And>lease. ls_accountId (f lease) = ls_accountId lease \<and> ls_sourceIp (f lease) = ls_sourceIp lease
      \<and> (ls_accountId lease = aid \<longrightarrow> ls_revoked (f lease) = ls_revoked lease)"
  shows "presence aid (hm_update_all f leases) = presence aid leases"
  using assms by (induction leases) (auto simp: hm_update_all_def presence_Cons)

lemma presence_update_all_none:
  assumes "\<And>lease. ls_accountId (f lease) = ls_accountId lease \<and> (ls_accountId lease = aid \<longrightarrow> ls_revoked (f lease))"
  shows "presence aid (hm_update_all f leases) = []"
  using assms by (induction leases) (auto simp: hm_update_all_def presence_Cons)

lemma reconcile_inv:
  assumes inv: "leases_inv U accounts (lr_leases state)"
    and accounts: "hm_get accounts' = (hm_get accounts)(ac_accountId account \<mapsto> account)"
  shows "leases_inv U accounts' (lr_leases (reconcileAccount account now state))"
proof -
  let ?aid = "ac_accountId account" and ?leases = "lr_leases state"
  let ?p = "ac_policy account"
  define all where "all = (disabled ?p \<or> expired ?p now
     \<or> (0 < ap_maxConnections ?p \<and> nat (ap_maxConnections ?p) < length (presence ?aid ?leases))
     \<or> (0 < ap_maxOnlineIps ?p \<and> nat (ap_maxOnlineIps ?p) < length (remdups (presence ?aid ?leases))))"
  define f where "f = (\<lambda>lease :: LeaseState. if ls_accountId lease = ?aid
      then lease\<lparr>ls_policy := ?p, ls_policyRevision := ac_policyRevision account, ls_revoked := ls_revoked lease \<or> all\<rparr> else lease)"
  have leases: "lr_leases (reconcileAccount account now state) = hm_update_all f ?leases"
    unfolding reconcileAccount_def Let_def length_activeLeases onlineIps_presence all_def f_def by simp
  have same: "presence aid (hm_update_all f ?leases) = presence aid ?leases" if "aid \<noteq> ?aid \<or> \<not> all" for aid
    using that by (intro presence_update_all_other) (auto simp: f_def)
  show ?thesis unfolding leases
  proof (rule leases_invI)
    show "hm_wf (hm_update_all f ?leases)" using leases_invD(1) [OF inv] by simp
    fix l lease' assume "hm_get (hm_update_all f ?leases) l = Some lease'"
    then obtain lease where got: "hm_get ?leases l = Some lease" and lease': "lease' = f lease"
      by (auto simp: hm_get_update_all)
    from leases_invD(2,3) [OF inv got] show "ls_leaseId lease' = l \<and> lease_ok U accounts' lease'"
      unfolding lease' by (auto simp: lease_ok_def f_def accounts)
  next
    fix aid acc assume free: "aid \<notin> U" and acc: "hm_get accounts' aid = Some acc"
    show "quota_ok (ac_policy acc) (presence aid (hm_update_all f ?leases))"
    proof (cases "aid = ?aid")
      case True
      with acc have "acc = account" by (simp add: accounts)
      show ?thesis
      proof (cases all)
        case True
        have "presence ?aid (hm_update_all f ?leases) = []" using True by (intro presence_update_all_none) (simp add: f_def)
        then show ?thesis using \<open>aid = ?aid\<close> by simp
      next
        case False
        then show ?thesis using \<open>aid = ?aid\<close> \<open>acc = account\<close> same [of ?aid] by (auto simp: quota_ok_def all_def)
      qed
    next
      case False
      with acc have "hm_get accounts aid = Some acc" by (simp add: accounts)
      then show ?thesis using leases_invD(4) [OF inv free] same False by simp
    qed
  qed
qed

lemma remove_inv:
  assumes inv: "leases_inv U accounts (lr_leases state)"
    and accounts: "hm_get accounts' = (hm_get accounts)(aid := None)"
  shows "leases_inv U accounts' (lr_leases (snd (removeAccount aid state)))"
proof -
  let ?leases = "hm_retain (\<lambda>_ lease. ls_accountId lease \<noteq> aid) (lr_leases state)"
  have wf: "hm_wf (lr_leases state)" using inv by (rule leases_invD(1))
  have "leases_inv U accounts' ?leases"
  proof (rule leases_invI)
    show "hm_wf ?leases" using wf by simp
    fix l lease assume "hm_get ?leases l = Some lease"
    then have "hm_get (lr_leases state) l = Some lease" "ls_accountId lease \<noteq> aid"
      using wf by (auto simp: store_simps split: option.splits if_splits)
    then show "ls_leaseId lease = l \<and> lease_ok U accounts' lease"
      using leases_invD(2,3) [OF inv] by (auto simp: lease_ok_def accounts)
  next
    fix a acc assume free: "a \<notin> U" and "hm_get accounts' a = Some acc"
    then have "hm_get accounts a = Some acc" by (simp add: accounts split: if_splits)
    from leases_invD(4) [OF inv free this] show "quota_ok (ac_policy acc) (presence a ?leases)"
      by (rule quota_ok_subseq [OF presence_retain])
  qed
  then show ?thesis by (simp add: removeAccount_def Let_def)
qed

lemma remove_all_inv:
  "leases_inv U accounts (lr_leases state) \<Longrightarrow> hm_get accounts' = (\<lambda>k. if k \<in> set aids then None else hm_get accounts k) \<Longrightarrow>
   leases_inv U accounts' (lr_leases (fold (\<lambda>aid state. snd (removeAccount aid state)) aids state))"
proof (induction aids arbitrary: accounts state)
  case Nil
  then show ?case using leases_inv_cong [of accounts' accounts] by simp
next
  case (Cons aid aids)
  have "leases_inv U (hm_remove aid accounts) (lr_leases (snd (removeAccount aid state)))"
    using Cons.prems(1) by (rule remove_inv) (rule hm_get_remove)
  then show ?case using Cons.prems(2) by (auto simp: hm_get_remove fun_eq_iff intro!: Cons.IH)
qed

lemma no_presence:
  assumes inv: "leases_inv U accounts leases" and "hm_get accounts aid = None"
  shows "presence aid leases = []"
proof -
  have "ls_accountId (snd e) \<noteq> aid" if "e \<in> set leases" for e
  proof -
    from that have "hm_get leases (fst e) = Some (snd e)" using hm_in_set [OF leases_invD(1) [OF inv]] by (metis prod.collapse)
    from leases_invD(3) [OF inv this] assms(2) show ?thesis by (auto simp: lease_ok_def)
  qed
  then show ?thesis by (auto simp: presence_def filter_empty_conv)
qed

lemma fresh_account_inv:
  assumes inv: "leases_inv U accounts leases" and fresh: "hm_get accounts aid = None"
    and accounts: "hm_get accounts' = (hm_get accounts)(aid \<mapsto> account)"
  shows "leases_inv U accounts' leases"
proof (rule leases_invI)
  show "hm_wf leases" using inv by (rule leases_invD(1))
  show "ls_leaseId lease = l \<and> lease_ok U accounts' lease" if "hm_get leases l = Some lease" for l lease
    using leases_invD(2,3) [OF inv that] fresh by (auto simp: lease_ok_def accounts)
  show "quota_ok (ac_policy acc) (presence a leases)" if "a \<notin> U" "hm_get accounts' a = Some acc" for a acc
    using that leases_invD(4) [OF inv, of a acc] no_presence [OF inv fresh] by (auto simp: accounts split: if_splits)
qed

lemma revoked_account_inv:
  assumes inv: "leases_inv U accounts leases" and account: "hm_get accounts aid = Some account"
    and accounts: "hm_get accounts' = (hm_get accounts)(aid \<mapsto> account')" and policy: "ac_policy account' = ac_policy account"
  shows "leases_inv U accounts' (hm_update_all (revoke_lease aid) leases)"
proof (rule leases_invI)
  show "hm_wf (hm_update_all (revoke_lease aid) leases)" using leases_invD(1) [OF inv] by simp
  fix l lease' assume "hm_get (hm_update_all (revoke_lease aid) leases) l = Some lease'"
  then obtain lease where got: "hm_get leases l = Some lease" and lease': "lease' = revoke_lease aid lease"
    by (auto simp: hm_get_update_all)
  from leases_invD(2,3) [OF inv got] account show "ls_leaseId lease' = l \<and> lease_ok U accounts' lease'"
    unfolding lease' by (auto simp: lease_ok_def revoke_lease_def accounts policy)
next
  fix a acc assume free: "a \<notin> U" and acc: "hm_get accounts' a = Some acc"
  then obtain acc0 where "hm_get accounts a = Some acc0" "ac_policy acc0 = ac_policy acc"
    using account policy by (auto simp: accounts split: if_splits)
  moreover have "quota_ok (ac_policy acc0) (presence a (hm_update_all (revoke_lease aid) leases))"
    using leases_invD(4) [OF inv free calculation(1)] quota_ok_subseq [OF revoke.fewer [OF leases_invD(1) [OF inv]]] by blast
  ultimately show "quota_ok (ac_policy acc) (presence a (hm_update_all (revoke_lease aid) leases))" by simp
qed

text \<open>A change of exempt accounts needs nothing of the leases.\<close>

lemma leases_inv_agree:
  assumes inv: "leases_inv U accounts leases"
    and same: "\<And>aid. aid \<notin> U \<Longrightarrow> hm_get accounts' aid = hm_get accounts aid"
    and known: "\<And>aid. hm_get accounts aid \<noteq> None \<Longrightarrow> hm_get accounts' aid \<noteq> None"
  shows "leases_inv U accounts' leases"
proof (rule leases_invI)
  show "hm_wf leases" using inv by (rule leases_invD(1))
  fix l lease assume "hm_get leases l = Some lease"
  note got = leases_invD(2,3) [OF inv this]
  show "ls_leaseId lease = l \<and> lease_ok U accounts' lease"
  proof (cases "ls_accountId lease \<in> U")
    case True
    then show ?thesis using got known [of "ls_accountId lease"] by (auto simp: lease_ok_def)
  next
    case False
    then show ?thesis using got same [OF False] by (auto simp: lease_ok_def)
  qed
next
  fix aid account assume free: "aid \<notin> U" and "hm_get accounts' aid = Some account"
  then have "hm_get accounts aid = Some account" using same by simp
  then show "quota_ok (ac_policy account) (presence aid leases)" by (rule leases_invD(4) [OF inv free])
qed

lemma reconcile_exempt:
  assumes inv: "leases_inv U accounts (lr_leases state)" and exempt: "ac_accountId account \<in> U"
    and known: "hm_get accounts (ac_accountId account) \<noteq> None"
  shows "leases_inv U accounts (lr_leases (reconcileAccount account now state))"
proof (rule leases_inv_agree)
  show "leases_inv U (hm_insert (ac_accountId account) account accounts) (lr_leases (reconcileAccount account now state))"
    using inv by (rule reconcile_inv) (rule hm_get_insert)
  show "hm_get accounts aid = hm_get (hm_insert (ac_accountId account) account accounts) aid" if "aid \<notin> U" for aid
    using that exempt by (auto simp: hm_get_insert)
  show "hm_get accounts aid \<noteq> None" if "hm_get (hm_insert (ac_accountId account) account accounts) aid \<noteq> None" for aid
    using that known by (auto simp: hm_get_insert split: if_splits)
qed

end
