(* ===== verification/AccountProperties.thy ===== *)
theory AccountProperties
  imports AccountInvariant
begin

text \<open>
  What the account service promises: the quotas of every account hold in every reachable state, but for the
  accounts whose row or totals could not be read back after a committed change, usage is
  neither lost nor counted twice whatever the database does, a repeated synchronisation batch changes
  nothing, authentication grants a lease only within the policy, and stale revisions change nothing.
\<close>

section \<open>The service invariant\<close>

definition store_ok :: "AccountStore \<Rightarrow> bool" where
  "store_ok db \<longleftrightarrow> hm_wf (at_accounts db) \<and> hm_wf (at_usageCounters db)
     \<and> (\<forall>k account. hm_get (at_accounts db) k = Some account \<longrightarrow> ac_accountId account = k)
     \<and> (\<forall>k. hm_contains (at_usageCounters db) k = hm_contains (at_accounts db) k)
     \<and> distinct (map (ac_username \<circ> snd) (at_accounts db))"

definition batches_ok :: "'d LeaseRegistry \<Rightarrow> bool" where
  "batches_ok state \<longleftrightarrow> hm_wf (lr_batches state) \<and> distinct (lr_batchOrder state)
     \<and> set (lr_batchOrder state) = fst ` set (lr_batches state) \<and> length (lr_batches state) \<le> maximumRememberedBatches"

definition service_inv :: "str set \<Rightarrow> 'd AccountDomain \<Rightarrow> bool" where
  "service_inv U s \<longleftrightarrow> store_ok (ds_store s) \<and> leases_inv U (at_accounts (ds_store s)) (lr_leases (ds_leases s))
     \<and> batches_ok (ds_leases s)"

lemma service_invI [intro?]:
  "store_ok (ds_store s) \<Longrightarrow> leases_inv U (at_accounts (ds_store s)) (lr_leases (ds_leases s)) \<Longrightarrow> batches_ok (ds_leases s) \<Longrightarrow>
   service_inv U s"
  by (simp add: service_inv_def)

lemma batches_ok_leases [simp]: "batches_ok (state\<lparr>lr_leases := leases\<rparr>) = batches_ok state"
  by (simp add: batches_ok_def)

subsection \<open>Remembered batches\<close>

lemma hm_contains_keys: "hm_contains m k \<longleftrightarrow> k \<in> fst ` set m"
  by (simp add: hm_contains_def hm_get_def map_of_eq_None_iff)

lemma keys_hm_remove: "fst ` set (hm_remove k m) = fst ` set m - {k}"
  by (auto simp: hm_remove_def)

lemma keys_hm_insert: "fst ` set (hm_insert k v m) = insert k (fst ` set m)"
  by (simp add: hm_insert_def dom_update)

lemma batches_ok_rememberBatch:
  assumes ok: "batches_ok state" and fresh: "hm_get (lr_batches state) b = None"
  shows "batches_ok (rememberBatch b d r state)"
proof -
  have nc: "b \<notin> fst ` set (lr_batches state)" using fresh hm_contains_keys [of "lr_batches state" b] by (simp add: hm_contains_def)
  show ?thesis
  proof (cases "maximumRememberedBatches \<le> length (lr_batches state)")
    case False
    with ok nc show ?thesis
      by (auto simp: rememberBatch_def batches_ok_def keys_hm_insert length_hm_insert hm_contains_keys)
  next
    case True
    then have "lr_batches state \<noteq> []" by (auto simp: maximumRememberedBatches_def)
    with ok obtain e rest where order: "lr_batchOrder state = e # rest" by (cases "lr_batchOrder state") (auto simp: batches_ok_def)
    with ok have e: "hm_contains (lr_batches state) e" by (auto simp: batches_ok_def hm_contains_keys)
    with ok have len: "Suc (length (hm_remove e (lr_batches state))) = length (lr_batches state)"
      by (intro length_hm_remove) (auto simp: batches_ok_def)
    show ?thesis using ok nc True order len
      by (auto simp: rememberBatch_def batches_ok_def keys_hm_insert keys_hm_remove length_hm_insert hm_contains_keys)
  qed
qed

lemma lr_leases_rememberBatch [simp]: "lr_leases (rememberBatch b d r state) = lr_leases state"
  by (simp add: rememberBatch_def split: list.split)

subsection \<open>The tables\<close>

lemma store_okD:
  assumes "store_ok db"
  shows "hm_wf (at_accounts db)" "hm_wf (at_usageCounters db)"
    "\<And>k account. hm_get (at_accounts db) k = Some account \<Longrightarrow> ac_accountId account = k"
    "\<And>k. hm_contains (at_usageCounters db) k = hm_contains (at_accounts db) k"
  using assms by (simp_all add: store_ok_def)

lemma accounts_insertAudit [simp]:
  "at_accounts (insertAudit e db) = at_accounts db" "at_usageCounters (insertAudit e db) = at_usageCounters db"
  "at_usageDaily (insertAudit e db) = at_usageDaily db"
  by (simp_all add: insertAudit_def)

lemma store_ok_cong: "at_accounts db' = at_accounts db \<Longrightarrow> at_usageCounters db' = at_usageCounters db \<Longrightarrow> store_ok db' = store_ok db"
  by (simp add: store_ok_def)

lemma store_ok_insertAudit [simp]: "store_ok (insertAudit e db) = store_ok db"
  by (rule store_ok_cong) simp_all

lemma hm_contains_modify [simp]: "hm_contains (hm_modify k f m) k' = hm_contains m k'"
  by (simp add: hm_contains_def hm_get_modify)

text \<open>An update of one row that keeps its identifier and its user name.\<close>

lemma names_hm_modify:
  assumes "\<And>account. ac_username (f account) = ac_username account"
  shows "map (ac_username \<circ> snd) (hm_modify k f accounts) = map (ac_username \<circ> snd) accounts"
  using assms by (simp add: hm_modify_def)

lemma store_ok_modify:
  assumes ok: "store_ok db"
    and keep: "\<And>account. ac_username (f account) = ac_username account" "\<And>account. ac_accountId (f account) = ac_accountId account"
  shows "store_ok (db\<lparr>at_accounts := hm_modify k f (at_accounts db)\<rparr>)"
  using ok keep names_hm_modify [where f = f and k = k and accounts = "at_accounts db"]
  unfolding store_ok_def by (auto simp: hm_get_modify split: if_splits)

lemma names_hm_remove: "distinct (map (ac_username \<circ> snd) accounts) \<Longrightarrow> distinct (map (ac_username \<circ> snd) (hm_remove k accounts))"
  unfolding hm_remove_def by (rule distinct_map_filter)

lemma store_ok_deleteRow: "store_ok db \<Longrightarrow> store_ok (deleteRow k db)"
  unfolding store_ok_def by (auto simp: deleteRow_def names_hm_remove hm_get_remove hm_contains_def split: if_splits)

lemma hm_insert_fresh: "hm_get m k = None \<Longrightarrow> hm_insert k v m = m @ [(k, v)]"
  unfolding hm_insert_def hm_get_def by (induction m) (auto split: if_splits)

lemma fold_applyUsageRow:
  "at_accounts (fold (applyUsageRow now) usage db) = at_accounts db
   \<and> (\<forall>k. hm_contains (at_usageCounters (fold (applyUsageRow now) usage db)) k = hm_contains (at_usageCounters db) k)
   \<and> hm_wf (at_usageCounters (fold (applyUsageRow now) usage db)) = hm_wf (at_usageCounters db)"
  by (induction usage arbitrary: db) (auto simp: applyUsageRow_def Let_def split: prod.splits)

lemma applyUsage_keeps:
  "at_accounts (snd (applyUsage f now usage db)) = at_accounts db"
  "store_ok db \<Longrightarrow> store_ok (snd (applyUsage f now usage db))"
  using fold_applyUsageRow [of now usage db] by (auto simp: applyUsage_def store_ok_def)

lemma accountByUsername_stored:
  assumes "store_ok db" and "accountByUsername f1 name db = Ok (Some account)"
  shows "hm_get (at_accounts db) (ac_accountId account) = Some account \<and> ac_username account = name"
proof -
  from assms(2) have "find (\<lambda>a. ac_username a = name) (map snd (at_accounts db)) = Some account"
    by (simp add: accountByUsername_def split: if_splits)
  then have "account \<in> set (map snd (at_accounts db))" "ac_username account = name" by (auto simp: find_Some_iff)
  then obtain k where "(k, account) \<in> set (at_accounts db)" by auto
  then have "hm_get (at_accounts db) k = Some account" using hm_in_set [OF store_okD(1) [OF assms(1)]] by blast
  with store_okD(3) [OF assms(1) this] \<open>ac_username account = name\<close> show ?thesis by simp
qed


subsection \<open>Leases\<close>

lemma batches_ok_purge [simp]: "batches_ok (purgeExpiredLeases now state) = batches_ok state"
  by (simp add: leases_of_ops)

lemma lr_leases_purge: "lr_leases (purgeExpiredLeases now state) = purge_leases now (lr_leases state)"
  by (simp add: leases_of_ops)

lemma presence_new:
  assumes "hm_get leases l = None" and "\<not> ls_revoked lease"
  shows "presence aid (hm_insert l lease leases) =
    presence aid leases @ (if ls_accountId lease = aid then [ls_sourceIp lease] else [])"
  using assms by (simp add: hm_insert_fresh presence_def)

lemma purge_absent: "hm_wf leases \<Longrightarrow> hm_get leases l = None \<Longrightarrow> hm_get (purge_leases now leases) l = None"
  using purge.origin [of leases now l] by (cases "hm_get (purge_leases now leases) l") auto

lemma quota_ok_snoc:
  assumes "quota_ok policy ips" and "\<not> disabled policy"
    and "\<not> (0 < ap_maxConnections policy \<and> nat (ap_maxConnections policy) \<le> length ips)"
    and "\<not> (ip \<notin> set (remdups ips) \<and> 0 < ap_maxOnlineIps policy \<and> nat (ap_maxOnlineIps policy) \<le> length (remdups ips))"
  shows "quota_ok policy (ips @ [ip])"
proof -
  have "length (remdups (ips @ [ip])) = (if ip \<in> set ips then length (remdups ips) else Suc (length (remdups ips)))"
    by (simp add: length_remdups_card_conv insert_absorb)
  with assms show ?thesis by (auto simp: quota_ok_def)
qed

lemma new_lease_inv:
  assumes inv: "leases_inv U accounts leases" and account: "hm_get accounts (ac_accountId account) = Some account"
    and fresh: "hm_get leases l = None"
    and quota: "ac_accountId account \<notin> U \<Longrightarrow> quota_ok (ac_policy account) (presence (ac_accountId account) leases @ [ip])"
  shows "leases_inv U accounts (hm_insert l (newLease now l ip account request) leases)"
proof (rule leases_invI)
  show "hm_wf (hm_insert l (newLease now l ip account request) leases)" using leases_invD(1) [OF inv] by simp
  show "ls_leaseId lease = k \<and> lease_ok U accounts lease"
    if "hm_get (hm_insert l (newLease now l ip account request) leases) k = Some lease" for k lease
    using that leases_invD(2,3) [OF inv, of k lease] account
    by (auto simp: hm_get_insert newLease_def lease_ok_def split: if_splits)
  show "quota_ok (ac_policy acc) (presence aid (hm_insert l (newLease now l ip account request) leases))"
    if free: "aid \<notin> U" and that: "hm_get accounts aid = Some acc" for aid acc
  proof -
    have "presence aid (hm_insert l (newLease now l ip account request) leases) =
        presence aid leases @ (if ac_accountId account = aid then [ip] else [])"
      using fresh by (subst presence_new) (simp_all add: newLease_def)
    with quota account leases_invD(4) [OF inv free that] that free show ?thesis by (cases "ac_accountId account = aid") auto
  qed
qed

lemma createLease_inv:
  assumes inv: "leases_inv U accounts (lr_leases state)" and account: "hm_get accounts (ac_accountId account) = Some account"
    and fresh: "hm_get (lr_leases state) l = None" and enabled: "\<not> disabled (ac_policy account)"
  shows "leases_inv U accounts (lr_leases (snd (createLease now l account request state)))"
proof -
  let ?purged = "purgeExpiredLeases now state" and ?p = "ac_policy account" and ?aid = "ac_accountId account"
  have inv': "leases_inv U accounts (lr_leases ?purged)" unfolding lr_leases_purge using inv by (rule purge.keeps_inv)
  have fresh': "hm_get (lr_leases ?purged) l = None"
    unfolding lr_leases_purge using leases_invD(1) [OF inv] fresh by (rule purge_absent)
  have "leases_inv U accounts (hm_insert l (newLease now l ip account request) (lr_leases ?purged))"
    if "\<not> (0 < ap_maxConnections ?p \<and> nat (ap_maxConnections ?p) \<le> length (activeLeases ?aid ?purged))"
      "\<not> (ip \<notin> set (onlineIps (activeLeases ?aid ?purged)) \<and> 0 < ap_maxOnlineIps ?p
          \<and> nat (ap_maxOnlineIps ?p) \<le> length (onlineIps (activeLeases ?aid ?purged)))" for ip
    using inv' account fresh' quota_ok_snoc [OF leases_invD(4) [OF inv' _ account] enabled] that
    unfolding length_activeLeases onlineIps_presence by (intro new_lease_inv) auto
  with inv inv' show ?thesis
    by (auto simp: createLease_def Let_def split: outcome.split)
qed

lemma batches_ok_createLease: "batches_ok state \<Longrightarrow> batches_ok (snd (createLease now l account request state))"
  by (auto simp: createLease_def Let_def split: outcome.split)

lemma synchronize_inv:
  assumes inv: "leases_inv U accounts (lr_leases state)" and ok: "batches_ok state"
  shows "leases_inv U accounts (lr_leases (snd (synchronize digest now sid request state)))
    \<and> batches_ok (snd (synchronize digest now sid request state))"
proof -
  let ?leases = "snd (synchronizeAll now (rq_leases request) (purge_leases now (lr_leases state)))"
  have "leases_inv U accounts ?leases" by (intro sync.keeps_inv purge.keeps_inv inv)
  moreover have "batches_ok (rememberBatch (rq_batchId request) d r (state\<lparr>lr_leases := ?leases\<rparr>))"
    if "hm_get (lr_batches state) (rq_batchId request) = None" for d r
    using that ok by (intro batches_ok_rememberBatch) simp_all
  ultimately show ?thesis using inv ok
    by (auto simp: synchronize_def leases_of_ops Let_def split: option.split prod.split)
qed

section \<open>Every operation keeps the invariant\<close>

lemma service_invD:
  assumes "service_inv U s"
  shows "store_ok (ds_store s)" "leases_inv U (at_accounts (ds_store s)) (lr_leases (ds_leases s))" "batches_ok (ds_leases s)"
  using assms by (simp_all add: service_inv_def)

lemma service_inv_usage:
  "service_inv U s \<Longrightarrow> service_inv U (s\<lparr>ds_store := snd (applyUsage f now usage (ds_store s))\<rparr>)"
  by (simp add: service_inv_def applyUsage_keeps)

lemma service_inv_leases:
  "service_inv U s \<Longrightarrow> leases_inv U (at_accounts (ds_store s)) (lr_leases leases) \<Longrightarrow> batches_ok leases \<Longrightarrow>
   service_inv U (s\<lparr>ds_leases := leases\<rparr>)"
  by (simp add: service_inv_def)

lemma validate_enabled:
  "validateAccountAuthentication verify account password now = Ok () \<Longrightarrow> \<not> disabled (ac_policy account)"
  by (auto simp: validateAccountAuthentication_def split: if_splits)

lemma authenticateLease_inv:
  assumes inv: "service_inv U s" and fresh: "hm_get (lr_leases (ds_leases s)) leaseId = None"
  shows "service_inv U (snd (authenticateLease verify f1 f2 t1 t2 t3 leaseId request s))"
proof -
  have leased: "service_inv U (s\<lparr>ds_leases := snd (createLease t2 leaseId account request (ds_leases s))\<rparr>)"
    if found: "accountByUsername f1 (la_username request) (ds_store s) = Ok (Some account)"
      and valid: "validateAccountAuthentication verify account (la_password request) t1 = Ok ()" for account
  proof -
    from accountByUsername_stored [OF service_invD(1) [OF inv] found]
    have stored: "hm_get (at_accounts (ds_store s)) (ac_accountId account) = Some account" by simp
    have "leases_inv U (at_accounts (ds_store s)) (lr_leases (snd (createLease t2 leaseId account request (ds_leases s))))"
      by (rule createLease_inv [OF service_invD(2) [OF inv] stored fresh validate_enabled [OF valid]])
    with inv show ?thesis using batches_ok_createLease [OF service_invD(3) [OF inv]] by (simp add: service_inv_leases)
  qed
  have used: "service_inv U (s\<lparr>ds_leases := leases, ds_store := store\<rparr>)"
    if "accountByUsername f1 (la_username request) (ds_store s) = Ok (Some account)"
      and "validateAccountAuthentication verify account (la_password request) t1 = Ok ()"
      and "createLease t2 leaseId account request (ds_leases s) = (r, leases)"
      and "applyUsage f2 t usage (ds_store s) = (r', store)" for account t usage r leases r' store
    using service_inv_usage [OF leased [OF that(1,2)], of f2 t usage] that(3,4) by simp
  have unused: "service_inv U (s\<lparr>ds_leases := leases\<rparr>)"
    if "accountByUsername f1 (la_username request) (ds_store s) = Ok (Some account)"
      and "validateAccountAuthentication verify account (la_password request) t1 = Ok ()"
      and "createLease t2 leaseId account request (ds_leases s) = (r, leases)" for account r leases
    using leased [OF that(1,2)] that(3) by simp
  have rejected: "service_inv U (s\<lparr>ds_store := store\<rparr>)" if "applyUsage f2 t usage (ds_store s) = (r', store)" for t usage r' store
    using service_inv_usage [OF inv, of f2 t usage] that by simp
  show ?thesis
    using inv by (auto simp: authenticateLease_def split: outcome.split option.split prod.split intro: used unused rejected)
qed


lemma leases_inv_store: "at_accounts db' = at_accounts db \<Longrightarrow> leases_inv U (at_accounts db') leases = leases_inv U (at_accounts db) leases"
  by simp

lemma synchronizeLeases_inv:
  assumes inv: "service_inv U s"
  shows "service_inv U (snd (synchronizeLeases digest f1 t1 t2 request s))"
proof -
  let ?sync = "synchronize digest t1 (ds_serviceInstanceId s) request (ds_leases s)"
  have synced: "service_inv U (s\<lparr>ds_leases := leases\<rparr>)" if "?sync = (r, leases)" for r leases
    using synchronize_inv [OF service_invD(2,3) [OF inv], of digest t1 "ds_serviceInstanceId s" request] that
    by (intro service_inv_leases [OF inv]) simp_all
  have stored: "service_inv U (s\<lparr>ds_leases := leases, ds_store := store\<rparr>)"
    if "?sync = (r, leases)" "applyUsage f1 t2 usage (ds_store s) = (r', store)" for r leases usage r' store
    using service_inv_usage [OF synced [OF that(1)], of f1 t2 usage] that(2) by simp
  have confirmed: "service_inv U (s\<lparr>ds_leases := leases', ds_store := store\<rparr>)"
    if "?sync = (r, leases)" "applyUsage f1 t2 usage (ds_store s) = (r', store)"
      and c: "confirmUsageCommitted b leases = (r'', leases')" for r leases usage r' store b r'' leases'
  proof -
    note i = service_invD [OF stored [OF that(1,2)]]
    have "leases' = snd (confirmUsageCommitted b leases)" using c by simp
    then show ?thesis using i confirm.keeps_inv [OF i(2)] unfolding leases_of_ops by (intro service_invI) simp_all
  qed
  show ?thesis
    using inv by (auto simp: synchronizeLeases_def split: outcome.split prod.split intro: synced stored confirmed)
qed

lemma accountView_inv:
  assumes "service_inv U s"
  shows "service_inv U (snd (accountView f now account s))"
proof -
  have "service_inv U (s\<lparr>ds_leases := purgeExpiredLeases now (ds_leases s)\<rparr>)"
    using service_invD [OF assms] by (intro service_inv_leases [OF assms]) (simp_all add: lr_leases_purge purge.keeps_inv)
  then show ?thesis using assms
    by (auto simp: accountView_def accountPresence_def Let_def split: outcome.split prod.split)
qed

lemma createAccountRow_cases:
  assumes "createAccountRow f1 f2 now aid hash request db = (r, db')"
  shows "db' = db \<or> (\<exists>digest e. hm_get (at_accounts db) aid = None
    \<and> ca_username request \<notin> set (map (ac_username \<circ> snd) (at_accounts db))
    \<and> db' = insertAudit e (db\<lparr>at_accounts := hm_insert aid (newAccount now aid digest request) (at_accounts db),
        at_usageCounters := hm_insert aid (newCounters now) (at_usageCounters db)\<rparr>))"
proof (cases "and_then (validateAccountRequest request) (\<lambda>_. passwordDigest hash (ca_password request))")
  case (Ok digest)
  then show ?thesis
    using assms unfolding createAccountRow_def Let_def hm_contains_def by (simp del: split_paired_Ex split: if_splits) blast
qed (use assms in \<open>simp_all add: createAccountRow_def\<close>)

lemma store_ok_create:
  assumes ok: "store_ok db" and fresh: "hm_get (at_accounts db) aid = None"
    and name: "ac_username account \<notin> set (map (ac_username \<circ> snd) (at_accounts db))" and aid: "ac_accountId account = aid"
  shows "store_ok (db\<lparr>at_accounts := hm_insert aid account (at_accounts db),
        at_usageCounters := hm_insert aid counters (at_usageCounters db)\<rparr>)"
proof -
  have "distinct (map (ac_username \<circ> snd) (hm_insert aid account (at_accounts db)))"
    using ok name unfolding hm_insert_fresh [OF fresh] by (simp add: store_ok_def)
  moreover have "hm_contains (hm_insert aid counters (at_usageCounters db)) k = hm_contains (hm_insert aid account (at_accounts db)) k" for k
    using store_okD(4) [OF ok, of k] by (simp add: hm_contains_def hm_get_insert)
  ultimately show ?thesis using ok aid unfolding store_ok_def by (auto simp: hm_get_insert split: if_splits)
qed

lemma createAccount_inv:
  assumes inv: "service_inv U s"
  shows "service_inv U (snd (createAccount f1 f2 f3 t1 t2 accountId hash request s))"
proof -
  obtain r store where row: "createAccountRow f1 f2 t1 accountId hash request (ds_store s) = (r, store)" by fastforce
  have "service_inv U (s\<lparr>ds_store := store\<rparr>)"
    using createAccountRow_cases [OF row]
  proof (elim disjE exE conjE)
    assume "store = ds_store s"
    then show ?thesis using inv by simp
  next
    fix digest e
    assume fresh: "hm_get (at_accounts (ds_store s)) accountId = None"
      and name: "ca_username request \<notin> set (map (ac_username \<circ> snd) (at_accounts (ds_store s)))"
      and store: "store = insertAudit e ((ds_store s)\<lparr>at_accounts := hm_insert accountId (newAccount t1 accountId digest request) (at_accounts (ds_store s)),
        at_usageCounters := hm_insert accountId (newCounters t1) (at_usageCounters (ds_store s))\<rparr>)"
    have "store_ok store"
      unfolding store store_ok_insertAudit using name
      by (intro store_ok_create [OF service_invD(1) [OF inv] fresh]) (simp_all add: newAccount_def)
    moreover have "leases_inv U (at_accounts store) (lr_leases (ds_leases s))"
      by (rule fresh_account_inv [OF service_invD(2) [OF inv] fresh]) (simp add: store hm_get_insert)
    ultimately show ?thesis using service_invD(3) [OF inv] by (intro service_invI) simp_all
  qed
  then show ?thesis using accountView_inv by (auto simp: createAccount_def row split: outcome.split)
qed


lemma updateAccountRow_cases:
  assumes "updateAccountRow f1 f2 now aid request db = (r, db')"
  shows "(db' = db \<and> (\<forall>account. r \<noteq> Ok account)) \<or> (\<exists>account e account'. hm_get (at_accounts db) aid = Some account
    \<and> r = (if f2 then Err Database else Ok account') \<and> ac_policyRevision account = ua_policyRevision request
    \<and> account' = account\<lparr>ac_policy := ua_policy request, ac_policyRevision := i64_sat (ac_policyRevision account + 1),
        ac_remark := ua_remark request, ac_updatedAt := now\<rparr>
    \<and> db' = insertAudit e (db\<lparr>at_accounts := hm_modify aid (\<lambda>account. account\<lparr>ac_policy := ua_policy request,
        ac_policyRevision := i64_sat (ac_policyRevision account + 1), ac_remark := ua_remark request,
        ac_updatedAt := now\<rparr>) (at_accounts db)\<rparr>))"
proof (cases "and_then (validatePolicy (ua_policy request)) (\<lambda>_. validateRemark (ua_remark request))")
  case (Ok u)
  show ?thesis
  proof (cases "hm_get (at_accounts db) aid")
    case None
    then show ?thesis using assms Ok by (auto simp: updateAccountRow_def split: if_splits)
  next
    case (Some account)
    with assms Ok show ?thesis
      unfolding updateAccountRow_def Let_def accountById_def by (simp add: hm_get_modify split: if_splits) blast+
  qed
qed (use assms in \<open>auto simp: updateAccountRow_def\<close>)

lemma updateAccount_inv:
  assumes inv: "service_inv U s" and exempt: "f2 \<Longrightarrow> accountId \<in> U"
  shows "service_inv U (snd (updateAccount f1 f2 f3 t1 t2 t3 accountId request s))"
proof -
  let ?reconciled = "\<lambda>account store. s\<lparr>ds_store := store, ds_leases := reconcileAccount account t2 (ds_leases s)\<rparr>"
  obtain r store where row: "updateAccountRow f1 f2 t1 accountId request (ds_store s) = (r, store)" by fastforce
  show ?thesis
    using updateAccountRow_cases [OF row]
  proof (elim disjE exE conjE)
    assume "store = ds_store s" "\<forall>account. r \<noteq> Ok account"
    then show ?thesis using inv by (auto simp: updateAccount_def row split: outcome.split)
  next
    fix account e account'
    let ?f = "\<lambda>account :: StoredAccount. account\<lparr>ac_policy := ua_policy request, ac_policyRevision := i64_sat (ac_policyRevision account + 1),
        ac_remark := ua_remark request, ac_updatedAt := t1\<rparr>"
    assume got: "hm_get (at_accounts (ds_store s)) accountId = Some account" and r: "r = (if f2 then Err Database else Ok account')"
      and account': "account' = ?f account"
      and store: "store = insertAudit e ((ds_store s)\<lparr>at_accounts := hm_modify accountId ?f (at_accounts (ds_store s))\<rparr>)"
    have aid: "ac_accountId account' = accountId" using store_okD(3) [OF service_invD(1) [OF inv] got] account' by simp
    have ok: "store_ok store" unfolding store store_ok_insertAudit by (intro store_ok_modify [OF service_invD(1) [OF inv]]) simp_all
    have table: "hm_get (at_accounts store) = (hm_get (at_accounts (ds_store s)))(ac_accountId account' \<mapsto> account')"
      unfolding aid using got by (auto simp: store hm_get_modify account' fun_eq_iff)
    show ?thesis
    proof (cases f2)
      case True
      have "leases_inv U (at_accounts store) (lr_leases (ds_leases s))"
        by (rule leases_inv_agree [OF service_invD(2) [OF inv]]) (use exempt True in \<open>auto simp: table aid\<close>)
      then have "service_inv U (s\<lparr>ds_store := store\<rparr>)" using ok service_invD(3) [OF inv] by (intro service_invI) simp_all
      then show ?thesis unfolding updateAccount_def row using True r by simp
    next
      case False
      from table have "leases_inv U (at_accounts store) (lr_leases (reconcileAccount account' t2 (ds_leases s)))"
        by (rule reconcile_inv [OF service_invD(2) [OF inv]])
      moreover have "batches_ok (reconcileAccount account' t2 (ds_leases s))"
        using service_invD(3) [OF inv] by (simp add: reconcileAccount_def Let_def)
      ultimately have "service_inv U (?reconciled account' store)" using ok by (intro service_invI) simp_all
      then show ?thesis unfolding updateAccount_def row using accountView_inv False r by simp
    qed
  qed
qed

lemma password_inv:
  assumes inv: "service_inv U s" and row: "replaceAccountPassword f1 now aid digest (ds_store s) = (r, store)"
  shows "(\<forall>u. r \<noteq> Ok u) \<and> store = ds_store s
    \<or> r = Ok () \<and> service_inv U (s\<lparr>ds_store := store, ds_leases := snd (revokeAccount aid (ds_leases s))\<rparr>)"
proof (cases "f1 \<or> hm_get (at_accounts (ds_store s)) aid = None")
  case True
  then show ?thesis using row by (auto simp: replaceAccountPassword_def hm_contains_def split: if_splits)
next
  case False
  then obtain account where got: "hm_get (at_accounts (ds_store s)) aid = Some account" by blast
  let ?f = "\<lambda>account :: StoredAccount. account\<lparr>ac_passwordHash := map_option fst digest, ac_passwordSalt := map_option snd digest,
      ac_policyRevision := ac_policyRevision account + 1, ac_updatedAt := now\<rparr>"
  from False got row obtain e where r: "r = Ok ()"
    and store: "store = insertAudit e ((ds_store s)\<lparr>at_accounts := hm_modify aid ?f (at_accounts (ds_store s))\<rparr>)"
    by (auto simp: replaceAccountPassword_def hm_contains_def)
  have "store_ok store" unfolding store store_ok_insertAudit by (intro store_ok_modify [OF service_invD(1) [OF inv]]) simp_all
  moreover have "hm_get (at_accounts store) = (hm_get (at_accounts (ds_store s)))(aid \<mapsto> ?f account)"
    using got by (auto simp: store hm_get_modify fun_eq_iff)
  then have "leases_inv U (at_accounts store) (hm_update_all (revoke_lease aid) (lr_leases (ds_leases s)))"
    by (rule revoked_account_inv [OF service_invD(2) [OF inv] got]) simp
  ultimately have "service_inv U (s\<lparr>ds_store := store, ds_leases := snd (revokeAccount aid (ds_leases s))\<rparr>)"
    using service_invD(3) [OF inv] by (intro service_invI) (simp_all add: leases_of_ops)
  with r show ?thesis by simp
qed

lemma setAccountPassword_inv:
  assumes inv: "service_inv U s"
  shows "service_inv U (snd (setAccountPassword f1 t1 hash aid password s))"
proof -
  obtain r store where row: "setAccountPasswordRow f1 t1 hash aid password (ds_store s) = (r, store)" by fastforce
  then have "((\<forall>u. r \<noteq> Ok u) \<and> store = ds_store s)
      \<or> r = Ok () \<and> service_inv U (s\<lparr>ds_store := store, ds_leases := snd (revokeAccount aid (ds_leases s))\<rparr>)"
    using password_inv [OF inv] by (fastforce simp: setAccountPasswordRow_def split: outcome.splits)
  then show ?thesis using inv by (auto simp: setAccountPassword_def row split: outcome.split)
qed

lemma clearAccountPassword_inv:
  assumes inv: "service_inv U s"
  shows "service_inv U (snd (clearAccountPassword f1 t1 aid s))"
proof -
  obtain r store where row: "replaceAccountPassword f1 t1 aid None (ds_store s) = (r, store)" by fastforce
  from password_inv [OF inv row] inv show ?thesis
    by (auto simp: clearAccountPassword_def clearAccountPasswordRow_def row split: outcome.split)
qed


text \<open>A batch update: the rows it returns are the ones it wrote, so reconciling them in turn follows the table.\<close>

abbreviation put_account :: "StoredAccount \<Rightarrow> (str, StoredAccount) hashmap \<Rightarrow> (str, StoredAccount) hashmap" where
  "put_account account accounts \<equiv> hm_insert (ac_accountId account) account accounts"

lemma put_accounts_cong:
  "hm_get m = hm_get m' \<Longrightarrow> hm_get (fold put_account accounts m) = hm_get (fold put_account accounts m')"
  by (induction accounts arbitrary: m m') (auto simp: hm_get_insert)

lemma applied_account:
  "store_ok db \<Longrightarrow> hm_get (at_accounts db) k = Some account \<Longrightarrow>
   store_ok (db\<lparr>at_accounts := hm_modify (ac_accountId account)
     (\<lambda>_. account\<lparr>ac_policy := policy, ac_policyRevision := revision, ac_updatedAt := now\<rparr>) (at_accounts db)\<rparr>)"
proof -
  assume ok: "store_ok db" and got: "hm_get (at_accounts db) k = Some account"
  let ?f = "\<lambda>account :: StoredAccount. account\<lparr>ac_policy := policy, ac_policyRevision := revision, ac_updatedAt := now\<rparr>"
  have "ac_accountId account = k" using store_okD(3) [OF ok got] .
  then have "hm_modify (ac_accountId account) (\<lambda>_. ?f account) (at_accounts db) = hm_modify (ac_accountId account) ?f (at_accounts db)"
    using hm_modify_cong [where f = "\<lambda>_. ?f account" and g = ?f, OF got _ store_okD(1) [OF ok]] by simp
  then show ?thesis using store_ok_modify [OF ok, where f = ?f] by simp
qed

lemma and_then_Ok: "and_then x f = Ok y \<longleftrightarrow> (\<exists>a. x = Ok a \<and> f a = Ok y)"
  by (cases x) simp_all

lemma batchUpdateOne_cases:
  assumes "batchUpdateOne now request selection db = Ok (account', k, db')"
  shows "\<exists>account. hm_get (at_accounts db) (bs_accountId selection) = Some account
    \<and> ac_policyRevision account = bs_policyRevision selection
    \<and> (account' = account \<and> db' = db \<or>
       (\<exists>policy e. account' = account\<lparr>ac_policy := policy, ac_policyRevision := i64_sat (ac_policyRevision account + 1), ac_updatedAt := now\<rparr>
         \<and> db' = insertAudit e (db\<lparr>at_accounts := hm_modify (ac_accountId account) (\<lambda>_. account') (at_accounts db)\<rparr>)))"
proof (cases "hm_get (at_accounts db) (bs_accountId selection)")
  case None
  then show ?thesis using assms by (simp add: batchUpdateOne_def)
next
  case (Some account)
  from assms Some have revision: "ac_policyRevision account = bs_policyRevision selection"
    by (simp add: batchUpdateOne_def split: if_splits)
  from assms Some revision obtain changed policy where applied: "applyBatchPolicy (ac_policy account) request = Ok (changed, policy)"
    by (auto simp: batchUpdateOne_def and_then_Ok)
  show ?thesis
  proof (cases changed)
    case False
    with assms Some revision applied show ?thesis by (simp add: batchUpdateOne_def)
  next
    case True
    with assms Some revision applied have "validatePolicy policy = Ok ()" by (auto simp: batchUpdateOne_def and_then_Ok)
    with assms Some revision applied True have "account' = account\<lparr>ac_policy := policy, ac_policyRevision := i64_sat (ac_policyRevision account + 1), ac_updatedAt := now\<rparr>"
      "\<exists>e. db' = insertAudit e (db\<lparr>at_accounts := hm_modify (ac_accountId account) (\<lambda>_. account') (at_accounts db)\<rparr>)"
      unfolding batchUpdateOne_def Let_def by auto
    with Some revision show ?thesis by blast
  qed
qed

lemma batchUpdateOne_writes:
  assumes one: "batchUpdateOne now request selection db = Ok (account', k, db')" and ok: "store_ok db"
  shows "store_ok db' \<and> hm_get (at_accounts db') = hm_get (put_account account' (at_accounts db))"
  using batchUpdateOne_cases [OF one]
proof (elim exE conjE disjE)
  fix account assume got: "hm_get (at_accounts db) (bs_accountId selection) = Some account" and same: "account' = account" "db' = db"
  have "ac_accountId account = bs_accountId selection" using store_okD(3) [OF ok got] .
  then show ?thesis using got ok by (simp add: hm_get_insert same fun_eq_iff)
next
  fix account policy e
  assume got: "hm_get (at_accounts db) (bs_accountId selection) = Some account"
    and account': "account' = account\<lparr>ac_policy := policy, ac_policyRevision := i64_sat (ac_policyRevision account + 1), ac_updatedAt := now\<rparr>"
    and db': "db' = insertAudit e (db\<lparr>at_accounts := hm_modify (ac_accountId account) (\<lambda>_. account') (at_accounts db)\<rparr>)"
  have aid: "ac_accountId account = bs_accountId selection" using store_okD(3) [OF ok got] .
  have "ac_accountId account' = ac_accountId account" unfolding account' by simp
  then have "hm_get (at_accounts db') = hm_get (put_account account' (at_accounts db))"
    using got by (auto simp: db' hm_get_insert hm_get_modify aid fun_eq_iff)
  moreover have "store_ok db'" unfolding db' store_ok_insertAudit account' by (rule applied_account [OF ok got])
  ultimately show ?thesis by simp
qed

lemma batchUpdateLoop_writes:
  "batchUpdateLoop now request selections db = Ok (accounts, n, db') \<Longrightarrow> store_ok db \<Longrightarrow>
   store_ok db' \<and> hm_get (at_accounts db') = hm_get (fold put_account accounts (at_accounts db))"
proof (induction selections arbitrary: db accounts n db')
  case (Cons selection selections)
  from Cons.prems(1) obtain account k mid rest n' where one: "batchUpdateOne now request selection db = Ok (account, k, mid)"
    and rest: "batchUpdateLoop now request selections mid = Ok (rest, n', db')" and accounts: "accounts = account # rest"
    by (auto simp: and_then_Ok)
  from batchUpdateOne_writes [OF one Cons.prems(2)]
  show ?case using Cons.IH [OF rest] put_accounts_cong [of "at_accounts mid"] accounts by simp
qed simp

lemma reconcileLoop_inv:
  "leases_inv U m (lr_leases (ds_leases s)) \<Longrightarrow> batches_ok (ds_leases s) \<Longrightarrow> store_ok (ds_store s) \<Longrightarrow>
   hm_get (at_accounts (ds_store s)) = hm_get (fold put_account accounts m) \<Longrightarrow>
   service_inv U (snd (reconcileLoop (\<lambda>_. False) now t i accounts s))"
proof (induction accounts arbitrary: m s i)
  case Nil
  then show ?case using leases_inv_cong [of "at_accounts (ds_store s)" m] by (simp add: service_inv_def)
next
  case (Cons account accounts)
  define s1 where "s1 = s\<lparr>ds_leases := reconcileAccount account now (ds_leases s)\<rparr>"
  define s2 where "s2 = snd (accountView False t account s1)"
  have view: "\<exists>v. accountView False t account s1 = (Ok v, s2)"
    unfolding s2_def by (auto simp: accountView_def usageTotals_def accountPresence_def Let_def split: prod.split)
  have s2: "ds_store s2 = ds_store s" "ds_leases s2 = purgeExpiredLeases t (reconcileAccount account now (ds_leases s))"
    by (simp_all add: s2_def s1_def accountView_def usageTotals_def accountPresence_def Let_def split: prod.split)
  have "leases_inv U (put_account account m) (lr_leases (reconcileAccount account now (ds_leases s)))"
    using Cons.prems(1) by (rule reconcile_inv) (rule hm_get_insert)
  then have "leases_inv U (put_account account m) (lr_leases (ds_leases s2))"
    unfolding s2 lr_leases_purge by (rule purge.keeps_inv)
  moreover have "batches_ok (ds_leases s2)" using Cons.prems(2) by (simp add: s2 reconcileAccount_def Let_def)
  ultimately have "service_inv U (snd (reconcileLoop (\<lambda>_. False) now t (Suc i) accounts s2))"
    using Cons.prems by (intro Cons.IH) (simp_all add: s2)
  moreover have "snd (reconcileLoop (\<lambda>_. False) now t i (account # accounts) s) = snd (reconcileLoop (\<lambda>_. False) now t (Suc i) accounts s2)"
    using view by (auto simp: s1_def [symmetric] split: outcome.split prod.split)
  ultimately show ?case by simp
qed


lemma batchUpdateLoop_accounts:
  "batchUpdateLoop now request selections db = Ok (accounts, n, db') \<Longrightarrow> store_ok db \<Longrightarrow>
   map ac_accountId accounts = map bs_accountId selections \<and> (\<forall>k. hm_contains (at_accounts db') k = hm_contains (at_accounts db) k)
   \<and> (\<forall>selection \<in> set selections. hm_contains (at_accounts db) (bs_accountId selection))"
proof (induction selections arbitrary: db accounts n db')
  case (Cons selection selections)
  from Cons.prems(1) obtain account k mid rest n' where one: "batchUpdateOne now request selection db = Ok (account, k, mid)"
    and rest: "batchUpdateLoop now request selections mid = Ok (rest, n', db')" and accounts: "accounts = account # rest"
    by (auto simp: and_then_Ok)
  from batchUpdateOne_cases [OF one] obtain before where before: "hm_get (at_accounts db) (bs_accountId selection) = Some before"
    and aid: "ac_accountId account = ac_accountId before" by auto
  have id: "ac_accountId account = bs_accountId selection" using store_okD(3) [OF Cons.prems(2) before] aid by simp
  note mid = batchUpdateOne_writes [OF one Cons.prems(2)]
  then have same: "hm_contains (at_accounts mid) j = hm_contains (at_accounts db) j" for j
    using before id by (auto simp: hm_contains_def hm_get_insert)
  have "hm_contains (at_accounts db) (bs_accountId selection)" using before by (simp add: hm_contains_def)
  with Cons.IH [OF rest conjunct1 [OF mid]] show ?case using accounts id by (simp add: same)
qed simp

text \<open>The loop over exempt accounts may stop anywhere.\<close>

lemma reconcileLoop_exempt:
  "service_inv U s \<Longrightarrow> list_all (\<lambda>account. ac_accountId account \<in> U \<and> hm_contains (at_accounts (ds_store s)) (ac_accountId account)) accounts \<Longrightarrow>
   service_inv U (snd (reconcileLoop fs now t i accounts s))"
proof (induction accounts arbitrary: s i)
  case (Cons account accounts)
  define s1 where "s1 = s\<lparr>ds_leases := reconcileAccount account now (ds_leases s)\<rparr>"
  have "leases_inv U (at_accounts (ds_store s)) (lr_leases (reconcileAccount account now (ds_leases s)))"
    using service_invD(2) [OF Cons.prems(1)] Cons.prems(2) by (intro reconcile_exempt) (simp_all add: hm_contains_def)
  then have s1: "service_inv U s1" unfolding s1_def
    using service_invD [OF Cons.prems(1)] by (intro service_invI) (simp_all add: reconcileAccount_def Let_def)
  obtain r s2 where view: "accountView (fs i) t account s1 = (r, s2)" by fastforce
  have s2: "service_inv U s2" using accountView_inv [OF s1, of "fs i" t account] view by simp
  have store: "ds_store s2 = ds_store s"
    using view by (auto simp: s1_def accountView_def accountPresence_def Let_def split: outcome.splits prod.splits)
  have "service_inv U (snd (reconcileLoop fs now t (Suc i) accounts s2))"
    using Cons.prems(2) s2 by (intro Cons.IH) (simp_all add: store)
  then show ?case using s2 view by (auto simp: s1_def [symmetric] split: outcome.split prod.split)
qed simp

lemma updateAccountsBatch_inv:
  assumes inv: "service_inv U s" and exempt: "\<And>i. fs i \<Longrightarrow> set (map bs_accountId (bu_accounts request)) \<subseteq> U"
  shows "service_inv U (snd (updateAccountsBatch f1 fs t1 t2 t3 request s))"
proof -
  obtain r store where row: "updateAccountRows f1 t1 request (ds_store s) = (r, store)" by fastforce
  show ?thesis
  proof (cases r)
    case (Ok a)
    obtain accounts n where a: "a = (accounts, n)" by fastforce
    from row Ok a have loop: "batchUpdateLoop t1 request (bu_accounts request) (ds_store s) = Ok (accounts, n, store)"
      by (auto simp: updateAccountRows_def and_then_Ok split: outcome.splits if_splits)
    note writes = batchUpdateLoop_writes [OF loop service_invD(1) [OF inv]]
    note ids = batchUpdateLoop_accounts [OF loop service_invD(1) [OF inv]]
    have "service_inv U (snd (reconcileLoop fs t2 t3 0 accounts (s\<lparr>ds_store := store\<rparr>)))"
    proof (cases "\<exists>i. fs i")
      case False
      then have "fs = (\<lambda>_. False)" by blast
      then show ?thesis
        using writes service_invD [OF inv] by (simp only:) (intro reconcileLoop_inv [where m = "at_accounts (ds_store s)"], simp_all)
    next
      case True
      then have sub: "ac_accountId ` set accounts \<subseteq> U" using exempt arg_cong [OF conjunct1 [OF ids], of set] by auto
      have keep: "hm_get (fold put_account xs m) k = hm_get m k" if "k \<notin> ac_accountId ` set xs" for xs m k
        using that by (induction xs arbitrary: m) (auto simp: hm_get_insert)
      have other: "hm_get (at_accounts store) k = hm_get (at_accounts (ds_store s)) k" if "k \<notin> U" for k
        unfolding conjunct2 [OF writes] by (rule keep) (use that sub in blast)
      have "leases_inv U (at_accounts store) (lr_leases (ds_leases s))"
        using conjunct1 [OF conjunct2 [OF ids]] by (intro leases_inv_agree [OF service_invD(2) [OF inv] other]) (simp_all add: hm_contains_def)
      then have start: "service_inv U (s\<lparr>ds_store := store\<rparr>)" using writes service_invD [OF inv] by (intro service_invI) simp_all
      have "hm_contains (at_accounts store) (ac_accountId account)" if "account \<in> set accounts" for account
      proof -
        have "ac_accountId account \<in> set (map bs_accountId (bu_accounts request))" using that conjunct1 [OF ids] by (metis image_eqI set_map)
        then show ?thesis using conjunct2 [OF ids] by auto
      qed
      with sub have "list_all (\<lambda>account. ac_accountId account \<in> U \<and> hm_contains (at_accounts (ds_store (s\<lparr>ds_store := store\<rparr>))) (ac_accountId account)) accounts"
        by (auto simp: list_all_iff)
      with start show ?thesis by (rule reconcileLoop_exempt)
    qed
    then show ?thesis
      by (auto simp: updateAccountsBatch_def row Ok a split: outcome.split prod.split)
  qed (use row inv in \<open>auto simp: updateAccountsBatch_def updateAccountRows_def split: outcome.splits\<close>)
qed

lemma deleted_rows:
  "at_accounts (fold (\<lambda>sel db. insertAudit (e sel) (deleteRow (bs_accountId sel) db)) sels db) = fold hm_remove (map bs_accountId sels) (at_accounts db)"
  "store_ok db \<Longrightarrow> store_ok (fold (\<lambda>sel db. insertAudit (e sel) (deleteRow (bs_accountId sel) db)) sels db)"
  by (induction sels arbitrary: db) (auto simp: store_ok_deleteRow, simp_all add: deleteRow_def)

lemma deleteAccountsBatch_inv:
  assumes inv: "service_inv U s"
  shows "service_inv U (snd (deleteAccountsBatch f1 t1 selections s))"
proof -
  let ?remove = "fold (\<lambda>s leases. snd (removeAccount (bs_accountId s) leases)) selections (ds_leases s)"
  obtain r store where row: "deleteAccountRows f1 t1 selections (ds_store s) = (r, store)" by fastforce
  show ?thesis
  proof (cases r)
    case (Ok n)
    with row have store: "store = fold (\<lambda>sel db. insertAudit (accountAudit t1 ''account.batchDelete'' (bs_accountId sel) noDetails)
        (deleteRow (bs_accountId sel) db)) selections (ds_store s)"
      by (auto simp: deleteAccountRows_def split: outcome.splits)
    have "hm_get (at_accounts store) = (\<lambda>k. if k \<in> set (map bs_accountId selections) then None else hm_get (at_accounts (ds_store s)) k)"
      unfolding store deleted_rows hm.get_fold_del by (rule refl)
    from remove_all_inv [OF service_invD(2) [OF inv] this]
    have "leases_inv U (at_accounts store) (lr_leases ?remove)" by (simp add: fold_map comp_def)
    moreover have "store_ok store" unfolding store by (rule deleted_rows) (rule service_invD(1) [OF inv])
    moreover have "batches_ok (fold (\<lambda>s leases. snd (removeAccount (bs_accountId s) leases)) sels reg)"
      if "batches_ok reg" for sels and reg :: "'a LeaseRegistry"
      using that by (induction sels arbitrary: reg) (auto simp: removeAccount_def Let_def)
    then have "batches_ok ?remove" using service_invD(3) [OF inv] .
    ultimately have "service_inv U (s\<lparr>ds_store := store, ds_leases := ?remove\<rparr>)" by (intro service_invI) simp_all
    then show ?thesis by (simp add: deleteAccountsBatch_def row Ok)
  qed (use row inv in \<open>auto simp: deleteAccountsBatch_def deleteAccountRows_def split: outcome.splits\<close>)
qed

lemma deleteAccount_inv:
  assumes inv: "service_inv U s"
  shows "service_inv U (snd (deleteAccount f1 t1 aid s))"
proof (cases "f1 \<or> \<not> hm_contains (at_accounts (ds_store s)) aid")
  case True
  then show ?thesis using inv by (auto simp: deleteAccount_def deleteAccountRow_def)
next
  case False
  let ?db = "insertAudit (accountAudit t1 ''account.delete'' aid noDetails) (deleteRow aid (ds_store s))"
  have "store_ok ?db" using store_ok_deleteRow [OF service_invD(1) [OF inv]] by simp
  moreover have "leases_inv U (at_accounts ?db) (lr_leases (snd (removeAccount aid (ds_leases s))))"
    by (rule remove_inv [OF service_invD(2) [OF inv]]) (simp add: deleteRow_def hm_get_remove)
  moreover have "batches_ok (snd (removeAccount aid (ds_leases s)))"
    using service_invD(3) [OF inv] by (simp add: removeAccount_def Let_def)
  ultimately have "service_inv U (s\<lparr>ds_store := ?db, ds_leases := snd (removeAccount aid (ds_leases s))\<rparr>)"
    by (intro service_invI) simp_all
  then show ?thesis using False by (simp add: deleteAccount_def deleteAccountRow_def)
qed

lemma disconnectAccount_inv:
  assumes inv: "service_inv U s"
  shows "service_inv U (snd (disconnectAccount f1 aid s))"
proof -
  have "service_inv U (s\<lparr>ds_leases := snd (revokeAccount aid (ds_leases s))\<rparr>)"
    using service_invD [OF inv] by (intro service_inv_leases [OF inv]) (simp_all add: leases_of_ops revoke.keeps_inv)
  then show ?thesis using inv by (auto simp: disconnectAccount_def split: outcome.split prod.split)
qed

lemma serviceConnections_inv:
  assumes inv: "service_inv U s"
  shows "service_inv U (snd (serviceConnections t1 aid s))"
proof -
  have "service_inv U (s\<lparr>ds_leases := purgeExpiredLeases t1 (ds_leases s)\<rparr>)"
    using service_invD [OF inv] by (intro service_inv_leases [OF inv]) (simp_all add: lr_leases_purge purge.keeps_inv)
  then show ?thesis by (simp add: serviceConnections_def connections_def Let_def)
qed

lemmas service_inv_intros = authenticateLease_inv synchronizeLeases_inv createAccount_inv updateAccount_inv
  updateAccountsBatch_inv deleteAccountsBatch_inv setAccountPassword_inv clearAccountPassword_inv deleteAccount_inv
  disconnectAccount_inv serviceConnections_inv

lemma service_step_inv: "service_step U s t \<Longrightarrow> service_inv U s \<Longrightarrow> service_inv U t"
proof (induction rule: service_step.induct)
  case (step_updateBatch fs batch s f1 t1 t2 t3)
  then show ?case by (intro updateAccountsBatch_inv)
qed (auto intro: service_inv_intros)

text \<open>The service starts on any well formed database with no leases.\<close>

definition service_start :: "'d AccountDomain \<Rightarrow> bool" where
  "service_start s \<longleftrightarrow> (\<exists>store instanceId. store_ok store \<and> s = AccountDomain_new store instanceId)"

lemma service_start_inv: "service_start s \<Longrightarrow> service_inv U s"
  by (auto simp: service_start_def AccountDomain_new_def LeaseRegistry_new_def service_inv_def leases_inv_def batches_ok_def)

interpretation service: safe_system service_start "service_step U" "service_inv U" for U
  by unfold_locales (auto intro: service_start_inv service_step_inv)

abbreviation reachable_service :: "str set \<Rightarrow> 'd AccountDomain \<Rightarrow> bool" where
  "reachable_service U \<equiv> reach service_start (service_step U)"


section \<open>Quotas\<close>

lemma active_in_leases:
  assumes "hm_wf (lr_leases state)" and "lease \<in> set (activeLeases aid state)"
  shows "\<exists>l. hm_get (lr_leases state) l = Some lease" and "ls_accountId lease = aid" and "\<not> ls_revoked lease"
  using assms hm_in_set by (fastforce simp: activeLeases_def)+

text \<open>
  C31: the quotas of the accounts. In every reachable state of the account service (new leases get new identifiers,
  as the UUIDs of the code are), whatever the order of authentications, synchronisations, policy changes, password changes and deletions and whatever database operation
  fails, the active leases of an account respect its policy: at most \<open>maxConnections\<close> leases and at most \<open>maxOnlineIps\<close>
  source addresses where these limits are positive, and none at all for a disabled account; and every active lease
  carries the current policy and revision of its account. Excepted are the accounts of \<open>U\<close>: those for which, after a
  committed policy change, reading the row back failed, or which belonged to a committed batch update in which reading
  the totals of an account failed; their leases may still follow an older policy. With \<open>U\<close> empty no such failure
  happens. The service remembers at most 4096 batches.
\<close>

theorem account_quotas:
  assumes "reachable_service U s" and "hm_get (at_accounts (ds_store s)) aid = Some account" and "aid \<notin> U"
  shows "(0 < ap_maxConnections (ac_policy account) \<longrightarrow>
        length (activeLeases aid (ds_leases s)) \<le> nat (ap_maxConnections (ac_policy account)))
    \<and> (0 < ap_maxOnlineIps (ac_policy account) \<longrightarrow>
        length (onlineIps (activeLeases aid (ds_leases s))) \<le> nat (ap_maxOnlineIps (ac_policy account)))
    \<and> (disabled (ac_policy account) \<longrightarrow> activeLeases aid (ds_leases s) = [])
    \<and> (\<forall>lease \<in> set (activeLeases aid (ds_leases s)).
        ls_policy lease = ac_policy account \<and> ls_policyRevision lease = ac_policyRevision account)
    \<and> length (lr_batches (ds_leases s)) \<le> maximumRememberedBatches"
proof -
  have inv: "service_inv U s" using assms(1) by (rule service.reach_inv)
  note i = service_invD [OF inv]
  have "quota_ok (ac_policy account) (presence aid (lr_leases (ds_leases s)))" by (rule leases_invD(4) [OF i(2) assms(3,2)])
  moreover have "ls_policy lease = ac_policy account \<and> ls_policyRevision lease = ac_policyRevision account"
    if "lease \<in> set (activeLeases aid (ds_leases s))" for lease
    using active_in_leases [OF leases_invD(1) [OF i(2)] that] leases_invD(3) [OF i(2)] assms(2,3) by (force simp: lease_ok_def)
  moreover have "length (lr_batches (ds_leases s)) \<le> maximumRememberedBatches" using i(3) by (simp add: batches_ok_def)
  ultimately show ?thesis
    unfolding length_activeLeases onlineIps_presence quota_ok_def
    using length_activeLeases [of aid "ds_leases s"] by auto
qed

definition sample_policy :: AccountPolicy where
  "sample_policy = \<lparr>ap_maxUploadBytesPerSecond = -1, ap_maxDownloadBytesPerSecond = -1, ap_maxConnections = 1,
     ap_maxOnlineIps = 1, ap_expiresAt = -1\<rparr>"

definition sample_service :: "nat AccountDomain" where
  "sample_service = snd (createAccount False False False 5 5 (lit ''A'') (\<lambda>_. None)
     \<lparr>ca_username = lit ''u'', ca_password = None, ca_policy = sample_policy, ca_remark = None\<rparr>
     (AccountDomain_new AccountStore_empty (lit ''S'')))"

definition sample_login :: LeaseAuthenticationRequest where
  "sample_login = \<lparr>la_connectionId = lit ''C'', la_username = lit ''u'', la_password = lit ''p'', la_sourceIp = lit ''1.2.3.4''\<rparr>"

definition sample_online :: "nat AccountDomain" where
  "sample_online = snd (authenticateLease (\<lambda>_ _ _. False) False False 6 6 6 (lit ''L'') sample_login sample_service)"

lemma reachable_sample_service: "reachable_service {} sample_service"
proof -
  have "service_start (AccountDomain_new AccountStore_empty (lit ''S'') :: nat AccountDomain)"
    unfolding service_start_def by (intro exI [of _ AccountStore_empty] exI [of _ "lit ''S''"]) (simp add: store_ok_def AccountStore_empty_def hm_contains_def)
  then have "reachable_service {} (AccountDomain_new AccountStore_empty (lit ''S'') :: nat AccountDomain)" by (rule reach_init)
  then show ?thesis unfolding sample_service_def by (rule reach_step) (rule step_create)
qed

lemma reachable_sample_online: "reachable_service {} sample_online"
proof -
  have "hm_get (lr_leases (ds_leases sample_service)) (lit ''L'') = None" by code_simp
  then have "service_step {} sample_service sample_online" unfolding sample_online_def by (rule step_authenticate)
  with reachable_sample_service show ?thesis by (rule reach_step)
qed

lemma sample_online_account:
  "map_option ac_policy (hm_get (at_accounts (ds_store sample_online)) (lit ''A'')) = Some sample_policy"
  "length (activeLeases (lit ''A'') (ds_leases sample_online)) = 1"
  by code_simp+

theorem account_quotas_witness: "length (activeLeases (lit ''A'') (ds_leases sample_online)) = 1
    \<and> (\<exists>account. hm_get (at_accounts (ds_store sample_online)) (lit ''A'') = Some account \<and> ac_policy account = sample_policy
        \<and> (\<forall>lease \<in> set (activeLeases (lit ''A'') (ds_leases sample_online)). ls_policy lease = sample_policy))"
proof -
  from sample_online_account(1) obtain account where account: "hm_get (at_accounts (ds_store sample_online)) (lit ''A'') = Some account"
    and policy: "ac_policy account = sample_policy" by auto
  from account_quotas [OF reachable_sample_online account] empty_iff account policy sample_online_account(2) show ?thesis by auto
qed

end
