(* ===== verification/AccountUsage.thy ===== *)
theory AccountUsage
  imports AccountProperties
begin

text \<open>
  Conservation of usage. The bytes of an account are in two places: its counter row and the difference
  between reported and persisted bytes of its leases. Uploads and downloads follow the same laws, so
  these are one locale over the selectors of a direction, interpreted for both.
\<close>

section \<open>Pending and accepted bytes\<close>

definition pendingBytes :: "(LeaseState \<Rightarrow> nat) \<Rightarrow> (LeaseState \<Rightarrow> nat) \<Rightarrow> str \<Rightarrow> (str, LeaseState) hashmap \<Rightarrow> nat" where
  "pendingBytes seen persisted aid leases =
     sum_list (map (\<lambda>lease. if ls_accountId lease = aid then seen lease - persisted lease else 0) (map snd leases))"

definition counterOf :: "(UsageCounters \<Rightarrow> int) \<Rightarrow> str \<Rightarrow> AccountStore \<Rightarrow> int" where
  "counterOf counter aid db = (case hm_get (at_usageCounters db) aid of None \<Rightarrow> 0 | Some row \<Rightarrow> counter row)"

text \<open>The bytes a progress report adds: a report for another connection or below the known totals adds none.\<close>

definition acceptedBytes :: "(LeaseState \<Rightarrow> nat) \<Rightarrow> (LeaseProgress \<Rightarrow> nat) \<Rightarrow> str \<Rightarrow> LeaseProgress \<Rightarrow> (str, LeaseState) hashmap \<Rightarrow> nat" where
  "acceptedBytes seen reported aid progress leases =
     (case hm_get leases (pr_leaseId progress) of
        None \<Rightarrow> 0
      | Some lease \<Rightarrow>
          if ls_accountId lease = aid \<and> ls_connectionId lease = pr_connectionId progress
             \<and> ls_uploadedBytes lease \<le> pr_uploadedBytes progress \<and> ls_downloadedBytes lease \<le> pr_downloadedBytes progress
          then reported progress - seen lease else 0)"

fun acceptedAll ::
  "(LeaseState \<Rightarrow> nat) \<Rightarrow> (LeaseProgress \<Rightarrow> nat) \<Rightarrow> str \<Rightarrow> int \<Rightarrow> LeaseProgress list \<Rightarrow> (str, LeaseState) hashmap \<Rightarrow> nat" where
  "acceptedAll seen reported aid now [] leases = 0"
| "acceptedAll seen reported aid now (p # ps) leases =
     acceptedBytes seen reported aid p leases + acceptedAll seen reported aid now ps (snd (synchronizeOne now p leases))"

text \<open>A batch counts once: only a batch of this instance that is not remembered adds bytes.\<close>

definition newlyAccepted ::
  "(LeaseState \<Rightarrow> nat) \<Rightarrow> (LeaseProgress \<Rightarrow> nat) \<Rightarrow> str \<Rightarrow> int \<Rightarrow> LeaseSynchronizationRequest \<Rightarrow> 'd AccountDomain \<Rightarrow> nat" where
  "newlyAccepted seen reported aid now request s =
     (if rq_serviceInstanceId request = ds_serviceInstanceId s \<and> hm_get (lr_batches (ds_leases s)) (rq_batchId request) = None
      then acceptedAll seen reported aid now (rq_leases request) (lr_leases (purgeExpiredLeases now (ds_leases s))) else 0)"

lemma entry_insert: "hm_entry_or (hm_insert k v m) k' d = (if k' = k then v else hm_entry_or m k' d)"
  by (simp add: hm_entry_or_def hm_get_insert)

lemma addPending_other: "aid \<noteq> ls_accountId lease \<Longrightarrow> hm_entry_or (addPending lease usage) aid d = hm_entry_or usage aid d"
  by (simp add: addPending_def Let_def entry_insert)

lemma hm_wf_addPending: "hm_wf usage \<Longrightarrow> hm_wf (addPending lease usage)"
  by (simp add: addPending_def Let_def)

lemma hm_wf_pendingUsage: "hm_wf (pendingUsage state)"
proof -
  have "hm_wf usage \<Longrightarrow> hm_wf (fold addPending leases usage)" for leases usage
    by (induction leases arbitrary: usage) (simp_all add: hm_wf_addPending)
  then show ?thesis by (simp add: pendingUsage_def)
qed

lemma keys_pendingUsage: "fst ` set (pendingUsage state) \<subseteq> ls_accountId ` snd ` set (lr_leases state)"
proof -
  have "fst ` set (fold addPending leases usage) \<subseteq> fst ` set usage \<union> ls_accountId ` set leases" for leases usage
  proof (induction leases arbitrary: usage)
    case (Cons lease leases)
    have "fst ` set (addPending lease usage) \<subseteq> insert (ls_accountId lease) (fst ` set usage)"
      by (auto simp: addPending_def Let_def keys_hm_insert)
    with Cons [of "addPending lease usage"] show ?case by auto
  qed simp
  from this [of "map snd (lr_leases state)" "[]"] show ?thesis by (simp add: pendingUsage_def)
qed

text \<open>The accounts of pending usage exist, so the foreign key of the daily rows never refuses a commit.\<close>

lemma applyUsage_pending:
  assumes "leases_inv U (at_accounts db) (lr_leases state)"
  shows "applyUsage f now (pendingUsage state) db =
    (if f \<and> pendingUsage state \<noteq> [] then (Err Database, db) else (Ok (), fold (applyUsageRow now) (pendingUsage state) db))"
proof -
  have "hm_contains (at_accounts db) k" if "k \<in> fst ` set (pendingUsage state)" for k
  proof -
    from that have "k \<in> ls_accountId ` snd ` set (lr_leases state)" by (rule subsetD [OF keys_pendingUsage])
    then obtain e where "e \<in> set (lr_leases state)" "ls_accountId (snd e) = k" by auto
    then have "hm_get (lr_leases state) (fst e) = Some (snd e)" using hm_in_set [OF leases_invD(1) [OF assms]] by (metis prod.collapse)
    from leases_invD(3) [OF assms this] show ?thesis using \<open>ls_accountId (snd e) = k\<close> by (auto simp: lease_ok_def hm_contains_def)
  qed
  then show ?thesis by (auto simp: applyUsage_def)
qed

lemma rememberBatch_remembers: "hm_contains (lr_batches (rememberBatch b d r state)) b"
  by (simp add: rememberBatch_def Let_def hm_contains_def hm_get_insert)

text \<open>A batch that is refused or remembered leaves the registry alone; any other is applied and remembered.\<close>

lemma synchronize_old:
  assumes "rq_serviceInstanceId request \<noteq> sid \<or> hm_get (lr_batches state) (rq_batchId request) \<noteq> None"
  shows "snd (synchronize digest now sid request state) = state"
  using assms by (auto simp: synchronize_def)

lemma synchronize_new:
  assumes "rq_serviceInstanceId request = sid" and "hm_get (lr_batches state) (rq_batchId request) = None"
    and "synchronizeAll now (rq_leases request) (purge_leases now (lr_leases state)) = (results, leases)"
    and "response = \<lparr>rp_serviceInstanceId = sid, rp_batchId = rq_batchId request, rp_leases = results\<rparr>"
    and "state' = rememberBatch (rq_batchId request) (digest request) response (state\<lparr>lr_leases := leases\<rparr>)"
  shows "synchronize digest now sid request state = (Ok (response, pendingUsage state'), state')"
  unfolding assms(4,5) synchronize_def leases_of_ops(1) Let_def using assms(1-3) by simp

lemma synchronize_Ok:
  assumes sync: "synchronize digest now sid request state = (Ok (response, usage), leases)"
  shows "usage = pendingUsage leases \<and> hm_contains (lr_batches leases) (rq_batchId request)"
proof (cases "rq_serviceInstanceId request = sid \<and> hm_get (lr_batches state) (rq_batchId request) = None")
  case True
  obtain results ls where "synchronizeAll now (rq_leases request) (purge_leases now (lr_leases state)) = (results, ls)" by fastforce
  from synchronize_new [OF conjunct1 [OF True] conjunct2 [OF True] this refl refl, of digest] sync rememberBatch_remembers
  show ?thesis by auto
next
  case False
  then show ?thesis using sync by (auto simp: synchronize_def hm_contains_def split: if_splits option.splits)
qed

lemma synchronizeLeases_shape:
  assumes inv: "service_inv U s"
    and sync: "synchronize digest t1 (ds_serviceInstanceId s) request (ds_leases s) = (r, leases)"
  shows "synchronizeLeases digest f1 t1 t2 request s =
    (case r of
       Panic \<Rightarrow> (Panic, s\<lparr>ds_leases := leases\<rparr>)
     | Err e \<Rightarrow> (Err e, s\<lparr>ds_leases := leases\<rparr>)
     | Ok (response, usage) \<Rightarrow>
         if f1 \<and> pendingUsage leases \<noteq> [] then (Err Database, s\<lparr>ds_leases := leases\<rparr>)
         else (Ok response, s\<lparr>ds_leases := leases\<lparr>lr_leases := confirm_leases (lr_leases leases)\<rparr>,
                 ds_store := fold (applyUsageRow t2) (pendingUsage leases) (ds_store s)\<rparr>))"
proof (cases r)
  case (Ok a)
  obtain response usage where a: "a = (response, usage)" by fastforce
  from synchronize_Ok sync Ok a have usage: "usage = pendingUsage leases" and known: "hm_contains (lr_batches leases) (rq_batchId request)"
    by blast+
  have "leases_inv U (at_accounts (ds_store s)) (lr_leases leases)"
    using synchronize_inv [OF service_invD(2,3) [OF inv], of digest t1 "ds_serviceInstanceId s" request] sync by simp
  note apply_usage = applyUsage_pending [OF this, of f1 t2]
  have confirm: "confirmUsageCommitted (rq_batchId request) leases = (Ok (), leases\<lparr>lr_leases := confirm_leases (lr_leases leases)\<rparr>)"
    using leases_of_ops(2) [of "rq_batchId request" leases] known
    by (auto simp: confirmUsageCommitted_def hm_contains_def split: option.splits)
  show ?thesis
    by (simp add: synchronizeLeases_def sync Ok a usage apply_usage confirm)
qed (simp_all add: synchronizeLeases_def sync)

section \<open>One direction\<close>

locale usage_meter =
  fixes seen persisted :: "LeaseState \<Rightarrow> nat"
    and reported :: "LeaseProgress \<Rightarrow> nat"
    and increment :: "UsageIncrement \<Rightarrow> int"
    and counter :: "UsageCounters \<Rightarrow> int"
  assumes mark: "seen (mark_timed_out now lease) = seen lease" "persisted (mark_timed_out now lease) = persisted lease"
    and settle: "seen (settle lease) = seen lease" "persisted (settle lease) = seen lease"
    and settled: "settled lease \<Longrightarrow> seen lease = persisted lease"
    and progress: "persisted (progress_lease now p lease) = persisted lease"
      "seen (progress_lease now p lease) = (if ls_connectionId lease = pr_connectionId p
         \<and> ls_uploadedBytes lease \<le> pr_uploadedBytes p \<and> ls_downloadedBytes lease \<le> pr_downloadedBytes p then reported p else seen lease)"
    and monotone: "ls_uploadedBytes lease \<le> pr_uploadedBytes p \<Longrightarrow> ls_downloadedBytes lease \<le> pr_downloadedBytes p \<Longrightarrow>
      seen lease \<le> reported p"
    and within: "lease_ok U accounts lease \<Longrightarrow> persisted lease \<le> seen lease"
    and no_increment: "increment UsageIncrement_default = 0"
    and addPending: "increment (hm_entry_or (addPending lease usage) (ls_accountId lease) UsageIncrement_default) =
      (if uploadedDelta lease = 0 \<and> downloadedDelta lease = 0
       then increment (hm_entry_or usage (ls_accountId lease) UsageIncrement_default)
       else i64_sat (increment (hm_entry_or usage (ls_accountId lease) UsageIncrement_default)
              + min (int (seen lease - persisted lease)) i64_max))"
    and no_delta: "uploadedDelta lease = 0 \<Longrightarrow> downloadedDelta lease = 0 \<Longrightarrow> seen lease - persisted lease = 0"
    and addCounters: "counter (addCounters now added row) = counter row + increment added"
begin

abbreviation pending :: "str \<Rightarrow> (str, LeaseState) hashmap \<Rightarrow> nat" where
  "pending \<equiv> pendingBytes seen persisted"

lemma pending_Nil [simp]: "pending aid [] = 0"
  by (simp add: pendingBytes_def)

lemma pending_Cons:
  "pending aid (e # leases) = (if ls_accountId (snd e) = aid then seen (snd e) - persisted (snd e) else 0) + pending aid leases"
  by (simp add: pendingBytes_def)

lemma pending_update_all:
  assumes "\<And>lease. ls_accountId (f lease) = ls_accountId lease \<and> seen (f lease) = seen lease \<and> persisted (f lease) = persisted lease"
  shows "pending aid (hm_update_all f leases) = pending aid leases"
  using assms by (induction leases) (simp_all add: hm_update_all_def pending_Cons)

lemma pending_settled: "pending aid (hm_update_all settle leases) = 0"
  by (induction leases) (simp_all add: hm_update_all_def pending_Cons usage_meter.settle [OF usage_meter_axioms])

lemma pending_retain:
  assumes "\<And>k lease. \<not> P k lease \<Longrightarrow> seen lease = persisted lease"
  shows "pending aid (hm_retain P leases) = pending aid leases"
  using assms by (induction leases) (auto simp: hm_retain_def pending_Cons)

lemma pending_retain_le: "pending aid (hm_retain P leases) \<le> pending aid leases"
  by (induction leases) (auto simp: hm_retain_def pending_Cons)

lemma pending_purge: "pending aid (purge_leases now leases) = pending aid leases"
proof -
  have "pending aid (purge_leases now leases) = pending aid (hm_update_all (mark_timed_out now) leases)"
    unfolding purge_leases_def by (rule pending_retain) (auto intro: usage_meter.settled [OF usage_meter_axioms])
  also have "\<dots> = pending aid leases"
    by (rule pending_update_all) (simp add: mark, simp add: mark_timed_out_def)
  finally show ?thesis .
qed

lemma pending_confirm: "pending aid (confirm_leases leases) = 0"
  using pending_retain_le [of aid "\<lambda>_ lease. \<not> ls_finalPending lease" "hm_update_all AccountInvariant.settle leases"]
  unfolding confirm_leases_def pending_settled by simp

lemma pending_modify:
  assumes "hm_wf leases" and "hm_get leases k = Some lease"
    and "ls_accountId (f lease) = ls_accountId lease" "persisted (f lease) = persisted lease"
    and "persisted lease \<le> seen lease" "seen lease \<le> seen (f lease)"
  shows "pending aid (hm_modify k f leases) = pending aid leases + (if ls_accountId lease = aid then seen (f lease) - seen lease else 0)"
  using assms(1,2)
proof (induction leases)
  case (Cons e leases)
  show ?case
  proof (cases "fst e = k")
    case True
    then have "snd e = lease" using Cons.prems(2) by (cases e) (simp add: hm_get_def)
    moreover have "hm_get leases k = None" using Cons.prems(1) True by (auto simp: hm_wf_def hm_get_def map_of_eq_None_iff)
    then have "hm_modify k f leases = leases" by (rule hm_modify_absent)
    ultimately show ?thesis using True assms(3-6) by (simp add: hm_modify_def pending_Cons)
  next
    case False
    then have "hm_get leases k = Some lease" using Cons.prems(2) by (cases e) (simp add: hm_get_def)
    then have "pending aid (hm_modify k f leases) = pending aid leases + (if ls_accountId lease = aid then seen (f lease) - seen lease else 0)"
      using Cons by (simp add: hm_wf_def)
    with False show ?thesis by (simp add: hm_modify_def pending_Cons)
  qed
qed simp

lemma pending_synchronizeOne:
  assumes inv: "leases_inv U accounts leases"
  shows "pending aid (snd (synchronizeOne now p leases)) = pending aid leases + acceptedBytes seen reported aid p leases"
proof (cases "hm_get leases (pr_leaseId p)")
  case None
  then show ?thesis by (simp add: snd_synchronizeOne [OF leases_invD(1) [OF inv]] hm_modify_absent acceptedBytes_def)
next
  case (Some lease)
  have ok: "persisted lease \<le> seen lease" using within [OF leases_invD(3) [OF inv Some]] .
  have le: "seen lease \<le> seen (progress_lease now p lease)" using monotone [of lease p] by (simp add: progress)
  have acc: "ls_accountId (progress_lease now p lease) = ls_accountId lease" using narrows_progress [of lease now p] by (simp add: narrows_def)
  show ?thesis
    unfolding snd_synchronizeOne [OF leases_invD(1) [OF inv]]
      pending_modify [where f = "progress_lease now p", OF leases_invD(1) [OF inv] Some acc progress(1) ok le]
    using Some by (simp add: acceptedBytes_def progress)
qed

lemma pending_synchronizeAll:
  "leases_inv U accounts leases \<Longrightarrow>
   pending aid (snd (synchronizeAll now ps leases)) = pending aid leases + acceptedAll seen reported aid now ps leases"
proof (induction ps arbitrary: leases)
  case (Cons p ps)
  have "leases_inv U accounts (snd (synchronizeOne now p leases))"
    using narrowing.keeps_inv [OF narrowing_synchronizeOne Cons.prems] .
  then show ?case using Cons.IH pending_synchronizeOne [OF Cons.prems] by (simp only: synchronizeAll_step acceptedAll.simps)
qed simp

lemma increment_fold:
  "0 \<le> increment (hm_entry_or usage aid UsageIncrement_default) \<Longrightarrow>
   increment (hm_entry_or usage aid UsageIncrement_default) + int (pending aid leases) \<le> i64_max \<Longrightarrow>
   increment (hm_entry_or (fold addPending (map snd leases) usage) aid UsageIncrement_default) =
     increment (hm_entry_or usage aid UsageIncrement_default) + int (pending aid leases)"
proof (induction leases arbitrary: usage)
  case (Cons e leases)
  let ?lease = "snd e" and ?entry = "\<lambda>u. increment (hm_entry_or u aid UsageIncrement_default)"
  let ?delta = "if ls_accountId ?lease = aid then seen ?lease - persisted ?lease else 0"
  have small: "?entry usage + int ?delta \<le> i64_max" using Cons.prems(2) by (simp add: pending_Cons)
  have "?entry (addPending ?lease usage) = ?entry usage + int ?delta"
  proof (cases "ls_accountId ?lease = aid")
    case True
    have "i64_min \<le> 0" by (simp add: i64_min_def)
    then show ?thesis
      using addPending [of ?lease usage] no_delta [of ?lease] small Cons.prems(1) True by (simp add: i64_sat_def)
  qed (simp add: addPending_other)
  then show ?case using Cons.IH [of "addPending ?lease usage"] Cons.prems by (simp add: pending_Cons)
qed simp

lemma increment_pendingUsage:
  "int (pending aid (lr_leases state)) \<le> i64_max \<Longrightarrow>
   increment (hm_entry_or (pendingUsage state) aid UsageIncrement_default) = int (pending aid (lr_leases state))"
  using increment_fold [of "[]" aid "lr_leases state"] by (simp add: pendingUsage_def hm_entry_or_def no_increment)

lemma counterOf_fold:
  "hm_wf usage \<Longrightarrow> hm_contains (at_usageCounters db) aid \<Longrightarrow>
   counterOf counter aid (fold (applyUsageRow now) usage db) =
     counterOf counter aid db + increment (hm_entry_or usage aid UsageIncrement_default)"
proof (induction usage arbitrary: db)
  case Nil
  then show ?case by (simp add: hm_entry_or_def no_increment)
next
  case (Cons e usage)
  let ?db = "applyUsageRow now e db"
  have counters: "at_usageCounters ?db = hm_modify (fst e) (addCounters now (snd e)) (at_usageCounters db)"
    by (simp add: applyUsageRow_def Let_def split: prod.split)
  have row: "counterOf counter aid ?db = counterOf counter aid db + (if fst e = aid then increment (snd e) else 0)"
    using Cons.prems(2) by (auto simp: counterOf_def counters hm_get_modify hm_contains_def addCounters split: option.splits)
  have "hm_wf usage" and absent: "fst e = aid \<Longrightarrow> hm_get usage aid = None"
    using Cons.prems(1) by (auto simp: hm_wf_def hm_get_def map_of_eq_None_iff)
  then have "counterOf counter aid (fold (applyUsageRow now) usage ?db) =
      counterOf counter aid ?db + increment (hm_entry_or usage aid UsageIncrement_default)"
    using Cons.prems(2) by (intro Cons.IH) (simp_all add: counters)
  with row absent show ?case
    by (cases e) (auto simp: hm_entry_or_def hm_get_def no_increment)
qed

lemma synchronize_pending:
  assumes inv: "service_inv U s"
    and sync: "synchronize digest now (ds_serviceInstanceId s) request (ds_leases s) = (r, leases)"
  shows "pending aid (lr_leases leases) = pending aid (lr_leases (ds_leases s)) + newlyAccepted seen reported aid now request s"
proof -
  let ?purged = "purge_leases now (lr_leases (ds_leases s))"
  show ?thesis
  proof (cases "rq_serviceInstanceId request = ds_serviceInstanceId s \<and> hm_get (lr_batches (ds_leases s)) (rq_batchId request) = None")
    case True
    have "leases_inv U (at_accounts (ds_store s)) ?purged" by (rule purge.keeps_inv [OF service_invD(2) [OF inv]])
    note grown = pending_synchronizeAll [OF this, of aid now "rq_leases request"]
    obtain results ls where all: "synchronizeAll now (rq_leases request) ?purged = (results, ls)" by fastforce
    from synchronize_new [OF conjunct1 [OF True] conjunct2 [OF True] all refl refl, of digest] sync
    have "lr_leases leases = ls" by auto
    then show ?thesis using grown True by (simp add: all pending_purge newlyAccepted_def leases_of_ops)
  next
    case False
    then have "leases = ds_leases s" using synchronize_old [of request "ds_serviceInstanceId s" "ds_leases s" digest now] sync by simp
    then show ?thesis using False by (auto simp: newlyAccepted_def)
  qed
qed

lemma conserved:
  assumes inv: "service_inv U s" and account: "hm_contains (at_accounts (ds_store s)) aid"
    and bound: "int (pending aid (lr_leases (ds_leases s)) + newlyAccepted seen reported aid t1 request s) \<le> i64_max"
    and call: "synchronizeLeases digest f1 t1 t2 request s = (r, s')"
  shows "counterOf counter aid (ds_store s') + int (pending aid (lr_leases (ds_leases s')))
      = counterOf counter aid (ds_store s) + int (pending aid (lr_leases (ds_leases s))) + int (newlyAccepted seen reported aid t1 request s)"
    and "r = Ok response \<Longrightarrow> pending aid (lr_leases (ds_leases s')) = 0"
proof -
  obtain r0 leases where sync: "synchronize digest t1 (ds_serviceInstanceId s) request (ds_leases s) = (r0, leases)" by fastforce
  note grown = synchronize_pending [OF inv sync, of aid]
  from synchronizeLeases_shape [OF inv sync, of f1 t2] call
  have cases: "(\<forall>x. r \<noteq> Ok x) \<and> s' = s\<lparr>ds_leases := leases\<rparr>
      \<or> s' = s\<lparr>ds_leases := leases\<lparr>lr_leases := confirm_leases (lr_leases leases)\<rparr>,
                ds_store := fold (applyUsageRow t2) (pendingUsage leases) (ds_store s)\<rparr>"
    by (auto split: outcome.splits prod.splits if_splits)
  have "hm_contains (at_usageCounters (ds_store s)) aid" using account store_okD(4) [OF service_invD(1) [OF inv]] by simp
  from counterOf_fold [OF hm_wf_pendingUsage [of leases] this, of t2] increment_pendingUsage [of aid leases] bound
  have billed: "counterOf counter aid (fold (applyUsageRow t2) (pendingUsage leases) (ds_store s)) =
      counterOf counter aid (ds_store s) + int (pending aid (lr_leases leases))"
    by (simp add: grown)
  from cases show "counterOf counter aid (ds_store s') + int (pending aid (lr_leases (ds_leases s')))
      = counterOf counter aid (ds_store s) + int (pending aid (lr_leases (ds_leases s))) + int (newlyAccepted seen reported aid t1 request s)"
    by (elim disjE conjE) (simp_all add: billed pending_confirm grown)
  from cases show "pending aid (lr_leases (ds_leases s')) = 0" if "r = Ok response"
    using that by (elim disjE conjE) (simp_all add: pending_confirm)
qed

end

interpretation upload: usage_meter ls_uploadedBytes ls_persistedUploadedBytes pr_uploadedBytes ui_uploadedBytes uc_uploadedBytes
  by unfold_locales
    (auto simp: mark_timed_out_def settle_def settled_def progress_lease_def acceptProgress_def lease_ok_def UsageIncrement_default_def
      addPending_def entry_insert uploadedDelta_def addCounters_def Let_def)

interpretation download: usage_meter ls_downloadedBytes ls_persistedDownloadedBytes pr_downloadedBytes ui_downloadedBytes uc_downloadedBytes
  by unfold_locales
    (auto simp: mark_timed_out_def settle_def settled_def progress_lease_def acceptProgress_def lease_ok_def UsageIncrement_default_def
      addPending_def entry_insert downloadedDelta_def addCounters_def Let_def)


section \<open>Usage is conserved\<close>

text \<open>
  C32: a synchronisation neither loses nor invents usage, in either direction, whether or not the
  database accepts it. The counter row of an account together with the bytes still pending in its
  leases grows by exactly the bytes its reports newly add: those of a batch of this service instance
  that is not remembered, each report counted from the last known total of its lease. After a
  successful synchronisation nothing is pending. The pending bytes have to fit an \<open>i64\<close>.
\<close>

theorem usage_conserved:
  assumes "reachable_service U s" and "hm_contains (at_accounts (ds_store s)) aid"
    and "int (pendingBytes ls_uploadedBytes ls_persistedUploadedBytes aid (lr_leases (ds_leases s))
          + newlyAccepted ls_uploadedBytes pr_uploadedBytes aid t1 request s) \<le> i64_max"
    and "int (pendingBytes ls_downloadedBytes ls_persistedDownloadedBytes aid (lr_leases (ds_leases s))
          + newlyAccepted ls_downloadedBytes pr_downloadedBytes aid t1 request s) \<le> i64_max"
    and "synchronizeLeases digest f1 t1 t2 request s = (r, s')"
  shows "counterOf uc_uploadedBytes aid (ds_store s')
        + int (pendingBytes ls_uploadedBytes ls_persistedUploadedBytes aid (lr_leases (ds_leases s')))
      = counterOf uc_uploadedBytes aid (ds_store s)
        + int (pendingBytes ls_uploadedBytes ls_persistedUploadedBytes aid (lr_leases (ds_leases s)))
        + int (newlyAccepted ls_uploadedBytes pr_uploadedBytes aid t1 request s)
    \<and> counterOf uc_downloadedBytes aid (ds_store s')
        + int (pendingBytes ls_downloadedBytes ls_persistedDownloadedBytes aid (lr_leases (ds_leases s')))
      = counterOf uc_downloadedBytes aid (ds_store s)
        + int (pendingBytes ls_downloadedBytes ls_persistedDownloadedBytes aid (lr_leases (ds_leases s)))
        + int (newlyAccepted ls_downloadedBytes pr_downloadedBytes aid t1 request s)
    \<and> (\<forall>response. r = Ok response \<longrightarrow>
        pendingBytes ls_uploadedBytes ls_persistedUploadedBytes aid (lr_leases (ds_leases s')) = 0
        \<and> pendingBytes ls_downloadedBytes ls_persistedDownloadedBytes aid (lr_leases (ds_leases s')) = 0)"
proof -
  have inv: "service_inv U s" using assms(1) by (rule service.reach_inv)
  note up = upload.conserved [OF inv assms(2,3,5)] and down = download.conserved [OF inv assms(2,4,5)]
  show ?thesis by (intro conjI allI impI up down)
qed

definition sample_report :: LeaseSynchronizationRequest where
  "sample_report = \<lparr>rq_serviceInstanceId = lit ''S'', rq_batchId = lit ''B'',
     rq_leases = [\<lparr>pr_leaseId = lit ''L'', pr_connectionId = lit ''C'', pr_uploadedBytes = 10, pr_downloadedBytes = 7, pr_final = False\<rparr>]\<rparr>"

definition sample_failed :: "LeaseSynchronizationResponse service_result \<times> nat AccountDomain" where
  "sample_failed = synchronizeLeases (\<lambda>_. 3) True 7 7 sample_report sample_online"

definition sample_lease :: LeaseState where
  "sample_lease =
     \<lparr>ls_leaseId = lit ''L'', ls_accountId = lit ''A'', ls_connectionId = lit ''C'', ls_sourceIp = lit ''1.2.3.4'',
      ls_createdAt = 6, ls_lastHeartbeatAt = 6, ls_policy = sample_policy, ls_policyRevision = 1, ls_uploadedBytes = 0,
      ls_downloadedBytes = 0, ls_uploadBytesPerSecond = 0, ls_downloadBytesPerSecond = 0, ls_rateObservedAt = 6,
      ls_persistedUploadedBytes = 0, ls_persistedDownloadedBytes = 0, ls_finalPending = False, ls_revoked = False\<rparr>"

lemma sample_online_leases:
  "lr_leases (ds_leases sample_online) = [(lit ''L'', sample_lease)]"
  "lr_leases (purgeExpiredLeases 7 (ds_leases sample_online)) = [(lit ''L'', sample_lease)]"
  by code_simp+

lemma sample_online_rest:
  "hm_contains (at_accounts (ds_store sample_online)) (lit ''A'')" "lr_batches (ds_leases sample_online) = []"
  "ds_serviceInstanceId sample_online = lit ''S''" "counterOf uc_uploadedBytes (lit ''A'') (ds_store sample_online) = 0"
  by code_simp+

lemma sample_report_values:
  "pendingBytes ls_uploadedBytes ls_persistedUploadedBytes (lit ''A'') (lr_leases (ds_leases sample_online)) = 0"
  "pendingBytes ls_downloadedBytes ls_persistedDownloadedBytes (lit ''A'') (lr_leases (ds_leases sample_online)) = 0"
  "newlyAccepted ls_uploadedBytes pr_uploadedBytes (lit ''A'') 7 sample_report sample_online = 10"
  "newlyAccepted ls_downloadedBytes pr_downloadedBytes (lit ''A'') 7 sample_report sample_online = 7"
  by (simp_all add: pendingBytes_def newlyAccepted_def acceptedBytes_def sample_online_leases sample_online_rest sample_lease_def
      sample_report_def hm_get_def)

theorem usage_conserved_witness:
  "counterOf uc_uploadedBytes (lit ''A'') (ds_store (snd sample_failed))
     + int (pendingBytes ls_uploadedBytes ls_persistedUploadedBytes (lit ''A'') (lr_leases (ds_leases (snd sample_failed)))) = 10"
proof -
  have bounds: "int (pendingBytes ls_uploadedBytes ls_persistedUploadedBytes (lit ''A'') (lr_leases (ds_leases sample_online))
        + newlyAccepted ls_uploadedBytes pr_uploadedBytes (lit ''A'') 7 sample_report sample_online) \<le> i64_max"
    "int (pendingBytes ls_downloadedBytes ls_persistedDownloadedBytes (lit ''A'') (lr_leases (ds_leases sample_online))
        + newlyAccepted ls_downloadedBytes pr_downloadedBytes (lit ''A'') 7 sample_report sample_online) \<le> i64_max"
    by (simp_all add: sample_report_values i64_max_def)
  have "synchronizeLeases (\<lambda>_. 3) True 7 7 sample_report sample_online = (fst sample_failed, snd sample_failed)"
    by (simp add: sample_failed_def)
  from usage_conserved [OF reachable_sample_online sample_online_rest(1) bounds this] show ?thesis
    by (simp add: sample_report_values sample_online_rest)
qed

section \<open>Batches are idempotent\<close>

lemma confirm_twice: "confirm_leases (confirm_leases leases) = confirm_leases leases"
  by (induction leases) (auto simp: confirm_leases_def hm_retain_def hm_update_all_def settle_def)

lemma pendingUsage_confirmed:
  assumes "lr_leases state = confirm_leases leases"
  shows "pendingUsage state = []"
proof -
  have "addPending (settle lease) usage = usage" for lease usage
    by (simp add: addPending_def uploadedDelta_def downloadedDelta_def settle_def)
  then have "fold addPending (map snd (confirm_leases leases)) usage = usage" for usage
    by (induction leases arbitrary: usage) (simp_all add: confirm_leases_def hm_retain_def hm_update_all_def)
  then show ?thesis by (simp add: pendingUsage_def assms)
qed

lemma synchronize_remembers:
  assumes sync: "synchronize digest now sid request state = (Ok (response, usage), leases)"
  shows "hm_get (lr_batches leases) (rq_batchId request) = Some \<lparr>br_requestDigest = digest request, br_response = response\<rparr>
    \<and> rq_serviceInstanceId request = sid"
proof (cases "rq_serviceInstanceId request = sid \<and> hm_get (lr_batches state) (rq_batchId request) = None")
  case True
  obtain results ls where "synchronizeAll now (rq_leases request) (purge_leases now (lr_leases state)) = (results, ls)" by fastforce
  from synchronize_new [OF conjunct1 [OF True] conjunct2 [OF True] this refl refl, of digest] sync True
  show ?thesis by (auto simp: rememberBatch_def Let_def hm_get_insert)
next
  case False
  with sync obtain batch where "hm_get (lr_batches state) (rq_batchId request) = Some batch" "br_requestDigest batch = digest request"
    "br_response batch = response" "leases = state" "rq_serviceInstanceId request = sid"
    by (auto simp: synchronize_def split: if_splits option.splits)
  then show ?thesis by (cases batch) simp
qed

lemma synchronize_known:
  assumes "hm_get (lr_batches state) (rq_batchId request) = Some batch" and "rq_serviceInstanceId request = sid"
  shows "synchronize digest now sid request state =
    (if br_requestDigest batch = digest request then Ok (br_response batch, pendingUsage state)
     else Err (StateConflict BatchContentChanged), state)"
  using assms by (simp add: synchronize_def)


lemma synchronizeLeases_known:
  assumes "service_inv U s" and "hm_get (lr_batches (ds_leases s)) (rq_batchId request) = Some batch"
    and "rq_serviceInstanceId request = ds_serviceInstanceId s"
  shows "synchronizeLeases digest f1 t1 t2 request s =
    (if br_requestDigest batch \<noteq> digest request then (Err (StateConflict BatchContentChanged), s)
     else if f1 \<and> pendingUsage (ds_leases s) \<noteq> [] then (Err Database, s)
     else (Ok (br_response batch), s\<lparr>ds_leases := (ds_leases s)\<lparr>lr_leases := confirm_leases (lr_leases (ds_leases s))\<rparr>,
             ds_store := fold (applyUsageRow t2) (pendingUsage (ds_leases s)) (ds_store s)\<rparr>))"
  using synchronizeLeases_shape [OF assms(1) synchronize_known [where digest = digest and now = t1, OF assms(2,3)], of f1 t2]
  by (cases "br_requestDigest batch = digest request") simp_all

text \<open>
  C33: a synchronisation batch is applied once. Repeating an acknowledged request returns the same
  response and changes nothing, even if the database would fail. Repeating a request whose commit
  failed completes it: the result and the final state are those of an undisturbed first call. Another
  request under a remembered batch identifier is refused and changes nothing.
\<close>

theorem batch_replay:
  assumes reach: "reachable_service U s" and call: "synchronizeLeases digest f1 t1 t2 request s = (r, s')"
  shows "(\<forall>response. r = Ok response \<longrightarrow>
        synchronizeLeases digest f3 t3 t4 request s' = (Ok response, s')
        \<and> (rq_batchId other = rq_batchId request \<and> rq_serviceInstanceId other = rq_serviceInstanceId request
             \<and> digest other \<noteq> digest request \<longrightarrow>
           synchronizeLeases digest f3 t3 t4 other s' = (Err (StateConflict BatchContentChanged), s')))
    \<and> (r = Err Database \<longrightarrow>
        synchronizeLeases digest False t3 t4 request s' = synchronizeLeases digest False t1 t4 request s)"
proof -
  have inv: "service_inv U s" using reach by (rule service.reach_inv)
  have inv': "service_inv U s'" using synchronizeLeases_inv [OF inv, of digest f1 t1 t2 request] call by simp
  obtain r0 leases where sync: "synchronize digest t1 (ds_serviceInstanceId s) request (ds_leases s) = (r0, leases)" by fastforce
  note shape = synchronizeLeases_shape [OF inv sync]
  show ?thesis
  proof (cases r0)
    case (Ok a)
    obtain response0 usage where a: "a = (response0, usage)" by fastforce
    define batch where "batch = \<lparr>br_requestDigest = digest request, br_response = response0\<rparr>"
    from synchronize_remembers [of digest t1 "ds_serviceInstanceId s" request "ds_leases s"] sync Ok a
    have known: "hm_get (lr_batches leases) (rq_batchId request) = Some batch" and sid: "rq_serviceInstanceId request = ds_serviceInstanceId s"
      by (auto simp: batch_def)
    show ?thesis
    proof (cases "f1 \<and> pendingUsage leases \<noteq> []")
      case True
      with shape [of f1 t2] call Ok a have r: "r = Err Database" and s': "s' = s\<lparr>ds_leases := leases\<rparr>" by auto
      have "synchronizeLeases digest False t3 t4 request s' = synchronizeLeases digest False t1 t4 request s"
        using synchronizeLeases_known [OF inv', of request batch digest False t3 t4] known sid shape [of False t4] Ok a
        by (simp add: s' batch_def)
      then show ?thesis using r by simp
    next
      case False
      let ?db = "fold (applyUsageRow t2) (pendingUsage leases) (ds_store s)"
      from False shape [of f1 t2] call Ok a have r: "r = Ok response0"
        and s': "s' = s\<lparr>ds_leases := leases\<lparr>lr_leases := confirm_leases (lr_leases leases)\<rparr>, ds_store := ?db\<rparr>"
        by auto
      have idle: "pendingUsage (ds_leases s') = []" by (rule pendingUsage_confirmed [where leases = "lr_leases leases"]) (simp add: s')
      have same: "s'\<lparr>ds_leases := (ds_leases s')\<lparr>lr_leases := confirm_leases (lr_leases (ds_leases s'))\<rparr>, ds_store := ds_store s'\<rparr> = s'"
        by (simp add: s' confirm_twice)
      have replay: "synchronizeLeases digest f3 t3 t4 q s' =
          (if digest q = digest request then (Ok response0, s') else (Err (StateConflict BatchContentChanged), s'))"
        if "rq_batchId q = rq_batchId request" "rq_serviceInstanceId q = rq_serviceInstanceId request" for q
      proof -
        have "hm_get (lr_batches (ds_leases s')) (rq_batchId q) = Some batch" using known that(1) by (simp add: s')
        moreover have "rq_serviceInstanceId q = ds_serviceInstanceId s'" using sid that(2) by (simp add: s')
        ultimately show ?thesis
          using synchronizeLeases_known [OF inv', of q batch digest f3 t3 t4] same by (simp add: idle batch_def)
      qed
      show ?thesis using replay [of request] replay [of other] r by simp
    qed
  qed (use shape [of f1 t2] call sync in \<open>auto simp: synchronize_def Let_def split: if_splits option.splits prod.splits\<close>)
qed


lemma sample_failed_result: "fst sample_failed = Err Database"
proof -
  have inv: "service_inv {} sample_online" using reachable_sample_online by (rule service.reach_inv)
  obtain results ls where all: "synchronizeAll 7 (rq_leases sample_report) (purge_leases 7 (lr_leases (ds_leases sample_online))) = (results, ls)"
    by fastforce
  have new: "rq_serviceInstanceId sample_report = ds_serviceInstanceId sample_online"
    "hm_get (lr_batches (ds_leases sample_online)) (rq_batchId sample_report) = None"
    by (simp_all add: sample_report_def sample_online_rest)
  then obtain response usage leases
    where sync: "synchronize (\<lambda>_. 3) 7 (ds_serviceInstanceId sample_online) sample_report (ds_leases sample_online) = (Ok (response, usage), leases)"
    using synchronize_new [OF new all refl refl, of "\<lambda>_. 3"] by blast
  have "pendingBytes ls_uploadedBytes ls_persistedUploadedBytes (lit ''A'') (lr_leases leases) = 10"
    using upload.synchronize_pending [OF inv sync, of "lit ''A''"] by (simp add: sample_report_values)
  then have "ui_uploadedBytes (hm_entry_or (pendingUsage leases) (lit ''A'') UsageIncrement_default) = 10"
    using upload.increment_pendingUsage [of "lit ''A''" leases] by (simp add: i64_max_def)
  then have "pendingUsage leases \<noteq> []" by (auto simp: hm_entry_or_def UsageIncrement_default_def)
  then show ?thesis using synchronizeLeases_shape [OF inv sync, of True 7] by (simp add: sample_failed_def)
qed

theorem batch_replay_witness:
  "fst sample_failed = Err Database
   \<and> synchronizeLeases (\<lambda>_. 3) False 8 8 sample_report (snd sample_failed) = synchronizeLeases (\<lambda>_. 3) False 7 8 sample_report sample_online"
proof -
  have "synchronizeLeases (\<lambda>_. 3) True 7 7 sample_report sample_online = (fst sample_failed, snd sample_failed)"
    by (simp add: sample_failed_def)
  from batch_replay [OF reachable_sample_online this, of False 8 8 sample_report] sample_failed_result show ?thesis by simp
qed

end
