(* ===== verification/AccountAccess.thy ===== *)
theory AccountAccess
  imports AccountUsage
begin

text \<open>
  Who gets a lease, and what a management request with a stale revision may change: the decision of
  \<open>authenticateLease\<close> stated over the stored account, its policy and the active leases, and the
  all-or-nothing behaviour of the batch operations.
\<close>

section \<open>Authentication\<close>

definition credentials_ok :: "password_check \<Rightarrow> StoredAccount \<Rightarrow> str \<Rightarrow> bool" where
  "credentials_ok verify account password \<longleftrightarrow> password \<noteq> [] \<and>
     (case ac_passwordHash account of
        None \<Rightarrow> ac_passwordSalt account = None
      | Some hash \<Rightarrow> (case ac_passwordSalt account of None \<Rightarrow> False | Some salt \<Rightarrow> verify password hash salt))"

definition has_room :: "AccountPolicy \<Rightarrow> str \<Rightarrow> str list \<Rightarrow> bool" where
  "has_room policy ip ips \<longleftrightarrow>
     (0 < ap_maxConnections policy \<longrightarrow> length ips < nat (ap_maxConnections policy))
     \<and> (0 < ap_maxOnlineIps policy \<longrightarrow> ip \<in> set ips \<or> length (remdups ips) < nat (ap_maxOnlineIps policy))"

definition admitted :: "password_check \<Rightarrow> int \<Rightarrow> int \<Rightarrow> LeaseAuthenticationRequest \<Rightarrow> 'd AccountDomain \<Rightarrow> StoredAccount \<Rightarrow> str \<Rightarrow> bool" where
  "admitted verify t1 t2 request s account ip \<longleftrightarrow>
     hm_get (at_accounts (ds_store s)) (ac_accountId account) = Some account \<and> ac_username account = la_username request
     \<and> credentials_ok verify account (la_password request)
     \<and> \<not> disabled (ac_policy account) \<and> \<not> expired (ac_policy account) t1
     \<and> normalizeSourceIp (la_sourceIp request) = Ok ip
     \<and> has_room (ac_policy account) ip
         (map ls_sourceIp (activeLeases (ac_accountId account) (purgeExpiredLeases t2 (ds_leases s))))"

definition grantFor :: "str \<Rightarrow> str \<Rightarrow> StoredAccount \<Rightarrow> LeaseAuthenticationResponse" where
  "grantFor instanceId leaseId account =
     \<lparr>lg_serviceInstanceId = instanceId, lg_accountId = ac_accountId account, lg_leaseId = leaseId,
      lg_username = ac_username account, lg_policyRevision = ac_policyRevision account,
      lg_maxUploadBytesPerSecond = ap_maxUploadBytesPerSecond (ac_policy account),
      lg_maxDownloadBytesPerSecond = ap_maxDownloadBytesPerSecond (ac_policy account)\<rparr>"

lemma validate_decides:
  "validateAccountAuthentication verify account password now =
     (if credentials_ok verify account password \<and> \<not> disabled (ac_policy account) \<and> \<not> expired (ac_policy account) now
      then Ok () else Err SocksAuthenticationFailed)"
  by (auto simp: validateAccountAuthentication_def credentials_ok_def split: option.splits)

lemma accountByUsername_unique:
  assumes ok: "store_ok db" and got: "hm_get (at_accounts db) k = Some account" and name: "ac_username account = name"
  shows "accountByUsername False name db = Ok (Some account)"
proof -
  have inj: "inj_on (ac_username \<circ> snd) (set (at_accounts db))" using ok by (simp add: store_ok_def distinct_map)
  have mem: "(k, account) \<in> set (at_accounts db)" using got by (rule hm_get_Some_in_set)
  then obtain found where find: "find (\<lambda>a. ac_username a = name) (map snd (at_accounts db)) = Some found"
    using name by (cases "find (\<lambda>a. ac_username a = name) (map snd (at_accounts db))") (auto simp: find_None_iff)
  then have "found \<in> snd ` set (at_accounts db)" "ac_username found = name" by (auto simp: find_Some_iff)
  then obtain k' where "(k', found) \<in> set (at_accounts db)" by auto
  with inj_onD [OF inj _ this mem] \<open>ac_username found = name\<close> name have "found = account" by simp
  with find show ?thesis by (simp add: accountByUsername_def)
qed

lemma createLease_decides:
  assumes ip: "normalizeSourceIp (la_sourceIp request) = Ok ip"
  shows "createLease now l account request state =
    (let purged = purgeExpiredLeases now state in
     if has_room (ac_policy account) ip (map ls_sourceIp (activeLeases (ac_accountId account) purged))
     then (Ok l, purged\<lparr>lr_leases := hm_insert l (newLease now l ip account request) (lr_leases purged)\<rparr>)
     else (Err SocksAuthenticationFailed, purged))"
  using ip by (auto simp: createLease_def Let_def has_room_def onlineIps_def not_less not_le)

lemma normalizeSourceIp_error: "normalizeSourceIp x \<noteq> Panic \<and> (normalizeSourceIp x = Err e \<longrightarrow> e = Validation SourceIpInvalid)"
  by (auto simp: normalizeSourceIp_def split: option.splits IpAddr.splits)

lemma applyUsage_existing:
  "hm_contains (at_accounts db) k \<Longrightarrow> fst (applyUsage False now [(k, usage)] db) = Ok ()"
  by (simp add: applyUsage_def)

lemma authenticateLease_account:
  assumes found: "accountByUsername False (la_username request) (ds_store s) = Ok (Some account)"
    and stored: "hm_get (at_accounts (ds_store s)) (ac_accountId account) = Some account"
  shows "authenticateLease verify False False t1 t2 t3 leaseId request s =
    (let rejected = snd (applyUsage False t2 [(ac_accountId account, UsageIncrement_default\<lparr>ui_rejectedAuthentications := 1\<rparr>)] (ds_store s));
         accepted = snd (applyUsage False t3 [(ac_accountId account, UsageIncrement_default\<lparr>ui_acceptedConnections := 1\<rparr>)] (ds_store s));
         lease = createLease t2 leaseId account request (ds_leases s)
     in case validateAccountAuthentication verify account (la_password request) t1 of
          Ok _ \<Rightarrow> (case fst lease of
             Ok l \<Rightarrow> (Ok (grantFor (ds_serviceInstanceId s) l account), s\<lparr>ds_leases := snd lease, ds_store := accepted\<rparr>)
           | Err e \<Rightarrow> (Err e, s\<lparr>ds_leases := snd lease\<rparr>)
           | Panic \<Rightarrow> (Panic, s\<lparr>ds_leases := snd lease\<rparr>))
        | Err e \<Rightarrow> (Err e, s\<lparr>ds_store := rejected\<rparr>)
        | Panic \<Rightarrow> (Panic, s))"
proof -
  have exists: "hm_contains (at_accounts (ds_store s)) (ac_accountId account)" using stored by (simp add: hm_contains_def)
  obtain rejected where rejected: "applyUsage False t2 [(ac_accountId account, UsageIncrement_default\<lparr>ui_rejectedAuthentications := 1\<rparr>)] (ds_store s) = (Ok (), rejected)"
    using applyUsage_existing [OF exists] by (metis prod.collapse)
  obtain accepted where accepted: "applyUsage False t3 [(ac_accountId account, UsageIncrement_default\<lparr>ui_acceptedConnections := 1\<rparr>)] (ds_store s) = (Ok (), accepted)"
    using applyUsage_existing [OF exists] by (metis prod.collapse)
  obtain r leases where lease: "createLease t2 leaseId account request (ds_leases s) = (r, leases)" by fastforce
  show ?thesis
    by (simp add: authenticateLease_def found Let_def grantFor_def lease rejected accepted split: outcome.split)
qed


lemma purged_absent:
  "leases_inv U accounts (lr_leases state) \<Longrightarrow> hm_get (lr_leases state) l = None \<Longrightarrow> hm_get (lr_leases (purgeExpiredLeases now state)) l = None"
  unfolding lr_leases_purge by (rule purge_absent [OF leases_invD(1)])

lemma createLease_refused:
  assumes "leases_inv U accounts (lr_leases state)" and "hm_get (lr_leases state) l = None"
    and "fst (createLease now l account request state) = Err e"
  shows "hm_get (lr_leases (snd (createLease now l account request state))) l = None
    \<and> (e = SocksAuthenticationFailed \<or> e = Validation SourceIpInvalid)"
proof (cases "normalizeSourceIp (la_sourceIp request)")
  case (Ok ip)
  then show ?thesis using assms purged_absent [OF assms(1,2)] by (auto simp: createLease_decides Let_def split: if_splits)
qed (use assms normalizeSourceIp_error in \<open>auto simp: createLease_def\<close>)

text \<open>
  C34: when the database works, a request obtains a lease exactly when its user name is that of a stored
  account, the account accepts the password, is neither disabled nor expired, the source address is
  valid, and the unexpired active leases leave room for one more connection and for its address. The
  grant and the new lease then carry the account's current policy. Every refusal is one of the two
  refusal codes and leaves no lease behind.
\<close>

theorem authenticateLease_decides:
  assumes reach: "reachable_service U s" and fresh: "hm_get (lr_leases (ds_leases s)) leaseId = None"
    and call: "authenticateLease verify False False t1 t2 t3 leaseId request s = (r, s')"
  shows "(\<forall>account ip. admitted verify t1 t2 request s account ip \<longrightarrow>
        r = Ok (grantFor (ds_serviceInstanceId s) leaseId account)
        \<and> hm_get (lr_leases (ds_leases s')) leaseId = Some (newLease t2 leaseId ip account request))
    \<and> ((\<nexists>account ip. admitted verify t1 t2 request s account ip) \<longrightarrow>
        (r = Err SocksAuthenticationFailed \<or> r = Err (Validation SourceIpInvalid))
        \<and> hm_get (lr_leases (ds_leases s')) leaseId = None)"
proof -
  have inv: "service_inv U s" using reach by (rule service.reach_inv)
  note i = service_invD [OF inv]
  have "r = Ok (grantFor (ds_serviceInstanceId s) leaseId account)
      \<and> hm_get (lr_leases (ds_leases s')) leaseId = Some (newLease t2 leaseId ip account request)"
    if admitted: "admitted verify t1 t2 request s account ip" for account ip
  proof -
    from admitted have stored: "hm_get (at_accounts (ds_store s)) (ac_accountId account) = Some account"
      and found: "accountByUsername False (la_username request) (ds_store s) = Ok (Some account)"
      and valid: "validateAccountAuthentication verify account (la_password request) t1 = Ok ()"
      and ip: "normalizeSourceIp (la_sourceIp request) = Ok ip"
      and room: "has_room (ac_policy account) ip (map ls_sourceIp (activeLeases (ac_accountId account) (purgeExpiredLeases t2 (ds_leases s))))"
      using accountByUsername_unique [OF i(1)] by (auto simp: admitted_def validate_decides)
    from call show ?thesis
      unfolding authenticateLease_account [OF found stored] Let_def
      by (auto simp: valid createLease_decides [OF ip] room hm_get_insert Let_def)
  qed
  moreover have "(r = Err SocksAuthenticationFailed \<or> r = Err (Validation SourceIpInvalid)) \<and> hm_get (lr_leases (ds_leases s')) leaseId = None"
    if none: "\<nexists>account ip. admitted verify t1 t2 request s account ip"
  proof (cases "accountByUsername False (la_username request) (ds_store s) = Ok None")
    case True
    then show ?thesis using call fresh by (auto simp: authenticateLease_def)
  next
    case False
    then obtain account where found: "accountByUsername False (la_username request) (ds_store s) = Ok (Some account)"
      by (auto simp: accountByUsername_def)
    note stored = accountByUsername_stored [OF i(1) found]
    note shape = authenticateLease_account [OF found conjunct1 [OF stored], of verify t1 t2 t3 leaseId]
    let ?lease = "createLease t2 leaseId account request (ds_leases s)"
    show ?thesis
    proof (cases "validateAccountAuthentication verify account (la_password request) t1 = Ok ()")
      case False
      then show ?thesis using call fresh unfolding shape Let_def by (auto simp: validate_decides split: if_splits)
    next
      case True
      have refused: "\<exists>e. fst ?lease = Err e"
      proof (cases "normalizeSourceIp (la_sourceIp request)")
        case (Ok ip)
        with none stored True have "\<not> has_room (ac_policy account) ip (map ls_sourceIp (activeLeases (ac_accountId account) (purgeExpiredLeases t2 (ds_leases s))))"
          by (auto simp: admitted_def validate_decides split: if_splits)
        then show ?thesis by (simp add: createLease_decides [OF Ok] Let_def)
      qed (use normalizeSourceIp_error in \<open>auto simp: createLease_def\<close>)
      then obtain e where e: "fst ?lease = Err e" by blast
      then show ?thesis
        using call createLease_refused [OF i(2) fresh e] True unfolding shape Let_def by auto
    qed
  qed
  ultimately show ?thesis by blast
qed

theorem authenticateLease_decides_witness:
  "\<exists>lease. hm_get (lr_leases (ds_leases sample_online)) (lit ''L'') = Some lease \<and> ls_policy lease = sample_policy"
proof -
  define outcome where "outcome = authenticateLease (\<lambda>_ _ _. False) False False 6 6 6 (lit ''L'') sample_login sample_service"
  have fresh: "hm_get (lr_leases (ds_leases sample_service)) (lit ''L'') = None" by code_simp
  have "fst outcome \<noteq> Err SocksAuthenticationFailed" "fst outcome \<noteq> Err (Validation SourceIpInvalid)" unfolding outcome_def by code_simp+
  moreover have "authenticateLease (\<lambda>_ _ _. False) False False 6 6 6 (lit ''L'') sample_login sample_service = (fst outcome, sample_online)"
    by (simp add: outcome_def sample_online_def)
  note decided = authenticateLease_decides [OF reachable_sample_service fresh this]
  ultimately obtain account ip where admitted: "admitted (\<lambda>_ _ _. False) 6 6 sample_login sample_service account ip" by blast
  with decided have "hm_get (lr_leases (ds_leases sample_online)) (lit ''L'') = Some (newLease 6 (lit ''L'') ip account sample_login)" by blast
  moreover have "list_all (\<lambda>e. ac_policy (snd e) = sample_policy) (at_accounts (ds_store sample_service))" by code_simp
  moreover have "(ac_accountId account, account) \<in> set (at_accounts (ds_store sample_service))"
    using admitted by (auto simp: admitted_def intro: hm_get_Some_in_set)
  ultimately have "ac_policy account = sample_policy"
    "hm_get (lr_leases (ds_leases sample_online)) (lit ''L'') = Some (newLease 6 (lit ''L'') ip account sample_login)"
    by (auto simp: list_all_iff)
  then show ?thesis by (auto simp: newLease_def)
qed


section \<open>Optimistic concurrency\<close>

definition current_revision :: "AccountStore \<Rightarrow> BatchAccountSelection \<Rightarrow> bool" where
  "current_revision db selection =
     (case hm_get (at_accounts db) (bs_accountId selection) of
        None \<Rightarrow> False
      | Some account \<Rightarrow> ac_policyRevision account = bs_policyRevision selection)"

lemma checkRevisions_Ok: "checkRevisions selections db = Ok u \<longleftrightarrow> list_all (current_revision db) selections"
  by (induction selections) (auto simp: current_revision_def split: option.split)

lemma validateBatchSelections_distinct: "validateBatchSelections selections = Ok u \<Longrightarrow> distinct (map bs_accountId selections)"
  by (simp add: validateBatchSelections_def split: if_splits)

text \<open>What a batch update asks for: the stated limits, and a later expiry for accounts that expire at all.\<close>

definition requested_policy :: "BatchUpdateAccountsRequest \<Rightarrow> AccountPolicy \<Rightarrow> AccountPolicy" where
  "requested_policy request p =
     \<lparr>ap_maxUploadBytesPerSecond = (case bu_maxUploadBytesPerSecond request of None \<Rightarrow> ap_maxUploadBytesPerSecond p | Some v \<Rightarrow> v),
      ap_maxDownloadBytesPerSecond = (case bu_maxDownloadBytesPerSecond request of None \<Rightarrow> ap_maxDownloadBytesPerSecond p | Some v \<Rightarrow> v),
      ap_maxConnections = (case bu_maxConnections request of None \<Rightarrow> ap_maxConnections p | Some v \<Rightarrow> v),
      ap_maxOnlineIps = (case bu_maxOnlineIps request of None \<Rightarrow> ap_maxOnlineIps p | Some v \<Rightarrow> v),
      ap_expiresAt = (case bu_extendByMilliseconds request of None \<Rightarrow> ap_expiresAt p
         | Some extension \<Rightarrow> if 0 < ap_expiresAt p then ap_expiresAt p + extension else ap_expiresAt p)\<rparr>"

definition expiry_fits :: "BatchUpdateAccountsRequest \<Rightarrow> AccountPolicy \<Rightarrow> bool" where
  "expiry_fits request p \<longleftrightarrow> bu_extendByMilliseconds request = None \<or> ap_expiresAt p \<le> 0 \<or> ap_expiresAt (requested_policy request p) \<le> i64_max"

text \<open>The row after the update: unchanged where the request changes nothing, otherwise with the next revision.\<close>

definition batch_revised :: "int \<Rightarrow> BatchUpdateAccountsRequest \<Rightarrow> StoredAccount \<Rightarrow> StoredAccount" where
  "batch_revised now request account =
     (if requested_policy request (ac_policy account) = ac_policy account then account
      else account\<lparr>ac_policy := requested_policy request (ac_policy account),
                   ac_policyRevision := i64_sat (ac_policyRevision account + 1), ac_updatedAt := now\<rparr>)"

definition batch_changes :: "BatchUpdateAccountsRequest \<Rightarrow> AccountStore \<Rightarrow> BatchAccountSelection \<Rightarrow> bool" where
  "batch_changes request db selection =
     (case hm_get (at_accounts db) (bs_accountId selection) of None \<Rightarrow> False
      | Some account \<Rightarrow> requested_policy request (ac_policy account) \<noteq> ac_policy account)"

definition row_accepts :: "BatchUpdateAccountsRequest \<Rightarrow> AccountStore \<Rightarrow> BatchAccountSelection \<Rightarrow> bool" where
  "row_accepts request db selection =
     (case hm_get (at_accounts db) (bs_accountId selection) of None \<Rightarrow> False
      | Some account \<Rightarrow> ac_policyRevision account = bs_policyRevision selection \<and> expiry_fits request (ac_policy account)
          \<and> (requested_policy request (ac_policy account) \<noteq> ac_policy account \<longrightarrow>
               validatePolicy (requested_policy request (ac_policy account)) = Ok ()))"

definition batch_accepts :: "BatchUpdateAccountsRequest \<Rightarrow> AccountStore \<Rightarrow> bool" where
  "batch_accepts request db \<longleftrightarrow> validateBatchSelections (bu_accounts request) = Ok () \<and> validateBatchMutation request = Ok ()
     \<and> list_all (row_accepts request db) (bu_accounts request)"

lemma applyBatchPolicy_spec:
  "applyBatchPolicy p request = (if expiry_fits request p then Ok (requested_policy request p \<noteq> p, requested_policy request p)
     else Err (Validation ExtensionOverflow))"
  by (cases "bu_maxOnlineIps request"; cases "bu_maxConnections request"; cases "bu_maxUploadBytesPerSecond request";
      cases "bu_maxDownloadBytesPerSecond request"; cases "bu_extendByMilliseconds request"; cases p)
    (auto simp: applyBatchPolicy_def requested_policy_def expiry_fits_def Let_def)

lemma batchUpdateOne_decides:
  assumes ok: "store_ok db"
  shows "if row_accepts request db selection
    then \<exists>account db'. hm_get (at_accounts db) (bs_accountId selection) = Some account
      \<and> batchUpdateOne now request selection db = Ok (batch_revised now request account, if batch_changes request db selection then 1 else 0, db')
      \<and> store_ok db' \<and> hm_get (at_accounts db') = (hm_get (at_accounts db))(bs_accountId selection \<mapsto> batch_revised now request account)
    else \<forall>x. batchUpdateOne now request selection db \<noteq> Ok x"
proof (cases "hm_get (at_accounts db) (bs_accountId selection)")
  case None
  then show ?thesis by (simp add: row_accepts_def batchUpdateOne_def)
next
  case (Some account)
  have aid: "ac_accountId account = bs_accountId selection" by (rule store_okD(3) [OF ok Some])
  show ?thesis
  proof (cases "row_accepts request db selection")
    case False
    then have "batchUpdateOne now request selection db \<noteq> Ok x" for x
      using Some by (auto simp: batchUpdateOne_def row_accepts_def applyBatchPolicy_spec and_then_Ok split: if_splits)
    with False show ?thesis by simp
  next
    case True
    then have "\<exists>db'. batchUpdateOne now request selection db = Ok (batch_revised now request account, if batch_changes request db selection then 1 else 0, db')"
      using Some by (auto simp: batchUpdateOne_def row_accepts_def applyBatchPolicy_spec batch_revised_def batch_changes_def Let_def)
    then obtain db' where one: "batchUpdateOne now request selection db = Ok (batch_revised now request account, if batch_changes request db selection then 1 else 0, db')"
      by blast
    have "ac_accountId (batch_revised now request account) = bs_accountId selection" by (simp add: batch_revised_def aid)
    with batchUpdateOne_writes [OF one ok]
    have "store_ok db'" "hm_get (at_accounts db') = (hm_get (at_accounts db))(bs_accountId selection \<mapsto> batch_revised now request account)"
      by (simp_all add: hm_get_insert)
    with one Some True show ?thesis by simp
  qed
qed

lemma batchUpdateLoop_decides:
  "store_ok db \<Longrightarrow> distinct (map bs_accountId selections) \<Longrightarrow>
   if list_all (row_accepts request db) selections
   then \<exists>accounts db'. batchUpdateLoop now request selections db = Ok (accounts, length (filter (batch_changes request db) selections), db')
     \<and> length accounts = length selections
     \<and> hm_get (at_accounts db') = (\<lambda>k. if k \<in> set (map bs_accountId selections)
          then map_option (batch_revised now request) (hm_get (at_accounts db) k) else hm_get (at_accounts db) k)
   else \<forall>x. batchUpdateLoop now request selections db \<noteq> Ok x"
proof (induction selections arbitrary: db)
  case (Cons selection selections)
  note one = batchUpdateOne_decides [OF Cons.prems(1), of request selection now]
  show ?case
  proof (cases "row_accepts request db selection")
    case False
    then show ?thesis using one by (auto simp: and_then_Ok)
  next
    case True
    with one obtain account mid where account: "hm_get (at_accounts db) (bs_accountId selection) = Some account"
      and run: "batchUpdateOne now request selection db = Ok (batch_revised now request account, if batch_changes request db selection then 1 else 0, mid)"
      and ok: "store_ok mid" and mid: "hm_get (at_accounts mid) = (hm_get (at_accounts db))(bs_accountId selection \<mapsto> batch_revised now request account)"
      by auto
    have "bs_accountId sel \<noteq> bs_accountId selection" if "sel \<in> set selections" for sel using imageI [OF that, of bs_accountId] Cons.prems(2) by auto
    then have same: "row_accepts request mid sel = row_accepts request db sel" "batch_changes request mid sel = batch_changes request db sel"
      if "sel \<in> set selections" for sel using that by (simp_all add: row_accepts_def batch_changes_def mid)
    have all: "list_all (row_accepts request mid) selections = list_all (row_accepts request db) selections"
      "filter (batch_changes request mid) selections = filter (batch_changes request db) selections"
      using same by (auto simp: list_all_iff intro: filter_cong)
    have "distinct (map bs_accountId selections)" using Cons.prems(2) by simp
    note rest = Cons.IH [OF ok this]
    show ?thesis
    proof (cases "list_all (row_accepts request db) selections")
      case False
      then show ?thesis using rest all(1) run by (auto simp: and_then_Ok)
    next
      case rows: True
      with rest all obtain accounts db' where
        loop: "batchUpdateLoop now request selections mid = Ok (accounts, length (filter (batch_changes request db) selections), db')"
        and len: "length accounts = length selections" and table: "hm_get (at_accounts db') = (\<lambda>k. if k \<in> set (map bs_accountId selections)
          then map_option (batch_revised now request) (hm_get (at_accounts mid) k) else hm_get (at_accounts mid) k)" by auto
      have "bs_accountId selection \<notin> set (map bs_accountId selections)" using Cons.prems(2) by simp
      then have "hm_get (at_accounts db') = (\<lambda>k. if k \<in> set (map bs_accountId (selection # selections))
          then map_option (batch_revised now request) (hm_get (at_accounts db) k) else hm_get (at_accounts db) k)"
        unfolding table mid using account by (auto simp: fun_eq_iff)
      then show ?thesis using True rows run loop len by simp
    qed
  qed
qed auto

lemma reconcileLoop_result:
  "ds_store (snd (reconcileLoop fs now t i accounts s)) = ds_store s
   \<and> ((\<forall>j. \<not> fs j) \<longrightarrow> (\<exists>views. fst (reconcileLoop fs now t i accounts s) = Ok views \<and> length views = length accounts))"
proof (induction accounts arbitrary: i s)
  case (Cons account accounts)
  define s1 where "s1 = s\<lparr>ds_leases := reconcileAccount account now (ds_leases s)\<rparr>"
  obtain r s2 where view: "accountView (fs i) t account s1 = (r, s2)" by fastforce
  have store: "ds_store s2 = ds_store s"
    using view by (auto simp: s1_def accountView_def accountPresence_def Let_def split: outcome.splits prod.splits)
  have served: "\<exists>v. r = Ok v" if "\<not> fs i"
    using view that by (auto simp: accountView_def usageTotals_def accountPresence_def Let_def split: prod.splits)
  note rest = Cons.IH [of "Suc i" s2]
  obtain q s3 where loop: "reconcileLoop fs now t (Suc i) accounts s2 = (q, s3)" by fastforce
  from rest have s3: "ds_store s3 = ds_store s" "(\<forall>j. \<not> fs j) \<Longrightarrow> \<exists>views. q = Ok views \<and> length views = length accounts"
    unfolding loop store by auto
  show ?case
    unfolding reconcileLoop.simps s1_def [symmetric] view using served store s3 loop by (auto split: outcome.split)
qed simp

lemma updateAccountsBatch_decides:
  assumes ok: "store_ok (ds_store s)"
  shows "case updateAccountsBatch f1 fs t1 t2 t3 request s of (r, s') \<Rightarrow>
    if \<not> f1 \<and> batch_accepts request (ds_store s)
    then hm_get (at_accounts (ds_store s')) = (\<lambda>k. if k \<in> set (map bs_accountId (bu_accounts request))
          then map_option (batch_revised t1 request) (hm_get (at_accounts (ds_store s)) k) else hm_get (at_accounts (ds_store s)) k)
      \<and> ((\<forall>i. \<not> fs i) \<longrightarrow> (\<exists>views. r = Ok (views, length (filter (batch_changes request (ds_store s)) (bu_accounts request)))
           \<and> length views = length (bu_accounts request)))
    else s' = s \<and> (\<forall>x. r \<noteq> Ok x)"
proof (cases "\<not> f1 \<and> batch_accepts request (ds_store s)")
  case True
  then have valid: "validateBatchSelections (bu_accounts request) = Ok ()" "validateBatchMutation request = Ok ()"
    and rows: "list_all (row_accepts request (ds_store s)) (bu_accounts request)" by (simp_all add: batch_accepts_def)
  from batchUpdateLoop_decides [OF ok validateBatchSelections_distinct [OF valid(1)], of request t1] rows obtain accounts store where
    loop: "batchUpdateLoop t1 request (bu_accounts request) (ds_store s) = Ok (accounts, length (filter (batch_changes request (ds_store s)) (bu_accounts request)), store)"
    and len: "length accounts = length (bu_accounts request)"
    and table: "hm_get (at_accounts store) = (\<lambda>k. if k \<in> set (map bs_accountId (bu_accounts request))
          then map_option (batch_revised t1 request) (hm_get (at_accounts (ds_store s)) k) else hm_get (at_accounts (ds_store s)) k)" by auto
  have row: "updateAccountRows f1 t1 request (ds_store s) = (Ok (accounts, length (filter (batch_changes request (ds_store s)) (bu_accounts request))), store)"
    using True valid loop by (simp add: updateAccountRows_def)
  obtain q s' where rec: "reconcileLoop fs t2 t3 0 accounts (s\<lparr>ds_store := store\<rparr>) = (q, s')" by fastforce
  from reconcileLoop_result [of fs t2 t3 0 accounts "s\<lparr>ds_store := store\<rparr>"] have "ds_store s' = store"
    "(\<forall>j. \<not> fs j) \<Longrightarrow> \<exists>views. q = Ok views \<and> length views = length (bu_accounts request)"
    unfolding rec len by auto
  moreover have "updateAccountsBatch f1 fs t1 t2 t3 request s = (and_then q (\<lambda>views. Ok (views, length (filter (batch_changes request (ds_store s)) (bu_accounts request)))), s')"
    unfolding updateAccountsBatch_def row by (cases q) (simp_all add: rec)
  ultimately show ?thesis using True table by auto
next
  case False
  have "\<exists>r. updateAccountRows f1 t1 request (ds_store s) = (r, ds_store s) \<and> (\<forall>x. r \<noteq> Ok x)"
  proof (cases "validateBatchSelections (bu_accounts request) = Ok () \<and> validateBatchMutation request = Ok () \<and> \<not> f1")
    case True
    with False have "\<not> list_all (row_accepts request (ds_store s)) (bu_accounts request)" by (auto simp: batch_accepts_def)
    with batchUpdateLoop_decides [OF ok validateBatchSelections_distinct, of "bu_accounts request" "()" request t1] True
    have "\<forall>x. batchUpdateLoop t1 request (bu_accounts request) (ds_store s) \<noteq> Ok x" by simp
    then show ?thesis using True
      by (cases "batchUpdateLoop t1 request (bu_accounts request) (ds_store s)") (auto simp: updateAccountRows_def)
  next
    case False
    then show ?thesis
      by (cases "validateBatchSelections (bu_accounts request)"; cases "validateBatchMutation request") (auto simp: updateAccountRows_def)
  qed
  then obtain r where row: "updateAccountRows f1 t1 request (ds_store s) = (r, ds_store s)" "\<forall>x. r \<noteq> Ok x" by blast
  then show ?thesis unfolding updateAccountsBatch_def row(1) if_not_P [OF False] by (cases r) auto
qed

lemma deleteAccountsBatch_decides:
  "case deleteAccountsBatch f1 t1 selections s of (r, s') \<Rightarrow>
    if \<not> f1 \<and> validateBatchSelections selections = Ok () \<and> list_all (current_revision (ds_store s)) selections
    then r = Ok (length selections) \<and> hm_get (at_accounts (ds_store s')) =
        (\<lambda>k. if k \<in> set (map bs_accountId selections) then None else hm_get (at_accounts (ds_store s)) k)
    else s' = s \<and> (\<forall>n. r \<noteq> Ok n)"
proof (cases "\<not> f1 \<and> validateBatchSelections selections = Ok () \<and> list_all (current_revision (ds_store s)) selections")
  case True
  then have "checkRevisions selections (ds_store s) = Ok ()" by (simp add: checkRevisions_Ok)
  then have row: "deleteAccountRows f1 t1 selections (ds_store s) = (Ok (length selections),
      fold (\<lambda>sel db. insertAudit (accountAudit t1 ''account.batchDelete'' (bs_accountId sel) noDetails) (deleteRow (bs_accountId sel) db)) selections (ds_store s))"
    using True by (simp add: deleteAccountRows_def)
  have "hm_get (at_accounts (fold (\<lambda>sel db. insertAudit (accountAudit t1 ''account.batchDelete'' (bs_accountId sel) noDetails) (deleteRow (bs_accountId sel) db))
      selections (ds_store s))) = (\<lambda>k. if k \<in> set (map bs_accountId selections) then None else hm_get (at_accounts (ds_store s)) k)"
    unfolding deleted_rows hm.get_fold_del by (rule refl)
  then show ?thesis using True unfolding deleteAccountsBatch_def row by simp
next
  case False
  have "\<exists>r. deleteAccountRows f1 t1 selections (ds_store s) = (r, ds_store s) \<and> (\<forall>x. r \<noteq> Ok x)"
    using False checkRevisions_Ok [of selections "ds_store s" "()"]
    by (cases "validateBatchSelections selections"; cases "checkRevisions selections (ds_store s)") (auto simp: deleteAccountRows_def)
  then obtain r where row: "deleteAccountRows f1 t1 selections (ds_store s) = (r, ds_store s)" "\<forall>x. r \<noteq> Ok x" by blast
  then show ?thesis unfolding deleteAccountsBatch_def row(1) if_not_P [OF False] by (cases r) auto
qed

definition update_revised :: "int \<Rightarrow> UpdateAccountRequest \<Rightarrow> StoredAccount \<Rightarrow> StoredAccount" where
  "update_revised now update account = account\<lparr>ac_policy := ua_policy update, ac_policyRevision := i64_sat (ac_policyRevision account + 1),
     ac_remark := ua_remark update, ac_updatedAt := now\<rparr>"

definition update_accepts :: "UpdateAccountRequest \<Rightarrow> str \<Rightarrow> AccountStore \<Rightarrow> bool" where
  "update_accepts update aid db \<longleftrightarrow> validatePolicy (ua_policy update) = Ok () \<and> validateRemark (ua_remark update) = Ok ()
     \<and> (\<exists>account. hm_get (at_accounts db) aid = Some account \<and> ac_policyRevision account = ua_policyRevision update)"

lemma updateAccount_decides:
  "case updateAccount f1 f2 f3 t1 t2 t3 aid update s of (r, s') \<Rightarrow>
    if \<not> f1 \<and> update_accepts update aid (ds_store s)
    then hm_get (at_accounts (ds_store s')) = (hm_get (at_accounts (ds_store s)))(aid := map_option (update_revised t1 update) (hm_get (at_accounts (ds_store s)) aid))
      \<and> (if f2 then r = Err Database else f3 \<or> (\<exists>view. r = Ok view))
    else s' = s \<and> (\<forall>view. r \<noteq> Ok view)"
proof (cases "\<not> f1 \<and> update_accepts update aid (ds_store s)")
  case True
  then obtain account where account: "hm_get (at_accounts (ds_store s)) aid = Some account" "ac_policyRevision account = ua_policyRevision update"
    and valid: "and_then (validatePolicy (ua_policy update)) (\<lambda>_. validateRemark (ua_remark update)) = Ok ()" "\<not> f1" by (auto simp: update_accepts_def)
  then have "\<exists>store. updateAccountRow f1 f2 t1 aid update (ds_store s) = (if f2 then Err Database else Ok (update_revised t1 update account), store)
      \<and> hm_get (at_accounts store) = (hm_get (at_accounts (ds_store s)))(aid \<mapsto> update_revised t1 update account)"
    by (auto simp: updateAccountRow_def Let_def accountById_def hm_get_modify update_revised_def fun_eq_iff)
  then obtain store where row: "updateAccountRow f1 f2 t1 aid update (ds_store s) = (if f2 then Err Database else Ok (update_revised t1 update account), store)"
    and table: "hm_get (at_accounts store) = (hm_get (at_accounts (ds_store s)))(aid \<mapsto> update_revised t1 update account)" by blast
  obtain r s' where view: "accountView f3 t3 (update_revised t1 update account)
      (s\<lparr>ds_store := store, ds_leases := reconcileAccount (update_revised t1 update account) t2 (ds_leases s)\<rparr>) = (r, s')" by fastforce
  then have "ds_store s' = store" "\<not> f3 \<Longrightarrow> \<exists>v. r = Ok v"
    by (auto simp: accountView_def usageTotals_def accountPresence_def Let_def split: outcome.splits prod.splits if_splits)
  then show ?thesis using True table account(1) unfolding updateAccount_def row by (auto simp: view)
next
  case False
  have "\<exists>r. updateAccountRow f1 f2 t1 aid update (ds_store s) = (r, ds_store s) \<and> (\<forall>x. r \<noteq> Ok x)"
    using False by (cases "validatePolicy (ua_policy update)"; cases "validateRemark (ua_remark update)"; cases "hm_get (at_accounts (ds_store s)) aid")
      (auto simp: updateAccountRow_def update_accepts_def)
  then obtain r where row: "updateAccountRow f1 f2 t1 aid update (ds_store s) = (r, ds_store s)" "\<forall>x. r \<noteq> Ok x" by blast
  then show ?thesis unfolding updateAccount_def row(1) if_not_P [OF False] by (cases r) auto
qed

text \<open>
  C35: management requests carry the revision they were made for, and they take effect completely or not at all.
  A batch deletion that the database does not refuse removes exactly the selected accounts when every selected
  account exists at its stated revision. A batch update gives every selected account exactly the requested limits and
  the next revision, leaves those alone that it does not change, and counts the changed ones, when every selected
  account exists at its stated revision and every resulting policy is valid. The update of a single account
  replaces its policy and remark and gives it the next revision, under the same conditions. No other account is touched,
  and in every other case, a stale revision, a missing account, an invalid value or a refused transaction, nothing
  changes at all and the request fails. Failures after the commit do not undo it: when reading back the updated row
  (\<open>f2\<close>) or the totals of the accounts (\<open>f3\<close>, \<open>fs\<close>) fails, the caller sees an error although the rows have changed.
\<close>

theorem revisions_guard_changes:
  assumes "reachable_service U s"
  shows "(case deleteAccountsBatch f1 t1 selections s of (r, s') \<Rightarrow>
        if \<not> f1 \<and> validateBatchSelections selections = Ok () \<and> list_all (current_revision (ds_store s)) selections
        then r = Ok (length selections) \<and> hm_get (at_accounts (ds_store s')) =
            (\<lambda>k. if k \<in> set (map bs_accountId selections) then None else hm_get (at_accounts (ds_store s)) k)
        else s' = s \<and> (\<forall>n. r \<noteq> Ok n))
    \<and> (case updateAccountsBatch f1 fs t1 t2 t3 request s of (r, s') \<Rightarrow>
        if \<not> f1 \<and> batch_accepts request (ds_store s)
        then hm_get (at_accounts (ds_store s')) = (\<lambda>k. if k \<in> set (map bs_accountId (bu_accounts request))
              then map_option (batch_revised t1 request) (hm_get (at_accounts (ds_store s)) k) else hm_get (at_accounts (ds_store s)) k)
          \<and> ((\<forall>i. \<not> fs i) \<longrightarrow> (\<exists>views. r = Ok (views, length (filter (batch_changes request (ds_store s)) (bu_accounts request)))
               \<and> length views = length (bu_accounts request)))
        else s' = s \<and> (\<forall>x. r \<noteq> Ok x))
    \<and> (case updateAccount f1 f2 f3 t1 t2 t3 aid update s of (r, s') \<Rightarrow>
        if \<not> f1 \<and> update_accepts update aid (ds_store s)
        then hm_get (at_accounts (ds_store s')) =
            (hm_get (at_accounts (ds_store s)))(aid := map_option (update_revised t1 update) (hm_get (at_accounts (ds_store s)) aid))
          \<and> (if f2 then r = Err Database else f3 \<or> (\<exists>view. r = Ok view))
        else s' = s \<and> (\<forall>view. r \<noteq> Ok view))"
proof -
  have "store_ok (ds_store s)" using service.reach_inv [OF assms] by (rule service_invD)
  then show ?thesis by (intro conjI deleteAccountsBatch_decides updateAccountsBatch_decides updateAccount_decides)
qed

text \<open>A batch update that closes the one account: it is accepted and takes effect.\<close>

definition sample_batch :: BatchUpdateAccountsRequest where
  "sample_batch = \<lparr>bu_accounts = [\<lparr>bs_accountId = lit ''A'', bs_policyRevision = 1\<rparr>], bu_maxOnlineIps = None, bu_maxConnections = Some 0,
     bu_maxUploadBytesPerSecond = None, bu_maxDownloadBytesPerSecond = None, bu_extendByMilliseconds = None\<rparr>"

theorem revisions_guard_changes_witness:
  "case updateAccountsBatch False (\<lambda>_. False) 9 9 9 sample_batch sample_service of (r, s') \<Rightarrow>
     (\<exists>views. r = Ok (views, 1))
     \<and> map_option (\<lambda>account. (ac_policyRevision account, ap_maxConnections (ac_policy account))) (hm_get (at_accounts (ds_store s')) (lit ''A'')) = Some (2, 0)"
proof -
  have accepted: "batch_accepts sample_batch (ds_store sample_service)" by code_simp
  have count: "length (filter (batch_changes sample_batch (ds_store sample_service)) (bu_accounts sample_batch)) = 1" by code_simp
  have row: "map_option (\<lambda>account. (ac_policyRevision account, ap_maxConnections (ac_policy account)))
      (map_option (batch_revised 9 sample_batch) (hm_get (at_accounts (ds_store sample_service)) (lit ''A''))) = Some (2, 0)" by code_simp
  have selected: "lit ''A'' \<in> set (map bs_accountId (bu_accounts sample_batch))" by (simp add: sample_batch_def)
  note decided = conjunct1 [OF conjunct2 [OF revisions_guard_changes [OF reachable_sample_service, where ?f1.0 = False and fs = "\<lambda>_. False"
      and ?t1.0 = 9 and ?t2.0 = 9 and ?t3.0 = 9 and request = sample_batch]]]
  show ?thesis
    using decided accepted count row selected
    by (cases "updateAccountsBatch False (\<lambda>_. False) 9 9 9 sample_batch sample_service") auto
qed


section \<open>Faults between the database and the registry\<close>

text \<open>
  The lease exists before its usage row is written: if that write fails the client is refused, but its
  lease keeps counting against the quota until its heartbeat times out.
\<close>

lemma refused_login_keeps_lease:
  "case authenticateLease (\<lambda>_ _ _. False) False True 6 6 6 (lit ''L'') sample_login sample_service of
     (r, s') \<Rightarrow> r = Err Database \<and> length (activeLeases (lit ''A'') (ds_leases s')) = 1"
  by code_simp

text \<open>
  An update whose row cannot be read back after its commit returns before the leases are reconciled:
  the account is disabled in the database while its lease stays active under the old policy.
\<close>

lemma failed_reread_skips_reconciliation:
  "case updateAccount False True False 7 7 7 (lit ''A'')
       \<lparr>ua_policyRevision = 1, ua_policy = sample_policy\<lparr>ap_maxConnections := 0\<rparr>, ua_remark = None\<rparr> sample_online of
     (r, s') \<Rightarrow> r = Err Database
       \<and> map_option (\<lambda>account. ap_maxConnections (ac_policy account)) (hm_get (at_accounts (ds_store s')) (lit ''A'')) = Some 0
       \<and> map (\<lambda>lease. ap_maxConnections (ls_policy lease)) (activeLeases (lit ''A'') (ds_leases s')) = [1]"
  by code_simp

end
