(* ===== verification/RuleSets.thy ===== *)
theory RuleSets
  imports AccountStore "HOL-Library.List_Lexorder" "HOL-Library.Product_Lexorder"
begin

text \<open>
  The routing rule sets of \<open>AccountService/src/ruleSetStore.rs\<close>: the syntax check of a rule text and the
  transactions on the rule set table. A hash set that only answers membership is a list. As in the
  account tables, \<open>fault\<close> is a failure of the transaction and \<open>readFault\<close> one of the read after it.
\<close>

definition maximumRuleSetNameBytes :: nat where "maximumRuleSetNameBytes = 128"
definition maximumRuleSetContentBytes :: nat where "maximumRuleSetContentBytes = 1024 * 1024"
definition maximumRuleSetLineBytes :: nat where "maximumRuleSetLineBytes = 8192"
definition maximumBatchRuleSets :: nat where "maximumBatchRuleSets = 500"

definition defaultDnsSection :: str where
  "defaultDnsSection = lit ''[DNS]'' @ [10] @ lit ''PRIMARY,223.5.5.5'' @ [10] @ lit ''SECONDARY,1.1.1.1'' @ [10, 10]"

section \<open>Text\<close>

definition eq_ignore_ascii_case :: "str \<Rightarrow> str \<Rightarrow> bool" where
  "eq_ignore_ascii_case a b = (to_ascii_lowercase a = to_ascii_lowercase b)"

definition newline :: "nat \<Rightarrow> bool" where "newline c = (c = 10)"
definition comma :: "nat \<Rightarrow> bool" where "comma c = (c = 44)"

definition strip_return :: "str \<Rightarrow> str" where
  "strip_return line = (case strip_suffix [13] line of None \<Rightarrow> line | Some r \<Rightarrow> r)"

text \<open>\<open>str::lines\<close>: a final empty line does not count, a carriage return before a line feed belongs to it.\<close>

definition lines :: "str \<Rightarrow> str list" where
  "lines s =
     (let parts = split_at newline s
      in map strip_return (butlast parts) @ (if last parts = [] then [] else [last parts]))"

fun replace_crlf :: "str \<Rightarrow> str" where
  "replace_crlf (c # d # s) = (if c = 13 \<and> d = 10 then 10 # replace_crlf s else c # replace_crlf (d # s))"
| "replace_crlf s = s"

definition replace_cr :: "str \<Rightarrow> str" where
  "replace_cr s = map (\<lambda>c. if c = 13 then 10 else c) s"

definition normalizedRuleLine :: "str \<Rightarrow> str" where
  "normalizedRuleLine sourceLine =
     trim (dropWhile (\<lambda>c. c = 0xFEFF) (trim (takeWhile (\<lambda>c. c \<noteq> 35) sourceLine)))"

definition is_ascii_alphabetic :: "nat \<Rightarrow> bool" where
  "is_ascii_alphabetic c = (65 \<le> c \<and> c \<le> 90 \<or> 97 \<le> c \<and> c \<le> 122)"

definition is_ascii_alphanumeric :: "nat \<Rightarrow> bool" where
  "is_ascii_alphanumeric c = (is_ascii_alphabetic c \<or> 48 \<le> c \<and> c \<le> 57)"

section \<open>Lines\<close>

definition isRuleAction :: "str \<Rightarrow> bool" where
  "isRuleAction action = list_ex (\<lambda>a. eq_ignore_ascii_case action (lit a)) [''PROXY'', ''DIRECT'', ''REJECT'']"

definition validateRulePort :: "str \<Rightarrow> nat \<Rightarrow> unit service_result" where
  "validateRulePort value lineNumber =
     (let boundaries = (case split_once 45 value of None \<Rightarrow> [value] | Some (a, b) \<Rightarrow> [a, b]);
          parsed = map (\<lambda>b. from_str_radix 65535 10 (trim b)) boundaries
      in case (hd parsed, last parsed) of
           (Some start, Some end) \<Rightarrow> if start = 0 \<or> end < start then Err (Validation (RuleSetLine lineNumber)) else Ok ()
         | _ \<Rightarrow> Err (Validation (RuleSetLine lineNumber)))"

definition validateRuleCidr :: "str \<Rightarrow> nat \<Rightarrow> unit service_result" where
  "validateRuleCidr value lineNumber =
     (let (address, prefixText) = (case split_once 47 value of None \<Rightarrow> (value, None) | Some (a, p) \<Rightarrow> (a, Some p));
          addressValid = (parse_with read_ipv4_addr address \<noteq> None);
          prefixValid = (case prefixText of
              None \<Rightarrow> True
            | Some p \<Rightarrow> (case from_str_radix 255 10 p of None \<Rightarrow> False | Some value \<Rightarrow> value \<le> 32))
      in if addressValid \<and> prefixValid then Ok () else Err (Validation (RuleSetLine lineNumber)))"

definition validateRoutingRuleLine :: "str \<Rightarrow> nat \<Rightarrow> bool service_result" where
  "validateRoutingRuleLine line lineNumber =
     (let fields = map trim (split_at comma line);
          ruleType = hd fields;
          isFinal = eq_ignore_ascii_case ruleType (lit ''FINAL'');
          valid = (if isFinal then length fields = 2 \<and> isRuleAction (fields ! 1)
                   else length fields = 3
                        \<and> list_ex (\<lambda>k. eq_ignore_ascii_case ruleType (lit k)) [''PORT'', ''IP-CIDR'', ''DOMAIN'', ''DOMAIN-KEYWORD'']
                        \<and> fields ! 1 \<noteq> [] \<and> isRuleAction (fields ! 2))
      in if \<not> valid then Err (Validation (RuleSetLine lineNumber))
         else and_then
                (if eq_ignore_ascii_case ruleType (lit ''PORT'') then validateRulePort (fields ! 1) lineNumber
                 else if eq_ignore_ascii_case ruleType (lit ''IP-CIDR'') then validateRuleCidr (fields ! 1) lineNumber
                 else Ok ())
                (\<lambda>_. Ok isFinal))"

definition isAndroidPackageName :: "str \<Rightarrow> bool" where
  "isAndroidPackageName packageName =
     (let segments = split_at (\<lambda>c. c = 46) packageName
      in 2 \<le> length segments
         \<and> list_all (\<lambda>segment. segment \<noteq> [] \<and> is_ascii_alphabetic (hd segment)
              \<and> list_all (\<lambda>c. is_ascii_alphanumeric c \<or> c = 95) segment) segments)"

text \<open>The keys are compared in upper case; a role is PRIMARY or not.\<close>

definition validateDnsLine :: "str \<Rightarrow> nat \<Rightarrow> bool list \<Rightarrow> (bool \<times> bool list) service_result" where
  "validateDnsLine line lineNumber dnsKeys =
     (let fields = map trim (split_at comma line)
      in if length fields \<noteq> 2 then Err (Validation (RuleSetLine lineNumber))
         else
           (let isPrimary = eq_ignore_ascii_case (fields ! 0) (lit ''PRIMARY'')
            in if \<not> isPrimary \<and> \<not> eq_ignore_ascii_case (fields ! 0) (lit ''SECONDARY'')
               then Err (Validation (RuleSetLine lineNumber))
               else if isPrimary \<in> set dnsKeys then Err (Validation (RuleSetLine lineNumber))
               else if parse_IpAddr (fields ! 1) = None then Err (Validation (RuleSetLine lineNumber))
               else Ok (isPrimary, isPrimary # dnsKeys)))"

section \<open>Sections\<close>

datatype RuleSection = DnsSection | RoutingRuleSection | GRoutingRuleSection | ProxyAppSection

definition section_of :: "str \<Rightarrow> RuleSection option" where
  "section_of line =
     (if eq_ignore_ascii_case line (lit ''[DNS]'') then Some DnsSection
      else if eq_ignore_ascii_case line (lit ''[RoutingRule]'') then Some RoutingRuleSection
      else if eq_ignore_ascii_case line (lit ''[GRoutingRule]'') then Some GRoutingRuleSection
      else if eq_ignore_ascii_case line (lit ''[proxy_app]'') then Some ProxyAppSection
      else None)"

record RoutingScan =
  sc_currentSection :: "RuleSection option"
  sc_sections :: "RuleSection list"
  sc_dnsKeys :: "bool list"
  sc_proxyPackages :: "str list"
  sc_hasPrimaryDns :: bool
  sc_hasRoutingRules :: bool
  sc_hasGlobalRules :: bool
  sc_routingFinalSeen :: bool
  sc_globalFinalSeen :: bool

definition RoutingScan_new :: RoutingScan where
  "RoutingScan_new = \<lparr>sc_currentSection = None, sc_sections = [], sc_dnsKeys = [], sc_proxyPackages = [], sc_hasPrimaryDns = False,
     sc_hasRoutingRules = False, sc_hasGlobalRules = False, sc_routingFinalSeen = False, sc_globalFinalSeen = False\<rparr>"

definition scanRule :: "nat \<Rightarrow> str \<Rightarrow> RoutingScan \<Rightarrow> RoutingScan service_result" where
  "scanRule lineNumber line scan =
     (if starts_with [91] line \<and> ends_with [93] line then
        (case section_of line of
           None \<Rightarrow> Err (Validation (RuleSetLine lineNumber))
         | Some section \<Rightarrow>
             if section \<in> set (sc_sections scan) then Err (Validation (RuleSetLine lineNumber))
             else Ok (scan\<lparr>sc_currentSection := Some section, sc_sections := section # sc_sections scan\<rparr>))
      else
        (case sc_currentSection scan of
           None \<Rightarrow> Err (Validation (RuleSetLine lineNumber))
         | Some DnsSection \<Rightarrow>
             and_then (validateDnsLine line lineNumber (sc_dnsKeys scan)) (\<lambda>(isPrimary, dnsKeys).
               Ok (scan\<lparr>sc_dnsKeys := dnsKeys, sc_hasPrimaryDns := sc_hasPrimaryDns scan \<or> isPrimary\<rparr>))
         | Some RoutingRuleSection \<Rightarrow>
             if sc_routingFinalSeen scan then Err (Validation (RuleSetLine lineNumber))
             else and_then (validateRoutingRuleLine line lineNumber) (\<lambda>isFinal.
               Ok (scan\<lparr>sc_routingFinalSeen := isFinal, sc_hasRoutingRules := True\<rparr>))
         | Some GRoutingRuleSection \<Rightarrow>
             if sc_globalFinalSeen scan then Err (Validation (RuleSetLine lineNumber))
             else and_then (validateRoutingRuleLine line lineNumber) (\<lambda>isFinal.
               Ok (scan\<lparr>sc_globalFinalSeen := isFinal, sc_hasGlobalRules := True\<rparr>))
         | Some ProxyAppSection \<Rightarrow>
             if 44 \<in> set line \<or> \<not> isAndroidPackageName line then Err (Validation (RuleSetLine lineNumber))
             else if line \<in> set (sc_proxyPackages scan) then Err (Validation (RuleSetLine lineNumber))
             else Ok (scan\<lparr>sc_proxyPackages := line # sc_proxyPackages scan\<rparr>)))"

definition scanLine :: "nat \<Rightarrow> str \<Rightarrow> RoutingScan \<Rightarrow> RoutingScan service_result" where
  "scanLine lineNumber sourceLine scan =
     (if maximumRuleSetLineBytes < str_len sourceLine then Err (Validation (RuleSetLine lineNumber))
      else
        (let line = normalizedRuleLine sourceLine
         in if line = [] then Ok scan else scanRule lineNumber line scan))"

fun scanLines :: "nat \<Rightarrow> str list \<Rightarrow> RoutingScan \<Rightarrow> RoutingScan service_result" where
  "scanLines index [] scan = Ok scan"
| "scanLines index (line # rest) scan = and_then (scanLine (index + 1) line scan) (scanLines (index + 1) rest)"

definition finishScan :: "RoutingScan \<Rightarrow> unit service_result" where
  "finishScan scan =
     (if DnsSection \<notin> set (sc_sections scan) then Err (Validation (RuleSetMissing ''[dns]''))
      else if RoutingRuleSection \<notin> set (sc_sections scan) then Err (Validation (RuleSetMissing ''[routingrule]''))
      else if GRoutingRuleSection \<notin> set (sc_sections scan) then Err (Validation (RuleSetMissing ''[groutingrule]''))
      else if ProxyAppSection \<notin> set (sc_sections scan) then Err (Validation (RuleSetMissing ''[proxy_app]''))
      else if \<not> sc_hasPrimaryDns scan then Err (Validation (RuleSetMissing ''PRIMARY''))
      else if \<not> sc_hasGlobalRules scan \<and> \<not> sc_hasRoutingRules scan then Err (Validation (RuleSetMissing ''rules''))
      else if sc_hasRoutingRules scan \<noteq> (sc_proxyPackages scan \<noteq> []) then Err (Validation (RuleSetMissing ''proxy_app''))
      else Ok ())"

definition validateRoutingSections :: "str \<Rightarrow> unit service_result" where
  "validateRoutingSections content = and_then (scanLines 0 (lines content) RoutingScan_new) finishScan"

definition validatedRuleSetName :: "str \<Rightarrow> str service_result" where
  "validatedRuleSetName name =
     (let normalized = trim name
      in if normalized = [] \<or> maximumRuleSetNameBytes < str_len normalized then Err (Validation RuleSetName) else Ok normalized)"

definition validatedRuleSetContent :: "str \<Rightarrow> str service_result" where
  "validatedRuleSetContent content =
     (if content = [] \<or> maximumRuleSetContentBytes < str_len content \<or> 0 \<in> set content then Err (Validation RuleSetSize)
      else
        (let normalized = replace_cr (replace_crlf content)
         in and_then (validateRoutingSections normalized) (\<lambda>_. Ok (trim_end is_whitespace normalized @ [10]))))"

fun join_lines :: "str list \<Rightarrow> str" where
  "join_lines [] = []"
| "join_lines [l] = l"
| "join_lines (l # ls) = l @ [10] @ join_lines ls"

definition legacyProxySection :: "str \<Rightarrow> bool" where
  "legacyProxySection sourceLine = eq_ignore_ascii_case (normalizedRuleLine sourceLine) (lit ''[proxy app]'')"

definition migrateLegacyRuleSetContent :: "str \<Rightarrow> str option service_result" where
  "migrateLegacyRuleSetContent content =
     (let changed = list_ex legacyProxySection (lines content);
          normalizedSections = join_lines (map (\<lambda>l. if legacyProxySection l then lit ''[proxy_app]'' else l) (lines content));
          hasDnsSection = list_ex (\<lambda>l. eq_ignore_ascii_case (normalizedRuleLine l) (lit ''[DNS]'')) (lines normalizedSections)
      in if hasDnsSection \<and> \<not> changed then and_then (validatedRuleSetContent content) (\<lambda>_. Ok None)
         else and_then (validatedRuleSetContent (if hasDnsSection then normalizedSections else defaultDnsSection @ normalizedSections))
                (\<lambda>migrated. Ok (Some migrated)))"

section \<open>The rule set table\<close>

definition validateRuleSetIds :: "str list \<Rightarrow> unit service_result" where
  "validateRuleSetIds ruleSetIds =
     (if ruleSetIds = [] \<or> maximumBatchRuleSets < length ruleSetIds then Err (Validation RuleSetIds)
      else if [] \<in> set ruleSetIds \<or> \<not> distinct ruleSetIds then Err (Validation RuleSetIds) else Ok ())"

definition listRuleSets :: "bool \<Rightarrow> AccountStore \<Rightarrow> RuleSetView list service_result" where
  "listRuleSets fault db =
     (if fault then Err Database
      else Ok (sort_key (\<lambda>r. (- rv_updatedAt r, rv_ruleSetId r)) (map snd (at_ruleSets db))))"

definition queryRuleSet :: "str \<Rightarrow> AccountStore \<Rightarrow> RuleSetView option" where
  "queryRuleSet ruleSetId db = hm_get (at_ruleSets db) ruleSetId"

definition ruleSetById :: "bool \<Rightarrow> str \<Rightarrow> AccountStore \<Rightarrow> RuleSetView service_result" where
  "ruleSetById fault ruleSetId db =
     (if fault then Err Database
      else (case queryRuleSet ruleSetId db of None \<Rightarrow> Err RuleSetNotFound | Some r \<Rightarrow> Ok r))"

definition disableActiveRuleSet :: "int \<Rightarrow> str option \<Rightarrow> AccountStore \<Rightarrow> AccountStore" where
  "disableActiveRuleSet now excluded db =
     db\<lparr>at_ruleSets := hm_update_all (\<lambda>r.
        if rv_enabled r \<and> excluded \<noteq> Some (rv_ruleSetId r)
        then r\<lparr>rv_enabled := False, rv_revision := rv_revision r + 1, rv_updatedAt := now\<rparr> else r) (at_ruleSets db)\<rparr>"

definition requireRuleSetRevision :: "str \<Rightarrow> int \<Rightarrow> AccountStore \<Rightarrow> int service_result" where
  "requireRuleSetRevision ruleSetId expected db =
     (case hm_get (at_ruleSets db) ruleSetId of
        None \<Rightarrow> Err RuleSetNotFound
      | Some r \<Rightarrow> if rv_revision r \<noteq> expected then Err (RuleSetRevisionConflict (rv_revision r)) else Ok (rv_revision r))"

definition nameTaken :: "str \<Rightarrow> str \<Rightarrow> AccountStore \<Rightarrow> bool" where
  "nameTaken ruleSetId name db = list_ex (\<lambda>e. fst e \<noteq> ruleSetId \<and> rv_name (snd e) = name) (at_ruleSets db)"

definition enabledDetails :: "bool \<Rightarrow> str" where
  "enabledDetails enabled = lit ''{\"enabled\":'' @ lit (if enabled then ''true'' else ''false'') @ lit ''}''"

definition ruleRevisionDetails :: "int \<Rightarrow> str" where
  "ruleRevisionDetails revision = lit ''{\"revision\":'' @ print_int revision @ lit ''}''"

definition createRuleSet ::
  "bool \<Rightarrow> bool \<Rightarrow> int \<Rightarrow> str \<Rightarrow> CreateRuleSetRequest \<Rightarrow> AccountStore \<Rightarrow> RuleSetView service_result \<times> AccountStore" where
  "createRuleSet fault readFault now ruleSetId request db =
     (case and_then (validatedRuleSetName (cr_name request)) (\<lambda>name.
           and_then (validatedRuleSetContent (cr_content request)) (\<lambda>content. Ok (name, content))) of
        Panic \<Rightarrow> (Panic, db)
      | Err e \<Rightarrow> (Err e, db)
      | Ok (name, content) \<Rightarrow>
          if fault \<or> hm_contains (at_ruleSets db) ruleSetId then (Err Database, db)
          else if nameTaken ruleSetId name db then (Err RuleSetConflict, db)
          else
            (let changed = (if cr_enabled request then disableActiveRuleSet now (Some ruleSetId) db else db);
                 row = \<lparr>rv_ruleSetId = ruleSetId, rv_name = name, rv_content = content, rv_enabled = cr_enabled request,
                        rv_revision = 1, rv_createdAt = now, rv_updatedAt = now\<rparr>;
                 db = insertAudit (accountAudit now ''ruleSet.create'' ruleSetId (enabledDetails (cr_enabled request)))
                        (changed\<lparr>at_ruleSets := hm_insert ruleSetId row (at_ruleSets changed)\<rparr>)
             in (ruleSetById readFault ruleSetId db, db)))"

definition updateRuleSet ::
  "bool \<Rightarrow> bool \<Rightarrow> int \<Rightarrow> str \<Rightarrow> UpdateRuleSetRequest \<Rightarrow> AccountStore \<Rightarrow> RuleSetView service_result \<times> AccountStore" where
  "updateRuleSet fault readFault now ruleSetId request db =
     (case and_then (validatedRuleSetName (ur_name request)) (\<lambda>name.
           and_then (validatedRuleSetContent (ur_content request)) (\<lambda>content.
             if fault then Err Database
             else and_then (requireRuleSetRevision ruleSetId (ur_revision request) db) (\<lambda>_. Ok (name, content)))) of
        Panic \<Rightarrow> (Panic, db)
      | Err e \<Rightarrow> (Err e, db)
      | Ok (name, content) \<Rightarrow>
          if nameTaken ruleSetId name db then (Err RuleSetConflict, db)
          else
            (let db = insertAudit (accountAudit now ''ruleSet.update'' ruleSetId
                          (ruleRevisionDetails (i64_sat (ur_revision request + 1))))
                        (db\<lparr>at_ruleSets := hm_modify ruleSetId (\<lambda>r. r\<lparr>rv_name := name, rv_content := content,
                              rv_revision := rv_revision r + 1, rv_updatedAt := now\<rparr>) (at_ruleSets db)\<rparr>)
             in (ruleSetById readFault ruleSetId db, db)))"

definition setRuleSetEnabled ::
  "bool \<Rightarrow> bool \<Rightarrow> int \<Rightarrow> str \<Rightarrow> SetRuleSetEnabledRequest \<Rightarrow> AccountStore \<Rightarrow> RuleSetView service_result \<times> AccountStore" where
  "setRuleSetEnabled fault readFault now ruleSetId request db =
     (if fault then (Err Database, db)
      else
        (case queryRuleSet ruleSetId db of
           None \<Rightarrow> (Err RuleSetNotFound, db)
         | Some current \<Rightarrow>
             if rv_revision current \<noteq> se_revision request then (Err (RuleSetRevisionConflict (rv_revision current)), db)
             else if rv_enabled current = se_enabled request then (Ok current, db)
             else
               (let changed = (if se_enabled request then disableActiveRuleSet now (Some ruleSetId) db else db);
                    db = insertAudit (accountAudit now ''ruleSet.enable'' ruleSetId (enabledDetails (se_enabled request)))
                           (changed\<lparr>at_ruleSets := hm_modify ruleSetId (\<lambda>r. r\<lparr>rv_enabled := se_enabled request,
                                 rv_revision := rv_revision r + 1, rv_updatedAt := now\<rparr>) (at_ruleSets changed)\<rparr>)
                in (ruleSetById readFault ruleSetId db, db))))"

definition removeRuleSet :: "int \<Rightarrow> string \<Rightarrow> str \<Rightarrow> AccountStore \<Rightarrow> AccountStore" where
  "removeRuleSet now action ruleSetId db =
     insertAudit (accountAudit now action ruleSetId noDetails) (db\<lparr>at_ruleSets := hm_remove ruleSetId (at_ruleSets db)\<rparr>)"

definition deleteRuleSet :: "bool \<Rightarrow> int \<Rightarrow> str \<Rightarrow> AccountStore \<Rightarrow> unit service_result \<times> AccountStore" where
  "deleteRuleSet fault now ruleSetId db =
     (if fault then (Err Database, db)
      else if \<not> hm_contains (at_ruleSets db) ruleSetId then (Err RuleSetNotFound, db)
      else (Ok (), removeRuleSet now ''ruleSet.delete'' ruleSetId db))"

definition deleteRuleSetsBatch :: "bool \<Rightarrow> int \<Rightarrow> str list \<Rightarrow> AccountStore \<Rightarrow> nat service_result \<times> AccountStore" where
  "deleteRuleSetsBatch fault now ruleSetIds db =
     (case and_then (validateRuleSetIds ruleSetIds) (\<lambda>_.
             if fault then Err Database
             else if list_ex (\<lambda>i. queryRuleSet i db = None) ruleSetIds then Err RuleSetNotFound else Ok ()) of
        Panic \<Rightarrow> (Panic, db)
      | Err e \<Rightarrow> (Err e, db)
      | Ok _ \<Rightarrow> (Ok (length ruleSetIds), fold (removeRuleSet now ''ruleSet.batchDelete'') ruleSetIds db))"

definition activeRuleSet :: "bool \<Rightarrow> AccountStore \<Rightarrow> RuleSetView service_result" where
  "activeRuleSet fault db =
     (if fault then Err Database
      else (case find rv_enabled (map snd (at_ruleSets db)) of None \<Rightarrow> Err RuleSetNotFound | Some r \<Rightarrow> Ok r))"

end
