(* ===== verification/RuleTextProperties.thy ===== *)
theory RuleTextProperties
  imports RuleSets "HOL-Library.Code_Target_Nat"
begin

text \<open>
  The normal form of a rule text is stable: what the service stores, it accepts again unchanged. The
  size limits are above what unary numbers can evaluate, hence the integer representation of naturals.
\<close>

section \<open>Line ends and blanks\<close>

lemma no_return:
  shows "13 \<notin> set (replace_cr s)" and "13 \<notin> set s \<Longrightarrow> replace_cr (replace_crlf s) = s"
proof -
  show "13 \<notin> set (replace_cr s)" by (auto simp: replace_cr_def)
  have "replace_crlf s = s" if "13 \<notin> set s" using that by (induction s rule: replace_crlf.induct) auto
  moreover have "replace_cr s = s" if "13 \<notin> set s" using that by (auto simp: replace_cr_def intro: map_idI)
  ultimately show "13 \<notin> set s \<Longrightarrow> replace_cr (replace_crlf s) = s" by simp
qed

lemma no_nul: "0 \<in> set (replace_cr (replace_crlf s)) \<longleftrightarrow> 0 \<in> set s"
proof -
  have "0 \<in> set (replace_crlf s) \<longleftrightarrow> 0 \<in> set s" by (induction s rule: replace_crlf.induct) auto
  then show ?thesis by (auto simp: replace_cr_def)
qed

lemma str_len_simps [simp]:
  "str_len [] = 0" "str_len (c # s) = len_utf8 c + str_len s" "str_len (s @ t) = str_len s + str_len t"
  by (simp_all add: str_len_def)

lemma normalized_shorter: "str_len (replace_cr (replace_crlf s)) \<le> str_len s"
proof -
  have "str_len (replace_crlf s) \<le> str_len s" by (induction s rule: replace_crlf.induct) (auto simp: len_utf8_def)
  moreover have "str_len (replace_cr t) = str_len t" for t
    by (induction t) (auto simp: replace_cr_def len_utf8_def)
  ultimately show ?thesis by simp
qed

text \<open>A text is its trimmed part followed by whitespace.\<close>

lemma trim_end_split:
  obtains w where "s = trim_end p s @ w" and "list_all p w"
proof
  show "s = trim_end p s @ rev (takeWhile p (rev s))"
    using takeWhile_dropWhile_id [of p "rev s"] unfolding trim_end_def by (metis rev_append rev_rev_ident)
  show "list_all p (rev (takeWhile p (rev s)))" by (auto simp: list_all_iff dest: set_takeWhileD)
qed

lemma trim_end_append:
  assumes "list_all p w"
  shows "trim_end p (s @ w) = trim_end p s"
proof -
  have "dropWhile p (rev w @ rev s) = dropWhile p (rev s)" using assms by (intro dropWhile_append2) (simp add: list_all_iff)
  then show ?thesis by (simp add: trim_end_def)
qed

lemma trim_end_idem [simp]: "trim_end p (trim_end p s) = trim_end p s"
  by (simp add: trim_end_def)

lemma split_at_append:
  "split_at p (s @ t) = butlast (split_at p s) @ (last (split_at p s) @ hd (split_at p t)) # tl (split_at p t)"
  by (induction s) (auto split: list.split simp: neq_Nil_conv)

lemma split_at_snoc: "p c \<Longrightarrow> split_at p (s @ [c]) = split_at p s @ [[]]"
  by (induction s) (auto split: list.split)

lemma split_at_parts: "x \<in> set (split_at p s) \<Longrightarrow> set x \<subseteq> set s"
  by (induction s arbitrary: x) (fastforce split: list.splits if_splits)+

lemma scanLines_append:
  "scanLines i (xs @ ys) scan = and_then (scanLines i xs scan) (scanLines (i + length xs) ys)"
proof (induction xs arbitrary: i scan)
  case (Cons x xs)
  then show ?case by (cases "scanLine (i + 1) x scan") simp_all
qed simp

lemma normalizedRuleLine_blank:
  assumes "list_all is_whitespace w"
  shows "normalizedRuleLine (line @ w) = normalizedRuleLine line" and "normalizedRuleLine w = []"
proof -
  have hash: "35 \<notin> set w" using assms by (auto simp: list_all_iff is_whitespace_def)
  have "trim (takeWhile (\<lambda>c. c \<noteq> 35) (line @ w)) = trim (takeWhile (\<lambda>c. c \<noteq> 35) line)" for line
  proof (cases "35 \<in> set line")
    case False
    then have "takeWhile (\<lambda>c. c \<noteq> 35) (line @ w) = line @ w" "takeWhile (\<lambda>c. c \<noteq> 35) line = line"
      using hash by (auto intro: takeWhile_eq_all_conv [THEN iffD2])
    then show ?thesis by (simp only: trim_def trim_end_append [OF assms])
  qed simp
  then show keep: "normalizedRuleLine (line @ w) = normalizedRuleLine line" for line by (simp add: normalizedRuleLine_def)
  have "normalizedRuleLine [] = []" by (simp add: normalizedRuleLine_def trim_def trim_end_def)
  then show "normalizedRuleLine w = []" using keep [of "[]"] by simp
qed

text \<open>Blank lines, and blanks at the end of a line, do not change what the scan computes.\<close>

lemma scanLine_blank:
  assumes "list_all is_whitespace w"
  shows "scanLine i (line @ w) scan = Ok scan' \<Longrightarrow> scanLine i line scan = Ok scan'"
    and "scanLine i w scan = Ok scan' \<Longrightarrow> scan' = scan"
    and "scanLine i [] scan = Ok scan"
  using normalizedRuleLine_blank [OF assms] normalizedRuleLine_blank(2) [of "[]"]
  by (auto simp: scanLine_def Let_def split: if_splits)

lemma scanLines_blank:
  assumes "list_all (list_all is_whitespace) ws" and "scanLines i ws scan = Ok scan'"
  shows "scan' = scan"
  using assms by (induction ws arbitrary: i scan) (auto simp: and_then_Ok_iff dest: scanLine_blank(2))

lemma lines_plain:
  assumes "13 \<notin> set s"
  shows "lines s = butlast (split_at newline s) @ (if last (split_at newline s) = [] then [] else [last (split_at newline s)])"
proof -
  have same: "strip_return x = x" if "x \<in> set (split_at newline s)" for x
  proof -
    have "13 \<notin> set x" using split_at_parts [OF that] assms by blast
    then have "strip_suffix [13] x = None" by (auto simp: strip_suffix_Some not_Some_eq [symmetric])
    then show ?thesis by (simp add: strip_return_def)
  qed
  have "map strip_return (butlast (split_at newline s)) = butlast (split_at newline s)"
    by (rule map_idI, rule same, erule in_set_butlastD)
  then show ?thesis by (simp only: lines_def Let_def)
qed

lemma scanLines_lines:
  assumes "13 \<notin> set s"
  shows "scanLines i (lines s) scan = scanLines i (split_at newline s) scan"
proof -
  have "scanLines i (xs @ [[]]) scan = scanLines i xs scan" for xs
    using scanLine_blank(3) [of "[]"] by (cases "scanLines i xs scan") (simp_all add: scanLines_append)
  moreover have "butlast (split_at newline s) @ [last (split_at newline s)] = split_at newline s" by simp
  ultimately show ?thesis unfolding lines_plain [OF assms] by (metis append_Nil2)
qed

lemma scanLines_trimmed:
  assumes w: "list_all is_whitespace w" and scan: "scanLines i (split_at newline (s @ w)) scan = Ok scan'"
  shows "scanLines i (split_at newline s) scan = Ok scan'"
proof -
  let ?a = "split_at newline s" and ?b = "split_at newline w"
  have blank: "list_all is_whitespace x" if "x \<in> set ?b" for x
    using split_at_parts [OF that] w by (auto simp: list_all_iff)
  obtain s1 s2 where s1: "scanLines i (butlast ?a) scan = Ok s1"
    and s2: "scanLine (i + length (butlast ?a) + 1) (last ?a @ hd ?b) s1 = Ok s2"
    and s3: "scanLines (i + length (butlast ?a) + 1) (tl ?b) s2 = Ok scan'"
    using scan unfolding split_at_append scanLines_append by (auto simp: and_then_Ok_iff)
  have "scanLine (i + length (butlast ?a) + 1) (last ?a) s1 = Ok s2"
    using scanLine_blank(1) [OF blank s2] by simp
  moreover have "scan' = s2"
    using scanLines_blank [OF _ s3] blank list.set_sel(2) [of ?b] by (auto simp: list_all_iff)
  ultimately have "scanLines i (butlast ?a @ [last ?a]) scan = Ok scan'"
    unfolding scanLines_append s1 by (simp only: and_then.simps scanLines.simps)
  then show ?thesis by simp
qed

lemma validatedRuleSetContentD:
  assumes "validatedRuleSetContent c = Ok v"
  obtains s where "v = s @ [10]" and "trim_end is_whitespace s = s" and "13 \<notin> set s" and "0 \<notin> set s"
    and "str_len s \<le> maximumRuleSetContentBytes" and "validateRoutingSections (s @ [10]) = Ok ()"
proof -
  let ?n = "replace_cr (replace_crlf c)" and ?s = "trim_end is_whitespace (replace_cr (replace_crlf c))"
  obtain w where n: "?n = ?s @ w" and w: "list_all is_whitespace w" by (rule trim_end_split)
  have size: "str_len c \<le> maximumRuleSetContentBytes" "0 \<notin> set c" and sections: "validateRoutingSections ?n = Ok ()" and v: "v = ?s @ [10]"
    using assms by (auto simp: validatedRuleSetContent_def Let_def and_then_Ok_iff split: if_splits)
  have clean: "13 \<notin> set ?n" by (rule no_return)
  have sub: "set ?s \<subseteq> set ?n" using arg_cong [OF n, of set] by auto
  have plain: "13 \<notin> set ?s" "0 \<notin> set ?s" using sub clean size(2) no_nul [of c] by auto
  obtain scan where scan: "scanLines 0 (split_at newline ?n) RoutingScan_new = Ok scan" and fin: "finishScan scan = Ok ()"
    using sections by (auto simp: validateRoutingSections_def scanLines_lines [OF clean] and_then_Ok_iff)
  have "scanLines 0 (split_at newline ?s) RoutingScan_new = Ok scan"
    using scanLines_trimmed [OF w] scan n by metis
  then have "scanLines 0 (split_at newline (?s @ [10])) RoutingScan_new = Ok scan"
    using scanLine_blank(3) [of "[]"] by (auto simp: split_at_snoc newline_def scanLines_append)
  then have "validateRoutingSections (?s @ [10]) = Ok ()"
    using fin scanLines_lines [of "?s @ [10]"] plain by (simp add: validateRoutingSections_def)
  moreover have "str_len ?s \<le> maximumRuleSetContentBytes"
    using size(1) normalized_shorter [of c] arg_cong [OF n, of str_len] by simp
  ultimately show ?thesis using that [of ?s] v plain by simp
qed

text \<open>The lines of an accepted text: no legacy section header, and a \<open>[DNS]\<close> header.\<close>

lemma lower_bracket: "to_ascii_lower c = 91 \<longleftrightarrow> c = 91" "to_ascii_lower c = 93 \<longleftrightarrow> c = 93"
  by (auto simp: to_ascii_lower_def)

lemma legacy_line_refused:
  assumes "eq_ignore_ascii_case line (lit ''[proxy app]'')"
  shows "scanRule i line scan = Err (Validation (RuleSetLine i))"
proof -
  have low: "map to_ascii_lower line = map to_ascii_lower (lit ''[proxy app]'')"
    using assms by (simp add: eq_ignore_ascii_case_def to_ascii_lowercase_def)
  have "map to_ascii_lower (lit ''[proxy app]'') = 91 # map to_ascii_lower (lit ''proxy app'') @ [93]" by code_simp
  then have "map to_ascii_lower line = 91 # map to_ascii_lower (lit ''proxy app'') @ [93]" using low by simp
  then obtain xs where line: "line = 91 # xs @ [93]"
    by (auto simp: map_eq_Cons_conv map_eq_append_conv lower_bracket)
  then have "starts_with [91] line" "ends_with [93] line"
    using strip_suffix_Some [of "[93]" line "91 # xs"] by (auto simp: starts_with_def ends_with_def strip_prefix_def)
  moreover have "section_of line = None"
    unfolding section_of_def eq_ignore_ascii_case_def to_ascii_lowercase_def low by code_simp
  ultimately show ?thesis by (simp add: scanRule_def)
qed

lemma scanRule_sections:
  assumes "scanRule i line scan = Ok scan'" and "DnsSection \<in> set (sc_sections scan')" and "DnsSection \<notin> set (sc_sections scan)"
  shows "eq_ignore_ascii_case line (lit ''[DNS]'')"
  using assms by (auto simp: scanRule_def section_of_def and_then_Ok_iff split: if_splits option.splits RuleSection.splits)

lemma scanLines_headers:
  assumes "scanLines i ls scan = Ok scan'"
  shows "\<not> list_ex legacyProxySection ls"
    and "DnsSection \<in> set (sc_sections scan') \<Longrightarrow> DnsSection \<notin> set (sc_sections scan) \<Longrightarrow>
      list_ex (\<lambda>l. eq_ignore_ascii_case (normalizedRuleLine l) (lit ''[DNS]'')) ls"
  using assms
proof (induction ls arbitrary: i scan)
  case (Cons l ls)
  let ?line = "normalizedRuleLine l"
  {
    case 1
    then obtain mid where mid: "scanLine (i + 1) l scan = Ok mid" and rest: "scanLines (i + 1) ls mid = Ok scan'"
      by (auto simp: and_then_Ok_iff)
    have "\<not> eq_ignore_ascii_case [] (lit ''[proxy app]'')" by (simp add: eq_ignore_ascii_case_def to_ascii_lowercase_def lit_def)
    then have "\<not> legacyProxySection l"
      using mid legacy_line_refused [of ?line "i + 1" scan]
      by (auto simp: legacyProxySection_def scanLine_def Let_def split: if_splits)
    then show ?case using Cons.IH(1) [OF rest] by simp
  next
    case 2
    then obtain mid where mid: "scanLine (i + 1) l scan = Ok mid" and rest: "scanLines (i + 1) ls mid = Ok scan'"
      by (auto simp: and_then_Ok_iff)
    show ?case
    proof (cases "DnsSection \<in> set (sc_sections mid)")
      case True
      then have "eq_ignore_ascii_case ?line (lit ''[DNS]'')"
        using mid 2(2) scanRule_sections [of "i + 1" ?line scan mid] by (auto simp: scanLine_def Let_def split: if_splits)
      then show ?thesis by simp
    next
      case False
      then show ?thesis using Cons.IH(2) [OF 2(1) _ rest] by simp
    qed
  }
qed simp_all

lemma join_split: "join_lines (split_at newline s) = s"
proof (induction s)
  case (Cons c s)
  then show ?case by (cases "split_at newline s" rule: join_lines.cases) (auto simp: newline_def [of c])
qed simp

lemma list_ex_last:
  assumes "\<not> P []" and "list_ex P xs"
  shows "list_ex P (butlast xs @ (if last xs = [] then [] else [last xs]))"
  using assms by (cases xs rule: rev_cases) auto

lemma migrate_stored:
  assumes clean: "13 \<notin> set s" and sections: "validateRoutingSections (s @ [10]) = Ok ()"
    and valid: "validatedRuleSetContent (s @ [10]) = Ok v"
  shows "migrateLegacyRuleSetContent (s @ [10]) = Ok None"
proof -
  let ?dns = "\<lambda>l. eq_ignore_ascii_case (normalizedRuleLine l) (lit ''[DNS]'')"
  have ls: "lines (s @ [10]) = split_at newline s"
    using clean by (simp add: lines_plain split_at_snoc newline_def [of 10])
  obtain scan where scan: "scanLines 0 (split_at newline s) RoutingScan_new = Ok scan" and "finishScan scan = Ok ()"
    using sections by (auto simp: validateRoutingSections_def ls and_then_Ok_iff)
  then have legacy: "\<not> list_ex legacyProxySection (split_at newline s)" and dns: "list_ex ?dns (split_at newline s)"
    using scanLines_headers [OF scan] by (auto simp: finishScan_def RoutingScan_new_def split: if_splits)
  have "map (\<lambda>l. if legacyProxySection l then lit ''[proxy_app]'' else l) (split_at newline s) = split_at newline s"
    using legacy by (intro map_idI) (auto simp: list_ex_iff)
  then have join: "join_lines (map (\<lambda>l. if legacyProxySection l then lit ''[proxy_app]'' else l) (split_at newline s)) = s"
    by (simp only: join_split)
  have "\<not> ?dns []" by code_simp
  then have "list_ex ?dns (lines s)"
    unfolding lines_plain [OF clean] by (rule list_ex_last) (rule dns)
  then show ?thesis using legacy valid unfolding migrateLegacyRuleSetContent_def ls Let_def join by simp
qed

text \<open>
  C38: the stored form of an accepted rule text. It ends with exactly one line feed, has no carriage
  return, no NUL and no trailing blanks, and the service accepts it again and stores it unchanged,
  provided it has not grown past the size limit: the appended line feed may take it one byte above.
  The database migration leaves such a text alone.
\<close>

theorem rule_text_normal_form:
  assumes "validatedRuleSetContent c = Ok v"
  shows "validatedRuleSetContent v = (if str_len v \<le> maximumRuleSetContentBytes then Ok v else Err (Validation RuleSetSize))
    \<and> (str_len v \<le> maximumRuleSetContentBytes \<longrightarrow> migrateLegacyRuleSetContent v = Ok None)
    \<and> (\<exists>s. v = s @ [10] \<and> trim_end is_whitespace s = s) \<and> 13 \<notin> set v \<and> 0 \<notin> set v
    \<and> str_len v \<le> maximumRuleSetContentBytes + 1"
proof -
  obtain s where v: "v = s @ [10]" and trimmed: "trim_end is_whitespace s = s" and clean: "13 \<notin> set s" "0 \<notin> set s"
    and size: "str_len s \<le> maximumRuleSetContentBytes" and sections: "validateRoutingSections (s @ [10]) = Ok ()"
    using assms by (rule validatedRuleSetContentD)
  have "trim_end is_whitespace v = s"
    unfolding v using trim_end_append [of is_whitespace "[10]" s] trimmed by (simp add: is_whitespace_def)
  moreover have "replace_cr (replace_crlf v) = v" using clean by (intro no_return(2)) (simp add: v)
  ultimately have again: "validatedRuleSetContent v = (if str_len v \<le> maximumRuleSetContentBytes then Ok v else Err (Validation RuleSetSize))"
    using clean sections by (auto simp: validatedRuleSetContent_def v)
  moreover have "str_len v \<le> maximumRuleSetContentBytes \<Longrightarrow> migrateLegacyRuleSetContent v = Ok None"
    using again migrate_stored [OF clean(1) sections] by (simp add: v)
  ultimately show ?thesis using v trimmed clean size by (auto simp: len_utf8_def)
qed

definition sampleRules :: str where
  "sampleRules = lit ''[DNS]'' @ [10] @ lit ''PRIMARY,1.1.1.1'' @ [13, 10] @ lit ''[RoutingRule]'' @ [10] @ lit ''[GRoutingRule]'' @ [10]
     @ lit ''FINAL,DIRECT # end'' @ [13] @ lit ''[proxy_app]'' @ [32, 10, 10]"

definition sampleStored :: str where
  "sampleStored = lit ''[DNS]'' @ [10] @ lit ''PRIMARY,1.1.1.1'' @ [10] @ lit ''[RoutingRule]'' @ [10] @ lit ''[GRoutingRule]'' @ [10]
     @ lit ''FINAL,DIRECT # end'' @ [10] @ lit ''[proxy_app]'' @ [10]"

lemma sampleRules_accepted: "validatedRuleSetContent sampleRules = Ok sampleStored"
  by code_simp

theorem rule_text_normal_form_witness: "validatedRuleSetContent sampleStored = Ok sampleStored"
proof -
  have "str_len sampleStored \<le> maximumRuleSetContentBytes" by code_simp
  then show ?thesis using rule_text_normal_form [OF sampleRules_accepted] by simp
qed

end
