(* ===== verification/RuleSetProperties.thy ===== *)
theory RuleSetProperties
  imports RuleTextProperties
begin

text \<open>
  The rule set table keeps its promises under every sequence of operations and failures.
\<close>

section \<open>The table invariant\<close>

definition valid_rule :: "RuleSetView \<Rightarrow> bool" where
  "valid_rule r \<longleftrightarrow> (\<exists>name. validatedRuleSetName name = Ok (rv_name r)) \<and> (\<exists>content. validatedRuleSetContent content = Ok (rv_content r))
     \<and> 0 < rv_revision r"

definition rules_ok :: "(str, RuleSetView) hashmap \<Rightarrow> bool" where
  "rules_ok rules \<longleftrightarrow> hm_wf rules
     \<and> (\<forall>k r. hm_get rules k = Some r \<longrightarrow> rv_ruleSetId r = k \<and> valid_rule r)
     \<and> (\<forall>k r k' r'. hm_get rules k = Some r \<longrightarrow> hm_get rules k' = Some r' \<longrightarrow> rv_name r = rv_name r' \<longrightarrow> k = k')
     \<and> (\<forall>k r k' r'. hm_get rules k = Some r \<longrightarrow> hm_get rules k' = Some r' \<longrightarrow> rv_enabled r \<longrightarrow> rv_enabled r' \<longrightarrow> k = k')"

lemma rules_okD:
  assumes "rules_ok rules"
  shows "hm_wf rules"
    and "\<And>k r. hm_get rules k = Some r \<Longrightarrow> rv_ruleSetId r = k"
    and "\<And>k r. hm_get rules k = Some r \<Longrightarrow> valid_rule r"
    and "\<And>k r k' r'. hm_get rules k = Some r \<Longrightarrow> hm_get rules k' = Some r' \<Longrightarrow> rv_name r = rv_name r' \<Longrightarrow> k = k'"
    and "\<And>k r k' r'. hm_get rules k = Some r \<Longrightarrow> hm_get rules k' = Some r' \<Longrightarrow> rv_enabled r \<Longrightarrow> rv_enabled r' \<Longrightarrow> k = k'"
  using assms unfolding rules_ok_def by blast+

lemma nameTaken_iff:
  assumes wf: "hm_wf (at_ruleSets db)"
  shows "nameTaken i name db \<longleftrightarrow> (\<exists>k r. k \<noteq> i \<and> hm_get (at_ruleSets db) k = Some r \<and> rv_name r = name)"
proof -
  have "nameTaken i name db \<longleftrightarrow> (\<exists>k r. (k, r) \<in> set (at_ruleSets db) \<and> k \<noteq> i \<and> rv_name r = name)"
    unfolding nameTaken_def list_ex_iff by force
  then show ?thesis unfolding hm_in_set [OF wf] by blast
qed

text \<open>Replacing one row by a valid one, with a free name, and enabled only if no other row is.\<close>

lemma rules_ok_put:
  assumes ok: "rules_ok rules" and wf: "hm_wf rules'" and got: "hm_get rules' = (hm_get rules)(i \<mapsto> row)"
    and row: "rv_ruleSetId row = i" "valid_rule row"
    and name: "\<And>k r. k \<noteq> i \<Longrightarrow> hm_get rules k = Some r \<Longrightarrow> rv_name r \<noteq> rv_name row"
    and enabled: "\<And>k r. k \<noteq> i \<Longrightarrow> hm_get rules k = Some r \<Longrightarrow> rv_enabled row \<Longrightarrow> \<not> rv_enabled r"
  shows "rules_ok rules'"
  unfolding rules_ok_def got
proof (intro conjI allI impI)
  show "hm_wf rules'" by (rule wf)
  fix k r assume k: "((hm_get rules)(i \<mapsto> row)) k = Some r"
  show "rv_ruleSetId r = k" "valid_rule r"
    using k row rules_okD(2,3) [OF ok, of k r] by (auto split: if_splits)
  fix k' r' assume k': "((hm_get rules)(i \<mapsto> row)) k' = Some r'"
  show "k = k'" if "rv_name r = rv_name r'"
    using k k' that name [of k r] name [of k' r'] rules_okD(4) [OF ok, of k r k' r'] by (auto split: if_splits)
  show "k = k'" if "rv_enabled r" "rv_enabled r'"
    using k k' that enabled [of k r] enabled [of k' r'] rules_okD(5) [OF ok, of k r k' r'] by (auto split: if_splits)
qed

lemma rules_ok_subset:
  assumes "rules_ok rules" and "hm_wf rules'" and "\<And>k r. hm_get rules' k = Some r \<Longrightarrow> hm_get rules k = Some r"
  shows "rules_ok rules'"
  unfolding rules_ok_def
proof (intro conjI allI impI)
  show "hm_wf rules'" by (rule assms(2))
  fix k r assume k: "hm_get rules' k = Some r"
  note r = assms(3) [OF k]
  show "rv_ruleSetId r = k" "valid_rule r" by (rule rules_okD(2) [OF assms(1) r], rule rules_okD(3) [OF assms(1) r])
  fix k' r' assume "hm_get rules' k' = Some r'"
  note r' = assms(3) [OF this]
  show "k = k'" if "rv_name r = rv_name r'" by (rule rules_okD(4) [OF assms(1) r r' that])
  show "k = k'" if "rv_enabled r" "rv_enabled r'" by (rule rules_okD(5) [OF assms(1) r r' that])
qed

text \<open>Disabling keeps identifiers, names and contents, and leaves at most the excluded row enabled.\<close>

lemma disableActive_get:
  "hm_get (at_ruleSets (disableActiveRuleSet now (Some i) db)) k =
     map_option (\<lambda>r. if rv_enabled r \<and> rv_ruleSetId r \<noteq> i then r\<lparr>rv_enabled := False, rv_revision := rv_revision r + 1, rv_updatedAt := now\<rparr> else r)
       (hm_get (at_ruleSets db) k)"
  unfolding disableActiveRuleSet_def by (auto simp: hm_get_update_all intro!: option.map_cong)

lemma disableActive_ok:
  assumes ok: "rules_ok (at_ruleSets db)"
  shows "rules_ok (at_ruleSets (disableActiveRuleSet now (Some i) db))"
    and "hm_get (at_ruleSets (disableActiveRuleSet now (Some i) db)) k = Some r \<Longrightarrow> k \<noteq> i \<Longrightarrow> \<not> rv_enabled r"
    and "hm_get (at_ruleSets (disableActiveRuleSet now (Some i) db)) k = Some r \<Longrightarrow>
      \<exists>r0. hm_get (at_ruleSets db) k = Some r0 \<and> rv_name r0 = rv_name r"
    and "hm_get (at_ruleSets (disableActiveRuleSet now (Some i) db)) i = hm_get (at_ruleSets db) i"
proof -
  let ?rules = "at_ruleSets (disableActiveRuleSet now (Some i) db)"
  have origin: "\<exists>r0. hm_get (at_ruleSets db) k = Some r0 \<and> rv_name r = rv_name r0 \<and> rv_ruleSetId r = rv_ruleSetId r0
      \<and> (rv_enabled r \<longrightarrow> rv_enabled r0 \<and> rv_ruleSetId r0 = i) \<and> (valid_rule r0 \<longrightarrow> valid_rule r)"
    if "hm_get ?rules k = Some r" for k r
  proof -
    let ?off = "\<lambda>r :: RuleSetView. r\<lparr>rv_enabled := False, rv_revision := rv_revision r + 1, rv_updatedAt := now\<rparr>"
    from that obtain r0 where r0: "hm_get (at_ruleSets db) k = Some r0"
      and r: "r = (if rv_enabled r0 \<and> rv_ruleSetId r0 \<noteq> i then ?off r0 else r0)"
      by (auto simp: disableActive_get)
    have "valid_rule r0 \<longrightarrow> valid_rule (?off r0)" by (auto simp: valid_rule_def)
    then show ?thesis using r0 by (cases "rv_enabled r0 \<and> rv_ruleSetId r0 \<noteq> i") (auto simp: r)
  qed
  show "rules_ok ?rules"
    unfolding rules_ok_def
  proof (intro conjI allI impI)
    show "hm_wf ?rules" using rules_okD(1) [OF ok] by (simp add: disableActiveRuleSet_def)
    fix k r assume k: "hm_get ?rules k = Some r"
    from origin [OF this] rules_okD(2,3) [OF ok] show "rv_ruleSetId r = k" "valid_rule r" by fastforce+
    fix k' r' assume k': "hm_get ?rules k' = Some r'"
    show "k = k'" if "rv_name r = rv_name r'"
      using origin [OF k] origin [OF k'] that rules_okD(4) [OF ok] by metis
    show "k = k'" if "rv_enabled r" "rv_enabled r'"
      using origin [OF k] origin [OF k'] that rules_okD(5) [OF ok] by metis
  qed
  show "\<not> rv_enabled r" if "hm_get ?rules k = Some r" "k \<noteq> i"
    using origin [OF that(1)] rules_okD(2) [OF ok] that(2) by fastforce
  show "\<exists>r0. hm_get (at_ruleSets db) k = Some r0 \<and> rv_name r0 = rv_name r" if "hm_get ?rules k = Some r"
    using origin [OF that] by fastforce
  show "hm_get ?rules i = hm_get (at_ruleSets db) i"
    using rules_okD(2) [OF ok, of i] by (cases "hm_get (at_ruleSets db) i") (auto simp: disableActive_get)
qed


section \<open>Every operation keeps the invariant\<close>

lemma ruleSets_insertAudit [simp]: "at_ruleSets (insertAudit e db) = at_ruleSets db"
  by (simp add: insertAudit_def)

lemma createRuleSet_ok:
  assumes ok: "rules_ok (at_ruleSets db)"
  shows "rules_ok (at_ruleSets (snd (createRuleSet f1 f2 now i request db)))"
proof (cases "and_then (validatedRuleSetName (cr_name request)) (\<lambda>name.
           and_then (validatedRuleSetContent (cr_content request)) (\<lambda>content. Ok (name, content)))")
  case (Ok a)
  obtain name content where a: "a = (name, content)" by fastforce
  from Ok a have valid: "validatedRuleSetName (cr_name request) = Ok name" "validatedRuleSetContent (cr_content request) = Ok content"
    by (auto simp: and_then_Ok_iff)
  let ?changed = "if cr_enabled request then disableActiveRuleSet now (Some i) db else db"
  let ?row = "\<lparr>rv_ruleSetId = i, rv_name = name, rv_content = content, rv_enabled = cr_enabled request,
                rv_revision = 1, rv_createdAt = now, rv_updatedAt = now\<rparr>"
  have changed: "rules_ok (at_ruleSets ?changed)" using ok disableActive_ok(1) [OF ok] by simp
  have "rules_ok (hm_insert i ?row (at_ruleSets ?changed))" if "\<not> nameTaken i name db"
  proof (rule rules_ok_put [OF changed])
    show "hm_wf (hm_insert i ?row (at_ruleSets ?changed))" using rules_okD(1) [OF changed] by simp
    show "hm_get (hm_insert i ?row (at_ruleSets ?changed)) = (hm_get (at_ruleSets ?changed))(i \<mapsto> ?row)" by (rule hm_get_insert)
    show "rv_ruleSetId ?row = i" "valid_rule ?row" using valid by (auto simp: valid_rule_def)
    fix k r assume k: "k \<noteq> i" "hm_get (at_ruleSets ?changed) k = Some r"
    then obtain r0 where "hm_get (at_ruleSets db) k = Some r0" "rv_name r0 = rv_name r"
      using disableActive_ok(3) [OF ok, of now i k r] by (auto split: if_splits)
    then show "rv_name r \<noteq> rv_name ?row" using that k(1) nameTaken_iff [OF rules_okD(1) [OF ok]] by fastforce
    show "\<not> rv_enabled r" if "rv_enabled ?row" using that k disableActive_ok(2) [OF ok, of now i k r] by simp
  qed
  then show ?thesis using ok Ok a by (simp add: createRuleSet_def Let_def)
qed (use ok in \<open>simp_all add: createRuleSet_def\<close>)

lemma updateRuleSet_ok:
  assumes ok: "rules_ok (at_ruleSets db)"
  shows "rules_ok (at_ruleSets (snd (updateRuleSet f1 f2 now i request db)))"
proof (cases "and_then (validatedRuleSetName (ur_name request)) (\<lambda>name.
           and_then (validatedRuleSetContent (ur_content request)) (\<lambda>content.
             if f1 then Err Database
             else and_then (requireRuleSetRevision i (ur_revision request) db) (\<lambda>_. Ok (name, content))))")
  case (Ok a)
  obtain name content where a: "a = (name, content)" by fastforce
  from Ok a obtain rev where valid: "validatedRuleSetName (ur_name request) = Ok name" "validatedRuleSetContent (ur_content request) = Ok content"
    and "requireRuleSetRevision i (ur_revision request) db = Ok rev"
    by (auto simp: and_then_Ok_iff split: if_splits)
  then obtain r0 where r0: "hm_get (at_ruleSets db) i = Some r0" by (auto simp: requireRuleSetRevision_def split: option.splits)
  let ?f = "\<lambda>r :: RuleSetView. r\<lparr>rv_name := name, rv_content := content, rv_revision := rv_revision r + 1, rv_updatedAt := now\<rparr>"
  have "rules_ok (hm_modify i ?f (at_ruleSets db))" if "\<not> nameTaken i name db"
  proof (rule rules_ok_put [OF ok])
    show "hm_wf (hm_modify i ?f (at_ruleSets db))" using rules_okD(1) [OF ok] by simp
    show "hm_get (hm_modify i ?f (at_ruleSets db)) = (hm_get (at_ruleSets db))(i \<mapsto> ?f r0)" using r0 by (auto simp: hm_get_modify fun_eq_iff)
    show "rv_ruleSetId (?f r0) = i" "valid_rule (?f r0)" using valid rules_okD(2,3) [OF ok r0] by (auto simp: valid_rule_def)
    fix k r assume k: "k \<noteq> i" "hm_get (at_ruleSets db) k = Some r"
    then show "rv_name r \<noteq> rv_name (?f r0)" using that nameTaken_iff [OF rules_okD(1) [OF ok]] by auto
    show "\<not> rv_enabled r" if "rv_enabled (?f r0)" using that k rules_okD(5) [OF ok k(2) r0] by auto
  qed
  then show ?thesis using ok Ok a by (simp add: updateRuleSet_def Let_def)
qed (use ok in \<open>simp_all add: updateRuleSet_def\<close>)

lemma setRuleSetEnabled_ok:
  assumes ok: "rules_ok (at_ruleSets db)"
  shows "rules_ok (at_ruleSets (snd (setRuleSetEnabled f1 f2 now i request db)))"
proof (cases "hm_get (at_ruleSets db) i")
  case None
  then show ?thesis using ok by (simp add: setRuleSetEnabled_def queryRuleSet_def)
next
  case (Some r0)
  let ?changed = "if se_enabled request then disableActiveRuleSet now (Some i) db else db"
  let ?f = "\<lambda>r :: RuleSetView. r\<lparr>rv_enabled := se_enabled request, rv_revision := rv_revision r + 1, rv_updatedAt := now\<rparr>"
  have changed: "rules_ok (at_ruleSets ?changed)" using ok disableActive_ok(1) [OF ok] by simp
  have r0: "hm_get (at_ruleSets ?changed) i = Some r0" using Some disableActive_ok(4) [OF ok, of now i] by simp
  have "rules_ok (hm_modify i ?f (at_ruleSets ?changed))"
  proof (rule rules_ok_put [OF changed])
    show "hm_wf (hm_modify i ?f (at_ruleSets ?changed))" using rules_okD(1) [OF changed] by simp
    show "hm_get (hm_modify i ?f (at_ruleSets ?changed)) = (hm_get (at_ruleSets ?changed))(i \<mapsto> ?f r0)"
      using r0 by (auto simp: hm_get_modify fun_eq_iff)
    show "rv_ruleSetId (?f r0) = i" "valid_rule (?f r0)" using rules_okD(2,3) [OF changed r0] by (auto simp: valid_rule_def)
    fix k r assume k: "k \<noteq> i" "hm_get (at_ruleSets ?changed) k = Some r"
    then show "rv_name r \<noteq> rv_name (?f r0)" using rules_okD(4) [OF changed k(2) r0] by auto
    show "\<not> rv_enabled r" if "rv_enabled (?f r0)" using that k disableActive_ok(2) [OF ok, of now i k r] by simp
  qed
  then show ?thesis using ok Some by (simp add: setRuleSetEnabled_def queryRuleSet_def Let_def)
qed

lemma removeRuleSet_ok:
  assumes ok: "rules_ok (at_ruleSets db)"
  shows "rules_ok (at_ruleSets (removeRuleSet now action i db))"
proof (rule rules_ok_subset [OF ok])
  show "hm_wf (at_ruleSets (removeRuleSet now action i db))" using rules_okD(1) [OF ok] by (simp add: removeRuleSet_def)
  show "hm_get (at_ruleSets db) k = Some r" if "hm_get (at_ruleSets (removeRuleSet now action i db)) k = Some r" for k r
    using that by (simp add: removeRuleSet_def hm_get_remove split: if_splits)
qed

lemma deleteRuleSets_ok:
  assumes ok: "rules_ok (at_ruleSets db)"
  shows "rules_ok (at_ruleSets (snd (deleteRuleSet f1 now i db)))"
    and "rules_ok (at_ruleSets (snd (deleteRuleSetsBatch f1 now ids db)))"
proof -
  show "rules_ok (at_ruleSets (snd (deleteRuleSet f1 now i db)))" using ok removeRuleSet_ok by (auto simp: deleteRuleSet_def)
  have "rules_ok (at_ruleSets (fold (removeRuleSet now action) ids db))" for action
    using ok by (induction ids arbitrary: db) (auto intro: removeRuleSet_ok)
  then show "rules_ok (at_ruleSets (snd (deleteRuleSetsBatch f1 now ids db)))"
    using ok by (simp add: deleteRuleSetsBatch_def split: outcome.split)
qed

inductive rule_step :: "AccountStore \<Rightarrow> AccountStore \<Rightarrow> bool" where
  step_createRule: "rule_step db (snd (createRuleSet f1 f2 now i create db))"
| step_updateRule: "rule_step db (snd (updateRuleSet f1 f2 now i update db))"
| step_enableRule: "rule_step db (snd (setRuleSetEnabled f1 f2 now i enable db))"
| step_deleteRule: "rule_step db (snd (deleteRuleSet f1 now i db))"
| step_deleteRules: "rule_step db (snd (deleteRuleSetsBatch f1 now ids db))"

interpretation rules: safe_system "\<lambda>db. at_ruleSets db = []" rule_step "\<lambda>db. rules_ok (at_ruleSets db)"
proof
  show "rules_ok (at_ruleSets s)" if "at_ruleSets s = []" for s using that by (simp add: rules_ok_def)
  show "rules_ok (at_ruleSets t)" if "rules_ok (at_ruleSets s)" "rule_step s t" for s t
    using that(2,1) by (cases rule: rule_step.cases)
      (auto intro: createRuleSet_ok updateRuleSet_ok setRuleSetEnabled_ok deleteRuleSets_ok)
qed

abbreviation reachable_rules :: "AccountStore \<Rightarrow> bool" where
  "reachable_rules \<equiv> reach (\<lambda>db. at_ruleSets db = []) rule_step"

text \<open>
  C37: after any sequence of creations, edits, switches and deletions of rule sets, with any database
  failures, at most one rule set is enabled and the download endpoint returns exactly that one; names
  are unique, and every stored name and text has passed its validation.
\<close>

theorem one_active_rule_set:
  assumes "reachable_rules db"
  shows "(\<forall>r. activeRuleSet False db = Ok r \<longleftrightarrow> (\<exists>k. hm_get (at_ruleSets db) k = Some r \<and> rv_enabled r))
    \<and> (activeRuleSet False db = Err RuleSetNotFound \<longleftrightarrow> (\<nexists>k r. hm_get (at_ruleSets db) k = Some r \<and> rv_enabled r))
    \<and> (\<forall>k r k' r'. hm_get (at_ruleSets db) k = Some r \<and> hm_get (at_ruleSets db) k' = Some r' \<and> rv_name r = rv_name r' \<longrightarrow> k = k')
    \<and> (\<forall>k r. hm_get (at_ruleSets db) k = Some r \<longrightarrow> rv_ruleSetId r = k \<and> valid_rule r)"
proof -
  have ok: "rules_ok (at_ruleSets db)" using assms by (rule rules.reach_inv)
  have stored: "r \<in> set (map snd (at_ruleSets db)) \<longleftrightarrow> (\<exists>k. hm_get (at_ruleSets db) k = Some r)" for r
    using hm_in_set [OF rules_okD(1) [OF ok]] by force
  have unique: "r = r'" if "\<exists>k. hm_get (at_ruleSets db) k = Some r" "\<exists>k. hm_get (at_ruleSets db) k = Some r'" "rv_enabled r" "rv_enabled r'" for r r'
    using that rules_okD(5) [OF ok] by (metis option.inject)
  have active: "activeRuleSet False db = Ok r \<longleftrightarrow> (\<exists>k. hm_get (at_ruleSets db) k = Some r \<and> rv_enabled r)" for r
  proof (cases "find rv_enabled (map snd (at_ruleSets db))")
    case None
    then have "\<not> (r \<in> set (map snd (at_ruleSets db)) \<and> rv_enabled r)" by (auto simp: find_None_iff)
    then show ?thesis using None unfolding activeRuleSet_def stored by auto
  next
    case (Some r')
    then have "r' \<in> set (map snd (at_ruleSets db))" "rv_enabled r'" by (auto simp: find_Some_iff)
    then show ?thesis using Some unique [of r r'] unfolding activeRuleSet_def stored by auto
  qed
  moreover have "activeRuleSet False db = Err RuleSetNotFound \<longleftrightarrow> (\<nexists>r. activeRuleSet False db = Ok r)"
    by (auto simp: activeRuleSet_def split: option.splits)
  ultimately show ?thesis using rules_okD(2-4) [OF ok] by auto
qed

text \<open>Two enabled rule sets are created, one after the other: the second is the active one.\<close>

definition sampleStore :: AccountStore where
  "sampleStore =
     (let create = (\<lambda>name. \<lparr>cr_name = name, cr_content = sampleRules, cr_enabled = True\<rparr>);
          db = snd (createRuleSet False False 5 (lit ''a'') (create (lit ''first'')) AccountStore_empty)
      in snd (createRuleSet False False 6 (lit ''b'') (create (lit ''second'')) db))"

theorem one_active_rule_set_witness:
  "\<exists>r. hm_get (at_ruleSets sampleStore) (lit ''b'') = Some r \<and> activeRuleSet False sampleStore = Ok r"
proof -
  have "reachable_rules sampleStore"
    unfolding sampleStore_def Let_def
    by (rule reach_step [rotated], rule step_createRule, rule reach_step [rotated], rule step_createRule, rule reach_init)
      (simp add: AccountStore_empty_def)
  moreover have "map_option rv_enabled (hm_get (at_ruleSets sampleStore) (lit ''b'')) = Some True" by code_simp
  ultimately show ?thesis using one_active_rule_set [of sampleStore] by auto
qed

end
