(* ===== verification/StreamSession.thy ===== *)
theory StreamSession
  imports PacketFilter
begin

text \<open>
  The connection level stream transformer of \<open>PluginHost/src/streamTransformer.rs\<close>: TCP reads are
  reassembled in a bounded buffer per direction, a plugin decides on the buffered window, and the host
  checks every decision before it publishes output. The plugin is the argument \<open>transform\<close> on a plugin
  state of any type; the timeout of a call is one of the errors it may return. JSON values have the
  type \<open>'j\<close>. The theorems hold for every plugin.
\<close>

section \<open>Data\<close>

definition MAXIMUM_STREAM_BUFFER_BYTES :: nat where "MAXIMUM_STREAM_BUFFER_BYTES = 16 * 1024 * 1024"
definition MAXIMUM_OUTPUT_FRAMES_PER_DECISION :: nat where "MAXIMUM_OUTPUT_FRAMES_PER_DECISION = 1024"
definition MAXIMUM_DECODED_FIELDS_PER_FRAME :: nat where "MAXIMUM_DECODED_FIELDS_PER_FRAME = 16384"

definition usize_max :: nat where "usize_max = 2 ^ 64 - 1"

definition checked_add :: "nat \<Rightarrow> nat \<Rightarrow> nat option" where
  "checked_add a b = (if usize_max < a + b then None else Some (a + b))"

record 'j DecodedField =
  df_path :: str
  df_valueType :: str
  df_value :: 'j
  df_offset :: nat
  df_length :: nat
  df_editable :: bool

record 'j DecodedFrame =
  dr_frameType :: str
  dr_protocolVersion :: "str option"
  dr_correlationId :: "str option"
  dr_fields :: "'j DecodedField list"
  dr_annotations :: "'j list"

record 'j StreamOutputFrame =
  sf_wireBytes :: bytes
  sf_decoded :: "'j DecodedFrame option"

record StreamInput =
  si_connectionId :: u64
  si_direction :: StreamDirection
  si_bytes :: bytes
  si_endOfStream :: bool

datatype 'j StreamTransformDecision =
    NeedMore (minimumAdditionalBytes: nat)
  | Emit (consumedBytes: nat) (outputFrames: "'j StreamOutputFrame list")
  | DropFrame nat "'j DecodedFrame option"
  | CloseStream str

datatype StreamTransformError = BufferExceeded | Timeout | RuntimeFailed | InvalidDecision | StreamClosed

type_synonym ('p, 'j) transformer =
  "'p \<Rightarrow> StreamInput \<Rightarrow> (StreamTransformError, 'j StreamTransformDecision) outcome \<times> 'p"

record DirectionBuffer =
  db_bytes :: bytes
  db_endOfStream :: bool

definition DirectionBuffer_new :: DirectionBuffer where
  "DirectionBuffer_new = \<lparr>db_bytes = [], db_endOfStream = False\<rparr>"

record 'p StreamTransformerSession =
  ts_connectionId :: u64
  ts_transformer :: 'p
  ts_clientToServer :: DirectionBuffer
  ts_serverToClient :: DirectionBuffer
  ts_timeout :: nat
  ts_maximumBufferedBytes :: nat
  ts_maximumOutputBytes :: nat
  ts_closed :: bool

definition StreamTransformerSession_new ::
  "u64 \<Rightarrow> 'p \<Rightarrow> nat \<Rightarrow> nat \<Rightarrow> nat \<Rightarrow> (StreamTransformError, 'p StreamTransformerSession) outcome" where
  "StreamTransformerSession_new connectionId transformer timeout maximumBufferedBytes maximumOutputBytes =
     (if timeout = 0 \<or> maximumBufferedBytes = 0 \<or> MAXIMUM_STREAM_BUFFER_BYTES < maximumBufferedBytes \<or> maximumOutputBytes = 0
      then Err InvalidDecision
      else Ok \<lparr>ts_connectionId = connectionId, ts_transformer = transformer, ts_clientToServer = DirectionBuffer_new,
               ts_serverToClient = DirectionBuffer_new, ts_timeout = timeout, ts_maximumBufferedBytes = maximumBufferedBytes,
               ts_maximumOutputBytes = maximumOutputBytes, ts_closed = False\<rparr>)"

definition direction_buffer :: "StreamDirection \<Rightarrow> 'p StreamTransformerSession \<Rightarrow> DirectionBuffer" where
  "direction_buffer direction s = (case direction of ClientToServer \<Rightarrow> ts_clientToServer s | ServerToClient \<Rightarrow> ts_serverToClient s)"

definition set_direction_buffer :: "StreamDirection \<Rightarrow> DirectionBuffer \<Rightarrow> 'p StreamTransformerSession \<Rightarrow> 'p StreamTransformerSession" where
  "set_direction_buffer direction buffer s =
     (case direction of ClientToServer \<Rightarrow> s\<lparr>ts_clientToServer := buffer\<rparr> | ServerToClient \<Rightarrow> s\<lparr>ts_serverToClient := buffer\<rparr>)"

section \<open>Validation of decisions\<close>

definition validateConsumed :: "nat \<Rightarrow> nat \<Rightarrow> (StreamTransformError, unit) outcome" where
  "validateConsumed availableBytes consumed =
     (if consumed = 0 \<or> availableBytes < consumed then Err InvalidDecision else Ok ())"

definition validateDecoded :: "'j DecodedFrame option \<Rightarrow> (StreamTransformError, unit) outcome" where
  "validateDecoded decoded =
     (case decoded of
        None \<Rightarrow> Ok ()
      | Some frame \<Rightarrow>
          if dr_frameType frame = [] \<or> MAXIMUM_DECODED_FIELDS_PER_FRAME < length (dr_fields frame) then Err InvalidDecision
          else if \<exists>field \<in> set (dr_fields frame). df_path field = [] \<or> checked_add (df_offset field) (df_length field) = None
          then Err InvalidDecision
          else Ok ())"

fun sumOutput :: "nat \<Rightarrow> 'j StreamOutputFrame list \<Rightarrow> (StreamTransformError, nat) outcome" where
  "sumOutput acc [] = Ok acc"
| "sumOutput acc (frame # frames) =
     and_then (validateDecoded (sf_decoded frame)) (\<lambda>_.
       case checked_add acc (length (sf_wireBytes frame)) of
         None \<Rightarrow> Err InvalidDecision
       | Some acc \<Rightarrow> sumOutput acc frames)"

definition validateDecision :: "nat \<Rightarrow> nat \<Rightarrow> 'j StreamOutputFrame list \<Rightarrow> nat \<Rightarrow> (StreamTransformError, unit) outcome" where
  "validateDecision availableBytes consumed frames remainingOutputBytes =
     and_then (validateConsumed availableBytes consumed) (\<lambda>_.
       if frames = [] \<or> MAXIMUM_OUTPUT_FRAMES_PER_DECISION < length frames then Err InvalidDecision
       else and_then (sumOutput 0 frames) (\<lambda>outputBytes.
         if remainingOutputBytes < outputBytes then Err InvalidDecision else Ok ()))"

section \<open>Processing\<close>

definition wire_size :: "'j StreamOutputFrame list \<Rightarrow> nat" where
  "wire_size frames = sum_list (map (\<lambda>frame. length (sf_wireBytes frame)) frames)"

text \<open>
  The loop of \<open>process\<close>. The buffer and the plugin state are returned on every path: bytes that were
  drained before a failure stay drained.
\<close>

function transformLoop ::
  "('p, 'j) transformer \<Rightarrow> u64 \<Rightarrow> StreamDirection \<Rightarrow> bool \<Rightarrow> nat \<Rightarrow> nat \<Rightarrow> bytes \<Rightarrow> 'j StreamOutputFrame list \<Rightarrow> nat \<Rightarrow> 'p \<Rightarrow>
   (StreamTransformError, 'j StreamOutputFrame list) outcome \<times> bytes \<times> 'p" where
  "transformLoop transform connectionId direction eos maximumBuffered maximumOutput buffer staged stagedBytes plugin =
     (case transform plugin \<lparr>si_connectionId = connectionId, si_direction = direction, si_bytes = buffer, si_endOfStream = eos\<rparr> of
        (Panic, plugin) \<Rightarrow> (Panic, buffer, plugin)
      | (Err e, plugin) \<Rightarrow> (Err e, buffer, plugin)
      | (Ok (NeedMore minimum), plugin) \<Rightarrow>
          if minimum = 0 \<or> eos
             \<or> (case checked_add (length buffer) minimum of None \<Rightarrow> True | Some len \<Rightarrow> maximumBuffered < len)
          then (Err InvalidDecision, buffer, plugin)
          else (Ok staged, buffer, plugin)
      | (Ok (Emit consumed frames), plugin) \<Rightarrow>
          (case validateDecision (length buffer) consumed frames (maximumOutput - stagedBytes) of
             Panic \<Rightarrow> (Panic, buffer, plugin)
           | Err e \<Rightarrow> (Err e, buffer, plugin)
           | Ok _ \<Rightarrow>
               (let rest = drop consumed buffer; stagedBytes = min usize_max (stagedBytes + wire_size frames)
                in if rest = [] then (Ok (staged @ frames), rest, plugin)
                   else transformLoop transform connectionId direction eos maximumBuffered maximumOutput rest
                          (staged @ frames) stagedBytes plugin))
      | (Ok (DropFrame consumed decoded), plugin) \<Rightarrow>
          (case and_then (validateConsumed (length buffer) consumed) (\<lambda>_. validateDecoded decoded) of
             Panic \<Rightarrow> (Panic, buffer, plugin)
           | Err e \<Rightarrow> (Err e, buffer, plugin)
           | Ok _ \<Rightarrow>
               (let rest = drop consumed buffer
                in if rest = [] then (Ok staged, rest, plugin)
                   else transformLoop transform connectionId direction eos maximumBuffered maximumOutput rest
                          staged stagedBytes plugin))
      | (Ok (CloseStream reason), plugin) \<Rightarrow> (Err StreamClosed, buffer, plugin))"
  by pat_completeness auto
termination
  by (relation "measure (\<lambda>(transform, connectionId, direction, eos, mb, mo, buffer, staged, sb, plugin). length buffer)")
    (auto simp: validateDecision_def validateConsumed_def Let_def split: if_splits)

declare transformLoop.simps [simp del]

definition processStream ::
  "('p, 'j) transformer \<Rightarrow> StreamDirection \<Rightarrow> bytes \<Rightarrow> bool \<Rightarrow> 'p StreamTransformerSession \<Rightarrow>
   (StreamTransformError, 'j StreamOutputFrame list) outcome \<times> 'p StreamTransformerSession" where
  "processStream transform direction bytes endOfStream s =
     (if ts_closed s then (Err StreamClosed, s)
      else
        (let buffer = direction_buffer direction s
         in case checked_add (length (db_bytes buffer)) (length bytes) of
              None \<Rightarrow> (Err BufferExceeded, s)
            | Some nextLength \<Rightarrow>
                if ts_maximumBufferedBytes s < nextLength then (Err BufferExceeded, s)
                else
                  (let window = db_bytes buffer @ bytes; eos = (db_endOfStream buffer \<or> endOfStream)
                   in if window = [] then (Ok [], set_direction_buffer direction \<lparr>db_bytes = window, db_endOfStream = eos\<rparr> s)
                      else
                        (case transformLoop transform (ts_connectionId s) direction eos (ts_maximumBufferedBytes s)
                                (ts_maximumOutputBytes s) window [] 0 (ts_transformer s) of
                           (result, rest, plugin) \<Rightarrow>
                             ((case result of
                                 Ok staged \<Rightarrow> if eos \<and> rest \<noteq> [] then Err InvalidDecision else Ok staged
                               | Err e \<Rightarrow> Err e
                               | Panic \<Rightarrow> Panic),
                              (set_direction_buffer direction \<lparr>db_bytes = rest, db_endOfStream = eos\<rparr> s)\<lparr>ts_transformer := plugin\<rparr>)))))"

definition pushStream ::
  "('p, 'j) transformer \<Rightarrow> StreamDirection \<Rightarrow> bytes \<Rightarrow> 'p StreamTransformerSession \<Rightarrow>
   (StreamTransformError, 'j StreamOutputFrame list) outcome \<times> 'p StreamTransformerSession" where
  "pushStream transform direction bytes = processStream transform direction bytes False"

definition finishStream ::
  "('p, 'j) transformer \<Rightarrow> StreamDirection \<Rightarrow> 'p StreamTransformerSession \<Rightarrow>
   (StreamTransformError, 'j StreamOutputFrame list) outcome \<times> 'p StreamTransformerSession" where
  "finishStream transform direction = processStream transform direction [] True"

definition closeStream :: "(u64 \<Rightarrow> 'p \<Rightarrow> 'p) \<Rightarrow> 'p StreamTransformerSession \<Rightarrow> 'p StreamTransformerSession" where
  "closeStream close s =
     (if ts_closed s then s
      else s\<lparr>ts_closed := True, ts_transformer := close (ts_connectionId s) (ts_transformer s)\<rparr>)"

end
