(* ===== verification/StreamProperties.thy ===== *)
theory StreamProperties
  imports StreamSession
begin

text \<open>
  What a stream session guarantees for every plugin: bounded buffers and output, a half-closed direction
  that is fully consumed, and, for plugins that only cut the stream into frames, that no byte is lost,
  repeated or reordered.
\<close>

section \<open>The loop\<close>

text \<open>The result of one decision, as the loop sees it.\<close>

lemma sumOutput_total: "sumOutput acc frames = Ok n \<Longrightarrow> n = acc + wire_size frames"
  by (induction acc frames rule: sumOutput.induct)
    (auto simp: wire_size_def checked_add_def split: option.splits if_splits outcome.splits elim: and_then.elims)

lemma validateDecision_Ok:
  assumes "validateDecision available consumed frames remaining = Ok u"
  shows "0 < consumed" "consumed \<le> available" "frames \<noteq> []" "wire_size frames \<le> remaining"
proof -
  from assms show "0 < consumed" "consumed \<le> available" "frames \<noteq> []"
    by (auto simp: validateDecision_def validateConsumed_def split: if_splits)
  from assms obtain n where "sumOutput 0 frames = Ok n" "n \<le> remaining"
    by (cases "sumOutput 0 frames") (auto simp: validateDecision_def validateConsumed_def split: if_splits)
  with sumOutput_total show "wire_size frames \<le> remaining" by fastforce
qed

lemma validateConsumed_Ok: "and_then (validateConsumed available consumed) f = Ok u \<Longrightarrow> 0 < consumed \<and> consumed \<le> available"
  by (auto simp: validateConsumed_def split: if_splits)

lemma wire_size_append [simp]: "wire_size (xs @ ys) = wire_size xs + wire_size ys"
  by (simp add: wire_size_def)

definition wire :: "'j StreamOutputFrame list \<Rightarrow> bytes" where
  "wire frames = concat (map sf_wireBytes frames)"

lemma wire_append [simp]: "wire (xs @ ys) = wire xs @ wire ys" "wire [] = []"
  by (simp_all add: wire_def)

text \<open>A plugin that emits exactly the bytes it consumes and drops none.\<close>

definition transparent :: "('p, 'j) transformer \<Rightarrow> bool" where
  "transparent transform \<longleftrightarrow> (\<forall>plugin input. case fst (transform plugin input) of
      Ok (Emit consumed frames) \<Rightarrow> wire frames = take consumed (si_bytes input)
    | Ok (DropFrame _ _) \<Rightarrow> False
    | _ \<Rightarrow> True)"

definition loop_post ::
  "('p, 'j) transformer \<Rightarrow> bool \<Rightarrow> nat \<Rightarrow> bytes \<Rightarrow> 'j StreamOutputFrame list \<Rightarrow>
   (StreamTransformError, 'j StreamOutputFrame list) outcome \<Rightarrow> bytes \<Rightarrow> bool" where
  "loop_post transform eos maximumOutput buffer staged r rest \<longleftrightarrow>
     (\<exists>n. rest = drop n buffer)
     \<and> (\<forall>frames. r = Ok frames \<longrightarrow>
          (wire_size staged \<le> maximumOutput \<longrightarrow> wire_size frames \<le> maximumOutput)
          \<and> (eos \<longrightarrow> rest = [])
          \<and> (transparent transform \<longrightarrow> wire frames @ rest = wire staged @ buffer))"

lemma loop_post_advance:
  assumes "loop_post transform eos maximumOutput (drop n buffer) staged' r rest"
    and "wire_size staged \<le> maximumOutput \<longrightarrow> wire_size staged' \<le> maximumOutput"
    and "transparent transform \<longrightarrow> wire staged' @ drop n buffer = wire staged @ buffer"
  shows "loop_post transform eos maximumOutput buffer staged r rest"
  using assms unfolding loop_post_def by (auto simp: drop_drop)

lemma loop_post_error: "loop_post transform eos maximumOutput buffer staged (Err e) buffer"
  "loop_post transform eos maximumOutput buffer staged Panic buffer"
  by (auto simp: loop_post_def intro: exI [of _ 0])

lemma loop_post_end:
  "rest = [] \<or> \<not> eos \<Longrightarrow> loop_post transform eos maximumOutput rest staged (Ok staged) rest"
  by (auto simp: loop_post_def intro: exI [of _ 0])

lemma transparent_emit:
  assumes "transparent transform" and "transform plugin input = (Ok (Emit consumed frames), plugin')"
  shows "wire frames @ drop consumed (si_bytes input) = si_bytes input"
proof -
  have "case fst (transform plugin input) of Ok (Emit consumed frames) \<Rightarrow> wire frames = take consumed (si_bytes input)
      | Ok (DropFrame _ _) \<Rightarrow> False | _ \<Rightarrow> True"
    using assms(1) unfolding transparent_def by blast
  then show ?thesis using assms(2) by simp
qed

lemma transparent_drop: "transparent transform \<Longrightarrow> transform plugin input \<noteq> (Ok (DropFrame consumed decoded), plugin')"
proof
  assume "transparent transform" and call: "transform plugin input = (Ok (DropFrame consumed decoded), plugin')"
  then have "case fst (transform plugin input) of Ok (Emit consumed frames) \<Rightarrow> wire frames = take consumed (si_bytes input)
      | Ok (DropFrame _ _) \<Rightarrow> False | _ \<Rightarrow> True"
    unfolding transparent_def by blast
  then show False using call by simp
qed

lemma transformLoop_post:
  "stagedBytes = wire_size staged \<Longrightarrow> wire_size staged \<le> maximumOutput \<Longrightarrow> maximumOutput \<le> usize_max \<Longrightarrow>
   transformLoop transform connectionId direction eos maximumBuffered maximumOutput buffer staged stagedBytes plugin = (r, rest, plugin') \<Longrightarrow>
   loop_post transform eos maximumOutput buffer staged r rest"
proof (induction transform connectionId direction eos maximumBuffered maximumOutput buffer staged stagedBytes plugin
    arbitrary: r rest plugin' rule: transformLoop.induct)
  case (1 transform connectionId direction eos maximumBuffered maximumOutput buffer staged stagedBytes plugin)
  let ?input = "\<lparr>si_connectionId = connectionId, si_direction = direction, si_bytes = buffer, si_endOfStream = eos\<rparr>"
  note run = "1.prems"(4) [unfolded transformLoop.simps [of transform connectionId direction eos maximumBuffered maximumOutput
        buffer staged stagedBytes plugin]]
  obtain d p where call: "transform plugin ?input = (d, p)" by fastforce
  show ?case
  proof (cases d)
    case (Ok decision)
    show ?thesis
    proof (cases decision)
      case (NeedMore minimum)
      with run call Ok show ?thesis
        by (auto split: if_splits option.splits intro: loop_post_error loop_post_end)
    next
      case (Emit consumed frames)
      show ?thesis
      proof (cases "validateDecision (length buffer) consumed frames (maximumOutput - stagedBytes)")
        case valid: (Ok u)
        note v = validateDecision_Ok [OF valid]
        have size: "wire_size (staged @ frames) \<le> maximumOutput" using v(4) "1.prems"(1,2) by simp
        have keep: "transparent transform \<longrightarrow> wire (staged @ frames) @ drop consumed buffer = wire staged @ buffer"
          using transparent_emit [of transform plugin ?input consumed frames p] call Ok Emit by auto
        have "loop_post transform eos maximumOutput (drop consumed buffer) (staged @ frames) r rest"
        proof (cases "drop consumed buffer = []")
          case True
          then have "r = Ok (staged @ frames)" "rest = drop consumed buffer"
            using run call Ok Emit valid by (simp_all add: Let_def)
          then show ?thesis using True by (simp add: loop_post_end)
        next
          case False
          have bytes: "min usize_max (stagedBytes + wire_size frames) = wire_size (staged @ frames)"
            using size "1.prems"(1,3) by simp
          show ?thesis
          proof (rule "1.IH"(1) [OF call [symmetric] Ok Emit valid refl refl False])
            show "min usize_max (stagedBytes + wire_size frames) = wire_size (staged @ frames)" by (rule bytes)
            show "wire_size (staged @ frames) \<le> maximumOutput" by (rule size)
            show "maximumOutput \<le> usize_max" by (rule "1.prems"(3))
            show "transformLoop transform connectionId direction eos maximumBuffered maximumOutput (drop consumed buffer) (staged @ frames)
                (min usize_max (stagedBytes + wire_size frames)) p = (r, rest, plugin')"
              using run call Ok Emit valid False by (simp add: Let_def)
          qed
        qed
        then show ?thesis by (rule loop_post_advance) (use size keep in simp_all)
      qed (use run call Ok Emit in \<open>auto intro: loop_post_error\<close>)
    next
      case (DropFrame consumed decoded)
      show ?thesis
      proof (cases "and_then (validateConsumed (length buffer) consumed) (\<lambda>_. validateDecoded decoded)")
        case valid: (Ok u)
        have "loop_post transform eos maximumOutput (drop consumed buffer) staged r rest"
        proof (cases "drop consumed buffer = []")
          case True
          then have "r = Ok staged" "rest = drop consumed buffer" using run call Ok DropFrame valid by (simp_all add: Let_def)
          then show ?thesis using True by (simp add: loop_post_end)
        next
          case False
          then have "transformLoop transform connectionId direction eos maximumBuffered maximumOutput (drop consumed buffer) staged
              stagedBytes p = (r, rest, plugin')"
            using run call Ok DropFrame valid by (simp add: Let_def)
          then show ?thesis by (rule "1.IH"(2) [OF call [symmetric] Ok DropFrame valid refl False "1.prems"(1-3)])
        qed
        then show ?thesis
          by (rule loop_post_advance) (use transparent_drop [of transform plugin ?input consumed decoded p] call Ok DropFrame in auto)
      qed (use run call Ok DropFrame in \<open>auto intro: loop_post_error\<close>)
    next
      case (CloseStream reason)
      with run call Ok show ?thesis by (auto intro: loop_post_error)
    qed
  qed (use run call in \<open>auto intro: loop_post_error\<close>)
qed


section \<open>The session\<close>

definition session_ok :: "'p StreamTransformerSession \<Rightarrow> bool" where
  "session_ok s \<longleftrightarrow> ts_maximumBufferedBytes s \<le> MAXIMUM_STREAM_BUFFER_BYTES \<and> ts_maximumOutputBytes s \<le> usize_max
     \<and> length (db_bytes (ts_clientToServer s)) \<le> ts_maximumBufferedBytes s
     \<and> length (db_bytes (ts_serverToClient s)) \<le> ts_maximumBufferedBytes s"

lemma buffer_simps [simp]:
  "direction_buffer d (set_direction_buffer d b s) = b"
  "d' \<noteq> d \<Longrightarrow> direction_buffer d' (set_direction_buffer d b s) = direction_buffer d' s"
  "direction_buffer d (s\<lparr>ts_transformer := p\<rparr>) = direction_buffer d s"
  "ts_closed (set_direction_buffer d b s) = ts_closed s"
  by (cases d; cases d'; simp add: direction_buffer_def set_direction_buffer_def)+

lemma session_ok_set:
  "session_ok s \<Longrightarrow> length (db_bytes b) \<le> ts_maximumBufferedBytes s \<Longrightarrow> session_ok (set_direction_buffer d b s)"
  by (cases d) (auto simp: session_ok_def set_direction_buffer_def)

lemma session_ok_plugin [simp]: "session_ok (s\<lparr>ts_transformer := p\<rparr>) = session_ok s"
  by (simp add: session_ok_def)

lemma session_ok_new: "StreamTransformerSession_new c p t mb mo = Ok s \<Longrightarrow> mo \<le> usize_max \<Longrightarrow> session_ok s"
  by (auto simp: StreamTransformerSession_new_def session_ok_def DirectionBuffer_new_def split: if_splits)

text \<open>The four ways a call can go.\<close>

lemma processStream_cases:
  assumes "processStream transform d bytes fin s = (r, s')"
  obtains (refused) e where "r = Err e" "s' = s"
  | (idle) eos where "\<not> ts_closed s" "db_bytes (direction_buffer d s) @ bytes = []" "r = Ok []"
      "s' = set_direction_buffer d \<lparr>db_bytes = [], db_endOfStream = eos\<rparr> s"
  | (run) result rest plugin eos where "\<not> ts_closed s"
      "length (db_bytes (direction_buffer d s) @ bytes) \<le> ts_maximumBufferedBytes s"
      "eos = (db_endOfStream (direction_buffer d s) \<or> fin)"
      "transformLoop transform (ts_connectionId s) d eos (ts_maximumBufferedBytes s) (ts_maximumOutputBytes s)
         (db_bytes (direction_buffer d s) @ bytes) [] 0 (ts_transformer s) = (result, rest, plugin)"
      "s' = (set_direction_buffer d \<lparr>db_bytes = rest, db_endOfStream = eos\<rparr> s)\<lparr>ts_transformer := plugin\<rparr>"
      "\<And>frames. r = Ok frames \<longleftrightarrow> result = Ok frames \<and> \<not> (eos \<and> rest \<noteq> [])"
proof -
  let ?window = "db_bytes (direction_buffer d s) @ bytes"
  define eos where "eos = (db_endOfStream (direction_buffer d s) \<or> fin)"
  have "checked_add (length (db_bytes (direction_buffer d s))) (length bytes) = None
      \<or> checked_add (length (db_bytes (direction_buffer d s))) (length bytes) = Some (length ?window)"
    by (simp add: checked_add_def)
  then consider "ts_closed s \<or> checked_add (length (db_bytes (direction_buffer d s))) (length bytes) = None
      \<or> ts_maximumBufferedBytes s < length ?window"
    | "\<not> ts_closed s" "checked_add (length (db_bytes (direction_buffer d s))) (length bytes) = Some (length ?window)"
      "length ?window \<le> ts_maximumBufferedBytes s"
    by (meson not_less)
  then show thesis
  proof cases
    case 1
    then have "\<exists>e. r = Err e \<and> s' = s"
      using assms by (auto simp: processStream_def Let_def checked_add_def split: if_splits)
    then show thesis using refused by blast
  next
    case 2
    obtain result rest plugin where loop: "transformLoop transform (ts_connectionId s) d eos (ts_maximumBufferedBytes s) (ts_maximumOutputBytes s)
         ?window [] 0 (ts_transformer s) = (result, rest, plugin)" by (metis prod.collapse)
    show thesis
    proof (cases "?window = []")
      case True
      then show thesis using assms 2 by (intro idle) (auto simp: processStream_def Let_def)
    next
      case False
      have "r = (case result of Ok staged \<Rightarrow> if eos \<and> rest \<noteq> [] then Err InvalidDecision else Ok staged | Err e \<Rightarrow> Err e | Panic \<Rightarrow> Panic)"
        "s' = (set_direction_buffer d \<lparr>db_bytes = rest, db_endOfStream = eos\<rparr> s)\<lparr>ts_transformer := plugin\<rparr>"
        using assms 2 False loop unfolding processStream_def Let_def eos_def [symmetric] by auto
      then show thesis using run [OF 2(1,3) eos_def loop] by (auto split: outcome.splits if_splits)
    qed
  qed
qed

text \<open>
  C36: a stream session bounds every plugin. Whatever the plugin decides, a call keeps both buffers
  within the configured limit, touches only the buffer of its direction and leaves there a suffix of
  the bytes it had; published frames stay within the output limit, and a successful half close leaves
  nothing unread. A closed session refuses every call without change. If the plugin only cuts the
  stream into frames, the published bytes followed by the buffered ones are exactly the bytes received.
\<close>

theorem stream_session_bounds:
  assumes ok: "session_ok s" and call: "processStream transform d bytes fin s = (r, s')"
  shows "session_ok s'
    \<and> (ts_closed s \<longrightarrow> r = Err StreamClosed \<and> s' = s)
    \<and> (\<forall>d'. d' \<noteq> d \<longrightarrow> direction_buffer d' s' = direction_buffer d' s)
    \<and> (\<forall>frames. r = Ok frames \<longrightarrow>
        (\<exists>n. db_bytes (direction_buffer d s') = drop n (db_bytes (direction_buffer d s) @ bytes))
        \<and> wire_size frames \<le> ts_maximumOutputBytes s
        \<and> (fin \<longrightarrow> db_bytes (direction_buffer d s') = [])
        \<and> (transparent transform \<longrightarrow>
            wire frames @ db_bytes (direction_buffer d s') = db_bytes (direction_buffer d s) @ bytes))"
proof -
  have closed: "ts_closed s \<longrightarrow> r = Err StreamClosed \<and> s' = s" using call by (cases "ts_closed s") (simp_all add: processStream_def)
  from call show ?thesis
  proof (cases rule: processStream_cases)
    case (refused e)
    with ok closed show ?thesis by simp
  next
    case (idle eos)
    with ok show ?thesis by (auto simp: session_ok_set wire_size_def wire_def)
  next
    case (run result rest plugin eos)
    have "loop_post transform eos (ts_maximumOutputBytes s) (db_bytes (direction_buffer d s) @ bytes) [] result rest"
      by (rule transformLoop_post [OF _ _ _ run(4)]) (use ok in \<open>auto simp: wire_size_def session_ok_def\<close>)
    note post = this [unfolded loop_post_def]
    have "length rest \<le> ts_maximumBufferedBytes s" using post run(2) by auto
    then have "session_ok s'" unfolding run(5) session_ok_plugin by (intro session_ok_set ok) simp
    moreover have "db_bytes (direction_buffer d s') = rest" unfolding run(5) by simp
    moreover have "\<forall>d'. d' \<noteq> d \<longrightarrow> direction_buffer d' s' = direction_buffer d' s" unfolding run(5) by simp
    ultimately show ?thesis using post run(1,3,6) by (auto simp: wire_size_def)
  qed
qed

definition echo :: "(unit, unit) transformer" where
  "echo plugin input =
     (if length (si_bytes input) < 2 then (Ok (NeedMore 1), ())
      else (Ok (Emit 2 [\<lparr>sf_wireBytes = take 2 (si_bytes input), sf_decoded = None\<rparr>]), ()))"

definition sample_session :: "unit StreamTransformerSession" where
  "sample_session = \<lparr>ts_connectionId = 1, ts_transformer = (), ts_clientToServer = DirectionBuffer_new,
     ts_serverToClient = DirectionBuffer_new, ts_timeout = 1, ts_maximumBufferedBytes = 8, ts_maximumOutputBytes = 8, ts_closed = False\<rparr>"

theorem stream_session_bounds_witness:
  "\<exists>frames s'. processStream echo ClientToServer [7, 8, 9] False sample_session = (Ok frames, s')
    \<and> wire frames @ db_bytes (direction_buffer ClientToServer s') = [7, 8, 9]"
proof -
  have ok: "session_ok sample_session"
    by (simp add: session_ok_def sample_session_def DirectionBuffer_new_def MAXIMUM_STREAM_BUFFER_BYTES_def usize_max_def)
  have transparent: "transparent echo" by (simp add: transparent_def echo_def wire_def)
  obtain r s' where call: "processStream echo ClientToServer [7, 8, 9] False sample_session = (r, s')" by fastforce
  moreover have "r = Ok [\<lparr>sf_wireBytes = [7, 8], sf_decoded = None\<rparr>]"
    using call by (simp add: processStream_def sample_session_def DirectionBuffer_new_def direction_buffer_def checked_add_def usize_max_def
        transformLoop.simps echo_def validateDecision_def validateConsumed_def validateDecoded_def
        MAXIMUM_OUTPUT_FRAMES_PER_DECISION_def Let_def)
  ultimately show ?thesis
    using stream_session_bounds [OF ok call] transparent
    by (auto simp: sample_session_def direction_buffer_def DirectionBuffer_new_def)
qed

end
