(* ===== verification/SessionRegistry.thy ===== *)
theory SessionRegistry
  imports PacketFilter
begin

text \<open>
  The session registry of the SOCKS5 proxy, \<open>Socks5/src/registry.rs\<close>, with the capture buffers of
  \<open>Socks5/src/model.rs\<close>. Every method is one step.
  Clock and session identifier are arguments.

  The captured bytes of both directions and the packet index of a session are shared with the snapshots
  that events carry: they are one cell of \<open>rg_cells\<close>, and snapshots hold its address. The list \<open>held\<close>
  names the cells that event receivers still refer to; a cell that neither a session nor a receiver
  refers to is dropped, which returns its reservation to the budget. The compare-and-exchange loop of
  a reservation is one step. Counters of the metrics wrap like the release build.
\<close>

definition capturedBytesChunkSize :: nat where "capturedBytesChunkSize = 4 * 1024"
definition capturedStreamPrefixLimit :: nat where "capturedStreamPrefixLimit = 2 ^ 64 - 1"
definition maximumTotalCapturedStreamBytes :: nat where "maximumTotalCapturedStreamBytes = 2 ^ 64 - 1"

type_synonym 'a checked = "(unit, 'a) outcome"

section \<open>The budget\<close>

record CapturedBytesBudget =
  bg_maximumBytes :: nat
  bg_usedBytes :: nat

definition CapturedBytesBudget_new :: "nat \<Rightarrow> CapturedBytesBudget" where
  "CapturedBytesBudget_new maximumBytes = \<lparr>bg_maximumBytes = maximumBytes, bg_usedBytes = 0\<rparr>"

definition reserve :: "nat \<Rightarrow> CapturedBytesBudget \<Rightarrow> nat \<times> CapturedBytesBudget" where
  "reserve requestedBytes budget =
     (let reservedBytes = min requestedBytes (bg_maximumBytes budget - bg_usedBytes budget)
      in if reservedBytes = 0 then (0, budget)
         else (reservedBytes, budget\<lparr>bg_usedBytes := bg_usedBytes budget + reservedBytes\<rparr>))"

text \<open>An atomic subtraction wraps.\<close>

definition release :: "nat \<Rightarrow> CapturedBytesBudget \<Rightarrow> CapturedBytesBudget" where
  "release releasedBytes budget =
     budget\<lparr>bg_usedBytes := (if releasedBytes \<le> bg_usedBytes budget then bg_usedBytes budget - releasedBytes
                             else bg_usedBytes budget + 2 ^ 64 - releasedBytes)\<rparr>"

section \<open>Captured bytes\<close>

record CapturedBytesChunk =
  ch_bytes :: bytes
  ch_length :: nat

record CapturedBytesStorage =
  cs_chunks :: "CapturedBytesChunk list"
  cs_length :: nat
  cs_reservedBytes :: nat

text \<open>The budget is the one of the registry, or none.\<close>

record CapturedBytes =
  cb_storage :: CapturedBytesStorage
  cb_budget :: bool

definition CapturedBytesStorage_empty :: CapturedBytesStorage where
  "CapturedBytesStorage_empty = \<lparr>cs_chunks = [], cs_length = 0, cs_reservedBytes = 0\<rparr>"

definition CapturedBytes_withBudget :: CapturedBytes where
  "CapturedBytes_withBudget = \<lparr>cb_storage = CapturedBytesStorage_empty, cb_budget = True\<rparr>"

definition CapturedBytes_default :: CapturedBytes where
  "CapturedBytes_default = \<lparr>cb_storage = CapturedBytesStorage_empty, cb_budget = False\<rparr>"

definition CapturedBytes_from :: "bytes \<Rightarrow> CapturedBytes" where
  "CapturedBytes_from bs =
     \<lparr>cb_storage = \<lparr>cs_chunks = (if bs = [] then [] else [\<lparr>ch_bytes = bs, ch_length = length bs\<rparr>]),
                    cs_length = length bs, cs_reservedBytes = 0\<rparr>, cb_budget = False\<rparr>"

definition toVec :: "CapturedBytes \<Rightarrow> bytes" where
  "toVec captured = concat (map (\<lambda>chunk. take (ch_length chunk) (ch_bytes chunk)) (cs_chunks (cb_storage captured)))"

definition CapturedBytes_len :: "CapturedBytes \<Rightarrow> nat" where
  "CapturedBytes_len captured = cs_length (cb_storage captured)"

definition lastChunkFull :: "CapturedBytesStorage \<Rightarrow> bool" where
  "lastChunkFull storage \<longleftrightarrow> cs_chunks storage = []
     \<or> ch_length (last (cs_chunks storage)) = length (ch_bytes (last (cs_chunks storage)))"

text \<open>Where the last chunk is full, a new one is reserved; an exhausted budget ends the loop.\<close>

definition growChunks :: "nat \<Rightarrow> CapturedBytesStorage \<Rightarrow> CapturedBytesBudget \<Rightarrow> (CapturedBytesStorage \<times> CapturedBytesBudget) option" where
  "growChunks streamLimit storage budget =
     (if lastChunkFull storage then
        (let streamCapacity = streamLimit - cs_reservedBytes storage;
             requestedCapacity = min capturedBytesChunkSize streamCapacity;
             (reservedCapacity, budget) = reserve requestedCapacity budget
         in if reservedCapacity = 0 then None
            else Some (storage\<lparr>cs_chunks := cs_chunks storage @ [\<lparr>ch_bytes = replicate reservedCapacity 0, ch_length = 0\<rparr>],
                                cs_reservedBytes := cs_reservedBytes storage + reservedCapacity\<rparr>, budget))
      else Some (storage, budget))"

definition writeChunk :: "bytes \<Rightarrow> nat \<Rightarrow> nat \<Rightarrow> CapturedBytesStorage \<Rightarrow> (nat \<times> CapturedBytesStorage) checked" where
  "writeChunk payload maximumWriteBytes writtenBytes storage =
     (if cs_chunks storage = [] then Panic
      else
        (let chunk = last (cs_chunks storage)
         in if length (ch_bytes chunk) < ch_length chunk then Panic
            else
              (let writableBytes = min (length (ch_bytes chunk) - ch_length chunk) (maximumWriteBytes - writtenBytes);
                   chunkEnd = ch_length chunk + writableBytes
               in slice_at payload writtenBytes (writtenBytes + writableBytes) (\<lambda>source.
                    Ok (writableBytes,
                        storage\<lparr>cs_chunks := butlast (cs_chunks storage)
                                  @ [\<lparr>ch_bytes = overwrite (ch_length chunk) source (ch_bytes chunk), ch_length = chunkEnd\<rparr>],
                                cs_length := cs_length storage + writableBytes\<rparr>)))))"

lemma growChunks_room: "growChunks streamLimit storage budget = Some (storage', budget') \<Longrightarrow> \<not> lastChunkFull storage'"
  by (auto simp: growChunks_def lastChunkFull_def Let_def split: if_splits prod.splits)

lemma writeChunk_progress:
  "writeChunk payload m w storage = Ok (n, storage') \<Longrightarrow> \<not> lastChunkFull storage \<Longrightarrow> w < m \<Longrightarrow> 0 < n"
  by (auto simp: writeChunk_def lastChunkFull_def slice_at_def Let_def split: if_splits)

function appendLoop ::
  "bytes \<Rightarrow> nat \<Rightarrow> nat \<Rightarrow> nat \<Rightarrow> CapturedBytesStorage \<Rightarrow> CapturedBytesBudget \<Rightarrow> (nat \<times> CapturedBytesStorage \<times> CapturedBytesBudget) checked" where
  "appendLoop payload streamLimit maximumWriteBytes writtenBytes storage budget =
     (if writtenBytes < maximumWriteBytes then
        (case growChunks streamLimit storage budget of
           None \<Rightarrow> Ok (writtenBytes, storage, budget)
         | Some (storage, budget) \<Rightarrow>
             (case writeChunk payload maximumWriteBytes writtenBytes storage of
                Panic \<Rightarrow> Panic
              | Err e \<Rightarrow> Err e
              | Ok (n, storage) \<Rightarrow> appendLoop payload streamLimit maximumWriteBytes (writtenBytes + n) storage budget))
      else Ok (writtenBytes, storage, budget))"
  by pat_completeness auto
termination
  by (relation "measure (\<lambda>(_, _, m, w, _, _). m - w)") (auto dest!: growChunks_room writeChunk_progress)

declare appendLoop.simps [simp del]

definition CapturedBytes_append ::
  "bytes \<Rightarrow> nat \<Rightarrow> CapturedBytes \<Rightarrow> CapturedBytesBudget \<Rightarrow> (nat \<times> CapturedBytes \<times> CapturedBytesBudget) checked" where
  "CapturedBytes_append payload streamLimit captured budget =
     (if \<not> cb_budget captured then Ok (0, captured, budget)
      else
        (let maximumWriteBytes = min (length payload) (streamLimit - cs_length (cb_storage captured))
         in and_then (appendLoop payload streamLimit maximumWriteBytes 0 (cb_storage captured) budget) (\<lambda>(n, storage, budget).
              Ok (n, captured\<lparr>cb_storage := storage\<rparr>, budget))))"

section \<open>The packet index\<close>

datatype TrafficDirection = Up | Down

record CapturedPacket =
  cp_direction :: TrafficDirection
  cp_sequence :: u64
  cp_capturedAtMilliseconds :: u64
  cp_storedOffsetBytes :: nat
  cp_storedBytes :: nat
  cp_originalBytes :: u64
  cp_modifications :: "WireByteModification list"

record CapturedPacketStorage =
  ps_nextUpSequence :: u64
  ps_nextDownSequence :: u64
  ps_packets :: "CapturedPacket list"

record CapturedPacketWrite =
  cw_direction :: TrafficDirection
  cw_capturedAtMilliseconds :: u64
  cw_storedOffsetBytes :: nat
  cw_storedBytes :: nat
  cw_originalBytes :: u64
  cw_modifications :: "WireByteModification list"

definition CapturedPacketList_new :: CapturedPacketStorage where
  "CapturedPacketList_new = \<lparr>ps_nextUpSequence = 1, ps_nextDownSequence = 1, ps_packets = []\<rparr>"

definition CapturedPacketList_append :: "CapturedPacketWrite \<Rightarrow> CapturedPacketStorage \<Rightarrow> CapturedPacketStorage" where
  "CapturedPacketList_append packet storage =
     (if cw_storedBytes packet = 0 then storage
      else
        (let (seqno, storage) =
               (case cw_direction packet of
                  Up \<Rightarrow> (ps_nextUpSequence storage, storage\<lparr>ps_nextUpSequence := saturating_add (ps_nextUpSequence storage) 1\<rparr>)
                | Down \<Rightarrow> (ps_nextDownSequence storage, storage\<lparr>ps_nextDownSequence := saturating_add (ps_nextDownSequence storage) 1\<rparr>))
         in storage\<lparr>ps_packets := ps_packets storage @
              [\<lparr>cp_direction = cw_direction packet, cp_sequence = seqno, cp_capturedAtMilliseconds = cw_capturedAtMilliseconds packet,
                cp_storedOffsetBytes = cw_storedOffsetBytes packet, cp_storedBytes = cw_storedBytes packet,
                cp_originalBytes = cw_originalBytes packet, cp_modifications = cw_modifications packet\<rparr>]\<rparr>))"

definition forDirection :: "TrafficDirection \<Rightarrow> CapturedPacketStorage \<Rightarrow> CapturedPacket list" where
  "forDirection direction storage = filter (\<lambda>packet. cp_direction packet = direction) (ps_packets storage)"

section \<open>Sessions\<close>

datatype SessionState =
  Negotiating | Authenticating | Connecting | Binding | UdpAssociating | Relaying | Closed | Failed

datatype SessionApplicationProtocol = Undetermined | TcpStream | TlsStream | UdpStream | HttpStream | HttpsStream

text \<open>The captured bytes and packets of a session, shared by address.\<close>

record SessionCapture =
  sc_up :: CapturedBytes
  sc_down :: CapturedBytes
  sc_packets :: CapturedPacketStorage

record SessionSnapshot =
  ss_sessionId :: str
  ss_clientAddress :: str
  ss_username :: str
  ss_command :: str
  ss_targetAddress :: str
  ss_state :: SessionState
  ss_bytesUp :: u64
  ss_bytesDown :: u64
  ss_createdAtMilliseconds :: u64
  ss_updatedAtMilliseconds :: u64
  ss_closedAtMilliseconds :: u64
  ss_errorMessage :: str
  ss_applicationProtocol :: SessionApplicationProtocol
  ss_captureGeneration :: u64
  ss_cell :: nat

record SessionEvent =
  ev_eventType :: string
  ev_snapshot :: SessionSnapshot

record ServiceMetrics =
  mt_acceptedConnections :: u64
  mt_activeConnections :: u64
  mt_failedConnections :: u64
  mt_bytesUp :: u64
  mt_bytesDown :: u64
  mt_udpPacketsUp :: u64
  mt_udpPacketsDown :: u64
  mt_droppedUdpPackets :: u64

record SessionUpdate =
  su_username :: "str option"
  su_command :: "str option"
  su_targetAddress :: "str option"
  su_applicationProtocol :: "SessionApplicationProtocol option"
  su_state :: SessionState

record ModifiedTraffic =
  tr_sessionId :: str
  tr_direction :: TrafficDirection
  tr_originalPayload :: bytes
  tr_payload :: bytes

record SessionRegistry =
  rg_sessions :: "(str, SessionSnapshot) hashmap"
  rg_metrics :: ServiceMetrics
  rg_historyLimit :: nat
  rg_captureGeneration :: u64
  rg_budget :: CapturedBytesBudget
  rg_cells :: "(nat, SessionCapture) hashmap"
  rg_nextCell :: nat
  rg_events :: "SessionEvent list"

definition ServiceMetrics_default :: ServiceMetrics where
  "ServiceMetrics_default = \<lparr>mt_acceptedConnections = 0, mt_activeConnections = 0, mt_failedConnections = 0, mt_bytesUp = 0,
     mt_bytesDown = 0, mt_udpPacketsUp = 0, mt_udpPacketsDown = 0, mt_droppedUdpPackets = 0\<rparr>"

definition withCaptureBudget :: "nat \<Rightarrow> nat \<Rightarrow> SessionRegistry" where
  "withCaptureBudget historyLimit maximumCapturedBytes =
     \<lparr>rg_sessions = [], rg_metrics = ServiceMetrics_default, rg_historyLimit = historyLimit, rg_captureGeneration = 0,
      rg_budget = CapturedBytesBudget_new maximumCapturedBytes, rg_cells = [], rg_nextCell = 0, rg_events = []\<rparr>"

definition SessionRegistry_new :: "nat \<Rightarrow> SessionRegistry" where
  "SessionRegistry_new historyLimit = withCaptureBudget historyLimit maximumTotalCapturedStreamBytes"

definition publish :: "string \<Rightarrow> SessionSnapshot \<Rightarrow> SessionRegistry \<Rightarrow> SessionRegistry" where
  "publish eventType snapshot reg = reg\<lparr>rg_events := rg_events reg @ [\<lparr>ev_eventType = eventType, ev_snapshot = snapshot\<rparr>]\<rparr>"

definition session_ended :: "SessionSnapshot \<Rightarrow> bool" where
  "session_ended snapshot = (ss_state snapshot = Closed \<or> ss_state snapshot = Failed)"

section \<open>Shared cells\<close>

definition newCell :: "SessionCapture \<Rightarrow> SessionRegistry \<Rightarrow> nat \<times> SessionRegistry" where
  "newCell cell reg =
     (rg_nextCell reg, reg\<lparr>rg_cells := hm_insert (rg_nextCell reg) cell (rg_cells reg), rg_nextCell := rg_nextCell reg + 1\<rparr>)"

definition boundCell :: SessionCapture where
  "boundCell = \<lparr>sc_up = CapturedBytes_withBudget, sc_down = CapturedBytes_withBudget, sc_packets = CapturedPacketList_new\<rparr>"

definition emptyCell :: SessionCapture where
  "emptyCell = \<lparr>sc_up = CapturedBytes_default, sc_down = CapturedBytes_default, sc_packets = CapturedPacketList_new\<rparr>"

definition dropBytes :: "CapturedBytes \<Rightarrow> CapturedBytesBudget \<Rightarrow> CapturedBytesBudget" where
  "dropBytes captured budget =
     (if cb_budget captured then release (cs_reservedBytes (cb_storage captured)) budget else budget)"

definition dropCell :: "nat \<times> SessionCapture \<Rightarrow> CapturedBytesBudget \<Rightarrow> CapturedBytesBudget" where
  "dropCell entry budget = dropBytes (sc_down (snd entry)) (dropBytes (sc_up (snd entry)) budget)"

definition referenced :: "nat list \<Rightarrow> SessionRegistry \<Rightarrow> nat \<Rightarrow> bool" where
  "referenced held reg cell = (cell \<in> set held \<or> cell \<in> set (map (\<lambda>e. ss_cell (snd e)) (rg_sessions reg)))"

definition dropUnreferenced :: "nat list \<Rightarrow> SessionRegistry \<Rightarrow> SessionRegistry" where
  "dropUnreferenced held reg =
     reg\<lparr>rg_cells := filter (\<lambda>e. referenced held reg (fst e)) (rg_cells reg),
         rg_budget := fold dropCell (filter (\<lambda>e. \<not> referenced held reg (fst e)) (rg_cells reg)) (rg_budget reg)\<rparr>"

section \<open>Operations\<close>

definition createSession :: "u64 \<Rightarrow> str \<Rightarrow> str \<Rightarrow> SessionRegistry \<Rightarrow> str \<times> SessionRegistry" where
  "createSession now sessionId clientAddress reg =
     (let (cell, reg) = newCell boundCell reg;
          snapshot = \<lparr>ss_sessionId = sessionId, ss_clientAddress = clientAddress, ss_username = [], ss_command = [],
            ss_targetAddress = [], ss_state = Negotiating, ss_bytesUp = 0, ss_bytesDown = 0, ss_createdAtMilliseconds = now,
            ss_updatedAtMilliseconds = now, ss_closedAtMilliseconds = 0, ss_errorMessage = [],
            ss_applicationProtocol = Undetermined, ss_captureGeneration = rg_captureGeneration reg, ss_cell = cell\<rparr>;
          metrics = rg_metrics reg;
          reg = reg\<lparr>rg_sessions := hm_insert sessionId snapshot (rg_sessions reg),
                    rg_metrics := metrics\<lparr>mt_acceptedConnections := mt_acceptedConnections metrics + 1,
                                          mt_activeConnections := mt_activeConnections metrics + 1\<rparr>\<rparr>
      in (sessionId, publish ''sessionCreated'' snapshot reg))"

definition applyUpdate :: "u64 \<Rightarrow> SessionUpdate \<Rightarrow> SessionSnapshot \<Rightarrow> SessionSnapshot" where
  "applyUpdate now update snapshot =
     snapshot\<lparr>ss_username := case_option (ss_username snapshot) (\<lambda>v. v) (su_username update),
              ss_command := case_option (ss_command snapshot) (\<lambda>v. v) (su_command update),
              ss_targetAddress := case_option (ss_targetAddress snapshot) (\<lambda>v. v) (su_targetAddress update),
              ss_applicationProtocol := case_option (ss_applicationProtocol snapshot) (\<lambda>v. v) (su_applicationProtocol update),
              ss_state := su_state update, ss_updatedAtMilliseconds := now\<rparr>"

definition updateSession :: "u64 \<Rightarrow> str \<Rightarrow> SessionUpdate \<Rightarrow> SessionRegistry \<Rightarrow> bool \<times> SessionRegistry" where
  "updateSession now sessionId update reg =
     (case hm_get (rg_sessions reg) sessionId of
        None \<Rightarrow> (False, reg)
      | Some snapshot \<Rightarrow>
          (let snapshot = applyUpdate now update snapshot
           in (True, publish ''sessionUpdated'' snapshot
                       (reg\<lparr>rg_sessions := hm_insert sessionId snapshot (rg_sessions reg)\<rparr>))))"

definition captured :: "TrafficDirection \<Rightarrow> SessionCapture \<Rightarrow> CapturedBytes" where
  "captured direction cell = (case direction of Up \<Rightarrow> sc_up cell | Down \<Rightarrow> sc_down cell)"

definition set_captured :: "TrafficDirection \<Rightarrow> CapturedBytes \<Rightarrow> SessionCapture \<Rightarrow> SessionCapture" where
  "set_captured direction bs cell = (case direction of Up \<Rightarrow> cell\<lparr>sc_up := bs\<rparr> | Down \<Rightarrow> cell\<lparr>sc_down := bs\<rparr>)"

text \<open>The bytes and the index entry of one forwarded payload.\<close>

definition capturePayload ::
  "u64 \<Rightarrow> TrafficDirection \<Rightarrow> bytes \<Rightarrow> WireByteModification list \<Rightarrow> SessionCapture \<Rightarrow> CapturedBytesBudget
   \<Rightarrow> (SessionCapture \<times> CapturedBytesBudget) checked" where
  "capturePayload now direction payload modifications cell budget =
     (let storedOffsetBytes = CapturedBytes_len (captured direction cell)
      in and_then (CapturedBytes_append payload capturedStreamPrefixLimit (captured direction cell) budget) (\<lambda>(storedBytes, bs, budget).
           Ok ((set_captured direction bs cell)\<lparr>sc_packets := CapturedPacketList_append
                  \<lparr>cw_direction = direction, cw_capturedAtMilliseconds = now, cw_storedOffsetBytes = storedOffsetBytes,
                   cw_storedBytes = storedBytes, cw_originalBytes = of_nat (length payload), cw_modifications = modifications\<rparr>
                  (sc_packets cell)\<rparr>, budget)))"

definition addModifiedTraffic :: "u64 \<Rightarrow> ModifiedTraffic \<Rightarrow> SessionRegistry \<Rightarrow> SessionRegistry checked" where
  "addModifiedTraffic now traffic reg =
     (let payload = tr_payload traffic; direction = tr_direction traffic
      in if payload = [] then Ok reg
         else
           (let modifications = deriveWireByteModifications (tr_originalPayload traffic) payload;
                byteCount = of_nat (length payload) :: u64
            in case hm_get (rg_sessions reg) (tr_sessionId traffic) of
                 None \<Rightarrow> Ok reg
               | Some snapshot \<Rightarrow>
                   (case hm_get (rg_cells reg) (ss_cell snapshot) of
                      None \<Rightarrow> Panic
                    | Some cell \<Rightarrow>
                        and_then (capturePayload now direction payload modifications cell (rg_budget reg)) (\<lambda>(cell, budget).
                          (let snapshot = (case direction of
                                 Up \<Rightarrow> snapshot\<lparr>ss_bytesUp := saturating_add (ss_bytesUp snapshot) byteCount\<rparr>
                               | Down \<Rightarrow> snapshot\<lparr>ss_bytesDown := saturating_add (ss_bytesDown snapshot) byteCount\<rparr>);
                               snapshot = snapshot\<lparr>ss_updatedAtMilliseconds := now\<rparr>;
                               metrics = rg_metrics reg;
                               metrics = (case direction of
                                 Up \<Rightarrow> metrics\<lparr>mt_bytesUp := mt_bytesUp metrics + byteCount\<rparr>
                               | Down \<Rightarrow> metrics\<lparr>mt_bytesDown := mt_bytesDown metrics + byteCount\<rparr>)
                           in Ok (publish ''sessionTraffic'' snapshot
                                (reg\<lparr>rg_sessions := hm_insert (tr_sessionId traffic) snapshot (rg_sessions reg),
                                     rg_cells := hm_insert (ss_cell snapshot) cell (rg_cells reg),
                                     rg_budget := budget, rg_metrics := metrics\<rparr>)))))))"

definition addTraffic :: "u64 \<Rightarrow> str \<Rightarrow> TrafficDirection \<Rightarrow> bytes \<Rightarrow> SessionRegistry \<Rightarrow> SessionRegistry checked" where
  "addTraffic now sessionId direction payload reg =
     addModifiedTraffic now \<lparr>tr_sessionId = sessionId, tr_direction = direction, tr_originalPayload = payload, tr_payload = payload\<rparr> reg"

definition closedSessions :: "SessionRegistry \<Rightarrow> (str \<times> u64) list" where
  "closedSessions reg =
     map (\<lambda>e. (fst e, ss_closedAtMilliseconds (snd e))) (filter (\<lambda>e. session_ended (snd e)) (rg_sessions reg))"

definition pruneClosed :: "nat list \<Rightarrow> SessionRegistry \<Rightarrow> SessionRegistry" where
  "pruneClosed held reg =
     (let closed = closedSessions reg
      in if length closed \<le> rg_historyLimit reg then reg
         else
           (let closed = sort_key snd closed;
                removeCount = length closed - rg_historyLimit reg
            in dropUnreferenced held
                 (reg\<lparr>rg_sessions := fold (\<lambda>e sessions. hm_remove (fst e) sessions) (take removeCount closed) (rg_sessions reg)\<rparr>)))"

definition closeSession :: "nat list \<Rightarrow> u64 \<Rightarrow> str \<Rightarrow> str \<Rightarrow> SessionRegistry \<Rightarrow> SessionRegistry" where
  "closeSession held now sessionId errorMessage reg =
     (case hm_get (rg_sessions reg) sessionId of
        None \<Rightarrow> reg
      | Some snapshot \<Rightarrow>
          (let snapshot = snapshot\<lparr>ss_state := (if errorMessage = [] then Closed else Failed), ss_errorMessage := errorMessage,
                             ss_closedAtMilliseconds := now, ss_updatedAtMilliseconds := now\<rparr>;
               metrics = rg_metrics reg;
               metrics = metrics\<lparr>mt_activeConnections := saturating_sub (mt_activeConnections metrics) 1\<rparr>;
               metrics = (if errorMessage = [] then metrics
                          else metrics\<lparr>mt_failedConnections := mt_failedConnections metrics + 1\<rparr>)
           in pruneClosed held (publish ''sessionClosed'' snapshot
                (reg\<lparr>rg_sessions := hm_insert sessionId snapshot (rg_sessions reg), rg_metrics := metrics\<rparr>))))"

text \<open>The clock may advance between the closures; the model gives all of them the same time.\<close>

definition closeActive :: "nat list \<Rightarrow> u64 \<Rightarrow> str \<Rightarrow> SessionRegistry \<Rightarrow> SessionRegistry" where
  "closeActive held now errorMessage reg =
     fold (\<lambda>sessionId. closeSession held now sessionId errorMessage)
       (map fst (filter (\<lambda>e. \<not> session_ended (snd e)) (rg_sessions reg))) reg"

definition snapshots :: "SessionRegistry \<Rightarrow> SessionSnapshot list" where
  "snapshots reg = sort_key (\<lambda>s. - uint (ss_createdAtMilliseconds s)) (map snd (rg_sessions reg))"

definition recordUdpPacket :: "TrafficDirection \<Rightarrow> SessionRegistry \<Rightarrow> SessionRegistry" where
  "recordUdpPacket direction reg =
     (let metrics = rg_metrics reg
      in reg\<lparr>rg_metrics := (case direction of
                Up \<Rightarrow> metrics\<lparr>mt_udpPacketsUp := mt_udpPacketsUp metrics + 1\<rparr>
              | Down \<Rightarrow> metrics\<lparr>mt_udpPacketsDown := mt_udpPacketsDown metrics + 1\<rparr>)\<rparr>)"

definition recordDroppedUdpPacket :: "SessionRegistry \<Rightarrow> SessionRegistry" where
  "recordDroppedUdpPacket reg =
     (let metrics = rg_metrics reg
      in reg\<lparr>rg_metrics := metrics\<lparr>mt_droppedUdpPackets := mt_droppedUdpPackets metrics + 1\<rparr>\<rparr>)"

definition clearClosed :: "nat list \<Rightarrow> SessionRegistry \<Rightarrow> str list \<times> SessionRegistry" where
  "clearClosed held reg =
     (let removedIds = map fst (filter (\<lambda>e. session_ended (snd e)) (rg_sessions reg))
      in (removedIds, dropUnreferenced held (reg\<lparr>rg_sessions := fold hm_remove removedIds (rg_sessions reg)\<rparr>)))"

definition releaseCell :: "str \<Rightarrow> SessionRegistry \<Rightarrow> SessionRegistry" where
  "releaseCell sessionId reg =
     (case hm_get (rg_sessions reg) sessionId of
        None \<Rightarrow> reg
      | Some snapshot \<Rightarrow>
          (let (cell, reg) = newCell emptyCell reg
           in reg\<lparr>rg_sessions := hm_insert sessionId (snapshot\<lparr>ss_cell := cell\<rparr>) (rg_sessions reg)\<rparr>))"

definition clearCapturedBytes :: "nat list \<Rightarrow> SessionRegistry \<Rightarrow> SessionRegistry" where
  "clearCapturedBytes held reg =
     (let reg = reg\<lparr>rg_captureGeneration := rg_captureGeneration reg + 1\<rparr>
      in dropUnreferenced held (fold releaseCell (map fst (rg_sessions reg)) reg))"

definition releaseCapturedBytes :: "nat list \<Rightarrow> str \<Rightarrow> SessionRegistry \<Rightarrow> SessionRegistry" where
  "releaseCapturedBytes held sessionId reg =
     (case hm_get (rg_sessions reg) sessionId of
        None \<Rightarrow> reg
      | Some _ \<Rightarrow> dropUnreferenced held (releaseCell sessionId reg))"

end
