(* ===== verification/LeaseClient.thy ===== *)
theory LeaseClient
  imports SessionRegistry SocksAddress AccountModel
begin

text \<open>
  The client of the account service inside the proxy, \<open>Socks5/src/accountService.rs\<close>: the account wide
  rate limiter, the table of leases with the shared controllers, the synchronisation batches and the
  metered stream. The JSON messages have the fields of the records of the service, which are used here
  too; the HTTP exchange is an argument. Instants are nanoseconds and given as arguments.

  Controllers and leases are shared objects: \<open>lc_controllerObjects\<close> and \<open>lc_leaseObjects\<close> map addresses
  to them, and the tables \<open>lc_controllers\<close> and \<open>lc_leases\<close> hold addresses, so that a connection keeps its
  lease after the table has dropped it.
\<close>

section \<open>Configuration\<close>

record AccountServiceClientConfig =
  ac_endpoint :: str
  ac_internalToken :: str
  ac_synchronizationIntervalMilliseconds :: nat
  ac_requestTimeoutMilliseconds :: nat

definition defaultSynchronizationIntervalMilliseconds :: nat where "defaultSynchronizationIntervalMilliseconds = 2000"
definition defaultRequestTimeoutMilliseconds :: nat where "defaultRequestTimeoutMilliseconds = 3000"

text \<open>\<open>parseUrl\<close> is \<open>reqwest::Url::parse\<close>: the scheme and the host of a valid address.\<close>

definition validateClientConfig ::
  "(str \<Rightarrow> (str \<times> str option) option) \<Rightarrow> AccountServiceClientConfig \<Rightarrow> Socks5Error + unit" where
  "validateClientConfig parseUrl config =
     (case parseUrl (ac_endpoint config) of
        None \<Rightarrow> Inl (Configuration ''endpoint'')
      | Some (scheme, None) \<Rightarrow> Inl (Configuration ''host'')
      | Some (scheme, Some host) \<Rightarrow>
          (let loopback = to_ascii_lowercase host = lit ''localhost''
                 \<or> (case parse_IpAddr host of None \<Rightarrow> False | Some address \<Rightarrow> is_loopback address)
           in if scheme \<noteq> lit ''http'' \<or> \<not> loopback then Inl (Configuration ''loopback'')
              else if str_len (ac_internalToken config) < 32 then Inl (Configuration ''token'')
              else if ac_synchronizationIntervalMilliseconds config < 250 \<or> 4000 < ac_synchronizationIntervalMilliseconds config
              then Inl (Configuration ''interval'')
              else if ac_requestTimeoutMilliseconds config < 100 \<or> 10000 < ac_requestTimeoutMilliseconds config
              then Inl (Configuration ''timeout'')
              else Inr ()))"

section \<open>Rate limiting\<close>

definition second :: nat where "second = 1000000000"

record DirectionSchedule =
  sd_bytesPerSecond :: int
  sd_nextAvailable :: instant

definition DirectionSchedule_new :: "instant \<Rightarrow> int \<Rightarrow> DirectionSchedule" where
  "DirectionSchedule_new now bytesPerSecond = \<lparr>sd_bytesPerSecond = bytesPerSecond, sd_nextAvailable = now\<rparr>"

definition div_ceil :: "nat \<Rightarrow> nat \<Rightarrow> nat" where
  "div_ceil a b = (a + (b - 1)) div b"

text \<open>The time a positive rate needs for the bytes, with the saturations of the code.\<close>

definition slice_duration :: "nat \<Rightarrow> int \<Rightarrow> nat" where
  "slice_duration byteCount bytesPerSecond =
     min (div_ceil (min (byteCount * 1000000000) (2 ^ 128 - 1)) (nat bytesPerSecond)) u64_max"

definition reserveSlice :: "instant \<Rightarrow> nat \<Rightarrow> DirectionSchedule \<Rightarrow> instant option \<times> DirectionSchedule" where
  "reserveSlice now byteCount schedule =
     (if sd_bytesPerSecond schedule < 0 then (None, schedule)
      else if sd_bytesPerSecond schedule = 0 then (Some (now + 86400 * second), schedule)
      else
        (let duration = slice_duration byteCount (sd_bytesPerSecond schedule);
             credit = min second duration;
             base = max (sd_nextAvailable schedule) now;
             scheduled = base + (duration - credit)
         in (Some scheduled, schedule\<lparr>sd_nextAvailable := base + duration\<rparr>)))"

definition updateSchedule :: "instant \<Rightarrow> int \<Rightarrow> DirectionSchedule \<Rightarrow> DirectionSchedule" where
  "updateSchedule now bytesPerSecond schedule = \<lparr>sd_bytesPerSecond = bytesPerSecond, sd_nextAvailable = now\<rparr>"

record AccountTrafficController =
  ct_upload :: DirectionSchedule
  ct_download :: DirectionSchedule
  ct_policyRevision :: int
  ct_activeLeases :: nat

definition AccountTrafficController_new :: "instant \<Rightarrow> LeaseAuthenticationResponse \<Rightarrow> AccountTrafficController" where
  "AccountTrafficController_new now response =
     \<lparr>ct_upload = DirectionSchedule_new now (lg_maxUploadBytesPerSecond response),
      ct_download = DirectionSchedule_new now (lg_maxDownloadBytesPerSecond response),
      ct_policyRevision = lg_policyRevision response, ct_activeLeases = 0\<rparr>"

definition updateController :: "instant \<Rightarrow> int \<Rightarrow> int \<Rightarrow> int \<Rightarrow> AccountTrafficController \<Rightarrow> AccountTrafficController" where
  "updateController now revision upload download controller =
     (if revision \<le> ct_policyRevision controller then controller
      else controller\<lparr>ct_policyRevision := revision,
                      ct_upload := updateSchedule now upload (ct_upload controller),
                      ct_download := updateSchedule now download (ct_download controller)\<rparr>)"

definition reserveDirection :: "instant \<Rightarrow> TrafficDirection \<Rightarrow> nat \<Rightarrow> AccountTrafficController \<Rightarrow> instant option \<times> AccountTrafficController" where
  "reserveDirection now direction byteCount controller =
     (case direction of
        Up \<Rightarrow> (let (scheduled, schedule) = reserveSlice now byteCount (ct_upload controller)
                in (scheduled, controller\<lparr>ct_upload := schedule\<rparr>))
      | Down \<Rightarrow> (let (scheduled, schedule) = reserveSlice now byteCount (ct_download controller)
                  in (scheduled, controller\<lparr>ct_download := schedule\<rparr>)))"

section \<open>Leases\<close>

record LeaseObject =
  lo_serviceInstanceId :: str
  lo_accountId :: str
  lo_leaseId :: str
  lo_connectionId :: str
  lo_username :: str
  lo_uploadedBytes :: u64
  lo_downloadedBytes :: u64
  lo_controller :: nat
  lo_revoked :: bool
  lo_finalPending :: bool

record ClientState =
  lc_controllers :: "(str, nat) hashmap"
  lc_controllerObjects :: "(nat, AccountTrafficController) hashmap"
  lc_leases :: "(str, nat) hashmap"
  lc_leaseObjects :: "(nat, LeaseObject) hashmap"
  lc_serviceInstanceId :: "str option"
  lc_nextAddress :: nat

definition ClientState_new :: ClientState where
  "ClientState_new = \<lparr>lc_controllers = [], lc_controllerObjects = [], lc_leases = [], lc_leaseObjects = [],
     lc_serviceInstanceId = None, lc_nextAddress = 0\<rparr>"

definition modifyLease :: "nat \<Rightarrow> (LeaseObject \<Rightarrow> LeaseObject) \<Rightarrow> ClientState \<Rightarrow> ClientState" where
  "modifyLease a f state = state\<lparr>lc_leaseObjects := hm_modify a f (lc_leaseObjects state)\<rparr>"

definition modifyController :: "nat \<Rightarrow> (AccountTrafficController \<Rightarrow> AccountTrafficController) \<Rightarrow> ClientState \<Rightarrow> ClientState" where
  "modifyController a f state = state\<lparr>lc_controllerObjects := hm_modify a f (lc_controllerObjects state)\<rparr>"

text \<open>The atomic decrement wraps; the count before it decides whether this was the last lease.\<close>

definition releaseController :: "LeaseObject \<Rightarrow> ClientState \<Rightarrow> ClientState" where
  "releaseController lease state =
     (let a = lo_controller lease;
          before = (case hm_get (lc_controllerObjects state) a of None \<Rightarrow> 0 | Some c \<Rightarrow> ct_activeLeases c);
          lastLease = before = 1;
          state = modifyController a (\<lambda>c. c\<lparr>ct_activeLeases := (if ct_activeLeases c = 0 then u64_max else ct_activeLeases c - 1)\<rparr>) state
      in if lastLease \<and> hm_get (lc_controllers state) (lo_accountId lease) = Some a
         then state\<lparr>lc_controllers := hm_remove (lo_accountId lease) (lc_controllers state)\<rparr>
         else state)"

definition dropLease :: "nat \<Rightarrow> ClientState \<Rightarrow> ClientState" where
  "dropLease a state =
     (case hm_get (lc_leaseObjects state) a of
        None \<Rightarrow> state
      | Some lease \<Rightarrow> releaseController lease (modifyLease a (\<lambda>l. l\<lparr>lo_revoked := True\<rparr>) state))"

definition adoptServiceInstance :: "str \<Rightarrow> ClientState \<Rightarrow> ClientState" where
  "adoptServiceInstance serviceInstanceId state =
     (let changed = (case lc_serviceInstanceId state of None \<Rightarrow> False | Some value \<Rightarrow> value \<noteq> serviceInstanceId);
          state = state\<lparr>lc_serviceInstanceId := Some serviceInstanceId\<rparr>
      in if \<not> changed then state
         else fold dropLease (map snd (lc_leases state)) (state\<lparr>lc_leases := []\<rparr>))"

text \<open>The part of \<open>authenticate\<close> after the adoption: the controller is shared, counted and updated, the lease entered.\<close>

definition acquireController :: "instant \<Rightarrow> LeaseAuthenticationResponse \<Rightarrow> ClientState \<Rightarrow> nat \<times> ClientState" where
  "acquireController now response state =
     (let (a, state) =
            (case hm_get (lc_controllers state) (lg_accountId response) of
               Some a \<Rightarrow> (a, state)
             | None \<Rightarrow>
                 (lc_nextAddress state,
                  state\<lparr>lc_controllers := hm_insert (lg_accountId response) (lc_nextAddress state) (lc_controllers state),
                        lc_controllerObjects := hm_insert (lc_nextAddress state) (AccountTrafficController_new now response)
                          (lc_controllerObjects state),
                        lc_nextAddress := lc_nextAddress state + 1\<rparr>))
      in (a, modifyController a (\<lambda>c. c\<lparr>ct_activeLeases := ct_activeLeases c + 1\<rparr>) state))"

text \<open>
  The code counts the new lease in its controller and enters it in the table in two lock sections. Here both are one
  step, as are the lock sections of a change of the service instance: the invariants are about the states between
  operations, not between two locks of one operation.
\<close>

definition registerLease :: "instant \<Rightarrow> str \<Rightarrow> LeaseAuthenticationResponse \<Rightarrow> ClientState \<Rightarrow> nat \<times> ClientState" where
  "registerLease now connectionId response state =
     (let (a, state) = acquireController now response state;
          state = modifyController a (updateController now (lg_policyRevision response)
                    (lg_maxUploadBytesPerSecond response) (lg_maxDownloadBytesPerSecond response)) state;
          lease = \<lparr>lo_serviceInstanceId = lg_serviceInstanceId response, lo_accountId = lg_accountId response,
                   lo_leaseId = lg_leaseId response, lo_connectionId = connectionId, lo_username = lg_username response,
                   lo_uploadedBytes = 0, lo_downloadedBytes = 0, lo_controller = a, lo_revoked = False, lo_finalPending = False\<rparr>;
          address = lc_nextAddress state
      in (address, state\<lparr>lc_leaseObjects := hm_insert address lease (lc_leaseObjects state),
                         lc_leases := hm_insert (lg_leaseId response) address (lc_leases state),
                         lc_nextAddress := address + 1\<rparr>))"

text \<open>\<open>reply\<close> is the decoded answer of the service, or none where the request failed or was refused.\<close>

definition authenticateClient ::
  "instant \<Rightarrow> str \<Rightarrow> LeaseAuthenticationResponse option \<Rightarrow> ClientState \<Rightarrow> nat option \<times> ClientState" where
  "authenticateClient now connectionId reply state =
     (case reply of
        None \<Rightarrow> (None, state)
      | Some response \<Rightarrow>
          (let (address, state) = registerLease now connectionId response (adoptServiceInstance (lg_serviceInstanceId response) state)
           in (Some address, state)))"

section \<open>Traffic\<close>

datatype acquire_result = Granted | Waiting instant | Refused

text \<open>
  An acquisition reserves and then waits until the scheduled instant; a revoked lease or a stopping
  service refuses it. The wait itself is the value \<open>Waiting\<close>. Where a refusal and a grant are ready at the
  same time the code may take either; the model takes the refusal.
\<close>

definition acquireTraffic :: "instant \<Rightarrow> bool \<Rightarrow> nat \<Rightarrow> TrafficDirection \<Rightarrow> nat \<Rightarrow> ClientState \<Rightarrow> acquire_result \<times> ClientState" where
  "acquireTraffic now cancelled address direction byteCount state =
     (case hm_get (lc_leaseObjects state) address of
        None \<Rightarrow> (Refused, state)
      | Some lease \<Rightarrow>
          (case hm_get (lc_controllerObjects state) (lo_controller lease) of
             None \<Rightarrow> (Refused, state)
           | Some controller \<Rightarrow>
               (let (scheduled, controller) = reserveDirection now direction byteCount controller;
                    state = state\<lparr>lc_controllerObjects := hm_insert (lo_controller lease) controller (lc_controllerObjects state)\<rparr>
                in case scheduled of
                     None \<Rightarrow> (if lo_revoked lease then Refused else Granted, state)
                   | Some t \<Rightarrow> (if cancelled \<or> lo_revoked lease then Refused else if t \<le> now then Granted else Waiting t, state))))"

definition recordTraffic :: "nat \<Rightarrow> TrafficDirection \<Rightarrow> nat \<Rightarrow> ClientState \<Rightarrow> ClientState" where
  "recordTraffic address direction byteCount =
     modifyLease address (\<lambda>l. case direction of
        Up \<Rightarrow> l\<lparr>lo_uploadedBytes := saturating_add (lo_uploadedBytes l) (of_nat byteCount)\<rparr>
      | Down \<Rightarrow> l\<lparr>lo_downloadedBytes := saturating_add (lo_downloadedBytes l) (of_nat byteCount)\<rparr>)"

definition finishLease :: "nat \<Rightarrow> ClientState \<Rightarrow> ClientState" where
  "finishLease address = modifyLease address (\<lambda>l. l\<lparr>lo_finalPending := True\<rparr>)"

section \<open>Synchronisation\<close>

definition leaseProgress :: "LeaseObject \<Rightarrow> LeaseProgress" where
  "leaseProgress lease = \<lparr>pr_leaseId = lo_leaseId lease, pr_connectionId = lo_connectionId lease,
     pr_uploadedBytes = unat (lo_uploadedBytes lease), pr_downloadedBytes = unat (lo_downloadedBytes lease),
     pr_final = lo_finalPending lease\<rparr>"

definition tableLeases :: "ClientState \<Rightarrow> LeaseObject list" where
  "tableLeases state = List.map_filter (\<lambda>e. hm_get (lc_leaseObjects state) (snd e)) (lc_leases state)"

definition buildSynchronizationRequest :: "str \<Rightarrow> ClientState \<Rightarrow> LeaseSynchronizationRequest option" where
  "buildSynchronizationRequest batchId state =
     (case tableLeases state of
        [] \<Rightarrow> None
      | first # rest \<Rightarrow> Some \<lparr>rq_serviceInstanceId = lo_serviceInstanceId first, rq_batchId = batchId,
                             rq_leases = map leaseProgress (first # rest)\<rparr>)"

definition applyResult :: "instant \<Rightarrow> LeaseSynchronizationRequest \<Rightarrow> LeaseSynchronizationResult \<Rightarrow> ClientState \<Rightarrow> ClientState" where
  "applyResult now request result state =
     (case hm_get (lc_leases state) (rs_leaseId result) of
        None \<Rightarrow> state
      | Some address \<Rightarrow>
          (case hm_get (lc_leaseObjects state) address of
             None \<Rightarrow> state
           | Some lease \<Rightarrow>
               (let state = modifyController (lo_controller lease) (updateController now (rs_policyRevision result)
                              (rs_maxUploadBytesPerSecond result) (rs_maxDownloadBytesPerSecond result)) state;
                    state = (if rs_revoked result then modifyLease address (\<lambda>l. l\<lparr>lo_revoked := True\<rparr>) state else state);
                    finalConfirmed = list_ex (\<lambda>p. pr_leaseId p = rs_leaseId result \<and> pr_final p) (rq_leases request)
                in if finalConfirmed
                   then releaseController lease (state\<lparr>lc_leases := hm_remove (rs_leaseId result) (lc_leases state)\<rparr>)
                   else state)))"

definition applySynchronizationResponse ::
  "instant \<Rightarrow> LeaseSynchronizationRequest \<Rightarrow> LeaseSynchronizationResponse \<Rightarrow> ClientState \<Rightarrow> ClientState" where
  "applySynchronizationResponse now request response = fold (applyResult now request) (rp_leases response)"

datatype SynchronizationFailure = Transient | InstanceChanged

text \<open>What one HTTP attempt yields: no answer, a status other than success, an undecodable body, or a response.\<close>

datatype synchronization_reply = NoAnswer | ConflictStatus | OtherStatus | Undecodable | Answer LeaseSynchronizationResponse

definition sendSynchronization ::
  "LeaseSynchronizationRequest \<Rightarrow> synchronization_reply \<Rightarrow> SynchronizationFailure + LeaseSynchronizationResponse" where
  "sendSynchronization request reply =
     (case reply of
        NoAnswer \<Rightarrow> Inl Transient
      | ConflictStatus \<Rightarrow> Inl InstanceChanged
      | OtherStatus \<Rightarrow> Inl Transient
      | Undecodable \<Rightarrow> Inl Transient
      | Answer response \<Rightarrow>
          if rp_serviceInstanceId response \<noteq> rq_serviceInstanceId request then Inl InstanceChanged else Inr response)"

definition revokeBatch :: "LeaseSynchronizationRequest \<Rightarrow> ClientState \<Rightarrow> ClientState" where
  "revokeBatch request state =
     fold (\<lambda>progress state. case hm_get (lc_leases state) (pr_leaseId progress) of
        None \<Rightarrow> state
      | Some address \<Rightarrow> modifyLease address (\<lambda>l. l\<lparr>lo_revoked := True\<rparr>) state) (rq_leases request) state"

text \<open>
  The retries of one batch: the attempts are given with the instants at which they ended. An attempt
  that fails after the deadline, or for another reason than a transient one, ends the loop.
\<close>

fun synchronizeWithRetry ::
  "instant \<Rightarrow> LeaseSynchronizationRequest \<Rightarrow> (instant \<times> synchronization_reply) list \<Rightarrow> ClientState \<Rightarrow> ClientState option" where
  "synchronizeWithRetry deadline request [] state = None"
| "synchronizeWithRetry deadline request ((now, reply) # attempts) state =
     (case sendSynchronization request reply of
        Inr response \<Rightarrow> Some (applySynchronizationResponse now request response state)
      | Inl Transient \<Rightarrow>
          if now < deadline then synchronizeWithRetry deadline request attempts state else Some (revokeBatch request state)
      | Inl InstanceChanged \<Rightarrow> Some (revokeBatch request state))"

section \<open>The metered stream\<close>

record AccountTrafficStream =
  as_lease :: nat
  as_readDirection :: TrafficDirection
  as_writeDirection :: TrafficDirection
  as_pendingRead :: bytes
  as_pendingReadOffset :: nat
  as_readDelay :: "instant option"
  as_writeDelay :: "instant option"
  as_scheduledWriteBytes :: nat

definition AccountTrafficStream_new :: "nat \<Rightarrow> TrafficDirection \<Rightarrow> TrafficDirection \<Rightarrow> AccountTrafficStream" where
  "AccountTrafficStream_new lease readDirection writeDirection =
     \<lparr>as_lease = lease, as_readDirection = readDirection, as_writeDirection = writeDirection, as_pendingRead = [],
      as_pendingReadOffset = 0, as_readDelay = None, as_writeDelay = None, as_scheduledWriteBytes = 0\<rparr>"

datatype ('e, 'a) poll = Pending | Ready "'e + 'a"

definition reserveDelay :: "instant \<Rightarrow> nat \<Rightarrow> TrafficDirection \<Rightarrow> nat \<Rightarrow> ClientState \<Rightarrow> instant option \<times> ClientState" where
  "reserveDelay now address direction byteCount state =
     (case hm_get (lc_leaseObjects state) address of
        None \<Rightarrow> (None, state)
      | Some lease \<Rightarrow>
          (case hm_get (lc_controllerObjects state) (lo_controller lease) of
             None \<Rightarrow> (None, state)
           | Some controller \<Rightarrow>
               (let (scheduled, controller) = reserveDirection now direction byteCount controller
                in (map_option (\<lambda>t. t - now) scheduled,
                    state\<lparr>lc_controllerObjects := hm_insert (lo_controller lease) controller (lc_controllerObjects state)\<rparr>))))"

text \<open>A positive delay becomes a timer; it has fired once its instant is reached.\<close>

definition delayTimer :: "instant \<Rightarrow> instant option \<Rightarrow> instant option" where
  "delayTimer now delay = (case delay of None \<Rightarrow> None | Some d \<Rightarrow> if d = 0 then None else Some (now + d))"

definition timerPending :: "instant \<Rightarrow> instant option \<Rightarrow> bool" where
  "timerPending now timer = (case timer of None \<Rightarrow> False | Some t \<Rightarrow> now < t)"

text \<open>\<open>inner\<close> is the answer of the wrapped stream, asked for at most the given number of bytes.\<close>

definition deliverRead :: "instant \<Rightarrow> nat \<Rightarrow> AccountTrafficStream \<Rightarrow> ClientState \<Rightarrow> ('e, bytes) poll \<times> AccountTrafficStream \<times> ClientState" where
  "deliverRead now remaining stream state =
     (if timerPending now (as_readDelay stream) then (Pending, stream, state)
      else
        (let available = length (as_pendingRead stream) - as_pendingReadOffset stream;
             byteCount = min available remaining;
             start = as_pendingReadOffset stream
         in (Ready (Inr (subslice start (start + byteCount) (as_pendingRead stream))),
             stream\<lparr>as_readDelay := None, as_pendingReadOffset := start + byteCount\<rparr>,
             recordTraffic (as_lease stream) (as_readDirection stream) byteCount state)))"

definition poll_read ::
  "instant \<Rightarrow> nat \<Rightarrow> (nat \<Rightarrow> ('e, bytes) poll) \<Rightarrow> AccountTrafficStream \<Rightarrow> ClientState \<Rightarrow> ('e, bytes) poll \<times> AccountTrafficStream \<times> ClientState" where
  "poll_read now remaining inner stream state =
     (if length (as_pendingRead stream) \<le> as_pendingReadOffset stream then
        (let capacity = min remaining (64 * 1024)
         in if capacity = 0 then (Ready (Inr []), stream, state)
            else (case inner capacity of
                    Pending \<Rightarrow> (Pending, stream, state)
                  | Ready (Inl error) \<Rightarrow> (Ready (Inl error), stream, state)
                  | Ready (Inr bs) \<Rightarrow>
                      if bs = [] then (Ready (Inr []), stream, state)
                      else
                        (let (delay, state) = reserveDelay now (as_lease stream) (as_readDirection stream) (length bs) state
                         in deliverRead now remaining (stream\<lparr>as_pendingRead := bs, as_pendingReadOffset := 0,
                              as_readDelay := delayTimer now delay\<rparr>) state)))
      else deliverRead now remaining stream state)"

definition poll_write ::
  "instant \<Rightarrow> bytes \<Rightarrow> (bytes \<Rightarrow> ('e, nat) poll) \<Rightarrow> AccountTrafficStream \<Rightarrow> ClientState \<Rightarrow> ('e, nat) poll \<times> AccountTrafficStream \<times> ClientState" where
  "poll_write now bs inner stream state =
     (let (stream, state) =
            (if as_scheduledWriteBytes stream = 0 then
               (let n = min (length bs) (64 * 1024);
                    (delay, state) = reserveDelay now (as_lease stream) (as_writeDirection stream) n state
                in (stream\<lparr>as_scheduledWriteBytes := n, as_writeDelay := delayTimer now delay\<rparr>, state))
             else (stream, state))
      in if timerPending now (as_writeDelay stream) then (Pending, stream, state)
         else
           (let stream = stream\<lparr>as_writeDelay := None\<rparr>;
                maximum = min (as_scheduledWriteBytes stream) (length bs)
            in case inner (take maximum bs) of
                 Pending \<Rightarrow> (Pending, stream, state)
               | Ready (Inl error) \<Rightarrow> (Ready (Inl error), stream\<lparr>as_scheduledWriteBytes := 0\<rparr>, state)
               | Ready (Inr byteCount) \<Rightarrow>
                   (Ready (Inr byteCount), stream\<lparr>as_scheduledWriteBytes := 0\<rparr>,
                    recordTraffic (as_lease stream) (as_writeDirection stream) byteCount state)))"

end
