(* ===== verification/Relay.thy ===== *)
theory Relay
  imports LeaseClient SocksProtocol
begin

text \<open>
  The relays of the SOCKS5 proxy. The TCP pump of \<open>Socks5/src/relay.rs\<close> and the UDP association of
  \<open>Socks5/src/udpRelay.rs\<close> run over the session registry and the account client; the event loop is a
  step function over what the environment delivers. The plugin host is a parameter with its own state,
  as are the resolver and the outcomes of socket calls. A text form of an address is the parameter
  \<open>hostText\<close> or \<open>addressText\<close>.
\<close>

section \<open>Plugins\<close>

record ('c, 'h) plugin_host =
  ph_open :: "ConnectionMetadata \<Rightarrow> 'h \<Rightarrow> 'c \<times> 'h"
  ph_process :: "'c \<Rightarrow> StreamDirection \<Rightarrow> bytes \<Rightarrow> 'h \<Rightarrow> DataPlaneActionResult \<times> 'h"
  ph_close :: "'c \<Rightarrow> 'h \<Rightarrow> 'h"

section \<open>The TCP pump\<close>

datatype read_result = ReadTimeout | ReadError ErrorKind | ReadData bytes

text \<open>
  What one round of the pump meets: the read, the clock in milliseconds and nanoseconds, whether the
  service stops or the lease is revoked while the pump waits, and whether the write (or the flush behind it,
  or the shutdown at the end of the stream) fails, after how many bytes. The bytes of a failed write are kept apart.
\<close>

record pump_event =
  pe_read :: read_result
  pe_now :: u64
  pe_instant :: instant
  pe_cancelled :: bool
  pe_write :: "(nat \<times> ErrorKind) option"

record 'h PumpState =
  pp_registry :: SessionRegistry
  pp_client :: ClientState
  pp_host :: 'h
  pp_totalBytes :: u64
  pp_written :: bytes
  pp_failedWrite :: bytes

record 'c PumpContext =
  px_sessionId :: str
  px_direction :: TrafficDirection
  px_plugin :: 'c
  px_hookDirection :: StreamDirection
  px_lease :: "nat option"

text \<open>The wait for the quota of the account, where the connection has a lease.\<close>

definition acquireLease :: "instant \<Rightarrow> bool \<Rightarrow> nat option \<Rightarrow> TrafficDirection \<Rightarrow> nat \<Rightarrow> ClientState \<Rightarrow> bool \<times> ClientState" where
  "acquireLease now cancelled lease direction byteCount client =
     (case lease of
        None \<Rightarrow> (True, client)
      | Some address \<Rightarrow>
          (case acquireTraffic now cancelled address direction byteCount client of (r, client) \<Rightarrow> (r \<noteq> Refused, client)))"

definition recordLease :: "nat option \<Rightarrow> TrafficDirection \<Rightarrow> nat \<Rightarrow> ClientState \<Rightarrow> ClientState" where
  "recordLease lease direction byteCount client =
     (case lease of None \<Rightarrow> client | Some address \<Rightarrow> recordTraffic address direction byteCount client)"

definition forwardChunk ::
  "'c PumpContext \<Rightarrow> pump_event \<Rightarrow> bytes \<Rightarrow> bytes \<Rightarrow> 'h PumpState \<Rightarrow> (Socks5Error, unit) outcome \<times> 'h PumpState" where
  "forwardChunk context event originalBytes bs state =
     (let (granted, client) = acquireLease (pe_instant event) (pe_cancelled event) (px_lease context) (px_direction context) (length bs) (pp_client state);
          state = state\<lparr>pp_client := client\<rparr>
      in if \<not> granted then (Err AuthenticationFailed, state)
         else (case pe_write event of
                 Some (n, kind) \<Rightarrow> (Err (Socks5Error.Io kind), state\<lparr>pp_failedWrite := take n bs\<rparr>)
               | None \<Rightarrow>
                   (let state = state\<lparr>pp_written := pp_written state @ bs,
                                      pp_client := recordLease (px_lease context) (px_direction context) (length bs) (pp_client state),
                                      pp_totalBytes := saturating_add (pp_totalBytes state) (of_nat (length bs))\<rparr>
                    in case addModifiedTraffic (pe_now event) \<lparr>tr_sessionId = px_sessionId context, tr_direction = px_direction context,
                              tr_originalPayload = originalBytes, tr_payload = bs\<rparr> (pp_registry state) of
                         Ok registry \<Rightarrow> (Ok (), state\<lparr>pp_registry := registry\<rparr>)
                       | _ \<Rightarrow> (Panic, state))))"

text \<open>The pump over the events it meets; with no event left it is still running.\<close>

fun pumpStream ::
  "('c, 'h) plugin_host \<Rightarrow> 'c PumpContext \<Rightarrow> pump_event list \<Rightarrow> 'h PumpState \<Rightarrow> (Socks5Error, u64) outcome option \<times> 'h PumpState" where
  "pumpStream host context [] state = (None, state)"
| "pumpStream host context (event # events) state =
     (case pe_read event of
        ReadTimeout \<Rightarrow> (Some (Err RelayIdleTimeout), state)
      | ReadError kind \<Rightarrow> (Some (Err (Socks5Error.Io kind)), state)
      | ReadData originalBytes \<Rightarrow>
          if originalBytes = [] then
            (case pe_write event of
               Some (_, kind) \<Rightarrow> (Some (Err (Socks5Error.Io kind)), state)
             | None \<Rightarrow> (Some (Ok (pp_totalBytes state)), state))
          else
            (case ph_process host (px_plugin context) (px_hookDirection context) originalBytes (pp_host state) of
               (action, h) \<Rightarrow>
                 (let state = state\<lparr>pp_host := h\<rparr>
                  in case action of
                       ActionForward bs \<Rightarrow>
                         (case forwardChunk context event originalBytes bs state of
                            (Ok _, state) \<Rightarrow> pumpStream host context events state
                          | (Err e, state) \<Rightarrow> (Some (Err e), state)
                          | (Panic, state) \<Rightarrow> (Some Panic, state))
                     | ActionHold \<Rightarrow> pumpStream host context events state
                     | ActionDrop \<Rightarrow> pumpStream host context events state
                     | ActionClose \<Rightarrow> (Some (Err PluginClosed), state))))"

text \<open>
  The end of a bidirectional relay: an error of either pump ends both, the plugin connection is closed,
  and the usual ways of ending an established connection count as success.
\<close>

definition relayResult :: "(Socks5Error, unit) outcome \<Rightarrow> (Socks5Error, unit) outcome" where
  "relayResult result =
     (case result of Err error \<Rightarrow> if isNormalRelayTermination error then Ok () else Err error | _ \<Rightarrow> result)"

section \<open>Targets\<close>

definition validateClientTarget ::
  "(bytes \<Rightarrow> u16 \<Rightarrow> bytes + SocketAddr list) \<Rightarrow> (TargetAddress \<Rightarrow> bytes) \<Rightarrow> TargetAddress \<Rightarrow> SocketAddr \<Rightarrow> Socks5Error + unit" where
  "validateClientTarget lookup render requestedClient controlPeer =
     (if isUnspecified requestedClient then Inr ()
      else
        (case (case ta_host requestedClient of
                 Ip address \<Rightarrow> Inr (address = sa_ip controlPeer)
               | Domain _ \<Rightarrow>
                   (case resolve lookup render requestedClient of
                      Inl e \<Rightarrow> Inl e
                    | Inr addresses \<Rightarrow> Inr (list_ex (\<lambda>a. sa_ip a = sa_ip controlPeer) addresses))) of
           Inl e \<Rightarrow> Inl e
         | Inr valid \<Rightarrow> if valid then Inr () else Inl InvalidUdpSource))"

definition advertisedAddress :: "SocketAddr \<Rightarrow> SocketAddr \<Rightarrow> SocketAddr" where
  "advertisedAddress boundAddress controlLocal =
     (if is_unspecified (sa_ip boundAddress) then SocketAddr_new (sa_ip controlLocal) (sa_port boundAddress) else boundAddress)"

definition targetMatchesPeer ::
  "(bytes \<Rightarrow> u16 \<Rightarrow> bytes + SocketAddr list) \<Rightarrow> (TargetAddress \<Rightarrow> bytes) \<Rightarrow> TargetAddress \<Rightarrow> SocketAddr \<Rightarrow> Socks5Error + bool" where
  "targetMatchesPeer lookup render target peer =
     (if ta_port target \<noteq> 0 \<and> ta_port target \<noteq> sa_port peer then Inr False
      else if isUnspecified target then Inr True
      else (case ta_host target of
              Ip address \<Rightarrow> Inr (address = sa_ip peer)
            | Domain _ \<Rightarrow>
                (case resolve lookup render target of
                   Inl e \<Rightarrow> Inl e
                 | Inr addresses \<Rightarrow> Inr (list_ex (\<lambda>a. sa_ip a = sa_ip peer) addresses))))"

section \<open>The UDP association\<close>

definition remoteResponseQueueCapacity :: nat where "remoteResponseQueueCapacity = 32"

text \<open>The bounded queue between the receivers of remote datagrams and the association; \<open>None\<close> is a closed queue.\<close>

definition queueRemoteDatagram ::
  "'d list option \<Rightarrow> 'd \<Rightarrow> SessionRegistry \<Rightarrow> bool \<times> 'd list option \<times> SessionRegistry" where
  "queueRemoteDatagram queue datagram registry =
     (case queue of
        None \<Rightarrow> (False, None, registry)
      | Some ds \<Rightarrow>
          if length ds < remoteResponseQueueCapacity then (True, Some (ds @ [datagram]), registry)
          else (True, Some ds, recordDroppedUdpPacket registry))"

record ('c, 'h) UdpAssociation =
  ua_controlPeer :: SocketAddr
  ua_requestedClient :: TargetAddress
  ua_udpMaxPacketSize :: nat
  ua_udpRemoteLimit :: nat
  ua_sessionId :: str
  ua_controlClientAddress :: str
  ua_lease :: "nat option"
  ua_clientAddress :: "SocketAddr option"
  ua_allowedRemoteAddresses :: "SocketAddr list"
  ua_pluginConnections :: "(SocketAddr, 'c) hashmap"
  ua_registry :: SessionRegistry
  ua_client :: ClientState
  ua_host :: 'h
  ua_sentRemote :: "(bytes \<times> SocketAddr) list"
  ua_sentClient :: "(bytes \<times> SocketAddr) list"

text \<open>
  A round of the loop continues, leaves the loop, or returns from the function at once: the question
  mark operator inside the loop does not run the code behind it.
\<close>

datatype 'a relay_step = Continue 'a | Break "(Socks5Error, unit) outcome" 'a | Return "(Socks5Error, unit) outcome" 'a

definition dropPacket :: "('c, 'h) UdpAssociation \<Rightarrow> ('c, 'h) UdpAssociation relay_step" where
  "dropPacket assoc = Continue (assoc\<lparr>ua_registry := recordDroppedUdpPacket (ua_registry assoc)\<rparr>)"

record client_datagram =
  cd_bytes :: bytes
  cd_source :: SocketAddr
  cd_lookup :: "bytes \<Rightarrow> u16 \<Rightarrow> bytes + SocketAddr list"
  cd_resolveTimeout :: bool
  cd_sent :: bool
  cd_now :: u64
  cd_instant :: instant
  cd_cancelled :: bool

record remote_datagram =
  rd_bytes :: bytes
  rd_source :: SocketAddr
  rd_sendError :: "ErrorKind option"
  rd_now :: u64
  rd_instant :: instant
  rd_cancelled :: bool

text \<open>The texts and the optional resolver that the association uses.\<close>

record relay_texts =
  rt_hostText :: "TargetAddress \<Rightarrow> str"
  rt_addressText :: "TargetAddress \<Rightarrow> str"
  rt_render :: "TargetAddress \<Rightarrow> bytes"
  rt_addressOverride :: "(bytes \<Rightarrow> IpAddr option) option"

definition pluginConnection ::
  "('c, 'h) plugin_host \<Rightarrow> ConnectionMetadata \<Rightarrow> SocketAddr \<Rightarrow> ('c, 'h) UdpAssociation \<Rightarrow> 'c \<times> ('c, 'h) UdpAssociation" where
  "pluginConnection host metadata target assoc =
     (case hm_get (ua_pluginConnections assoc) target of
        Some c \<Rightarrow> (c, assoc)
      | None \<Rightarrow>
          (case ph_open host metadata (ua_host assoc) of
             (c, h) \<Rightarrow> (c, assoc\<lparr>ua_pluginConnections := hm_insert target c (ua_pluginConnections assoc), ua_host := h\<rparr>)))"

definition recordUdp :: "u64 \<Rightarrow> TrafficDirection \<Rightarrow> bytes \<Rightarrow> bytes \<Rightarrow> ('c, 'h) UdpAssociation \<Rightarrow> ('c, 'h) UdpAssociation relay_step" where
  "recordUdp now direction originalPayload payload assoc =
     (case addModifiedTraffic now \<lparr>tr_sessionId = ua_sessionId assoc, tr_direction = direction,
            tr_originalPayload = originalPayload, tr_payload = payload\<rparr> (ua_registry assoc) of
        Ok registry \<Rightarrow> Continue (assoc\<lparr>ua_registry := recordUdpPacket direction registry\<rparr>)
      | _ \<Rightarrow> Return Panic assoc)"

text \<open>The datagram has passed the plugins and the quota: it is sent, and the target becomes an allowed source.\<close>

definition sendToRemote ::
  "relay_texts \<Rightarrow> client_datagram \<Rightarrow> TargetAddress \<Rightarrow> SocketAddr \<Rightarrow> bytes \<Rightarrow> bytes \<Rightarrow> ('c, 'h) UdpAssociation \<Rightarrow> ('c, 'h) UdpAssociation relay_step" where
  "sendToRemote texts event destination target originalPayload payload assoc =
     (if \<not> cd_sent event then dropPacket assoc
      else
        (let assoc = assoc\<lparr>ua_sentRemote := ua_sentRemote assoc @ [(payload, target)],
                           ua_client := recordLease (ua_lease assoc) TrafficDirection.Up (length payload) (ua_client assoc)\<rparr>;
             assoc = (if ua_allowedRemoteAddresses assoc \<noteq> [] then assoc
                      else assoc\<lparr>ua_registry := snd (updateSession (cd_now event) (ua_sessionId assoc)
                             \<lparr>su_username = None, su_command = None, su_targetAddress = Some (rt_addressText texts destination),
                              su_applicationProtocol = None, su_state = UdpAssociating\<rparr> (ua_registry assoc))\<rparr>);
             assoc = assoc\<lparr>ua_allowedRemoteAddresses := List.insert target (ua_allowedRemoteAddresses assoc),
                           ua_clientAddress := Some (cd_source event)\<rparr>
         in recordUdp (cd_now event) TrafficDirection.Up originalPayload payload assoc))"

definition relayDatagram ::
  "('c, 'h) plugin_host \<Rightarrow> relay_texts \<Rightarrow> client_datagram \<Rightarrow> UdpPacket \<Rightarrow> SocketAddr \<Rightarrow> ('c, 'h) UdpAssociation \<Rightarrow> ('c, 'h) UdpAssociation relay_step" where
  "relayDatagram host texts event packet target assoc =
     (let destination = up_destination packet;
          (connection, assoc) = pluginConnection host \<lparr>cm_transport = TransportUdp, cm_clientAddress = ua_controlClientAddress assoc,
             cm_targetHost = rt_hostText texts destination, cm_targetPort = ta_port destination\<rparr> target assoc;
          (action, h) = ph_process host connection ClientToServer (up_payload packet) (ua_host assoc);
          assoc = assoc\<lparr>ua_host := h\<rparr>
      in case action of
           ActionDrop \<Rightarrow> dropPacket assoc
         | ActionHold \<Rightarrow> dropPacket assoc
         | ActionClose \<Rightarrow> Break (Ok ()) assoc
         | ActionForward payload \<Rightarrow>
             (let (granted, client) = acquireLease (cd_instant event) (cd_cancelled event) (ua_lease assoc) TrafficDirection.Up (length payload) (ua_client assoc);
                  assoc = assoc\<lparr>ua_client := client\<rparr>
              in if \<not> granted then Return (Err AuthenticationFailed) assoc
                 else sendToRemote texts event destination target (up_payload packet) payload assoc))"

definition clientReceived ::
  "('c, 'h) plugin_host \<Rightarrow> relay_texts \<Rightarrow> client_datagram \<Rightarrow> ('c, 'h) UdpAssociation \<Rightarrow> ('c, 'h) UdpAssociation relay_step" where
  "clientReceived host texts event assoc =
     (let source = cd_source event
      in if ua_udpMaxPacketSize assoc < length (cd_bytes event) then dropPacket assoc
         else if sa_ip source \<noteq> sa_ip (ua_controlPeer assoc)
               \<or> (ta_port (ua_requestedClient assoc) \<noteq> 0 \<and> sa_port source \<noteq> ta_port (ua_requestedClient assoc))
               \<or> (case ua_clientAddress assoc of None \<Rightarrow> False | Some locked \<Rightarrow> locked \<noteq> source)
         then dropPacket assoc
         else (case decodeUdpPacket (cd_bytes event) of
                 Panic \<Rightarrow> Return Panic assoc
               | Err _ \<Rightarrow> dropPacket assoc
               | Ok packet \<Rightarrow>
                   (if cd_resolveTimeout event then dropPacket assoc
                    else (case resolveWithOverride (cd_lookup event) (rt_render texts) (rt_addressOverride texts) (up_destination packet) of
                            Inl _ \<Rightarrow> dropPacket assoc
                          | Inr [] \<Rightarrow> Continue assoc
                          | Inr (target # _) \<Rightarrow>
                              if ua_udpRemoteLimit assoc \<le> length (ua_allowedRemoteAddresses assoc)
                                 \<and> target \<notin> set (ua_allowedRemoteAddresses assoc)
                              then dropPacket assoc
                              else relayDatagram host texts event packet target assoc))))"

definition remoteReceived ::
  "('c, 'h) plugin_host \<Rightarrow> remote_datagram \<Rightarrow> ('c, 'h) UdpAssociation \<Rightarrow> ('c, 'h) UdpAssociation relay_step" where
  "remoteReceived host event assoc =
     (let source = rd_source event
      in case ua_clientAddress assoc of
           None \<Rightarrow> Continue assoc
         | Some clientAddress \<Rightarrow>
             if source \<notin> set (ua_allowedRemoteAddresses assoc) then dropPacket assoc
             else (case hm_get (ua_pluginConnections assoc) source of
                     None \<Rightarrow> Continue assoc
                   | Some connection \<Rightarrow>
                       (let (action, h) = ph_process host connection ServerToClient (rd_bytes event) (ua_host assoc);
                            assoc = assoc\<lparr>ua_host := h\<rparr>
                        in case action of
                             ActionDrop \<Rightarrow> dropPacket assoc
                           | ActionHold \<Rightarrow> dropPacket assoc
                           | ActionClose \<Rightarrow> Break (Ok ()) assoc
                           | ActionForward payload \<Rightarrow>
                               (case encodeUdpPacket source payload of
                                  Panic \<Rightarrow> Return Panic assoc
                                | Err e \<Rightarrow> Return (Err e) assoc
                                | Ok responsePacket \<Rightarrow>
                                    if ua_udpMaxPacketSize assoc < length responsePacket then dropPacket assoc
                                    else
                                      (let (granted, client) = acquireLease (rd_instant event) (rd_cancelled event) (ua_lease assoc)
                                             TrafficDirection.Down (length payload) (ua_client assoc);
                                           assoc = assoc\<lparr>ua_client := client\<rparr>
                                       in if \<not> granted then Return (Err AuthenticationFailed) assoc
                                          else (case rd_sendError event of
                                                  Some kind \<Rightarrow> Return (Err (Socks5Error.Io kind)) assoc
                                                | None \<Rightarrow>
                                                    recordUdp (rd_now event) TrafficDirection.Down (rd_bytes event) payload
                                                      (assoc\<lparr>ua_sentClient := ua_sentClient assoc @ [(responsePacket, clientAddress)],
                                                             ua_client := recordLease (ua_lease assoc) TrafficDirection.Down (length payload)
                                                               (ua_client assoc)\<rparr>)))))))"

datatype relay_event =
    Cancelled
  | ControlRead "ErrorKind + nat"
  | ClientReceived "ErrorKind + client_datagram"
  | RemoteReceived "remote_datagram option"

definition relayEvent ::
  "('c, 'h) plugin_host \<Rightarrow> relay_texts \<Rightarrow> relay_event \<Rightarrow> ('c, 'h) UdpAssociation \<Rightarrow> ('c, 'h) UdpAssociation relay_step" where
  "relayEvent host texts event assoc =
     (case event of
        Cancelled \<Rightarrow> Break (Ok ()) assoc
      | ControlRead (Inl kind) \<Rightarrow> Break (Err (Socks5Error.Io kind)) assoc
      | ControlRead (Inr n) \<Rightarrow> if n = 0 then Break (Ok ()) assoc else Continue assoc
      | ClientReceived (Inl kind) \<Rightarrow> Return (Err (Socks5Error.Io kind)) assoc
      | ClientReceived (Inr datagram) \<Rightarrow> clientReceived host texts datagram assoc
      | RemoteReceived None \<Rightarrow> Break (Err (Runtime ''channel'')) assoc
      | RemoteReceived (Some datagram) \<Rightarrow> remoteReceived host datagram assoc)"

definition closePluginConnections :: "('c, 'h) plugin_host \<Rightarrow> ('c, 'h) UdpAssociation \<Rightarrow> ('c, 'h) UdpAssociation" where
  "closePluginConnections host assoc =
     assoc\<lparr>ua_pluginConnections := [], ua_host := fold (\<lambda>e. ph_close host (snd e)) (ua_pluginConnections assoc) (ua_host assoc)\<rparr>"

text \<open>The association over the events it meets; with no event left it is still running.\<close>

fun runUdpAssociation ::
  "('c, 'h) plugin_host \<Rightarrow> relay_texts \<Rightarrow> relay_event list \<Rightarrow> ('c, 'h) UdpAssociation \<Rightarrow> (Socks5Error, unit) outcome option \<times> ('c, 'h) UdpAssociation" where
  "runUdpAssociation host texts [] assoc = (None, assoc)"
| "runUdpAssociation host texts (event # events) assoc =
     (case relayEvent host texts event assoc of
        Continue assoc \<Rightarrow> runUdpAssociation host texts events assoc
      | Break result assoc \<Rightarrow> (Some result, closePluginConnections host assoc)
      | Return result assoc \<Rightarrow> (Some result, assoc))"

end
