(* ===== verification/SessionCaptureLemmas.thy ===== *)
theory SessionCaptureLemmas
  imports SessionRegistry
begin

text \<open>
  The capture buffers of the session registry: an append stores the payload completely unless the
  budget is exhausted, and the packet index cuts the stored bytes into the forwarded payloads.
\<close>

section \<open>Appending to a stream\<close>

definition chunk_data :: "CapturedBytesChunk \<Rightarrow> bytes" where
  "chunk_data chunk = take (ch_length chunk) (ch_bytes chunk)"

definition chunk_full :: "CapturedBytesChunk \<Rightarrow> bool" where
  "chunk_full chunk = (ch_length chunk = length (ch_bytes chunk))"

definition storage_data :: "CapturedBytesStorage \<Rightarrow> bytes" where
  "storage_data storage = concat (map chunk_data (cs_chunks storage))"

definition capacity :: "CapturedBytesChunk list \<Rightarrow> nat" where
  "capacity chunks = sum_list (map (\<lambda>c. length (ch_bytes c)) chunks)"

definition storage_ok :: "CapturedBytesStorage \<Rightarrow> bool" where
  "storage_ok storage \<longleftrightarrow> cs_length storage = length (storage_data storage)
     \<and> cs_reservedBytes storage = capacity (cs_chunks storage)
     \<and> list_all (\<lambda>c. ch_length c \<le> length (ch_bytes c)) (cs_chunks storage)
     \<and> list_all chunk_full (butlast (cs_chunks storage))"

lemma storage_ok_empty [simp]: "storage_ok CapturedBytesStorage_empty"
  by (simp add: storage_ok_def CapturedBytesStorage_empty_def storage_data_def capacity_def)

lemma full_data: "list_all chunk_full cs \<Longrightarrow> length (concat (map chunk_data cs)) = capacity cs"
  by (induction cs) (auto simp: chunk_data_def chunk_full_def capacity_def)

text \<open>A full storage holds as many bytes as it reserved.\<close>

lemma storage_full:
  assumes ok: "storage_ok storage" and full: "lastChunkFull storage"
  shows "cs_length storage = cs_reservedBytes storage" and "list_all chunk_full (cs_chunks storage)"
proof -
  show all: "list_all chunk_full (cs_chunks storage)"
    using ok full by (cases "cs_chunks storage" rule: rev_cases) (auto simp: storage_ok_def lastChunkFull_def chunk_full_def)
  show "cs_length storage = cs_reservedBytes storage"
    using ok full_data [OF all] by (simp add: storage_ok_def storage_data_def)
qed

lemma reserve_spec:
  assumes "reserve n budget = (m, budget')" and "bg_usedBytes budget \<le> bg_maximumBytes budget"
  shows "m \<le> n" and "bg_usedBytes budget' = bg_usedBytes budget + m" and "bg_maximumBytes budget' = bg_maximumBytes budget"
    and "bg_usedBytes budget' \<le> bg_maximumBytes budget'" and "m < n \<Longrightarrow> bg_usedBytes budget' = bg_maximumBytes budget'"
  using assms by (auto simp: reserve_def Let_def min_def split: if_splits)

definition budget_ok :: "CapturedBytesBudget \<Rightarrow> bool" where
  "budget_ok budget \<longleftrightarrow> bg_usedBytes budget \<le> bg_maximumBytes budget"

lemma growChunks_spec:
  assumes ok: "storage_ok storage" and budget: "budget_ok budget" and room: "cs_length storage < streamLimit"
  shows "case growChunks streamLimit storage budget of
      None \<Rightarrow> bg_usedBytes budget = bg_maximumBytes budget
    | Some (storage', budget') \<Rightarrow> storage_ok storage' \<and> storage_data storage' = storage_data storage
        \<and> bg_maximumBytes budget' = bg_maximumBytes budget \<and> budget_ok budget'
        \<and> bg_usedBytes budget' + cs_reservedBytes storage = bg_usedBytes budget + cs_reservedBytes storage'"
proof (cases "lastChunkFull storage")
  case False
  then show ?thesis using ok budget by (simp add: growChunks_def)
next
  case True
  let ?want = "min capturedBytesChunkSize (streamLimit - cs_reservedBytes storage)"
  obtain m budget' where r: "reserve ?want budget = (m, budget')" by fastforce
  have want: "0 < ?want" using room storage_full(1) [OF ok True] by (simp add: capturedBytesChunkSize_def)
  note spec = reserve_spec [OF r budget [unfolded budget_ok_def]]
  show ?thesis
  proof (cases "m = 0")
    case True
    then show ?thesis using \<open>lastChunkFull storage\<close> r spec want by (simp add: growChunks_def Let_def)
  next
    case False
    let ?storage = "storage\<lparr>cs_chunks := cs_chunks storage @ [\<lparr>ch_bytes = replicate m 0, ch_length = 0\<rparr>],
                            cs_reservedBytes := cs_reservedBytes storage + m\<rparr>"
    have "storage_data ?storage = storage_data storage" by (simp add: storage_data_def chunk_data_def)
    moreover have "storage_ok ?storage"
      using ok storage_full(2) [OF ok True] calculation by (simp add: storage_ok_def capacity_def)
    ultimately show ?thesis using True False r spec by (simp add: growChunks_def Let_def budget_ok_def)
  qed
qed

lemma writeChunk_spec:
  assumes ok: "storage_ok storage" and room: "\<not> lastChunkFull storage" and w: "w < m" "m \<le> length payload"
  obtains n storage' where "writeChunk payload m w storage = Ok (n, storage')" and "0 < n" and "w + n \<le> m"
    and "storage_ok storage'" and "storage_data storage' = storage_data storage @ subslice w (w + n) payload"
    and "cs_reservedBytes storage' = cs_reservedBytes storage"
proof -
  obtain cs c where chunks: "cs_chunks storage = cs @ [c]"
    using room by (cases "cs_chunks storage" rule: rev_cases) (auto simp: lastChunkFull_def)
  have c: "ch_length c < length (ch_bytes c)" and cs: "list_all chunk_full cs" "list_all (\<lambda>c. ch_length c \<le> length (ch_bytes c)) cs"
    using ok room by (auto simp: storage_ok_def lastChunkFull_def chunks)
  define n where "n = min (length (ch_bytes c) - ch_length c) (m - w)"
  define src where "src = subslice w (w + n) payload"
  have n: "0 < n" "w + n \<le> m" "n \<le> length (ch_bytes c) - ch_length c" using c w by (auto simp: n_def)
  have src: "length src = n" using n w by (simp add: src_def subslice_def)
  define c' where "c' = \<lparr>ch_bytes = overwrite (ch_length c) src (ch_bytes c), ch_length = ch_length c + n\<rparr>"
  let ?storage = "storage\<lparr>cs_chunks := cs @ [c'], cs_length := cs_length storage + n\<rparr>"
  have size: "length (ch_bytes c') = length (ch_bytes c)" using c n src by (simp add: c'_def overwrite_def)
  have data: "chunk_data c' = chunk_data c @ src"
    using c n src by (simp add: chunk_data_def c'_def overwrite_def)
  have "writeChunk payload m w storage = Ok (n, ?storage)"
    using c w n by (simp add: writeChunk_def chunks Let_def slice_at_def n_def [symmetric] src_def c'_def)
  moreover have content: "storage_data ?storage = storage_data storage @ src" by (simp add: storage_data_def chunks data)
  moreover have "storage_ok ?storage"
    using ok cs size c n content src by (simp add: storage_ok_def chunks capacity_def) (simp add: c'_def)
  ultimately show ?thesis using that n src_def by simp
qed

lemma appendLoop_spec:
  assumes "storage_ok storage" and "budget_ok budget" and "w \<le> m" and "m \<le> length payload"
    and "cs_length storage + (m - w) \<le> streamLimit"
  shows "\<exists>n storage' budget'. appendLoop payload streamLimit m w storage budget = Ok (n, storage', budget')
    \<and> w \<le> n \<and> n \<le> m \<and> storage_ok storage' \<and> storage_data storage' = storage_data storage @ subslice w n payload
    \<and> bg_maximumBytes budget' = bg_maximumBytes budget \<and> budget_ok budget'
    \<and> bg_usedBytes budget' + cs_reservedBytes storage = bg_usedBytes budget + cs_reservedBytes storage'
    \<and> (n < m \<longrightarrow> bg_usedBytes budget' = bg_maximumBytes budget')"
  using assms
proof (induction payload streamLimit m w storage budget rule: appendLoop.induct)
  case (1 payload streamLimit m w storage budget)
  note unfold = appendLoop.simps [of payload streamLimit m w storage budget]
  show ?case
  proof (cases "w < m")
    case False
    then have "appendLoop payload streamLimit m w storage budget = Ok (w, storage, budget)" by (subst unfold) simp
    then show ?thesis using False 1(2-4) by (simp add: subslice_def)
  next
    case w: True
    then have room: "cs_length storage < streamLimit" using 1(6) by linarith
    note grow = growChunks_spec [OF 1(2,3) room]
    show ?thesis
    proof (cases "growChunks streamLimit storage budget")
      case None
      then have "appendLoop payload streamLimit m w storage budget = Ok (w, storage, budget)" by (subst unfold) simp
      then show ?thesis using None grow w 1(2-4) by (simp add: subslice_def)
    next
      case (Some g)
      obtain storage1 budget1 where g: "g = (storage1, budget1)" by fastforce
      from grow Some g have s1: "storage_ok storage1" "storage_data storage1 = storage_data storage" "budget_ok budget1"
        and max1: "bg_maximumBytes budget1 = bg_maximumBytes budget"
        and used1: "bg_usedBytes budget1 + cs_reservedBytes storage = bg_usedBytes budget + cs_reservedBytes storage1" by auto
      obtain k storage2 where wr: "writeChunk payload m w storage1 = Ok (k, storage2)" and k: "0 < k" "w + k \<le> m"
        and s2: "storage_ok storage2" "storage_data storage2 = storage_data storage1 @ subslice w (w + k) payload"
        and res2: "cs_reservedBytes storage2 = cs_reservedBytes storage1"
        using writeChunk_spec [OF s1(1) growChunks_room [OF Some [unfolded g]] w 1(5)] by blast
      have len2: "cs_length storage2 = cs_length storage + k"
        using s2 s1 1(2) k 1(5) by (simp add: storage_ok_def subslice_def)
      have "\<exists>n storage' budget'. appendLoop payload streamLimit m (w + k) storage2 budget1 = Ok (n, storage', budget')
          \<and> w + k \<le> n \<and> n \<le> m \<and> storage_ok storage' \<and> storage_data storage' = storage_data storage2 @ subslice (w + k) n payload
          \<and> bg_maximumBytes budget' = bg_maximumBytes budget1 \<and> budget_ok budget'
          \<and> bg_usedBytes budget' + cs_reservedBytes storage2 = bg_usedBytes budget1 + cs_reservedBytes storage'
          \<and> (n < m \<longrightarrow> bg_usedBytes budget' = bg_maximumBytes budget')"
      proof (rule 1(1) [OF w Some g [symmetric] wr])
        show "(k, storage2) = (k, storage2)" by simp
        show "cs_length storage2 + (m - (w + k)) \<le> streamLimit" using len2 k 1(6) by simp
      qed (use s2 s1 k 1(5) in auto)
      then obtain n storage' budget' where rec: "appendLoop payload streamLimit m (w + k) storage2 budget1 = Ok (n, storage', budget')"
        and n: "w + k \<le> n" "n \<le> m" and rest: "storage_ok storage'" "storage_data storage' = storage_data storage2 @ subslice (w + k) n payload"
          "bg_maximumBytes budget' = bg_maximumBytes budget1" "budget_ok budget'"
          "bg_usedBytes budget' + cs_reservedBytes storage2 = bg_usedBytes budget1 + cs_reservedBytes storage'"
          "n < m \<longrightarrow> bg_usedBytes budget' = bg_maximumBytes budget'" by blast
      have "appendLoop payload streamLimit m w storage budget = Ok (n, storage', budget')"
        by (subst unfold) (simp add: w Some g wr rec)
      moreover have "storage_data storage' = storage_data storage @ subslice w n payload"
        using rest(2) s2(2) s1(2) subslice_append [of w "w + k" n payload] n by simp
      ultimately show ?thesis using n k rest max1 used1 res2 by (intro exI conjI) (assumption | linarith | simp)+
    qed
  qed
qed

definition bytes_ok :: "CapturedBytes \<Rightarrow> bool" where
  "bytes_ok bs \<longleftrightarrow> storage_ok (cb_storage bs) \<and> cs_length (cb_storage bs) \<le> capturedStreamPrefixLimit"

definition bytes_reserved :: "CapturedBytes \<Rightarrow> nat" where
  "bytes_reserved bs = (if cb_budget bs then cs_reservedBytes (cb_storage bs) else 0)"

lemma toVec_data: "toVec bs = storage_data (cb_storage bs)"
  unfolding toVec_def storage_data_def chunk_data_def ..

lemma bytes_ok_length: "bytes_ok bs \<Longrightarrow> CapturedBytes_len bs = length (toVec bs)"
  by (simp add: bytes_ok_def storage_ok_def CapturedBytes_len_def toVec_data)

lemma new_bytes [simp]:
  "bytes_ok CapturedBytes_withBudget" "bytes_ok CapturedBytes_default" "bytes_reserved CapturedBytes_withBudget = 0"
  "bytes_reserved CapturedBytes_default = 0" "CapturedBytes_len CapturedBytes_withBudget = 0" "CapturedBytes_len CapturedBytes_default = 0"
  by (simp_all add: bytes_ok_def bytes_reserved_def CapturedBytes_withBudget_def CapturedBytes_default_def CapturedBytes_len_def)
    (simp_all add: CapturedBytesStorage_empty_def)

text \<open>An append stores a prefix of the payload, all of it unless the budget or the stream is full.\<close>

lemma append_spec:
  assumes ok: "bytes_ok bs" and budget: "budget_ok budget"
  obtains n bs' budget' where "CapturedBytes_append payload capturedStreamPrefixLimit bs budget = Ok (n, bs', budget')"
    and "n \<le> length payload" and "bytes_ok bs'" and "toVec bs' = toVec bs @ take n payload" and "cb_budget bs' = cb_budget bs"
    and "bg_maximumBytes budget' = bg_maximumBytes budget" and "budget_ok budget'"
    and "bg_usedBytes budget' + bytes_reserved bs = bg_usedBytes budget + bytes_reserved bs'"
    and "cb_budget bs \<Longrightarrow> n < min (length payload) (capturedStreamPrefixLimit - length (toVec bs)) \<Longrightarrow> bg_usedBytes budget' = bg_maximumBytes budget'"
    and "\<not> cb_budget bs \<Longrightarrow> n = 0"
proof (cases "cb_budget bs")
  case False
  then show ?thesis using that [of 0 bs budget] ok budget by (simp add: CapturedBytes_append_def)
next
  case True
  let ?m = "min (length payload) (capturedStreamPrefixLimit - cs_length (cb_storage bs))"
  have storage: "storage_ok (cb_storage bs)" and limit: "cs_length (cb_storage bs) \<le> capturedStreamPrefixLimit"
    using ok by (auto simp: bytes_ok_def)
  obtain n storage' budget' where run: "appendLoop payload capturedStreamPrefixLimit ?m 0 (cb_storage bs) budget = Ok (n, storage', budget')"
    and n: "n \<le> ?m" and s': "storage_ok storage'" "storage_data storage' = storage_data (cb_storage bs) @ subslice 0 n payload"
    and b': "bg_maximumBytes budget' = bg_maximumBytes budget" "budget_ok budget'"
      "bg_usedBytes budget' + cs_reservedBytes (cb_storage bs) = bg_usedBytes budget + cs_reservedBytes storage'"
      "n < ?m \<longrightarrow> bg_usedBytes budget' = bg_maximumBytes budget'"
    using appendLoop_spec [OF storage budget, of 0 ?m payload capturedStreamPrefixLimit] limit by fastforce
  let ?bs = "bs\<lparr>cb_storage := storage'\<rparr>"
  have "bytes_ok ?bs"
    using s' n limit storage by (auto simp: bytes_ok_def storage_ok_def subslice_def)
  moreover have "toVec ?bs = toVec bs @ take n payload" using s'(2) by (simp add: toVec_data subslice_def)
  moreover have "length (toVec bs) = cs_length (cb_storage bs)" using storage by (simp add: toVec_data storage_ok_def)
  ultimately show ?thesis
    using that [of n ?bs budget'] run n b' True by (auto simp: CapturedBytes_append_def bytes_reserved_def)
qed

section \<open>The packet index\<close>

text \<open>Consecutive, non-empty slices from one offset to another.\<close>

fun consecutive :: "nat \<Rightarrow> CapturedPacket list \<Rightarrow> nat \<Rightarrow> bool" where
  "consecutive offset [] end' = (offset = end')"
| "consecutive offset (p # ps) end' =
     (cp_storedOffsetBytes p = offset \<and> 0 < cp_storedBytes p \<and> consecutive (offset + cp_storedBytes p) ps end')"

lemma consecutive_snoc:
  "consecutive offset (ps @ [p]) end' \<longleftrightarrow>
     consecutive offset ps (cp_storedOffsetBytes p) \<and> 0 < cp_storedBytes p \<and> end' = cp_storedOffsetBytes p + cp_storedBytes p"
  by (induction ps arbitrary: offset) auto

lemma consecutive_le: "consecutive offset ps end' \<Longrightarrow> offset \<le> end'"
  by (induction ps arbitrary: offset) force+

definition packet_slice :: "bytes \<Rightarrow> CapturedPacket \<Rightarrow> bytes" where
  "packet_slice bs p = subslice (cp_storedOffsetBytes p) (cp_storedOffsetBytes p + cp_storedBytes p) bs"

lemma consecutive_concat:
  "consecutive offset ps end' \<Longrightarrow> concat (map (packet_slice bs) ps) = subslice offset end' bs"
proof (induction ps arbitrary: offset)
  case (Cons p ps)
  then have rest: "concat (map (packet_slice bs) ps) = subslice (offset + cp_storedBytes p) end' bs" by simp
  show ?case using Cons.prems consecutive_le [of "offset + cp_storedBytes p" ps end']
    by (simp add: rest packet_slice_def [of bs p] subslice_append)
qed (simp add: subslice_def)

definition next_sequence :: "TrafficDirection \<Rightarrow> CapturedPacketStorage \<Rightarrow> u64" where
  "next_sequence d storage = (case d of Up \<Rightarrow> ps_nextUpSequence storage | Down \<Rightarrow> ps_nextDownSequence storage)"

definition index_ok :: "TrafficDirection \<Rightarrow> CapturedPacketStorage \<Rightarrow> nat \<Rightarrow> bool" where
  "index_ok d storage len \<longleftrightarrow> consecutive 0 (forDirection d storage) len
     \<and> unat (next_sequence d storage) = min (length (forDirection d storage) + 1) (2 ^ 64 - 1)
     \<and> (\<forall>i < length (forDirection d storage). unat (cp_sequence (forDirection d storage ! i)) = min (i + 1) (2 ^ 64 - 1))"

lemma index_new [simp]: "index_ok d CapturedPacketList_new 0"
  by (cases d) (simp_all add: index_ok_def CapturedPacketList_new_def forDirection_def next_sequence_def)

lemma index_append:
  assumes ok: "\<And>d. index_ok d storage (len d)" and offset: "cw_storedOffsetBytes w = len (cw_direction w)"
  shows "index_ok d (CapturedPacketList_append w storage) (if d = cw_direction w then len d + cw_storedBytes w else len d)"
proof (cases "cw_storedBytes w = 0")
  case True
  then show ?thesis using ok by (simp add: CapturedPacketList_append_def)
next
  case False
  let ?storage = "CapturedPacketList_append w storage" and ?d = "cw_direction w"
  let ?p = "\<lparr>cp_direction = ?d, cp_sequence = next_sequence ?d storage, cp_capturedAtMilliseconds = cw_capturedAtMilliseconds w,
             cp_storedOffsetBytes = cw_storedOffsetBytes w, cp_storedBytes = cw_storedBytes w,
             cp_originalBytes = cw_originalBytes w, cp_modifications = cw_modifications w\<rparr>"
  have list: "forDirection d ?storage = (if d = ?d then forDirection d storage @ [?p] else forDirection d storage)"
    using False by (cases ?d) (auto simp: CapturedPacketList_append_def forDirection_def next_sequence_def)
  have seqno: "next_sequence d ?storage = (if d = ?d then saturating_add (next_sequence d storage) 1 else next_sequence d storage)"
    using False by (cases ?d; cases d) (simp_all add: CapturedPacketList_append_def next_sequence_def)
  show ?thesis
  proof (cases "d = ?d")
    case True
    then have list': "forDirection d ?storage = forDirection d storage @ [?p]"
      and seqno': "next_sequence d ?storage = saturating_add (next_sequence d storage) 1"
      using list seqno by simp_all
    show ?thesis
      unfolding index_ok_def list' seqno'
      using ok [of d] offset False
      by (auto simp: index_ok_def True consecutive_snoc unat_saturating_add nth_append less_Suc_eq)
  next
    case False
    then show ?thesis using ok [of d] by (simp add: index_ok_def list seqno)
  qed
qed

end
