(* ===== verification/SessionProperties.thy ===== *)
theory SessionProperties
  imports SessionCaptureLemmas "HOL-Library.Code_Target_Nat"
begin

text \<open>
  The session registry under every sequence of operations: the budget is exactly the sum of the live
  reservations and never exceeded, every capture cell is consistent, and history is pruned oldest first.
\<close>

section \<open>Capture cells\<close>

definition cell_ok :: "SessionCapture \<Rightarrow> bool" where
  "cell_ok cell \<longleftrightarrow> (\<forall>d. bytes_ok (captured d cell) \<and> index_ok d (sc_packets cell) (length (toVec (captured d cell))))"

definition cell_reserved :: "SessionCapture \<Rightarrow> nat" where
  "cell_reserved cell = bytes_reserved (sc_up cell) + bytes_reserved (sc_down cell)"

lemma new_cells [simp]: "cell_ok boundCell" "cell_ok emptyCell" "cell_reserved boundCell = 0" "cell_reserved emptyCell = 0"
  by (auto simp: cell_ok_def cell_reserved_def boundCell_def emptyCell_def captured_def bytes_ok_length [symmetric] split: TrafficDirection.split)

lemma captured_set:
  "captured d (set_captured d bs cell) = bs" "d \<noteq> d' \<Longrightarrow> captured d (set_captured d' bs cell) = captured d cell"
  "captured d (cell\<lparr>sc_packets := ps\<rparr>) = captured d cell"
  "cell_reserved (set_captured d bs cell) + bytes_reserved (captured d cell) = cell_reserved cell + bytes_reserved bs"
  "cell_reserved (cell\<lparr>sc_packets := ps\<rparr>) = cell_reserved cell"
  by (cases d; cases d'; simp add: captured_def set_captured_def cell_reserved_def)+

lemma capture_spec:
  assumes ok: "cell_ok cell" and budget: "budget_ok budget"
  obtains n cell' budget' where "capturePayload now d payload mods cell budget = Ok (cell', budget')"
    and "n \<le> length payload" and "cell_ok cell'" and "toVec (captured d cell') = toVec (captured d cell) @ take n payload"
    and "\<And>d'. d' \<noteq> d \<Longrightarrow> captured d' cell' = captured d' cell"
    and "\<And>d'. cb_budget (captured d' cell') = cb_budget (captured d' cell)"
    and "bg_maximumBytes budget' = bg_maximumBytes budget" and "budget_ok budget'"
    and "bg_usedBytes budget' + cell_reserved cell = bg_usedBytes budget + cell_reserved cell'"
    and "cb_budget (captured d cell) \<Longrightarrow> n < min (length payload) (capturedStreamPrefixLimit - length (toVec (captured d cell)))
      \<Longrightarrow> bg_usedBytes budget' = bg_maximumBytes budget'"
    and "\<not> cb_budget (captured d cell) \<Longrightarrow> n = 0"
    and "n > 0 \<Longrightarrow> \<exists>p. ps_packets (sc_packets cell') = ps_packets (sc_packets cell) @ [p] \<and> cp_direction p = d
      \<and> packet_slice (toVec (captured d cell')) p = take n payload \<and> cp_capturedAtMilliseconds p = now
      \<and> cp_originalBytes p = of_nat (length payload) \<and> cp_modifications p = mods"
proof -
  have bytes: "bytes_ok (captured d' cell)" and index: "index_ok d' (sc_packets cell) (length (toVec (captured d' cell)))" for d'
    using ok by (auto simp: cell_ok_def)
  obtain n bs budget' where run: "CapturedBytes_append payload capturedStreamPrefixLimit (captured d cell) budget = Ok (n, bs, budget')"
    and n: "n \<le> length payload" and bs: "bytes_ok bs" "toVec bs = toVec (captured d cell) @ take n payload" "cb_budget bs = cb_budget (captured d cell)"
    and b: "bg_maximumBytes budget' = bg_maximumBytes budget" "budget_ok budget'"
      "bg_usedBytes budget' + bytes_reserved (captured d cell) = bg_usedBytes budget + bytes_reserved bs"
    and short: "cb_budget (captured d cell) \<Longrightarrow> n < min (length payload) (capturedStreamPrefixLimit - length (toVec (captured d cell)))
        \<Longrightarrow> bg_usedBytes budget' = bg_maximumBytes budget'" "\<not> cb_budget (captured d cell) \<Longrightarrow> n = 0"
    using append_spec [OF bytes [of d] budget] by metis
  let ?w = "\<lparr>cw_direction = d, cw_capturedAtMilliseconds = now, cw_storedOffsetBytes = CapturedBytes_len (captured d cell),
             cw_storedBytes = n, cw_originalBytes = of_nat (length payload), cw_modifications = mods\<rparr>"
  let ?cell = "(set_captured d bs cell)\<lparr>sc_packets := CapturedPacketList_append ?w (sc_packets cell)\<rparr>"
  have result: "capturePayload now d payload mods cell budget = Ok (?cell, budget')"
    using run by (simp add: capturePayload_def Let_def)
  have same: "captured d' ?cell = (if d' = d then bs else captured d' cell)" for d' by (simp add: captured_set)
  have idx: "index_ok d' (CapturedPacketList_append ?w (sc_packets cell)) (if d' = d then length (toVec (captured d' cell)) + n else length (toVec (captured d' cell)))" for d'
    using index_append [where w = ?w and len = "\<lambda>d. length (toVec (captured d cell))" and d = d', OF index] bytes_ok_length [OF bytes]
    by (cases "d' = d") simp_all
  have "bytes_ok (captured d' ?cell) \<and> index_ok d' (sc_packets ?cell) (length (toVec (captured d' ?cell)))" for d'
    using idx [of d'] bs n bytes [of d'] by (cases "d' = d") (simp_all add: same)
  then have "cell_ok ?cell" unfolding cell_ok_def by blast
  moreover have "bg_usedBytes budget' + cell_reserved cell = bg_usedBytes budget + cell_reserved ?cell"
    using b(3) captured_set(4) [of d bs cell] by (simp add: captured_set(5))
  moreover have "\<exists>p. ps_packets (sc_packets ?cell) = ps_packets (sc_packets cell) @ [p] \<and> cp_direction p = d
      \<and> packet_slice (toVec (captured d ?cell)) p = take n payload \<and> cp_capturedAtMilliseconds p = now
      \<and> cp_originalBytes p = of_nat (length payload) \<and> cp_modifications p = mods" if "n > 0"
    using that n bs bytes_ok_length [OF bytes [of d]]
    by (cases d) (auto simp: captured_set CapturedPacketList_append_def packet_slice_def subslice_def)
  ultimately show ?thesis using that [OF result, of n] n bs b short same by simp
qed

lemma capture_result:
  assumes "cell_ok cell" and "budget_ok budget" and "capturePayload now d payload mods cell budget = Ok (cell', budget')"
  obtains n where "toVec (captured d cell') = toVec (captured d cell) @ take n payload" and "n \<le> length payload"
    and "\<And>d'. d' \<noteq> d \<Longrightarrow> captured d' cell' = captured d' cell"
    and "cb_budget (captured d cell) \<Longrightarrow> n < min (length payload) (capturedStreamPrefixLimit - length (toVec (captured d cell)))
      \<Longrightarrow> bg_usedBytes budget' = bg_maximumBytes budget'"
  using capture_spec [OF assms(1,2), of now d payload mods] assms(3) by (metis outcome.inject(2) prod.inject)

section \<open>Cells\<close>

lemma hm_get_filter:
  assumes "hm_wf m"
  shows "hm_get (filter P m) k = (case hm_get m k of None \<Rightarrow> None | Some v \<Rightarrow> if P (k, v) then Some v else None)"
proof -
  have "filter P m = hm_retain (\<lambda>k v. P (k, v)) m" by (simp add: hm_retain_def)
  then show ?thesis using hm_get_retain [OF assms] by simp
qed

lemma fold_hm_remove: "fold hm_remove ks m = filter (\<lambda>e. fst e \<notin> set ks) m"
  by (induction ks arbitrary: m) (auto simp: hm_remove_def intro: filter_cong)

lemma fold_dropCell:
  assumes "hm_sum cell_reserved es \<le> bg_usedBytes budget"
  shows "bg_usedBytes (fold dropCell es budget) + hm_sum cell_reserved es = bg_usedBytes budget
    \<and> bg_maximumBytes (fold dropCell es budget) = bg_maximumBytes budget"
  using assms
proof (induction es arbitrary: budget)
  case (Cons e es)
  have drop1: "bg_usedBytes (dropCell e budget) + cell_reserved (snd e) = bg_usedBytes budget
      \<and> bg_maximumBytes (dropCell e budget) = bg_maximumBytes budget"
    using Cons.prems by (auto simp: dropCell_def dropBytes_def release_def cell_reserved_def bytes_reserved_def hm_sum_def)
  moreover have "hm_sum cell_reserved (e # es) = cell_reserved (snd e) + hm_sum cell_reserved es" by (simp add: hm_sum_def)
  ultimately show ?case using Cons.IH [of "dropCell e budget"] Cons.prems by auto
qed (simp add: hm_sum_def)

section \<open>The invariant\<close>

definition registry_ok :: "SessionRegistry \<Rightarrow> bool" where
  "registry_ok reg \<longleftrightarrow> hm_wf (rg_sessions reg) \<and> hm_wf (rg_cells reg)
     \<and> (\<forall>k s. hm_get (rg_sessions reg) k = Some s \<longrightarrow> ss_sessionId s = k \<and> hm_contains (rg_cells reg) (ss_cell s))
     \<and> (\<forall>k s k' s'. hm_get (rg_sessions reg) k = Some s \<longrightarrow> hm_get (rg_sessions reg) k' = Some s' \<longrightarrow> ss_cell s = ss_cell s' \<longrightarrow> k = k')
     \<and> (\<forall>a cell. hm_get (rg_cells reg) a = Some cell \<longrightarrow> a < rg_nextCell reg \<and> cell_ok cell)
     \<and> bg_usedBytes (rg_budget reg) = hm_sum cell_reserved (rg_cells reg) \<and> budget_ok (rg_budget reg)"

lemma registry_okD:
  assumes "registry_ok reg"
  shows "hm_wf (rg_sessions reg)" "hm_wf (rg_cells reg)"
    "\<And>k s. hm_get (rg_sessions reg) k = Some s \<Longrightarrow> ss_sessionId s = k"
    "\<And>k s. hm_get (rg_sessions reg) k = Some s \<Longrightarrow> hm_contains (rg_cells reg) (ss_cell s)"
    "\<And>k s k' s'. hm_get (rg_sessions reg) k = Some s \<Longrightarrow> hm_get (rg_sessions reg) k' = Some s' \<Longrightarrow> ss_cell s = ss_cell s' \<Longrightarrow> k = k'"
    "\<And>a cell. hm_get (rg_cells reg) a = Some cell \<Longrightarrow> a < rg_nextCell reg"
    "\<And>a cell. hm_get (rg_cells reg) a = Some cell \<Longrightarrow> cell_ok cell"
    "bg_usedBytes (rg_budget reg) = hm_sum cell_reserved (rg_cells reg)" "budget_ok (rg_budget reg)"
  using assms unfolding registry_ok_def by blast+

lemma registry_okI:
  assumes "hm_wf (rg_sessions reg)" "hm_wf (rg_cells reg)"
    and "\<And>k s. hm_get (rg_sessions reg) k = Some s \<Longrightarrow> ss_sessionId s = k \<and> hm_contains (rg_cells reg) (ss_cell s)"
    and "\<And>k s k' s'. hm_get (rg_sessions reg) k = Some s \<Longrightarrow> hm_get (rg_sessions reg) k' = Some s' \<Longrightarrow> ss_cell s = ss_cell s' \<Longrightarrow> k = k'"
    and "\<And>a cell. hm_get (rg_cells reg) a = Some cell \<Longrightarrow> a < rg_nextCell reg \<and> cell_ok cell"
    and "bg_usedBytes (rg_budget reg) = hm_sum cell_reserved (rg_cells reg)" "budget_ok (rg_budget reg)"
  shows "registry_ok reg"
  using assms unfolding registry_ok_def by blast

lemma registry_ok_new [simp]: "registry_ok (withCaptureBudget historyLimit maximum)"
  by (simp add: registry_ok_def withCaptureBudget_def CapturedBytesBudget_new_def hm_sum_def budget_ok_def)

text \<open>Metrics, events, generation and history limit do not take part.\<close>

lemma registry_ok_other [simp]:
  "registry_ok (reg\<lparr>rg_metrics := m\<rparr>) = registry_ok reg" "registry_ok (reg\<lparr>rg_events := e\<rparr>) = registry_ok reg"
  "registry_ok (reg\<lparr>rg_captureGeneration := g\<rparr>) = registry_ok reg" "registry_ok (publish t s reg) = registry_ok reg"
  by (simp_all add: registry_ok_def publish_def)

lemma registry_ok_sessions:
  assumes ok: "registry_ok reg" and wf: "hm_wf table"
    and origin: "\<And>k s. hm_get table k = Some s \<Longrightarrow> ss_sessionId s = k \<and> (\<exists>s0. hm_get (rg_sessions reg) k = Some s0 \<and> ss_cell s = ss_cell s0)"
  shows "registry_ok (reg\<lparr>rg_sessions := table\<rparr>)"
proof -
  have entry: "ss_sessionId s = k \<and> hm_contains (rg_cells reg) (ss_cell s)" if "hm_get table k = Some s" for k s
    using origin [OF that] registry_okD(4) [OF ok] by auto
  have unique: "k = k'" if "hm_get table k = Some s" "hm_get table k' = Some s'" "ss_cell s = ss_cell s'" for k s k' s'
    using origin [OF that(1)] origin [OF that(2)] that(3) registry_okD(5) [OF ok] by metis
  show ?thesis using ok wf entry unique unfolding registry_ok_def by auto
qed

lemma registry_ok_put:
  assumes ok: "registry_ok reg" and s: "hm_get (rg_sessions reg) k = Some s" "ss_sessionId s' = k" "ss_cell s' = ss_cell s"
  shows "registry_ok (reg\<lparr>rg_sessions := hm_insert k s' (rg_sessions reg)\<rparr>)"
proof (rule registry_ok_sessions [OF ok])
  show "hm_wf (hm_insert k s' (rg_sessions reg))" using registry_okD(1) [OF ok] by simp
  show "ss_sessionId t = j \<and> (\<exists>s0. hm_get (rg_sessions reg) j = Some s0 \<and> ss_cell t = ss_cell s0)"
    if "hm_get (hm_insert k s' (rg_sessions reg)) j = Some t" for j t
    using that s registry_okD(3) [OF ok, of j t] by (auto simp: hm_get_insert split: if_splits)
qed

lemma registry_ok_filter:
  assumes ok: "registry_ok reg"
  shows "registry_ok (reg\<lparr>rg_sessions := filter P (rg_sessions reg)\<rparr>)"
proof (rule registry_ok_sessions [OF ok])
  show "hm_wf (filter P (rg_sessions reg))" using registry_okD(1) [OF ok] by (rule hm_wf_filter)
  show "ss_sessionId t = j \<and> (\<exists>s0. hm_get (rg_sessions reg) j = Some s0 \<and> ss_cell t = ss_cell s0)"
    if "hm_get (filter P (rg_sessions reg)) j = Some t" for j t
    using that registry_okD(3) [OF ok, of j t]
    by (auto simp: hm_get_filter [OF registry_okD(1) [OF ok]] split: option.splits if_splits)
qed

text \<open>Dropping cells that nothing refers to returns exactly their reservations.\<close>

lemma dropUnreferenced_ok:
  assumes ok: "registry_ok reg"
  shows "registry_ok (dropUnreferenced held reg)"
proof -
  let ?keep = "\<lambda>e. referenced held reg (fst e)"
  note cells = registry_okD(2) [OF ok]
  have sum: "hm_sum cell_reserved (filter ?keep (rg_cells reg)) + hm_sum cell_reserved (filter (\<lambda>e. \<not> ?keep e) (rg_cells reg))
      = bg_usedBytes (rg_budget reg)" using hm_sum_filter registry_okD(8) [OF ok] by simp
  have drop: "bg_usedBytes (rg_budget (dropUnreferenced held reg)) = hm_sum cell_reserved (filter ?keep (rg_cells reg))
      \<and> bg_maximumBytes (rg_budget (dropUnreferenced held reg)) = bg_maximumBytes (rg_budget reg)"
    using fold_dropCell [of "filter (\<lambda>e. \<not> ?keep e) (rg_cells reg)" "rg_budget reg"] sum by (simp add: dropUnreferenced_def)
  have used: "referenced held reg (ss_cell s)" if "hm_get (rg_sessions reg) k = Some s" for k s
    using hm_get_Some_in_set [OF that] by (force simp: referenced_def)
  have cell: "hm_get (rg_cells (dropUnreferenced held reg)) a = (if referenced held reg a then hm_get (rg_cells reg) a else None)" for a
    using hm_get_filter [OF cells, of ?keep a] by (simp add: dropUnreferenced_def split: option.splits)
  have same: "rg_sessions (dropUnreferenced held reg) = rg_sessions reg" "rg_nextCell (dropUnreferenced held reg) = rg_nextCell reg"
    by (simp_all add: dropUnreferenced_def)
  show ?thesis
  proof (rule registry_okI; (unfold same)?)
    show "hm_wf (rg_cells (dropUnreferenced held reg))" using hm_wf_filter [OF cells] by (simp add: dropUnreferenced_def)
    show "bg_usedBytes (rg_budget (dropUnreferenced held reg)) = hm_sum cell_reserved (rg_cells (dropUnreferenced held reg))"
      using drop by (simp add: dropUnreferenced_def)
    show "budget_ok (rg_budget (dropUnreferenced held reg))" using drop sum registry_okD(9) [OF ok] by (simp add: budget_ok_def)
    show "ss_sessionId s = k \<and> hm_contains (rg_cells (dropUnreferenced held reg)) (ss_cell s)" if "hm_get (rg_sessions reg) k = Some s" for k s
      using registry_okD(3,4) [OF ok that] used [OF that] by (simp add: hm_contains_def cell)
    show "a < rg_nextCell reg \<and> cell_ok c" if "hm_get (rg_cells (dropUnreferenced held reg)) a = Some c" for a c
      using that registry_okD(6,7) [OF ok, of a c] by (simp add: cell split: if_splits)
  qed (use registry_okD(1,5) [OF ok] in blast)+
qed

text \<open>A fresh cell, and the session that gets it.\<close>

lemma fresh_cell_ok:
  assumes ok: "registry_ok reg" and cell: "cell_ok cell" "cell_reserved cell = 0" and s: "ss_sessionId s = k" "ss_cell s = rg_nextCell reg"
  shows "registry_ok (reg\<lparr>rg_cells := hm_insert (rg_nextCell reg) cell (rg_cells reg), rg_nextCell := rg_nextCell reg + 1,
      rg_sessions := hm_insert k s (rg_sessions reg)\<rparr>)" (is "registry_ok ?reg")
proof -
  have fresh: "hm_get (rg_cells reg) (rg_nextCell reg) = None"
    using registry_okD(6) [OF ok, of "rg_nextCell reg"] by (cases "hm_get (rg_cells reg) (rg_nextCell reg)") auto
  have old: "ss_cell s0 \<noteq> rg_nextCell reg" if "hm_get (rg_sessions reg) j = Some s0" for j s0
    using registry_okD(4) [OF ok that] fresh by (auto simp: hm_contains_def)
  have sel: "rg_sessions ?reg = hm_insert k s (rg_sessions reg)" "rg_cells ?reg = hm_insert (rg_nextCell reg) cell (rg_cells reg)"
    "rg_nextCell ?reg = rg_nextCell reg + 1" "rg_budget ?reg = rg_budget reg" by simp_all
  show ?thesis
  proof (rule registry_okI; (unfold sel hm_get_insert)?)
    show "hm_wf (hm_insert k s (rg_sessions reg))" "hm_wf (hm_insert (rg_nextCell reg) cell (rg_cells reg))"
      using registry_okD(1,2) [OF ok] by simp_all
    show "ss_sessionId t = j \<and> hm_contains (hm_insert (rg_nextCell reg) cell (rg_cells reg)) (ss_cell t)"
      if "((hm_get (rg_sessions reg))(k \<mapsto> s)) j = Some t" for j t
      using that s registry_okD(3,4) [OF ok, of j t] by (auto simp: hm_contains_def hm_get_insert split: if_splits)
    show "j = j'" if "((hm_get (rg_sessions reg))(k \<mapsto> s)) j = Some t" "((hm_get (rg_sessions reg))(k \<mapsto> s)) j' = Some t'"
      "ss_cell t = ss_cell t'" for j t j' t'
      using that s old [of j t] old [of j' t'] registry_okD(5) [OF ok, of j t j' t'] by (auto split: if_splits)
    show "a < rg_nextCell reg + 1 \<and> cell_ok c" if "((hm_get (rg_cells reg))(rg_nextCell reg \<mapsto> cell)) a = Some c" for a c
      using that cell registry_okD(6,7) [OF ok, of a c] by (auto split: if_splits)
    show "bg_usedBytes (rg_budget reg) = hm_sum cell_reserved (hm_insert (rg_nextCell reg) cell (rg_cells reg))"
      using hm_sum_insert_new [OF registry_okD(2) [OF ok] fresh] registry_okD(8) [OF ok] cell by simp
    show "budget_ok (rg_budget reg)" by (rule registry_okD(9) [OF ok])
  qed
qed

section \<open>Every operation keeps the invariant\<close>

lemma createSession_ok:
  assumes ok: "registry_ok reg"
  shows "registry_ok (snd (createSession now sessionId client reg))"
proof -
  let ?s = "\<lparr>ss_sessionId = sessionId, ss_clientAddress = client, ss_username = [], ss_command = [],
            ss_targetAddress = [], ss_state = Negotiating, ss_bytesUp = 0, ss_bytesDown = 0, ss_createdAtMilliseconds = now,
            ss_updatedAtMilliseconds = now, ss_closedAtMilliseconds = 0, ss_errorMessage = [],
            ss_applicationProtocol = Undetermined, ss_captureGeneration = rg_captureGeneration reg, ss_cell = rg_nextCell reg\<rparr>"
  have "registry_ok (reg\<lparr>rg_cells := hm_insert (rg_nextCell reg) boundCell (rg_cells reg), rg_nextCell := rg_nextCell reg + 1,
      rg_sessions := hm_insert sessionId ?s (rg_sessions reg)\<rparr>)"
    by (rule fresh_cell_ok [OF ok]) simp_all
  then show ?thesis by (simp add: createSession_def newCell_def Let_def)
qed

lemma updateSession_ok:
  assumes ok: "registry_ok reg"
  shows "registry_ok (snd (updateSession now sessionId update reg))"
proof (cases "hm_get (rg_sessions reg) sessionId")
  case (Some s)
  then have "registry_ok (reg\<lparr>rg_sessions := hm_insert sessionId (applyUpdate now update s) (rg_sessions reg)\<rparr>)"
    using registry_okD(3) [OF ok Some] by (intro registry_ok_put [OF ok Some]) (simp_all add: applyUpdate_def)
  then show ?thesis using Some by (simp add: updateSession_def Let_def)
qed (simp add: updateSession_def ok)

lemma releaseCell_ok:
  assumes ok: "registry_ok reg"
  shows "registry_ok (releaseCell sessionId reg)"
proof (cases "hm_get (rg_sessions reg) sessionId")
  case (Some s)
  have "registry_ok (reg\<lparr>rg_cells := hm_insert (rg_nextCell reg) emptyCell (rg_cells reg), rg_nextCell := rg_nextCell reg + 1,
      rg_sessions := hm_insert sessionId (s\<lparr>ss_cell := rg_nextCell reg\<rparr>) (rg_sessions reg)\<rparr>)"
    using registry_okD(3) [OF ok Some] by (intro fresh_cell_ok [OF ok]) simp_all
  then show ?thesis using Some by (simp add: releaseCell_def newCell_def)
qed (simp add: releaseCell_def ok)

lemma clear_ok:
  assumes ok: "registry_ok reg"
  shows "registry_ok (clearCapturedBytes held reg)" "registry_ok (releaseCapturedBytes held sessionId reg)"
    "registry_ok (snd (clearClosed held reg))"
proof -
  have "registry_ok (fold releaseCell ids reg)" if "registry_ok reg" for ids and reg :: SessionRegistry
    using that by (induction ids arbitrary: reg) (simp_all add: releaseCell_ok)
  then show "registry_ok (clearCapturedBytes held reg)" using ok by (simp add: clearCapturedBytes_def Let_def dropUnreferenced_ok)
  show "registry_ok (releaseCapturedBytes held sessionId reg)"
    using ok by (simp add: releaseCapturedBytes_def dropUnreferenced_ok releaseCell_ok split: option.split)
  show "registry_ok (snd (clearClosed held reg))"
    using ok by (simp add: clearClosed_def Let_def fold_hm_remove dropUnreferenced_ok registry_ok_filter)
qed

lemma pruneClosed_ok:
  assumes ok: "registry_ok reg"
  shows "registry_ok (pruneClosed held reg)"
proof -
  have "fold (\<lambda>e sessions. hm_remove (fst e) sessions) es m = fold hm_remove (map fst es) m" for es :: "(str \<times> u64) list" and m :: "(str, SessionSnapshot) hashmap"
    by (simp add: fold_map comp_def)
  then show ?thesis using ok
    by (simp add: pruneClosed_def Let_def fold_hm_remove dropUnreferenced_ok registry_ok_filter)
qed

lemma closeSession_ok:
  assumes ok: "registry_ok reg"
  shows "registry_ok (closeSession held now sessionId message reg)"
proof (cases "hm_get (rg_sessions reg) sessionId")
  case (Some s)
  let ?s = "s\<lparr>ss_state := (if message = [] then Closed else Failed), ss_errorMessage := message,
              ss_closedAtMilliseconds := now, ss_updatedAtMilliseconds := now\<rparr>"
  have "registry_ok (reg\<lparr>rg_sessions := hm_insert sessionId ?s (rg_sessions reg)\<rparr>)"
    using registry_okD(3) [OF ok Some] by (intro registry_ok_put [OF ok Some]) simp_all
  moreover have "registry_ok (reg\<lparr>rg_sessions := t, rg_metrics := m\<rparr>) = registry_ok (reg\<lparr>rg_sessions := t\<rparr>)" for t m
    by (simp add: registry_ok_def)
  ultimately show ?thesis using Some unfolding closeSession_def Let_def by (simp add: pruneClosed_ok)
qed (simp add: closeSession_def ok)

lemma closeActive_ok: "registry_ok reg \<Longrightarrow> registry_ok (closeActive held now message reg)"
proof -
  have "registry_ok (fold (\<lambda>i. closeSession held now i message) ids reg)" if "registry_ok reg" for ids and reg :: SessionRegistry
    using that by (induction ids arbitrary: reg) (simp_all add: closeSession_ok)
  then show "registry_ok reg \<Longrightarrow> registry_ok (closeActive held now message reg)" by (simp add: closeActive_def)
qed

lemma registry_ok_cell:
  assumes ok: "registry_ok reg" and old: "hm_get (rg_cells reg) a = Some cell" and new: "cell_ok cell'" "budget_ok budget"
    and used: "bg_usedBytes budget + cell_reserved cell = bg_usedBytes (rg_budget reg) + cell_reserved cell'"
  shows "registry_ok (reg\<lparr>rg_cells := hm_insert a cell' (rg_cells reg), rg_budget := budget\<rparr>)" (is "registry_ok ?reg")
proof -
  have sel: "rg_sessions ?reg = rg_sessions reg" "rg_cells ?reg = hm_insert a cell' (rg_cells reg)" "rg_nextCell ?reg = rg_nextCell reg" "rg_budget ?reg = budget"
    by simp_all
  show ?thesis
  proof (rule registry_okI; (unfold sel hm_get_insert)?)
    show "hm_wf (hm_insert a cell' (rg_cells reg))" using registry_okD(2) [OF ok] by simp
    show "ss_sessionId s = k \<and> hm_contains (hm_insert a cell' (rg_cells reg)) (ss_cell s)" if "hm_get (rg_sessions reg) k = Some s" for k s
      using registry_okD(3,4) [OF ok that] by (auto simp: hm_contains_def hm_get_insert)
    show "b < rg_nextCell reg \<and> cell_ok c" if "((hm_get (rg_cells reg))(a \<mapsto> cell')) b = Some c" for b c
      using that new registry_okD(6,7) [OF ok, of b c] registry_okD(6) [OF ok old] by (auto split: if_splits)
    show "bg_usedBytes budget = hm_sum cell_reserved (hm_insert a cell' (rg_cells reg))"
      using hm_sum_insert [OF registry_okD(2) [OF ok], of cell_reserved a cell'] old used registry_okD(8) [OF ok] by simp
    show "budget_ok budget" by (rule new)
  qed (use registry_okD(1,5) [OF ok] in blast)+
qed

text \<open>Recording a payload: it never panics, and changes only the cell of its session.\<close>

lemma addModifiedTraffic_spec:
  assumes ok: "registry_ok reg" and s: "hm_get (rg_sessions reg) (tr_sessionId traffic) = Some s" and payload: "tr_payload traffic \<noteq> []"
  obtains reg' cell cell' n where "addModifiedTraffic now traffic reg = Ok reg'" and "registry_ok reg'"
    and "hm_get (rg_cells reg) (ss_cell s) = Some cell" and "hm_get (rg_cells reg') = (hm_get (rg_cells reg))(ss_cell s \<mapsto> cell')"
    and "map fst (rg_sessions reg') = map fst (rg_sessions reg)"
    and "capturePayload now (tr_direction traffic) (tr_payload traffic)
           (deriveWireByteModifications (tr_originalPayload traffic) (tr_payload traffic)) cell (rg_budget reg) = Ok (cell', rg_budget reg')"
proof -
  let ?i = "tr_sessionId traffic" and ?d = "tr_direction traffic" and ?p = "tr_payload traffic"
  let ?mods = "deriveWireByteModifications (tr_originalPayload traffic) ?p"
  obtain cell where cell: "hm_get (rg_cells reg) (ss_cell s) = Some cell"
    using registry_okD(4) [OF ok s] by (auto simp: hm_contains_def)
  obtain n cell' budget' where run: "capturePayload now ?d ?p ?mods cell (rg_budget reg) = Ok (cell', budget')" and "cell_ok cell'" "budget_ok budget'"
    and "bg_usedBytes budget' + cell_reserved cell = bg_usedBytes (rg_budget reg) + cell_reserved cell'"
    using capture_spec [OF registry_okD(7) [OF ok cell] registry_okD(9) [OF ok]] by metis
  then have ok1: "registry_ok (reg\<lparr>rg_cells := hm_insert (ss_cell s) cell' (rg_cells reg), rg_budget := budget'\<rparr>)"
    using registry_ok_cell [OF ok cell] by blast
  define s1 where "s1 = (case ?d of Up \<Rightarrow> s\<lparr>ss_bytesUp := saturating_add (ss_bytesUp s) (of_nat (length ?p))\<rparr>
      | Down \<Rightarrow> s\<lparr>ss_bytesDown := saturating_add (ss_bytesDown s) (of_nat (length ?p))\<rparr>)\<lparr>ss_updatedAtMilliseconds := now\<rparr>"
  define m1 where "m1 = (case ?d of Up \<Rightarrow> (rg_metrics reg)\<lparr>mt_bytesUp := mt_bytesUp (rg_metrics reg) + of_nat (length ?p)\<rparr>
      | Down \<Rightarrow> (rg_metrics reg)\<lparr>mt_bytesDown := mt_bytesDown (rg_metrics reg) + of_nat (length ?p)\<rparr>)"
  have s1: "ss_sessionId s1 = ?i" "ss_cell s1 = ss_cell s"
    using registry_okD(3) [OF ok s] by (simp_all add: s1_def split: TrafficDirection.split)
  let ?reg1 = "reg\<lparr>rg_cells := hm_insert (ss_cell s) cell' (rg_cells reg), rg_budget := budget'\<rparr>"
  let ?reg = "publish ''sessionTraffic'' s1 (?reg1\<lparr>rg_sessions := hm_insert ?i s1 (rg_sessions reg), rg_metrics := m1\<rparr>)"
  have "registry_ok (?reg1\<lparr>rg_sessions := hm_insert ?i s1 (rg_sessions ?reg1)\<rparr>)"
    by (rule registry_ok_put [OF ok1, where s = s]) (use s s1 in simp_all)
  then have "registry_ok ?reg" by (simp add: registry_ok_def publish_def)
  moreover have "addModifiedTraffic now traffic reg = Ok ?reg"
    unfolding addModifiedTraffic_def Let_def using payload s cell run s1(2)
    by (simp add: s1_def [symmetric] m1_def [symmetric] publish_def)
  moreover have "map fst (hm_insert ?i s1 (rg_sessions reg)) = map fst (rg_sessions reg)"
    using hm_get_Some_in_set [OF s] by (force simp: hm_insert_def update_keys)
  ultimately show ?thesis using that [of ?reg cell cell'] cell run by (simp add: publish_def hm_get_insert)
qed

lemma addModifiedTraffic_ok:
  assumes ok: "registry_ok reg" and run: "addModifiedTraffic now traffic reg = Ok reg'"
  shows "registry_ok reg'"
proof (cases "tr_payload traffic = [] \<or> hm_get (rg_sessions reg) (tr_sessionId traffic) = None")
  case True
  then have "addModifiedTraffic now traffic reg = Ok reg" unfolding addModifiedTraffic_def Let_def by auto
  then show ?thesis using ok run by simp
next
  case False
  then obtain s where "hm_get (rg_sessions reg) (tr_sessionId traffic) = Some s" "tr_payload traffic \<noteq> []" by auto
  from addModifiedTraffic_spec [OF ok this, of now] run show ?thesis by auto
qed

inductive registry_step :: "SessionRegistry \<Rightarrow> SessionRegistry \<Rightarrow> bool" where
  step_create: "registry_step reg (snd (createSession now sessionId client reg))"
| step_update: "registry_step reg (snd (updateSession now sessionId update reg))"
| step_traffic: "addModifiedTraffic now traffic reg = Ok reg' \<Longrightarrow> registry_step reg reg'"
| step_close: "registry_step reg (closeSession held now sessionId message reg)"
| step_closeActive: "registry_step reg (closeActive held now message reg)"
| step_udp: "registry_step reg (recordUdpPacket d reg)"
| step_dropped: "registry_step reg (recordDroppedUdpPacket reg)"
| step_clearClosed: "registry_step reg (snd (clearClosed held reg))"
| step_clearCaptured: "registry_step reg (clearCapturedBytes held reg)"
| step_release: "registry_step reg (releaseCapturedBytes held sessionId reg)"
| step_receivers: "registry_step reg (dropUnreferenced held reg)"

definition registry_start :: "SessionRegistry \<Rightarrow> bool" where
  "registry_start reg \<longleftrightarrow> (\<exists>historyLimit maximum. reg = withCaptureBudget historyLimit maximum)"

interpretation registry: safe_system registry_start registry_step registry_ok
proof
  show "registry_ok s" if "registry_start s" for s using that by (auto simp: registry_start_def)
  show "registry_ok t" if "registry_ok s" "registry_step s t" for s t
    using that(2,1)
    by (cases rule: registry_step.cases)
      (simp_all add: createSession_ok updateSession_ok addModifiedTraffic_ok closeSession_ok closeActive_ok clear_ok dropUnreferenced_ok
        recordUdpPacket_def recordDroppedUdpPacket_def Let_def)
qed

abbreviation reachable_registry :: "SessionRegistry \<Rightarrow> bool" where
  "reachable_registry \<equiv> reach registry_start registry_step"

text \<open>
  C39: capture accounting. In every reachable registry the used budget is the sum of the reservations of
  the live captures and within its limit, and the packets of each direction cut the captured bytes into
  consecutive slices. Recording a payload of a known session succeeds, appends a prefix of the payload
  to the captured bytes of its direction and nothing to the other one or to other sessions; the prefix
  is the whole payload unless the capture was released, the stream is full or the budget is used up.
\<close>

theorem registry_capture:
  assumes "reachable_registry reg"
  shows "bg_usedBytes (rg_budget reg) = hm_sum cell_reserved (rg_cells reg)
    \<and> bg_usedBytes (rg_budget reg) \<le> bg_maximumBytes (rg_budget reg)
    \<and> (\<forall>k s. hm_get (rg_sessions reg) k = Some s \<longrightarrow> (\<exists>cell. hm_get (rg_cells reg) (ss_cell s) = Some cell
         \<and> (\<forall>d. concat (map (packet_slice (toVec (captured d cell))) (forDirection d (sc_packets cell))) = toVec (captured d cell))))
    \<and> (\<forall>now traffic s cell. hm_get (rg_sessions reg) (tr_sessionId traffic) = Some s \<and> hm_get (rg_cells reg) (ss_cell s) = Some cell
         \<and> tr_payload traffic \<noteq> [] \<longrightarrow>
        (\<exists>reg' cell' n. addModifiedTraffic now traffic reg = Ok reg'
          \<and> hm_get (rg_cells reg') = (hm_get (rg_cells reg))(ss_cell s \<mapsto> cell')
          \<and> toVec (captured (tr_direction traffic) cell') = toVec (captured (tr_direction traffic) cell) @ take n (tr_payload traffic)
          \<and> (\<forall>d. d \<noteq> tr_direction traffic \<longrightarrow> captured d cell' = captured d cell)
          \<and> (cb_budget (captured (tr_direction traffic) cell) \<and> bg_usedBytes (rg_budget reg') < bg_maximumBytes (rg_budget reg')
              \<and> length (toVec (captured (tr_direction traffic) cell)) + length (tr_payload traffic) \<le> capturedStreamPrefixLimit
             \<longrightarrow> n = length (tr_payload traffic))))"
proof -
  have ok: "registry_ok reg" using assms by (rule registry.reach_inv)
  have budget: "bg_usedBytes (rg_budget reg) = hm_sum cell_reserved (rg_cells reg)" "bg_usedBytes (rg_budget reg) \<le> bg_maximumBytes (rg_budget reg)"
    using registry_okD(8,9) [OF ok] by (simp_all add: budget_ok_def)
  have slices: "\<exists>cell. hm_get (rg_cells reg) (ss_cell s) = Some cell
      \<and> (\<forall>d. concat (map (packet_slice (toVec (captured d cell))) (forDirection d (sc_packets cell))) = toVec (captured d cell))"
    if known: "hm_get (rg_sessions reg) k = Some s" for k s
  proof -
    obtain cell where cell: "hm_get (rg_cells reg) (ss_cell s) = Some cell" using registry_okD(4) [OF ok known] by (auto simp: hm_contains_def)
    have "concat (map (packet_slice (toVec (captured d cell))) (forDirection d (sc_packets cell))) = toVec (captured d cell)" for d
      using registry_okD(7) [OF ok cell] consecutive_concat [of 0 "forDirection d (sc_packets cell)" "length (toVec (captured d cell))" "toVec (captured d cell)"]
      by (simp add: cell_ok_def index_ok_def subslice_def)
    then show ?thesis using cell by blast
  qed
  have traffic: "\<exists>reg' cell' n. addModifiedTraffic now traffic reg = Ok reg'
          \<and> hm_get (rg_cells reg') = (hm_get (rg_cells reg))(ss_cell s \<mapsto> cell')
          \<and> toVec (captured (tr_direction traffic) cell') = toVec (captured (tr_direction traffic) cell) @ take n (tr_payload traffic)
          \<and> (\<forall>d. d \<noteq> tr_direction traffic \<longrightarrow> captured d cell' = captured d cell)
          \<and> (cb_budget (captured (tr_direction traffic) cell) \<and> bg_usedBytes (rg_budget reg') < bg_maximumBytes (rg_budget reg')
              \<and> length (toVec (captured (tr_direction traffic) cell)) + length (tr_payload traffic) \<le> capturedStreamPrefixLimit
             \<longrightarrow> n = length (tr_payload traffic))"
    if s: "hm_get (rg_sessions reg) (tr_sessionId traffic) = Some s" and cell: "hm_get (rg_cells reg) (ss_cell s) = Some cell"
      and payload: "tr_payload traffic \<noteq> []" for now traffic s cell
  proof -
    obtain reg' cell' where run: "addModifiedTraffic now traffic reg = Ok reg'" "hm_get (rg_cells reg') = (hm_get (rg_cells reg))(ss_cell s \<mapsto> cell')"
      and cap: "capturePayload now (tr_direction traffic) (tr_payload traffic)
           (deriveWireByteModifications (tr_originalPayload traffic) (tr_payload traffic)) cell (rg_budget reg) = Ok (cell', rg_budget reg')"
      using addModifiedTraffic_spec [OF ok s payload, of now] cell by (metis option.inject)
    obtain n where bytes: "toVec (captured (tr_direction traffic) cell') = toVec (captured (tr_direction traffic) cell) @ take n (tr_payload traffic)"
      and n: "n \<le> length (tr_payload traffic)" and others: "\<And>d. d \<noteq> tr_direction traffic \<Longrightarrow> captured d cell' = captured d cell"
      and full: "cb_budget (captured (tr_direction traffic) cell) \<Longrightarrow>
        n < min (length (tr_payload traffic)) (capturedStreamPrefixLimit - length (toVec (captured (tr_direction traffic) cell)))
        \<Longrightarrow> bg_usedBytes (rg_budget reg') = bg_maximumBytes (rg_budget reg')"
      using capture_result [OF registry_okD(7) [OF ok cell] registry_okD(9) [OF ok] cap] by blast
    have "n = length (tr_payload traffic)"
      if "cb_budget (captured (tr_direction traffic) cell)" "bg_usedBytes (rg_budget reg') < bg_maximumBytes (rg_budget reg')"
        "length (toVec (captured (tr_direction traffic) cell)) + length (tr_payload traffic) \<le> capturedStreamPrefixLimit"
    proof (rule ccontr)
      assume "n \<noteq> length (tr_payload traffic)"
      then have "n < min (length (tr_payload traffic)) (capturedStreamPrefixLimit - length (toVec (captured (tr_direction traffic) cell)))"
        using n that(3) by auto
      from full [OF that(1) this] that(2) show False by simp
    qed
    then show ?thesis using run bytes others by blast
  qed
  show ?thesis using budget slices traffic by blast
qed

definition sampleRegistry :: SessionRegistry where
  "sampleRegistry = snd (createSession 5 (lit ''a'') (lit ''127.0.0.1'') (withCaptureBudget 1 100))"

definition sampleTraffic :: ModifiedTraffic where
  "sampleTraffic = \<lparr>tr_sessionId = lit ''a'', tr_direction = TrafficDirection.Up, tr_originalPayload = [1, 2, 3], tr_payload = [1, 9, 3]\<rparr>"

lemma sampleRegistry_reachable: "reachable_registry sampleRegistry"
proof -
  have "reachable_registry (withCaptureBudget 1 100)" by (rule reach_init) (auto simp: registry_start_def)
  then show ?thesis unfolding sampleRegistry_def by (rule reach_step) (rule step_create)
qed

theorem registry_capture_witness:
  "\<exists>reg' cell' n. addModifiedTraffic 7 sampleTraffic sampleRegistry = Ok reg' \<and> hm_get (rg_cells reg') 0 = Some cell'
     \<and> toVec (sc_up cell') = take n [1, 9, 3]"
proof -
  have cell: "map_option (\<lambda>s. (ss_cell s, s)) (hm_get (rg_sessions sampleRegistry) (tr_sessionId sampleTraffic)) = Some (0, s)
      \<and> hm_get (rg_cells sampleRegistry) 0 = Some boundCell \<and> tr_payload sampleTraffic = [1, 9, 3]
      \<and> tr_direction sampleTraffic = TrafficDirection.Up \<and> toVec (captured TrafficDirection.Up boundCell) = []"
    if "s = the (hm_get (rg_sessions sampleRegistry) (tr_sessionId sampleTraffic))" for s
    unfolding that by code_simp
  obtain s where s: "hm_get (rg_sessions sampleRegistry) (tr_sessionId sampleTraffic) = Some s" "ss_cell s = 0"
    using cell [OF refl] by auto
  have "hm_get (rg_sessions sampleRegistry) (tr_sessionId sampleTraffic) = Some s \<and> hm_get (rg_cells sampleRegistry) (ss_cell s) = Some boundCell
      \<and> tr_payload sampleTraffic \<noteq> []"
    using s cell [OF refl] by simp
  from registry_capture [OF sampleRegistry_reachable, THEN conjunct2, THEN conjunct2, THEN conjunct2, rule_format, OF this]
  obtain reg' cell' n where "addModifiedTraffic 7 sampleTraffic sampleRegistry = Ok reg'"
    "hm_get (rg_cells reg') = (hm_get (rg_cells sampleRegistry))(ss_cell s \<mapsto> cell')"
    "toVec (captured (tr_direction sampleTraffic) cell') = toVec (captured (tr_direction sampleTraffic) boundCell) @ take n (tr_payload sampleTraffic)"
    by blast
  then show ?thesis using s(2) cell [OF refl] by (intro exI [of _ reg'] exI [of _ cell'] exI [of _ n]) (simp add: captured_def)
qed

section \<open>History\<close>

lemma pruned_sessions:
  assumes wf: "hm_wf (rg_sessions reg)"
  defines "excess \<equiv> take (length (closedSessions reg) - rg_historyLimit reg) (sort_key snd (closedSessions reg))"
  shows "rg_sessions (pruneClosed held reg) = filter (\<lambda>e. fst e \<notin> fst ` set excess) (rg_sessions reg)"
proof -
  have "fold (\<lambda>e sessions. hm_remove (fst e) sessions) es m = fold hm_remove (map fst es) m" for es :: "(str \<times> u64) list" and m :: "(str, SessionSnapshot) hashmap"
    by (simp add: fold_map comp_def)
  then show ?thesis by (simp add: pruneClosed_def Let_def excess_def fold_hm_remove dropUnreferenced_def)
qed

text \<open>Sorting a list with distinct keys and cutting it: the cut part precedes the rest.\<close>

lemma sort_cut:
  fixes xs :: "('a \<times> 'b::linorder) list" and n :: nat
  assumes "distinct (map fst xs)"
  defines "early \<equiv> take n (sort_key snd xs)" and "rest \<equiv> drop n (sort_key snd xs)"
  shows "set xs = set early \<union> set rest" and "fst ` set early \<inter> fst ` set rest = {}" and "length rest = length xs - n"
    and "x \<in> set early \<Longrightarrow> y \<in> set rest \<Longrightarrow> snd x \<le> snd y"
proof -
  have both: "early @ rest = sort_key snd xs" by (simp add: early_def rest_def)
  have "set (early @ rest) = set xs" unfolding both by simp
  then show "set xs = set early \<union> set rest" by simp
  have "mset (map fst (early @ rest)) = mset (map fst xs)" unfolding both by simp
  then have "distinct (map fst (early @ rest))" using assms(1) mset_eq_imp_distinct_iff by blast
  then show "fst ` set early \<inter> fst ` set rest = {}" by auto
  show "length rest = length xs - n" by (simp add: rest_def)
  have "sorted (map snd (early @ rest))" unfolding both by simp
  then show "x \<in> set early \<Longrightarrow> y \<in> set rest \<Longrightarrow> snd x \<le> snd y" by (auto simp: sorted_append)
qed

lemma closedSessions_iff:
  assumes "hm_wf (rg_sessions reg)"
  shows "(k, at) \<in> set (closedSessions reg) \<longleftrightarrow>
    (\<exists>s. hm_get (rg_sessions reg) k = Some s \<and> session_ended s \<and> ss_closedAtMilliseconds s = at)"
    and "distinct (map fst (closedSessions reg))"
proof -
  have "(k, at) \<in> set (closedSessions reg) \<longleftrightarrow> (\<exists>s. (k, s) \<in> set (rg_sessions reg) \<and> session_ended s \<and> ss_closedAtMilliseconds s = at)"
    by (force simp: closedSessions_def)
  then show "(k, at) \<in> set (closedSessions reg) \<longleftrightarrow>
    (\<exists>s. hm_get (rg_sessions reg) k = Some s \<and> session_ended s \<and> ss_closedAtMilliseconds s = at)"
    by (simp add: hm_in_set [OF assms])
  have "map fst (closedSessions reg) = map fst (filter (\<lambda>e. session_ended (snd e)) (rg_sessions reg))"
    by (simp add: closedSessions_def)
  then show "distinct (map fst (closedSessions reg))" using hm_wf_filter [OF assms] by (simp add: hm_wf_def)
qed

lemma pruneClosed_spec:
  fixes held :: "nat list"
  assumes wf: "hm_wf (rg_sessions reg)"
  defines "reg' \<equiv> pruneClosed held reg"
  shows "hm_get (rg_sessions reg') k = Some t \<Longrightarrow> hm_get (rg_sessions reg) k = Some t"
    and "hm_get (rg_sessions reg) k = Some t \<Longrightarrow> \<not> session_ended t \<Longrightarrow> hm_get (rg_sessions reg') k = Some t"
    and "length (closedSessions reg') = min (length (closedSessions reg)) (rg_historyLimit reg)"
    and "hm_get (rg_sessions reg) k = Some t \<Longrightarrow> hm_get (rg_sessions reg') k = None \<Longrightarrow>
      hm_get (rg_sessions reg') k' = Some t' \<Longrightarrow> session_ended t' \<Longrightarrow> ss_closedAtMilliseconds t \<le> ss_closedAtMilliseconds t'"
proof -
  define n where "n = length (closedSessions reg) - rg_historyLimit reg"
  define early where "early = take n (sort_key snd (closedSessions reg))"
  define late where "late = drop n (sort_key snd (closedSessions reg))"
  have table: "rg_sessions reg' = filter (\<lambda>e. fst e \<notin> fst ` set early) (rg_sessions reg)"
    unfolding reg'_def early_def n_def by (rule pruned_sessions [OF wf])
  note closed = closedSessions_iff [OF wf]
  note parts = sort_cut [where n = n, OF closed(2), folded early_def late_def]
  have get: "hm_get (rg_sessions reg') k = (case hm_get (rg_sessions reg) k of None \<Rightarrow> None | Some t \<Rightarrow> if k \<in> fst ` set early then None else Some t)" for k
    unfolding table hm_get_filter [OF wf] by (auto split: option.split)
  have wf': "hm_wf (rg_sessions reg')" unfolding table by (rule hm_wf_filter [OF wf])
  have early: "\<exists>at. (k, at) \<in> set early \<and> (k, at) \<in> set (closedSessions reg)" if "k \<in> fst ` set early" for k
    using that parts(1) by force
  show "hm_get (rg_sessions reg) k = Some t" if "hm_get (rg_sessions reg') k = Some t" for k t
    using that by (simp add: get split: option.splits if_splits)
  show "hm_get (rg_sessions reg') k = Some t" if "hm_get (rg_sessions reg) k = Some t" "\<not> session_ended t" for k t
    using that early [of k] by (auto simp: get closed(1))
  have "closedSessions reg' = filter (\<lambda>e. fst e \<notin> fst ` set early) (closedSessions reg)"
    unfolding closedSessions_def table by (simp add: filter_map comp_def conj_commute)
  then have "set (closedSessions reg') = {e \<in> set early \<union> set late. fst e \<notin> fst ` set early}" using parts(1) by simp
  also have "\<dots> = set late" using parts(2) by (auto simp: disjoint_iff)
  finally have all_late: "set (closedSessions reg') = set late" .
  have "distinct late" "distinct (closedSessions reg')"
    using closed(2) closedSessions_iff(2) [OF wf'] by (auto simp: late_def distinct_map)
  then have "length (closedSessions reg') = length late" using all_late distinct_card by metis
  then show "length (closedSessions reg') = min (length (closedSessions reg)) (rg_historyLimit reg)" using parts(3) by (auto simp: n_def)
  show "ss_closedAtMilliseconds t \<le> ss_closedAtMilliseconds t'"
    if "hm_get (rg_sessions reg) k = Some t" "hm_get (rg_sessions reg') k = None" "hm_get (rg_sessions reg') k' = Some t'" "session_ended t'"
  proof -
    have "k \<in> fst ` set early" using that(1,2) by (simp add: get split: if_splits)
    then have "(k, ss_closedAtMilliseconds t) \<in> set early" using early [of k] closed(1) that(1) by fastforce
    moreover have "(k', ss_closedAtMilliseconds t') \<in> set (closedSessions reg')"
      using closedSessions_iff(1) [OF wf'] that(3,4) by blast
    ultimately show ?thesis using parts(4) all_late by fastforce
  qed
qed

definition ended_snapshot :: "u64 \<Rightarrow> str \<Rightarrow> SessionSnapshot \<Rightarrow> SessionSnapshot" where
  "ended_snapshot now message s = s\<lparr>ss_state := (if message = [] then Closed else Failed), ss_errorMessage := message,
     ss_closedAtMilliseconds := now, ss_updatedAtMilliseconds := now\<rparr>"

text \<open>
  Closing a session. The session ends with its diagnosis; every session that is still active is kept
  unchanged, ended ones are kept up to the history limit, and where some are dropped they are the
  ones that ended first.
\<close>

theorem closeSession_history:
  assumes "reachable_registry reg" and "hm_get (rg_sessions reg) i = Some s"
    and table: "table = (hm_get (rg_sessions reg))(i \<mapsto> ended_snapshot now message s)" and reg': "reg' = closeSession held now i message reg"
  shows "(\<forall>k t. hm_get (rg_sessions reg') k = Some t \<longrightarrow> table k = Some t)
    \<and> (\<forall>k t. table k = Some t \<and> \<not> session_ended t \<longrightarrow> hm_get (rg_sessions reg') k = Some t)
    \<and> length (closedSessions reg') = min (card {k. \<exists>t. table k = Some t \<and> session_ended t}) (rg_historyLimit reg)
    \<and> (\<forall>k t k' t'. table k = Some t \<and> hm_get (rg_sessions reg') k = None \<and> hm_get (rg_sessions reg') k' = Some t' \<and> session_ended t'
        \<longrightarrow> ss_closedAtMilliseconds t \<le> ss_closedAtMilliseconds t')"
proof -
  have ok: "registry_ok reg" using assms(1) by (rule registry.reach_inv)
  define reg1 where "reg1 = publish ''sessionClosed'' (ended_snapshot now message s) (reg\<lparr>rg_sessions := hm_insert i (ended_snapshot now message s) (rg_sessions reg),
    rg_metrics := (let metrics = (rg_metrics reg)\<lparr>mt_activeConnections := saturating_sub (mt_activeConnections (rg_metrics reg)) 1\<rparr>
      in if message = [] then metrics else metrics\<lparr>mt_failedConnections := mt_failedConnections metrics + 1\<rparr>)\<rparr>)"
  have closed: "reg' = pruneClosed held reg1"
    unfolding reg' closeSession_def reg1_def ended_snapshot_def Let_def using assms(2) by simp
  have sessions: "rg_sessions reg1 = hm_insert i (ended_snapshot now message s) (rg_sessions reg)" "rg_historyLimit reg1 = rg_historyLimit reg"
    by (simp_all add: reg1_def publish_def)
  have wf: "hm_wf (rg_sessions reg1)" using registry_okD(1) [OF ok] by (simp add: sessions)
  have get: "hm_get (rg_sessions reg1) = table" by (simp add: sessions hm_get_insert table)
  have "card (fst ` set (closedSessions reg1)) = length (closedSessions reg1)"
    using closedSessions_iff(2) [OF wf] by (metis distinct_card length_map set_map)
  moreover have "fst ` set (closedSessions reg1) = {k. \<exists>t. table k = Some t \<and> session_ended t}"
    using closedSessions_iff(1) [OF wf] unfolding get by force
  ultimately have size: "length (closedSessions reg1) = card {k. \<exists>t. table k = Some t \<and> session_ended t}" by simp
  note spec = pruneClosed_spec [where held = held, OF wf, folded closed, unfolded get sessions(2) size]
  show ?thesis
  proof (intro conjI allI impI)
    show "table k = Some t" if "hm_get (rg_sessions reg') k = Some t" for k t using that by (rule spec(1))
    show "hm_get (rg_sessions reg') k = Some t" if "table k = Some t \<and> \<not> session_ended t" for k t
      using that by (intro spec(2)) simp_all
    show "length (closedSessions reg') = min (card {k. \<exists>t. table k = Some t \<and> session_ended t}) (rg_historyLimit reg)" by (rule spec(3))
    show "ss_closedAtMilliseconds t \<le> ss_closedAtMilliseconds t'"
      if "table k = Some t \<and> hm_get (rg_sessions reg') k = None \<and> hm_get (rg_sessions reg') k' = Some t' \<and> session_ended t'" for k t k' t'
      using that by (intro spec(4) [of k t k' t']) simp_all
  qed
qed

theorem closeSession_history_witness:
  "\<exists>s. hm_get (rg_sessions sampleRegistry) (lit ''a'') = Some s
     \<and> length (closedSessions (closeSession [] 9 (lit ''a'') [] sampleRegistry)) = min (card {k. \<exists>t. ((hm_get (rg_sessions sampleRegistry))(lit ''a'' \<mapsto> ended_snapshot 9 [] s)) k = Some t \<and> session_ended t}) 1"
proof -
  have "hm_get (rg_sessions sampleRegistry) (lit ''a'') \<noteq> None" and limit: "rg_historyLimit sampleRegistry = 1" by code_simp+
  then obtain s where s: "hm_get (rg_sessions sampleRegistry) (lit ''a'') = Some s" by blast
  from closeSession_history [where now = 9 and message = "[]" and held = "[]", OF sampleRegistry_reachable s refl refl,
      THEN conjunct2, THEN conjunct2, THEN conjunct1]
  show ?thesis unfolding limit using s by (intro exI [of _ s] conjI)
qed

end
