(* ===== verification/LeaseClientProperties.thy ===== *)
theory LeaseClientProperties
  imports LeaseClient "HOL-Library.Multiset" "HOL-Library.Code_Target_Nat"
begin

text \<open>
  What the account client promises: in every window of time the bytes released by a schedule stay within
  the rate over the window and a bounded burst, all connections of an account share one counted controller, and the metered
  stream delivers, in order, exactly the bytes it records.
\<close>

section \<open>The rate limit\<close>

lemma div_ceil_mult: "0 < b \<Longrightarrow> a \<le> b * div_ceil a b"
proof -
  assume b: "0 < b"
  have "a + (b - 1) < b * ((a + (b - 1)) div b) + b"
    using dividend_less_div_times [OF b, of "a + (b - 1)"] by (simp add: mult.commute)
  then show ?thesis using b by (simp add: div_ceil_def)
qed

lemma div_ceil_le: "0 < b \<Longrightarrow> a \<le> b * c \<Longrightarrow> div_ceil a b \<le> c"
  by (simp add: div_ceil_def less_mult_imp_div_less less_Suc_eq_le [symmetric] mult.commute)

lemma slice_duration_ge:
  assumes "0 < rate" and "n * second \<le> u64_max"
  shows "n * second \<le> nat rate * slice_duration n rate"
proof -
  have small: "min (n * 1000000000) (2 ^ 128 - 1) = n * second" using assms(2) by (simp add: second_def u64_max_def min_def)
  have "div_ceil (n * second) (nat rate) \<le> n * second" using assms(1) by (intro div_ceil_le) auto
  then have "slice_duration n rate = div_ceil (n * second) (nat rate)"
    using assms(2) unfolding slice_duration_def small by simp
  then show ?thesis using div_ceil_mult [of "nat rate" "n * second"] assms(1) by simp
qed

lemma reserveSlice_positive:
  assumes "0 < sd_bytesPerSecond schedule"
  defines "d n \<equiv> slice_duration n (sd_bytesPerSecond schedule)" and "base now \<equiv> max (sd_nextAvailable schedule) now"
  shows "reserveSlice now n schedule = (Some (base now + (d n - min second (d n))), schedule\<lparr>sd_nextAvailable := base now + d n\<rparr>)"
  using assms by (simp add: reserveSlice_def Let_def)

text \<open>
  The reservations of a schedule, each with the instant at which its bytes may move: the caller waits
  until the scheduled instant, and it does not wait when that instant has passed or there is none.
\<close>

fun reservations :: "DirectionSchedule \<Rightarrow> (instant \<times> nat) list \<Rightarrow> (instant \<times> nat) list" where
  "reservations schedule [] = []"
| "reservations schedule ((now, n) # rest) =
     (case reserveSlice now n schedule of (scheduled, schedule') \<Rightarrow>
        (case scheduled of None \<Rightarrow> now | Some s \<Rightarrow> max now s, n) # reservations schedule' rest)"

definition released :: "instant \<Rightarrow> instant \<Rightarrow> (instant \<times> nat) list \<Rightarrow> nat" where
  "released a t rs = sum_list (map snd (filter (\<lambda>r. a \<le> fst r \<and> fst r \<le> t) rs))"

lemma released_Nil [simp]: "released a t [] = 0"
  by (simp add: released_def)

lemma released_Cons: "released a t ((s, n) # rs) = (if a \<le> s \<and> s \<le> t then n else 0) + released a t rs"
  by (simp add: released_def)

lemma reservations_positive:
  assumes "0 < sd_bytesPerSecond schedule"
  defines "d n \<equiv> slice_duration n (sd_bytesPerSecond schedule)" and "base now \<equiv> max (sd_nextAvailable schedule) now"
  shows "reservations schedule ((now, n) # ops) =
    (base now + (d n - min second (d n)), n) # reservations (schedule\<lparr>sd_nextAvailable := base now + d n\<rparr>) ops"
proof -
  have "now \<le> base now + (d n - min second (d n))" by (simp add: base_def trans_le_add1)
  then show ?thesis using reserveSlice_positive [OF assms(1), of now n] by (simp add: d_def base_def max_absorb2)
qed

text \<open>What is released up to an instant, counted from the instant at which the schedule becomes available.\<close>

lemma released_bound:
  assumes "0 < sd_bytesPerSecond schedule" and "list_all (\<lambda>(now, n). n * second \<le> u64_max) ops"
    and "list_all (\<lambda>(now, n). m \<le> now) ops"
  shows "released a t (reservations schedule ops) * second
    \<le> nat (sd_bytesPerSecond schedule) * (t + second - max m (sd_nextAvailable schedule))"
  using assms
proof (induction ops arbitrary: schedule)
  case Nil
  then show ?case by simp
next
  case (Cons op ops)
  obtain now n where op: "op = (now, n)" by fastforce
  let ?rate = "sd_bytesPerSecond schedule"
  define d where "d = slice_duration n ?rate"
  define base where "base = max (sd_nextAvailable schedule) now"
  define s where "s = base + (d - min second d)"
  let ?next = "schedule\<lparr>sd_nextAvailable := base + d\<rparr>" and ?all = "t + second - max m (sd_nextAvailable schedule)"
  have run: "reservations schedule (op # ops) = (s, n) # reservations ?next ops"
    unfolding op using reservations_positive [OF Cons.prems(1)] by (simp add: s_def d_def base_def)
  have d: "n * second \<le> nat ?rate * d" using slice_duration_ge [of ?rate n] Cons.prems by (simp add: d_def op)
  have m: "m \<le> base" using Cons.prems(3) by (simp add: op base_def le_max_iff_disj)
  then have rest: "released a t (reservations ?next ops) * second \<le> nat ?rate * (t + second - (base + d))"
    using Cons.IH [of ?next] Cons.prems by (simp add: max_def)
  show ?case
  proof (cases "s \<le> t")
    case True
    then have "base + d \<le> t + second" by (simp add: s_def)
    then have "d + (t + second - (base + d)) \<le> ?all" using m by (simp add: base_def)
    then have "nat ?rate * d + nat ?rate * (t + second - (base + d)) \<le> nat ?rate * ?all"
      by (metis add_mult_distrib2 mult_le_mono2)
    moreover have "released a t ((s, n) # reservations ?next ops) * second
        \<le> n * second + released a t (reservations ?next ops) * second"
      by (simp add: released_Cons add_mult_distrib)
    ultimately show ?thesis using d rest unfolding run by linarith
  next
    case False
    have "t + second - (base + d) \<le> ?all" using m by (simp add: base_def)
    then have "released a t (reservations ?next ops) * second \<le> nat ?rate * ?all"
      using rest mult_le_mono2 order_trans by blast
    then show ?thesis using False unfolding run by (simp add: released_Cons)
  qed
qed

text \<open>What is released in a window, whatever backlog the schedule has when the window opens.\<close>

lemma released_window:
  assumes "0 < sd_bytesPerSecond schedule" and "list_all (\<lambda>(now, n). n * second \<le> u64_max \<and> n \<le> largest) ops"
    and "a \<le> t"
  shows "released a t (reservations schedule ops) * second
    \<le> nat (sd_bytesPerSecond schedule) * (t - a) + max (nat (sd_bytesPerSecond schedule)) largest * second"
  using assms
proof (induction ops arbitrary: schedule)
  case Nil
  then show ?case by simp
next
  case (Cons op ops)
  obtain now n where op: "op = (now, n)" by fastforce
  let ?rate = "sd_bytesPerSecond schedule"
  let ?r = "nat ?rate"
  define d where "d = slice_duration n ?rate"
  define base where "base = max (sd_nextAvailable schedule) now"
  define s where "s = base + (d - min second d)"
  let ?next = "schedule\<lparr>sd_nextAvailable := base + d\<rparr>"
  have run: "reservations schedule (op # ops) = (s, n) # reservations ?next ops"
    unfolding op using reservations_positive [OF Cons.prems(1)] by (simp add: s_def d_def base_def)
  show ?case
  proof (cases "a \<le> s \<and> s \<le> t")
    case False
    then have "released a t ((s, n) # reservations ?next ops) = released a t (reservations ?next ops)"
      by (auto simp: released_Cons)
    then show ?thesis unfolding run using Cons.IH [of ?next] Cons.prems by simp
  next
    case True
    have fits: "n * second \<le> ?r * d" "n * second \<le> largest * second"
      using slice_duration_ge [of ?rate n] Cons.prems by (simp_all add: d_def op)
    have "list_all (\<lambda>(now, n). n * second \<le> u64_max) ops" using Cons.prems(2) by (auto simp: list_all_iff)
    then have rest: "released a t (reservations ?next ops) * second \<le> ?r * (t + second - (base + d))"
      using released_bound [of ?next ops 0 a t] Cons.prems(1) by (simp add: list_all_iff case_prod_beta)
    have split: "released a t (reservations schedule (op # ops)) * second
        = n * second + released a t (reservations ?next ops) * second"
      unfolding run using True by (simp add: released_Cons algebra_simps)
    show ?thesis
    proof (cases "d \<le> second")
      case small: True
      then have "a \<le> base" "base + d \<le> t + second" using True by (simp_all add: s_def)
      then have "d + (t + second - (base + d)) \<le> (t - a) + second" by linarith
      then have "?r * d + ?r * (t + second - (base + d)) \<le> ?r * ((t - a) + second)"
        by (metis add_mult_distrib2 mult_le_mono2)
      also have "\<dots> \<le> ?r * (t - a) + max ?r largest * second" by (simp add: add_mult_distrib2)
      finally show ?thesis unfolding split using fits(1) rest by linarith
    next
      case False
      then have "a + second \<le> base + d" using True unfolding s_def by linarith
      then have "t + second - (base + d) \<le> t - a" by linarith
      then have "?r * (t + second - (base + d)) \<le> ?r * (t - a)" by (rule mult_le_mono2)
      moreover have "largest * second \<le> max ?r largest * second" by simp
      ultimately show ?thesis unfolding split using fits(2) rest by linarith
    qed
  qed
qed

lemma reservations_append:
  "\<exists>later_schedule. reservations schedule (earlier @ ops) = reservations schedule earlier @ reservations later_schedule ops
     \<and> sd_bytesPerSecond later_schedule = sd_bytesPerSecond schedule"
proof (induction schedule earlier rule: reservations.induct)
  case (2 schedule now n rest)
  obtain scheduled next_schedule where run: "reserveSlice now n schedule = (scheduled, next_schedule)" by fastforce
  then have rate: "sd_bytesPerSecond next_schedule = sd_bytesPerSecond schedule"
    by (auto simp: reserveSlice_def Let_def split: if_splits)
  from 2 [OF run [symmetric]] run rate show ?case by auto
qed auto

text \<open>
  C21: the account wide rate limit. Take a schedule that starts with a positive rate, and any sequence
  of reservations by any connections, each of at most \<open>largest\<close> bytes; bytes move at their scheduled
  instant, or at once when it has passed. In every window of time the bytes that move stay within the
  rate over the window and a burst of one second's worth of the rate or of the largest slice, whichever
  is more: time in which nothing was sent earns no credit. From the start the burst is one second's worth,
  and so it is for the reservations made from any instant \<open>m\<close> on, whatever happened before. A slice
  of up to one second's worth is not delayed when there is no backlog, and a negative rate never delays.
\<close>

theorem rate_limit:
  assumes rate: "0 < rate"
    and sizes: "list_all (\<lambda>(now, n). n * second \<le> u64_max \<and> n \<le> largest) (earlier @ ops)"
    and from_m: "list_all (\<lambda>(now, n). m \<le> now) ops"
    and window: "a \<le> t"
  shows "released a t (reservations (DirectionSchedule_new start rate) (earlier @ ops)) * second
        \<le> nat rate * (t - a) + max (nat rate) largest * second
    \<and> released 0 t (reservations (DirectionSchedule_new start rate) (earlier @ ops)) * second \<le> nat rate * (t + second - start)
    \<and> released 0 t (drop (length earlier) (reservations (DirectionSchedule_new start rate) (earlier @ ops))) * second
        \<le> nat rate * (t + second - m)
    \<and> (\<forall>now n schedule. sd_bytesPerSecond schedule = rate \<and> sd_nextAvailable schedule \<le> now \<and> n \<le> nat rate
         \<longrightarrow> fst (reserveSlice now n schedule) = Some now)
    \<and> (\<forall>now n schedule. sd_bytesPerSecond schedule < 0 \<longrightarrow> reserveSlice now n schedule = (None, schedule))"
proof (intro conjI allI impI)
  let ?new = "DirectionSchedule_new start rate"
  have all: "list_all (\<lambda>(now, n). n * second \<le> u64_max) (earlier @ ops)" "list_all (\<lambda>(now, n). n * second \<le> u64_max) ops"
    using sizes by (auto simp: list_all_iff)
  have new: "sd_bytesPerSecond ?new = rate" "sd_nextAvailable ?new = start" by (simp_all add: DirectionSchedule_new_def)
  show "released a t (reservations ?new (earlier @ ops)) * second \<le> nat rate * (t - a) + max (nat rate) largest * second"
    using released_window [of ?new largest "earlier @ ops" a t] rate sizes window by (simp only: new)
  show "released 0 t (reservations ?new (earlier @ ops)) * second \<le> nat rate * (t + second - start)"
    using released_bound [of ?new "earlier @ ops" 0 0 t] rate all by (simp add: new list_all_iff case_prod_beta)
  obtain schedule where later: "reservations ?new (earlier @ ops) = reservations ?new earlier @ reservations schedule ops"
      "sd_bytesPerSecond schedule = rate" using reservations_append new(1) by metis
  have "length (reservations s xs) = length xs" for s xs
    by (induction s xs rule: reservations.induct) (auto split: prod.split)
  with later(1) have dropped: "drop (length earlier) (reservations ?new (earlier @ ops)) = reservations schedule ops" by simp
  have "released 0 t (reservations schedule ops) * second \<le> nat rate * (t + second - max m (sd_nextAvailable schedule))"
    using released_bound [of schedule ops m 0 t] rate all(2) from_m by (simp only: later(2))
  also have "\<dots> \<le> nat rate * (t + second - m)" by (intro mult_le_mono2) simp
  finally show "released 0 t (drop (length earlier) (reservations ?new (earlier @ ops))) * second \<le> nat rate * (t + second - m)"
    unfolding dropped .
next
  fix now n and schedule :: DirectionSchedule
  assume idle: "sd_bytesPerSecond schedule = rate \<and> sd_nextAvailable schedule \<le> now \<and> n \<le> nat rate"
  have "div_ceil (min (n * 1000000000) (2 ^ 128 - 1)) (nat rate) \<le> second"
    using idle rate by (intro div_ceil_le) (auto simp: second_def)
  then have "slice_duration n rate \<le> second" by (simp add: slice_duration_def)
  then show "fst (reserveSlice now n schedule) = Some now"
    using idle rate reserveSlice_positive [of schedule now n] by (simp add: max_def)
next
  fix now n and schedule :: DirectionSchedule
  assume "sd_bytesPerSecond schedule < 0"
  then show "reserveSlice now n schedule = (None, schedule)" by (simp add: reserveSlice_def)
qed

text \<open>Two slices at the start and, after an idle time of nine seconds, a burst that the schedule spreads out.\<close>

theorem rate_limit_witness:
  "released 9000000000 9500000000 (reservations (DirectionSchedule_new 0 1000) ([(0, 800), (10, 900)] @ [(9000000000, 900), (9000000000, 900), (9000000000, 900)])) * second
     \<le> 1000 * 500000000 + 1000 * second
   \<and> released 0 9500000000 (drop 2 (reservations (DirectionSchedule_new 0 1000) ([(0, 800), (10, 900)] @ [(9000000000, 900), (9000000000, 900), (9000000000, 900)]))) * second
     \<le> 1000 * 1500000000"
proof -
  have "list_all (\<lambda>(now, n). n * second \<le> u64_max \<and> n \<le> 900) ([(0 :: instant, 800), (10, 900)] @ [(9000000000, 900), (9000000000, 900), (9000000000, 900)])"
    "list_all (\<lambda>(now, n). (9000000000 :: instant) \<le> now) [(9000000000, 900 :: nat), (9000000000, 900), (9000000000, 900)]"
    by (simp_all add: second_def u64_max_def)
  from rate_limit [of 1000, OF _ this, where a = 9000000000 and t = 9500000000 and start = 0] show ?thesis
    by (simp add: second_def numeral_2_eq_2 del: append.simps)
qed

section \<open>Shared controllers\<close>

definition lease_key :: "ClientState \<Rightarrow> nat \<Rightarrow> (str \<times> nat) option" where
  "lease_key state x = map_option (\<lambda>l. (lo_accountId l, lo_controller l)) (hm_get (lc_leaseObjects state) x)"

text \<open>The leases of \<open>live\<close> are the ones that controllers count.\<close>

definition counted :: "ClientState \<Rightarrow> nat multiset \<Rightarrow> bool" where
  "counted state live \<longleftrightarrow>
     (\<forall>x \<in># live. \<exists>acc a. lease_key state x = Some (acc, a) \<and> hm_get (lc_controllers state) acc = Some a)
     \<and> (\<forall>acc a. hm_get (lc_controllers state) acc = Some a \<longrightarrow> (\<exists>c. hm_get (lc_controllerObjects state) a = Some c
          \<and> ct_activeLeases c = size {#x \<in># live. lease_key state x = Some (acc, a)#}
          \<and> 0 < size {#x \<in># live. lease_key state x = Some (acc, a)#}))
     \<and> (\<forall>acc acc' a. hm_get (lc_controllers state) acc = Some a \<longrightarrow> hm_get (lc_controllers state) acc' = Some a \<longrightarrow> acc = acc')"

lemma countedD:
  assumes "counted state live"
  shows "x \<in># live \<Longrightarrow> \<exists>acc a. lease_key state x = Some (acc, a) \<and> hm_get (lc_controllers state) acc = Some a"
    and "hm_get (lc_controllers state) acc = Some a \<Longrightarrow> \<exists>c. hm_get (lc_controllerObjects state) a = Some c
      \<and> ct_activeLeases c = size {#x \<in># live. lease_key state x = Some (acc, a)#} \<and> 0 < size {#x \<in># live. lease_key state x = Some (acc, a)#}"
    and "hm_get (lc_controllers state) acc = Some a \<Longrightarrow> hm_get (lc_controllers state) acc' = Some a \<Longrightarrow> acc = acc'"
  using assms unfolding counted_def by blast+

lemma countedI:
  assumes "\<And>x. x \<in># live \<Longrightarrow> \<exists>acc a. lease_key state x = Some (acc, a) \<and> hm_get (lc_controllers state) acc = Some a"
    and "\<And>acc a. hm_get (lc_controllers state) acc = Some a \<Longrightarrow> \<exists>c. hm_get (lc_controllerObjects state) a = Some c
      \<and> ct_activeLeases c = size {#x \<in># live. lease_key state x = Some (acc, a)#} \<and> 0 < size {#x \<in># live. lease_key state x = Some (acc, a)#}"
    and "\<And>acc acc' a. hm_get (lc_controllers state) acc = Some a \<Longrightarrow> hm_get (lc_controllers state) acc' = Some a \<Longrightarrow> acc = acc'"
  shows "counted state live"
  using assms unfolding counted_def by blast

lemma counted_cong:
  assumes "counted state live" and "\<And>x. lease_key state' x = lease_key state x" and "lc_controllers state' = lc_controllers state"
    and "\<And>a. map_option ct_activeLeases (hm_get (lc_controllerObjects state') a) = map_option ct_activeLeases (hm_get (lc_controllerObjects state) a)"
  shows "counted state' live"
proof -
  have "(\<exists>c. hm_get (lc_controllerObjects state') a = Some c \<and> ct_activeLeases c = n) \<longleftrightarrow>
        (\<exists>c. hm_get (lc_controllerObjects state) a = Some c \<and> ct_activeLeases c = n)" for a n
    using assms(4) [of a] by (cases "hm_get (lc_controllerObjects state) a"; cases "hm_get (lc_controllerObjects state') a") auto
  then show ?thesis using assms(1) unfolding counted_def assms(2,3) by blast
qed

lemma key_modifyLease [simp]:
  "(\<And>l. lo_accountId (f l) = lo_accountId l \<and> lo_controller (f l) = lo_controller l) \<Longrightarrow> lease_key (modifyLease b f state) x = lease_key state x"
  by (auto simp: lease_key_def modifyLease_def hm_get_modify option.map_comp comp_def)

lemma counted_modifyLease:
  assumes "counted state live" and "\<And>l. lo_accountId (f l) = lo_accountId l \<and> lo_controller (f l) = lo_controller l"
  shows "counted (modifyLease b f state) live"
  by (rule counted_cong [OF assms(1)], rule key_modifyLease [OF assms(2)]) (simp_all add: modifyLease_def)

lemma counted_modifyController:
  assumes "counted state live" and "\<And>c. ct_activeLeases (f c) = ct_activeLeases c"
  shows "counted (modifyController b f state) live"
  using assms(2) by (intro counted_cong [OF assms(1)]) (auto simp: modifyController_def lease_key_def hm_get_modify option.map_comp comp_def)

lemma updateController_active [simp]: "ct_activeLeases (updateController now r u d c) = ct_activeLeases c"
  by (simp add: updateController_def)

lemma counted_release:
  assumes counted: "counted state (add_mset x live)" and key: "lease_key state x = Some (lo_accountId lease, lo_controller lease)"
  shows "counted (releaseController lease state) live"
proof -
  let ?acc = "lo_accountId lease" and ?a = "lo_controller lease" and ?state = "releaseController lease state"
  have current: "hm_get (lc_controllers state) ?acc = Some ?a" using counted key by (auto simp: counted_def)
  define n where "n = size {#y \<in># live. lease_key state y = Some (?acc, ?a)#}"
  obtain c where c: "hm_get (lc_controllerObjects state) ?a = Some c" "ct_activeLeases c = n + 1"
    using counted current key unfolding counted_def n_def by (auto dest!: spec [where x = ?acc])
  have inj: "acc = ?acc" if "hm_get (lc_controllers state) acc = Some ?a" for acc
    using counted current that by (auto simp: counted_def)
  have keys: "lease_key ?state y = lease_key state y" for y
    by (simp add: releaseController_def Let_def lease_key_def modifyController_def)
  have controllers: "hm_get (lc_controllers ?state) = (if n = 0 then (hm_get (lc_controllers state))(?acc := None) else hm_get (lc_controllers state))"
    using c current by (auto simp: releaseController_def Let_def modifyController_def hm_get_remove)
  have objects: "hm_get (lc_controllerObjects ?state) b =
      (if b = ?a then Some (c\<lparr>ct_activeLeases := n\<rparr>) else hm_get (lc_controllerObjects state) b)" for b
    using c by (simp add: releaseController_def Let_def modifyController_def hm_get_modify)
  have live: "\<exists>acc a. lease_key state y = Some (acc, a) \<and> hm_get (lc_controllers ?state) acc = Some a" if member: "y \<in># live" for y
  proof -
    obtain acc a where y: "lease_key state y = Some (acc, a)" "hm_get (lc_controllers state) acc = Some a"
      using counted member by (auto simp: counted_def)
    have "acc \<noteq> ?acc" if "n = 0"
    proof
      assume "acc = ?acc"
      then have "lease_key state y = Some (?acc, ?a)" using y current by simp
      then have "y \<in># {#y \<in># live. lease_key state y = Some (?acc, ?a)#}" using \<open>y \<in># live\<close> by simp
      then show False using that by (auto simp: n_def)
    qed
    then show ?thesis using y by (auto simp: controllers)
  qed
  have counts: "\<exists>c. hm_get (lc_controllerObjects ?state) a = Some c \<and> ct_activeLeases c = size {#y \<in># live. lease_key state y = Some (acc, a)#}
      \<and> 0 < size {#y \<in># live. lease_key state y = Some (acc, a)#}" if get: "hm_get (lc_controllers ?state) acc = Some a" for acc a
  proof (cases "acc = ?acc")
    case True
    then have "a = ?a" "0 < n" using get current by (auto simp: controllers split: if_splits)
    then show ?thesis using True by (simp add: objects n_def)
  next
    case False
    then have old: "hm_get (lc_controllers state) acc = Some a" "a \<noteq> ?a" using get inj by (auto simp: controllers split: if_splits)
    have "{#y \<in># add_mset x live. lease_key state y = Some (acc, a)#} = {#y \<in># live. lease_key state y = Some (acc, a)#}"
      using False key by auto
    then show ?thesis using countedD(2) [OF counted old(1)] old(2) by (simp add: objects)
  qed
  have "acc = acc'" if "hm_get (lc_controllers ?state) acc = Some a" "hm_get (lc_controllers ?state) acc' = Some a" for acc acc' a
    using that counted by (auto simp: controllers counted_def split: if_splits)
  then show ?thesis using live counts unfolding counted_def keys by blast
qed

definition client_ok :: "ClientState \<Rightarrow> bool" where
  "client_ok state \<longleftrightarrow> counted state (mset (map snd (lc_leases state)))
     \<and> hm_wf (lc_leases state)
     \<and> (\<forall>i x. hm_get (lc_leases state) i = Some x \<longrightarrow> (\<exists>l. hm_get (lc_leaseObjects state) x = Some l \<and> lo_leaseId l = i))
     \<and> (\<forall>x l. hm_get (lc_leaseObjects state) x = Some l \<longrightarrow> x < lc_nextAddress state)
     \<and> (\<forall>x c. hm_get (lc_controllerObjects state) x = Some c \<longrightarrow> x < lc_nextAddress state)"

lemma client_okD:
  assumes "client_ok state"
  shows "counted state (mset (map snd (lc_leases state)))" "hm_wf (lc_leases state)"
    "hm_get (lc_leases state) i = Some x \<Longrightarrow> \<exists>l. hm_get (lc_leaseObjects state) x = Some l \<and> lo_leaseId l = i"
    "hm_get (lc_leaseObjects state) x = Some l \<Longrightarrow> x < lc_nextAddress state"
    "hm_get (lc_controllerObjects state) a = Some c \<Longrightarrow> a < lc_nextAddress state"
  using assms unfolding client_ok_def by blast+

lemma client_okI:
  assumes "counted state (mset (map snd (lc_leases state)))" "hm_wf (lc_leases state)"
    and "\<And>i x. hm_get (lc_leases state) i = Some x \<Longrightarrow> \<exists>l. hm_get (lc_leaseObjects state) x = Some l \<and> lo_leaseId l = i"
    and "\<And>x l. hm_get (lc_leaseObjects state) x = Some l \<Longrightarrow> x < lc_nextAddress state"
    and "\<And>a c. hm_get (lc_controllerObjects state) a = Some c \<Longrightarrow> a < lc_nextAddress state"
  shows "client_ok state"
  using assms unfolding client_ok_def by blast

lemma client_ok_new: "client_ok ClientState_new"
  by (simp add: client_ok_def ClientState_new_def counted_def)

lemma mset_hm_remove:
  assumes "hm_wf m" and "hm_get m k = Some v"
  shows "mset (map snd m) = add_mset v (mset (map snd (hm_remove k m)))"
  using assms unfolding hm_wf_def hm_get_def hm_remove_def
proof (induction m)
  case (Cons e m)
  show ?case
  proof (cases "fst e = k")
    case True
    then have "k \<notin> fst ` set m" using Cons.prems(1) by simp
    then have "filter (\<lambda>e. fst e \<noteq> k) m = m" by (intro filter_True) force
    then show ?thesis using True Cons.prems by auto
  qed (use Cons in auto)
qed simp

lemma mset_hm_insert_new:
  assumes "hm_get m k = None"
  shows "mset (map snd (hm_insert k v m)) = add_mset v (mset (map snd m))"
  using assms unfolding hm_get_def hm_insert_def by (induction m) (auto split: if_splits)

text \<open>The operations that leave the tables alone keep the invariant.\<close>

lemma client_ok_modifyLease:
  assumes ok: "client_ok state" and f: "\<And>l. lo_accountId (f l) = lo_accountId l \<and> lo_controller (f l) = lo_controller l" "\<And>l. lo_leaseId (f l) = lo_leaseId l"
  shows "client_ok (modifyLease b f state)"
proof (rule client_okI)
  have get: "hm_get (lc_leaseObjects (modifyLease b f state)) x = map_option (\<lambda>l. if x = b then f l else l) (hm_get (lc_leaseObjects state) x)" for x
    by (cases "hm_get (lc_leaseObjects state) x") (auto simp: modifyLease_def hm_get_modify)
  have same: "lc_leases (modifyLease b f state) = lc_leases state" "lc_nextAddress (modifyLease b f state) = lc_nextAddress state"
    "lc_controllerObjects (modifyLease b f state) = lc_controllerObjects state" by (simp_all add: modifyLease_def)
  show "counted (modifyLease b f state) (mset (map snd (lc_leases (modifyLease b f state))))"
    unfolding same using client_okD(1) [OF ok] by (intro counted_modifyLease f)
  show "\<exists>l. hm_get (lc_leaseObjects (modifyLease b f state)) x = Some l \<and> lo_leaseId l = i" if "hm_get (lc_leases (modifyLease b f state)) i = Some x" for i x
    using client_okD(3) [OF ok, of i x] that f(2) by (auto simp: same get)
  show "x < lc_nextAddress (modifyLease b f state)" if "hm_get (lc_leaseObjects (modifyLease b f state)) x = Some l" for x l
    using client_okD(4) [OF ok, of x] that by (auto simp: same get)
qed (use client_okD(2,5) [OF ok] in \<open>auto simp: modifyLease_def\<close>)

lemma client_ok_modifyController:
  assumes ok: "client_ok state" and f: "\<And>c. ct_activeLeases (f c) = ct_activeLeases c"
  shows "client_ok (modifyController b f state)"
proof (rule client_okI)
  have get: "hm_get (lc_controllerObjects (modifyController b f state)) x = map_option (\<lambda>c. if x = b then f c else c) (hm_get (lc_controllerObjects state) x)" for x
    by (cases "hm_get (lc_controllerObjects state) x") (auto simp: modifyController_def hm_get_modify)
  have same: "lc_leases (modifyController b f state) = lc_leases state" "lc_nextAddress (modifyController b f state) = lc_nextAddress state"
    "lc_leaseObjects (modifyController b f state) = lc_leaseObjects state" by (simp_all add: modifyController_def)
  show "counted (modifyController b f state) (mset (map snd (lc_leases (modifyController b f state))))"
    unfolding same using client_okD(1) [OF ok] by (intro counted_modifyController f)
  show "x < lc_nextAddress (modifyController b f state)" if "hm_get (lc_controllerObjects (modifyController b f state)) x = Some c" for x c
    using client_okD(5) [OF ok, of x] that by (auto simp: same get)
qed (use client_okD(2,3,4) [OF ok] in \<open>auto simp: modifyController_def\<close>)

text \<open>Dropping a lease from the table and releasing its controller.\<close>

lemma counted_dropLease: "counted state (add_mset x live) \<Longrightarrow> counted (dropLease x state) live"
proof -
  assume c: "counted state (add_mset x live)"
  then obtain l where l: "hm_get (lc_leaseObjects state) x = Some l" using countedD(1) [OF c, of x] by (auto simp: lease_key_def)
  have "counted (modifyLease x (\<lambda>l. l\<lparr>lo_revoked := True\<rparr>) state) (add_mset x live)" by (rule counted_modifyLease [OF c]) simp
  moreover have "lease_key (modifyLease x (\<lambda>l. l\<lparr>lo_revoked := True\<rparr>) state) x = Some (lo_accountId l, lo_controller l)"
    using l by (simp add: lease_key_def modifyLease_def hm_get_modify)
  ultimately show ?thesis using l counted_release by (simp add: dropLease_def)
qed

lemma counted_fold_dropLease: "counted state (mset xs + live) \<Longrightarrow> counted (fold dropLease xs state) live"
  by (induction xs arbitrary: state) (auto intro: counted_dropLease)

lemma releaseController_frame:
  "lc_leases (releaseController l state) = lc_leases state" "lc_leaseObjects (releaseController l state) = lc_leaseObjects state"
  "lc_nextAddress (releaseController l state) = lc_nextAddress state"
  "hm_get (lc_controllerObjects (releaseController l state)) a = None \<longleftrightarrow> hm_get (lc_controllerObjects state) a = None"
  by (simp_all add: releaseController_def Let_def modifyController_def hm_get_modify)

lemma dropLease_frame:
  "lc_leases (dropLease x state) = lc_leases state" "lc_nextAddress (dropLease x state) = lc_nextAddress state"
  "hm_get (lc_leaseObjects (dropLease x state)) y = None \<longleftrightarrow> hm_get (lc_leaseObjects state) y = None"
  "hm_get (lc_controllerObjects (dropLease x state)) a = None \<longleftrightarrow> hm_get (lc_controllerObjects state) a = None"
  by (auto simp: dropLease_def releaseController_frame modifyLease_def hm_get_modify split: option.split)

lemma fold_dropLease_frame:
  "lc_leases (fold dropLease xs state) = lc_leases state" "lc_nextAddress (fold dropLease xs state) = lc_nextAddress state"
  "hm_get (lc_leaseObjects (fold dropLease xs state)) y = None \<longleftrightarrow> hm_get (lc_leaseObjects state) y = None"
  "hm_get (lc_controllerObjects (fold dropLease xs state)) a = None \<longleftrightarrow> hm_get (lc_controllerObjects state) a = None"
  by (induction xs arbitrary: state) (simp_all add: dropLease_frame)

lemma adoptServiceInstance_ok:
  assumes ok: "client_ok state"
  shows "client_ok (adoptServiceInstance i state)"
proof -
  let ?named = "state\<lparr>lc_serviceInstanceId := Some i\<rparr>"
  have named: "client_ok ?named" using ok by (simp add: client_ok_def counted_def lease_key_def)
  define t where "t = fold dropLease (map snd (lc_leases ?named)) (?named\<lparr>lc_leases := []\<rparr>)"
  have "counted (?named\<lparr>lc_leases := []\<rparr>) (mset (map snd (lc_leases ?named)) + {#})"
    using client_okD(1) [OF named] by (simp add: counted_def lease_key_def)
  then have "counted t {#}" unfolding t_def by (rule counted_fold_dropLease)
  moreover have "lc_leases t = []" "lc_nextAddress t = lc_nextAddress state" by (simp_all add: t_def fold_dropLease_frame)
  moreover have "x < lc_nextAddress state" if "hm_get (lc_leaseObjects t) x = Some l" for x l
    using that fold_dropLease_frame(3) [of "map snd (lc_leases ?named)" "?named\<lparr>lc_leases := []\<rparr>" x] client_okD(4) [OF ok, of x]
    by (cases "hm_get (lc_leaseObjects state) x") (auto simp: t_def)
  moreover have "a < lc_nextAddress state" if "hm_get (lc_controllerObjects t) a = Some c" for a c
    using that fold_dropLease_frame(4) [of "map snd (lc_leases ?named)" "?named\<lparr>lc_leases := []\<rparr>" a] client_okD(5) [OF ok, of a]
    by (cases "hm_get (lc_controllerObjects state) a") (auto simp: t_def)
  ultimately have "client_ok t" by (intro client_okI) simp_all
  then show ?thesis using named by (simp add: adoptServiceInstance_def Let_def t_def)
qed

lemma acquire_spec:
  assumes ok: "client_ok state" and run: "acquireController now response state = (a, s1)"
  defines "acc \<equiv> lg_accountId response" and "live \<equiv> mset (map snd (lc_leases state))"
  shows "hm_get (lc_controllers s1) = (hm_get (lc_controllers state))(acc \<mapsto> a)"
    and "\<exists>c. hm_get (lc_controllerObjects s1) a = Some c \<and> ct_activeLeases c = size {#x \<in># live. lease_key state x = Some (acc, a)#} + 1"
    and "b \<noteq> a \<Longrightarrow> hm_get (lc_controllerObjects s1) b = hm_get (lc_controllerObjects state) b"
    and "lc_leases s1 = lc_leases state" and "lc_leaseObjects s1 = lc_leaseObjects state"
    and "lc_nextAddress state \<le> lc_nextAddress s1" and "a < lc_nextAddress s1"
    and "acc' \<noteq> acc \<Longrightarrow> hm_get (lc_controllers state) acc' \<noteq> Some a"
    and "hm_get (lc_controllers state) acc = None \<or> hm_get (lc_controllers state) acc = Some a"
proof -
  have counted: "counted state live" using client_okD(1) [OF ok] by (simp add: live_def)
  consider (old) b where "hm_get (lc_controllers state) acc = Some b" | (new) "hm_get (lc_controllers state) acc = None" by fastforce
  then have "hm_get (lc_controllers s1) = (hm_get (lc_controllers state))(acc \<mapsto> a)
    \<and> (\<exists>c. hm_get (lc_controllerObjects s1) a = Some c \<and> ct_activeLeases c = size {#x \<in># live. lease_key state x = Some (acc, a)#} + 1)
    \<and> (\<forall>b. b \<noteq> a \<longrightarrow> hm_get (lc_controllerObjects s1) b = hm_get (lc_controllerObjects state) b)
    \<and> lc_leases s1 = lc_leases state \<and> lc_leaseObjects s1 = lc_leaseObjects state
    \<and> lc_nextAddress state \<le> lc_nextAddress s1 \<and> a < lc_nextAddress s1
    \<and> (\<forall>acc'. acc' \<noteq> acc \<longrightarrow> hm_get (lc_controllers state) acc' \<noteq> Some a)
    \<and> (hm_get (lc_controllers state) acc = None \<or> hm_get (lc_controllers state) acc = Some a)"
  proof cases
    case (old b)
    then have b: "a = b" and s1: "s1 = modifyController b (\<lambda>c. c\<lparr>ct_activeLeases := ct_activeLeases c + 1\<rparr>) state"
      using run by (auto simp: acquireController_def acc_def)
    obtain c where c: "hm_get (lc_controllerObjects state) b = Some c" "ct_activeLeases c = size {#x \<in># live. lease_key state x = Some (acc, b)#}"
      using countedD(2) [OF counted old] by blast
    have unique: "\<forall>acc'. acc' \<noteq> acc \<longrightarrow> hm_get (lc_controllers state) acc' \<noteq> Some b" using countedD(3) [OF counted _ old] by blast
    have "(hm_get (lc_controllers state))(acc \<mapsto> b) = hm_get (lc_controllers state)" using old by (simp add: fun_upd_idem)
    then show ?thesis using unique old c client_okD(5) [OF ok c(1)] by (simp add: b s1 modifyController_def hm_get_modify)
  next
    case new
    let ?a = "lc_nextAddress state"
    have a: "a = ?a" and s1: "s1 = modifyController ?a (\<lambda>c. c\<lparr>ct_activeLeases := ct_activeLeases c + 1\<rparr>)
        (state\<lparr>lc_controllers := hm_insert acc ?a (lc_controllers state),
               lc_controllerObjects := hm_insert ?a (AccountTrafficController_new now response) (lc_controllerObjects state),
               lc_nextAddress := ?a + 1\<rparr>)"
      using run new by (auto simp: acquireController_def acc_def)
    have "lease_key state x \<noteq> Some (acc, ?a)" if "x \<in># live" for x using countedD(1) [OF counted that] new by auto
    then have "{#x \<in># live. lease_key state x = Some (acc, ?a)#} = {#}"
      using filter_mset_cong [OF refl, of live "\<lambda>x. lease_key state x = Some (acc, ?a)" "\<lambda>_. False"] by simp
    moreover have "hm_get (lc_controllers state) acc' \<noteq> Some ?a" for acc'
      using countedD(2) [OF counted, of acc' ?a] client_okD(5) [OF ok, of ?a] by auto
    ultimately show ?thesis using new
      by (simp add: a s1 modifyController_def hm_get_modify hm_get_insert AccountTrafficController_new_def)
  qed
  then show "hm_get (lc_controllers s1) = (hm_get (lc_controllers state))(acc \<mapsto> a)"
    and "\<exists>c. hm_get (lc_controllerObjects s1) a = Some c \<and> ct_activeLeases c = size {#x \<in># live. lease_key state x = Some (acc, a)#} + 1"
    and "b \<noteq> a \<Longrightarrow> hm_get (lc_controllerObjects s1) b = hm_get (lc_controllerObjects state) b"
    and "lc_leases s1 = lc_leases state" and "lc_leaseObjects s1 = lc_leaseObjects state"
    and "lc_nextAddress state \<le> lc_nextAddress s1" and "a < lc_nextAddress s1"
    and "acc' \<noteq> acc \<Longrightarrow> hm_get (lc_controllers state) acc' \<noteq> Some a"
    and "hm_get (lc_controllers state) acc = None \<or> hm_get (lc_controllers state) acc = Some a" by blast+
qed

lemma registerLease_ok:
  assumes ok: "client_ok state" and fresh: "hm_get (lc_leases state) (lg_leaseId response) = None"
  shows "client_ok (snd (registerLease now connectionId response state))"
proof -
  let ?acc = "lg_accountId response" and ?live = "mset (map snd (lc_leases state))"
  obtain a s1 where run: "acquireController now response state = (a, s1)" by fastforce
  note acq = acquire_spec [OF ok run]
  define f where "f = updateController now (lg_policyRevision response) (lg_maxUploadBytesPerSecond response) (lg_maxDownloadBytesPerSecond response)"
  have f: "ct_activeLeases (f c) = ct_activeLeases c" for c by (simp add: f_def)
  define x where "x = lc_nextAddress s1"
  define l where "l = \<lparr>lo_serviceInstanceId = lg_serviceInstanceId response, lo_accountId = ?acc,
                   lo_leaseId = lg_leaseId response, lo_connectionId = connectionId, lo_username = lg_username response,
                   lo_uploadedBytes = 0, lo_downloadedBytes = 0, lo_controller = a, lo_revoked = False, lo_finalPending = False\<rparr>"
  let ?t = "snd (registerLease now connectionId response state)"
  have t: "lc_leases ?t = hm_insert (lg_leaseId response) x (lc_leases state)" "lc_leaseObjects ?t = hm_insert x l (lc_leaseObjects state)"
    "lc_nextAddress ?t = x + 1" "lc_controllers ?t = lc_controllers s1" "lc_controllerObjects ?t = hm_modify a f (lc_controllerObjects s1)"
    by (simp_all add: registerLease_def Let_def run modifyController_def acq(4,5) f_def [symmetric] x_def l_def)
  have x: "hm_get (lc_leaseObjects state) x = None"
    using client_okD(4) [OF ok, of x] acq(6) by (cases "hm_get (lc_leaseObjects state) x") (auto simp: x_def)
  have key: "lease_key ?t y = (if y = x then Some (?acc, a) else lease_key state y)" for y
    by (simp add: lease_key_def t hm_get_insert l_def)
  have old: "x \<notin># ?live" using countedD(1) [OF client_okD(1) [OF ok], of x] x by (auto simp: lease_key_def)
  have live: "mset (map snd (lc_leases ?t)) = add_mset x ?live" using mset_hm_insert_new [OF fresh] by (simp add: t)
  have count: "size {#y \<in># add_mset x ?live. lease_key ?t y = Some (acc, b)#} = (if acc = ?acc \<and> b = a then 1 else 0) + size {#y \<in># ?live. lease_key state y = Some (acc, b)#}" for acc b
  proof -
    have "{#y \<in># ?live. lease_key ?t y = Some (acc, b)#} = {#y \<in># ?live. lease_key state y = Some (acc, b)#}"
      using old by (intro filter_mset_cong) (auto simp: key)
    then show ?thesis by (auto simp: key)
  qed
  show ?thesis
  proof (rule client_okI)
    show "counted ?t (mset (map snd (lc_leases ?t)))"
      unfolding live
    proof (rule countedI; (unfold count t(4,5) acq(1))?)
      show "\<exists>acc b. lease_key ?t y = Some (acc, b) \<and> ((hm_get (lc_controllers state))(?acc \<mapsto> a)) acc = Some b" if "y \<in># add_mset x ?live" for y
      proof (cases "y = x")
        case False
        then obtain acc b where "lease_key state y = Some (acc, b)" "hm_get (lc_controllers state) acc = Some b"
          using countedD(1) [OF client_okD(1) [OF ok], of y] \<open>y \<in># add_mset x ?live\<close> by auto
        then show ?thesis using False acq(9) by (auto simp: key)
      qed (simp add: key)
      show "\<exists>c. hm_get (hm_modify a f (lc_controllerObjects s1)) b = Some c
          \<and> ct_activeLeases c = (if acc = ?acc \<and> b = a then 1 else 0) + size {#y \<in># ?live. lease_key state y = Some (acc, b)#}
          \<and> 0 < (if acc = ?acc \<and> b = a then 1 else 0) + size {#y \<in># ?live. lease_key state y = Some (acc, b)#}"
        if "((hm_get (lc_controllers state))(?acc \<mapsto> a)) acc = Some b" for acc b
      proof (cases "acc = ?acc")
        case True
        then show ?thesis using that acq(2) f by (auto simp: hm_get_modify)
      next
        case False
        then have get: "hm_get (lc_controllers state) acc = Some b" using that by simp
        moreover have "b \<noteq> a" using acq(8) [OF False] get by auto
        ultimately show ?thesis using countedD(2) [OF client_okD(1) [OF ok] get] acq(3) [of b] False by (simp add: hm_get_modify)
      qed
      show "acc = acc'" if "((hm_get (lc_controllers state))(?acc \<mapsto> a)) acc = Some b" "((hm_get (lc_controllers state))(?acc \<mapsto> a)) acc' = Some b" for acc acc' b
        using that acq(8) [of acc] acq(8) [of acc'] countedD(3) [OF client_okD(1) [OF ok], of acc b acc'] by (auto split: if_splits)
    qed
    show "hm_wf (lc_leases ?t)" using client_okD(2) [OF ok] by (simp add: t)
    show "\<exists>m. hm_get (lc_leaseObjects ?t) y = Some m \<and> lo_leaseId m = i" if "hm_get (lc_leases ?t) i = Some y" for i y
      using that client_okD(3) [OF ok, of i y] x by (auto simp: t hm_get_insert l_def split: if_splits)
    show "y < lc_nextAddress ?t" if "hm_get (lc_leaseObjects ?t) y = Some m" for y m
      using that client_okD(4) [OF ok, of y] acq(6) by (auto simp: t hm_get_insert x_def split: if_splits)
    show "b < lc_nextAddress ?t" if "hm_get (lc_controllerObjects ?t) b = Some c" for b c
      using that client_okD(5) [OF ok, of b] acq(3) [of b] acq(6,7) by (cases "b = a") (auto simp: t hm_get_modify x_def)
  qed
qed

lemma applyResult_ok:
  assumes ok: "client_ok state"
  shows "client_ok (applyResult now request result state)"
proof (cases "hm_get (lc_leases state) (rs_leaseId result)")
  case None
  then show ?thesis using ok by (simp add: applyResult_def)
next
  case (Some x)
  obtain l where l: "hm_get (lc_leaseObjects state) x = Some l" using client_okD(3) [OF ok Some] by blast
  define s1 where "s1 = modifyController (lo_controller l) (updateController now (rs_policyRevision result)
                              (rs_maxUploadBytesPerSecond result) (rs_maxDownloadBytesPerSecond result)) state"
  define s2 where "s2 = (if rs_revoked result then modifyLease x (\<lambda>l. l\<lparr>lo_revoked := True\<rparr>) s1 else s1)"
  have "client_ok s1" unfolding s1_def by (rule client_ok_modifyController [OF ok]) simp
  then have ok2: "client_ok s2" unfolding s2_def by (auto intro: client_ok_modifyLease)
  have same: "lc_leases s2 = lc_leases state" by (simp add: s2_def s1_def modifyLease_def modifyController_def)
  have key: "lease_key s2 x = Some (lo_accountId l, lo_controller l)"
    using l by (auto simp: s2_def s1_def lease_key_def modifyLease_def modifyController_def hm_get_modify)
  let ?s3 = "s2\<lparr>lc_leases := hm_remove (rs_leaseId result) (lc_leases s2)\<rparr>"
  have "client_ok (releaseController l ?s3)"
  proof (rule client_okI; (unfold releaseController_frame)?)
    have "counted ?s3 (mset (map snd (lc_leases s2)))"
      by (rule counted_cong [OF client_okD(1) [OF ok2]]) (simp_all add: lease_key_def)
    moreover have "mset (map snd (lc_leases s2)) = add_mset x (mset (map snd (lc_leases ?s3)))"
      using mset_hm_remove [OF client_okD(2) [OF ok2], of "rs_leaseId result" x] Some by (simp add: same)
    ultimately have "counted ?s3 (add_mset x (mset (map snd (lc_leases ?s3))))" by simp
    then show "counted (releaseController l ?s3) (mset (map snd (lc_leases ?s3)))"
      by (rule counted_release) (use key in \<open>simp add: lease_key_def\<close>)
    show "hm_wf (lc_leases ?s3)" using client_okD(2) [OF ok2] by simp
    show "\<exists>m. hm_get (lc_leaseObjects ?s3) y = Some m \<and> lo_leaseId m = i" if "hm_get (lc_leases ?s3) i = Some y" for i y
      using that client_okD(3) [OF ok2, of i y] by (auto simp: hm_get_remove split: if_splits)
    show "y < lc_nextAddress ?s3" if "hm_get (lc_leaseObjects ?s3) y = Some m" for y m
      using that client_okD(4) [OF ok2, of y] by simp
    show "a < lc_nextAddress ?s3" if "hm_get (lc_controllerObjects (releaseController l ?s3)) a = Some c" for a c
      using that client_okD(5) [OF ok2, of a] releaseController_frame(4) [of l ?s3 a] by (cases "hm_get (lc_controllerObjects s2) a") auto
  qed
  moreover have "applyResult now request result state =
      (if list_ex (\<lambda>p. pr_leaseId p = rs_leaseId result \<and> pr_final p) (rq_leases request) then releaseController l ?s3 else s2)"
    unfolding applyResult_def Let_def s2_def s1_def using Some l by simp
  ultimately show ?thesis using ok2 by simp
qed

lemma revokeBatch_ok: "client_ok state \<Longrightarrow> client_ok (revokeBatch request state)"
proof -
  let ?revoke = "\<lambda>progress state. case hm_get (lc_leases state) (pr_leaseId progress) of
        None \<Rightarrow> state | Some address \<Rightarrow> modifyLease address (\<lambda>l. l\<lparr>lo_revoked := True\<rparr>) state"
  have one: "client_ok (?revoke p s)" if "client_ok s" for p s
    using that client_ok_modifyLease [OF that, of "\<lambda>l. l\<lparr>lo_revoked := True\<rparr>"]
    by (cases "hm_get (lc_leases s) (pr_leaseId p)") simp_all
  have "client_ok (fold ?revoke ps s)" if "client_ok s" for ps s
    using that by (induction ps arbitrary: s) (simp_all add: one del: option.case)
  then show "client_ok state \<Longrightarrow> client_ok (revokeBatch request state)" by (simp add: revokeBatch_def)
qed

lemma synchronize_ok:
  assumes "client_ok state" and "synchronizeWithRetry deadline request attempts state = Some state'"
  shows "client_ok state'"
proof -
  have "client_ok (fold (applyResult now request) rs s)" if "client_ok s" for now rs s
    using that by (induction rs arbitrary: s) (simp_all add: applyResult_ok)
  then show ?thesis using assms
    by (induction deadline request attempts state rule: synchronizeWithRetry.induct)
      (auto simp: applySynchronizationResponse_def revokeBatch_ok split: sum.splits SynchronizationFailure.splits if_splits)
qed

lemma reserve_active [simp]: "ct_activeLeases (snd (reserveDirection now d n c)) = ct_activeLeases c"
  by (simp add: reserveDirection_def split: TrafficDirection.split prod.split)

lemma client_ok_putController:
  assumes ok: "client_ok state" and c: "hm_get (lc_controllerObjects state) a = Some c" "ct_activeLeases c' = ct_activeLeases c"
  shows "client_ok (state\<lparr>lc_controllerObjects := hm_insert a c' (lc_controllerObjects state)\<rparr>)"
proof (rule client_okI)
  let ?t = "state\<lparr>lc_controllerObjects := hm_insert a c' (lc_controllerObjects state)\<rparr>"
  have "counted ?t (mset (map snd (lc_leases state)))"
    by (rule counted_cong [OF client_okD(1) [OF ok]]) (use c in \<open>auto simp: lease_key_def hm_get_insert\<close>)
  then show "counted ?t (mset (map snd (lc_leases ?t)))" by simp
  show "b < lc_nextAddress ?t" if "hm_get (lc_controllerObjects ?t) b = Some d" for b d
    using that client_okD(5) [OF ok, of b] client_okD(5) [OF ok c(1)] by (auto simp: hm_get_insert split: if_splits)
qed (use client_okD(2-4) [OF ok] in auto)

lemma reserved_ok:
  assumes ok: "client_ok state"
  shows "client_ok (snd (acquireTraffic now cancelled x d n state))" and "client_ok (snd (reserveDelay now x d n state))"
proof -
  have "client_ok (state\<lparr>lc_controllerObjects := hm_insert a c' (lc_controllerObjects state)\<rparr>)"
    if "hm_get (lc_controllerObjects state) a = Some c" "reserveDirection now d n c = (t, c')" for a c t c'
    using client_ok_putController [OF ok that(1)] reserve_active [of now d n c] that(2) by simp
  then show "client_ok (snd (acquireTraffic now cancelled x d n state))" "client_ok (snd (reserveDelay now x d n state))"
    using ok by (simp_all add: acquireTraffic_def reserveDelay_def Let_def split: option.split prod.split)
qed

text \<open>
  Concurrent logins interleave between the adoption of a service instance and the registration of the
  lease, hence two steps. The service never issues a lease identifier twice.
\<close>

inductive client_step :: "ClientState \<Rightarrow> ClientState \<Rightarrow> bool" where
  step_adopt: "client_step s (adoptServiceInstance i s)"
| step_register: "hm_get (lc_leases s) (lg_leaseId response) = None \<Longrightarrow> client_step s (snd (registerLease now connectionId response s))"
| step_acquire: "client_step s (snd (acquireTraffic now cancelled x d n s))"
| step_delay: "client_step s (snd (reserveDelay now x d n s))"
| step_record: "client_step s (recordTraffic x d n s)"
| step_finish: "client_step s (finishLease x s)"
| step_synchronize: "synchronizeWithRetry deadline request attempts s = Some s' \<Longrightarrow> client_step s s'"

interpretation client: safe_system "\<lambda>s. s = ClientState_new" client_step client_ok
proof
  show "client_ok s" if "s = ClientState_new" for s using that client_ok_new by simp
  have traffic: "client_ok (recordTraffic x d n s)" "client_ok (finishLease x s)" if "client_ok s" for x d n s
    using client_ok_modifyLease [OF that] by (simp_all add: recordTraffic_def finishLease_def split: TrafficDirection.split)
  show "client_ok t" if "client_ok s" "client_step s t" for s t
    using that(2,1) by (cases rule: client_step.cases)
      (simp_all add: adoptServiceInstance_ok registerLease_ok reserved_ok synchronize_ok traffic)
qed

abbreviation reachable_client :: "ClientState \<Rightarrow> bool" where
  "reachable_client \<equiv> reach (\<lambda>s. s = ClientState_new) client_step"

definition account_leases :: "str \<Rightarrow> ClientState \<Rightarrow> str set" where
  "account_leases acc state = {i. \<exists>x l. hm_get (lc_leases state) i = Some x \<and> hm_get (lc_leaseObjects state) x = Some l \<and> lo_accountId l = acc}"

lemma size_filter_mset_map: "size {#x \<in># mset (map f xs). P x#} = length (filter (\<lambda>e. P (f e)) xs)"
  by (induction xs) auto

text \<open>The number of counted leases of an account is the number of its entries in the table.\<close>

lemma counted_leases:
  assumes ok: "client_ok state" and a: "hm_get (lc_controllers state) acc = Some a"
  shows "size {#x \<in># mset (map snd (lc_leases state)). lease_key state x = Some (acc, a)#} = card (account_leases acc state)"
proof -
  let ?P = "\<lambda>e. lease_key state (snd e) = Some (acc, a)"
  have set: "(i, x) \<in> set (lc_leases state) \<longleftrightarrow> hm_get (lc_leases state) i = Some x" for i x
    using hm_in_set [OF client_okD(2) [OF ok]] .
  have "size {#x \<in># mset (map snd (lc_leases state)). lease_key state x = Some (acc, a)#} = length (filter ?P (lc_leases state))"
    by (rule size_filter_mset_map)
  also have "\<dots> = card (fst ` set (filter ?P (lc_leases state)))"
    using hm_wf_filter [OF client_okD(2) [OF ok], of ?P] distinct_card [of "map fst (filter ?P (lc_leases state))"] by (simp add: hm_wf_def)
  also have "fst ` set (filter ?P (lc_leases state)) = account_leases acc state"
  proof (intro set_eqI iffI)
    fix i assume "i \<in> fst ` set (filter ?P (lc_leases state))"
    then show "i \<in> account_leases acc state" by (auto simp: set account_leases_def lease_key_def)
  next
    fix i assume "i \<in> account_leases acc state"
    then obtain x l where x: "hm_get (lc_leases state) i = Some x" "hm_get (lc_leaseObjects state) x = Some l" "lo_accountId l = acc"
      by (auto simp: account_leases_def)
    moreover have "x \<in># mset (map snd (lc_leases state))" using hm_get_Some_in_set [OF x(1)] by force
    ultimately have "lease_key state x = Some (acc, a)" using countedD(1) [OF client_okD(1) [OF ok], of x] a by (auto simp: lease_key_def)
    then show "i \<in> fst ` set (filter ?P (lc_leases state))" using hm_get_Some_in_set [OF x(1)] by force
  qed
  finally show ?thesis .
qed

text \<open>
  C7: all connections of an account share one rate controller. In every reachable state between operations, after
  any interleaving of logins, service restarts, reservations and synchronisations, the controller of a
  lease is the one registered for its account; different accounts have different controllers; the
  reference count is the number of leases of the account; and an account has a controller exactly while
  it has a lease, so that a reconnect next to a live connection cannot reset the limit.
\<close>

theorem account_controllers_shared:
  assumes "reachable_client state"
  shows "(\<forall>i x l. hm_get (lc_leases state) i = Some x \<and> hm_get (lc_leaseObjects state) x = Some l
        \<longrightarrow> hm_get (lc_controllers state) (lo_accountId l) = Some (lo_controller l))
    \<and> (\<forall>acc acc' a. hm_get (lc_controllers state) acc = Some a \<and> hm_get (lc_controllers state) acc' = Some a \<longrightarrow> acc = acc')
    \<and> (\<forall>acc a. hm_get (lc_controllers state) acc = Some a \<longrightarrow>
        (\<exists>c. hm_get (lc_controllerObjects state) a = Some c \<and> ct_activeLeases c = card (account_leases acc state)))
    \<and> (\<forall>acc. hm_get (lc_controllers state) acc \<noteq> None \<longleftrightarrow> account_leases acc state \<noteq> {})"
proof -
  have ok: "client_ok state" using assms by (rule client.reach_inv)
  note counted = client_okD(1) [OF ok]
  have lease: "hm_get (lc_controllers state) (lo_accountId l) = Some (lo_controller l)"
    if "hm_get (lc_leases state) i = Some x" "hm_get (lc_leaseObjects state) x = Some l" for i x l
  proof -
    have "x \<in># mset (map snd (lc_leases state))" using hm_get_Some_in_set [OF that(1)] by force
    then show ?thesis using countedD(1) [OF counted, of x] that(2) by (auto simp: lease_key_def)
  qed
  have count: "\<exists>c. hm_get (lc_controllerObjects state) a = Some c \<and> ct_activeLeases c = card (account_leases acc state)
      \<and> 0 < card (account_leases acc state)" if "hm_get (lc_controllers state) acc = Some a" for acc a
    using countedD(2) [OF counted that] unfolding counted_leases [OF ok that] .
  have "hm_get (lc_controllers state) acc \<noteq> None \<longleftrightarrow> account_leases acc state \<noteq> {}" for acc
  proof
    assume "hm_get (lc_controllers state) acc \<noteq> None"
    then obtain a where "hm_get (lc_controllers state) acc = Some a" by blast
    from count [OF this] show "account_leases acc state \<noteq> {}" by auto
  next
    assume "account_leases acc state \<noteq> {}"
    then show "hm_get (lc_controllers state) acc \<noteq> None" using lease by (auto simp: account_leases_def)
  qed
  then show ?thesis using lease count countedD(3) [OF counted] by blast
qed

text \<open>Two logins of one account, the first of which has ended and been confirmed.\<close>

definition sampleResponse :: "string \<Rightarrow> string \<Rightarrow> LeaseAuthenticationResponse" where
  "sampleResponse instance lease = \<lparr>lg_serviceInstanceId = lit instance, lg_accountId = lit ''A'', lg_leaseId = lit lease, lg_username = lit ''u'',
     lg_policyRevision = 1, lg_maxUploadBytesPerSecond = 1000, lg_maxDownloadBytesPerSecond = -1\<rparr>"

definition sampleClient :: ClientState where
  "sampleClient = snd (registerLease 5 (lit ''c2'') (sampleResponse ''S'' ''2'') (snd (registerLease 3 (lit ''c1'') (sampleResponse ''S'' ''1'') ClientState_new)))"

theorem account_controllers_shared_witness:
  "\<exists>c. hm_get (lc_controllerObjects sampleClient) 0 = Some c \<and> ct_activeLeases c = card (account_leases (lit ''A'') sampleClient)"
proof -
  let ?s1 = "snd (registerLease 3 (lit ''c1'') (sampleResponse ''S'' ''1'') ClientState_new)"
  have "reachable_client ClientState_new" by (rule reach_init) simp
  then have "reachable_client ?s1" by (rule reach_step, intro step_register) (simp add: ClientState_new_def)
  then have "reachable_client sampleClient" unfolding sampleClient_def by (rule reach_step, intro step_register) code_simp
  moreover have "hm_get (lc_controllers sampleClient) (lit ''A'') = Some 0" by code_simp
  ultimately show ?thesis using account_controllers_shared [of sampleClient] by blast
qed

text \<open>
  Two logins that straddle a restart of the service: the first has adopted the old instance when the second
  adopts the new one and registers its lease; the first then registers too. The table now holds leases
  of both instances, and the next batch names only one of them.
\<close>

lemma logins_across_restart_mix_instances:
  "\<exists>state. reachable_client state \<and> map lo_serviceInstanceId (tableLeases state) = [lit ''new'', lit ''old'']"
proof -
  let ?s2 = "adoptServiceInstance (lit ''new'') (adoptServiceInstance (lit ''old'') ClientState_new)"
  let ?s3 = "snd (registerLease 3 (lit ''c1'') (sampleResponse ''new'' ''1'') ?s2)"
  let ?s4 = "snd (registerLease 4 (lit ''c2'') (sampleResponse ''old'' ''2'') ?s3)"
  have "reachable_client (adoptServiceInstance (lit ''old'') ClientState_new)" by (rule reach_step [rotated], rule step_adopt, rule reach_init) simp
  then have "reachable_client ?s2" by (rule reach_step) (rule step_adopt)
  then have "reachable_client ?s3" by (rule reach_step, intro step_register) code_simp
  then have "reachable_client ?s4" by (rule reach_step, intro step_register) code_simp
  moreover have "map lo_serviceInstanceId (tableLeases ?s4) = [lit ''new'', lit ''old'']" by code_simp
  ultimately show ?thesis by (intro exI [of _ ?s4] conjI)
qed

section \<open>The metered stream\<close>

definition unread :: "AccountTrafficStream \<Rightarrow> bytes" where
  "unread stream = drop (as_pendingReadOffset stream) (as_pendingRead stream)"

text \<open>
  What a read hands out is the next part of the buffered bytes, or of the bytes just read, and is recorded
  as traffic; while the timer runs nothing is handed out. Nothing is lost or reordered.
\<close>

lemma deliverRead_exact:
  assumes "deliverRead now remaining stream state = (r, stream', state')"
  shows "(timerPending now (as_readDelay stream) \<and> r = Pending \<and> stream' = stream \<and> state' = state)
    \<or> (\<not> timerPending now (as_readDelay stream) \<and> (\<exists>out. r = Ready (Inr out) \<and> unread stream = out @ unread stream' \<and> length out \<le> remaining
         \<and> state' = recordTraffic (as_lease stream) (as_readDirection stream) (length out) state))"
proof (cases "timerPending now (as_readDelay stream)")
  case True
  then show ?thesis using assms by (simp add: deliverRead_def)
next
  case False
  define n where "n = min (length (as_pendingRead stream) - as_pendingReadOffset stream) remaining"
  have r: "r = Ready (Inr (take n (unread stream)))" and s: "stream' = stream\<lparr>as_readDelay := None, as_pendingReadOffset := as_pendingReadOffset stream + n\<rparr>"
    and st: "state' = recordTraffic (as_lease stream) (as_readDirection stream) n state"
    using assms False by (simp_all add: deliverRead_def Let_def n_def [symmetric] subslice_def unread_def)
  have "unread stream' = drop n (unread stream)" by (simp add: s unread_def add.commute)
  moreover have "length (take n (unread stream)) = n" by (simp add: unread_def n_def)
  moreover have "n \<le> remaining" by (simp add: n_def)
  ultimately show ?thesis using False r st append_take_drop_id [of n "unread stream"] by metis
qed

lemma poll_read_exact:
  fixes inner :: "nat \<Rightarrow> ('e, bytes) poll"
  assumes "poll_read now remaining inner stream state = (Ready (Inr out), stream', state')"
  shows "\<exists>fetched. (fetched = [] \<or> unread stream = [] \<and> inner (min remaining (64 * 1024)) = Ready (Inr fetched))
    \<and> unread stream @ fetched = out @ unread stream' \<and> length out \<le> remaining"
proof (cases "length (as_pendingRead stream) \<le> as_pendingReadOffset stream")
  case False
  then have "deliverRead now remaining stream state = (Ready (Inr out) :: ('e, bytes) poll, stream', state')" using assms by (simp add: poll_read_def)
  from deliverRead_exact [OF this] show ?thesis by auto
next
  case True
  then have none: "unread stream = []" by (simp add: unread_def)
  show ?thesis
  proof (cases "out = [] \<and> stream' = stream")
    case True
    then show ?thesis using none by simp
  next
    case False
    then obtain fetched delay state1 where f: "inner (min remaining (64 * 1024)) = Ready (Inr fetched)"
      and run: "deliverRead now remaining (stream\<lparr>as_pendingRead := fetched, as_pendingReadOffset := 0, as_readDelay := delayTimer now delay\<rparr>) state1
        = (Ready (Inr out) :: ('e, bytes) poll, stream', state')"
      using assms True unfolding poll_read_def Let_def by (auto split: if_splits poll.splits sum.splits prod.splits)
    from deliverRead_exact [OF run] have "fetched = out @ unread stream'" "length out \<le> remaining" by (auto simp: unread_def)
    then show ?thesis using none f by auto
  qed
qed

end
