(* ===== verification/RelayProperties.thy ===== *)
theory RelayProperties
  imports Relay SessionProperties LeaseClientProperties
begin

text \<open>
  The relays: what the TCP pump writes to the peer is what it bills and records, and the UDP association
  talks to nobody but the client that opened it and the targets that this client addressed.
\<close>

section \<open>The TCP pump\<close>

definition add_chunk :: "bytes \<Rightarrow> u64 \<Rightarrow> u64" where
  "add_chunk bs n = saturating_add n (of_nat (length bs))"

definition session_bytes :: "TrafficDirection \<Rightarrow> SessionSnapshot \<Rightarrow> u64" where
  "session_bytes d s = (case d of TrafficDirection.Up \<Rightarrow> ss_bytesUp s | TrafficDirection.Down \<Rightarrow> ss_bytesDown s)"

definition lease_bytes :: "TrafficDirection \<Rightarrow> LeaseObject \<Rightarrow> u64" where
  "lease_bytes d l = (case d of TrafficDirection.Up \<Rightarrow> lo_uploadedBytes l | TrafficDirection.Down \<Rightarrow> lo_downloadedBytes l)"

lemma add_chunk_Nil [simp]: "add_chunk [] n = n"
proof -
  have "unat n < 2 ^ 64" using unsigned_less [of n] by simp
  then show ?thesis by (simp add: add_chunk_def saturating_add_def)
qed

lemma addModifiedTraffic_counter:
  assumes run: "addModifiedTraffic now traffic reg = Ok reg'" and s: "hm_get (rg_sessions reg) (tr_sessionId traffic) = Some s"
  shows "\<exists>s'. hm_get (rg_sessions reg') (tr_sessionId traffic) = Some s'
    \<and> session_bytes (tr_direction traffic) s' = add_chunk (tr_payload traffic) (session_bytes (tr_direction traffic) s)"
proof (cases "tr_payload traffic = []")
  case True
  then show ?thesis using run s by (simp add: addModifiedTraffic_def)
next
  case False
  then obtain cell where cell: "hm_get (rg_cells reg) (ss_cell s) = Some cell"
    using run s unfolding addModifiedTraffic_def Let_def by (cases "hm_get (rg_cells reg) (ss_cell s)") auto
  show ?thesis
    using run False s cell unfolding addModifiedTraffic_def Let_def
    by (cases "tr_direction traffic") (auto simp: and_then_Ok_iff publish_def hm_get_insert session_bytes_def add_chunk_def)
qed

lemma addModifiedTraffic_total:
  assumes ok: "registry_ok reg"
  obtains reg' where "addModifiedTraffic now traffic reg = Ok reg'" "registry_ok reg'"
proof -
  have "\<exists>reg'. addModifiedTraffic now traffic reg = Ok reg'"
  proof (cases "tr_payload traffic = [] \<or> hm_get (rg_sessions reg) (tr_sessionId traffic) = None")
    case True
    then show ?thesis unfolding addModifiedTraffic_def Let_def by auto
  next
    case False
    then obtain s where "hm_get (rg_sessions reg) (tr_sessionId traffic) = Some s" "tr_payload traffic \<noteq> []" by auto
    from addModifiedTraffic_spec [OF ok this, of now] show ?thesis by metis
  qed
  then show ?thesis using that addModifiedTraffic_ok [OF ok] by blast
qed

lemma acquireLease_leases: "lc_leaseObjects (snd (acquireLease now c lease d n client)) = lc_leaseObjects client"
  by (auto simp: acquireLease_def acquireTraffic_def Let_def split: option.split prod.split)

lemma recordLease_counter:
  assumes "hm_get (lc_leaseObjects client) x = Some l"
  shows "\<exists>l'. hm_get (lc_leaseObjects (recordLease (Some x) d (length bs) client)) x = Some l' \<and> lease_bytes d l' = add_chunk bs (lease_bytes d l)"
  using assms by (cases d) (auto simp: recordLease_def recordTraffic_def modifyLease_def hm_get_modify lease_bytes_def add_chunk_def)

text \<open>The three ledgers of a pump: the total, the counter of the lease and the counter of the session.\<close>

definition ledgers_advance :: "'c PumpContext \<Rightarrow> bytes list \<Rightarrow> 'h PumpState \<Rightarrow> 'h PumpState \<Rightarrow> bool" where
  "ledgers_advance context chunks state state' \<longleftrightarrow>
     pp_written state' = pp_written state @ concat chunks
     \<and> pp_totalBytes state' = fold add_chunk chunks (pp_totalBytes state)
     \<and> (\<forall>x l. px_lease context = Some x \<and> hm_get (lc_leaseObjects (pp_client state)) x = Some l \<longrightarrow>
          (\<exists>l'. hm_get (lc_leaseObjects (pp_client state')) x = Some l'
             \<and> lease_bytes (px_direction context) l' = fold add_chunk chunks (lease_bytes (px_direction context) l)))
     \<and> (\<forall>s. hm_get (rg_sessions (pp_registry state)) (px_sessionId context) = Some s \<longrightarrow>
          (\<exists>s'. hm_get (rg_sessions (pp_registry state')) (px_sessionId context) = Some s'
             \<and> session_bytes (px_direction context) s' = fold add_chunk chunks (session_bytes (px_direction context) s)))"

lemma ledgers_trans:
  assumes "ledgers_advance context cs s1 s2" and "ledgers_advance context ds s2 s3"
  shows "ledgers_advance context (cs @ ds) s1 s3"
  unfolding ledgers_advance_def
proof (intro conjI allI impI)
  show "pp_written s3 = pp_written s1 @ concat (cs @ ds)" "pp_totalBytes s3 = fold add_chunk (cs @ ds) (pp_totalBytes s1)"
    using assms by (simp_all add: ledgers_advance_def)
  fix x l assume "px_lease context = Some x \<and> hm_get (lc_leaseObjects (pp_client s1)) x = Some l"
  then obtain l2 where "px_lease context = Some x \<and> hm_get (lc_leaseObjects (pp_client s2)) x = Some l2"
    and l2: "lease_bytes (px_direction context) l2 = fold add_chunk cs (lease_bytes (px_direction context) l)"
    using assms(1) unfolding ledgers_advance_def by blast
  then obtain l3 where "hm_get (lc_leaseObjects (pp_client s3)) x = Some l3"
    "lease_bytes (px_direction context) l3 = fold add_chunk ds (lease_bytes (px_direction context) l2)"
    using assms(2) unfolding ledgers_advance_def by blast
  then show "\<exists>l'. hm_get (lc_leaseObjects (pp_client s3)) x = Some l' \<and> lease_bytes (px_direction context) l' = fold add_chunk (cs @ ds) (lease_bytes (px_direction context) l)"
    using l2 by simp
next
  fix s assume "hm_get (rg_sessions (pp_registry s1)) (px_sessionId context) = Some s"
  then obtain t where "hm_get (rg_sessions (pp_registry s2)) (px_sessionId context) = Some t"
    and t: "session_bytes (px_direction context) t = fold add_chunk cs (session_bytes (px_direction context) s)"
    using assms(1) unfolding ledgers_advance_def by blast
  then obtain u where "hm_get (rg_sessions (pp_registry s3)) (px_sessionId context) = Some u"
    "session_bytes (px_direction context) u = fold add_chunk ds (session_bytes (px_direction context) t)"
    using assms(2) unfolding ledgers_advance_def by blast
  then show "\<exists>s'. hm_get (rg_sessions (pp_registry s3)) (px_sessionId context) = Some s' \<and> session_bytes (px_direction context) s' = fold add_chunk (cs @ ds) (session_bytes (px_direction context) s)"
    using t by simp
qed

lemma ledgers_refl [simp]: "ledgers_advance context [] s s" "ledgers_advance context [] s (s\<lparr>pp_host := h\<rparr>)"
  by (simp_all add: ledgers_advance_def)

lemma forwardChunk_ledgers:
  assumes ok: "registry_ok (pp_registry state)" and run: "forwardChunk context event original bs state = (r, state')"
  shows "registry_ok (pp_registry state') \<and> r \<noteq> Panic \<and> ledgers_advance context (if r = Ok () then [bs] else []) state state'
    \<and> (pp_failedWrite state' = pp_failedWrite state \<or> (\<exists>n kind. r = Err (Socks5Error.Io kind) \<and> pp_failedWrite state' = take n bs))"
proof -
  obtain granted client where acq: "acquireLease (pe_instant event) (pe_cancelled event) (px_lease context) (px_direction context) (length bs) (pp_client state) = (granted, client)"
    by fastforce
  have leases: "lc_leaseObjects client = lc_leaseObjects (pp_client state)" using acquireLease_leases acq by (metis snd_conv)
  have paid: "ledgers_advance context [] state (state\<lparr>pp_client := client\<rparr>)" by (simp add: ledgers_advance_def leases)
  show ?thesis
  proof (cases "granted \<and> pe_write event = None")
    case False
    then consider "state' = state\<lparr>pp_client := client\<rparr>" "r \<noteq> Panic" "r \<noteq> Ok ()"
      | n kind where "state' = state\<lparr>pp_client := client, pp_failedWrite := take n bs\<rparr>" "r = Err (Socks5Error.Io kind)"
      using run unfolding forwardChunk_def Let_def acq by (auto split: if_splits option.splits)
    then show ?thesis
    proof cases
      case 2
      then show ?thesis using ok paid by (auto simp: ledgers_advance_def)
    qed (use ok paid in simp)
  next
    case True
    let ?traffic = "\<lparr>tr_sessionId = px_sessionId context, tr_direction = px_direction context, tr_originalPayload = original, tr_payload = bs\<rparr>"
    let ?state = "state\<lparr>pp_client := client, pp_written := pp_written state @ bs, pp_client := recordLease (px_lease context) (px_direction context) (length bs) client,
      pp_totalBytes := saturating_add (pp_totalBytes state) (of_nat (length bs))\<rparr>"
    obtain reg where reg: "addModifiedTraffic (pe_now event) ?traffic (pp_registry state) = Ok reg" and "registry_ok reg"
      using addModifiedTraffic_total [OF ok] by blast
    have r: "r = Ok ()" "state' = ?state\<lparr>pp_registry := reg\<rparr>" using run True reg unfolding forwardChunk_def Let_def acq by simp_all
    note \<open>registry_ok reg\<close>
    moreover have "ledgers_advance context [bs] state state'"
      unfolding ledgers_advance_def r(2)
    proof (intro conjI allI impI)
      fix x l assume "px_lease context = Some x \<and> hm_get (lc_leaseObjects (pp_client state)) x = Some l"
      then show "\<exists>l'. hm_get (lc_leaseObjects (pp_client (?state\<lparr>pp_registry := reg\<rparr>))) x = Some l'
          \<and> lease_bytes (px_direction context) l' = fold add_chunk [bs] (lease_bytes (px_direction context) l)"
        using recordLease_counter [of client x l "px_direction context" bs] leases by simp
    next
      fix s assume "hm_get (rg_sessions (pp_registry state)) (px_sessionId context) = Some s"
      then show "\<exists>s'. hm_get (rg_sessions (pp_registry (?state\<lparr>pp_registry := reg\<rparr>))) (px_sessionId context) = Some s'
          \<and> session_bytes (px_direction context) s' = fold add_chunk [bs] (session_bytes (px_direction context) s)"
        using addModifiedTraffic_counter [OF reg, of s] by simp
    qed (simp_all add: add_chunk_def)
    ultimately show ?thesis using r by simp
  qed
qed

lemma forwardChunk_host: "forwardChunk context event original bs state = (r, state') \<Longrightarrow> pp_host state' = pp_host state"
  unfolding forwardChunk_def Let_def by (auto split: if_splits prod.splits option.splits outcome.splits)

text \<open>
  The reference of the pump: what the plugins forward, chunk by chunk, for the data that arrives before
  the stream ends or a plugin closes it.
\<close>

fun pluginOutput :: "('c, 'h) plugin_host \<Rightarrow> 'c PumpContext \<Rightarrow> pump_event list \<Rightarrow> 'h \<Rightarrow> bytes list" where
  "pluginOutput host context [] h = []"
| "pluginOutput host context (event # events) h =
     (case pe_read event of
        ReadData bs \<Rightarrow>
          if bs = [] then []
          else (case ph_process host (px_plugin context) (px_hookDirection context) bs h of
                  (ActionForward output, h) \<Rightarrow> output # pluginOutput host context events h
                | (ActionClose, h) \<Rightarrow> []
                | (_, h) \<Rightarrow> pluginOutput host context events h)
      | _ \<Rightarrow> [])"

definition pump_correct ::
  "('c, 'h) plugin_host \<Rightarrow> 'c PumpContext \<Rightarrow> pump_event list \<Rightarrow> 'h PumpState \<Rightarrow> (Socks5Error, u64) outcome option \<Rightarrow> 'h PumpState \<Rightarrow> bool" where
  "pump_correct host context events state r state' \<longleftrightarrow>
     r \<noteq> Some Panic
     \<and> (\<exists>chunks rest. ledgers_advance context chunks state state'
          \<and> pluginOutput host context events (pp_host state) = chunks @ rest
          \<and> (r = None \<or> (\<exists>n. r = Some (Ok n)) \<longrightarrow> rest = [])
          \<and> (pp_failedWrite state' = pp_failedWrite state
              \<or> (\<exists>n kind bs more. r = Some (Err (Socks5Error.Io kind)) \<and> rest = bs # more \<and> pp_failedWrite state' = take n bs))
          \<and> (\<forall>n. r = Some (Ok n) \<longrightarrow> n = pp_totalBytes state'))"

lemma pump_correctI:
  assumes "ledgers_advance context chunks state state'" "pluginOutput host context events (pp_host state) = chunks @ rest" "r \<noteq> Some Panic"
    "r = None \<or> (\<exists>n. r = Some (Ok n)) \<Longrightarrow> rest = []"
    "pp_failedWrite state' = pp_failedWrite state
       \<or> (\<exists>n kind bs more. r = Some (Err (Socks5Error.Io kind)) \<and> rest = bs # more \<and> pp_failedWrite state' = take n bs)" "\<And>n. r = Some (Ok n) \<Longrightarrow> n = pp_totalBytes state'"
  shows "pump_correct host context events state r state'"
  unfolding pump_correct_def using assms by blast

lemma pump_correct_step:
  assumes "ledgers_advance context cs state s" "pp_failedWrite s = pp_failedWrite state" and "pump_correct host context events s r state'"
    and "pluginOutput host context (event # events) (pp_host state) = cs @ pluginOutput host context events (pp_host s)"
  shows "pump_correct host context (event # events) state r state'"
proof -
  from assms(3) obtain chunks rest where "r \<noteq> Some Panic" "ledgers_advance context chunks s state'"
    "pluginOutput host context events (pp_host s) = chunks @ rest" "r = None \<or> (\<exists>n. r = Some (Ok n)) \<longrightarrow> rest = []"
    "pp_failedWrite state' = pp_failedWrite s
       \<or> (\<exists>n kind bs more. r = Some (Err (Socks5Error.Io kind)) \<and> rest = bs # more \<and> pp_failedWrite state' = take n bs)"
    "\<forall>n. r = Some (Ok n) \<longrightarrow> n = pp_totalBytes state'"
    unfolding pump_correct_def by blast
  with assms(2,4) show ?thesis
    by (intro pump_correctI [OF ledgers_trans [OF assms(1)], where rest = rest]) auto
qed

lemma pumpStream_correct:
  assumes "registry_ok (pp_registry state)" and "pumpStream host context events state = (r, state')"
  shows "registry_ok (pp_registry state') \<and> pump_correct host context events state r state'"
  using assms
proof (induction events arbitrary: state)
  case Nil
  then have "state' = state" "r = None" by simp_all
  then show ?case using Nil.prems(1) by (auto intro: pump_correctI [OF ledgers_refl(1)])
next
  case (Cons event events)
  show ?case
  proof (cases "\<exists>bs. pe_read event = ReadData bs \<and> bs \<noteq> []")
    case False
    then have "state' = state \<and> r \<noteq> Some Panic \<and> (\<forall>n. r = Some (Ok n) \<longrightarrow> n = pp_totalBytes state)"
      "pluginOutput host context (event # events) (pp_host state) = []"
      using Cons.prems(2) by (auto split: read_result.splits if_splits option.splits)
    then show ?thesis using Cons.prems(1) by (auto intro: pump_correctI [OF ledgers_refl(1)])
  next
    case True
    then obtain original where read: "pe_read event = ReadData original" "original \<noteq> []" by blast
    obtain action h where act: "ph_process host (px_plugin context) (px_hookDirection context) original (pp_host state) = (action, h)"
      by fastforce
    let ?state = "state\<lparr>pp_host := h\<rparr>"
    have ok: "registry_ok (pp_registry ?state)" using Cons.prems(1) by simp
    have skip: ?thesis if "pumpStream host context events ?state = (r, state')"
      "pluginOutput host context (event # events) (pp_host state) = pluginOutput host context events h"
      using Cons.IH [OF ok that(1)] that(2) by (auto intro: pump_correct_step [OF ledgers_refl(2)])
    show ?thesis
    proof (cases action)
      case (ActionForward bs)
      obtain q s where step: "forwardChunk context event original bs ?state = (q, s)" by fastforce
      note f = forwardChunk_ledgers [OF ok step]
      have adv: "ledgers_advance context (if q = Ok () then [bs] else []) state s"
        using ledgers_trans [OF ledgers_refl(2)] f by fastforce
      have out: "pluginOutput host context (event # events) (pp_host state) = bs # pluginOutput host context events h"
        using read act ActionForward by simp
      show ?thesis
      proof (cases q)
        case (Ok u)
        then have "pumpStream host context events s = (r, state')" using Cons.prems(2) read act ActionForward step by simp
        then have "registry_ok (pp_registry state') \<and> pump_correct host context events s r state'" using Cons.IH f by blast
        then show ?thesis using pump_correct_step [OF adv, of host events r state' event] Ok out f
          forwardChunk_host [OF step] by simp
      next
        case (Err e)
        then have "r = Some (Err e)" "state' = s" using Cons.prems(2) read act ActionForward step by simp_all
        moreover have "pump_correct host context (event # events) state (Some (Err e)) s" using Err out f by (intro pump_correctI [OF adv]) (simp_all, blast)
        ultimately show ?thesis using f by simp
      next
        case Panic
        then show ?thesis using f by simp
      qed
    next
      case ActionClose
      then have "r = Some (Err PluginClosed)" "state' = ?state" "pluginOutput host context (event # events) (pp_host state) = []"
        using Cons.prems(2) read act by simp_all
      then show ?thesis using ok by (auto intro: pump_correctI [OF ledgers_refl(2)])
    qed (use Cons.prems(2) skip read act in simp_all)
  qed
qed


text \<open>
  C40: the pump of one direction of a TCP relay, for every plugin host, every lease and every sequence of
  reads, clocks, write failures and revocations. It never panics and keeps the session registry well
  formed. There is a list of chunks, an initial part of what the plugins forward for the data read (all of
  it while the pump runs, and when it ends normally), such that exactly these chunks are written to the
  peer by completed writes, in order; and the counter the pump returns, the counter that the lease bills and the byte counter of
  the session advance by the same chunks. Nothing is billed that was not delivered, and all that can be
  delivered without being billed is a part of the one chunk whose write failed.
\<close>

theorem pump_bills_what_it_delivers:
  assumes "registry_ok (pp_registry state)" and "pumpStream host context events state = (r, state')"
  shows "registry_ok (pp_registry state') \<and> r \<noteq> Some Panic
    \<and> (\<exists>chunks rest. ledgers_advance context chunks state state'
         \<and> pluginOutput host context events (pp_host state) = chunks @ rest
         \<and> (r = None \<or> (\<exists>n. r = Some (Ok n)) \<longrightarrow> rest = [])
         \<and> (pp_failedWrite state' = pp_failedWrite state
             \<or> (\<exists>n kind bs more. r = Some (Err (Socks5Error.Io kind)) \<and> rest = bs # more \<and> pp_failedWrite state' = take n bs))
         \<and> (\<forall>n. r = Some (Ok n) \<longrightarrow> n = pp_totalBytes state'))"
  using pumpStream_correct [OF assms] unfolding pump_correct_def .

text \<open>A host that counts its calls, rewrites data and drops a chunk that starts with zero.\<close>

definition sampleHost :: "(nat, nat) plugin_host" where
  "sampleHost = \<lparr>ph_open = (\<lambda>m h. (h, h + 1)),
     ph_process = (\<lambda>c d bs h. (if hd bs = 0 then ActionDrop else ActionForward (map (\<lambda>b. b + 1) bs), h + 1)),
     ph_close = (\<lambda>c h. h)\<rparr>"

definition samplePump :: "nat PumpState" where
  "samplePump = \<lparr>pp_registry = sampleRegistry, pp_client = sampleClient, pp_host = 0, pp_totalBytes = 0, pp_written = [], pp_failedWrite = []\<rparr>"

definition samplePumpContext :: "nat PumpContext" where
  "samplePumpContext = \<lparr>px_sessionId = lit ''a'', px_direction = TrafficDirection.Up, px_plugin = 0,
     px_hookDirection = ClientToServer, px_lease = Some 1\<rparr>"

definition samplePumpEvents :: "pump_event list" where
  "samplePumpEvents =
     map (\<lambda>bs. \<lparr>pe_read = ReadData bs, pe_now = 6, pe_instant = 10, pe_cancelled = False, pe_write = None\<rparr>) [[1, 2], [0, 7], [4], []]"

theorem pump_bills_what_it_delivers_witness:
  "fst (pumpStream sampleHost samplePumpContext samplePumpEvents samplePump) = Some (Ok 3)
   \<and> (\<exists>state'. pumpStream sampleHost samplePumpContext samplePumpEvents samplePump = (Some (Ok 3), state')
        \<and> pp_written state' = [2, 3, 5] \<and> pp_totalBytes state' = 3)"
proof -
  obtain state' where run: "pumpStream sampleHost samplePumpContext samplePumpEvents samplePump = (Some (Ok 3), state')"
  proof -
    have "fst (pumpStream sampleHost samplePumpContext samplePumpEvents samplePump) = Some (Ok 3)" by code_simp
    then show ?thesis using that by (cases "pumpStream sampleHost samplePumpContext samplePumpEvents samplePump") simp
  qed
  have "registry_ok (pp_registry samplePump)"
    using registry.reach_inv [OF sampleRegistry_reachable] by (simp add: samplePump_def)
  from pump_bills_what_it_delivers [OF this run] obtain chunks where
    "ledgers_advance samplePumpContext chunks samplePump state'" "pluginOutput sampleHost samplePumpContext samplePumpEvents (pp_host samplePump) = chunks"
    "pp_totalBytes state' = 3" by auto
  moreover have "pluginOutput sampleHost samplePumpContext samplePumpEvents (pp_host samplePump) = [[2, 3], [5]]" "pp_written samplePump = []"
    by code_simp+
  ultimately show ?thesis using run by (auto simp: ledgers_advance_def)
qed

section \<open>The UDP association\<close>

definition fits_client :: "SocketAddr \<Rightarrow> TargetAddress \<Rightarrow> SocketAddr \<Rightarrow> bool" where
  "fits_client controlPeer requested a \<longleftrightarrow> sa_ip a = sa_ip controlPeer \<and> (ta_port requested \<noteq> 0 \<longrightarrow> sa_port a = ta_port requested)"

text \<open>A datagram for the client: addressed to it, within the size limit, and the header names an allowed source.\<close>

definition response_ok :: "('c, 'h) UdpAssociation \<Rightarrow> bytes \<times> SocketAddr \<Rightarrow> bool" where
  "response_ok assoc d \<longleftrightarrow> ua_clientAddress assoc = Some (snd d) \<and> length (fst d) \<le> ua_udpMaxPacketSize assoc
     \<and> (\<exists>source\<in>set (ua_allowedRemoteAddresses assoc). \<exists>payload. encodeUdpPacket source payload = Ok (fst d))"

definition assoc_ok :: "('c, 'h) UdpAssociation \<Rightarrow> bool" where
  "assoc_ok assoc \<longleftrightarrow>
     registry_ok (ua_registry assoc)
     \<and> distinct (ua_allowedRemoteAddresses assoc) \<and> length (ua_allowedRemoteAddresses assoc) \<le> ua_udpRemoteLimit assoc
     \<and> (\<forall>a. ua_clientAddress assoc = Some a \<longrightarrow> fits_client (ua_controlPeer assoc) (ua_requestedClient assoc) a)
     \<and> snd ` set (ua_sentRemote assoc) = set (ua_allowedRemoteAddresses assoc)
     \<and> (\<forall>d\<in>set (ua_sentClient assoc). response_ok assoc d)
     \<and> (\<forall>t\<in>set (ua_allowedRemoteAddresses assoc). hm_get (ua_pluginConnections assoc) t \<noteq> None)"

definition same_endpoint :: "('c, 'h) UdpAssociation \<Rightarrow> ('c, 'h) UdpAssociation \<Rightarrow> bool" where
  "same_endpoint a b \<longleftrightarrow> ua_controlPeer b = ua_controlPeer a \<and> ua_requestedClient b = ua_requestedClient a
     \<and> ua_udpMaxPacketSize b = ua_udpMaxPacketSize a \<and> ua_udpRemoteLimit b = ua_udpRemoteLimit a"

fun step_ok :: "('c, 'h) UdpAssociation \<Rightarrow> ('c, 'h) UdpAssociation relay_step \<Rightarrow> bool" where
  "step_ok a (Continue b) \<longleftrightarrow> assoc_ok b \<and> same_endpoint a b"
| "step_ok a (Break r b) \<longleftrightarrow> r \<noteq> Panic \<and> assoc_ok b \<and> same_endpoint a b"
| "step_ok a (Return r b) \<longleftrightarrow> r \<noteq> Panic \<and> assoc_ok b \<and> same_endpoint a b"

lemma same_endpoint_refl [simp]: "same_endpoint a a" "same_endpoint a (a\<lparr>ua_host := h\<rparr>)" "same_endpoint a (a\<lparr>ua_client := c\<rparr>)"
  by (simp_all add: same_endpoint_def)

lemma step_ok_trans: "same_endpoint a b \<Longrightarrow> step_ok b s \<Longrightarrow> step_ok a s"
  by (cases s) (auto simp: same_endpoint_def)

lemma assoc_ok_outside [simp]:
  "assoc_ok (assoc\<lparr>ua_host := h\<rparr>) = assoc_ok assoc" "assoc_ok (assoc\<lparr>ua_client := c\<rparr>) = assoc_ok assoc"
  by (simp_all add: assoc_ok_def response_ok_def)

lemma assoc_ok_registry: "assoc_ok assoc \<Longrightarrow> registry_ok reg \<Longrightarrow> assoc_ok (assoc\<lparr>ua_registry := reg\<rparr>)"
  by (simp add: assoc_ok_def response_ok_def)

lemma recordDropped_ok: "registry_ok reg \<Longrightarrow> registry_ok (recordDroppedUdpPacket reg)"
  using registry.step_inv step_dropped by blast

lemma dropPacket_ok: "assoc_ok assoc \<Longrightarrow> step_ok assoc (dropPacket assoc)"
  using assoc_ok_registry [OF _ recordDropped_ok, of assoc "ua_registry assoc"]
  by (auto simp: dropPacket_def same_endpoint_def assoc_ok_def)

lemma recordUdp_ok:
  assumes "assoc_ok assoc"
  shows "step_ok assoc (recordUdp now d original payload assoc)"
proof -
  have "registry_ok (ua_registry assoc)" using assms by (simp add: assoc_ok_def)
  from addModifiedTraffic_total [OF this] obtain reg where
    "addModifiedTraffic now \<lparr>tr_sessionId = ua_sessionId assoc, tr_direction = d, tr_originalPayload = original, tr_payload = payload\<rparr> (ua_registry assoc) = Ok reg"
    and "registry_ok reg" by blast
  moreover have "registry_ok (recordUdpPacket d reg)" using \<open>registry_ok reg\<close> registry.step_inv step_udp by blast
  ultimately show ?thesis using assoc_ok_registry [OF assms] by (simp add: recordUdp_def same_endpoint_def)
qed

text \<open>A datagram is sent to a target that has a plugin connection and for which there is room.\<close>

lemma sendToRemote_ok:
  assumes ok: "assoc_ok assoc" and source: "fits_client (ua_controlPeer assoc) (ua_requestedClient assoc) (cd_source event)"
    and locked: "\<And>a. ua_clientAddress assoc = Some a \<Longrightarrow> a = cd_source event"
    and room: "length (ua_allowedRemoteAddresses assoc) < ua_udpRemoteLimit assoc \<or> target \<in> set (ua_allowedRemoteAddresses assoc)"
    and plugin: "hm_get (ua_pluginConnections assoc) target \<noteq> None"
  shows "step_ok assoc (sendToRemote texts event destination target original payload assoc)"
proof (cases "cd_sent event")
  case False
  then show ?thesis using dropPacket_ok [OF ok] by (simp add: sendToRemote_def)
next
  case True
  define reg where "reg = (if ua_allowedRemoteAddresses assoc \<noteq> [] then ua_registry assoc
     else snd (updateSession (cd_now event) (ua_sessionId assoc) \<lparr>su_username = None, su_command = None, su_targetAddress = Some (rt_addressText texts destination),
                              su_applicationProtocol = None, su_state = UdpAssociating\<rparr> (ua_registry assoc)))"
  have reg: "registry_ok reg" using ok registry.step_inv [OF _ step_update] by (simp add: reg_def assoc_ok_def)
  define succ where "succ = assoc\<lparr>ua_sentRemote := ua_sentRemote assoc @ [(payload, target)],
     ua_client := recordLease (ua_lease assoc) TrafficDirection.Up (length payload) (ua_client assoc), ua_registry := reg,
     ua_allowedRemoteAddresses := List.insert target (ua_allowedRemoteAddresses assoc), ua_clientAddress := Some (cd_source event)\<rparr>"
  have "response_ok succ d" if "d \<in> set (ua_sentClient assoc)" for d
  proof -
    have "response_ok assoc d" using ok that by (simp add: assoc_ok_def)
    then show ?thesis using locked by (auto simp: response_ok_def succ_def)
  qed
  moreover have "length (List.insert target (ua_allowedRemoteAddresses assoc)) \<le> ua_udpRemoteLimit assoc"
    using room ok by (auto simp: assoc_ok_def List.insert_def)
  ultimately have "assoc_ok succ" using ok reg source plugin unfolding assoc_ok_def by (auto simp: succ_def)
  from recordUdp_ok [OF this] have "step_ok assoc (recordUdp (cd_now event) TrafficDirection.Up original payload succ)"
    by (rule step_ok_trans [rotated]) (simp add: succ_def same_endpoint_def)
  moreover have "sendToRemote texts event destination target original payload assoc = recordUdp (cd_now event) TrafficDirection.Up original payload succ"
    using True by (simp add: sendToRemote_def succ_def reg_def Let_def)
  ultimately show ?thesis by simp
qed

lemma pluginConnection_ok:
  assumes "assoc_ok assoc" and "pluginConnection host metadata target assoc = (c, assoc')"
  shows "assoc_ok assoc' \<and> hm_get (ua_pluginConnections assoc') target = Some c \<and> same_endpoint assoc assoc'
    \<and> ua_clientAddress assoc' = ua_clientAddress assoc \<and> ua_allowedRemoteAddresses assoc' = ua_allowedRemoteAddresses assoc"
proof (cases "hm_get (ua_pluginConnections assoc) target")
  case None
  obtain c' h where o: "ph_open host metadata (ua_host assoc) = (c', h)" by fastforce
  then have a: "assoc' = assoc\<lparr>ua_pluginConnections := hm_insert target c (ua_pluginConnections assoc), ua_host := h\<rparr>"
    using assms(2) None by (auto simp: pluginConnection_def)
  then show ?thesis using assms(1) unfolding assoc_ok_def by (auto simp: hm_get_insert response_ok_def same_endpoint_def)
qed (use assms in \<open>auto simp: pluginConnection_def\<close>)

lemma relayDatagram_ok:
  assumes ok: "assoc_ok assoc" and source: "fits_client (ua_controlPeer assoc) (ua_requestedClient assoc) (cd_source event)"
    and locked: "\<And>a. ua_clientAddress assoc = Some a \<Longrightarrow> a = cd_source event"
    and room: "length (ua_allowedRemoteAddresses assoc) < ua_udpRemoteLimit assoc \<or> target \<in> set (ua_allowedRemoteAddresses assoc)"
  shows "step_ok assoc (relayDatagram host texts event packet target assoc)"
proof -
  obtain c a1 where plug: "pluginConnection host \<lparr>cm_transport = TransportUdp, cm_clientAddress = ua_controlClientAddress assoc,
      cm_targetHost = rt_hostText texts (up_destination packet), cm_targetPort = ta_port (up_destination packet)\<rparr> target assoc = (c, a1)" by fastforce
  note p = pluginConnection_ok [OF ok plug]
  obtain action h where act: "ph_process host c ClientToServer (up_payload packet) (ua_host a1) = (action, h)" by fastforce
  let ?a2 = "a1\<lparr>ua_host := h\<rparr>"
  have same: "same_endpoint assoc ?a2" and ok2: "assoc_ok ?a2" using p by (simp_all add: same_endpoint_def)
  have run: "relayDatagram host texts event packet target assoc = (case action of
      ActionDrop \<Rightarrow> dropPacket ?a2 | ActionHold \<Rightarrow> dropPacket ?a2 | ActionClose \<Rightarrow> Break (Ok ()) ?a2
    | ActionForward payload \<Rightarrow>
        (let (granted, client) = acquireLease (cd_instant event) (cd_cancelled event) (ua_lease ?a2) TrafficDirection.Up (length payload) (ua_client ?a2);
             a = ?a2\<lparr>ua_client := client\<rparr>
         in if \<not> granted then Return (Err AuthenticationFailed) a
            else sendToRemote texts event (up_destination packet) target (up_payload packet) payload a))"
    unfolding relayDatagram_def Let_def plug by (simp add: act)
  show ?thesis
  proof (cases action)
    case (ActionForward payload)
    obtain granted client where acq: "acquireLease (cd_instant event) (cd_cancelled event) (ua_lease ?a2) TrafficDirection.Up (length payload) (ua_client ?a2)
        = (granted, client)" by fastforce
    let ?a3 = "?a2\<lparr>ua_client := client\<rparr>"
    have same3: "same_endpoint assoc ?a3" using same by (simp add: same_endpoint_def)
    have "step_ok ?a3 (sendToRemote texts event (up_destination packet) target (up_payload packet) payload ?a3)"
      by (rule sendToRemote_ok) (use p ok2 source locked room in \<open>auto simp: same_endpoint_def\<close>)
    from step_ok_trans [OF same3 this] show ?thesis
      unfolding run Let_def using ActionForward acq ok2 same3 by simp
  qed (use step_ok_trans [OF same dropPacket_ok [OF ok2]] run same ok2 in simp_all)
qed

lemma clientReceived_ok:
  assumes ok: "assoc_ok assoc"
  shows "step_ok assoc (clientReceived host texts event assoc)"
proof -
  note drop = dropPacket_ok [OF ok]
  show ?thesis
  proof (cases "ua_udpMaxPacketSize assoc < length (cd_bytes event)
      \<or> (sa_ip (cd_source event) \<noteq> sa_ip (ua_controlPeer assoc)
         \<or> (ta_port (ua_requestedClient assoc) \<noteq> 0 \<and> sa_port (cd_source event) \<noteq> ta_port (ua_requestedClient assoc))
         \<or> (case ua_clientAddress assoc of None \<Rightarrow> False | Some locked \<Rightarrow> locked \<noteq> cd_source event))")
    case True
    then show ?thesis using drop unfolding clientReceived_def Let_def by auto
  next
    case False
    then have source: "fits_client (ua_controlPeer assoc) (ua_requestedClient assoc) (cd_source event)"
      and locked: "\<And>a. ua_clientAddress assoc = Some a \<Longrightarrow> a = cd_source event"
      by (auto simp: fits_client_def)
    have relay: "step_ok assoc (relayDatagram host texts event packet target assoc)"
      if "\<not> (ua_udpRemoteLimit assoc \<le> length (ua_allowedRemoteAddresses assoc) \<and> target \<notin> set (ua_allowedRemoteAddresses assoc))" for packet target
      using relayDatagram_ok [OF ok source locked] that by (auto simp: not_le)
    show ?thesis
      using False drop relay decodeUdpPacket_no_panic [of "cd_bytes event"] ok
      unfolding clientReceived_def Let_def by (simp split: outcome.split sum.split list.split)
  qed
qed

lemma remoteReceived_ok:
  assumes ok: "assoc_ok assoc"
  shows "step_ok assoc (remoteReceived host event assoc)"
proof -
  let ?s = "rd_source event"
  note drop = dropPacket_ok [OF ok]
  show ?thesis
  proof (cases "ua_clientAddress assoc = None \<or> ?s \<notin> set (ua_allowedRemoteAddresses assoc) \<or> hm_get (ua_pluginConnections assoc) ?s = None")
    case True
    then show ?thesis using drop ok unfolding remoteReceived_def Let_def by (auto split: option.split)
  next
    case False
    then obtain client c where client: "ua_clientAddress assoc = Some client" and s: "?s \<in> set (ua_allowedRemoteAddresses assoc)"
      and c: "hm_get (ua_pluginConnections assoc) ?s = Some c" by auto
    obtain action h where act: "ph_process host c ServerToClient (rd_bytes event) (ua_host assoc) = (action, h)" by fastforce
    let ?a1 = "assoc\<lparr>ua_host := h\<rparr>"
    have drop1: "step_ok assoc (dropPacket ?a1)" using step_ok_trans [OF _ dropPacket_ok [of ?a1]] ok by simp
    show ?thesis
    proof (cases action)
      case (ActionForward payload)
      obtain raw where raw: "encodeUdpPacket ?s payload = Ok raw" using encodeUdpPacket_Ok by blast
      obtain granted lease where acq: "acquireLease (rd_instant event) (rd_cancelled event) (ua_lease assoc) TrafficDirection.Down (length payload) (ua_client assoc)
        = (granted, lease)" by fastforce
      let ?a2 = "?a1\<lparr>ua_client := lease\<rparr>"
      let ?a3 = "?a2\<lparr>ua_sentClient := ua_sentClient assoc @ [(raw, client)],
        ua_client := recordLease (ua_lease assoc) TrafficDirection.Down (length payload) lease\<rparr>"
      have same: "same_endpoint assoc ?a3" "same_endpoint assoc ?a2" by (simp_all add: same_endpoint_def)
      have "assoc_ok ?a3" if "length raw \<le> ua_udpMaxPacketSize assoc"
        using ok that client s raw unfolding assoc_ok_def by (auto simp: response_ok_def)
      then have "step_ok assoc (recordUdp (rd_now event) TrafficDirection.Down (rd_bytes event) payload ?a3)"
        if "length raw \<le> ua_udpMaxPacketSize assoc" using that step_ok_trans [OF same(1) recordUdp_ok] by blast
      then show ?thesis
        using ok drop1 same(2) client s c act ActionForward raw acq unfolding remoteReceived_def Let_def by (simp split: option.split)
    qed (use ok drop1 client s c act in \<open>simp_all add: remoteReceived_def same_endpoint_def\<close>)
  qed
qed

lemma relayEvent_ok: "assoc_ok assoc \<Longrightarrow> step_ok assoc (relayEvent host texts event assoc)"
  using clientReceived_ok remoteReceived_ok
  by (auto simp: relayEvent_def split: relay_event.split sum.split option.split)

lemma runUdpAssociation_ok:
  assumes "assoc_ok assoc" and "runUdpAssociation host texts events assoc = (r, assoc')"
  shows "\<exists>last. assoc_ok last \<and> same_endpoint assoc last \<and> r \<noteq> Some Panic \<and> (assoc' = last \<or> assoc' = closePluginConnections host last)"
  using assms
proof (induction events arbitrary: assoc)
  case Nil
  then show ?case by (auto intro: exI [of _ assoc])
next
  case (Cons event events)
  note step = relayEvent_ok [OF Cons.prems(1), of host texts event]
  show ?case
  proof (cases "relayEvent host texts event assoc")
    case (Continue b)
    then have "assoc_ok b" and same: "same_endpoint assoc b" using step by simp_all
    from Cons.IH [OF this(1)] Continue Cons.prems(2) obtain last where "assoc_ok last" "same_endpoint b last" "r \<noteq> Some Panic"
      "assoc' = last \<or> assoc' = closePluginConnections host last" by auto
    then show ?thesis using same by (intro exI [of _ last]) (auto simp: same_endpoint_def)
  qed (use step Cons.prems(2) in auto)
qed

text \<open>
  C5: isolation of a UDP association, for every plugin host, resolver, clock and sequence of events. From its
  start on the association never panics and keeps the session registry well formed. The client address it
  locks has the address of the control connection and the port the client announced, if any. The allowed
  remote addresses are distinct, never more than the configured limit, and exactly the targets to which a
  datagram of this client has been sent. Every datagram that goes back is sent to the locked
  client address, is within the size limit, and decodes to a payload from such a target.
\<close>

theorem udp_association_isolated:
  assumes "registry_ok (ua_registry assoc)"
    and "ua_clientAddress assoc = None" "ua_allowedRemoteAddresses assoc = []" "ua_sentRemote assoc = []" "ua_sentClient assoc = []"
    and "runUdpAssociation host texts events assoc = (r, assoc')"
  shows "r \<noteq> Some Panic \<and> registry_ok (ua_registry assoc')
    \<and> (\<forall>a. ua_clientAddress assoc' = Some a \<longrightarrow>
         sa_ip a = sa_ip (ua_controlPeer assoc) \<and> (ta_port (ua_requestedClient assoc) \<noteq> 0 \<longrightarrow> sa_port a = ta_port (ua_requestedClient assoc)))
    \<and> distinct (ua_allowedRemoteAddresses assoc') \<and> length (ua_allowedRemoteAddresses assoc') \<le> ua_udpRemoteLimit assoc
    \<and> snd ` set (ua_sentRemote assoc') = set (ua_allowedRemoteAddresses assoc')
    \<and> (\<forall>raw a. (raw, a) \<in> set (ua_sentClient assoc') \<longrightarrow>
         ua_clientAddress assoc' = Some a \<and> length raw \<le> ua_udpMaxPacketSize assoc
         \<and> (\<exists>source payload. source \<in> set (ua_allowedRemoteAddresses assoc')
              \<and> decodeUdpPacket raw = Ok \<lparr>up_destination = fromSocketAddress source, up_payload = payload\<rparr>))"
proof -
  have "assoc_ok assoc" using assms(1-5) by (simp add: assoc_ok_def)
  from runUdpAssociation_ok [OF this assms(6)] obtain last where ok: "assoc_ok last" and same: "same_endpoint assoc last" and r: "r \<noteq> Some Panic"
    and last: "assoc' = last \<or> assoc' = closePluginConnections host last" by blast
  have reply: "ua_clientAddress last = Some a \<and> length raw \<le> ua_udpMaxPacketSize last
      \<and> (\<exists>source payload. source \<in> set (ua_allowedRemoteAddresses last)
           \<and> decodeUdpPacket raw = Ok \<lparr>up_destination = fromSocketAddress source, up_payload = payload\<rparr>)"
    if "(raw, a) \<in> set (ua_sentClient last)" for raw a
  proof -
    have "response_ok last (raw, a)" using ok that by (auto simp: assoc_ok_def)
    then obtain source payload where "ua_clientAddress last = Some a" "length raw \<le> ua_udpMaxPacketSize last"
      "source \<in> set (ua_allowedRemoteAddresses last)" "encodeUdpPacket source payload = Ok raw" by (auto simp: response_ok_def)
    moreover from this(4) have "decodeUdpPacket raw = Ok \<lparr>up_destination = fromSocketAddress source, up_payload = payload\<rparr>"
      using encodeUdpPacket_Ok [of source payload] by auto
    ultimately show ?thesis by blast
  qed
  have "ua_controlPeer last = ua_controlPeer assoc" "ua_requestedClient last = ua_requestedClient assoc"
    "ua_udpMaxPacketSize last = ua_udpMaxPacketSize assoc" "ua_udpRemoteLimit last = ua_udpRemoteLimit assoc"
    using same by (simp_all add: same_endpoint_def)
  moreover have "ua_registry assoc' = ua_registry last" "ua_clientAddress assoc' = ua_clientAddress last" "ua_sentClient assoc' = ua_sentClient last"
    "ua_sentRemote assoc' = ua_sentRemote last" "ua_allowedRemoteAddresses assoc' = ua_allowedRemoteAddresses last"
    using last by (auto simp: closePluginConnections_def)
  ultimately show ?thesis using ok r reply unfolding assoc_ok_def fits_client_def by simp
qed

text \<open>A client at 10.0.0.1 asks 8.8.8.8, which answers; a third party does not get through.\<close>

definition sampleAssociation :: "nat \<Rightarrow> (nat, nat) UdpAssociation" where
  "sampleAssociation limit = \<lparr>ua_controlPeer = SocketAddrV4 (Ipv4Addr 10 0 0 1) 1000, ua_requestedClient = \<lparr>ta_host = Ip (V4 (Ipv4Addr 0 0 0 0)), ta_port = 0\<rparr>,
     ua_udpMaxPacketSize = 100, ua_udpRemoteLimit = limit, ua_sessionId = lit ''a'', ua_controlClientAddress = lit ''10.0.0.1'', ua_lease = Some 1,
     ua_clientAddress = None, ua_allowedRemoteAddresses = [], ua_pluginConnections = [], ua_registry = sampleRegistry, ua_client = sampleClient,
     ua_host = 0, ua_sentRemote = [], ua_sentClient = []\<rparr>"

definition sampleTexts :: relay_texts where
  "sampleTexts = \<lparr>rt_hostText = (\<lambda>_. []), rt_addressText = (\<lambda>_. []), rt_render = (\<lambda>_. []), rt_addressOverride = None\<rparr>"

definition sampleRequest :: "u8 \<Rightarrow> u8 \<Rightarrow> bool \<Rightarrow> relay_event" where
  "sampleRequest host payload cancelled = ClientReceived (Inr \<lparr>cd_bytes = [0, 0, 0, 1, 8, 8, 8, host, 0, 53, payload], cd_source = SocketAddrV4 (Ipv4Addr 10 0 0 1) 2000,
     cd_lookup = (\<lambda>_ _. Inr []), cd_resolveTimeout = False, cd_sent = True, cd_now = 6, cd_instant = 10, cd_cancelled = cancelled\<rparr>)"

definition sampleAnswer :: "u8 \<Rightarrow> relay_event" where
  "sampleAnswer host = RemoteReceived (Some \<lparr>rd_bytes = [4], rd_source = SocketAddrV4 (Ipv4Addr 8 8 8 host) 53, rd_sendError = None,
     rd_now = 7, rd_instant = 20, rd_cancelled = False\<rparr>)"

theorem udp_association_isolated_witness:
  "\<exists>assoc'. runUdpAssociation sampleHost sampleTexts [sampleRequest 8 1 False, sampleAnswer 9, sampleAnswer 8] (sampleAssociation 2) = (None, assoc')
     \<and> ua_sentClient assoc' = [([0, 0, 0, 1, 8, 8, 8, 8, 0, 53, 5], SocketAddrV4 (Ipv4Addr 10 0 0 1) 2000)]
     \<and> ua_clientAddress assoc' = Some (SocketAddrV4 (Ipv4Addr 10 0 0 1) 2000)"
proof -
  let ?run = "runUdpAssociation sampleHost sampleTexts [sampleRequest 8 1 False, sampleAnswer 9, sampleAnswer 8] (sampleAssociation 2)"
  have eval: "fst ?run = None" "ua_sentClient (snd ?run) = [([0, 0, 0, 1, 8, 8, 8, 8, 0, 53, 5], SocketAddrV4 (Ipv4Addr 10 0 0 1) 2000)]"
    by code_simp+
  have "registry_ok (ua_registry (sampleAssociation 2))"
    using registry.reach_inv [OF sampleRegistry_reachable] by (simp add: sampleAssociation_def)
  from udp_association_isolated [OF this, of sampleHost sampleTexts _ "fst ?run" "snd ?run"]
  have "\<forall>raw a. (raw, a) \<in> set (ua_sentClient (snd ?run)) \<longrightarrow> ua_clientAddress (snd ?run) = Some a"
    by (simp add: sampleAssociation_def del: runUdpAssociation.simps)
  then show ?thesis using eval by (intro exI [of _ "snd ?run"]) (auto simp: prod_eq_iff simp del: runUdpAssociation.simps)
qed

text \<open>
  The end of an association. Leaving the loop closes its plugin connections; returning from inside the loop,
  as a refused quota or a failed send does, leaves them open.
\<close>

lemma return_leaves_plugin_connections_open:
  "fst (runUdpAssociation sampleHost sampleTexts [sampleRequest 8 1 True] (sampleAssociation 2)) = Some (Err AuthenticationFailed)
   \<and> ua_pluginConnections (snd (runUdpAssociation sampleHost sampleTexts [sampleRequest 8 1 True] (sampleAssociation 2))) \<noteq> []
   \<and> ua_pluginConnections (snd (runUdpAssociation sampleHost sampleTexts [sampleRequest 8 1 False, Cancelled] (sampleAssociation 2))) = []"
  by code_simp

text \<open>
  The limit on remote addresses counts the targets that were reached. A datagram that the plugins drop
  opens a plugin connection all the same, which stays in the table: their number is not limited.
\<close>

lemma dropped_datagrams_open_connections:
  "length (ua_pluginConnections (snd (runUdpAssociation sampleHost sampleTexts
     [sampleRequest 1 0 False, sampleRequest 2 0 False, sampleRequest 3 0 False] (sampleAssociation 1)))) = 3"
  by code_simp

end
