(* ===== verification/RecordingModel.thy ===== *)
theory RecordingModel
  imports Location
begin

text \<open>
  The data of a recording session and its size accounting: \<open>Capture/src/model.rs\<close>, \<open>metadataBudget.rs\<close> and
  \<open>responseEntity.rs\<close>. The accounting counts allocated capacities, so a string is a text with its capacity
  and a vector a list with its capacity. A clone is allocated to its length, and so is a vector after
  \<open>shrink_to_fit\<close>. The sizes of structs, which the compiler chooses, are the parameter \<open>layout\<close>. \<open>usize\<close>
  additions saturate as in the code.
\<close>

section \<open>Sizes\<close>

definition usize_max :: nat where "usize_max = 2 ^ 64 - 1"

definition usize_add :: "nat \<Rightarrow> nat \<Rightarrow> nat" where
  "usize_add a b = min usize_max (a + b)"

definition usize_mul :: "nat \<Rightarrow> nat \<Rightarrow> nat" where
  "usize_mul a b = min usize_max (a * b)"

datatype rtext = Text (tx: str) (cap: nat)

definition owned :: "str \<Rightarrow> rtext" where
  "owned s = Text s (str_len s)"

definition clone_text :: "rtext \<Rightarrow> rtext" where
  "clone_text t = owned (tx t)"

datatype 'a vec = Vec (items: "'a list") (room: nat)

definition vec_of :: "'a list \<Rightarrow> 'a vec" where
  "vec_of xs = Vec xs (length xs)"

definition clone_vec :: "('a \<Rightarrow> 'a) \<Rightarrow> 'a vec \<Rightarrow> 'a vec" where
  "clone_vec f v = vec_of (map f (items v))"

record layout =
  ly_String :: nat
  ly_StringPair :: nat
  ly_HeaderField :: nat
  ly_TransactionSummary :: nat
  ly_TransactionError :: nat
  ly_TransactionRecord :: nat
  ly_BodyRef :: nat
  ly_ResponseEntityIndexKey :: nat
  ly_IndexMember :: nat
  ly_StreamPacket :: nat
  ly_usize :: nat

section \<open>Data\<close>

datatype RecordingState = Recording | Paused

record RecordingLimits =
  li_maxTransactions :: nat
  li_maxBodyBytes :: nat
  li_maxTotalBodyBytes :: nat

definition RecordingLimits_default :: RecordingLimits where
  "RecordingLimits_default = \<lparr>li_maxTransactions = 9007199254740991, li_maxBodyBytes = 9007199254740991,
     li_maxTotalBodyBytes = 9007199254740991\<rparr>"

definition isValid :: "RecordingLimits \<Rightarrow> bool" where
  "isValid limits = (0 < li_maxTransactions limits \<and> 0 < li_maxBodyBytes limits \<and> 0 < li_maxTotalBodyBytes limits)"

record RecordingConfiguration =
  rf_limits :: RecordingLimits
  rf_ignoreLocations :: "LocationPattern list"
  rf_recordTunnelMetadata :: bool
  rf_memoryBodyThreshold :: nat
  rf_metadataMemoryBudgetBytes :: nat

record RecordingSnapshot =
  snp_recordingSessionId :: str
  snp_state :: RecordingState
  snp_startedAtMilliseconds :: u64
  snp_transactionCount :: nat
  snp_droppedCount :: u64
  snp_totalBodyBytes :: nat
  snp_totalMetadataBytes :: nat
  snp_metadataMemoryBudgetBytes :: nat
  snp_pendingCleanupCount :: nat
  snp_limits :: RecordingLimits
  snp_ignoreLocations :: "LocationPattern list"
  snp_recordTunnelMetadata :: bool

record RecordingLimitsUpdate =
  lu_maxTransactions :: "nat option"
  lu_maxBodyBytes :: "nat option"
  lu_maxTotalBodyBytes :: "nat option"

record RecordingSettingsUpdate =
  ru_state :: "RecordingState option"
  ru_limits :: "RecordingLimitsUpdate option"
  ru_ignoreLocations :: "LocationPattern list option"
  ru_recordTunnelMetadata :: "bool option"

datatype TransactionProtocol = Http | Https | Ws | Wss | Tunnel | Socks

datatype TransactionStatus = Pending | Complete | Failed | Blocked | Cancelled

record TransactionTimings =
  ti_startAtMilliseconds :: u64
  ti_dnsEndAtMilliseconds :: "u64 option"
  ti_connectEndAtMilliseconds :: "u64 option"
  ti_tlsEndAtMilliseconds :: "u64 option"
  ti_requestSentAtMilliseconds :: "u64 option"
  ti_responseStartAtMilliseconds :: "u64 option"
  ti_endAtMilliseconds :: "u64 option"

record TransactionSizes =
  tz_requestHeaderBytes :: u64
  tz_requestBodyBytes :: u64
  tz_responseHeaderBytes :: u64
  tz_responseBodyBytes :: u64

record TransactionFlags =
  tf_mappedLocal :: bool
  tf_mappedRemote :: bool
  tf_rewritten :: bool
  tf_breakpointHit :: bool
  tf_throttled :: bool
  tf_mitmDecrypted :: bool
  tf_bodyTruncated :: bool
  tf_headersTruncated :: bool
  tf_fromCache :: bool

record TransactionError =
  te_code :: rtext
  te_messageKey :: rtext
  te_params :: "(rtext \<times> rtext) list"

record TransactionSummary =
  tn_transactionId :: rtext
  tn_recordingSessionId :: rtext
  tn_sequence :: u64
  tn_protocol :: TransactionProtocol
  tn_method :: rtext
  tn_host :: rtext
  tn_port :: nat
  tn_path :: rtext
  tn_query :: rtext
  tn_urlDisplay :: rtext
  tn_status :: TransactionStatus
  tn_statusCode :: "nat option"
  tn_clientAddress :: rtext
  tn_clientProcessName :: "rtext option"
  tn_clientProcessId :: "u32 option"
  tn_contentType :: rtext
  tn_timings :: TransactionTimings
  tn_sizes :: TransactionSizes
  tn_flags :: TransactionFlags
  tn_error :: "TransactionError option"
  tn_notes :: rtext
  tn_tags :: "rtext vec"
  tn_appliedTools :: "rtext vec"

text \<open>A resolved location arrives with the capacities of its four strings.\<close>

record located =
  lx_location :: ResolvedLocation
  lx_host :: rtext
  lx_path :: rtext
  lx_query :: rtext
  lx_display :: rtext

definition locate :: "nat \<Rightarrow> nat \<Rightarrow> nat \<Rightarrow> nat \<Rightarrow> ResolvedLocation \<Rightarrow> located" where
  "locate host path query display location = \<lparr>lx_location = location, lx_host = Text (rl_host location) host,
     lx_path = Text (rl_path location) path, lx_query = Text (rl_query location) query, lx_display = Text (rl_display location) display\<rparr>"

record BeginTransaction =
  bn_protocol :: TransactionProtocol
  bn_method :: rtext
  bn_location :: located
  bn_clientAddress :: rtext
  bn_clientProcessName :: "rtext option"
  bn_clientProcessId :: "u32 option"
  bn_contentType :: rtext
  bn_startAtMilliseconds :: u64

record TransactionUpdate =
  tu_method :: "rtext option"
  tu_location :: "located option"
  tu_statusCode :: "nat option"
  tu_contentType :: "rtext option"
  tu_flags :: "TransactionFlags option"

record TransactionUserUpdate =
  uu_notes :: "rtext option"
  uu_tags :: "rtext vec option"
  uu_appliedTools :: "rtext vec option"

record TransactionProgressUpdate =
  pu_requestHeaderBytes :: "u64 option"
  pu_requestBodyBytes :: "u64 option"
  pu_responseHeaderBytes :: "u64 option"
  pu_responseBodyBytes :: "u64 option"
  pu_dnsEndAtMilliseconds :: "u64 option"
  pu_connectEndAtMilliseconds :: "u64 option"
  pu_tlsEndAtMilliseconds :: "u64 option"
  pu_requestSentAtMilliseconds :: "u64 option"
  pu_responseStartAtMilliseconds :: "u64 option"

record TransactionCompletion =
  tc_statusCode :: nat
  tc_endAtMilliseconds :: u64
  tc_contentType :: rtext

datatype MessageSide = Request | Response

record HeaderField =
  hf_name :: rtext
  hf_value :: rtext

record BodyWrite =
  bw_bytes :: bytes
  bw_originalBytes :: nat
  bw_contentType :: rtext
  bw_encoding :: rtext

record BodyHandleMeta =
  bm_transactionId :: rtext
  bm_side :: MessageSide
  bm_contentType :: rtext
  bm_encoding :: rtext
  bm_storedBytes :: nat
  bm_originalBytes :: nat
  bm_truncated :: bool

record BodyResponse =
  by_meta :: BodyHandleMeta
  by_bytes :: bytes

datatype StreamPacketAction = ForwardPacket | ReplacePacket | DropPacket | ClosePacket

record StreamPacketModification =
  sn_offsetBytes :: nat
  sn_originalBytes :: "u8 vec"
  sn_modifiedBytes :: "u8 vec"

record StreamPacket =
  sk_sequence :: u64
  sk_capturedAtMilliseconds :: u64
  sk_storedOffsetBytes :: nat
  sk_storedBytes :: nat
  sk_originalBytes :: nat
  sk_truncated :: bool
  sk_action :: StreamPacketAction
  sk_modifications :: "StreamPacketModification list"

record RecordingPageView =
  pv_recording :: RecordingSnapshot
  pv_collectionToken :: str
  pv_total :: nat
  pv_offset :: nat
  pv_transactions :: "TransactionSummary list"

record TransactionDetailRecord =
  dt_transaction :: TransactionSummary
  dt_requestHeaders :: "HeaderField vec"
  dt_responseHeaders :: "HeaderField vec"
  dt_requestBody :: "BodyHandleMeta option"
  dt_responseBody :: "BodyHandleMeta option"
  dt_requestPackets :: "StreamPacket vec"
  dt_responsePackets :: "StreamPacket vec"

record ResponseRangeCandidate =
  rx_transactionId :: rtext
  rx_sequence :: u64
  rx_start :: nat
  rx_end :: nat
  rx_body :: BodyHandleMeta

datatype CaptureError =
    InvalidLimits
  | InvalidMemoryThreshold
  | InvalidMetadataMemoryBudget
  | MetadataMemoryBudgetExceeded
  | SessionClosed
  | TransactionNotFound
  | TransactionFinished
  | CollectionChanged
  | BodyNotFound
  | InvalidBodyLength
  | CaptureIo string
  | LocationFailure LocationError

section \<open>Clones\<close>

definition clone_meta :: "BodyHandleMeta \<Rightarrow> BodyHandleMeta" where
  "clone_meta m = m\<lparr>bm_transactionId := clone_text (bm_transactionId m), bm_contentType := clone_text (bm_contentType m),
     bm_encoding := clone_text (bm_encoding m)\<rparr>"

definition clone_header :: "HeaderField \<Rightarrow> HeaderField" where
  "clone_header h = \<lparr>hf_name = clone_text (hf_name h), hf_value = clone_text (hf_value h)\<rparr>"

definition clone_modification :: "StreamPacketModification \<Rightarrow> StreamPacketModification" where
  "clone_modification m = m\<lparr>sn_originalBytes := clone_vec id (sn_originalBytes m), sn_modifiedBytes := clone_vec id (sn_modifiedBytes m)\<rparr>"

definition clone_packet :: "StreamPacket \<Rightarrow> StreamPacket" where
  "clone_packet p = p\<lparr>sk_modifications := map clone_modification (sk_modifications p)\<rparr>"

definition clone_error :: "TransactionError \<Rightarrow> TransactionError" where
  "clone_error e = \<lparr>te_code = clone_text (te_code e), te_messageKey = clone_text (te_messageKey e),
     te_params = map (\<lambda>p. (clone_text (fst p), clone_text (snd p))) (te_params e)\<rparr>"

definition clone_summary :: "TransactionSummary \<Rightarrow> TransactionSummary" where
  "clone_summary s = s\<lparr>tn_transactionId := clone_text (tn_transactionId s), tn_recordingSessionId := clone_text (tn_recordingSessionId s),
     tn_method := clone_text (tn_method s), tn_host := clone_text (tn_host s), tn_path := clone_text (tn_path s),
     tn_query := clone_text (tn_query s), tn_urlDisplay := clone_text (tn_urlDisplay s), tn_clientAddress := clone_text (tn_clientAddress s),
     tn_clientProcessName := map_option clone_text (tn_clientProcessName s), tn_contentType := clone_text (tn_contentType s),
     tn_error := map_option clone_error (tn_error s), tn_notes := clone_text (tn_notes s),
     tn_tags := clone_vec clone_text (tn_tags s), tn_appliedTools := clone_vec clone_text (tn_appliedTools s)\<rparr>"

section \<open>The metadata budget\<close>

definition maximumTransactionSummaryBytes :: nat where "maximumTransactionSummaryBytes = 9007199254740991"
definition minimumMetadataMemoryBudgetBytes :: nat where "minimumMetadataMemoryBudgetBytes = 64 * 1024"
definition defaultMetadataMemoryBudgetBytes :: nat where "defaultMetadataMemoryBudgetBytes = 9007199254740991"
definition maximumStoredHeaderSideBytes :: nat where "maximumStoredHeaderSideBytes = 9007199254740991"
definition maximumHeaderNameBytes :: nat where "maximumHeaderNameBytes = 9007199254740991"
definition maximumHeaderValueBytes :: nat where "maximumHeaderValueBytes = 9007199254740991"

fun boundChars :: "nat \<Rightarrow> nat \<Rightarrow> str \<Rightarrow> str" where
  "boundChars maximumBytes used [] = []"
| "boundChars maximumBytes used (c # s) =
     (if maximumBytes < usize_add used (len_utf8 c) then [] else c # boundChars maximumBytes (used + len_utf8 c) s)"

definition boundString :: "rtext \<Rightarrow> nat \<Rightarrow> rtext \<times> bool" where
  "boundString value maximumBytes =
     (if str_len (tx value) \<le> maximumBytes then (value, False)
      else (owned (boundChars maximumBytes 0 (tx value)), maximumBytes < str_len (tx value)))"

definition headerStorageBytes :: "layout \<Rightarrow> HeaderField vec \<Rightarrow> nat" where
  "headerStorageBytes ly headers =
     fold (\<lambda>h total. usize_add (usize_add total (cap (hf_name h))) (cap (hf_value h))) (items headers)
       (usize_mul (room headers) (ly_HeaderField ly))"

definition stringListStorageBytes :: "layout \<Rightarrow> rtext vec \<Rightarrow> nat" where
  "stringListStorageBytes ly values =
     fold (\<lambda>v total. usize_add total (cap v)) (items values) (usize_mul (room values) (ly_String ly))"

definition errorStorageBytes :: "layout \<Rightarrow> TransactionError \<Rightarrow> nat \<Rightarrow> nat" where
  "errorStorageBytes ly e before =
     fold (\<lambda>p total. usize_add (usize_add (usize_add total (ly_StringPair ly)) (cap (fst p))) (cap (snd p))) (te_params e)
       (usize_add (usize_add (usize_add before (ly_TransactionError ly)) (cap (te_code e))) (cap (te_messageKey e)))"

definition summaryStorageBytes :: "layout \<Rightarrow> TransactionSummary \<Rightarrow> nat" where
  "summaryStorageBytes ly s =
     (let total = fold (\<lambda>v total. usize_add total (cap v))
            [tn_transactionId s, tn_recordingSessionId s, tn_method s, tn_host s, tn_path s, tn_query s, tn_urlDisplay s,
             tn_clientAddress s, tn_contentType s, tn_notes s] (ly_TransactionSummary ly);
          total = (case tn_clientProcessName s of None \<Rightarrow> total | Some name \<Rightarrow> usize_add total (cap name));
          total = usize_add (usize_add total (stringListStorageBytes ly (tn_tags s))) (stringListStorageBytes ly (tn_appliedTools s))
      in case tn_error s of None \<Rightarrow> total | Some e \<Rightarrow> errorStorageBytes ly e total)"

fun boundHeaderLoop :: "layout \<Rightarrow> nat \<Rightarrow> HeaderField list \<Rightarrow> nat \<Rightarrow> bool \<Rightarrow> HeaderField list \<Rightarrow> HeaderField list \<times> bool" where
  "boundHeaderLoop ly maximumBytes [] logicalBytes truncated bounded = (bounded, truncated)"
| "boundHeaderLoop ly maximumBytes (header # headers) logicalBytes truncated bounded =
     (let (name, nameTruncated) = boundString (hf_name header) maximumHeaderNameBytes;
          (value, valueTruncated) = boundString (hf_value header) maximumHeaderValueBytes;
          truncated = (truncated \<or> nameTruncated \<or> valueTruncated);
          fixedBytes = usize_add (ly_HeaderField ly) (str_len (tx name))
      in if maximumBytes < usize_add logicalBytes fixedBytes then (bounded, True)
         else
           (let remainingValueBytes = maximumBytes - logicalBytes - fixedBytes;
                cut = remainingValueBytes < str_len (tx value);
                value = (if cut then fst (boundString value remainingValueBytes) else value);
                truncated = (truncated \<or> cut);
                logicalBytes = usize_add (usize_add logicalBytes fixedBytes) (str_len (tx value));
                bounded = bounded @ [\<lparr>hf_name = name, hf_value = value\<rparr>]
            in if logicalBytes = maximumBytes then (bounded, truncated \<or> headers \<noteq> [])
               else boundHeaderLoop ly maximumBytes headers logicalBytes truncated bounded))"

function popHeaders :: "layout \<Rightarrow> nat \<Rightarrow> HeaderField list \<Rightarrow> bool \<Rightarrow> HeaderField list \<times> bool" where
  "popHeaders ly maximumBytes headers truncated =
     (if headers \<noteq> [] \<and> maximumBytes < headerStorageBytes ly (vec_of headers)
      then popHeaders ly maximumBytes (butlast headers) True else (headers, truncated))"
  by pat_completeness auto
termination by (relation "measure (\<lambda>(_, _, headers, _). length headers)") auto

declare popHeaders.simps [simp del]

record BoundedHeaders =
  bh_headers :: "HeaderField vec"
  bh_storedBytes :: nat
  bh_truncated :: bool

definition boundHeaders :: "layout \<Rightarrow> HeaderField list \<Rightarrow> nat \<Rightarrow> BoundedHeaders" where
  "boundHeaders ly headers availableBytes =
     (let maximumBytes = min availableBytes maximumStoredHeaderSideBytes;
          (bounded, truncated) = boundHeaderLoop ly maximumBytes headers 0 False [];
          truncated = (truncated \<or> length bounded < length headers);
          (bounded, truncated) = popHeaders ly maximumBytes bounded truncated
      in \<lparr>bh_headers = vec_of bounded, bh_storedBytes = headerStorageBytes ly (vec_of bounded), bh_truncated = truncated\<rparr>)"

section \<open>Response entities\<close>

definition uniqueResponseHeaderValue :: "HeaderField list \<Rightarrow> str \<Rightarrow> str option" where
  "uniqueResponseHeaderValue headers name =
     (case filter (\<lambda>h. to_ascii_lowercase (tx (hf_name h)) = to_ascii_lowercase name) headers of
        [h] \<Rightarrow> Some (trim (tx (hf_value h)))
      | _ \<Rightarrow> None)"

definition strongResponseEntityTag :: "HeaderField list \<Rightarrow> str option" where
  "strongResponseEntityTag headers =
     (case uniqueResponseHeaderValue headers (lit ''etag'') of
        None \<Rightarrow> None
      | Some entityTag \<Rightarrow>
          if starts_with (lit ''W/'') entityTag \<or> str_len entityTag < 2 \<or> \<not> starts_with [34] entityTag \<or> \<not> ends_with [34] entityTag
             \<or> 34 \<in> set (tl (butlast entityTag))
          then None else Some entityTag)"

definition parse_u64 :: "str \<Rightarrow> nat option" where
  "parse_u64 s = from_str_radix (2 ^ 64 - 1) 10 s"

definition parseBounds :: "str \<Rightarrow> (nat \<times> nat \<times> nat) option" where
  "parseBounds span =
     (case split_once 47 span of
        None \<Rightarrow> None
      | Some (bounds, totalText) \<Rightarrow>
          (case split_once 45 bounds of
             None \<Rightarrow> None
           | Some (startText, endText) \<Rightarrow>
               (case (parse_u64 startText, parse_u64 endText, parse_u64 totalText) of
                  (Some start, Some end, Some totalBytes) \<Rightarrow>
                    if start \<le> end \<and> end < totalBytes then Some (start, end, totalBytes) else None
                | _ \<Rightarrow> None)))"

definition responseContentRange :: "HeaderField list \<Rightarrow> (nat \<times> nat \<times> nat) option" where
  "responseContentRange headers =
     (case uniqueResponseHeaderValue headers (lit ''content-range'') of
        None \<Rightarrow> None
      | Some value \<Rightarrow>
          (case split_once 32 value of
             None \<Rightarrow> None
           | Some (unit, span) \<Rightarrow>
               if to_ascii_lowercase unit \<noteq> lit ''bytes'' \<or> 32 \<in> set span then None else parseBounds span))"

end
