(* ===== verification/Recording.thy ===== *)
theory Recording
  imports RecordingModel "HOL-Library.Product_Lexorder"
begin

text \<open>
  The recording session, \<open>Capture/src/recordingSession.rs\<close> with the body store of \<open>bodyStore.rs\<close>. Every
  method runs under the write (or read) lock of the session and is one step; \<open>storeBodySpools\<close> stages its
  files before it takes the lock. The committed spill files are part of the state; the outcomes of the file
  operations of a call are the argument \<open>disk\<close>. A call that is cancelled while it waits for the disk leaves
  the state of a call that failed there. Identifiers, paths and clocks are arguments.
\<close>

section \<open>Bodies\<close>

datatype BodyStorageKind = MemoryKind | SpillKind

datatype BodyStorage = MemoryBody bytes | SpillBody rtext

record BodyRef =
  bo_meta :: BodyHandleMeta
  bo_storage :: BodyStorage

definition clone_body :: "BodyRef \<Rightarrow> BodyRef" where
  "clone_body b = \<lparr>bo_meta = clone_meta (bo_meta b),
     bo_storage = (case bo_storage b of MemoryBody bs \<Rightarrow> MemoryBody bs | SpillBody path \<Rightarrow> SpillBody (clone_text path))\<rparr>"

definition metadataStorageBytes :: "BodyRef \<Rightarrow> nat" where
  "metadataStorageBytes b =
     (let textBytes = usize_add (usize_add (cap (bm_transactionId (bo_meta b))) (cap (bm_contentType (bo_meta b)))) (cap (bm_encoding (bo_meta b)))
      in case bo_storage b of MemoryBody _ \<Rightarrow> textBytes | SpillBody path \<Rightarrow> usize_add textBytes (cap path))"

text \<open>
  The outcomes of file operations: the error of deleting a file (a missing file counts as deleted), of
  writing one, of reading one, and of deleting the directory, with the files that survive a failed attempt.
\<close>

record disk =
  dk_remove :: "str \<Rightarrow> string option"
  dk_write :: "string option"
  dk_read :: "string option"
  dk_clear :: "(string \<times> (str \<Rightarrow> bool)) option"

section \<open>State\<close>

record TransactionRecord =
  rc_summary :: TransactionSummary
  rc_summaryStorageBytes :: nat
  rc_requestHeaders :: "HeaderField vec"
  rc_responseHeaders :: "HeaderField vec"
  rc_requestBody :: "BodyRef option"
  rc_responseBody :: "BodyRef option"
  rc_requestPackets :: "StreamPacket vec"
  rc_responsePackets :: "StreamPacket vec"
  rc_requestHeadersTruncated :: bool
  rc_responseHeadersTruncated :: bool

record ResponseEntityIndexKey =
  ik_urlDisplay :: str
  ik_entityTag :: str
  ik_totalBytes :: nat
  ik_contentEncoding :: str

record RecordingStateInner =
  re_recordingState :: RecordingState
  re_recordingSessionId :: str
  re_startedAtMilliseconds :: u64
  re_nextSequence :: u64
  re_droppedCount :: u64
  re_totalBodyBytes :: nat
  re_totalMetadataBytes :: nat
  re_metadataMemoryBudgetBytes :: nat
  re_collectionVersion :: u64
  re_limits :: RecordingLimits
  re_ignoreLocations :: "LocationPattern list"
  re_recordTunnelMetadata :: bool
  re_transactions :: "(str, TransactionRecord) hashmap"
  re_responseEntityIndex :: "(ResponseEntityIndexKey, (u64 \<times> str) list) hashmap"
  re_order :: "str list"
  re_cleanupQueue :: "BodyRef list"
  re_directoryCleanupPending :: bool
  re_closed :: bool
  re_memoryThreshold :: nat
  re_files :: "(str, bytes) hashmap"
  re_orphanedSpills :: "str list"
  re_revision :: u64

definition detail :: "TransactionRecord \<Rightarrow> TransactionDetailRecord" where
  "detail record = \<lparr>dt_transaction = clone_summary (rc_summary record), dt_requestHeaders = clone_vec clone_header (rc_requestHeaders record),
     dt_responseHeaders = clone_vec clone_header (rc_responseHeaders record),
     dt_requestBody = map_option (\<lambda>b. clone_meta (bo_meta b)) (rc_requestBody record),
     dt_responseBody = map_option (\<lambda>b. clone_meta (bo_meta b)) (rc_responseBody record),
     dt_requestPackets = clone_vec clone_packet (rc_requestPackets record), dt_responsePackets = clone_vec clone_packet (rc_responsePackets record)\<rparr>"

definition detail_body :: "MessageSide \<Rightarrow> TransactionRecord \<Rightarrow> BodyRef option" where
  "detail_body side record = (case side of Request \<Rightarrow> rc_requestBody record | Response \<Rightarrow> rc_responseBody record)"

definition replaceBody :: "MessageSide \<Rightarrow> BodyRef \<Rightarrow> TransactionRecord \<Rightarrow> TransactionRecord" where
  "replaceBody side bodyReference record =
     (case side of Request \<Rightarrow> record\<lparr>rc_requestBody := Some bodyReference\<rparr> | Response \<Rightarrow> record\<lparr>rc_responseBody := Some bodyReference\<rparr>)"

definition intoBodyReferences :: "TransactionRecord \<Rightarrow> BodyRef list" where
  "intoBodyReferences record = List.map_filter id [rc_requestBody record, rc_responseBody record]"

definition refreshTruncatedFlag :: "TransactionRecord \<Rightarrow> TransactionRecord" where
  "refreshTruncatedFlag record =
     (let flags = tn_flags (rc_summary record)
      in record\<lparr>rc_summary := (rc_summary record)\<lparr>tn_flags := flags\<lparr>
           tf_bodyTruncated := list_ex (\<lambda>b. bm_truncated (bo_meta b)) (intoBodyReferences record),
           tf_headersTruncated := (rc_requestHeadersTruncated record \<or> rc_responseHeadersTruncated record)\<rparr>\<rparr>\<rparr>)"

definition clone_record :: "TransactionRecord \<Rightarrow> TransactionRecord" where
  "clone_record r = r\<lparr>rc_summary := clone_summary (rc_summary r), rc_requestHeaders := clone_vec clone_header (rc_requestHeaders r),
     rc_responseHeaders := clone_vec clone_header (rc_responseHeaders r), rc_requestBody := map_option clone_body (rc_requestBody r),
     rc_responseBody := map_option clone_body (rc_responseBody r), rc_requestPackets := clone_vec clone_packet (rc_requestPackets r),
     rc_responsePackets := clone_vec clone_packet (rc_responsePackets r)\<rparr>"

section \<open>The entity index\<close>

text \<open>A \<open>BTreeSet\<close> is an ascending list.\<close>

definition bts_insert :: "'a::linorder \<Rightarrow> 'a list \<Rightarrow> 'a list" where
  "bts_insert x xs = (if x \<in> set xs then xs else insort x xs)"

definition completeRange :: "BodyHandleMeta \<Rightarrow> nat \<Rightarrow> nat \<Rightarrow> bool" where
  "completeRange body start end =
     (start \<le> end \<and> end - start + 1 < 2 ^ 64 \<and> \<not> bm_truncated body \<and> bm_originalBytes body = end - start + 1 \<and> bm_storedBytes body = end - start + 1)"

definition responseRangeCandidate :: "TransactionRecord \<Rightarrow> ResponseRangeCandidate option" where
  "responseRangeCandidate record =
     (let summary = rc_summary record
      in if tn_status summary \<noteq> Complete \<or> tn_statusCode summary \<noteq> Some 206 then None
         else (case responseContentRange (items (rc_responseHeaders record)) of
                 None \<Rightarrow> None
               | Some (start, end, _) \<Rightarrow>
                   (case rc_responseBody record of
                      None \<Rightarrow> None
                    | Some b \<Rightarrow>
                        if \<not> completeRange (bo_meta b) start end then None
                        else Some \<lparr>rx_transactionId = clone_text (tn_transactionId summary), rx_sequence = tn_sequence summary,
                                   rx_start = start, rx_end = end, rx_body = clone_meta (bo_meta b)\<rparr>)))"

definition responseEntityEntry :: "TransactionRecord \<Rightarrow> (ResponseEntityIndexKey \<times> ResponseRangeCandidate) option" where
  "responseEntityEntry record =
     (case (responseRangeCandidate record, strongResponseEntityTag (items (rc_responseHeaders record)), responseContentRange (items (rc_responseHeaders record))) of
        (Some candidate, Some entityTag, Some (_, _, totalBytes)) \<Rightarrow>
          Some (\<lparr>ik_urlDisplay = tx (tn_urlDisplay (rc_summary record)), ik_entityTag = entityTag, ik_totalBytes = totalBytes,
                 ik_contentEncoding = to_ascii_lowercase (tx (bm_encoding (rx_body candidate)))\<rparr>, candidate)
      | _ \<Rightarrow> None)"

definition insertResponseEntityEntry :: "str \<Rightarrow> RecordingStateInner \<Rightarrow> RecordingStateInner" where
  "insertResponseEntityEntry transactionId state =
     (case Option.bind (hm_get (re_transactions state) transactionId) responseEntityEntry of
        None \<Rightarrow> state
      | Some (key, candidate) \<Rightarrow>
          state\<lparr>re_responseEntityIndex := hm_insert key
            (bts_insert (rx_sequence candidate, tx (rx_transactionId candidate)) (hm_entry_or (re_responseEntityIndex state) key []))
            (re_responseEntityIndex state)\<rparr>)"

definition removeResponseEntityEntry :: "TransactionRecord \<Rightarrow> RecordingStateInner \<Rightarrow> RecordingStateInner" where
  "removeResponseEntityEntry record state =
     (case responseEntityEntry record of
        None \<Rightarrow> state
      | Some (key, candidate) \<Rightarrow>
          (case hm_get (re_responseEntityIndex state) key of
             None \<Rightarrow> state
           | Some members \<Rightarrow>
               (let members = removeAll (rx_sequence candidate, tx (rx_transactionId candidate)) members
                in state\<lparr>re_responseEntityIndex :=
                     (if members = [] then hm_remove key (re_responseEntityIndex state)
                      else hm_insert key members (re_responseEntityIndex state))\<rparr>)))"

section \<open>Sizes\<close>

definition transactionBodyBytes :: "TransactionRecord \<Rightarrow> nat" where
  "transactionBodyBytes record = sum_list (map (\<lambda>b. bm_storedBytes (bo_meta b)) (intoBodyReferences record))"

definition responseEntityIndexMetadataBytes :: "layout \<Rightarrow> TransactionSummary \<Rightarrow> HeaderField list \<Rightarrow> BodyRef option \<Rightarrow> nat" where
  "responseEntityIndexMetadataBytes ly summary responseHeaders responseBody =
     (if tn_status summary \<noteq> Complete \<or> tn_statusCode summary \<noteq> Some 206 then 0
      else (case (strongResponseEntityTag responseHeaders, responseContentRange responseHeaders, responseBody) of
              (Some entityTag, Some (start, end, _), Some b) \<Rightarrow>
                if \<not> completeRange (bo_meta b) start end then 0
                else usize_add (usize_add (usize_add (usize_add (usize_add (usize_add (ly_ResponseEntityIndexKey ly)
                       (cap (tn_urlDisplay summary))) (str_len entityTag)) (cap (bm_encoding (bo_meta b)))) (ly_IndexMember ly))
                       (cap (tn_transactionId summary))) (usize_mul (ly_usize ly) 8)
            | _ \<Rightarrow> 0))"

definition streamPacketStorageBytes :: "layout \<Rightarrow> StreamPacket vec \<Rightarrow> nat" where
  "streamPacketStorageBytes ly packets =
     fold (\<lambda>packet total. fold (\<lambda>change total. usize_add (usize_add total (room (sn_originalBytes change))) (room (sn_modifiedBytes change)))
         (sk_modifications packet) total)
       (items packets) (usize_mul (ly_StreamPacket ly) (room packets))"

definition bodyReferenceMetadataBytes :: "TransactionRecord \<Rightarrow> nat" where
  "bodyReferenceMetadataBytes record = sum_list (map metadataStorageBytes (intoBodyReferences record))"

definition transactionMetadataBytes :: "layout \<Rightarrow> TransactionRecord \<Rightarrow> nat" where
  "transactionMetadataBytes ly record =
     (let transactionIdBytes = usize_add (ly_String ly) (cap (tn_transactionId (rc_summary record)));
          recordFixedBytes = ly_TransactionRecord ly - ly_TransactionSummary ly
      in fold (\<lambda>part total. usize_add total part)
           [rc_summaryStorageBytes record, usize_mul transactionIdBytes 2, usize_mul (ly_usize ly) 2,
            responseEntityIndexMetadataBytes ly (rc_summary record) (items (rc_responseHeaders record)) (rc_responseBody record),
            headerStorageBytes ly (rc_requestHeaders record), headerStorageBytes ly (rc_responseHeaders record),
            streamPacketStorageBytes ly (rc_requestPackets record), streamPacketStorageBytes ly (rc_responsePackets record),
            (if tn_status (rc_summary record) = Pending then 0 else bodyReferenceMetadataBytes record)]
           recordFixedBytes)"

definition cleanupBodyReferenceMetadataBytes :: "layout \<Rightarrow> BodyRef \<Rightarrow> nat" where
  "cleanupBodyReferenceMetadataBytes ly b = usize_add (ly_BodyRef ly) (metadataStorageBytes b)"

definition cleanupBodyReferencesMetadataBytes :: "layout \<Rightarrow> TransactionRecord \<Rightarrow> nat" where
  "cleanupBodyReferencesMetadataBytes ly record = sum_list (map (cleanupBodyReferenceMetadataBytes ly) (intoBodyReferences record))"

section \<open>Removal\<close>

definition notifyChanged :: "RecordingStateInner \<Rightarrow> RecordingStateInner" where
  "notifyChanged state = state\<lparr>re_revision := saturating_add (re_revision state) 1\<rparr>"

definition markCollectionChanged :: "RecordingStateInner \<Rightarrow> RecordingStateInner" where
  "markCollectionChanged state = state\<lparr>re_collectionVersion := saturating_add (re_collectionVersion state) 1\<rparr>"

definition enqueueBodyReferences :: "layout \<Rightarrow> BodyRef list \<Rightarrow> RecordingStateInner \<Rightarrow> RecordingStateInner" where
  "enqueueBodyReferences ly bodyReferences state =
     state\<lparr>re_totalMetadataBytes := usize_add (re_totalMetadataBytes state) (sum_list (map (cleanupBodyReferenceMetadataBytes ly) bodyReferences)),
           re_cleanupQueue := re_cleanupQueue state @ bodyReferences\<rparr>"

definition dropTransaction :: "layout \<Rightarrow> str \<Rightarrow> TransactionRecord \<Rightarrow> RecordingStateInner \<Rightarrow> RecordingStateInner" where
  "dropTransaction ly transactionId record state =
     (let state = removeResponseEntityEntry record (state\<lparr>re_transactions := hm_remove transactionId (re_transactions state)\<rparr>)
      in state\<lparr>re_totalBodyBytes := re_totalBodyBytes state - transactionBodyBytes record,
               re_totalMetadataBytes := re_totalMetadataBytes state - transactionMetadataBytes ly record,
               re_droppedCount := saturating_add (re_droppedCount state) 1\<rparr>)"

fun removeLoop :: "layout \<Rightarrow> str list \<Rightarrow> RecordingStateInner \<Rightarrow> BodyRef list \<times> bool \<times> RecordingStateInner" where
  "removeLoop ly [] state = ([], False, state)"
| "removeLoop ly (transactionId # transactionIds) state =
     (case hm_get (re_transactions state) transactionId of
        None \<Rightarrow> removeLoop ly transactionIds state
      | Some record \<Rightarrow>
          (case removeLoop ly transactionIds (dropTransaction ly transactionId record state) of
             (bodies, removedAny, state) \<Rightarrow> (intoBodyReferences record @ bodies, True, state)))"

definition removeTransactions :: "layout \<Rightarrow> str list \<Rightarrow> RecordingStateInner \<Rightarrow> BodyRef list \<times> RecordingStateInner" where
  "removeTransactions ly transactionIds state =
     (if transactionIds = [] then ([], state)
      else
        (let state = state\<lparr>re_order := filter (\<lambda>identifier. identifier \<notin> set transactionIds) (re_order state)\<rparr>;
             (bodies, removedAny, state) = removeLoop ly transactionIds state
         in (bodies, if removedAny then markCollectionChanged state else state)))"

definition removeAllTransactions :: "layout \<Rightarrow> RecordingStateInner \<Rightarrow> BodyRef list \<times> RecordingStateInner" where
  "removeAllTransactions ly state =
     (let removedRecords = map snd (re_transactions state)
      in (concat (map intoBodyReferences removedRecords),
          state\<lparr>re_responseEntityIndex := [], re_transactions := [], re_order := [], re_totalBodyBytes := 0,
                re_totalMetadataBytes := re_totalMetadataBytes state - sum_list (map (transactionMetadataBytes ly) removedRecords)\<rparr>))"

section \<open>Planning\<close>

definition canAdmitTransaction :: "nat \<Rightarrow> RecordingStateInner \<Rightarrow> bool" where
  "canAdmitTransaction newTransactionBytes state =
     (length (re_transactions state) < li_maxTransactions (re_limits state)
      \<and> usize_add (re_totalMetadataBytes state) newTransactionBytes \<le> re_metadataMemoryBudgetBytes state)"

fun planAdmission :: "layout \<Rightarrow> RecordingStateInner \<Rightarrow> nat \<Rightarrow> str list \<Rightarrow> nat \<Rightarrow> nat \<Rightarrow> str list" where
  "planAdmission ly state newTransactionBytes [] retainedCount retainedMetadataBytes = []"
| "planAdmission ly state newTransactionBytes (transactionId # order) retainedCount retainedMetadataBytes =
     (if retainedCount < li_maxTransactions (re_limits state)
         \<and> usize_add retainedMetadataBytes newTransactionBytes \<le> re_metadataMemoryBudgetBytes state
      then []
      else (case hm_get (re_transactions state) transactionId of
              None \<Rightarrow> planAdmission ly state newTransactionBytes order retainedCount retainedMetadataBytes
            | Some record \<Rightarrow>
                if tn_status (rc_summary record) = Pending
                then planAdmission ly state newTransactionBytes order retainedCount retainedMetadataBytes
                else transactionId # planAdmission ly state newTransactionBytes order (retainedCount - 1)
                       (retainedMetadataBytes - transactionMetadataBytes ly record)))"

definition planTransactionAdmissionEvictions :: "layout \<Rightarrow> nat \<Rightarrow> RecordingStateInner \<Rightarrow> str list" where
  "planTransactionAdmissionEvictions ly newTransactionBytes state =
     planAdmission ly state newTransactionBytes (re_order state) (length (re_transactions state)) (re_totalMetadataBytes state)"

fun planLimits :: "RecordingStateInner \<Rightarrow> str list \<Rightarrow> nat \<Rightarrow> nat \<Rightarrow> str list" where
  "planLimits state [] retainedCount retainedBodyBytes = []"
| "planLimits state (transactionId # order) retainedCount retainedBodyBytes =
     (if retainedCount \<le> li_maxTransactions (re_limits state) \<and> retainedBodyBytes \<le> li_maxTotalBodyBytes (re_limits state) then []
      else (case hm_get (re_transactions state) transactionId of
              None \<Rightarrow> planLimits state order retainedCount retainedBodyBytes
            | Some record \<Rightarrow>
                if tn_status (rc_summary record) = Pending then planLimits state order retainedCount retainedBodyBytes
                else transactionId # planLimits state order (retainedCount - 1) (retainedBodyBytes - transactionBodyBytes record)))"

definition enforceAllLimits :: "layout \<Rightarrow> RecordingStateInner \<Rightarrow> BodyRef list \<times> RecordingStateInner" where
  "enforceAllLimits ly state =
     removeTransactions ly (planLimits state (re_order state) (length (re_transactions state)) (re_totalBodyBytes state)) state"

fun planBody :: "RecordingStateInner \<Rightarrow> str \<Rightarrow> str list \<Rightarrow> nat \<Rightarrow> str list" where
  "planBody state currentTransactionId [] requiredBytes = []"
| "planBody state currentTransactionId (transactionId # order) requiredBytes =
     (if transactionId = currentTransactionId then planBody state currentTransactionId order requiredBytes
      else (case hm_get (re_transactions state) transactionId of
              None \<Rightarrow> planBody state currentTransactionId order requiredBytes
            | Some record \<Rightarrow>
                if tn_status (rc_summary record) = Pending then planBody state currentTransactionId order requiredBytes
                else
                  (let requiredBytes = requiredBytes - transactionBodyBytes record
                   in transactionId # (if requiredBytes = 0 then [] else planBody state currentTransactionId order requiredBytes))))"

definition planBodyBudgetEvictions :: "str \<Rightarrow> nat \<Rightarrow> nat \<Rightarrow> RecordingStateInner \<Rightarrow> str list" where
  "planBodyBudgetEvictions currentTransactionId baseTotalBytes desiredBytes state =
     (let requiredBytes = usize_add baseTotalBytes desiredBytes - li_maxTotalBodyBytes (re_limits state)
      in if requiredBytes = 0 then [] else planBody state currentTransactionId (re_order state) requiredBytes)"

fun planMetadata :: "layout \<Rightarrow> RecordingStateInner \<Rightarrow> str \<Rightarrow> str list \<Rightarrow> nat \<Rightarrow> str list" where
  "planMetadata ly state currentTransactionId [] requiredBytes = []"
| "planMetadata ly state currentTransactionId (transactionId # order) requiredBytes =
     (if requiredBytes = 0 then []
      else if transactionId = currentTransactionId then planMetadata ly state currentTransactionId order requiredBytes
      else (case hm_get (re_transactions state) transactionId of
              None \<Rightarrow> planMetadata ly state currentTransactionId order requiredBytes
            | Some record \<Rightarrow>
                if tn_status (rc_summary record) = Pending then planMetadata ly state currentTransactionId order requiredBytes
                else transactionId # planMetadata ly state currentTransactionId order
                       (requiredBytes - (transactionMetadataBytes ly record - cleanupBodyReferencesMetadataBytes ly record))))"

definition planMetadataBudgetEvictions :: "layout \<Rightarrow> str \<Rightarrow> nat \<Rightarrow> RecordingStateInner \<Rightarrow> str list" where
  "planMetadataBudgetEvictions ly currentTransactionId requiredIncrease state =
     planMetadata ly state currentTransactionId (re_order state)
       (usize_add (re_totalMetadataBytes state) requiredIncrease - re_metadataMemoryBudgetBytes state)"

definition evictedRecords :: "str list \<Rightarrow> RecordingStateInner \<Rightarrow> TransactionRecord list" where
  "evictedRecords evictionIds state = List.map_filter (hm_get (re_transactions state)) evictionIds"

section \<open>Replacement within the budget\<close>

text \<open>
  The common part of both replacements: the current record is measured as \<open>oldTransactionBytes\<close>, its successor
  as \<open>newTransactionBytes\<close>; other finished transactions make room, and where that is not enough nothing changes.
\<close>

definition replaceWithinBudget ::
  "layout \<Rightarrow> str \<Rightarrow> nat \<Rightarrow> nat \<Rightarrow> (TransactionRecord \<Rightarrow> TransactionRecord) \<Rightarrow> RecordingStateInner \<Rightarrow> (CaptureError, BodyRef list \<times> RecordingStateInner) outcome" where
  "replaceWithinBudget ly transactionId oldTransactionBytes newTransactionBytes change state =
     (let requiredIncrease = newTransactionBytes - oldTransactionBytes;
          evictionIds = planMetadataBudgetEvictions ly transactionId requiredIncrease state;
          freedBytes = sum_list (map (transactionMetadataBytes ly) (evictedRecords evictionIds state));
          deferredCleanupBytes = sum_list (map (cleanupBodyReferencesMetadataBytes ly) (evictedRecords evictionIds state));
          projectedVisibleBytes = usize_add (re_totalMetadataBytes state - oldTransactionBytes - freedBytes) newTransactionBytes
      in if re_metadataMemoryBudgetBytes state < usize_add projectedVisibleBytes deferredCleanupBytes then Err MetadataMemoryBudgetExceeded
         else
           (let (removedBodies, state) = removeTransactions ly evictionIds state
            in if hm_get (re_transactions state) transactionId = None then Err TransactionNotFound
               else Ok (removedBodies, state\<lparr>re_transactions := hm_modify transactionId change (re_transactions state),
                                             re_totalMetadataBytes := projectedVisibleBytes\<rparr>)))"

definition set_packets :: "MessageSide \<Rightarrow> StreamPacket vec \<Rightarrow> TransactionRecord \<Rightarrow> TransactionRecord" where
  "set_packets side packets record =
     (case side of Request \<Rightarrow> record\<lparr>rc_requestPackets := packets\<rparr> | Response \<Rightarrow> record\<lparr>rc_responsePackets := packets\<rparr>)"

definition replaceStreamPacketsWithinMetadataBudget ::
  "layout \<Rightarrow> str \<Rightarrow> MessageSide \<Rightarrow> StreamPacket vec \<Rightarrow> RecordingStateInner \<Rightarrow> (CaptureError, BodyRef list \<times> RecordingStateInner) outcome" where
  "replaceStreamPacketsWithinMetadataBudget ly transactionId side packets state =
     (case hm_get (re_transactions state) transactionId of
        None \<Rightarrow> Err TransactionNotFound
      | Some currentRecord \<Rightarrow>
          replaceWithinBudget ly transactionId (transactionMetadataBytes ly currentRecord)
            (transactionMetadataBytes ly (set_packets side packets (clone_record currentRecord))) (set_packets side packets) state)"

definition replaceSummaryWithinMetadataBudget ::
  "layout \<Rightarrow> str \<Rightarrow> TransactionSummary \<Rightarrow> nat \<Rightarrow> RecordingStateInner \<Rightarrow> (CaptureError, BodyRef list \<times> RecordingStateInner) outcome" where
  "replaceSummaryWithinMetadataBudget ly transactionId summary summaryBytes state =
     (if maximumTransactionSummaryBytes < summaryBytes then Err MetadataMemoryBudgetExceeded
      else
        (case hm_get (re_transactions state) transactionId of
           None \<Rightarrow> Err TransactionNotFound
         | Some currentRecord \<Rightarrow>
             (let headers = items (rc_responseHeaders currentRecord);
                  oldTransactionBytes = transactionMetadataBytes ly currentRecord;
                  oldIndexBytes = responseEntityIndexMetadataBytes ly (rc_summary currentRecord) headers (rc_responseBody currentRecord);
                  newIndexBytes = responseEntityIndexMetadataBytes ly summary headers (rc_responseBody currentRecord);
                  oldBodyReferenceBytes = (if tn_status (rc_summary currentRecord) = Pending then 0 else bodyReferenceMetadataBytes currentRecord);
                  newBodyReferenceBytes = (if tn_status summary = Pending then 0 else bodyReferenceMetadataBytes currentRecord);
                  newTransactionBytes = usize_add (usize_add (usize_add
                    (oldTransactionBytes - rc_summaryStorageBytes currentRecord - oldBodyReferenceBytes - oldIndexBytes)
                    summaryBytes) newBodyReferenceBytes) newIndexBytes
              in replaceWithinBudget ly transactionId oldTransactionBytes newTransactionBytes
                   (\<lambda>record. record\<lparr>rc_summary := summary, rc_summaryStorageBytes := summaryBytes\<rparr>) state)))"

definition finalizeSummaryWithinLimits ::
  "layout \<Rightarrow> str \<Rightarrow> TransactionSummary \<Rightarrow> nat \<Rightarrow> RecordingStateInner \<Rightarrow> (CaptureError, BodyRef list \<times> RecordingStateInner) outcome" where
  "finalizeSummaryWithinLimits ly transactionId summary summaryBytes state =
     and_then (replaceSummaryWithinMetadataBudget ly transactionId summary summaryBytes state) (\<lambda>(removedBodies, state).
       (let (more, state) = enforceAllLimits ly state
        in Ok (removedBodies @ more, insertResponseEntityEntry transactionId state)))"

section \<open>Cleanup\<close>

text \<open>The guard of a file that no record owns: the file is deleted, and one that cannot be deleted becomes an orphan.\<close>

definition dropFile :: "disk \<Rightarrow> str \<Rightarrow> RecordingStateInner \<Rightarrow> RecordingStateInner" where
  "dropFile disk path state =
     (case dk_remove disk path of
        None \<Rightarrow> state\<lparr>re_files := hm_remove path (re_files state)\<rparr>
      | Some _ \<Rightarrow> state\<lparr>re_orphanedSpills := List.insert path (re_orphanedSpills state)\<rparr>)"

definition removeBody :: "disk \<Rightarrow> BodyRef \<Rightarrow> RecordingStateInner \<Rightarrow> string option \<times> RecordingStateInner" where
  "removeBody disk bodyReference state =
     (case bo_storage bodyReference of
        MemoryBody _ \<Rightarrow> (None, state)
      | SpillBody path \<Rightarrow>
          (case dk_remove disk (tx path) of
             Some e \<Rightarrow> (Some e, state)
           | None \<Rightarrow> (None, state\<lparr>re_files := hm_remove (tx path) (re_files state)\<rparr>)))"

fun drainQueue :: "layout \<Rightarrow> disk \<Rightarrow> BodyRef list \<Rightarrow> RecordingStateInner \<Rightarrow> string option \<times> RecordingStateInner" where
  "drainQueue ly disk [] state = (None, state)"
| "drainQueue ly disk (bodyReference # queue) state =
     (case removeBody disk bodyReference state of
        (Some e, state) \<Rightarrow> (Some e, state)
      | (None, state) \<Rightarrow>
          drainQueue ly disk queue (notifyChanged (state\<lparr>re_cleanupQueue := queue,
            re_totalMetadataBytes := re_totalMetadataBytes state - cleanupBodyReferenceMetadataBytes ly bodyReference\<rparr>)))"

fun cleanupOrphans :: "disk \<Rightarrow> str list \<Rightarrow> RecordingStateInner \<Rightarrow> string option \<times> RecordingStateInner" where
  "cleanupOrphans disk [] state = (None, state)"
| "cleanupOrphans disk (path # paths) state =
     (case dk_remove disk path of
        Some e \<Rightarrow> (Some e, state)
      | None \<Rightarrow> cleanupOrphans disk paths (state\<lparr>re_orphanedSpills := paths, re_files := hm_remove path (re_files state)\<rparr>))"

definition clearDirectory :: "disk \<Rightarrow> RecordingStateInner \<Rightarrow> string option \<times> RecordingStateInner" where
  "clearDirectory disk state =
     (case dk_clear disk of
        Some (e, survives) \<Rightarrow> (Some e, state\<lparr>re_files := hm_retain (\<lambda>path _. survives path) (re_files state)\<rparr>)
      | None \<Rightarrow> (None, state\<lparr>re_files := [], re_orphanedSpills := []\<rparr>))"

definition drainCleanupQueueLocked :: "layout \<Rightarrow> disk \<Rightarrow> RecordingStateInner \<Rightarrow> (CaptureError, unit) outcome \<times> RecordingStateInner" where
  "drainCleanupQueueLocked ly disk state =
     (case drainQueue ly disk (re_cleanupQueue state) state of
        (Some e, state) \<Rightarrow> (Err (CaptureIo e), state)
      | (None, state) \<Rightarrow>
          (case cleanupOrphans disk (re_orphanedSpills state) state of
             (Some e, state) \<Rightarrow> (Err (CaptureIo e), state)
           | (None, cleaned) \<Rightarrow>
               (let state = (if length (re_orphanedSpills cleaned) \<noteq> length (re_orphanedSpills state) then notifyChanged cleaned else cleaned)
                in if \<not> re_directoryCleanupPending state then (Ok (), state)
                   else (case clearDirectory disk state of
                           (Some e, state) \<Rightarrow> (Err (CaptureIo e), state)
                         | (None, state) \<Rightarrow> (Ok (), notifyChanged (state\<lparr>re_directoryCleanupPending := False\<rparr>))))))"

text \<open>The end of an operation that has changed the state: it is announced, the queue is drained, and a failure of that is the result.\<close>

definition finishWithCleanup :: "layout \<Rightarrow> disk \<Rightarrow> 'a \<Rightarrow> RecordingStateInner \<Rightarrow> (CaptureError, 'a) outcome \<times> RecordingStateInner" where
  "finishWithCleanup ly disk result state =
     (case drainCleanupQueueLocked ly disk (notifyChanged state) of (r, state) \<Rightarrow> (and_then r (\<lambda>_. Ok result), state))"

end
