(* ===== verification/RecordingOperations.thy ===== *)
theory RecordingOperations
  imports Recording
begin

text \<open>The methods of \<open>RecordingSession\<close> in \<open>Capture/src/recordingSession.rs\<close>.\<close>

type_synonym 'a recording_result = "(CaptureError, 'a) outcome \<times> RecordingStateInner"

section \<open>Creation and settings\<close>

fun validatePatterns :: "LocationPattern list \<Rightarrow> (CaptureError, unit) outcome" where
  "validatePatterns [] = Ok ()"
| "validatePatterns (pattern # patterns) =
     (case validateLocationPattern pattern of
        Ok _ \<Rightarrow> validatePatterns patterns
      | Err e \<Rightarrow> Err (LocationFailure e)
      | Panic \<Rightarrow> Panic)"

definition RecordingSession_new :: "RecordingConfiguration \<Rightarrow> str \<Rightarrow> u64 \<Rightarrow> string option \<Rightarrow> (CaptureError, RecordingStateInner) outcome" where
  "RecordingSession_new configuration recordingSessionId now createFault =
     (if \<not> isValid (rf_limits configuration) then Err InvalidLimits
      else if rf_memoryBodyThreshold configuration = 0 then Err InvalidMemoryThreshold
      else if rf_metadataMemoryBudgetBytes configuration < minimumMetadataMemoryBudgetBytes then Err InvalidMetadataMemoryBudget
      else and_then (validatePatterns (rf_ignoreLocations configuration)) (\<lambda>_.
             case createFault of
               Some e \<Rightarrow> Err (CaptureIo e)
             | None \<Rightarrow> Ok \<lparr>re_recordingState = Recording, re_recordingSessionId = recordingSessionId, re_startedAtMilliseconds = now,
                          re_nextSequence = 1, re_droppedCount = 0, re_totalBodyBytes = 0, re_totalMetadataBytes = 0,
                          re_metadataMemoryBudgetBytes = rf_metadataMemoryBudgetBytes configuration, re_collectionVersion = 0,
                          re_limits = rf_limits configuration, re_ignoreLocations = rf_ignoreLocations configuration,
                          re_recordTunnelMetadata = rf_recordTunnelMetadata configuration, re_transactions = [], re_responseEntityIndex = [],
                          re_order = [], re_cleanupQueue = [], re_directoryCleanupPending = False, re_closed = False,
                          re_memoryThreshold = rf_memoryBodyThreshold configuration, re_files = [], re_orphanedSpills = [], re_revision = 0\<rparr>))"

definition ensureOpen :: "RecordingStateInner \<Rightarrow> 'a recording_result \<Rightarrow> 'a recording_result" where
  "ensureOpen state result = (if re_closed state then (Err SessionClosed, state) else result)"

definition startRecording :: "RecordingStateInner \<Rightarrow> unit recording_result" where
  "startRecording state = ensureOpen state (Ok (), notifyChanged (state\<lparr>re_recordingState := Recording\<rparr>))"

definition pauseRecording :: "RecordingStateInner \<Rightarrow> unit recording_result" where
  "pauseRecording state = ensureOpen state (Ok (), notifyChanged (state\<lparr>re_recordingState := Paused\<rparr>))"

definition setLimits :: "RecordingLimits \<Rightarrow> RecordingStateInner \<Rightarrow> unit recording_result" where
  "setLimits limits state = ensureOpen state (if limits \<noteq> re_limits state then Err InvalidLimits else Ok (), state)"

definition setIgnoreLocations :: "LocationPattern list \<Rightarrow> RecordingStateInner \<Rightarrow> unit recording_result" where
  "setIgnoreLocations patterns state =
     (case validatePatterns patterns of
        Ok _ \<Rightarrow> ensureOpen state (Ok (), notifyChanged (state\<lparr>re_ignoreLocations := patterns\<rparr>))
      | Err e \<Rightarrow> (Err e, state)
      | Panic \<Rightarrow> (Panic, state))"

definition setRecordTunnelMetadata :: "bool \<Rightarrow> RecordingStateInner \<Rightarrow> unit recording_result" where
  "setRecordTunnelMetadata enabled state = ensureOpen state (Ok (), notifyChanged (state\<lparr>re_recordTunnelMetadata := enabled\<rparr>))"

definition applySettings :: "RecordingSettingsUpdate \<Rightarrow> RecordingStateInner \<Rightarrow> RecordingStateInner" where
  "applySettings update state =
     (let state = (case ru_state update of None \<Rightarrow> state | Some s \<Rightarrow> state\<lparr>re_recordingState := s\<rparr>);
          state = (case ru_ignoreLocations update of None \<Rightarrow> state | Some patterns \<Rightarrow> state\<lparr>re_ignoreLocations := patterns\<rparr>)
      in case ru_recordTunnelMetadata update of None \<Rightarrow> state | Some enabled \<Rightarrow> state\<lparr>re_recordTunnelMetadata := enabled\<rparr>)"

definition updateSettings :: "layout \<Rightarrow> disk \<Rightarrow> RecordingSettingsUpdate \<Rightarrow> RecordingStateInner \<Rightarrow> unit recording_result" where
  "updateSettings ly disk update state =
     (if ru_limits update \<noteq> None then (Err InvalidLimits, state)
      else (case validatePatterns (case ru_ignoreLocations update of None \<Rightarrow> [] | Some patterns \<Rightarrow> patterns) of
              Ok _ \<Rightarrow> ensureOpen state (finishWithCleanup ly disk () (applySettings update state))
            | Err e \<Rightarrow> (Err e, state)
            | Panic \<Rightarrow> (Panic, state)))"

section \<open>Admission\<close>

definition LocationPattern_default :: LocationPattern where
  "LocationPattern_default = \<lparr>lp_protocol = [], lp_host = [], lp_port = [], lp_path = [], lp_query = None\<rparr>"

fun ignored :: "(str \<Rightarrow> str) \<Rightarrow> ResolvedLocation \<Rightarrow> LocationPattern list \<Rightarrow> (CaptureError, bool) outcome" where
  "ignored lower location [] = Ok False"
| "ignored lower location (pattern # patterns) =
     (case locationMatches lower pattern location LocationMatchOptions_default of
        Ok True \<Rightarrow> Ok True
      | Ok False \<Rightarrow> ignored lower location patterns
      | Err e \<Rightarrow> Err (LocationFailure e)
      | Panic \<Rightarrow> Panic)"

definition shouldRecordFromState :: "(str \<Rightarrow> str) \<Rightarrow> ResolvedLocation \<Rightarrow> RecordingStateInner \<Rightarrow> (CaptureError, bool) outcome" where
  "shouldRecordFromState lower location state =
     (if re_recordingState state = Paused then Ok False
      else and_then (ignored lower location (re_ignoreLocations state)) (\<lambda>hit.
             if hit then Ok False
             else (case locationMatches lower LocationPattern_default location LocationMatchOptions_default of
                     Ok b \<Rightarrow> Ok b
                   | Err e \<Rightarrow> Err (LocationFailure e)
                   | Panic \<Rightarrow> Panic)))"

definition TransactionFlags_default :: TransactionFlags where
  "TransactionFlags_default = \<lparr>tf_mappedLocal = False, tf_mappedRemote = False, tf_rewritten = False, tf_breakpointHit = False, tf_throttled = False,
     tf_mitmDecrypted = False, tf_bodyTruncated = False, tf_headersTruncated = False, tf_fromCache = False\<rparr>"

definition newSummary :: "BeginTransaction \<Rightarrow> str \<Rightarrow> RecordingStateInner \<Rightarrow> TransactionSummary" where
  "newSummary input transactionId state =
     \<lparr>tn_transactionId = owned transactionId, tn_recordingSessionId = owned (re_recordingSessionId state), tn_sequence = re_nextSequence state,
      tn_protocol = bn_protocol input, tn_method = bn_method input, tn_host = lx_host (bn_location input),
      tn_port = rl_port (lx_location (bn_location input)), tn_path = lx_path (bn_location input), tn_query = lx_query (bn_location input),
      tn_urlDisplay = lx_display (bn_location input), tn_status = Pending, tn_statusCode = None, tn_clientAddress = bn_clientAddress input,
      tn_clientProcessName = bn_clientProcessName input, tn_clientProcessId = bn_clientProcessId input, tn_contentType = bn_contentType input,
      tn_timings = \<lparr>ti_startAtMilliseconds = bn_startAtMilliseconds input, ti_dnsEndAtMilliseconds = None, ti_connectEndAtMilliseconds = None,
        ti_tlsEndAtMilliseconds = None, ti_requestSentAtMilliseconds = None, ti_responseStartAtMilliseconds = None, ti_endAtMilliseconds = None\<rparr>,
      tn_sizes = \<lparr>tz_requestHeaderBytes = 0, tz_requestBodyBytes = 0, tz_responseHeaderBytes = 0, tz_responseBodyBytes = 0\<rparr>,
      tn_flags = TransactionFlags_default, tn_error = None, tn_notes = owned [], tn_tags = vec_of [], tn_appliedTools = vec_of []\<rparr>"

definition newRecord :: "layout \<Rightarrow> TransactionSummary \<Rightarrow> TransactionRecord" where
  "newRecord ly summary = \<lparr>rc_summary = summary, rc_summaryStorageBytes = summaryStorageBytes ly summary, rc_requestHeaders = vec_of [],
     rc_responseHeaders = vec_of [], rc_requestBody = None, rc_responseBody = None, rc_requestPackets = vec_of [], rc_responsePackets = vec_of [],
     rc_requestHeadersTruncated = False, rc_responseHeadersTruncated = False\<rparr>"

definition admitRecord :: "layout \<Rightarrow> str \<Rightarrow> TransactionRecord \<Rightarrow> RecordingStateInner \<Rightarrow> str option recording_result" where
  "admitRecord ly transactionId record state =
     (let newTransactionBytes = transactionMetadataBytes ly record
      in if \<not> canAdmitTransaction newTransactionBytes state
         then (Ok None, notifyChanged (state\<lparr>re_droppedCount := saturating_add (re_droppedCount state) 1\<rparr>))
         else (Ok (Some transactionId),
               notifyChanged (state\<lparr>re_nextSequence := saturating_add (re_nextSequence state) 1, re_order := re_order state @ [transactionId],
                 re_transactions := hm_insert transactionId record (re_transactions state),
                 re_totalMetadataBytes := usize_add (re_totalMetadataBytes state) newTransactionBytes\<rparr>)))"

definition evictAndEnqueue :: "layout \<Rightarrow> str list \<Rightarrow> RecordingStateInner \<Rightarrow> RecordingStateInner" where
  "evictAndEnqueue ly evictionIds state =
     (let (removedBodies, state) = removeTransactions ly evictionIds state;
          state = enqueueBodyReferences ly removedBodies state
      in if evictionIds = [] then state else notifyChanged state)"

text \<open>The two drains of an admission meet the disk at different times.\<close>

definition beginTransaction ::
  "layout \<Rightarrow> (str \<Rightarrow> str) \<Rightarrow> disk \<Rightarrow> disk \<Rightarrow> BeginTransaction \<Rightarrow> str \<Rightarrow> RecordingStateInner \<Rightarrow> str option recording_result" where
  "beginTransaction ly lower disk disk2 input transactionId state = ensureOpen state
     (case drainCleanupQueueLocked ly disk state of
        (Err e, state) \<Rightarrow> (Err e, state)
      | (Panic, state) \<Rightarrow> (Panic, state)
      | (Ok _, state) \<Rightarrow>
          (case shouldRecordFromState lower (lx_location (bn_location input)) state of
             Err e \<Rightarrow> (Err e, state)
           | Panic \<Rightarrow> (Panic, state)
           | Ok wanted \<Rightarrow>
               if \<not> wanted \<or> ((bn_protocol input = Tunnel \<or> bn_protocol input = Socks) \<and> \<not> re_recordTunnelMetadata state) then (Ok None, state)
               else
                 (let record = newRecord ly (newSummary input transactionId state);
                      evictionIds = planTransactionAdmissionEvictions ly (transactionMetadataBytes ly record) state
                  in case drainCleanupQueueLocked ly disk2 (evictAndEnqueue ly evictionIds state) of
                       (Err e, state) \<Rightarrow> (Err e, state)
                     | (Panic, state) \<Rightarrow> (Panic, state)
                     | (Ok _, state) \<Rightarrow> admitRecord ly transactionId record state)))"

definition shouldRecord :: "(str \<Rightarrow> str) \<Rightarrow> ResolvedLocation \<Rightarrow> RecordingStateInner \<Rightarrow> (CaptureError, bool) outcome" where
  "shouldRecord lower location state = (if re_closed state then Err SessionClosed else shouldRecordFromState lower location state)"

section \<open>Updates\<close>

definition pendingRecord :: "str \<Rightarrow> RecordingStateInner \<Rightarrow> (CaptureError, TransactionRecord) outcome" where
  "pendingRecord transactionId state =
     (case hm_get (re_transactions state) transactionId of
        None \<Rightarrow> Err TransactionNotFound
      | Some record \<Rightarrow> if tn_status (rc_summary record) \<noteq> Pending then Err TransactionFinished else Ok record)"

definition applyTransactionUpdate :: "TransactionUpdate \<Rightarrow> TransactionSummary \<Rightarrow> TransactionSummary" where
  "applyTransactionUpdate update summary =
     (let summary = (case tu_method update of None \<Rightarrow> summary | Some m \<Rightarrow> summary\<lparr>tn_method := m\<rparr>);
          summary = (case tu_location update of
             None \<Rightarrow> summary
           | Some l \<Rightarrow> summary\<lparr>tn_host := lx_host l, tn_port := rl_port (lx_location l), tn_path := lx_path l, tn_query := lx_query l, tn_urlDisplay := lx_display l\<rparr>);
          summary = (case tu_statusCode update of None \<Rightarrow> summary | Some c \<Rightarrow> summary\<lparr>tn_statusCode := Some c\<rparr>);
          summary = (case tu_contentType update of None \<Rightarrow> summary | Some c \<Rightarrow> summary\<lparr>tn_contentType := c\<rparr>)
      in case tu_flags update of
           None \<Rightarrow> summary
         | Some flags \<Rightarrow> summary\<lparr>tn_flags := flags\<lparr>tf_bodyTruncated := tf_bodyTruncated (tn_flags summary), tf_headersTruncated := tf_headersTruncated (tn_flags summary)\<rparr>\<rparr>)"

definition applyUserUpdate :: "TransactionUserUpdate \<Rightarrow> TransactionSummary \<Rightarrow> TransactionSummary" where
  "applyUserUpdate update summary =
     (let summary = (case uu_notes update of None \<Rightarrow> summary | Some notes \<Rightarrow> summary\<lparr>tn_notes := notes\<rparr>);
          summary = (case uu_tags update of None \<Rightarrow> summary | Some tags \<Rightarrow> summary\<lparr>tn_tags := tags\<rparr>)
      in case uu_appliedTools update of None \<Rightarrow> summary | Some tools \<Rightarrow> summary\<lparr>tn_appliedTools := tools\<rparr>)"

definition later :: "'a option \<Rightarrow> 'a option \<Rightarrow> 'a option" where
  "later new old = (case new of None \<Rightarrow> old | Some v \<Rightarrow> Some v)"

definition later_value :: "'a option \<Rightarrow> 'a \<Rightarrow> 'a" where
  "later_value new old = (case new of None \<Rightarrow> old | Some v \<Rightarrow> v)"

definition applyProgressUpdate :: "TransactionProgressUpdate \<Rightarrow> TransactionSummary \<Rightarrow> TransactionSummary" where
  "applyProgressUpdate update summary =
     (let sizes = tn_sizes summary; timings = tn_timings summary
      in summary\<lparr>tn_sizes := \<lparr>tz_requestHeaderBytes = later_value (pu_requestHeaderBytes update) (tz_requestHeaderBytes sizes),
                   tz_requestBodyBytes = later_value (pu_requestBodyBytes update) (tz_requestBodyBytes sizes),
                   tz_responseHeaderBytes = later_value (pu_responseHeaderBytes update) (tz_responseHeaderBytes sizes),
                   tz_responseBodyBytes = later_value (pu_responseBodyBytes update) (tz_responseBodyBytes sizes)\<rparr>,
                 tn_timings := timings\<lparr>ti_dnsEndAtMilliseconds := later (pu_dnsEndAtMilliseconds update) (ti_dnsEndAtMilliseconds timings),
                   ti_connectEndAtMilliseconds := later (pu_connectEndAtMilliseconds update) (ti_connectEndAtMilliseconds timings),
                   ti_tlsEndAtMilliseconds := later (pu_tlsEndAtMilliseconds update) (ti_tlsEndAtMilliseconds timings),
                   ti_requestSentAtMilliseconds := later (pu_requestSentAtMilliseconds update) (ti_requestSentAtMilliseconds timings),
                   ti_responseStartAtMilliseconds := later (pu_responseStartAtMilliseconds update) (ti_responseStartAtMilliseconds timings)\<rparr>\<rparr>)"

text \<open>How the methods that replace a summary end: the removed bodies are queued and the change is announced.\<close>

definition replaced :: "layout \<Rightarrow> RecordingStateInner \<Rightarrow> (CaptureError, BodyRef list \<times> RecordingStateInner) outcome \<Rightarrow> unit recording_result" where
  "replaced ly state r =
     (case r of
        Ok (removedBodies, state) \<Rightarrow> (Ok (), notifyChanged (enqueueBodyReferences ly removedBodies state))
      | Err e \<Rightarrow> (Err e, state)
      | Panic \<Rightarrow> (Panic, state))"

definition updateTransaction :: "layout \<Rightarrow> str \<Rightarrow> TransactionUpdate \<Rightarrow> RecordingStateInner \<Rightarrow> unit recording_result" where
  "updateTransaction ly transactionId update state = ensureOpen state (replaced ly state
     (and_then (pendingRecord transactionId state) (\<lambda>record.
        let summary = applyTransactionUpdate update (clone_summary (rc_summary record))
        in replaceSummaryWithinMetadataBudget ly transactionId summary (summaryStorageBytes ly summary) state)))"

definition updateProgress :: "str \<Rightarrow> TransactionProgressUpdate \<Rightarrow> RecordingStateInner \<Rightarrow> unit recording_result" where
  "updateProgress transactionId update state = ensureOpen state
     (case pendingRecord transactionId state of
        Ok record \<Rightarrow> (Ok (), notifyChanged (state\<lparr>re_transactions :=
                         hm_modify transactionId (\<lambda>r. r\<lparr>rc_summary := applyProgressUpdate update (rc_summary r)\<rparr>) (re_transactions state)\<rparr>))
      | Err e \<Rightarrow> (Err e, state)
      | Panic \<Rightarrow> (Panic, state))"

definition updateUserFields :: "layout \<Rightarrow> str \<Rightarrow> TransactionUserUpdate \<Rightarrow> RecordingStateInner \<Rightarrow> unit recording_result" where
  "updateUserFields ly transactionId update state = ensureOpen state (replaced ly state
     (case hm_get (re_transactions state) transactionId of
        None \<Rightarrow> Err TransactionNotFound
      | Some record \<Rightarrow>
          (let summary = applyUserUpdate update (clone_summary (rc_summary record))
           in replaceSummaryWithinMetadataBudget ly transactionId summary (summaryStorageBytes ly summary) state)))"

text \<open>The four ways to end a transaction differ in the summary they write.\<close>

definition endTransaction :: "layout \<Rightarrow> str \<Rightarrow> (TransactionSummary \<Rightarrow> TransactionSummary) \<Rightarrow> RecordingStateInner \<Rightarrow> unit recording_result" where
  "endTransaction ly transactionId final state = ensureOpen state (replaced ly state
     (and_then (pendingRecord transactionId state) (\<lambda>record.
        let summary = final (clone_summary (rc_summary record))
        in finalizeSummaryWithinLimits ly transactionId summary (summaryStorageBytes ly summary) state)))"

definition completed :: "TransactionStatus \<Rightarrow> TransactionCompletion \<Rightarrow> TransactionSummary \<Rightarrow> TransactionSummary" where
  "completed status completion summary = summary\<lparr>tn_status := status, tn_statusCode := Some (tc_statusCode completion),
     tn_contentType := tc_contentType completion,
     tn_timings := (tn_timings summary)\<lparr>ti_endAtMilliseconds := Some (tc_endAtMilliseconds completion)\<rparr>\<rparr>"

definition failed :: "TransactionStatus \<Rightarrow> TransactionError \<Rightarrow> u64 \<Rightarrow> TransactionSummary \<Rightarrow> TransactionSummary" where
  "failed status error endAtMilliseconds summary = summary\<lparr>tn_status := status, tn_error := Some error,
     tn_timings := (tn_timings summary)\<lparr>ti_endAtMilliseconds := Some endAtMilliseconds\<rparr>\<rparr>"

definition commitTransaction :: "layout \<Rightarrow> str \<Rightarrow> TransactionCompletion \<Rightarrow> RecordingStateInner \<Rightarrow> unit recording_result" where
  "commitTransaction ly transactionId completion state = endTransaction ly transactionId (completed Complete completion) state"

definition blockTransaction :: "layout \<Rightarrow> str \<Rightarrow> TransactionCompletion \<Rightarrow> RecordingStateInner \<Rightarrow> unit recording_result" where
  "blockTransaction ly transactionId completion state = endTransaction ly transactionId (completed Blocked completion) state"

definition failTransaction :: "layout \<Rightarrow> str \<Rightarrow> TransactionError \<Rightarrow> u64 \<Rightarrow> RecordingStateInner \<Rightarrow> unit recording_result" where
  "failTransaction ly transactionId error endAt state = endTransaction ly transactionId (failed Failed error endAt) state"

definition cancelTransaction :: "layout \<Rightarrow> str \<Rightarrow> TransactionError \<Rightarrow> u64 \<Rightarrow> RecordingStateInner \<Rightarrow> unit recording_result" where
  "cancelTransaction ly transactionId error endAt state = endTransaction ly transactionId (failed Cancelled error endAt) state"

section \<open>Headers\<close>

definition side_headers :: "MessageSide \<Rightarrow> TransactionRecord \<Rightarrow> HeaderField vec" where
  "side_headers side record = (case side of Request \<Rightarrow> rc_requestHeaders record | Response \<Rightarrow> rc_responseHeaders record)"

definition set_headers :: "MessageSide \<Rightarrow> BoundedHeaders \<Rightarrow> TransactionRecord \<Rightarrow> TransactionRecord" where
  "set_headers side bounded record =
     (case side of
        Request \<Rightarrow> record\<lparr>rc_requestHeaders := bh_headers bounded, rc_requestHeadersTruncated := bh_truncated bounded\<rparr>
      | Response \<Rightarrow> record\<lparr>rc_responseHeaders := bh_headers bounded, rc_responseHeadersTruncated := bh_truncated bounded\<rparr>)"

text \<open>The operations that write to a pending transaction, after the queue has been drained.\<close>

definition withPending :: "layout \<Rightarrow> disk \<Rightarrow> str \<Rightarrow> (TransactionRecord \<Rightarrow> RecordingStateInner \<Rightarrow> 'a recording_result) \<Rightarrow> RecordingStateInner \<Rightarrow> 'a recording_result" where
  "withPending ly disk transactionId body state = ensureOpen state
     (case drainCleanupQueueLocked ly disk state of
        (Err e, state) \<Rightarrow> (Err e, state)
      | (Panic, state) \<Rightarrow> (Panic, state)
      | (Ok _, state) \<Rightarrow>
          (case pendingRecord transactionId state of
             Err e \<Rightarrow> (Err e, state)
           | Panic \<Rightarrow> (Panic, state)
           | Ok record \<Rightarrow> body record state))"

definition storeHeaders :: "layout \<Rightarrow> disk \<Rightarrow> disk \<Rightarrow> str \<Rightarrow> MessageSide \<Rightarrow> HeaderField list \<Rightarrow> RecordingStateInner \<Rightarrow> unit recording_result" where
  "storeHeaders ly disk disk2 transactionId side headers = withPending ly disk transactionId (\<lambda>record state.
     let oldHeaderBytes = headerStorageBytes ly (side_headers side record);
         initiallyBounded = boundHeaders ly headers usize_max;
         requiredIncrease = bh_storedBytes initiallyBounded - oldHeaderBytes;
         state = evictAndEnqueue ly (planMetadataBudgetEvictions ly transactionId requiredIncrease state) state;
         availableBytes = re_metadataMemoryBudgetBytes state - (re_totalMetadataBytes state - oldHeaderBytes);
         bounded = (if availableBytes < bh_storedBytes initiallyBounded
                    then (boundHeaders ly (items (bh_headers initiallyBounded)) availableBytes)\<lparr>bh_truncated := True\<rparr> else initiallyBounded)
     in if hm_get (re_transactions state) transactionId = None then (Err TransactionNotFound, state)
        else finishWithCleanup ly disk2 ()
               (state\<lparr>re_transactions := hm_modify transactionId (\<lambda>r. refreshTruncatedFlag (set_headers side bounded r)) (re_transactions state),
                      re_totalMetadataBytes := usize_add (re_totalMetadataBytes state - oldHeaderBytes) (bh_storedBytes bounded)\<rparr>))"

section \<open>Bodies\<close>

text \<open>
  A staged body: kept in memory up to the threshold, otherwise written to a temporary file that is renamed when it
  is complete. Only complete files are part of the state; a temporary file that cannot be deleted becomes an orphan.
\<close>

definition storeStaged :: "disk \<Rightarrow> str \<Rightarrow> rtext \<Rightarrow> bytes \<Rightarrow> BodyHandleMeta \<Rightarrow> RecordingStateInner \<Rightarrow> (CaptureError, BodyRef) outcome \<times> RecordingStateInner" where
  "storeStaged disk pendingPath path bs meta state =
     (if length bs \<le> re_memoryThreshold state then (Ok \<lparr>bo_meta = meta, bo_storage = MemoryBody bs\<rparr>, state)
      else (case dk_write disk of
              Some e \<Rightarrow> (Err (CaptureIo e), dropFile disk pendingPath state)
            | None \<Rightarrow> (Ok \<lparr>bo_meta = meta, bo_storage = SpillBody path\<rparr>, state\<lparr>re_files := hm_insert (tx path) bs (re_files state)\<rparr>)))"

definition set_body_size :: "MessageSide \<Rightarrow> nat \<Rightarrow> TransactionRecord \<Rightarrow> TransactionRecord" where
  "set_body_size side n record =
     (let sizes = tn_sizes (rc_summary record)
      in record\<lparr>rc_summary := (rc_summary record)\<lparr>tn_sizes := (case side of
           Request \<Rightarrow> sizes\<lparr>tz_requestBodyBytes := of_nat n\<rparr> | Response \<Rightarrow> sizes\<lparr>tz_responseBodyBytes := of_nat n\<rparr>)\<rparr>\<rparr>)"

definition stored_bytes :: "BodyRef option \<Rightarrow> nat" where
  "stored_bytes b = (case b of None \<Rightarrow> 0 | Some b \<Rightarrow> bm_storedBytes (bo_meta b))"

text \<open>The transactions a body displaces and how many of its bytes are stored.\<close>

definition bodyPlan :: "str \<Rightarrow> MessageSide \<Rightarrow> BodyWrite \<Rightarrow> TransactionRecord \<Rightarrow> RecordingStateInner \<Rightarrow> str list \<times> nat" where
  "bodyPlan transactionId side body record state =
     (let oldBodyBytes = stored_bytes (detail_body side record);
          desiredBytes = min (length (bw_bytes body)) (li_maxBodyBytes (re_limits state));
          baseTotalBytes = re_totalBodyBytes state - oldBodyBytes;
          evictionIds = planBodyBudgetEvictions transactionId baseTotalBytes desiredBytes state;
          freedBytes = sum_list (map transactionBodyBytes (evictedRecords evictionIds state));
          retainedBytes = baseTotalBytes - freedBytes;
          availableBytes = li_maxTotalBodyBytes (re_limits state) - retainedBytes
      in (evictionIds, min desiredBytes availableBytes))"

definition bindBody ::
  "layout \<Rightarrow> disk \<Rightarrow> str \<Rightarrow> MessageSide \<Rightarrow> nat \<Rightarrow> BodyHandleMeta \<Rightarrow> BodyRef \<Rightarrow> BodyRef option \<Rightarrow> str list \<Rightarrow> RecordingStateInner \<Rightarrow> BodyHandleMeta recording_result" where
  "bindBody ly disk transactionId side originalBytes meta staged oldBody evictionIds state =
     (let (removedBodies, state) = removeTransactions ly evictionIds state;
          removedBodies = removedBodies @ (case oldBody of None \<Rightarrow> [] | Some b \<Rightarrow> [b]);
          state = state\<lparr>re_totalBodyBytes := usize_add (re_totalBodyBytes state - stored_bytes oldBody) (bm_storedBytes meta)\<rparr>
      in if hm_get (re_transactions state) transactionId = None
         then (Err TransactionNotFound, case bo_storage staged of MemoryBody _ \<Rightarrow> state | SpillBody path \<Rightarrow> dropFile disk (tx path) state)
         else finishWithCleanup ly disk meta (enqueueBodyReferences ly removedBodies
                (state\<lparr>re_transactions := hm_modify transactionId
                   (\<lambda>r. refreshTruncatedFlag (set_body_size side originalBytes (replaceBody side staged r))) (re_transactions state)\<rparr>)))"

definition placeBody ::
  "layout \<Rightarrow> disk \<Rightarrow> disk \<Rightarrow> str \<Rightarrow> rtext \<Rightarrow> str \<Rightarrow> MessageSide \<Rightarrow> BodyWrite \<Rightarrow> TransactionRecord \<Rightarrow> RecordingStateInner \<Rightarrow> BodyHandleMeta recording_result" where
  "placeBody ly disk disk2 pendingPath path transactionId side body record state =
     (let oldBody = map_option clone_body (detail_body side record);
          (evictionIds, storedBytes) = bodyPlan transactionId side body record state;
          meta = \<lparr>bm_transactionId = owned transactionId, bm_side = side, bm_contentType = bw_contentType body, bm_encoding = bw_encoding body,
                  bm_storedBytes = storedBytes, bm_originalBytes = bw_originalBytes body, bm_truncated = (storedBytes < bw_originalBytes body)\<rparr>
      in case storeStaged disk pendingPath path (take storedBytes (bw_bytes body)) (clone_meta meta) state of
           (Err e, state) \<Rightarrow> (Err e, state)
         | (Panic, state) \<Rightarrow> (Panic, state)
         | (Ok staged, state) \<Rightarrow> bindBody ly disk2 transactionId side (bw_originalBytes body) meta staged oldBody evictionIds state)"

definition storeBody ::
  "layout \<Rightarrow> disk \<Rightarrow> disk \<Rightarrow> str \<Rightarrow> rtext \<Rightarrow> str \<Rightarrow> MessageSide \<Rightarrow> BodyWrite \<Rightarrow> RecordingStateInner \<Rightarrow> BodyHandleMeta recording_result" where
  "storeBody ly disk disk2 pendingPath path transactionId side body state =
     (if bw_originalBytes body < length (bw_bytes body) then (Err InvalidBodyLength, state)
      else withPending ly disk transactionId (placeBody ly disk disk2 pendingPath path transactionId side body) state)"

text \<open>A spool: its temporary file, the file it will be renamed to, and the bytes written so far.\<close>

record BodySpool =
  sp_pendingPath :: str
  sp_committedPath :: rtext
  sp_written :: bytes

definition createBodySpool :: "disk \<Rightarrow> str \<Rightarrow> rtext \<Rightarrow> str \<Rightarrow> RecordingStateInner \<Rightarrow> BodySpool recording_result" where
  "createBodySpool disk pendingPath path transactionId state = ensureOpen state
     (case pendingRecord transactionId state of
        Err e \<Rightarrow> (Err e, state)
      | Panic \<Rightarrow> (Panic, state)
      | Ok _ \<Rightarrow> (case dk_write disk of
                   Some e \<Rightarrow> (Err (CaptureIo e), dropFile disk pendingPath state)
                 | None \<Rightarrow> (Ok \<lparr>sp_pendingPath = pendingPath, sp_committedPath = path, sp_written = []\<rparr>, state)))"

definition appendSpool :: "disk \<Rightarrow> bytes \<Rightarrow> BodySpool \<Rightarrow> (CaptureError, BodySpool) outcome" where
  "appendSpool disk bs spool = (case dk_write disk of Some e \<Rightarrow> Err (CaptureIo e) | None \<Rightarrow> Ok (spool\<lparr>sp_written := sp_written spool @ bs\<rparr>))"

definition stageSpool :: "disk \<Rightarrow> BodySpool \<Rightarrow> RecordingStateInner \<Rightarrow> string option \<times> RecordingStateInner" where
  "stageSpool disk spool state =
     (case dk_write disk of
        Some e \<Rightarrow> (Some e, dropFile disk (sp_pendingPath spool) state)
      | None \<Rightarrow> (None, state\<lparr>re_files := hm_insert (tx (sp_committedPath spool)) (sp_written spool) (re_files state)\<rparr>))"

definition dropStaged :: "disk \<Rightarrow> BodySpool \<Rightarrow> RecordingStateInner \<Rightarrow> RecordingStateInner" where
  "dropStaged disk spool state = dropFile disk (tx (sp_committedPath spool)) state"

definition spoolMeta :: "str \<Rightarrow> MessageSide \<Rightarrow> str \<Rightarrow> str \<Rightarrow> nat \<Rightarrow> BodyHandleMeta" where
  "spoolMeta transactionId side contentType encoding n = \<lparr>bm_transactionId = owned transactionId, bm_side = side, bm_contentType = owned contentType,
     bm_encoding = owned encoding, bm_storedBytes = n, bm_originalBytes = n, bm_truncated = False\<rparr>"

definition bindSpools :: "layout \<Rightarrow> disk \<Rightarrow> str \<Rightarrow> BodyRef \<Rightarrow> BodyRef \<Rightarrow> TransactionRecord \<Rightarrow> RecordingStateInner \<Rightarrow> (BodyHandleMeta \<times> BodyHandleMeta) recording_result" where
  "bindSpools ly disk transactionId requestBody responseBody record state =
     (let requestBytes = bm_storedBytes (bo_meta requestBody); responseBytes = bm_storedBytes (bo_meta responseBody);
          oldBytes = usize_add (stored_bytes (rc_requestBody record)) (stored_bytes (rc_responseBody record));
          retainedBytes = re_totalBodyBytes state - oldBytes;
          removedBodies = map clone_body (intoBodyReferences record)
      in finishWithCleanup ly disk (bo_meta requestBody, bo_meta responseBody) (enqueueBodyReferences ly removedBodies
           (state\<lparr>re_transactions := hm_modify transactionId (\<lambda>r. refreshTruncatedFlag (set_body_size Response responseBytes
                    (set_body_size Request requestBytes (r\<lparr>rc_requestBody := Some requestBody, rc_responseBody := Some responseBody\<rparr>)))) (re_transactions state),
                  re_totalBodyBytes := usize_add retainedBytes (usize_add requestBytes responseBytes)\<rparr>)))"

definition spoolsFit :: "nat \<Rightarrow> nat \<Rightarrow> TransactionRecord \<Rightarrow> RecordingStateInner \<Rightarrow> bool" where
  "spoolsFit requestBytes responseBytes record state =
     (requestBytes \<le> li_maxBodyBytes (re_limits state) \<and> responseBytes \<le> li_maxBodyBytes (re_limits state)
      \<and> usize_add requestBytes responseBytes \<le> li_maxTotalBodyBytes (re_limits state)
          - (re_totalBodyBytes state - usize_add (stored_bytes (rc_requestBody record)) (stored_bytes (rc_responseBody record))))"

text \<open>The two files are staged one after the other, each under its own disk outcome; the guards see the outcome \<open>disk3\<close>.\<close>

definition storeBodySpools ::
  "layout \<Rightarrow> disk \<Rightarrow> disk \<Rightarrow> disk \<Rightarrow> str \<Rightarrow> BodySpool \<Rightarrow> BodySpool \<Rightarrow> str \<Rightarrow> str \<Rightarrow> RecordingStateInner \<Rightarrow> (BodyHandleMeta \<times> BodyHandleMeta) recording_result" where
  "storeBodySpools ly disk disk2 disk3 transactionId requestSpool responseSpool contentType encoding state =
     (let requestBytes = length (sp_written requestSpool); responseBytes = length (sp_written responseSpool);
          requestBody = \<lparr>bo_meta = spoolMeta transactionId Request contentType encoding requestBytes, bo_storage = SpillBody (clone_text (sp_committedPath requestSpool))\<rparr>;
          responseBody = \<lparr>bo_meta = spoolMeta transactionId Response contentType encoding responseBytes, bo_storage = SpillBody (clone_text (sp_committedPath responseSpool))\<rparr>
      in case stageSpool disk requestSpool state of
           (Some e, state) \<Rightarrow> (Err (CaptureIo e), dropFile disk (sp_pendingPath responseSpool) state)
         | (None, state) \<Rightarrow>
             (case stageSpool disk2 responseSpool state of
                (Some e, state) \<Rightarrow> (Err (CaptureIo e), dropStaged disk3 requestSpool state)
              | (None, state) \<Rightarrow>
                  (let dropped = dropStaged disk3 requestSpool (dropStaged disk3 responseSpool state)
                   in if re_closed state then (Err SessionClosed, dropped)
                      else (case pendingRecord transactionId state of
                              Err e \<Rightarrow> (Err e, dropped)
                            | Panic \<Rightarrow> (Panic, dropped)
                            | Ok record \<Rightarrow>
                                if \<not> spoolsFit requestBytes responseBytes record state then (Err InvalidLimits, dropped)
                                else bindSpools ly disk3 transactionId requestBody responseBody record state))))"

definition packetValid :: "nat \<Rightarrow> StreamPacket \<Rightarrow> bool" where
  "packetValid bodyLength packet =
     (sk_storedBytes packet \<noteq> 0 \<and> sk_storedBytes packet \<le> sk_originalBytes packet
      \<and> sk_truncated packet = (sk_storedBytes packet < sk_originalBytes packet)
      \<and> sk_storedOffsetBytes packet + sk_storedBytes packet \<le> usize_max \<and> sk_storedOffsetBytes packet + sk_storedBytes packet \<le> bodyLength)"

definition storeStreamPackets :: "layout \<Rightarrow> disk \<Rightarrow> str \<Rightarrow> MessageSide \<Rightarrow> StreamPacket vec \<Rightarrow> RecordingStateInner \<Rightarrow> unit recording_result" where
  "storeStreamPackets ly disk transactionId side packets state = ensureOpen state
     (case hm_get (re_transactions state) transactionId of
        None \<Rightarrow> (Err TransactionNotFound, state)
      | Some record \<Rightarrow>
          if \<not> list_all (packetValid (stored_bytes (detail_body side record))) (items packets) then (Err InvalidBodyLength, state)
          else (case replaceStreamPacketsWithinMetadataBudget ly transactionId side packets state of
                  Err e \<Rightarrow> (Err e, state)
                | Panic \<Rightarrow> (Panic, state)
                | Ok (removedBodies, state) \<Rightarrow> finishWithCleanup ly disk () (enqueueBodyReferences ly removedBodies state)))"

section \<open>Reading\<close>

definition readBody :: "disk \<Rightarrow> BodyRef \<Rightarrow> RecordingStateInner \<Rightarrow> (CaptureError, bytes) outcome" where
  "readBody disk b state =
     (case bo_storage b of
        MemoryBody bs \<Rightarrow> Ok bs
      | SpillBody path \<Rightarrow>
          (case hm_get (re_files state) (tx path) of
             None \<Rightarrow> Err BodyNotFound
           | Some bs \<Rightarrow>
               (case dk_read disk of
                  Some e \<Rightarrow> Err (CaptureIo e)
                | None \<Rightarrow> if length bs \<noteq> bm_storedBytes (bo_meta b) then Err (CaptureIo ''captureBodyLengthMismatch'') else Ok bs)))"

definition readRange :: "disk \<Rightarrow> BodyRef \<Rightarrow> nat \<Rightarrow> nat \<Rightarrow> RecordingStateInner \<Rightarrow> (CaptureError, bytes) outcome" where
  "readRange disk b offset maximumBytes state =
     (let storedBytes = bm_storedBytes (bo_meta b);
          readBytes = min maximumBytes (storedBytes - offset)
      in if storedBytes < offset then Err (CaptureIo ''captureBodyRangeOffsetOutOfBounds'')
         else (case bo_storage b of
                 MemoryBody bs \<Rightarrow> slice_at bs offset (offset + readBytes) Ok
               | SpillBody path \<Rightarrow>
                   (case hm_get (re_files state) (tx path) of
                      None \<Rightarrow> Err BodyNotFound
                    | Some bs \<Rightarrow>
                        (case dk_read disk of
                           Some e \<Rightarrow> Err (CaptureIo e)
                         | None \<Rightarrow> if length bs \<noteq> storedBytes then Err (CaptureIo ''captureBodyLengthMismatch'')
                                   else Ok (subslice offset (offset + readBytes) bs)))))"

definition getBodyRef :: "str \<Rightarrow> MessageSide \<Rightarrow> RecordingStateInner \<Rightarrow> (CaptureError, BodyRef) outcome" where
  "getBodyRef transactionId side state =
     (if re_closed state then Err SessionClosed
      else (case hm_get (re_transactions state) transactionId of
              None \<Rightarrow> Err TransactionNotFound
            | Some record \<Rightarrow> (case detail_body side record of None \<Rightarrow> Err BodyNotFound | Some b \<Rightarrow> Ok (clone_body b))))"

definition storageKind :: "BodyRef \<Rightarrow> BodyStorageKind" where
  "storageKind b = (case bo_storage b of MemoryBody _ \<Rightarrow> MemoryKind | SpillBody _ \<Rightarrow> SpillKind)"

definition getBodyStorageKind :: "str \<Rightarrow> MessageSide \<Rightarrow> RecordingStateInner \<Rightarrow> (CaptureError, BodyStorageKind) outcome" where
  "getBodyStorageKind transactionId side state = and_then (getBodyRef transactionId side state) (\<lambda>b. Ok (storageKind b))"

text \<open>A lease shares the bytes of a body in memory; on disk it holds the open file, whose content outlives its path.\<close>

record BodyReadLease =
  ld_meta :: BodyHandleMeta
  ld_kind :: BodyStorageKind
  ld_content :: bytes

definition leaseBody :: "disk \<Rightarrow> BodyRef \<Rightarrow> RecordingStateInner \<Rightarrow> (CaptureError, BodyReadLease) outcome" where
  "leaseBody disk b state =
     (let lease = (\<lambda>bs. \<lparr>ld_meta = clone_meta (bo_meta b), ld_kind = storageKind b, ld_content = bs\<rparr>)
      in case bo_storage b of
           MemoryBody bs \<Rightarrow> Ok (lease bs)
         | SpillBody path \<Rightarrow>
             (case hm_get (re_files state) (tx path) of
                None \<Rightarrow> Err BodyNotFound
              | Some bs \<Rightarrow>
                  (case dk_read disk of
                     Some e \<Rightarrow> Err (CaptureIo e)
                   | None \<Rightarrow> if length bs \<noteq> bm_storedBytes (bo_meta b) then Err (CaptureIo ''captureBodyLengthMismatch'') else Ok (lease bs))))"

definition readLease :: "disk \<Rightarrow> BodyReadLease \<Rightarrow> nat \<Rightarrow> nat \<Rightarrow> (CaptureError, bytes) outcome" where
  "readLease disk lease offset maximumBytes =
     (let storedBytes = bm_storedBytes (ld_meta lease);
          readBytes = min maximumBytes (storedBytes - offset)
      in if storedBytes < offset then Err (CaptureIo ''captureBodyRangeOffsetOutOfBounds'')
         else (case ld_kind lease of
                 MemoryKind \<Rightarrow> slice_at (ld_content lease) offset (offset + readBytes) Ok
               | SpillKind \<Rightarrow>
                   (case dk_read disk of
                      Some e \<Rightarrow> Err (CaptureIo e)
                    | None \<Rightarrow> Ok (subslice offset (offset + readBytes) (ld_content lease)))))"

definition leaseOf :: "disk \<Rightarrow> str \<Rightarrow> MessageSide \<Rightarrow> RecordingStateInner \<Rightarrow> (CaptureError, BodyReadLease) outcome" where
  "leaseOf disk transactionId side state =
     (case hm_get (re_transactions state) transactionId of
        None \<Rightarrow> Err TransactionNotFound
      | Some record \<Rightarrow> (case detail_body side record of None \<Rightarrow> Err BodyNotFound | Some b \<Rightarrow> leaseBody disk b state))"

definition getBodyReadLease :: "disk \<Rightarrow> str \<Rightarrow> MessageSide \<Rightarrow> RecordingStateInner \<Rightarrow> (CaptureError, BodyReadLease) outcome" where
  "getBodyReadLease disk transactionId side state = (if re_closed state then Err SessionClosed else leaseOf disk transactionId side state)"

fun leasesOf :: "disk \<Rightarrow> str list \<Rightarrow> MessageSide \<Rightarrow> RecordingStateInner \<Rightarrow> (CaptureError, BodyReadLease list) outcome" where
  "leasesOf disk [] side state = Ok []"
| "leasesOf disk (transactionId # transactionIds) side state =
     and_then (leaseOf disk transactionId side state) (\<lambda>lease.
       and_then (leasesOf disk transactionIds side state) (\<lambda>leases. Ok (lease # leases)))"

definition getBodyReadLeases :: "disk \<Rightarrow> str list \<Rightarrow> MessageSide \<Rightarrow> RecordingStateInner \<Rightarrow> (CaptureError, BodyReadLease list) outcome" where
  "getBodyReadLeases disk transactionIds side state = (if re_closed state then Err SessionClosed else leasesOf disk transactionIds side state)"

text \<open>The lock is released before the bytes are read, so the read meets a later state.\<close>

definition getBody :: "disk \<Rightarrow> str \<Rightarrow> MessageSide \<Rightarrow> RecordingStateInner \<Rightarrow> RecordingStateInner \<Rightarrow> (CaptureError, BodyResponse) outcome" where
  "getBody disk transactionId side state afterwards =
     and_then (getBodyRef transactionId side state) (\<lambda>b.
       and_then (readBody disk b afterwards) (\<lambda>bs. Ok \<lparr>by_meta = clone_meta (bo_meta b), by_bytes = bs\<rparr>))"

definition getBodyChunk ::
  "disk \<Rightarrow> str \<Rightarrow> MessageSide \<Rightarrow> nat \<Rightarrow> nat \<Rightarrow> RecordingStateInner \<Rightarrow> RecordingStateInner \<Rightarrow> (CaptureError, BodyResponse) outcome" where
  "getBodyChunk disk transactionId side offset maximumBytes state afterwards =
     and_then (getBodyRef transactionId side state) (\<lambda>b.
       and_then (readRange disk b offset maximumBytes afterwards) (\<lambda>bs. Ok \<lparr>by_meta = clone_meta (bo_meta b), by_bytes = bs\<rparr>))"

definition listMetadata :: "RecordingStateInner \<Rightarrow> (CaptureError, TransactionSummary list) outcome" where
  "listMetadata state =
     (if re_closed state then Err SessionClosed
      else Ok (List.map_filter (\<lambda>identifier. map_option (\<lambda>r. clone_summary (rc_summary r)) (hm_get (re_transactions state) identifier)) (re_order state)))"

definition getTransaction :: "str \<Rightarrow> RecordingStateInner \<Rightarrow> (CaptureError, TransactionSummary) outcome" where
  "getTransaction transactionId state =
     (if re_closed state then Err SessionClosed
      else (case hm_get (re_transactions state) transactionId of None \<Rightarrow> Err TransactionNotFound | Some r \<Rightarrow> Ok (clone_summary (rc_summary r))))"

definition getTransactionDetail :: "str \<Rightarrow> RecordingStateInner \<Rightarrow> (CaptureError, TransactionDetailRecord) outcome" where
  "getTransactionDetail transactionId state =
     (if re_closed state then Err SessionClosed
      else (case hm_get (re_transactions state) transactionId of None \<Rightarrow> Err TransactionNotFound | Some r \<Rightarrow> Ok (detail r)))"

definition getHeaders :: "str \<Rightarrow> MessageSide \<Rightarrow> RecordingStateInner \<Rightarrow> (CaptureError, HeaderField list) outcome" where
  "getHeaders transactionId side state =
     (if re_closed state then Err SessionClosed
      else (case hm_get (re_transactions state) transactionId of
              None \<Rightarrow> Err TransactionNotFound
            | Some r \<Rightarrow> Ok (map clone_header (items (side_headers side r)))))"

definition findResponseRangeCandidates :: "str \<Rightarrow> str \<Rightarrow> nat \<Rightarrow> str \<Rightarrow> RecordingStateInner \<Rightarrow> (CaptureError, ResponseRangeCandidate list) outcome" where
  "findResponseRangeCandidates urlDisplay entityTag totalBytes contentEncoding state =
     (if re_closed state then Err SessionClosed
      else (case hm_get (re_responseEntityIndex state) \<lparr>ik_urlDisplay = urlDisplay, ik_entityTag = entityTag, ik_totalBytes = totalBytes,
                   ik_contentEncoding = to_ascii_lowercase contentEncoding\<rparr> of
              None \<Rightarrow> Ok []
            | Some members \<Rightarrow>
                Ok (List.map_filter responseRangeCandidate (List.map_filter (\<lambda>m. hm_get (re_transactions state) (snd m)) members))))"

text \<open>The token of a collection: the text of the identifier and the version.\<close>

definition collectionTokenFromState :: "RecordingStateInner \<Rightarrow> str" where
  "collectionTokenFromState state = re_recordingSessionId state @ [58] @ print_digits 10 (unat (re_collectionVersion state))"

definition snapshotFromState :: "RecordingStateInner \<Rightarrow> RecordingSnapshot" where
  "snapshotFromState state = \<lparr>snp_recordingSessionId = re_recordingSessionId state, snp_state = re_recordingState state,
     snp_startedAtMilliseconds = re_startedAtMilliseconds state, snp_transactionCount = length (re_transactions state),
     snp_droppedCount = re_droppedCount state, snp_totalBodyBytes = re_totalBodyBytes state, snp_totalMetadataBytes = re_totalMetadataBytes state,
     snp_metadataMemoryBudgetBytes = re_metadataMemoryBudgetBytes state,
     snp_pendingCleanupCount = length (re_cleanupQueue state) + length (re_orphanedSpills state) + (if re_directoryCleanupPending state then 1 else 0),
     snp_limits = re_limits state, snp_ignoreLocations = re_ignoreLocations state, snp_recordTunnelMetadata = re_recordTunnelMetadata state\<rparr>"

definition snapshot :: "RecordingStateInner \<Rightarrow> (CaptureError, RecordingSnapshot) outcome" where
  "snapshot state = (if re_closed state then Err SessionClosed else Ok (snapshotFromState state))"

definition pageView :: "nat option \<Rightarrow> nat \<Rightarrow> str option \<Rightarrow> RecordingStateInner \<Rightarrow> (CaptureError, RecordingPageView) outcome" where
  "pageView offset limit expectedCollectionToken state =
     (let token = collectionTokenFromState state;
          total = length (re_order state);
          pageOffset = (case offset of None \<Rightarrow> total - limit | Some n \<Rightarrow> n)
      in if re_closed state then Err SessionClosed
         else if (case expectedCollectionToken of None \<Rightarrow> False | Some expected \<Rightarrow> expected \<noteq> token) then Err CollectionChanged
         else Ok \<lparr>pv_recording = snapshotFromState state, pv_collectionToken = token, pv_total = total, pv_offset = pageOffset,
                pv_transactions = List.map_filter (\<lambda>identifier. map_option (\<lambda>r. clone_summary (rc_summary r)) (hm_get (re_transactions state) identifier))
                  (take limit (drop (min pageOffset total) (re_order state)))\<rparr>)"

section \<open>Clearing\<close>

definition clearSession :: "layout \<Rightarrow> disk \<Rightarrow> RecordingStateInner \<Rightarrow> unit recording_result" where
  "clearSession ly disk state = ensureOpen state
     (let (removedBodies, state) = removeAllTransactions ly state
      in finishWithCleanup ly disk () (enqueueBodyReferences ly removedBodies ((markCollectionChanged state)\<lparr>re_directoryCleanupPending := True\<rparr>)))"

definition closeRecording :: "layout \<Rightarrow> disk \<Rightarrow> disk \<Rightarrow> RecordingStateInner \<Rightarrow> unit recording_result" where
  "closeRecording ly disk disk2 state =
     (if re_closed state then (Ok (), state)
      else
        (let (removedBodies, state) = removeAllTransactions ly state
         in case drainCleanupQueueLocked ly disk (notifyChanged (enqueueBodyReferences ly removedBodies (markCollectionChanged state))) of
              (Ok _, state) \<Rightarrow>
                (case clearDirectory disk2 state of
                   (Some e, state) \<Rightarrow> (Err (CaptureIo e), state)
                 | (None, state) \<Rightarrow> (Ok (), state\<lparr>re_closed := True\<rparr>))
            | (r, state) \<Rightarrow> (r, state)))"

definition cleanupPendingBodies :: "layout \<Rightarrow> disk \<Rightarrow> RecordingStateInner \<Rightarrow> unit recording_result" where
  "cleanupPendingBodies ly disk state = ensureOpen state
     (case drainCleanupQueueLocked ly disk state of
        (Ok _, state) \<Rightarrow> (Ok (), notifyChanged state)
      | (r, state) \<Rightarrow> (r, state))"

end
