(* ===== verification/RecordingLemmas.thy ===== *)
theory RecordingLemmas
  imports RecordingOperations
begin

text \<open>
  The invariant of the recording session and what keeps it: the tables agree, the totals are the sums over the
  tables, and the entity index lists exactly the complete range responses.
\<close>

section \<open>The invariant\<close>

definition visible :: "layout \<Rightarrow> RecordingStateInner \<Rightarrow> nat" where
  "visible ly state = hm_sum (transactionMetadataBytes ly) (re_transactions state)"

definition tombs :: "layout \<Rightarrow> BodyRef list \<Rightarrow> nat" where
  "tombs ly bodies = sum_list (map (cleanupBodyReferenceMetadataBytes ly) bodies)"

definition sequence_of :: "(str, TransactionRecord) hashmap \<Rightarrow> str \<Rightarrow> u64" where
  "sequence_of transactions i = (case hm_get transactions i of None \<Rightarrow> 0 | Some r \<Rightarrow> tn_sequence (rc_summary r))"

definition table_ok :: "RecordingStateInner \<Rightarrow> bool" where
  "table_ok state \<longleftrightarrow>
     hm_wf (re_transactions state) \<and> distinct (re_order state) \<and> set (re_order state) = fst ` set (re_transactions state)
     \<and> (\<forall>i r. hm_get (re_transactions state) i = Some r \<longrightarrow> tn_transactionId (rc_summary r) = owned i)
     \<and> sorted (map (sequence_of (re_transactions state)) (re_order state))
     \<and> (\<forall>i r. hm_get (re_transactions state) i = Some r \<longrightarrow> tn_sequence (rc_summary r) \<le> re_nextSequence state)"

definition has_key :: "TransactionRecord \<Rightarrow> ResponseEntityIndexKey \<Rightarrow> bool" where
  "has_key r key \<longleftrightarrow> (\<exists>candidate. responseEntityEntry r = Some (key, candidate))"

definition entries :: "(str, TransactionRecord) hashmap \<Rightarrow> ResponseEntityIndexKey \<Rightarrow> (u64 \<times> str) set" where
  "entries transactions key = {(tn_sequence (rc_summary r), i) | i r. hm_get transactions i = Some r \<and> has_key r key}"

text \<open>The index is complete but for the transactions of \<open>X\<close>, which are still to be entered.\<close>

definition index_ok :: "str set \<Rightarrow> RecordingStateInner \<Rightarrow> bool" where
  "index_ok X state \<longleftrightarrow>
     hm_wf (re_responseEntityIndex state)
     \<and> (\<forall>key members. hm_get (re_responseEntityIndex state) key = Some members \<longrightarrow> sorted members \<and> distinct members)
     \<and> (\<forall>key. set (hm_entry_or (re_responseEntityIndex state) key []) = {e \<in> entries (re_transactions state) key. snd e \<notin> X})"

definition bodies_ok :: "RecordingStateInner \<Rightarrow> bool" where
  "bodies_ok state \<longleftrightarrow> re_totalBodyBytes state = hm_sum transactionBodyBytes (re_transactions state)"

text \<open>
  The flag \<open>E\<close> asks for exact metadata totals. They hold as long as packets are stored only for records without spare
  capacity and sizes stay addressable; everything else is proved for both values of the flag.
\<close>

definition meta_ok :: "bool \<Rightarrow> layout \<Rightarrow> RecordingStateInner \<Rightarrow> bool" where
  "meta_ok E ly state \<longleftrightarrow> (E \<longrightarrow> re_totalMetadataBytes state = visible ly state + tombs ly (re_cleanupQueue state))"

definition core_ok :: "bool \<Rightarrow> layout \<Rightarrow> str set \<Rightarrow> RecordingStateInner \<Rightarrow> bool" where
  "core_ok E ly X state \<longleftrightarrow> table_ok state \<and> index_ok X state \<and> bodies_ok state \<and> meta_ok E ly state"

lemma index_ok_cong: "re_transactions s = re_transactions t \<Longrightarrow> re_responseEntityIndex s = re_responseEntityIndex t \<Longrightarrow> index_ok X s = index_ok X t"
  by (simp add: index_ok_def)

lemma entry_facts:
  assumes "responseEntityEntry r = Some (key, candidate)"
  shows "rx_sequence candidate = tn_sequence (rc_summary r)" "tx (rx_transactionId candidate) = tx (tn_transactionId (rc_summary r))"
    "responseRangeCandidate r = Some candidate" "tn_status (rc_summary r) = Complete"
  using assms by (auto simp: responseEntityEntry_def responseRangeCandidate_def Let_def clone_text_def owned_def split: option.splits prod.splits if_splits)

lemma entries_in: "hm_get m i = Some r \<Longrightarrow> (s, i) \<in> entries m key \<longleftrightarrow> s = tn_sequence (rc_summary r) \<and> has_key r key"
  by (auto simp: entries_def)

lemma entries_dom: "(s, i) \<in> entries m key \<Longrightarrow> \<exists>r. hm_get m i = Some r \<and> s = tn_sequence (rc_summary r) \<and> has_key r key"
  by (auto simp: entries_def)

lemma entries_remove: "entries (hm_remove i m) key = {e \<in> entries m key. snd e \<noteq> i}"
  by (auto simp: entries_def hm_get_remove split: if_splits)

lemma hm_entry_or_insert: "hm_entry_or (hm_insert k v m) k' d = (if k' = k then v else hm_entry_or m k' d)"
  by (simp add: hm_entry_or_def hm_get_insert)

lemma hm_entry_or_remove: "hm_entry_or (hm_remove k m) k' d = (if k' = k then d else hm_entry_or m k' d)"
  by (simp add: hm_entry_or_def hm_get_remove)

lemma set_bts_insert: "set (bts_insert x xs) = insert x (set xs)"
  by (auto simp: bts_insert_def set_insort_key)

lemma bts_insert_sorted: "sorted xs \<Longrightarrow> distinct xs \<Longrightarrow> sorted (bts_insert x xs) \<and> distinct (bts_insert x xs)"
  by (auto simp: bts_insert_def distinct_insort sorted_insort)

lemma table_okD:
  assumes "table_ok state"
  shows "hm_wf (re_transactions state)" "distinct (re_order state)" "set (re_order state) = fst ` set (re_transactions state)"
    "hm_get (re_transactions state) i = Some r \<Longrightarrow> tn_transactionId (rc_summary r) = owned i"
    "sorted (map (sequence_of (re_transactions state)) (re_order state))"
    "hm_get (re_transactions state) i = Some r \<Longrightarrow> tn_sequence (rc_summary r) \<le> re_nextSequence state"
  using assms by (auto simp: table_ok_def)

lemma owned_inject [simp]: "owned s = owned t \<longleftrightarrow> s = t" "tx (owned s) = s"
  by (auto simp: owned_def)

lemma core_ok_other [simp]:
  "core_ok E ly X (state\<lparr>re_collectionVersion := v\<rparr>) = core_ok E ly X state" "core_ok E ly X (state\<lparr>re_revision := v\<rparr>) = core_ok E ly X state"
  "core_ok E ly X (state\<lparr>re_recordingState := q\<rparr>) = core_ok E ly X state" "core_ok E ly X (state\<lparr>re_ignoreLocations := ps\<rparr>) = core_ok E ly X state"
  "core_ok E ly X (state\<lparr>re_recordTunnelMetadata := b\<rparr>) = core_ok E ly X state" "core_ok E ly X (state\<lparr>re_droppedCount := v\<rparr>) = core_ok E ly X state"
  "core_ok E ly X (state\<lparr>re_closed := b\<rparr>) = core_ok E ly X state" "core_ok E ly X (state\<lparr>re_files := fs\<rparr>) = core_ok E ly X state"
  "core_ok E ly X (state\<lparr>re_orphanedSpills := os\<rparr>) = core_ok E ly X state" "core_ok E ly X (state\<lparr>re_directoryCleanupPending := b\<rparr>) = core_ok E ly X state"
  by (simp_all add: core_ok_def table_ok_def index_ok_def bodies_ok_def meta_ok_def visible_def)

section \<open>Removal of a transaction\<close>

lemma removeEntry_frame [simp]:
  "re_transactions (removeResponseEntityEntry r state) = re_transactions state" "re_order (removeResponseEntityEntry r state) = re_order state"
  "re_cleanupQueue (removeResponseEntityEntry r state) = re_cleanupQueue state" "re_totalBodyBytes (removeResponseEntityEntry r state) = re_totalBodyBytes state"
  "re_totalMetadataBytes (removeResponseEntityEntry r state) = re_totalMetadataBytes state"
  "re_nextSequence (removeResponseEntityEntry r state) = re_nextSequence state"
  "re_droppedCount (removeResponseEntityEntry r state) = re_droppedCount state"
  by (simp_all add: removeResponseEntityEntry_def Let_def split: option.split prod.split)

lemma index_drop:
  assumes ok: "index_ok X state" and r: "hm_get (re_transactions state) i = Some r" and key: "tn_transactionId (rc_summary r) = owned i"
  shows "index_ok X (removeResponseEntityEntry r (state\<lparr>re_transactions := hm_remove i (re_transactions state)\<rparr>))"
proof (cases "responseEntityEntry r")
  case None
  then have "entries (hm_remove i (re_transactions state)) key = entries (re_transactions state) key" for key
    unfolding entries_remove using r by (auto simp: entries_def has_key_def)
  then show ?thesis using ok None by (simp add: removeResponseEntityEntry_def index_ok_def)
next
  case (Some e)
  then obtain k c where e: "responseEntityEntry r = Some (k, c)" by (cases e) auto
  define m where "m = (tn_sequence (rc_summary r), i)"
  have c: "(rx_sequence c, tx (rx_transactionId c)) = m" using entry_facts(1,2) [OF e] key by (simp add: m_def)
  have others: "{e \<in> entries (re_transactions state) k'. snd e \<noteq> i} = entries (re_transactions state) k'" if "k' \<noteq> k" for k'
    using that e r by (auto simp: entries_def has_key_def)
  have mine: "{e \<in> entries (re_transactions state) k. snd e \<noteq> i} = entries (re_transactions state) k - {m}"
    using e r by (auto simp: entries_def has_key_def m_def)
  define idx where "idx = re_responseEntityIndex (removeResponseEntityEntry r (state\<lparr>re_transactions := hm_remove i (re_transactions state)\<rparr>))"
  have wf: "hm_wf (re_responseEntityIndex state)"
    and lists: "\<And>key members. hm_get (re_responseEntityIndex state) key = Some members \<Longrightarrow> sorted members \<and> distinct members"
    and sets: "\<And>key. set (hm_entry_or (re_responseEntityIndex state) key []) = {e \<in> entries (re_transactions state) key. snd e \<notin> X}"
    using ok by (auto simp: index_ok_def)
  have idx: "idx = (case hm_get (re_responseEntityIndex state) k of None \<Rightarrow> re_responseEntityIndex state
      | Some ms \<Rightarrow> if removeAll m ms = [] then hm_remove k (re_responseEntityIndex state) else hm_insert k (removeAll m ms) (re_responseEntityIndex state))"
    unfolding idx_def removeResponseEntityEntry_def e c [symmetric] by (simp split: option.split)
  have "hm_wf idx" using wf unfolding idx by (auto split: option.split)
  moreover have "sorted ms \<and> distinct ms" if "hm_get idx key = Some ms" for key ms
    using that lists unfolding idx
    by (auto simp: hm_get_insert hm_get_remove removeAll_filter_not_eq sorted_wrt_filter split: option.splits if_splits)
  moreover have "set (hm_entry_or idx key []) = {e \<in> entries (hm_remove i (re_transactions state)) key. snd e \<notin> X}" for key
  proof -
    have "set (hm_entry_or idx key []) = (if key = k then set (hm_entry_or (re_responseEntityIndex state) k []) - {m} else set (hm_entry_or (re_responseEntityIndex state) key []))"
    proof (cases "hm_get (re_responseEntityIndex state) k")
      case None
      then show ?thesis unfolding idx by (simp add: hm_entry_or_def)
    next
      case (Some ms)
      then have "hm_entry_or (re_responseEntityIndex state) k [] = ms" by (simp add: hm_entry_or_def)
      moreover have "set (removeAll m ms) = set ms - {m}" by simp
      ultimately show ?thesis unfolding idx Some by (cases "removeAll m ms = []") (simp_all add: hm_entry_or_insert hm_entry_or_remove)
    qed
    then show ?thesis unfolding sets entries_remove using mine others by auto
  qed
  ultimately show ?thesis unfolding index_ok_def idx_def [symmetric] by simp
qed


definition same_frame :: "RecordingStateInner \<Rightarrow> RecordingStateInner \<Rightarrow> bool" where
  "same_frame s t \<longleftrightarrow> re_nextSequence t = re_nextSequence s \<and> re_metadataMemoryBudgetBytes t = re_metadataMemoryBudgetBytes s
     \<and> re_limits t = re_limits s \<and> re_cleanupQueue t = re_cleanupQueue s \<and> re_directoryCleanupPending t = re_directoryCleanupPending s
     \<and> re_closed t = re_closed s \<and> re_memoryThreshold t = re_memoryThreshold s \<and> re_files t = re_files s \<and> re_orphanedSpills t = re_orphanedSpills s
     \<and> re_recordingSessionId t = re_recordingSessionId s"

lemma same_frame_trans: "same_frame s t \<Longrightarrow> same_frame t u \<Longrightarrow> same_frame s u"
  by (simp add: same_frame_def)

lemma dropTransaction_frame:
  "same_frame state (dropTransaction ly i r state)" "re_order (dropTransaction ly i r state) = re_order state"
  "re_transactions (dropTransaction ly i r state) = hm_remove i (re_transactions state)"
  "re_collectionVersion (dropTransaction ly i r state) = re_collectionVersion state"
  by (simp_all add: dropTransaction_def same_frame_def removeResponseEntityEntry_def Let_def split: option.split prod.split)

text \<open>The order is cut before the loop runs, so the loop itself keeps what does not speak of the order.\<close>

definition loop_ok :: "bool \<Rightarrow> layout \<Rightarrow> str set \<Rightarrow> RecordingStateInner \<Rightarrow> bool" where
  "loop_ok E ly X state \<longleftrightarrow> hm_wf (re_transactions state) \<and> index_ok X state \<and> bodies_ok state \<and> meta_ok E ly state
     \<and> (\<forall>i r. hm_get (re_transactions state) i = Some r \<longrightarrow> tn_transactionId (rc_summary r) = owned i)"

lemma dropTransaction_ok:
  assumes ok: "loop_ok E ly X state" and r: "hm_get (re_transactions state) i = Some r"
  shows "loop_ok E ly X (dropTransaction ly i r state)"
proof -
  have key: "tn_transactionId (rc_summary r) = owned i" and wf: "hm_wf (re_transactions state)" using ok r by (auto simp: loop_ok_def)
  have "index_ok X (dropTransaction ly i r state)"
  proof -
    have "index_ok X (removeResponseEntityEntry r (state\<lparr>re_transactions := hm_remove i (re_transactions state)\<rparr>))"
      using index_drop [OF _ r key] ok by (simp add: loop_ok_def)
    then show ?thesis by (rule index_ok_cong [THEN iffD1, rotated 2]) (simp_all add: dropTransaction_def Let_def)
  qed
  moreover have "bodies_ok (dropTransaction ly i r state)"
    using hm_sum_remove [OF wf r, of transactionBodyBytes] ok by (simp add: loop_ok_def bodies_ok_def dropTransaction_def Let_def)
  moreover have "meta_ok E ly (dropTransaction ly i r state)"
    using hm_sum_remove [OF wf r, of "transactionMetadataBytes ly"] ok by (auto simp: loop_ok_def meta_ok_def visible_def dropTransaction_def Let_def)
  ultimately show ?thesis using ok by (auto simp: loop_ok_def dropTransaction_frame hm_get_remove)
qed

lemma removeLoop_spec:
  assumes "loop_ok E ly X state" and "removeLoop ly ids state = (bodies, any, state')"
  shows "loop_ok E ly X state' \<and> same_frame state state' \<and> re_order state' = re_order state
    \<and> re_transactions state' = fold hm_remove ids (re_transactions state) \<and> re_collectionVersion state' = re_collectionVersion state
    \<and> (any \<longleftrightarrow> (\<exists>i\<in>set ids. hm_get (re_transactions state) i \<noteq> None))
    \<and> (\<forall>b\<in>set bodies. \<exists>i r. hm_get (re_transactions state) i = Some r \<and> i \<in> set ids \<and> b \<in> set (intoBodyReferences r))"
  using assms
proof (induction ids arbitrary: state bodies any)
  case Nil
  then show ?case by (simp add: same_frame_def)
next
  case (Cons i ids)
  show ?case
  proof (cases "hm_get (re_transactions state) i")
    case None
    then have "removeLoop ly ids state = (bodies, any, state')" using Cons.prems(2) by simp
    from Cons.IH [OF Cons.prems(1) this] None hm_remove_absent [OF None] show ?thesis by (simp add: bex_Un) (meson)
  next
    case (Some r)
    obtain bs any' where rest: "removeLoop ly ids (dropTransaction ly i r state) = (bs, any', state')" and b: "bodies = intoBodyReferences r @ bs" "any"
      using Cons.prems(2) Some by (auto split: prod.splits)
    have drop: "hm_get (re_transactions (dropTransaction ly i r state)) j = Some q \<Longrightarrow> hm_get (re_transactions state) j = Some q" for j q
      by (simp add: dropTransaction_frame hm_get_remove split: if_splits)
    from Cons.IH [OF dropTransaction_ok [OF Cons.prems(1) Some] rest] b Some show ?thesis
      using same_frame_trans [OF dropTransaction_frame(1)] drop by (auto simp: dropTransaction_frame) blast+
  qed
qed

lemma hm_sum_fold_remove:
  "hm_wf m \<Longrightarrow> distinct ids \<Longrightarrow> hm_sum f (fold hm_remove ids m) + sum_list (map f (List.map_filter (hm_get m) ids)) = hm_sum f m"
proof (induction ids arbitrary: m)
  case (Cons i ids)
  have "List.map_filter (hm_get (hm_remove i m)) ids = List.map_filter (hm_get m) ids"
    using Cons.prems(2) by (auto simp: hm_get_remove map_filter_def intro!: map_cong filter_cong)
  moreover have "hm_sum f (fold hm_remove ids (hm_remove i m)) + sum_list (map f (List.map_filter (hm_get (hm_remove i m)) ids)) = hm_sum f (hm_remove i m)"
    using Cons by simp
  ultimately show ?case using hm_sum_remove [OF Cons.prems(1), of i _ f] hm_remove_absent [of m i]
    by (cases "hm_get m i") (simp_all add: map_filter_simps)
qed (simp add: map_filter_simps)

lemma sorted_map_cong: "(\<And>x. x \<in> set xs \<Longrightarrow> f x = g x) \<Longrightarrow> sorted (map f xs) = sorted (map g xs)"
  by (rule arg_cong [of _ _ sorted]) simp

lemma removeTransactions_spec:
  assumes ok: "core_ok E ly X state" and run: "removeTransactions ly ids state = (bodies, state')"
  shows "core_ok E ly X state' \<and> same_frame state state' \<and> re_transactions state' = fold hm_remove ids (re_transactions state)
    \<and> re_order state' = filter (\<lambda>i. i \<notin> set ids) (re_order state)
    \<and> re_collectionVersion state' = (if \<exists>i\<in>set ids. hm_get (re_transactions state) i \<noteq> None then saturating_add (re_collectionVersion state) 1 else re_collectionVersion state)
    \<and> (\<forall>b\<in>set bodies. \<exists>i r. hm_get (re_transactions state) i = Some r \<and> i \<in> set ids \<and> b \<in> set (intoBodyReferences r))"
proof (cases "ids = []")
  case True
  then show ?thesis using ok run by (simp add: removeTransactions_def same_frame_def)
next
  case False
  let ?s = "state\<lparr>re_order := filter (\<lambda>i. i \<notin> set ids) (re_order state)\<rparr>"
  obtain any t where loop: "removeLoop ly ids ?s = (bodies, any, t)" and t: "state' = (if any then markCollectionChanged t else t)"
    using run False by (auto simp: removeTransactions_def Let_def split: prod.splits)
  have t_ok: "table_ok state" using ok by (simp add: core_ok_def)
  have "loop_ok E ly X ?s" using ok table_okD(1,4) [OF t_ok]
    by (auto simp: core_ok_def loop_ok_def bodies_ok_def meta_ok_def visible_def index_ok_def)
  note l = removeLoop_spec [OF this loop]
  have trans: "re_transactions t = fold hm_remove ids (re_transactions state)" using l by simp
  have get: "hm_get (re_transactions t) i = (if i \<in> set ids then None else hm_get (re_transactions state) i)" for i
    unfolding trans by (rule hm.get_fold_del)
  have keys: "fst ` set (re_transactions t) = fst ` set (re_transactions state) - set ids"
    by (intro set_eqI) (simp add: hm_keys_iff get)
  have order: "re_order t = filter (\<lambda>i. i \<notin> set ids) (re_order state)" using l by simp
  have seq: "sorted (map (sequence_of (re_transactions t)) (re_order t))"
  proof -
    have "sorted (map (sequence_of (re_transactions state)) (re_order t))"
      unfolding order using table_okD(5) [OF t_ok] by (rule sorted_filter)
    moreover have "sequence_of (re_transactions t) i = sequence_of (re_transactions state) i" if "i \<in> set (re_order t)" for i
      using that get unfolding order by (simp add: sequence_of_def)
    ultimately show ?thesis using sorted_map_cong by blast
  qed
  have "table_ok t"
    unfolding table_ok_def
  proof (intro conjI allI impI)
    show "hm_wf (re_transactions t)" unfolding trans using table_okD(1) [OF t_ok] by (rule hm.invar_fold_del)
    show "distinct (re_order t)" unfolding order using table_okD(2) [OF t_ok] by simp
    show "set (re_order t) = fst ` set (re_transactions t)" unfolding order keys using table_okD(3) [OF t_ok] by auto
    show "sorted (map (sequence_of (re_transactions t)) (re_order t))" by (rule seq)
    fix i r assume "hm_get (re_transactions t) i = Some r"
    then have r: "hm_get (re_transactions state) i = Some r" using get by (simp split: if_splits)
    show "tn_transactionId (rc_summary r) = owned i" by (rule table_okD(4) [OF t_ok r])
    show "tn_sequence (rc_summary r) \<le> re_nextSequence t" using table_okD(6) [OF t_ok r] l by (simp add: same_frame_def)
  qed
  then have "core_ok E ly X t" using l by (simp add: core_ok_def loop_ok_def)
  then have "core_ok E ly X state'" using t by (simp add: markCollectionChanged_def)
  moreover have "same_frame state state'" using l t by (simp add: markCollectionChanged_def same_frame_def)
  moreover have "re_collectionVersion state' = (if any then saturating_add (re_collectionVersion state) 1 else re_collectionVersion state)"
    using l t by (simp add: markCollectionChanged_def)
  ultimately show ?thesis using l t trans order by (simp add: markCollectionChanged_def)
qed


section \<open>Plans\<close>

text \<open>A plan names distinct finished transactions other than the current one.\<close>

definition evictable :: "RecordingStateInner \<Rightarrow> str option \<Rightarrow> str list \<Rightarrow> bool" where
  "evictable state current ids \<longleftrightarrow> distinct ids
     \<and> (\<forall>i\<in>set ids. current \<noteq> Some i \<and> (\<exists>r. hm_get (re_transactions state) i = Some r \<and> tn_status (rc_summary r) \<noteq> Pending))"

lemma plan_subset:
  "set (planAdmission ly state n order retained bytes) \<subseteq> set order" "set (planLimits state order retained bytes) \<subseteq> set order"
  "set (planBody state current order required) \<subseteq> set order" "set (planMetadata ly state current order required) \<subseteq> set order"
proof -
  show "set (planAdmission ly state n order retained bytes) \<subseteq> set order"
    by (induction order arbitrary: retained bytes) (auto split: option.splits)
  show "set (planLimits state order retained bytes) \<subseteq> set order"
    by (induction order arbitrary: retained bytes) (auto split: option.splits)
  show "set (planBody state current order required) \<subseteq> set order"
    by (induction order arbitrary: required) (auto simp: Let_def split: option.splits)
  show "set (planMetadata ly state current order required) \<subseteq> set order"
    by (induction order arbitrary: required) (auto split: option.splits)
qed

lemma planAdmission_evictable: "distinct order \<Longrightarrow> evictable state None (planAdmission ly state n order retained bytes)"
  using plan_subset(1) by (induction order arbitrary: retained bytes) (fastforce simp: evictable_def split: option.splits)+

lemma planLimits_evictable: "distinct order \<Longrightarrow> evictable state None (planLimits state order retained bytes)"
  using plan_subset(2) by (induction order arbitrary: retained bytes) (fastforce simp: evictable_def split: option.splits)+

lemma planBody_evictable: "distinct order \<Longrightarrow> evictable state (Some current) (planBody state current order required)"
  using plan_subset(3) by (induction order arbitrary: required) (fastforce simp: evictable_def Let_def split: option.splits)+

lemma planMetadata_evictable: "distinct order \<Longrightarrow> evictable state (Some current) (planMetadata ly state current order required)"
  using plan_subset(4) by (induction order arbitrary: required) (fastforce simp: evictable_def split: option.splits)+

lemma evictable_weaken: "evictable state current ids \<Longrightarrow> evictable state None ids"
  by (auto simp: evictable_def)

lemma plans_evictable:
  assumes "core_ok E ly X state"
  shows "evictable state None (planTransactionAdmissionEvictions ly n state)"
    "evictable state (Some current) (planBodyBudgetEvictions current base desired state)"
    "evictable state (Some current) (planMetadataBudgetEvictions ly current increase state)"
proof -
  have "distinct (re_order state)" using assms by (simp add: core_ok_def table_ok_def)
  then show "evictable state None (planTransactionAdmissionEvictions ly n state)"
    "evictable state (Some current) (planBodyBudgetEvictions current base desired state)"
    "evictable state (Some current) (planMetadataBudgetEvictions ly current increase state)"
    using planAdmission_evictable planBody_evictable planMetadata_evictable
    by (auto simp: planTransactionAdmissionEvictions_def planBodyBudgetEvictions_def planMetadataBudgetEvictions_def Let_def evictable_def [of _ _ "[]"])
qed

section \<open>Changing a record\<close>

lemma entries_modify:
  assumes "hm_get m i = Some r" and "tn_sequence (rc_summary (change r)) = tn_sequence (rc_summary r)"
  shows "entries (hm_modify i change m) key =
    {e \<in> entries m key. snd e \<noteq> i} \<union> (if has_key (change r) key then {(tn_sequence (rc_summary r), i)} else {})"
  using assms by (auto simp: entries_def hm_get_modify split: if_splits)

lemma index_modify:
  assumes ok: "index_ok X state" and r: "hm_get (re_transactions state) i = Some r" and seq: "tn_sequence (rc_summary (change r)) = tn_sequence (rc_summary r)"
    and keys: "(\<forall>key. has_key (change r) key = has_key r key) \<and> X' = X \<or> (\<forall>key. \<not> has_key r key) \<and> X' = insert i X"
  shows "index_ok X' (state\<lparr>re_transactions := hm_modify i change (re_transactions state)\<rparr>)"
proof -
  have "{e \<in> entries (hm_modify i change (re_transactions state)) key. snd e \<notin> X'} = {e \<in> entries (re_transactions state) key. snd e \<notin> X}" for key
  proof -
    have mine: "(s, i) \<in> entries (re_transactions state) key \<longleftrightarrow> s = tn_sequence (rc_summary r) \<and> has_key r key" for s by (rule entries_in [OF r])
    then show ?thesis unfolding entries_modify [where change = change, OF r seq] using keys by auto
  qed
  then show ?thesis using ok by (simp add: index_ok_def)
qed

lemma table_modify:
  assumes ok: "table_ok state" and r: "hm_get (re_transactions state) i = Some r" and seq: "tn_sequence (rc_summary (change r)) = tn_sequence (rc_summary r)"
    and key: "tn_transactionId (rc_summary (change r)) = owned i"
  shows "table_ok (state\<lparr>re_transactions := hm_modify i change (re_transactions state)\<rparr>)"
proof -
  have "sequence_of (hm_modify i change (re_transactions state)) = sequence_of (re_transactions state)"
    using r seq by (auto simp: fun_eq_iff sequence_of_def hm_get_modify)
  moreover have "fst ` set (hm_modify i change (re_transactions state)) = fst ` set (re_transactions state)"
    using hm_keys_modify [of i change "re_transactions state"] by (metis list.set_map)
  ultimately show ?thesis using ok r seq key by (auto simp: table_ok_def hm_get_modify)
qed

definition footprint :: "layout \<Rightarrow> RecordingStateInner \<Rightarrow> nat" where
  "footprint ly state = visible ly state + tombs ly (re_cleanupQueue state)"

lemma enqueue_ok:
  assumes "core_ok E ly X state" and "E \<Longrightarrow> footprint ly (enqueueBodyReferences ly bodies state) \<le> usize_max"
  shows "core_ok E ly X (enqueueBodyReferences ly bodies state)"
  using assms by (cases E) (simp_all add: core_ok_def table_ok_def index_ok_def bodies_ok_def meta_ok_def visible_def enqueueBodyReferences_def footprint_def tombs_def usize_add_def)

lemma replaceWithinBudget_ok:
  assumes ok: "core_ok E ly X state" and r: "hm_get (re_transactions state) i = Some r"
    and old: "old = transactionMetadataBytes ly r" and new: "E \<Longrightarrow> new < usize_max \<Longrightarrow> new = transactionMetadataBytes ly (change r)"
    and seq: "tn_sequence (rc_summary (change r)) = tn_sequence (rc_summary r)" and key: "tn_transactionId (rc_summary (change r)) = owned i"
    and keys: "(\<forall>key. has_key (change r) key = has_key r key) \<and> X' = X \<or> (\<forall>key. \<not> has_key r key) \<and> X' = insert i X"
    and body: "transactionBodyBytes (change r) = transactionBodyBytes r" and budget: "re_metadataMemoryBudgetBytes state < usize_max"
    and run: "replaceWithinBudget ly i old new change state = Ok (bodies, state')"
  defines "ids \<equiv> planMetadataBudgetEvictions ly i (new - old) state"
  shows "core_ok E ly X' state' \<and> same_frame state state' \<and> (E \<longrightarrow> visible ly state' \<le> re_metadataMemoryBudgetBytes state)
    \<and> re_transactions state' = hm_modify i change (fold hm_remove ids (re_transactions state))
    \<and> re_order state' = filter (\<lambda>j. j \<notin> set ids) (re_order state)
    \<and> re_collectionVersion state' = (if ids = [] then re_collectionVersion state else saturating_add (re_collectionVersion state) 1)
    \<and> (\<forall>b\<in>set bodies. \<exists>j q. hm_get (re_transactions state) j = Some q \<and> j \<in> set ids \<and> b \<in> set (intoBodyReferences q))"
proof -
  have ev: "evictable state (Some i) ids" unfolding ids_def by (rule plans_evictable(3) [OF ok])
  define freed where "freed = sum_list (map (transactionMetadataBytes ly) (evictedRecords ids state))"
  define deferred where "deferred = sum_list (map (cleanupBodyReferencesMetadataBytes ly) (evictedRecords ids state))"
  define projected where "projected = usize_add (re_totalMetadataBytes state - old - freed) new"
  obtain mid where rem: "removeTransactions ly ids state = (bodies, mid)" and fit: "usize_add projected deferred \<le> re_metadataMemoryBudgetBytes state"
    and st: "state' = mid\<lparr>re_transactions := hm_modify i change (re_transactions mid), re_totalMetadataBytes := projected\<rparr>"
    using run unfolding replaceWithinBudget_def Let_def ids_def [symmetric] freed_def [symmetric] deferred_def [symmetric] projected_def [symmetric]
    by (cases "removeTransactions ly ids state") (auto split: if_splits)
  note m = removeTransactions_spec [OF ok rem]
  have mid_r: "hm_get (re_transactions mid) i = Some r"
    using m ev r hm.get_fold_del [of ids "re_transactions state" i] by (auto simp: evictable_def)
  have wf: "hm_wf (re_transactions state)" "hm_wf (re_transactions mid)" using ok m by (auto simp: core_ok_def table_ok_def)
  have plain: "projected = re_totalMetadataBytes state - old - freed + new" "new < usize_max" "projected \<le> re_metadataMemoryBudgetBytes state"
    using fit budget unfolding projected_def usize_add_def by linarith+
  have sum: "visible ly mid + freed = visible ly state"
    using hm_sum_fold_remove [OF wf(1), of ids "transactionMetadataBytes ly"] ev m by (simp add: visible_def freed_def evictedRecords_def evictable_def)
  have meta: "projected = hm_sum (transactionMetadataBytes ly) (hm_modify i change (re_transactions mid)) + tombs ly (re_cleanupQueue mid)" if E
  proof -
    have "new = transactionMetadataBytes ly (change r)" by (rule new [OF that plain(2)])
    then have mine: "hm_sum (transactionMetadataBytes ly) (hm_modify i change (re_transactions mid)) + old = visible ly mid + new"
      using hm_sum_modify [OF wf(2) mid_r, of "transactionMetadataBytes ly" change] by (simp add: visible_def old)
    have "old \<le> visible ly mid" unfolding visible_def old by (rule hm_sum_member [OF mid_r])
    then show ?thesis using plain(1) sum mine ok m that by (simp add: core_ok_def meta_ok_def same_frame_def)
  qed
  have "meta_ok E ly state'" unfolding meta_ok_def st using meta by (simp add: visible_def)
  moreover have "bodies_ok state'"
    using m hm_sum_modify [OF wf(2) mid_r, of transactionBodyBytes change] body unfolding st by (simp add: core_ok_def bodies_ok_def)
  moreover have "table_ok state'"
  proof -
    have "table_ok (mid\<lparr>re_transactions := hm_modify i change (re_transactions mid)\<rparr>)"
      using m by (intro table_modify [where change = change, OF _ mid_r seq key]) (simp add: core_ok_def)
    then show ?thesis unfolding st by (simp add: table_ok_def)
  qed
  moreover have "index_ok X' state'"
  proof -
    have "index_ok X' (mid\<lparr>re_transactions := hm_modify i change (re_transactions mid)\<rparr>)"
      using m by (intro index_modify [where change = change, OF _ mid_r seq keys]) (simp add: core_ok_def)
    then show ?thesis unfolding st by (simp add: index_ok_def)
  qed
  ultimately have "core_ok E ly X' state'" by (simp add: core_ok_def)
  moreover have "E \<longrightarrow> visible ly state' \<le> re_metadataMemoryBudgetBytes state" using meta plain(3) unfolding st by (cases E) (simp_all add: visible_def)
  moreover have "(\<exists>j\<in>set ids. hm_get (re_transactions state) j \<noteq> None) \<longleftrightarrow> ids \<noteq> []" using ev by (cases ids) (auto simp: evictable_def)
  ultimately show ?thesis using m unfolding st by (simp add: same_frame_def)
qed

end
