(* ===== verification/RecordingEvolution.thy ===== *)
theory RecordingEvolution
  imports RecordingLemmas
begin

text \<open>
  How the parts of an operation change a recording session: what cleanup leaves alone, how records evolve, the
  invariant with the limits, and the effect of replacing a record within the budget.
\<close>

section \<open>Cleanup\<close>

definition still :: "RecordingStateInner \<Rightarrow> RecordingStateInner \<Rightarrow> bool" where
  "still s t \<longleftrightarrow> re_transactions t = re_transactions s \<and> re_order t = re_order s \<and> re_collectionVersion t = re_collectionVersion s
     \<and> re_limits t = re_limits s \<and> re_metadataMemoryBudgetBytes t = re_metadataMemoryBudgetBytes s \<and> re_recordingSessionId t = re_recordingSessionId s
     \<and> re_nextSequence t = re_nextSequence s \<and> re_totalBodyBytes t = re_totalBodyBytes s"

definition quiet :: "layout \<Rightarrow> RecordingStateInner \<Rightarrow> RecordingStateInner \<Rightarrow> bool" where
  "quiet ly s t \<longleftrightarrow> still s t \<and> re_closed t = re_closed s \<and> tombs ly (re_cleanupQueue t) \<le> tombs ly (re_cleanupQueue s)"

lemma still_trans: "still s t \<Longrightarrow> still t u \<Longrightarrow> still s u"
  by (simp add: still_def)

lemma quiet_refl [simp]: "quiet ly s s" "still s s"
  by (simp_all add: quiet_def still_def)

lemma quiet_trans: "quiet ly s t \<Longrightarrow> quiet ly t u \<Longrightarrow> quiet ly s u"
  by (simp add: quiet_def still_def)

lemma quiet_notify [simp]: "quiet ly s (notifyChanged t) = quiet ly s t" "core_ok E ly X (notifyChanged t) = core_ok E ly X t"
  by (simp_all add: quiet_def still_def notifyChanged_def)

lemma removeBody_shape: "removeBody disk b state = (e, state') \<Longrightarrow> \<exists>fs. state' = state\<lparr>re_files := fs\<rparr>"
proof -
  assume run: "removeBody disk b state = (e, state')"
  then have "state' = state\<lparr>re_files := re_files state'\<rparr>" by (auto simp: removeBody_def split: BodyStorage.splits option.splits)
  then show ?thesis by blast
qed

lemma drainQueue_quiet:
  assumes "core_ok E ly X state" and "re_cleanupQueue state = queue" and "drainQueue ly disk queue state = (e, state')"
  shows "core_ok E ly X state' \<and> quiet ly state state'"
  using assms
proof (induction queue arbitrary: state)
  case (Cons b queue)
  obtain f mid where rb: "removeBody disk b state = (f, mid)" by fastforce
  obtain fs where mid: "mid = state\<lparr>re_files := fs\<rparr>" using removeBody_shape [OF rb] by blast
  show ?case
  proof (cases f)
    case (Some _)
    then have "state' = mid" using Cons.prems(3) rb by simp
    then show ?thesis using Cons.prems(1) by (simp add: mid quiet_def still_def)
  next
    case None
    define s' where "s' = notifyChanged (mid\<lparr>re_cleanupQueue := queue, re_totalMetadataBytes := re_totalMetadataBytes mid - cleanupBodyReferenceMetadataBytes ly b\<rparr>)"
    have "core_ok E ly X s'" using Cons.prems(1,2) unfolding s'_def mid
      by (simp add: core_ok_def table_ok_def index_ok_def bodies_ok_def meta_ok_def visible_def tombs_def notifyChanged_def)
    moreover have "quiet ly state s'" using Cons.prems(2) unfolding s'_def mid by (simp add: quiet_def still_def notifyChanged_def tombs_def)
    moreover have "re_cleanupQueue s' = queue" by (simp add: s'_def notifyChanged_def)
    moreover have "drainQueue ly disk queue s' = (e, state')" using Cons.prems(3) rb None by (simp add: s'_def)
    ultimately show ?thesis using Cons.IH quiet_trans by blast
  qed
qed auto

lemma cleanupOrphans_shape:
  "cleanupOrphans disk paths state = (e, state') \<Longrightarrow> \<exists>os fs. state' = state\<lparr>re_orphanedSpills := os, re_files := fs\<rparr>"
proof (induction paths arbitrary: state)
  case Nil
  then have "state' = state\<lparr>re_orphanedSpills := re_orphanedSpills state, re_files := re_files state\<rparr>" by simp
  then show ?case by blast
next
  case (Cons p ps)
  show ?case
  proof (cases "dk_remove disk p")
    case None
    then show ?thesis using Cons.IH [of "state\<lparr>re_orphanedSpills := ps, re_files := hm_remove p (re_files state)\<rparr>"] Cons.prems by auto
  next
    case (Some _)
    then have "state' = state\<lparr>re_orphanedSpills := re_orphanedSpills state, re_files := re_files state\<rparr>" using Cons.prems by simp
    then show ?thesis by blast
  qed
qed

lemma clearDirectory_shape: "clearDirectory disk state = (e, state') \<Longrightarrow> \<exists>os fs. state' = state\<lparr>re_orphanedSpills := os, re_files := fs\<rparr>"
proof -
  assume run: "clearDirectory disk state = (e, state')"
  then have "state' = state\<lparr>re_orphanedSpills := re_orphanedSpills state', re_files := re_files state'\<rparr>"
    by (auto simp: clearDirectory_def split: option.splits prod.splits)
  then show ?thesis by blast
qed

lemma files_quiet [simp]:
  "quiet ly s (t\<lparr>re_orphanedSpills := os, re_files := fs\<rparr>) = quiet ly s t" "quiet ly s (t\<lparr>re_directoryCleanupPending := b\<rparr>) = quiet ly s t"
  by (simp_all add: quiet_def still_def)

lemma drain_quiet:
  assumes "core_ok E ly X state" and "drainCleanupQueueLocked ly disk state = (r, state')"
  shows "core_ok E ly X state' \<and> quiet ly state state'"
proof -
  obtain e1 s1 where q: "drainQueue ly disk (re_cleanupQueue state) state = (e1, s1)" by fastforce
  have s1: "core_ok E ly X s1" "quiet ly state s1" using drainQueue_quiet [OF assms(1) refl q] by auto
  obtain e2 s2 where o: "cleanupOrphans disk (re_orphanedSpills s1) s1 = (e2, s2)" by fastforce
  obtain os fs where s2: "s2 = s1\<lparr>re_orphanedSpills := os, re_files := fs\<rparr>" using cleanupOrphans_shape [OF o] by blast
  define s3 where "s3 = (if length (re_orphanedSpills s2) \<noteq> length (re_orphanedSpills s1) then notifyChanged s2 else s2)"
  obtain e4 s4 where c: "clearDirectory disk s3 = (e4, s4)" by fastforce
  obtain os' fs' where s4: "s4 = s3\<lparr>re_orphanedSpills := os', re_files := fs'\<rparr>" using clearDirectory_shape [OF c] by blast
  have "core_ok E ly X s2" "quiet ly state s2" using s1 by (simp_all add: s2)
  then have s3: "core_ok E ly X s3" "quiet ly state s3" by (simp_all add: s3_def)
  then have s4_ok: "core_ok E ly X s4" "quiet ly state s4" by (simp_all add: s4)
  have "state' \<in> {s1, s2, s3, s4, notifyChanged (s4\<lparr>re_directoryCleanupPending := False\<rparr>)}"
    using assms(2) q o c unfolding drainCleanupQueueLocked_def
    by (auto simp: s3_def [symmetric] Let_def split: option.splits if_splits)
  then show ?thesis using s1 \<open>core_ok E ly X s2\<close> \<open>quiet ly state s2\<close> s3 s4_ok by auto
qed

section \<open>How records evolve\<close>

text \<open>What is left of a summary once the fields the user writes, and spare capacity, are taken away.\<close>

definition essence :: "TransactionSummary \<Rightarrow> TransactionSummary" where
  "essence s = (clone_summary s)\<lparr>tn_notes := owned [], tn_tags := vec_of [], tn_appliedTools := vec_of []\<rparr>"

definition frozen :: "TransactionRecord \<Rightarrow> TransactionRecord \<Rightarrow> bool" where
  "frozen r r' \<longleftrightarrow> essence (rc_summary r') = essence (rc_summary r) \<and> rc_requestHeaders r' = rc_requestHeaders r \<and> rc_responseHeaders r' = rc_responseHeaders r
     \<and> rc_requestBody r' = rc_requestBody r \<and> rc_responseBody r' = rc_responseBody r
     \<and> rc_requestHeadersTruncated r' = rc_requestHeadersTruncated r \<and> rc_responseHeadersTruncated r' = rc_responseHeadersTruncated r"

lemma essence_fields:
  assumes "essence s = essence t"
  shows "tn_status s = tn_status t" "tn_statusCode s = tn_statusCode t" "tn_sequence s = tn_sequence t" "tx (tn_urlDisplay s) = tx (tn_urlDisplay t)"
    "tx (tn_transactionId s) = tx (tn_transactionId t)" "tn_timings s = tn_timings t" "tn_flags s = tn_flags t"
  using arg_cong [OF assms, of tn_status] arg_cong [OF assms, of tn_statusCode] arg_cong [OF assms, of tn_sequence]
    arg_cong [OF assms, of "\<lambda>s. tx (tn_urlDisplay s)"] arg_cong [OF assms, of "\<lambda>s. tx (tn_transactionId s)"]
    arg_cong [OF assms, of tn_timings] arg_cong [OF assms, of tn_flags]
  by (simp_all add: essence_def clone_summary_def clone_text_def)

lemma frozen_refl [simp]: "frozen r r"
  by (simp add: frozen_def)

lemma frozen_trans: "frozen q r \<Longrightarrow> frozen r s \<Longrightarrow> frozen q s"
  by (simp add: frozen_def)

definition keeps :: "TransactionRecord \<Rightarrow> TransactionRecord option \<Rightarrow> bool" where
  "keeps r r' \<longleftrightarrow> (case r' of
     None \<Rightarrow> tn_status (rc_summary r) \<noteq> Pending
   | Some q \<Rightarrow> if tn_status (rc_summary r) = Pending then tn_status (rc_summary q) = Pending else frozen r q)"

text \<open>What every part of an operation but an admission respects; the transactions of \<open>X\<close> may have ended.\<close>

definition evolves :: "str set \<Rightarrow> RecordingStateInner \<Rightarrow> RecordingStateInner \<Rightarrow> bool" where
  "evolves X s t \<longleftrightarrow> re_limits t = re_limits s \<and> re_metadataMemoryBudgetBytes t = re_metadataMemoryBudgetBytes s \<and> re_recordingSessionId t = re_recordingSessionId s
     \<and> re_nextSequence t = re_nextSequence s \<and> re_collectionVersion s \<le> re_collectionVersion t
     \<and> (re_collectionVersion t = re_collectionVersion s \<and> re_collectionVersion s \<noteq> - 1 \<longrightarrow> re_order t = re_order s)
     \<and> (\<forall>i. hm_get (re_transactions s) i = None \<longrightarrow> hm_get (re_transactions t) i = None)
     \<and> (\<forall>i r. i \<notin> X \<longrightarrow> hm_get (re_transactions s) i = Some r \<longrightarrow> keeps r (hm_get (re_transactions t) i))"

lemma frozen_status: "frozen r r' \<Longrightarrow> tn_status (rc_summary r') = tn_status (rc_summary r)"
  unfolding frozen_def by (rule essence_fields(1)) simp

lemma keeps_refl [simp]: "keeps r (Some r)"
  by (simp add: keeps_def)

lemma keeps_trans: "keeps q (Some r) \<Longrightarrow> keeps r r' \<Longrightarrow> keeps q r'"
  unfolding keeps_def using frozen_status [of q r] frozen_trans [of q r]
  by (cases "tn_status (rc_summary q) = Pending"; cases "tn_status (rc_summary r) = Pending"; cases r') simp_all

lemma evolvesD:
  assumes "evolves X s t"
  shows "re_limits t = re_limits s" "re_metadataMemoryBudgetBytes t = re_metadataMemoryBudgetBytes s" "re_recordingSessionId t = re_recordingSessionId s"
    "re_nextSequence t = re_nextSequence s" "re_collectionVersion s \<le> re_collectionVersion t"
    "re_collectionVersion t = re_collectionVersion s \<Longrightarrow> re_collectionVersion s \<noteq> - 1 \<Longrightarrow> re_order t = re_order s"
    "hm_get (re_transactions s) i = None \<Longrightarrow> hm_get (re_transactions t) i = None"
    "i \<notin> X \<Longrightarrow> hm_get (re_transactions s) i = Some r \<Longrightarrow> keeps r (hm_get (re_transactions t) i)"
  using assms unfolding evolves_def by simp_all

lemma evolves_trans:
  assumes st: "evolves X s t" and tu: "evolves X t u"
  shows "evolves X s u"
proof -
  have "keeps r (hm_get (re_transactions u) i)" if i: "i \<notin> X" and r: "hm_get (re_transactions s) i = Some r" for i r
  proof (cases "hm_get (re_transactions t) i")
    case None
    then show ?thesis using evolvesD(8) [OF st i r] evolvesD(7) [OF tu None] by simp
  next
    case (Some q)
    then show ?thesis using keeps_trans evolvesD(8) [OF st i r] evolvesD(8) [OF tu i Some] by simp
  qed
  moreover have "re_order u = re_order s" if v: "re_collectionVersion u = re_collectionVersion s" "re_collectionVersion s \<noteq> - 1"
  proof -
    have "re_collectionVersion t = re_collectionVersion s"
      using order_antisym [OF _ evolvesD(5) [OF st]] evolvesD(5) [OF tu] v(1) by simp
    then show ?thesis using evolvesD(6) [OF st] evolvesD(6) [OF tu] v by simp
  qed
  moreover have "re_collectionVersion s \<le> re_collectionVersion u" using evolvesD(5) [OF st] evolvesD(5) [OF tu] by (rule order_trans)
  moreover have "hm_get (re_transactions u) i = None" if "hm_get (re_transactions s) i = None" for i
    by (rule evolvesD(7) [OF tu evolvesD(7) [OF st that]])
  ultimately show ?thesis unfolding evolves_def using evolvesD(1-4) [OF st] evolvesD(1-4) [OF tu] by simp
qed

lemma evolves_refl [simp]: "evolves X s s"
  by (simp add: evolves_def)

lemma still_evolves: "still s t \<Longrightarrow> evolves X s t"
  by (simp add: evolves_def still_def)

lemma saturating_Suc: "v \<le> saturating_add v 1" "saturating_add v 1 = v \<Longrightarrow> v = - 1" for v :: u64
proof -
  have "unat v < 2 ^ 64" using unsigned_less [of v] by simp
  then show "v \<le> saturating_add v 1" unfolding word_le_nat_alt unat_saturating_add by simp
  show "v = - 1" if "saturating_add v 1 = v"
  proof -
    have "unat v = min (unat v + 1) (2 ^ 64 - 1)" using arg_cong [OF that, of unat] unfolding unat_saturating_add by simp
    then have "unat v = 2 ^ 64 - 1" by linarith
    also have "\<dots> = unat (- 1 :: u64)" by (simp add: unsigned_minus_1_eq_mask mask_eq_exp_minus_1)
    finally have "unat v = unat (- 1 :: u64)" .
    then show ?thesis by (rule word_unat_eq_iff [THEN iffD2])
  qed
qed

lemma removal_evolves:
  assumes ok: "core_ok E ly X state" and ev: "evictable state current ids" and run: "removeTransactions ly ids state = (bodies, state')"
  shows "evolves Y state state'"
proof -
  note m = removeTransactions_spec [OF ok run]
  have get: "hm_get (re_transactions state') i = (if i \<in> set ids then None else hm_get (re_transactions state) i)" for i
    using m hm.get_fold_del [of ids "re_transactions state" i] by simp
  have "re_order state' = re_order state" if "re_collectionVersion state' = re_collectionVersion state" "re_collectionVersion state \<noteq> - 1"
  proof -
    have "\<not> (\<exists>i\<in>set ids. hm_get (re_transactions state) i \<noteq> None)" using m that saturating_Suc(2) by (auto split: if_splits)
    then have "ids = []" using ev by (cases ids) (auto simp: evictable_def)
    then show ?thesis using m by simp
  qed
  moreover have "keeps r (hm_get (re_transactions state') i)" if "hm_get (re_transactions state) i = Some r" for i r
    using that ev by (auto simp: get keeps_def evictable_def split: option.split)
  moreover have "re_collectionVersion state \<le> re_collectionVersion state'" using m saturating_Suc(1) by simp
  moreover have "hm_get (re_transactions state') i = None" if "hm_get (re_transactions state) i = None" for i using that by (simp add: get)
  moreover have "same_frame state state'" using m by blast
  ultimately show ?thesis unfolding evolves_def same_frame_def by simp
qed

lemma modify_evolves:
  assumes "hm_get (re_transactions s) i = Some r" and "i \<in> X \<or> keeps r (Some (change r))"
    and "re_transactions t = hm_modify i change (re_transactions s)" and "re_order t = re_order s" "re_collectionVersion t = re_collectionVersion s"
    "re_limits t = re_limits s" "re_metadataMemoryBudgetBytes t = re_metadataMemoryBudgetBytes s" "re_recordingSessionId t = re_recordingSessionId s"
    "re_nextSequence t = re_nextSequence s"
  shows "evolves X s t"
  using assms unfolding evolves_def by (auto simp: hm_get_modify)

section \<open>The invariant with the limits\<close>

definition rec_ok :: "bool \<Rightarrow> layout \<Rightarrow> RecordingStateInner \<Rightarrow> bool" where
  "rec_ok E ly state \<longleftrightarrow> core_ok E ly {} state \<and> (E \<longrightarrow> visible ly state \<le> re_metadataMemoryBudgetBytes state)
     \<and> re_totalBodyBytes state \<le> li_maxTotalBodyBytes (re_limits state) \<and> length (re_transactions state) \<le> li_maxTransactions (re_limits state)
     \<and> re_metadataMemoryBudgetBytes state < usize_max \<and> li_maxTotalBodyBytes (re_limits state) < usize_max"

text \<open>
  Where the metadata is counted (\<open>E\<close>), memory is never so full that a count saturates: the budget, the queued tombstones and the tombstones of all
  bodies of the table with one copy of each are together addressable.
\<close>

abbreviation deferred :: "layout \<Rightarrow> (str, TransactionRecord) hashmap \<Rightarrow> nat" where
  "deferred ly transactions \<equiv> hm_sum (cleanupBodyReferencesMetadataBytes ly) transactions"

definition roomy :: "bool \<Rightarrow> layout \<Rightarrow> RecordingStateInner \<Rightarrow> bool" where
  "roomy E ly state \<longleftrightarrow> (E \<longrightarrow> re_metadataMemoryBudgetBytes state + tombs ly (re_cleanupQueue state) + deferred ly (re_transactions state)
     + hm_sum (\<lambda>r. cleanupBodyReferencesMetadataBytes ly (clone_record r)) (re_transactions state) \<le> usize_max)"

lemma still_rec_ok: "rec_ok E ly s \<Longrightarrow> still s t \<Longrightarrow> core_ok E ly {} t \<Longrightarrow> rec_ok E ly t"
  by (simp add: rec_ok_def still_def visible_def)

lemma quiet_roomy: "roomy E ly s \<Longrightarrow> quiet ly s t \<Longrightarrow> roomy E ly t"
  by (cases E) (simp_all add: roomy_def quiet_def still_def)

lemma removeLoop_deferred:
  assumes "hm_wf (re_transactions state)" and "removeLoop ly ids state = (bodies, any, state')"
  shows "tombs ly bodies + deferred ly (re_transactions state') = deferred ly (re_transactions state)"
  using assms
proof (induction ids arbitrary: state bodies any)
  case (Cons i ids)
  show ?case
  proof (cases "hm_get (re_transactions state) i")
    case None
    then show ?thesis using Cons by simp
  next
    case (Some r)
    obtain bs any' where rest: "removeLoop ly ids (dropTransaction ly i r state) = (bs, any', state')" and b: "bodies = intoBodyReferences r @ bs"
      using Cons.prems(2) Some by (auto split: prod.splits)
    have "tombs ly bs + deferred ly (re_transactions state') = deferred ly (hm_remove i (re_transactions state))"
      using Cons.IH [OF _ rest] Cons.prems(1) by (simp add: dropTransaction_frame)
    then show ?thesis using hm_sum_remove [OF Cons.prems(1) Some, of "cleanupBodyReferencesMetadataBytes ly"]
      by (simp add: b tombs_def cleanupBodyReferencesMetadataBytes_def [of ly r])
  qed
qed (simp add: tombs_def)

lemma removal_deferred:
  assumes "hm_wf (re_transactions state)" and "removeTransactions ly ids state = (bodies, state')"
  shows "tombs ly bodies + deferred ly (re_transactions state') = deferred ly (re_transactions state)"
proof (cases "ids = []")
  case False
  let ?s = "state\<lparr>re_order := filter (\<lambda>i. i \<notin> set ids) (re_order state)\<rparr>"
  obtain any t where loop: "removeLoop ly ids ?s = (bodies, any, t)" and t: "state' = (if any then markCollectionChanged t else t)"
    using assms(2) False by (auto simp: removeTransactions_def Let_def split: prod.splits)
  then show ?thesis using removeLoop_deferred [OF _ loop] assms(1) by (simp add: markCollectionChanged_def)
qed (use assms in \<open>simp add: removeTransactions_def tombs_def\<close>)

lemma removal_visible:
  assumes ok: "core_ok E ly X state" and run: "removeTransactions ly ids state = (bodies, state')" and ids: "distinct ids"
  shows "visible ly state' \<le> visible ly state" "length (re_transactions state') \<le> length (re_transactions state)"
    "re_totalBodyBytes state' + sum_list (map transactionBodyBytes (evictedRecords ids state)) = re_totalBodyBytes state"
proof -
  note m = removeTransactions_spec [OF ok run]
  have wf: "hm_wf (re_transactions state)" using ok by (simp add: core_ok_def table_ok_def)
  have trans: "re_transactions state' = fold hm_remove ids (re_transactions state)" using m by blast
  show "visible ly state' \<le> visible ly state" using hm_sum_fold_remove [OF wf ids, of "transactionMetadataBytes ly"] trans by (simp add: visible_def)
  show "length (re_transactions state') \<le> length (re_transactions state)"
    using hm_sum_fold_remove [OF wf ids, of "\<lambda>_. 1"] unfolding trans hm_sum_def by (simp add: sum_list_triv)
  have "core_ok E ly X state'" using m by blast
  then show "re_totalBodyBytes state' + sum_list (map transactionBodyBytes (evictedRecords ids state)) = re_totalBodyBytes state"
    using ok hm_sum_fold_remove [OF wf ids, of transactionBodyBytes] trans by (simp add: core_ok_def bodies_ok_def evictedRecords_def)
qed

lemma finish_ok:
  assumes ok: "core_ok E ly X state" and fits: "E \<Longrightarrow> visible ly state + tombs ly (re_cleanupQueue state) + tombs ly bodies \<le> usize_max"
    and run: "finishWithCleanup ly disk v (enqueueBodyReferences ly bodies state) = (r, state')"
  shows "core_ok E ly X state' \<and> still state state'"
proof -
  define queued where "queued = enqueueBodyReferences ly bodies state"
  have "footprint ly queued = visible ly state + tombs ly (re_cleanupQueue state) + tombs ly bodies"
    by (simp add: queued_def footprint_def enqueueBodyReferences_def visible_def tombs_def)
  then have "core_ok E ly X queued" using enqueue_ok [OF ok] fits by (simp add: queued_def)
  then have queued_ok: "core_ok E ly X (notifyChanged queued)" by simp
  obtain d where d: "drainCleanupQueueLocked ly disk (notifyChanged queued) = (d, state')"
    using run by (auto simp: finishWithCleanup_def queued_def split: prod.splits)
  have "core_ok E ly X state'" "still (notifyChanged queued) state'" using drain_quiet [OF queued_ok d] by (auto simp: quiet_def)
  moreover have "still state (notifyChanged queued)" by (simp add: queued_def still_def notifyChanged_def enqueueBodyReferences_def)
  ultimately show ?thesis using still_trans by blast
qed

section \<open>The measure of a record\<close>

lemma fold_usize: "fold (\<lambda>p total. usize_add total p) ps (usize_add a b) = min usize_max (a + b + sum_list ps)"
  by (induction ps arbitrary: a b) (auto simp: usize_add_def add.assoc intro: arg_cong)

definition plain_measure :: "layout \<Rightarrow> TransactionRecord \<Rightarrow> nat" where
  "plain_measure ly r = ly_TransactionRecord ly - ly_TransactionSummary ly + rc_summaryStorageBytes r
     + usize_mul (usize_add (ly_String ly) (cap (tn_transactionId (rc_summary r)))) 2 + usize_mul (ly_usize ly) 2
     + responseEntityIndexMetadataBytes ly (rc_summary r) (items (rc_responseHeaders r)) (rc_responseBody r)
     + headerStorageBytes ly (rc_requestHeaders r) + headerStorageBytes ly (rc_responseHeaders r)
     + streamPacketStorageBytes ly (rc_requestPackets r) + streamPacketStorageBytes ly (rc_responsePackets r)
     + (if tn_status (rc_summary r) = Pending then 0 else bodyReferenceMetadataBytes r)"

lemma measure_plain: "transactionMetadataBytes ly r = min usize_max (plain_measure ly r)"
  unfolding transactionMetadataBytes_def plain_measure_def Let_def
  by (simp only: fold_simps fold_usize) (simp add: usize_add_def add.assoc)

section \<open>Replacement\<close>

lemma replace_run:
  assumes "replaceWithinBudget ly i old new change state = Ok (bodies, state')"
  obtains mid where "removeTransactions ly (planMetadataBudgetEvictions ly i (new - old) state) state = (bodies, mid)"
    "re_transactions state' = hm_modify i change (re_transactions mid)" "re_order state' = re_order mid" "re_collectionVersion state' = re_collectionVersion mid"
    "same_frame mid state'"
  using assms unfolding replaceWithinBudget_def Let_def by (auto simp: same_frame_def split: if_splits prod.splits)

lemma length_modify [simp]: "length (hm_modify k f m) = length m"
  by (simp add: hm_modify_def)

text \<open>What removing others and changing one record does, before the removed bodies are queued.\<close>

definition effect :: "bool \<Rightarrow> layout \<Rightarrow> str set \<Rightarrow> str set \<Rightarrow> RecordingStateInner \<Rightarrow> BodyRef list \<Rightarrow> RecordingStateInner \<Rightarrow> bool" where
  "effect E ly X Y state bodies state' \<longleftrightarrow> core_ok E ly X state' \<and> evolves Y state state' \<and> (E \<longrightarrow> visible ly state' \<le> re_metadataMemoryBudgetBytes state)
    \<and> tombs ly bodies \<le> deferred ly (re_transactions state) \<and> re_cleanupQueue state' = re_cleanupQueue state
    \<and> re_totalBodyBytes state' \<le> re_totalBodyBytes state \<and> length (re_transactions state') \<le> length (re_transactions state)"

lemma replace_effect:
  assumes ok: "rec_ok E ly state" and r: "hm_get (re_transactions state) i = Some r"
    and old: "old = transactionMetadataBytes ly r" and new: "E \<Longrightarrow> new < usize_max \<Longrightarrow> new = transactionMetadataBytes ly (change r)"
    and seq: "tn_sequence (rc_summary (change r)) = tn_sequence (rc_summary r)" and key: "tn_transactionId (rc_summary (change r)) = owned i"
    and keys: "(\<forall>key. has_key (change r) key = has_key r key) \<and> X = {} \<or> (\<forall>key. \<not> has_key r key) \<and> X = {i}"
    and body: "intoBodyReferences (change r) = intoBodyReferences r" and keep: "i \<in> Y \<or> keeps r (Some (change r))"
    and run: "replaceWithinBudget ly i old new change state = Ok (bodies, state')"
  shows "effect E ly X Y state bodies state' \<and> hm_get (re_transactions state') i = Some (change r)"
proof -
  have core: "core_ok E ly {} state" and budget: "re_metadataMemoryBudgetBytes state < usize_max" using ok by (auto simp: rec_ok_def)
  have bytes: "transactionBodyBytes (change r) = transactionBodyBytes r" using body by (simp add: transactionBodyBytes_def)
  have keys': "(\<forall>key. has_key (change r) key = has_key r key) \<and> X = {} \<or> (\<forall>key. \<not> has_key r key) \<and> X = insert i {}" using keys by simp
  note spec = replaceWithinBudget_ok [where change = change, OF core r old new seq key keys' bytes budget run]
  let ?ids = "planMetadataBudgetEvictions ly i (new - old) state"
  have ev: "evictable state (Some i) ?ids" by (rule plans_evictable(3) [OF core])
  obtain mid where mid: "removeTransactions ly ?ids state = (bodies, mid)" and trans: "re_transactions state' = hm_modify i change (re_transactions mid)"
    and rest: "re_order state' = re_order mid" "re_collectionVersion state' = re_collectionVersion mid" "same_frame mid state'"
    using replace_run [OF run] by blast
  note m = removeTransactions_spec [OF core mid]
  have wf: "hm_wf (re_transactions state)" "hm_wf (re_transactions mid)" using core m by (auto simp: core_ok_def table_ok_def)
  have mid_r: "hm_get (re_transactions mid) i = Some r"
    using m ev r hm.get_fold_del [of ?ids "re_transactions state" i] by (auto simp: evictable_def)
  have "evolves Y state mid" by (rule removal_evolves [OF core ev mid])
  moreover have "evolves Y mid state'"
    using rest(3) by (intro modify_evolves [OF mid_r keep trans rest(1,2)]) (simp_all add: same_frame_def)
  ultimately have "evolves Y state state'" by (rule evolves_trans)
  moreover have "tombs ly bodies \<le> deferred ly (re_transactions state)" using removal_deferred [OF wf(1) mid] by simp
  moreover have "re_totalBodyBytes state' \<le> re_totalBodyBytes state"
  proof -
    have "re_totalBodyBytes state' = hm_sum transactionBodyBytes (re_transactions state')" using spec by (simp add: core_ok_def bodies_ok_def)
    also have "\<dots> = hm_sum transactionBodyBytes (re_transactions mid)"
      using hm_sum_modify [OF wf(2) mid_r, of transactionBodyBytes change] by (simp add: trans bytes)
    also have "\<dots> = re_totalBodyBytes mid" using m by (simp add: core_ok_def bodies_ok_def)
    also have "\<dots> \<le> re_totalBodyBytes state" using removal_visible(3) [OF core mid] ev by (simp add: evictable_def)
    finally show ?thesis .
  qed
  moreover have "length (re_transactions state') \<le> length (re_transactions state)"
    using removal_visible(2) [OF core mid] ev by (simp add: trans evictable_def)
  moreover have "hm_get (re_transactions state') i = Some (change r)" using mid_r by (simp add: trans hm_get_modify)
  moreover have "re_cleanupQueue state' = re_cleanupQueue state" using spec by (simp add: same_frame_def)
  ultimately show ?thesis unfolding effect_def using spec by blast
qed

lemma record_measure:
  assumes ok: "rec_ok E ly state" and E: E and r: "hm_get (re_transactions state) i = Some r"
  shows "transactionMetadataBytes ly r = plain_measure ly r" "plain_measure ly r \<le> re_metadataMemoryBudgetBytes state"
proof -
  have "transactionMetadataBytes ly r \<le> re_metadataMemoryBudgetBytes state" "re_metadataMemoryBudgetBytes state < usize_max"
    using ok E hm_sum_member [OF r, of "transactionMetadataBytes ly"] by (auto simp: rec_ok_def visible_def)
  then show "transactionMetadataBytes ly r = plain_measure ly r" "plain_measure ly r \<le> re_metadataMemoryBudgetBytes state"
    unfolding measure_plain by (auto simp: min_def split: if_splits)
qed

lemma replaceSummary_effect:
  assumes ok: "rec_ok E ly state" and r: "hm_get (re_transactions state) i = Some r"
    and key: "tn_transactionId summary = owned i" and seq: "tn_sequence summary = tn_sequence (rc_summary r)"
    and keys: "(\<forall>key. has_key (r\<lparr>rc_summary := summary, rc_summaryStorageBytes := n\<rparr>) key = has_key r key) \<and> X = {} \<or> (\<forall>key. \<not> has_key r key) \<and> X = {i}"
    and keep: "i \<in> Y \<or> keeps r (Some (r\<lparr>rc_summary := summary, rc_summaryStorageBytes := n\<rparr>))"
    and run: "replaceSummaryWithinMetadataBudget ly i summary n state = Ok (bodies, state')"
  shows "effect E ly X Y state bodies state' \<and> hm_get (re_transactions state') i = Some (r\<lparr>rc_summary := summary, rc_summaryStorageBytes := n\<rparr>)"
proof -
  let ?change = "\<lambda>record. record\<lparr>rc_summary := summary, rc_summaryStorageBytes := n\<rparr>"
  let ?index = "\<lambda>s. responseEntityIndexMetadataBytes ly s (items (rc_responseHeaders r)) (rc_responseBody r)"
  let ?refs = "\<lambda>s. if tn_status s = Pending then 0 else bodyReferenceMetadataBytes r"
  define old where "old = transactionMetadataBytes ly r"
  define new where "new = usize_add (usize_add (usize_add (old - rc_summaryStorageBytes r - ?refs (rc_summary r) - ?index (rc_summary r)) n) (?refs summary)) (?index summary)"
  have go: "replaceWithinBudget ly i old new ?change state = Ok (bodies, state')"
    using run r unfolding replaceSummaryWithinMetadataBudget_def new_def old_def Let_def by (simp split: if_splits)
  have id: "tn_transactionId (rc_summary r) = owned i" using table_okD(4) [OF _ r] ok by (simp add: rec_ok_def core_ok_def)
  have new: "new = transactionMetadataBytes ly (?change r)" if E
  proof -
    have "new = min usize_max (old - rc_summaryStorageBytes r - ?refs (rc_summary r) - ?index (rc_summary r) + n + ?refs summary + ?index summary)"
      by (simp add: new_def usize_add_def)
    also have "old - rc_summaryStorageBytes r - ?refs (rc_summary r) - ?index (rc_summary r) + n + ?refs summary + ?index summary = plain_measure ly (?change r)"
      unfolding old_def record_measure(1) [OF ok that r] plain_measure_def by (simp add: id key bodyReferenceMetadataBytes_def intoBodyReferences_def)
    finally show ?thesis by (simp add: measure_plain)
  qed
  show ?thesis
    by (rule replace_effect [where change = ?change, OF ok r old_def new _ _ keys _ keep go])
       (simp_all add: key seq intoBodyReferences_def)
qed

section \<open>Records\<close>

lemma no_key: "tn_status (rc_summary r) \<noteq> Complete \<Longrightarrow> \<not> has_key r key"
  using entry_facts(4) by (auto simp: has_key_def)

lemma has_key_cong:
  assumes "tn_status (rc_summary q) = tn_status (rc_summary r)" "tn_statusCode (rc_summary q) = tn_statusCode (rc_summary r)"
    "tx (tn_urlDisplay (rc_summary q)) = tx (tn_urlDisplay (rc_summary r))" "rc_responseHeaders q = rc_responseHeaders r" "rc_responseBody q = rc_responseBody r"
  shows "has_key q key = has_key r key"
  using assms by (auto simp: has_key_def responseEntityEntry_def responseRangeCandidate_def Let_def split: option.splits)

lemma modify_core:
  assumes ok: "core_ok E ly X state" and r: "hm_get (re_transactions state) i = Some r"
    and seq: "tn_sequence (rc_summary (change r)) = tn_sequence (rc_summary r)" and key: "tn_transactionId (rc_summary (change r)) = owned i"
    and keys: "\<And>key. has_key (change r) key = has_key r key"
    and meta: "E \<Longrightarrow> metadataBytes + transactionMetadataBytes ly r = re_totalMetadataBytes state + transactionMetadataBytes ly (change r)"
    and body: "bodyBytes + transactionBodyBytes r = re_totalBodyBytes state + transactionBodyBytes (change r)"
  shows "core_ok E ly X (state\<lparr>re_transactions := hm_modify i change (re_transactions state), re_totalMetadataBytes := metadataBytes, re_totalBodyBytes := bodyBytes\<rparr>)"
    (is "core_ok E ly X ?s")
proof -
  have wf: "hm_wf (re_transactions state)" using ok by (simp add: core_ok_def table_ok_def)
  let ?t = "state\<lparr>re_transactions := hm_modify i change (re_transactions state)\<rparr>"
  have "table_ok ?t" using ok by (intro table_modify [where change = change, OF _ r seq key]) (simp add: core_ok_def)
  then have "table_ok ?s" by (simp add: table_ok_def)
  moreover have "index_ok X ?t" using ok keys by (intro index_modify [where change = change and X = X, OF _ r seq]) (simp_all add: core_ok_def)
  then have "index_ok X ?s" by (simp add: index_ok_def)
  moreover have "bodies_ok ?s" using ok body hm_sum_modify [OF wf r, of transactionBodyBytes change] by (simp add: core_ok_def bodies_ok_def)
  moreover have "meta_ok E ly ?s" using ok meta hm_sum_modify [OF wf r, of "transactionMetadataBytes ly" change] by (cases E) (simp_all add: core_ok_def meta_ok_def visible_def)
  ultimately show ?thesis by (simp add: core_ok_def)
qed

section \<open>The entity index\<close>

lemma insert_frame [simp]:
  "still state (insertResponseEntityEntry i state)" "re_cleanupQueue (insertResponseEntityEntry i state) = re_cleanupQueue state"
  "re_totalMetadataBytes (insertResponseEntityEntry i state) = re_totalMetadataBytes state"
  by (simp_all add: insertResponseEntityEntry_def still_def split: option.split prod.split)

lemma index_insert:
  assumes ok: "core_ok E ly {i} state"
  shows "core_ok E ly {} (insertResponseEntityEntry i state)"
proof -
  let ?s = "insertResponseEntityEntry i state"
  have index: "index_ok {i} state" and table: "table_ok state" using ok by (auto simp: core_ok_def)
  have "index_ok {} ?s"
  proof (cases "Option.bind (hm_get (re_transactions state) i) responseEntityEntry")
    case None
    then have "{e \<in> entries (re_transactions state) key. snd e \<notin> {i}} = entries (re_transactions state) key" for key
      by (auto simp: entries_def has_key_def)
    then show ?thesis using index None by (simp add: insertResponseEntityEntry_def index_ok_def)
  next
    case (Some e)
    obtain k c where e: "e = (k, c)" by fastforce
    obtain r where r: "hm_get (re_transactions state) i = Some r" "responseEntityEntry r = Some (k, c)" using Some e by (auto simp: bind_eq_Some_conv)
    define m where "m = (tn_sequence (rc_summary r), i)"
    have c: "(rx_sequence c, tx (rx_transactionId c)) = m" using entry_facts(1,2) [OF r(2)] table_okD(4) [OF table r(1)] by (simp add: m_def)
    define idx where "idx = hm_insert k (bts_insert m (hm_entry_or (re_responseEntityIndex state) k [])) (re_responseEntityIndex state)"
    have s: "?s = state\<lparr>re_responseEntityIndex := idx\<rparr>" using Some e c by (simp add: insertResponseEntityEntry_def idx_def)
    have old: "hm_wf (re_responseEntityIndex state)" "\<And>key ms. hm_get (re_responseEntityIndex state) key = Some ms \<Longrightarrow> sorted ms \<and> distinct ms"
      "\<And>key. set (hm_entry_or (re_responseEntityIndex state) key []) = {e \<in> entries (re_transactions state) key. snd e \<noteq> i}"
      using index by (auto simp: index_ok_def)
    have entry: "sorted (hm_entry_or (re_responseEntityIndex state) k []) \<and> distinct (hm_entry_or (re_responseEntityIndex state) k [])"
      using old(2) by (simp add: hm_entry_or_def split: option.split)
    have "has_key r k' \<longleftrightarrow> k' = k" for k' using r(2) by (auto simp: has_key_def)
    then have sets: "entries (re_transactions state) k' = {e \<in> entries (re_transactions state) k'. snd e \<noteq> i} \<union> (if k' = k then {m} else {})" for k'
      using entries_in [OF r(1)] by (auto simp: m_def)
    have "set (hm_entry_or idx key []) = entries (re_transactions state) key" for key
    proof -
      have "set (hm_entry_or idx key []) = {e \<in> entries (re_transactions state) key. snd e \<noteq> i} \<union> (if key = k then {m} else {})"
        by (simp add: idx_def hm_entry_or_insert set_bts_insert old(3))
      also have "\<dots> = entries (re_transactions state) key" by (rule sets [symmetric])
      finally show ?thesis .
    qed
    moreover have "hm_wf idx" using old(1) by (simp add: idx_def)
    moreover have "sorted ms \<and> distinct ms" if "hm_get idx key = Some ms" for key ms
      using that old(2) [of key ms] entry bts_insert_sorted unfolding idx_def by (auto simp: hm_get_insert split: if_splits)
    ultimately show ?thesis unfolding s by (simp add: index_ok_def)
  qed
  then show ?thesis using ok by (simp add: core_ok_def table_ok_def bodies_ok_def meta_ok_def visible_def insert_frame(1) [unfolded still_def])
qed

end
