(* ===== verification/RecordingWrites.thy ===== *)
theory RecordingWrites
  imports RecordingEvolution
begin

text \<open>The operations that write to a transaction (summaries, headers, bodies, spools, packets) keep the invariant.\<close>

section \<open>Ends of operations\<close>

definition kept :: "bool \<Rightarrow> layout \<Rightarrow> str set \<Rightarrow> RecordingStateInner \<Rightarrow> RecordingStateInner \<Rightarrow> bool" where
  "kept E ly Y state state' \<longleftrightarrow> rec_ok E ly state' \<and> evolves Y state state'"

lemma kept_refl: "rec_ok E ly state \<Longrightarrow> kept E ly Y state state"
  by (simp add: kept_def)

lemma kept_trans: "kept E ly Y s t \<Longrightarrow> kept E ly Y t u \<Longrightarrow> kept E ly Y s u"
  using evolves_trans by (auto simp: kept_def)

lemma kept_notify [simp]: "kept E ly Y s (notifyChanged t) = kept E ly Y s t"
  by (simp add: kept_def rec_ok_def evolves_def notifyChanged_def visible_def)

lemma quiet_kept: "rec_ok E ly s \<Longrightarrow> core_ok E ly {} t \<Longrightarrow> still s t \<Longrightarrow> kept E ly Y s t"
  by (simp add: kept_def still_rec_ok still_evolves)

lemma drain_kept:
  assumes "rec_ok E ly state" and "drainCleanupQueueLocked ly disk state = (r, state')"
  shows "kept E ly Y state state'" "quiet ly state state'"
  using drain_quiet [of E ly "{}", OF _ assms(2)] assms(1) quiet_kept [OF assms(1)] by (auto simp: rec_ok_def quiet_def)

lemma effect_ok:
  assumes ok: "rec_ok E ly state" and eff: "effect E ly {} Y state bodies mid"
  shows "kept E ly Y state mid"
  using ok eff evolvesD(1,2) [of Y state mid] by (simp add: kept_def rec_ok_def effect_def)

lemma effect_fits:
  assumes "roomy E ly state" and "effect E ly X Y state bodies mid" and E
  shows "visible ly mid + tombs ly (re_cleanupQueue mid) + tombs ly bodies \<le> usize_max"
  using assms by (simp add: roomy_def effect_def)

lemma enqueue_kept:
  assumes ok: "rec_ok E ly state" and room: "roomy E ly state" and eff: "effect E ly {} Y state bodies mid"
  shows "kept E ly Y state (enqueueBodyReferences ly bodies mid)"
proof -
  have "footprint ly (enqueueBodyReferences ly bodies mid) \<le> usize_max" if E
    using effect_fits [OF room eff that] by (simp add: footprint_def enqueueBodyReferences_def visible_def tombs_def)
  then have "core_ok E ly {} (enqueueBodyReferences ly bodies mid)" using enqueue_ok eff by (simp add: effect_def)
  moreover have "still mid (enqueueBodyReferences ly bodies mid)" by (simp add: still_def enqueueBodyReferences_def)
  moreover have "kept E ly Y state mid" by (rule effect_ok [OF ok eff])
  ultimately show ?thesis using kept_trans quiet_kept by (meson kept_def)
qed

lemma finish_kept:
  assumes ok: "rec_ok E ly state" and room: "roomy E ly state" and eff: "effect E ly {} Y state bodies mid"
    and run: "finishWithCleanup ly disk v (enqueueBodyReferences ly bodies mid) = (r, state')"
  shows "kept E ly Y state state'"
proof -
  have "core_ok E ly {} state'" "still mid state'" using finish_ok [OF _ effect_fits [OF room eff] run] eff by (auto simp: effect_def)
  moreover have "kept E ly Y state mid" by (rule effect_ok [OF ok eff])
  ultimately show ?thesis using kept_trans quiet_kept by (meson kept_def)
qed

lemma replaced_kept:
  assumes ok: "rec_ok E ly state" and room: "roomy E ly state" and eff: "\<And>bodies mid. outcome = Ok (bodies, mid) \<Longrightarrow> effect E ly {} Y state bodies mid"
    and run: "replaced ly state outcome = (r, state')"
  shows "kept E ly Y state state'"
  using run eff enqueue_kept [OF ok room] kept_refl [OF ok] by (auto simp: replaced_def split: outcome.splits)

section \<open>Summaries\<close>

lemma clone_summary_fields [simp]:
  "tn_status (clone_summary s) = tn_status s" "tn_statusCode (clone_summary s) = tn_statusCode s" "tn_sequence (clone_summary s) = tn_sequence s"
  "tn_transactionId (clone_summary s) = clone_text (tn_transactionId s)" "tn_urlDisplay (clone_summary s) = clone_text (tn_urlDisplay s)"
  "tn_timings (clone_summary s) = tn_timings s" "tn_flags (clone_summary s) = tn_flags s" "clone_text (owned x) = owned x" "tx (clone_text t) = tx t"
  by (simp_all add: clone_summary_def clone_text_def)

lemma applyTransactionUpdate_fields [simp]:
  "tn_status (applyTransactionUpdate u s) = tn_status s" "tn_sequence (applyTransactionUpdate u s) = tn_sequence s"
  "tn_transactionId (applyTransactionUpdate u s) = tn_transactionId s"
  by (simp_all add: applyTransactionUpdate_def Let_def split: option.split)

lemma pendingRecord_ok: "pendingRecord i state = Ok r \<longleftrightarrow> hm_get (re_transactions state) i = Some r \<and> tn_status (rc_summary r) = Pending"
  by (auto simp: pendingRecord_def split: option.split)

lemma updateTransaction_kept:
  assumes ok: "rec_ok E ly state" and room: "roomy E ly state" and run: "updateTransaction ly i update state = (res, state')"
  shows "kept E ly Y state state'"
proof (cases "re_closed state")
  case True
  then show ?thesis using run kept_refl [OF ok] by (simp add: updateTransaction_def ensureOpen_def)
next
  case False
  have table: "table_ok state" using ok by (simp add: rec_ok_def core_ok_def)
  show ?thesis
  proof (rule replaced_kept [OF ok room])
    show "replaced ly state (and_then (pendingRecord i state) (\<lambda>record.
        let summary = applyTransactionUpdate update (clone_summary (rc_summary record))
        in replaceSummaryWithinMetadataBudget ly i summary (summaryStorageBytes ly summary) state)) = (res, state')"
      using run False by (simp add: updateTransaction_def ensureOpen_def)
  next
    fix bodies mid
    assume "and_then (pendingRecord i state) (\<lambda>record.
        let summary = applyTransactionUpdate update (clone_summary (rc_summary record))
        in replaceSummaryWithinMetadataBudget ly i summary (summaryStorageBytes ly summary) state) = Ok (bodies, mid)"
    then obtain r where r: "hm_get (re_transactions state) i = Some r" "tn_status (rc_summary r) = Pending"
      and go: "replaceSummaryWithinMetadataBudget ly i (applyTransactionUpdate update (clone_summary (rc_summary r)))
                 (summaryStorageBytes ly (applyTransactionUpdate update (clone_summary (rc_summary r)))) state = Ok (bodies, mid)"
      by (cases "pendingRecord i state") (auto simp: pendingRecord_ok Let_def)
    show "effect E ly {} Y state bodies mid"
      by (rule replaceSummary_effect [OF ok r(1) _ _ _ _ go, THEN conjunct1])
         (simp_all add: table_okD(4) [OF table r(1)] no_key r(2) keeps_def)
  qed
qed

lemma user_update_frozen: "frozen r (r\<lparr>rc_summary := applyUserUpdate u (clone_summary (rc_summary r)), rc_summaryStorageBytes := n\<rparr>)"
proof -
  have "clone_text (clone_text t) = clone_text t" for t by (simp add: clone_text_def)
  moreover have "clone_error (clone_error e) = clone_error e" for e by (simp add: clone_error_def clone_text_def)
  ultimately show ?thesis
    by (simp add: frozen_def essence_def clone_summary_def applyUserUpdate_def Let_def option.map_comp comp_def split: option.split)
qed

lemma applyUserUpdate_fields [simp]:
  "tn_status (applyUserUpdate u s) = tn_status s" "tn_sequence (applyUserUpdate u s) = tn_sequence s" "tn_statusCode (applyUserUpdate u s) = tn_statusCode s"
  "tn_transactionId (applyUserUpdate u s) = tn_transactionId s" "tn_urlDisplay (applyUserUpdate u s) = tn_urlDisplay s"
  by (simp_all add: applyUserUpdate_def Let_def split: option.split)

lemma updateUserFields_kept:
  assumes ok: "rec_ok E ly state" and room: "roomy E ly state" and run: "updateUserFields ly i update state = (res, state')"
  shows "kept E ly Y state state'"
proof (cases "re_closed state")
  case True
  then show ?thesis using run kept_refl [OF ok] by (simp add: updateUserFields_def ensureOpen_def)
next
  case False
  have table: "table_ok state" using ok by (simp add: rec_ok_def core_ok_def)
  show ?thesis
  proof (cases "hm_get (re_transactions state) i")
    case None
    then show ?thesis using run False kept_refl [OF ok] by (simp add: updateUserFields_def ensureOpen_def replaced_def)
  next
    case (Some r)
    let ?summary = "applyUserUpdate update (clone_summary (rc_summary r))"
    have "replaced ly state (replaceSummaryWithinMetadataBudget ly i ?summary (summaryStorageBytes ly ?summary) state) = (res, state')"
      using run False Some by (simp add: updateUserFields_def ensureOpen_def Let_def)
    moreover have same: "has_key (r\<lparr>rc_summary := ?summary, rc_summaryStorageBytes := n\<rparr>) key = has_key r key" for n key by (rule has_key_cong) simp_all
    moreover have "effect E ly {} Y state bodies mid" if "replaceSummaryWithinMetadataBudget ly i ?summary (summaryStorageBytes ly ?summary) state = Ok (bodies, mid)" for bodies mid
      using user_update_frozen
      by (intro replaceSummary_effect [OF ok Some _ _ _ _ that, THEN conjunct1])
         (simp_all add: table_okD(4) [OF table Some] keeps_def same)
    ultimately show ?thesis using replaced_kept [OF ok room] by blast
  qed
qed

lemma modify_kept:
  assumes ok: "rec_ok E ly state" and r: "hm_get (re_transactions state) i = Some r" and pending: "tn_status (rc_summary r) = Pending" "tn_status (rc_summary (change r)) = Pending"
    and seq: "tn_sequence (rc_summary (change r)) = tn_sequence (rc_summary r)" and id: "tn_transactionId (rc_summary (change r)) = tn_transactionId (rc_summary r)"
    and meta: "E \<Longrightarrow> metadataBytes + transactionMetadataBytes ly r = re_totalMetadataBytes state + transactionMetadataBytes ly (change r)"
    and body: "bodyBytes + transactionBodyBytes r = re_totalBodyBytes state + transactionBodyBytes (change r)"
    and limit: "bodyBytes \<le> li_maxTotalBodyBytes (re_limits state)" and budget: "E \<Longrightarrow> metadataBytes \<le> re_metadataMemoryBudgetBytes state \<or> metadataBytes \<le> re_totalMetadataBytes state"
  shows "kept E ly Y state (state\<lparr>re_transactions := hm_modify i change (re_transactions state), re_totalMetadataBytes := metadataBytes, re_totalBodyBytes := bodyBytes\<rparr>)"
    (is "kept E ly Y state ?s")
proof -
  have core: "core_ok E ly {} state" using ok by (simp add: rec_ok_def)
  have key: "tn_transactionId (rc_summary (change r)) = owned i" using core table_okD(4) [OF _ r] id by (simp add: core_ok_def)
  have "core_ok E ly {} ?s" by (rule modify_core [where change = change, OF core r seq key _ meta body]) (simp add: no_key pending)
  moreover have "evolves Y state ?s" by (rule modify_evolves [where change = change, OF r]) (simp_all add: keeps_def pending)
  moreover have "visible ly ?s \<le> re_metadataMemoryBudgetBytes state" if E
  proof -
    have "metadataBytes = visible ly ?s + tombs ly (re_cleanupQueue state)" using \<open>core_ok E ly {} ?s\<close> that by (simp add: core_ok_def meta_ok_def)
    moreover have "re_totalMetadataBytes state = visible ly state + tombs ly (re_cleanupQueue state)" using core that by (simp add: core_ok_def meta_ok_def)
    moreover have "visible ly state \<le> re_metadataMemoryBudgetBytes state" using ok that by (simp add: rec_ok_def)
    ultimately show ?thesis using budget [OF that] by linarith
  qed
  ultimately show ?thesis using ok limit by (simp add: kept_def rec_ok_def)
qed

lemma updateProgress_kept:
  assumes ok: "rec_ok E ly state" and run: "updateProgress i update state = (res, state')"
  shows "kept E ly Y state state'"
proof (cases "re_closed state")
  case True
  then show ?thesis using run kept_refl [OF ok] by (simp add: updateProgress_def ensureOpen_def)
next
  case False
  show ?thesis
  proof (cases "pendingRecord i state")
    case (Ok r)
    let ?change = "\<lambda>r. r\<lparr>rc_summary := applyProgressUpdate update (rc_summary r)\<rparr>"
    have r: "hm_get (re_transactions state) i = Some r" "tn_status (rc_summary r) = Pending" using Ok by (simp_all add: pendingRecord_ok)
    have st: "state' = notifyChanged (state\<lparr>re_transactions := hm_modify i ?change (re_transactions state)\<rparr>)"
      using run False Ok by (simp add: updateProgress_def ensureOpen_def)
    have fields: "tn_status (applyProgressUpdate update s) = tn_status s" "tn_sequence (applyProgressUpdate update s) = tn_sequence s"
      "tn_transactionId (applyProgressUpdate update s) = tn_transactionId s" for s by (simp_all add: applyProgressUpdate_def Let_def)
    have "transactionMetadataBytes ly (?change r) = transactionMetadataBytes ly r"
      using r(2) by (simp add: measure_plain plain_measure_def fields responseEntityIndexMetadataBytes_def)
    moreover have "transactionBodyBytes (?change r) = transactionBodyBytes r" by (simp add: transactionBodyBytes_def intoBodyReferences_def)
    ultimately have "kept E ly Y state (state\<lparr>re_transactions := hm_modify i ?change (re_transactions state),
        re_totalMetadataBytes := re_totalMetadataBytes state, re_totalBodyBytes := re_totalBodyBytes state\<rparr>)"
      using ok r(2) by (intro modify_kept [where change = ?change, OF ok r(1)]) (simp_all add: fields rec_ok_def)
    then show ?thesis by (simp add: st)
  qed (use run False kept_refl [OF ok] in \<open>simp_all add: updateProgress_def ensureOpen_def\<close>)
qed

section \<open>The end of a transaction\<close>

lemma limits_hold: "length (re_transactions state) \<le> li_maxTransactions (re_limits state) \<Longrightarrow> re_totalBodyBytes state \<le> li_maxTotalBodyBytes (re_limits state)
  \<Longrightarrow> enforceAllLimits ly state = ([], state)"
  by (cases "re_order state") (simp_all add: enforceAllLimits_def removeTransactions_def)

lemma finalize_effect:
  assumes ok: "rec_ok E ly state" and r: "hm_get (re_transactions state) i = Some r" "tn_status (rc_summary r) = Pending"
    and key: "tn_transactionId summary = owned i" and seq: "tn_sequence summary = tn_sequence (rc_summary r)"
    and run: "finalizeSummaryWithinLimits ly i summary n state = Ok (bodies, state')"
  shows "effect E ly {} {i} state bodies state'" "hm_get (re_transactions state') i = Some (r\<lparr>rc_summary := summary, rc_summaryStorageBytes := n\<rparr>)"
proof -
  obtain bs mid where rep: "replaceSummaryWithinMetadataBudget ly i summary n state = Ok (bs, mid)"
    using run by (cases "replaceSummaryWithinMetadataBudget ly i summary n state") (auto simp: finalizeSummaryWithinLimits_def)
  have keys: "(\<forall>key. has_key (r\<lparr>rc_summary := summary, rc_summaryStorageBytes := n\<rparr>) key = has_key r key) \<and> {i} = ({} :: str set) \<or> (\<forall>key. \<not> has_key r key) \<and> {i} = {i}"
    using no_key r(2) by simp
  have eff: "effect E ly {i} {i} state bs mid" and here: "hm_get (re_transactions mid) i = Some (r\<lparr>rc_summary := summary, rc_summaryStorageBytes := n\<rparr>)"
    using replaceSummary_effect [OF ok r(1) key seq keys _ rep, of "{i}"] by simp_all
  have "enforceAllLimits ly mid = ([], mid)"
    using eff evolvesD(1) [of "{i}" state mid] ok by (intro limits_hold) (simp_all add: effect_def rec_ok_def)
  then have st: "bodies = bs" "state' = insertResponseEntityEntry i mid" using run rep by (simp_all add: finalizeSummaryWithinLimits_def)
  have still: "still mid state'" by (simp add: st)
  have "evolves {i} state state'" using eff still_evolves [OF still] evolves_trans by (auto simp: effect_def)
  moreover have "core_ok E ly {} state'" using eff index_insert by (simp add: effect_def st)
  ultimately show "effect E ly {} {i} state bodies state'" using eff still by (simp add: effect_def st(1) still_def visible_def) (simp add: st)
  show "hm_get (re_transactions state') i = Some (r\<lparr>rc_summary := summary, rc_summaryStorageBytes := n\<rparr>)" using here still by (simp add: still_def)
qed

text \<open>A summary as the four ends write it.\<close>

definition ending :: "(TransactionSummary \<Rightarrow> TransactionSummary) \<Rightarrow> bool" where
  "ending final \<longleftrightarrow> (\<forall>s. tn_transactionId (final s) = tn_transactionId s \<and> tn_sequence (final s) = tn_sequence s \<and> tn_status (final s) \<noteq> Pending)"

lemma endings: "status \<noteq> Pending \<Longrightarrow> ending (completed status c)" "status \<noteq> Pending \<Longrightarrow> ending (failed status e t)"
  by (simp_all add: ending_def completed_def failed_def)

lemma endTransaction_kept:
  assumes ok: "rec_ok E ly state" and room: "roomy E ly state" and final: "ending final" and run: "endTransaction ly i final state = (res, state')"
  shows "kept E ly {i} state state' \<and> (hm_get (re_transactions state) i \<noteq> None \<longrightarrow> hm_get (re_transactions state') i \<noteq> None)
    \<and> (state' = state \<or> (\<exists>r. hm_get (re_transactions state) i = Some r \<and> tn_status (rc_summary r) = Pending))"
proof (cases "re_closed state")
  case True
  then show ?thesis using run kept_refl [OF ok] by (simp add: endTransaction_def ensureOpen_def)
next
  case False
  have table: "table_ok state" using ok by (simp add: rec_ok_def core_ok_def)
  define out where "out = and_then (pendingRecord i state) (\<lambda>record.
        let summary = final (clone_summary (rc_summary record))
        in finalizeSummaryWithinLimits ly i summary (summaryStorageBytes ly summary) state)"
  have rep: "replaced ly state out = (res, state')" using run False by (simp add: endTransaction_def ensureOpen_def out_def)
  show ?thesis
  proof (cases out)
    case (Ok p)
    obtain bodies mid where p: "out = Ok (bodies, mid)" using Ok by (cases p) simp
    then obtain r where r: "hm_get (re_transactions state) i = Some r" "tn_status (rc_summary r) = Pending"
      and go: "finalizeSummaryWithinLimits ly i (final (clone_summary (rc_summary r))) (summaryStorageBytes ly (final (clone_summary (rc_summary r)))) state = Ok (bodies, mid)"
      unfolding out_def by (cases "pendingRecord i state") (auto simp: pendingRecord_ok Let_def)
    have fields: "tn_transactionId (final (clone_summary (rc_summary r))) = owned i" "tn_sequence (final (clone_summary (rc_summary r))) = tn_sequence (rc_summary r)"
      using final table_okD(4) [OF table r(1)] by (simp_all add: ending_def)
    note fin = finalize_effect [OF ok r fields go]
    have "state' = notifyChanged (enqueueBodyReferences ly bodies mid)" using rep p by (simp add: replaced_def)
    then have "kept E ly {i} state state'" "hm_get (re_transactions state') i \<noteq> None"
      using enqueue_kept [OF ok room fin(1)] fin(2) by simp_all (simp add: notifyChanged_def enqueueBodyReferences_def)
    then show ?thesis using r by blast
  qed (use rep kept_refl [OF ok] in \<open>simp_all add: replaced_def\<close>)
qed

section \<open>Eviction\<close>

lemma removal_effect:
  assumes ok: "rec_ok E ly state" and ev: "evictable state current ids" and run: "removeTransactions ly ids state = (bodies, mid)"
  shows "effect E ly {} Y state bodies mid" "hm_get (re_transactions mid) i = (if i \<in> set ids then None else hm_get (re_transactions state) i)"
proof -
  have core: "core_ok E ly {} state" and wf: "hm_wf (re_transactions state)" using ok by (auto simp: rec_ok_def core_ok_def table_ok_def)
  have ids: "distinct ids" using ev by (simp add: evictable_def)
  note m = removeTransactions_spec [OF core run]
  note v = removal_visible [OF core run ids]
  have "evolves Y state mid" by (rule removal_evolves [OF core ev run])
  moreover have "tombs ly bodies \<le> deferred ly (re_transactions state)" using removal_deferred [OF wf run] by simp
  moreover have "re_cleanupQueue mid = re_cleanupQueue state" using m by (simp add: same_frame_def)
  ultimately show "effect E ly {} Y state bodies mid" using m v ok by (cases E) (simp_all add: effect_def rec_ok_def)
  show "hm_get (re_transactions mid) i = (if i \<in> set ids then None else hm_get (re_transactions state) i)"
    using m hm.get_fold_del [of ids "re_transactions state" i] by simp
qed

lemma evict_kept:
  assumes ok: "rec_ok E ly state" and room: "roomy E ly state" and ev: "evictable state current ids"
  shows "kept E ly Y state (evictAndEnqueue ly ids state)"
    "hm_get (re_transactions (evictAndEnqueue ly ids state)) i = (if i \<in> set ids then None else hm_get (re_transactions state) i)"
    "re_totalMetadataBytes (evictAndEnqueue ly ids state) \<le> usize_max"
proof -
  obtain bodies mid where run: "removeTransactions ly ids state = (bodies, mid)" by fastforce
  note eff = removal_effect [OF ok ev run]
  have st: "evictAndEnqueue ly ids state = (if ids = [] then enqueueBodyReferences ly bodies mid else notifyChanged (enqueueBodyReferences ly bodies mid))"
    by (simp add: evictAndEnqueue_def run)
  show "kept E ly Y state (evictAndEnqueue ly ids state)" using enqueue_kept [OF ok room eff(1)] by (simp add: st)
  show "hm_get (re_transactions (evictAndEnqueue ly ids state)) i = (if i \<in> set ids then None else hm_get (re_transactions state) i)"
    using eff(2) by (simp add: st enqueueBodyReferences_def notifyChanged_def)
  show "re_totalMetadataBytes (evictAndEnqueue ly ids state) \<le> usize_max" by (simp add: st enqueueBodyReferences_def notifyChanged_def usize_add_def)
qed

lemma settle_kept:
  assumes ok: "rec_ok E ly state" and run: "finishWithCleanup ly disk v state = (r, state')"
  shows "kept E ly Y state state'"
proof -
  obtain d where d: "drainCleanupQueueLocked ly disk (notifyChanged state) = (d, state')" using run by (auto simp: finishWithCleanup_def split: prod.splits)
  have mid: "kept E ly Y state (notifyChanged state)" using kept_refl [OF ok] by simp
  then have "kept E ly Y (notifyChanged state) state'" using drain_kept(1) [OF _ d, of E] by (simp add: kept_def)
  with mid show ?thesis by (rule kept_trans)
qed

section \<open>Writing to a pending transaction\<close>

lemma withPending_kept:
  assumes ok: "rec_ok E ly state" and room: "roomy E ly state"
    and body: "\<And>s r. rec_ok E ly s \<Longrightarrow> roomy E ly s \<Longrightarrow> hm_get (re_transactions s) i = Some r \<Longrightarrow> tn_status (rc_summary r) = Pending \<Longrightarrow> kept E ly Y s (snd (body r s))"
    and run: "withPending ly disk i body state = (res, state')"
  shows "kept E ly Y state state'"
proof (cases "re_closed state")
  case True
  then show ?thesis using run kept_refl [OF ok] by (simp add: withPending_def ensureOpen_def)
next
  case False
  obtain d mid where d: "drainCleanupQueueLocked ly disk state = (d, mid)" by fastforce
  have mid: "kept E ly Y state mid" "roomy E ly mid" using drain_kept [OF ok d] quiet_roomy [OF room] by auto
  have "kept E ly Y mid (snd (body r mid))" if "pendingRecord i mid = Ok r" for r
    using body mid that by (auto simp: pendingRecord_ok kept_def)
  then have "kept E ly Y mid state'"
    using run False d kept_refl [of E ly mid Y] mid(1) unfolding withPending_def ensureOpen_def
    by (cases d; cases "pendingRecord i mid") (auto simp: kept_def)
  then show ?thesis using kept_trans mid(1) by blast
qed

lemma popHeaders_fits: "popHeaders ly limit headers t = (hs, t') \<Longrightarrow> headerStorageBytes ly (vec_of hs) \<le> limit"
proof (induction ly limit headers t arbitrary: hs t' rule: popHeaders.induct)
  case (1 ly limit headers t)
  show ?case
  proof (cases "headers \<noteq> [] \<and> limit < headerStorageBytes ly (vec_of headers)")
    case True
    then show ?thesis using 1 by (simp add: popHeaders.simps [of ly limit headers])
  next
    case False
    moreover have "headerStorageBytes ly (vec_of []) = 0" by (simp add: headerStorageBytes_def vec_of_def usize_mul_def)
    ultimately show ?thesis using 1(2) by (auto simp: popHeaders.simps [of ly limit headers])
  qed
qed

lemma boundHeaders_fits: "bh_storedBytes (boundHeaders ly headers available) \<le> available"
  "headerStorageBytes ly (bh_headers (boundHeaders ly headers available)) = bh_storedBytes (boundHeaders ly headers available)"
proof -
  obtain hs t where "boundHeaderLoop ly (min available maximumStoredHeaderSideBytes) headers 0 False [] = (hs, t)" by fastforce
  moreover obtain ps t' where p: "popHeaders ly (min available maximumStoredHeaderSideBytes) hs (t \<or> length hs < length headers) = (ps, t')" by fastforce
  ultimately show "bh_storedBytes (boundHeaders ly headers available) \<le> available"
    "headerStorageBytes ly (bh_headers (boundHeaders ly headers available)) = bh_storedBytes (boundHeaders ly headers available)"
    using popHeaders_fits [OF p] by (simp_all add: boundHeaders_def)
qed

lemma refresh_fields [simp]:
  "tn_status (rc_summary (refreshTruncatedFlag r)) = tn_status (rc_summary r)" "tn_sequence (rc_summary (refreshTruncatedFlag r)) = tn_sequence (rc_summary r)"
  "tn_transactionId (rc_summary (refreshTruncatedFlag r)) = tn_transactionId (rc_summary r)" "intoBodyReferences (refreshTruncatedFlag r) = intoBodyReferences r"
  "rc_requestHeaders (refreshTruncatedFlag r) = rc_requestHeaders r" "rc_responseHeaders (refreshTruncatedFlag r) = rc_responseHeaders r"
  "rc_requestPackets (refreshTruncatedFlag r) = rc_requestPackets r" "rc_responsePackets (refreshTruncatedFlag r) = rc_responsePackets r"
  "rc_summaryStorageBytes (refreshTruncatedFlag r) = rc_summaryStorageBytes r" "rc_requestBody (refreshTruncatedFlag r) = rc_requestBody r"
  "rc_responseBody (refreshTruncatedFlag r) = rc_responseBody r"
  by (simp_all add: refreshTruncatedFlag_def Let_def intoBodyReferences_def)

lemma pending_measure: "tn_status (rc_summary r) = Pending \<Longrightarrow> plain_measure ly r = ly_TransactionRecord ly - ly_TransactionSummary ly + rc_summaryStorageBytes r
     + usize_mul (usize_add (ly_String ly) (cap (tn_transactionId (rc_summary r)))) 2 + usize_mul (ly_usize ly) 2
     + headerStorageBytes ly (rc_requestHeaders r) + headerStorageBytes ly (rc_responseHeaders r)
     + streamPacketStorageBytes ly (rc_requestPackets r) + streamPacketStorageBytes ly (rc_responsePackets r)"
  by (simp add: plain_measure_def responseEntityIndexMetadataBytes_def)

lemma set_headers_measure:
  assumes "tn_status (rc_summary r) = Pending"
  shows "plain_measure ly (refreshTruncatedFlag (set_headers side b r)) + headerStorageBytes ly (side_headers side r) = plain_measure ly r + headerStorageBytes ly (bh_headers b)"
    "tn_status (rc_summary (set_headers side b r)) = Pending"
proof -
  show p: "tn_status (rc_summary (set_headers side b r)) = Pending" using assms by (cases side) (simp_all add: set_headers_def)
  then have "tn_status (rc_summary (refreshTruncatedFlag (set_headers side b r))) = Pending" by simp
  then show "plain_measure ly (refreshTruncatedFlag (set_headers side b r)) + headerStorageBytes ly (side_headers side r) = plain_measure ly r + headerStorageBytes ly (bh_headers b)"
    using assms by (cases side) (simp_all add: pending_measure set_headers_def side_headers_def)
qed

lemma header_sums:
  assumes "old \<le> m" "m \<le> budget" "m \<le> bytes" "budget < usize_max" "bytes \<le> usize_max" "m' + old = m + stored" "stored \<le> budget - (bytes - old)"
  shows "usize_add (bytes - old) stored + m = bytes + m'" "m' < usize_max" "usize_add (bytes - old) stored \<le> budget \<or> usize_add (bytes - old) stored \<le> bytes"
proof -
  have "usize_add (bytes - old) stored = bytes - old + stored" using assms unfolding usize_add_def by linarith
  then show "usize_add (bytes - old) stored + m = bytes + m'" "m' < usize_max" "usize_add (bytes - old) stored \<le> budget \<or> usize_add (bytes - old) stored \<le> bytes"
    using assms by linarith+
qed

lemma storeHeaders_kept:
  assumes ok: "rec_ok E ly state" and room: "roomy E ly state" and run: "storeHeaders ly disk disk2 i side headers state = (res, state')"
  shows "kept E ly Y state state'"
proof (rule withPending_kept [OF ok room _ run [unfolded storeHeaders_def]], unfold Let_def, goal_cases)
  case (1 s r)
  define old where "old = headerStorageBytes ly (side_headers side r)"
  define first where "first = boundHeaders ly headers usize_max"
  define ids where "ids = planMetadataBudgetEvictions ly i (bh_storedBytes first - old) s"
  define t where "t = evictAndEnqueue ly ids s"
  define available where "available = re_metadataMemoryBudgetBytes t - (re_totalMetadataBytes t - old)"
  define bounded where "bounded = (if available < bh_storedBytes first then (boundHeaders ly (items (bh_headers first)) available)\<lparr>bh_truncated := True\<rparr> else first)"
  define change where "change = (\<lambda>r. refreshTruncatedFlag (set_headers side bounded r))"
  have ev: "evictable s (Some i) ids" unfolding ids_def using 1(1) by (intro plans_evictable [of E ly "{}"]) (simp add: rec_ok_def)
  have t: "kept E ly Y s t" and get: "hm_get (re_transactions t) i = Some r"
    and bytes: "re_totalMetadataBytes t \<le> usize_max"
    using evict_kept(1) [OF 1(1,2) ev, of Y] evict_kept(2) [OF 1(1,2) ev, of i] evict_kept(3) [OF 1(1,2) ev] 1(3) ev by (auto simp: t_def evictable_def)
  have t_ok: "rec_ok E ly t" using t by (simp add: kept_def)
  have stored: "bh_storedBytes bounded \<le> available" "headerStorageBytes ly (bh_headers bounded) = bh_storedBytes bounded"
    unfolding bounded_def first_def using boundHeaders_fits by auto
  have measure: "plain_measure ly (change r) + old = plain_measure ly r + bh_storedBytes bounded" "tn_status (rc_summary (change r)) = Pending"
    using set_headers_measure(1) [OF 1(4), of ly side bounded] set_headers_measure(2) [OF 1(4), of side bounded] unfolding change_def old_def stored(2) [symmetric] by simp_all
  have old: "old \<le> plain_measure ly r" unfolding old_def pending_measure [OF 1(4)] by (cases side) (simp_all add: side_headers_def)
  note r = record_measure [OF t_ok _ get]
  have in_total: "plain_measure ly r \<le> re_totalMetadataBytes t" if E
    using hm_sum_member [OF get, of "transactionMetadataBytes ly"] t_ok r(1) [OF that] that by (simp add: rec_ok_def core_ok_def meta_ok_def visible_def)
  have budget: "re_metadataMemoryBudgetBytes t < usize_max" using t_ok by (simp add: rec_ok_def)
  note sums = header_sums [OF old r(2) in_total budget bytes measure(1) stored(1) [unfolded available_def]]
  have new: "transactionMetadataBytes ly (change r) = plain_measure ly (change r)" if E using sums(2) that by (simp add: measure_plain)
  have fields: "tn_sequence (rc_summary (change r)) = tn_sequence (rc_summary r)" "tn_transactionId (rc_summary (change r)) = tn_transactionId (rc_summary r)"
    "transactionBodyBytes (change r) = transactionBodyBytes r"
    unfolding change_def by (cases side; simp add: set_headers_def transactionBodyBytes_def) (cases side; simp add: set_headers_def transactionBodyBytes_def intoBodyReferences_def)+
  define u where "u = t\<lparr>re_transactions := hm_modify i change (re_transactions t),
     re_totalMetadataBytes := usize_add (re_totalMetadataBytes t - old) (bh_storedBytes bounded)\<rparr>"
  have "kept E ly Y t (t\<lparr>re_transactions := hm_modify i change (re_transactions t),
     re_totalMetadataBytes := usize_add (re_totalMetadataBytes t - old) (bh_storedBytes bounded), re_totalBodyBytes := re_totalBodyBytes t\<rparr>)"
    using t_ok sums(1) sums(3) by (intro modify_kept [where change = change, OF t_ok get 1(4) measure(2) fields(1,2)]) (simp_all add: r(1) new fields(3) rec_ok_def)
  then have u: "kept E ly Y t u" by (simp add: u_def)
  obtain out v where v: "finishWithCleanup ly disk2 () u = (out, v)" by fastforce
  have "kept E ly Y t v" using u settle_kept [OF _ v] kept_trans by (meson kept_def)
  then have "kept E ly Y s v" using t kept_trans by blast
  then show ?case
    unfolding old_def [symmetric] first_def [symmetric] ids_def [symmetric] t_def [symmetric] available_def [symmetric] bounded_def [symmetric] change_def [symmetric] u_def [symmetric]
    by (simp add: get v)
qed

section \<open>Bodies\<close>

lemma queue_kept:
  assumes "kept E ly Y state mid" and fits: "E \<Longrightarrow> visible ly mid + tombs ly (re_cleanupQueue mid) + tombs ly bodies \<le> usize_max"
    and run: "finishWithCleanup ly disk v (enqueueBodyReferences ly bodies mid) = (r, state')"
  shows "kept E ly Y state state'"
proof -
  have "core_ok E ly {} mid" using assms(1) by (simp add: kept_def rec_ok_def)
  from finish_ok [OF this fits run] have "core_ok E ly {} state'" "still mid state'" by auto
  moreover have "rec_ok E ly mid" using assms(1) by (simp add: kept_def)
  ultimately have "kept E ly Y mid state'" using quiet_kept by blast
  with assms(1) show ?thesis by (rule kept_trans)
qed

lemma set_body_size_fields [simp]:
  "tn_status (rc_summary (set_body_size side n r)) = tn_status (rc_summary r)" "tn_sequence (rc_summary (set_body_size side n r)) = tn_sequence (rc_summary r)"
  "tn_transactionId (rc_summary (set_body_size side n r)) = tn_transactionId (rc_summary r)" "intoBodyReferences (set_body_size side n r) = intoBodyReferences r"
  "rc_requestHeaders (set_body_size side n r) = rc_requestHeaders r" "rc_responseHeaders (set_body_size side n r) = rc_responseHeaders r"
  "rc_requestPackets (set_body_size side n r) = rc_requestPackets r" "rc_responsePackets (set_body_size side n r) = rc_responsePackets r"
  "rc_summaryStorageBytes (set_body_size side n r) = rc_summaryStorageBytes r"
  "rc_requestBody (set_body_size side n r) = rc_requestBody r" "rc_responseBody (set_body_size side n r) = rc_responseBody r"
  by (simp_all add: set_body_size_def Let_def intoBodyReferences_def)

lemma bodyBytes_sides: "transactionBodyBytes r = stored_bytes (rc_requestBody r) + stored_bytes (rc_responseBody r)"
  by (cases "rc_requestBody r"; cases "rc_responseBody r") (simp_all add: transactionBodyBytes_def intoBodyReferences_def stored_bytes_def map_filter_simps)

lemma replaceBody_measure:
  defines "change side n b \<equiv> \<lambda>r. refreshTruncatedFlag (set_body_size side n (replaceBody side b r))"
  assumes "tn_status (rc_summary r) = Pending"
  shows "tn_status (rc_summary (change side n b r)) = Pending" "tn_sequence (rc_summary (change side n b r)) = tn_sequence (rc_summary r)"
    "tn_transactionId (rc_summary (change side n b r)) = tn_transactionId (rc_summary r)"
    "transactionMetadataBytes ly (change side n b r) = transactionMetadataBytes ly r"
    "transactionBodyBytes (change side n b r) + stored_bytes (detail_body side r) = transactionBodyBytes r + bm_storedBytes (bo_meta b)"
proof -
  show p: "tn_status (rc_summary (change side n b r)) = Pending" "tn_sequence (rc_summary (change side n b r)) = tn_sequence (rc_summary r)"
    and id: "tn_transactionId (rc_summary (change side n b r)) = tn_transactionId (rc_summary r)"
    using assms by (cases side; simp add: change_def replaceBody_def)+
  have "plain_measure ly (change side n b r) = plain_measure ly r"
    unfolding pending_measure [OF p(1)] pending_measure [OF assms(2)] id by (cases side) (simp_all add: change_def replaceBody_def)
  then show "transactionMetadataBytes ly (change side n b r) = transactionMetadataBytes ly r" by (simp add: measure_plain)
  show "transactionBodyBytes (change side n b r) + stored_bytes (detail_body side r) = transactionBodyBytes r + bm_storedBytes (bo_meta b)"
    by (cases side) (simp_all add: change_def bodyBytes_sides replaceBody_def detail_body_def stored_bytes_def)
qed

lemma clone_stored [simp]: "stored_bytes (map_option clone_body b) = stored_bytes b"
  by (cases b) (simp_all add: stored_bytes_def clone_body_def clone_meta_def)

lemma clone_references: "intoBodyReferences (clone_record r) = map clone_body (intoBodyReferences r)"
  by (cases "rc_requestBody r"; cases "rc_responseBody r") (simp_all add: intoBodyReferences_def clone_record_def map_filter_simps)

lemma clone_tombs: "tombs ly (case map_option clone_body (detail_body side r) of None \<Rightarrow> [] | Some b \<Rightarrow> [b]) \<le> cleanupBodyReferencesMetadataBytes ly (clone_record r)"
  by (cases "rc_requestBody r"; cases "rc_responseBody r"; cases side)
     (simp_all add: tombs_def cleanupBodyReferencesMetadataBytes_def intoBodyReferences_def clone_record_def detail_body_def map_filter_simps)

lemma dropFile_shape: "\<exists>os fs. dropFile disk path s = s\<lparr>re_orphanedSpills := os, re_files := fs\<rparr>"
proof -
  have "dropFile disk path s = s\<lparr>re_orphanedSpills := re_orphanedSpills (dropFile disk path s), re_files := re_files (dropFile disk path s)\<rparr>"
    by (simp add: dropFile_def split: option.split)
  then show ?thesis by blast
qed

lemma staged_shape:
  assumes run: "storeStaged disk pendingPath path bs meta state = (res, state')"
  shows "(\<exists>os fs. state' = state\<lparr>re_orphanedSpills := os, re_files := fs\<rparr>) \<and> (\<forall>b. res = Ok b \<longrightarrow> bo_meta b = meta)"
proof -
  have "state' = state\<lparr>re_orphanedSpills := re_orphanedSpills state', re_files := re_files state'\<rparr>"
    using run by (auto simp: storeStaged_def dropFile_def split: option.splits if_splits)
  moreover have "\<forall>b. res = Ok b \<longrightarrow> bo_meta b = meta" using run by (auto simp: storeStaged_def split: option.splits if_splits)
  ultimately show ?thesis by blast
qed

lemma files_kept [simp]: "rec_ok E ly (s\<lparr>re_files := fs\<rparr>) = rec_ok E ly s" "roomy E ly (s\<lparr>re_files := fs\<rparr>) = roomy E ly s"
  "evictable (s\<lparr>re_files := fs\<rparr>) c ids = evictable s c ids" "evictable (s\<lparr>re_orphanedSpills := os\<rparr>) c ids = evictable s c ids" "kept E ly Y (s\<lparr>re_files := fs\<rparr>) t = kept E ly Y s t"
  by (simp_all add: rec_ok_def roomy_def evictable_def kept_def evolves_def visible_def)

lemma places_kept [simp]: "rec_ok E ly (s\<lparr>re_orphanedSpills := os\<rparr>) = rec_ok E ly s" "roomy E ly (s\<lparr>re_orphanedSpills := os\<rparr>) = roomy E ly s"
  "kept E ly Y (s\<lparr>re_orphanedSpills := os\<rparr>) t = kept E ly Y s t" "kept E ly Y s (t\<lparr>re_files := fs\<rparr>) = kept E ly Y s t"
  "kept E ly Y s (t\<lparr>re_orphanedSpills := os\<rparr>) = kept E ly Y s t"
  by (simp_all add: rec_ok_def roomy_def evictable_def kept_def evolves_def visible_def)

lemma bindBody_kept:
  assumes ok: "rec_ok E ly s" and room: "roomy E ly s" and r: "hm_get (re_transactions s) i = Some r" "tn_status (rc_summary r) = Pending"
    and ev: "evictable s (Some i) ids" and staged: "bm_storedBytes (bo_meta staged) = bm_storedBytes meta"
    and fits: "re_totalBodyBytes s - stored_bytes (detail_body side r) - sum_list (map transactionBodyBytes (evictedRecords ids s)) + bm_storedBytes meta
      \<le> li_maxTotalBodyBytes (re_limits s)"
    and run: "bindBody ly disk i side n meta staged (map_option clone_body (detail_body side r)) ids s = (res, s')"
  shows "kept E ly Y s s'"
proof -
  define old where "old = stored_bytes (detail_body side r)"
  let ?change = "\<lambda>r. refreshTruncatedFlag (set_body_size side n (replaceBody side staged r))"
  let ?clones = "case map_option clone_body (detail_body side r) of None \<Rightarrow> [] | Some b \<Rightarrow> [b]"
  obtain bodies mid where rem: "removeTransactions ly ids s = (bodies, mid)" by fastforce
  note eff = removal_effect [OF ok ev rem]
  have get: "hm_get (re_transactions mid) i = Some r" using eff(2) [of i] r(1) ev by (auto simp: evictable_def)
  have mid: "kept E ly Y s mid" by (rule effect_ok [OF ok eff(1)])
  have mid_ok: "rec_ok E ly mid" and limits: "re_limits mid = re_limits s" using mid evolvesD(1) by (auto simp: kept_def)
  have "re_totalBodyBytes mid + sum_list (map transactionBodyBytes (evictedRecords ids s)) = re_totalBodyBytes s"
    using removal_visible(3) [OF _ rem] ok ev by (auto simp: rec_ok_def evictable_def)
  then have base: "re_totalBodyBytes mid - old + bm_storedBytes meta \<le> li_maxTotalBodyBytes (re_limits mid)" using fits by (simp add: old_def limits)
  moreover have "li_maxTotalBodyBytes (re_limits mid) < usize_max" using mid_ok by (simp add: rec_ok_def)
  ultimately have plain: "usize_add (re_totalBodyBytes mid - old) (bm_storedBytes meta) = re_totalBodyBytes mid - old + bm_storedBytes meta" by (simp add: usize_add_def)
  have "transactionBodyBytes r \<le> re_totalBodyBytes mid"
    using hm_sum_member [OF get, of transactionBodyBytes] mid_ok by (simp add: rec_ok_def core_ok_def bodies_ok_def)
  moreover have "old \<le> transactionBodyBytes r" unfolding old_def bodyBytes_sides by (cases side) (simp_all add: detail_body_def)
  ultimately have "old \<le> re_totalBodyBytes mid" by simp
  note rb = replaceBody_measure(1-3,5) [OF r(2), of side n staged]
  define u where "u = mid\<lparr>re_transactions := hm_modify i ?change (re_transactions mid), re_totalMetadataBytes := re_totalMetadataBytes mid,
      re_totalBodyBytes := usize_add (re_totalBodyBytes mid - old) (bm_storedBytes meta)\<rparr>"
  have "kept E ly Y mid u" unfolding u_def
    using rb(4) [folded old_def] \<open>old \<le> re_totalBodyBytes mid\<close> base staged
    by (intro modify_kept [where change = ?change, OF mid_ok get r(2) rb(1-3)]) (simp_all add: plain replaceBody_measure(4) [OF r(2)])
  then have u: "kept E ly Y s u" using mid kept_trans by blast
  have go: "finishWithCleanup ly disk meta (enqueueBodyReferences ly (bodies @ ?clones) u) = (res, s')"
  proof -
    have "mid\<lparr>re_totalBodyBytes := usize_add (re_totalBodyBytes mid - stored_bytes (detail_body side r)) (bm_storedBytes meta),
        re_transactions := hm_modify i ?change (re_transactions mid)\<rparr> = u"
      by (rule RecordingStateInner.equality) (simp_all add: u_def old_def)
    then show ?thesis using run get unfolding bindBody_def rem by simp
  qed
  have "tombs ly ?clones \<le> hm_sum (\<lambda>r. cleanupBodyReferencesMetadataBytes ly (clone_record r)) (re_transactions s)"
    using clone_tombs hm_sum_member [OF r(1), of "\<lambda>r. cleanupBodyReferencesMetadataBytes ly (clone_record r)"] by (rule order_trans)
  moreover have "tombs ly bodies \<le> deferred ly (re_transactions s)" "re_cleanupQueue u = re_cleanupQueue s" using eff(1) by (simp_all add: effect_def u_def)
  moreover have "E \<longrightarrow> visible ly u \<le> re_metadataMemoryBudgetBytes s" using u evolvesD(2) [of Y s u] by (simp add: kept_def rec_ok_def)
  moreover have "tombs ly (bodies @ ?clones) = tombs ly bodies + tombs ly ?clones" by (simp add: tombs_def)
  ultimately have "visible ly u + tombs ly (re_cleanupQueue u) + tombs ly (bodies @ ?clones) \<le> usize_max" if E using that room by (simp add: roomy_def)
  from queue_kept [OF u this go] show ?thesis .
qed

lemma bodyPlan_fits:
  assumes ok: "rec_ok E ly s" and plan: "bodyPlan i side body r s = (ids, stored)"
  shows "evictable s (Some i) ids"
    "re_totalBodyBytes s - stored_bytes (detail_body side r) - sum_list (map transactionBodyBytes (evictedRecords ids s)) + stored \<le> li_maxTotalBodyBytes (re_limits s)"
proof -
  show "evictable s (Some i) ids" using plan ok plans_evictable(2) [of E ly "{}" s i] by (auto simp: bodyPlan_def Let_def rec_ok_def)
  have "stored \<le> li_maxTotalBodyBytes (re_limits s) - (re_totalBodyBytes s - stored_bytes (detail_body side r) - sum_list (map transactionBodyBytes (evictedRecords ids s)))"
    using plan by (auto simp: bodyPlan_def Let_def)
  then show "re_totalBodyBytes s - stored_bytes (detail_body side r) - sum_list (map transactionBodyBytes (evictedRecords ids s)) + stored \<le> li_maxTotalBodyBytes (re_limits s)"
    using ok unfolding rec_ok_def by linarith
qed

lemma storeBody_kept:
  assumes ok: "rec_ok E ly state" and room: "roomy E ly state" and run: "storeBody ly disk disk2 pendingPath path i side body state = (res, state')"
  shows "kept E ly Y state state'"
proof (cases "bw_originalBytes body < length (bw_bytes body)")
  case True
  then show ?thesis using run kept_refl [OF ok] by (simp add: storeBody_def)
next
  case False
  then have run': "withPending ly disk i (placeBody ly disk disk2 pendingPath path i side body) state = (res, state')" using run by (simp add: storeBody_def)
  show ?thesis
  proof (rule withPending_kept [OF ok room _ run'], goal_cases)
    case (1 s r)
    obtain ids stored where plan: "bodyPlan i side body r s = (ids, stored)" by fastforce
    define meta where "meta = \<lparr>bm_transactionId = owned i, bm_side = side, bm_contentType = bw_contentType body, bm_encoding = bw_encoding body,
                  bm_storedBytes = stored, bm_originalBytes = bw_originalBytes body, bm_truncated = (stored < bw_originalBytes body)\<rparr>"
    obtain out t where st: "storeStaged disk pendingPath path (take stored (bw_bytes body)) (clone_meta meta) s = (out, t)" by fastforce
    obtain os fs where t: "t = s\<lparr>re_orphanedSpills := os, re_files := fs\<rparr>" using staged_shape [OF st] by blast
    have place: "placeBody ly disk disk2 pendingPath path i side body r s = (case out of Err e \<Rightarrow> (Err e, t) | Panic \<Rightarrow> (Panic, t)
        | Ok staged \<Rightarrow> bindBody ly disk2 i side (bw_originalBytes body) meta staged (map_option clone_body (detail_body side r)) ids t)"
      using st by (simp add: placeBody_def plan meta_def [symmetric] split: outcome.split)
    have t_ok: "rec_ok E ly t" "roomy E ly t" using 1 by (simp_all add: t)
    have "kept E ly Y t (snd (bindBody ly disk2 i side (bw_originalBytes body) meta staged (map_option clone_body (detail_body side r)) ids t))" if "out = Ok staged" for staged
    proof -
      have same: "evictedRecords ids t = evictedRecords ids s" by (simp add: t evictedRecords_def)
      have "bm_storedBytes (bo_meta staged) = bm_storedBytes meta" using staged_shape [OF st] that by (simp add: clone_meta_def)
      moreover have "evictable t (Some i) ids" using bodyPlan_fits(1) [OF 1(1) plan] by (simp add: t)
      moreover have "re_totalBodyBytes t - stored_bytes (detail_body side r) - sum_list (map transactionBodyBytes (evictedRecords ids t)) + bm_storedBytes meta
          \<le> li_maxTotalBodyBytes (re_limits t)"
        using bodyPlan_fits(2) [OF 1(1) plan] unfolding same by (simp add: t meta_def)
      moreover have "hm_get (re_transactions t) i = Some r" using 1(3) by (simp add: t)
      ultimately show ?thesis
        using bindBody_kept [OF t_ok _ 1(4)] by (metis prod.collapse)
    qed
    then have "kept E ly Y t (snd (placeBody ly disk disk2 pendingPath path i side body r s))" using kept_refl [OF t_ok(1)] unfolding place by (cases out) auto
    then show ?case by (simp add: t)
  qed
qed

section \<open>Spools\<close>

lemma dropFile_kept [simp]: "kept E ly Y s (dropFile disk path t) = kept E ly Y s t" "kept E ly Y s (dropStaged disk spool t) = kept E ly Y s t"
  by (simp_all add: dropStaged_def dropFile_def split: option.split)

lemma stageSpool_shape: "stageSpool disk spool s = (e, t) \<Longrightarrow> \<exists>os fs. t = s\<lparr>re_orphanedSpills := os, re_files := fs\<rparr>"
proof -
  assume "stageSpool disk spool s = (e, t)"
  then have "t = s\<lparr>re_orphanedSpills := re_orphanedSpills t, re_files := re_files t\<rparr>" by (auto simp: stageSpool_def dropFile_def split: option.splits)
  then show ?thesis by blast
qed

lemma bindSpools_kept:
  assumes ok: "rec_ok E ly s" and room: "roomy E ly s" and r: "hm_get (re_transactions s) i = Some r" "tn_status (rc_summary r) = Pending"
    and fit: "spoolsFit (bm_storedBytes (bo_meta q)) (bm_storedBytes (bo_meta p)) r s"
    and run: "bindSpools ly disk i q p r s = (res, s')"
  shows "kept E ly Y s s'"
proof -
  define requestBytes where "requestBytes = bm_storedBytes (bo_meta q)"
  define responseBytes where "responseBytes = bm_storedBytes (bo_meta p)"
  define change where "change = (\<lambda>r. refreshTruncatedFlag (set_body_size Response responseBytes (set_body_size Request requestBytes (r\<lparr>rc_requestBody := Some q, rc_responseBody := Some p\<rparr>))))"
  have limit: "re_totalBodyBytes s \<le> li_maxTotalBodyBytes (re_limits s)" "li_maxTotalBodyBytes (re_limits s) < usize_max" using ok by (auto simp: rec_ok_def)
  have mine: "transactionBodyBytes r \<le> re_totalBodyBytes s"
    using hm_sum_member [OF r(1), of transactionBodyBytes] ok by (simp add: rec_ok_def core_ok_def bodies_ok_def)
  have old: "usize_add (stored_bytes (rc_requestBody r)) (stored_bytes (rc_responseBody r)) = transactionBodyBytes r"
    using mine limit unfolding bodyBytes_sides usize_add_def by linarith
  have "usize_add requestBytes responseBytes \<le> li_maxTotalBodyBytes (re_limits s) - (re_totalBodyBytes s - transactionBodyBytes r)"
    using fit by (simp add: spoolsFit_def requestBytes_def responseBytes_def old)
  then have both: "usize_add requestBytes responseBytes = requestBytes + responseBytes"
    "requestBytes + responseBytes \<le> li_maxTotalBodyBytes (re_limits s) - (re_totalBodyBytes s - transactionBodyBytes r)"
    using limit unfolding usize_add_def by linarith+
  have sum: "usize_add (re_totalBodyBytes s - transactionBodyBytes r) (usize_add requestBytes responseBytes) = re_totalBodyBytes s - transactionBodyBytes r + requestBytes + responseBytes"
    unfolding both(1) using both(2) limit unfolding usize_add_def by linarith
  have fields: "tn_status (rc_summary (change r)) = Pending" "tn_sequence (rc_summary (change r)) = tn_sequence (rc_summary r)"
    "tn_transactionId (rc_summary (change r)) = tn_transactionId (rc_summary r)" "transactionBodyBytes (change r) = requestBytes + responseBytes"
    using r(2) by (simp_all add: change_def bodyBytes_sides stored_bytes_def requestBytes_def responseBytes_def)
  have "plain_measure ly (change r) = plain_measure ly r"
    unfolding pending_measure [OF fields(1)] pending_measure [OF r(2)] fields(3) by (simp add: change_def)
  then have meta: "transactionMetadataBytes ly (change r) = transactionMetadataBytes ly r" by (simp add: measure_plain)
  define u where "u = s\<lparr>re_transactions := hm_modify i change (re_transactions s), re_totalMetadataBytes := re_totalMetadataBytes s,
      re_totalBodyBytes := usize_add (re_totalBodyBytes s - transactionBodyBytes r) (usize_add requestBytes responseBytes)\<rparr>"
  have u: "kept E ly Y s u" unfolding u_def
    using both(2) limit mine by (intro modify_kept [where change = change, OF ok r fields(1-3)]) (simp_all only: sum meta fields(4), linarith+)
  have go: "finishWithCleanup ly disk (bo_meta q, bo_meta p) (enqueueBodyReferences ly (map clone_body (intoBodyReferences r)) u) = (res, s')"
  proof -
    have "s\<lparr>re_transactions := hm_modify i change (re_transactions s),
       re_totalBodyBytes := usize_add (re_totalBodyBytes s - transactionBodyBytes r) (usize_add requestBytes responseBytes)\<rparr> = u"
      by (simp add: u_def)
    then show ?thesis using run unfolding bindSpools_def Let_def old change_def requestBytes_def responseBytes_def by simp
  qed
  have "tombs ly (map clone_body (intoBodyReferences r)) \<le> hm_sum (\<lambda>r. cleanupBodyReferencesMetadataBytes ly (clone_record r)) (re_transactions s)"
    using hm_sum_member [OF r(1), of "\<lambda>r. cleanupBodyReferencesMetadataBytes ly (clone_record r)"]
    by (simp add: cleanupBodyReferencesMetadataBytes_def clone_references tombs_def)
  moreover have "E \<longrightarrow> visible ly u \<le> re_metadataMemoryBudgetBytes s" using u evolvesD(2) [of Y s u] by (simp add: kept_def rec_ok_def)
  moreover have "re_cleanupQueue u = re_cleanupQueue s" by (simp add: u_def)
  ultimately have "visible ly u + tombs ly (re_cleanupQueue u) + tombs ly (map clone_body (intoBodyReferences r)) \<le> usize_max" if E using that room by (simp add: roomy_def)
  from queue_kept [OF u this go] show ?thesis .
qed

lemma storeBodySpools_kept:
  assumes ok: "rec_ok E ly state" and room: "roomy E ly state"
    and run: "storeBodySpools ly disk disk2 disk3 i a b contentType encoding state = (res, state')"
  shows "kept E ly Y state state'"
proof -
  obtain e1 s1 where st1: "stageSpool disk a state = (e1, s1)" by fastforce
  obtain e2 s2 where st2: "stageSpool disk2 b s1 = (e2, s2)" by fastforce
  obtain os1 fs1 os2 fs2 where s1: "s1 = state\<lparr>re_orphanedSpills := os1, re_files := fs1\<rparr>" and s2: "s2 = s1\<lparr>re_orphanedSpills := os2, re_files := fs2\<rparr>"
    using stageSpool_shape [OF st1] stageSpool_shape [OF st2] by blast
  have k1: "kept E ly Y state (dropFile disk (sp_pendingPath b) s1)" and k2: "kept E ly Y state s2" and ok2: "rec_ok E ly s2" "roomy E ly s2"
    using kept_refl [OF ok] ok room by (simp_all add: s1 s2)
  define qb where "qb = \<lparr>bo_meta = spoolMeta i Request contentType encoding (length (sp_written a)), bo_storage = SpillBody (clone_text (sp_committedPath a))\<rparr>"
  define pb where "pb = \<lparr>bo_meta = spoolMeta i Response contentType encoding (length (sp_written b)), bo_storage = SpillBody (clone_text (sp_committedPath b))\<rparr>"
  define dropped where "dropped = dropStaged disk3 a (dropStaged disk3 b s2)"
  have dropped: "kept E ly Y state dropped" "kept E ly Y state (dropStaged disk3 a s2)" using k2 by (simp_all add: dropped_def)
  have bound: "kept E ly Y state (snd (bindSpools ly disk3 i qb pb r s2))" if "pendingRecord i s2 = Ok r" "spoolsFit (length (sp_written a)) (length (sp_written b)) r s2" for r
  proof -
    have "hm_get (re_transactions s2) i = Some r" "tn_status (rc_summary r) = Pending" using that(1) by (simp_all add: pendingRecord_ok)
    moreover have "spoolsFit (bm_storedBytes (bo_meta qb)) (bm_storedBytes (bo_meta pb)) r s2" using that(2) by (simp add: qb_def pb_def spoolMeta_def)
    ultimately have "kept E ly Y s2 (snd (bindSpools ly disk3 i qb pb r s2))" using bindSpools_kept [OF ok2] by (metis prod.collapse)
    with k2 show ?thesis by (rule kept_trans)
  qed
  have "(res, state') = (case e1 of Some e \<Rightarrow> (Err (CaptureIo e), dropFile disk (sp_pendingPath b) s1) | None \<Rightarrow> (case e2 of Some e \<Rightarrow> (Err (CaptureIo e), dropStaged disk3 a s2)
      | None \<Rightarrow> if re_closed s2 then (Err SessionClosed, dropped) else (case pendingRecord i s2 of Err e \<Rightarrow> (Err e, dropped) | Panic \<Rightarrow> (Panic, dropped)
        | Ok r \<Rightarrow> if \<not> spoolsFit (length (sp_written a)) (length (sp_written b)) r s2 then (Err InvalidLimits, dropped) else bindSpools ly disk3 i qb pb r s2)))"
    using run st1 st2 unfolding storeBodySpools_def Let_def qb_def pb_def dropped_def by (cases e1; cases e2; simp)
  then show ?thesis using k1 dropped bound
    by (cases e1; cases e2; cases "pendingRecord i s2") (auto split: if_splits simp: prod_eq_iff)
qed

section \<open>Packets\<close>

text \<open>A record without spare capacity; only there does measuring a copy give the measure of the record.\<close>

definition tight :: "TransactionRecord \<Rightarrow> bool" where
  "tight r \<longleftrightarrow> clone_record r = r"

lemma set_packets_fields [simp]:
  "rc_summary (set_packets side ps r) = rc_summary r" "rc_requestHeaders (set_packets side ps r) = rc_requestHeaders r"
  "rc_responseHeaders (set_packets side ps r) = rc_responseHeaders r" "rc_requestBody (set_packets side ps r) = rc_requestBody r"
  "rc_responseBody (set_packets side ps r) = rc_responseBody r" "intoBodyReferences (set_packets side ps r) = intoBodyReferences r"
  "rc_requestHeadersTruncated (set_packets side ps r) = rc_requestHeadersTruncated r" "rc_responseHeadersTruncated (set_packets side ps r) = rc_responseHeadersTruncated r"
  by (cases side; simp add: set_packets_def intoBodyReferences_def)+

lemma storeStreamPackets_kept:
  assumes ok: "rec_ok E ly state" and room: "roomy E ly state" and tight: "\<And>r. E \<Longrightarrow> hm_get (re_transactions state) i = Some r \<Longrightarrow> tight r"
    and run: "storeStreamPackets ly disk i side packets state = (res, state')"
  shows "kept E ly Y state state'"
proof (cases "re_closed state")
  case True
  then show ?thesis using run kept_refl [OF ok] by (simp add: storeStreamPackets_def ensureOpen_def)
next
  case False
  show ?thesis
  proof (cases "hm_get (re_transactions state) i")
    case None
    then show ?thesis using run False kept_refl [OF ok] by (simp add: storeStreamPackets_def ensureOpen_def)
  next
    case (Some r)
    let ?change = "set_packets side packets"
    let ?out = "replaceStreamPacketsWithinMetadataBudget ly i side packets state"
    have new: "transactionMetadataBytes ly (?change (clone_record r)) = transactionMetadataBytes ly (?change r)" if E using tight [OF that Some] by (simp add: tight_def)
    have id: "tn_transactionId (rc_summary (?change r)) = owned i" using table_okD(4) [OF _ Some] ok by (simp add: rec_ok_def core_ok_def)
    have key: "has_key (?change r) key = has_key r key" for key by (rule has_key_cong) simp_all
    have eff: "effect E ly {} Y state bodies mid" if out: "?out = Ok (bodies, mid)" for bodies mid
    proof -
      have go: "replaceWithinBudget ly i (transactionMetadataBytes ly r) (transactionMetadataBytes ly (?change (clone_record r))) ?change state = Ok (bodies, mid)"
        using out Some by (simp add: replaceStreamPacketsWithinMetadataBudget_def)
      show ?thesis
        by (rule replace_effect [where change = ?change, OF ok Some refl new _ id _ _ _ go, THEN conjunct1]) (simp_all add: key keeps_def frozen_def)
    qed
    have fin: "kept E ly Y state state'" if "?out = Ok (bodies, mid)" "finishWithCleanup ly disk () (enqueueBodyReferences ly bodies mid) = (res, state')" for bodies mid
      by (rule finish_kept [OF ok room eff [OF that(1)] that(2)])
    have "state' = state \<or> (\<exists>bodies mid. ?out = Ok (bodies, mid) \<and> finishWithCleanup ly disk () (enqueueBodyReferences ly bodies mid) = (res, state'))"
      using run False Some unfolding storeStreamPackets_def ensureOpen_def
      by (cases ?out; cases "list_all (packetValid (stored_bytes (detail_body side r))) (items packets)") auto
    then show ?thesis using fin kept_refl [OF ok] by blast
  qed
qed

end
