(* ===== verification/RecordingSteps.thy ===== *)
theory RecordingSteps
  imports RecordingWrites "HOL-Library.Sublist"
begin

text \<open>Admission, clearing and settings, and the step relation of a recording session.\<close>

section \<open>Admission\<close>

text \<open>What a step of the session respects, but for those that clear it.\<close>

definition advances :: "RecordingStateInner \<Rightarrow> RecordingStateInner \<Rightarrow> bool" where
  "advances s t \<longleftrightarrow> re_limits t = re_limits s \<and> re_metadataMemoryBudgetBytes t = re_metadataMemoryBudgetBytes s \<and> re_recordingSessionId t = re_recordingSessionId s
     \<and> re_collectionVersion s \<le> re_collectionVersion t
     \<and> (re_collectionVersion t = re_collectionVersion s \<and> re_collectionVersion s \<noteq> - 1 \<longrightarrow> prefix (re_order s) (re_order t))
     \<and> (\<forall>i r. hm_get (re_transactions s) i = Some r \<longrightarrow>
          (if tn_status (rc_summary r) = Pending then hm_get (re_transactions t) i \<noteq> None
           else (case hm_get (re_transactions t) i of None \<Rightarrow> True | Some q \<Rightarrow> frozen r q)))"

lemma evolves_advances:
  assumes ev: "evolves X s t" and others: "\<And>i r. i \<in> X \<Longrightarrow> hm_get (re_transactions s) i = Some r \<Longrightarrow> tn_status (rc_summary r) = Pending \<and> hm_get (re_transactions t) i \<noteq> None"
  shows "advances s t"
proof -
  have "if tn_status (rc_summary r) = Pending then hm_get (re_transactions t) i \<noteq> None else (case hm_get (re_transactions t) i of None \<Rightarrow> True | Some q \<Rightarrow> frozen r q)"
    if r: "hm_get (re_transactions s) i = Some r" for i r
  proof (cases "i \<in> X")
    case True
    then show ?thesis using others [OF True r] by simp
  next
    case False
    then show ?thesis using evolvesD(8) [OF ev False r] by (auto simp: keeps_def split: option.splits)
  qed
  then show ?thesis unfolding advances_def using evolvesD(1-6) [OF ev] by simp
qed

lemma kept_advances: "kept E ly {} s t \<Longrightarrow> rec_ok E ly t \<and> advances s t"
  using evolves_advances [of "{}"] by (simp add: kept_def)

lemma newRecord_fields:
  "tn_status (rc_summary (newRecord ly (newSummary input i s))) = Pending" "tn_transactionId (rc_summary (newRecord ly (newSummary input i s))) = owned i"
  "tn_sequence (rc_summary (newRecord ly (newSummary input i s))) = re_nextSequence s" "transactionBodyBytes (newRecord ly (newSummary input i s)) = 0"
  by (simp_all add: newRecord_def newSummary_def transactionBodyBytes_def intoBodyReferences_def map_filter_simps)

lemma table_ok_cong: "re_transactions s = re_transactions t \<Longrightarrow> re_order s = re_order t \<Longrightarrow> re_nextSequence s = re_nextSequence t \<Longrightarrow> table_ok s = table_ok t"
  by (simp add: table_ok_def)

lemma table_insert:
  assumes ok: "table_ok s" and fresh: "hm_get (re_transactions s) i = None" and id: "tn_transactionId (rc_summary r) = owned i"
    and seq: "tn_sequence (rc_summary r) = re_nextSequence s"
  shows "table_ok (s\<lparr>re_nextSequence := saturating_add (re_nextSequence s) 1, re_order := re_order s @ [i], re_transactions := hm_insert i r (re_transactions s)\<rparr>)"
proof -
  let ?T = "hm_insert i r (re_transactions s)"
  have no: "i \<notin> set (re_order s)" using fresh table_okD(3) [OF ok] by (simp add: hm_keys_iff)
  have seqs: "sequence_of ?T j = (if j = i then re_nextSequence s else sequence_of (re_transactions s) j)" for j
    by (simp add: sequence_of_def hm_get_insert seq)
  have "sorted (map (sequence_of ?T) (re_order s))"
  proof -
    have "map (sequence_of ?T) (re_order s) = map (sequence_of (re_transactions s)) (re_order s)" using no by (auto simp: seqs)
    then show ?thesis using table_okD(5) [OF ok] by (simp only:)
  qed
  moreover have "sequence_of ?T j \<le> re_nextSequence s" for j
    using table_okD(6) [OF ok] by (simp add: sequence_of_def hm_get_insert seq split: option.split)
  ultimately have sorted: "sorted (map (sequence_of ?T) (re_order s @ [i]))" using seqs [of i] by (simp add: sorted_append)
  have "fst ` set ?T = insert i (fst ` set (re_transactions s))" by (intro set_eqI) (simp add: hm_keys_iff hm_get_insert)
  moreover have "tn_sequence (rc_summary q) \<le> saturating_add (re_nextSequence s) 1" if "hm_get (re_transactions s) j = Some q" for j q
    using table_okD(6) [OF ok that] saturating_Suc(1) by (rule order_trans)
  ultimately show ?thesis using ok no sorted seq id saturating_Suc(1) [of "re_nextSequence s"] by (auto simp: table_ok_def hm_get_insert)
qed

lemma index_insert_keyless:
  assumes ok: "index_ok X s" and fresh: "hm_get (re_transactions s) i = None" and no: "\<And>key. \<not> has_key r key"
  shows "index_ok X (s\<lparr>re_transactions := hm_insert i r (re_transactions s)\<rparr>)"
proof -
  have "entries (hm_insert i r (re_transactions s)) key = entries (re_transactions s) key" for key
  proof -
    have "(q, j) \<in> entries (hm_insert i r (re_transactions s)) key \<longleftrightarrow> (q, j) \<in> entries (re_transactions s) key" for q j
      using fresh no by (cases "j = i") (auto simp: entries_def hm_get_insert)
    then show ?thesis by auto
  qed
  then show ?thesis using ok by (simp add: index_ok_def)
qed

lemma admit_ok:
  assumes ok: "rec_ok E ly s" and fresh: "hm_get (re_transactions s) i = None" and seq: "re_nextSequence s0 = re_nextSequence s"
    and run: "admitRecord ly i (newRecord ly (newSummary input i s0)) s = (res, t)"
  shows "rec_ok E ly t \<and> advances s t \<and> (\<forall>j. j \<noteq> i \<longrightarrow> hm_get (re_transactions s) j = None \<longrightarrow> hm_get (re_transactions t) j = None)"
proof -
  define r where "r = newRecord ly (newSummary input i s0)"
  note fields = newRecord_fields [where ly = ly and input = input and i = i and s = s0, folded r_def]
  define bytes where "bytes = transactionMetadataBytes ly r"
  show ?thesis
  proof (cases "canAdmitTransaction bytes s")
    case False
    then have "t = notifyChanged (s\<lparr>re_droppedCount := saturating_add (re_droppedCount s) 1\<rparr>)" using run by (simp add: admitRecord_def bytes_def r_def)
    moreover have "kept E ly {} s (s\<lparr>re_droppedCount := saturating_add (re_droppedCount s) 1\<rparr>)"
      using ok by (intro quiet_kept) (simp_all add: rec_ok_def still_def)
    ultimately have "kept E ly {} s t" "re_transactions t = re_transactions s" by simp_all (simp add: notifyChanged_def)
    then show ?thesis using kept_advances by simp
  next
    case True
    define u where "u = s\<lparr>re_nextSequence := saturating_add (re_nextSequence s) 1, re_order := re_order s @ [i],
      re_transactions := hm_insert i r (re_transactions s), re_totalMetadataBytes := usize_add (re_totalMetadataBytes s) bytes\<rparr>"
    have t: "t = notifyChanged u" using run True by (simp add: admitRecord_def bytes_def r_def u_def)
    have core: "core_ok E ly {} s" using ok by (simp add: rec_ok_def)
    have wf: "hm_wf (re_transactions s)" using core by (simp add: core_ok_def table_ok_def)
    have room: "usize_add (re_totalMetadataBytes s) bytes \<le> re_metadataMemoryBudgetBytes s" "re_metadataMemoryBudgetBytes s < usize_max"
      "length (re_transactions s) < li_maxTransactions (re_limits s)" using True ok unfolding canAdmitTransaction_def rec_ok_def by blast+
    then have plain: "usize_add (re_totalMetadataBytes s) bytes = re_totalMetadataBytes s + bytes" unfolding usize_add_def by linarith
    have sum: "visible ly u = visible ly s + bytes" using hm_sum_insert_new [OF wf fresh] by (simp add: visible_def u_def bytes_def)
    have "table_ok u"
    proof -
      have "table_ok s" "tn_sequence (rc_summary r) = re_nextSequence s" using core fields(3) seq by (simp_all add: core_ok_def)
      from table_insert [OF this(1) fresh fields(2) this(2)] show ?thesis
        by (rule table_ok_cong [THEN iffD1, rotated 3]) (simp_all add: u_def)
    qed
    moreover have "index_ok {} u"
    proof -
      have "index_ok {} s" "\<And>key. \<not> has_key r key" using core no_key [of r] fields(1) by (simp_all add: core_ok_def)
      from index_insert_keyless [OF this(1) fresh this(2)] show ?thesis
        by (rule index_ok_cong [THEN iffD1, rotated 2]) (simp_all add: u_def)
    qed
    moreover have "bodies_ok u" using core hm_sum_insert_new [OF wf fresh, of transactionBodyBytes r] by (simp add: core_ok_def bodies_ok_def u_def fields(4))
    moreover have "meta_ok E ly u"
    proof -
      have "re_totalMetadataBytes u = re_totalMetadataBytes s + bytes" "re_cleanupQueue u = re_cleanupQueue s" by (simp_all add: u_def plain)
      then show ?thesis using core sum by (simp add: core_ok_def meta_ok_def)
    qed
    ultimately have u: "core_ok E ly {} u" by (simp add: core_ok_def)
    have "E \<longrightarrow> visible ly u \<le> re_metadataMemoryBudgetBytes s" using sum room(1) core unfolding plain core_ok_def meta_ok_def by (cases E) simp_all
    moreover have "length (re_transactions u) \<le> li_maxTransactions (re_limits s)" using room(3) fresh by (simp add: u_def length_hm_insert hm_contains_def)
    ultimately have "rec_ok E ly u" using u ok by (simp add: rec_ok_def u_def)
    moreover have "advances s u" using fresh by (auto simp: advances_def u_def hm_get_insert split: option.split)
    moreover have "hm_get (re_transactions u) j = hm_get (re_transactions s) j" if "j \<noteq> i" for j using that by (simp add: u_def hm_get_insert)
    ultimately show ?thesis unfolding t by (simp add: rec_ok_def advances_def notifyChanged_def visible_def)
  qed
qed

lemma advances_after:
  assumes ev: "evolves {} s t" and tu: "advances t u" and fresh: "hm_get (re_transactions s) i = None"
    and others: "\<forall>j. j \<noteq> i \<longrightarrow> hm_get (re_transactions t) j = None \<longrightarrow> hm_get (re_transactions u) j = None"
  shows "advances s u"
proof -
  have "prefix (re_order s) (re_order u)" if v: "re_collectionVersion u = re_collectionVersion s" "re_collectionVersion s \<noteq> - 1"
  proof -
    have "re_collectionVersion t \<le> re_collectionVersion u" using tu by (simp add: advances_def)
    then have same: "re_collectionVersion t = re_collectionVersion s" using evolvesD(5) [OF ev] v by (intro order_antisym) simp_all
    then show ?thesis using evolvesD(6) [OF ev same] tu v by (simp add: advances_def)
  qed
  moreover have "re_collectionVersion s \<le> re_collectionVersion u" using evolvesD(5) [OF ev] tu by (auto simp: advances_def intro: order_trans)
  moreover have "if tn_status (rc_summary r) = Pending then hm_get (re_transactions u) j \<noteq> None else (case hm_get (re_transactions u) j of None \<Rightarrow> True | Some q \<Rightarrow> frozen r q)"
    if r: "hm_get (re_transactions s) j = Some r" for j r
  proof -
    have j: "j \<noteq> i" using r fresh by auto
    have keep: "keeps r (hm_get (re_transactions t) j)" using evolvesD(8) [OF ev _ r] by simp
    show ?thesis
    proof (cases "hm_get (re_transactions t) j")
      case None
      then have "hm_get (re_transactions u) j = None" using others j by simp
      then show ?thesis using keep None by (simp add: keeps_def)
    next
      case (Some q)
      have "if tn_status (rc_summary q) = Pending then hm_get (re_transactions u) j \<noteq> None else (case hm_get (re_transactions u) j of None \<Rightarrow> True | Some p \<Rightarrow> frozen q p)"
        using tu Some by (simp add: advances_def)
      then show ?thesis using keep Some frozen_status [of r q] frozen_trans [of r q]
        by (cases "hm_get (re_transactions u) j"; cases "tn_status (rc_summary r) = Pending") (simp_all add: keeps_def)
    qed
  qed
  ultimately show ?thesis unfolding advances_def using evolvesD(1-3) [OF ev] tu by (simp add: advances_def)
qed

lemma beginTransaction_advances:
  assumes ok: "rec_ok E ly s" and room: "roomy E ly s" and fresh: "hm_get (re_transactions s) i = None"
    and run: "beginTransaction ly lower disk disk2 input i s = (res, s')"
  shows "rec_ok E ly s' \<and> advances s s'"
proof (cases "re_closed s")
  case True
  then show ?thesis using run kept_advances [OF kept_refl [OF ok]] ok by (simp add: beginTransaction_def ensureOpen_def)
next
  case False
  obtain d1 s1 where d1: "drainCleanupQueueLocked ly disk s = (d1, s1)" by fastforce
  have k1: "kept E ly {} s s1" "roomy E ly s1" using drain_kept [OF ok d1] quiet_roomy [OF room] by auto
  have ok1: "rec_ok E ly s1" using k1 by (simp add: kept_def)
  define r where "r = newRecord ly (newSummary input i s1)"
  define ids where "ids = planTransactionAdmissionEvictions ly (transactionMetadataBytes ly r) s1"
  have ev: "evictable s1 None ids" unfolding ids_def using ok1 by (intro plans_evictable [of E ly "{}"]) (simp add: rec_ok_def)
  define s2 where "s2 = evictAndEnqueue ly ids s1"
  have k2: "kept E ly {} s1 s2" unfolding s2_def by (rule evict_kept(1) [OF ok1 k1(2) ev])
  obtain d3 s3 where d3: "drainCleanupQueueLocked ly disk2 s2 = (d3, s3)" by fastforce
  have "kept E ly {} s2 s3" using k2 drain_kept(1) [OF _ d3, of E] by (simp add: kept_def)
  then have k3: "kept E ly {} s s3" "kept E ly {} s1 s3" using k1 k2 kept_trans by blast+
  have result: "s' = s1 \<or> s' = s3 \<or> admitRecord ly i r s3 = (res, s')"
    using run False d1 d3 unfolding beginTransaction_def ensureOpen_def
    by (cases d1; cases "shouldRecordFromState lower (lx_location (bn_location input)) s1"; cases d3)
       (auto simp: r_def ids_def s2_def Let_def split: if_splits)
  then show ?thesis
  proof (elim disjE)
    assume run3: "admitRecord ly i r s3 = (res, s')"
    have "evolves {} s s3" "rec_ok E ly s3" using k3 by (simp_all add: kept_def)
    moreover have "hm_get (re_transactions s3) i = None" using evolvesD(7) [of "{}" s s3] fresh k3(1) by (simp add: kept_def)
    moreover have "re_nextSequence s1 = re_nextSequence s3" using evolvesD(4) [of "{}" s1 s3] k3(2) by (simp add: kept_def)
    ultimately show ?thesis using admit_ok [OF _ _ _ run3 [unfolded r_def]] advances_after [OF _ _ fresh] by blast
  qed (use k1 k3 kept_advances in blast)+
qed

section \<open>Clearing\<close>

lemma tombs_concat: "tombs ly (concat (map intoBodyReferences rs)) = sum_list (map (cleanupBodyReferencesMetadataBytes ly) rs)"
  by (induction rs) (simp_all add: tombs_def cleanupBodyReferencesMetadataBytes_def)

lemma removeAll_ok:
  assumes ok: "rec_ok E ly s" and run: "removeAllTransactions ly s = (bodies, t)"
  shows "core_ok E ly {} t" "re_transactions t = []" "re_order t = []" "re_cleanupQueue t = re_cleanupQueue s" "tombs ly bodies = deferred ly (re_transactions s)"
    "re_limits t = re_limits s" "re_metadataMemoryBudgetBytes t = re_metadataMemoryBudgetBytes s" "re_totalBodyBytes t = 0"
    "re_recordingSessionId t = re_recordingSessionId s" "re_collectionVersion t = re_collectionVersion s"
proof -
  have t: "t = s\<lparr>re_responseEntityIndex := [], re_transactions := [], re_order := [], re_totalBodyBytes := 0,
      re_totalMetadataBytes := re_totalMetadataBytes s - visible ly s\<rparr>" and b: "bodies = concat (map intoBodyReferences (map snd (re_transactions s)))"
    using run by (simp_all add: removeAllTransactions_def visible_def hm_sum_def comp_def)
  have "E \<longrightarrow> re_totalMetadataBytes s = visible ly s + tombs ly (re_cleanupQueue s)" using ok by (simp add: rec_ok_def core_ok_def meta_ok_def)
  then have "meta_ok E ly t" by (simp add: t meta_ok_def visible_def hm_sum_def)
  moreover have "table_ok t" by (simp add: t table_ok_def hm_wf_def hm_get_def)
  moreover have "index_ok {} t" by (simp add: t index_ok_def hm_wf_def hm_get_def entries_def hm_entry_or_def)
  moreover have "bodies_ok t" by (simp add: t bodies_ok_def hm_sum_def)
  ultimately show "core_ok E ly {} t" by (simp add: core_ok_def)
  show "tombs ly bodies = deferred ly (re_transactions s)"
    unfolding b tombs_concat hm_sum_def by (simp add: comp_def)
qed (use run in \<open>auto simp: removeAllTransactions_def\<close>)

lemma empty_ok: "core_ok E ly {} t \<Longrightarrow> re_transactions t = [] \<Longrightarrow> re_totalBodyBytes t = 0 \<Longrightarrow> re_metadataMemoryBudgetBytes t < usize_max
  \<Longrightarrow> li_maxTotalBodyBytes (re_limits t) < usize_max \<Longrightarrow> rec_ok E ly t"
  by (simp add: rec_ok_def visible_def hm_sum_def)

lemma still_empty: "still s t \<Longrightarrow> re_transactions s = [] \<Longrightarrow> re_transactions t = []"
  by (simp add: still_def)

lemma clearSession_ok:
  assumes ok: "rec_ok E ly s" and room: "roomy E ly s" and run: "clearSession ly disk s = (res, s')"
  shows "rec_ok E ly s' \<and> re_recordingSessionId s' = re_recordingSessionId s \<and> (s' = s \<or> re_transactions s' = [] \<and> re_order s' = [] \<and> re_collectionVersion s' = saturating_add (re_collectionVersion s) 1)"
proof (cases "re_closed s")
  case True
  then show ?thesis using run ok by (simp add: clearSession_def ensureOpen_def)
next
  case False
  obtain bodies t where rem: "removeAllTransactions ly s = (bodies, t)" by fastforce
  note r = removeAll_ok [OF ok rem]
  define u where "u = (markCollectionChanged t)\<lparr>re_directoryCleanupPending := True\<rparr>"
  have u: "core_ok E ly {} u" "re_transactions u = []" "re_order u = []" "re_cleanupQueue u = re_cleanupQueue s" "re_limits u = re_limits s"
    "re_metadataMemoryBudgetBytes u = re_metadataMemoryBudgetBytes s" "re_totalBodyBytes u = 0" "re_collectionVersion u = saturating_add (re_collectionVersion s) 1"
    "re_recordingSessionId u = re_recordingSessionId s"
    using r by (simp_all add: u_def markCollectionChanged_def)
  have go: "finishWithCleanup ly disk () (enqueueBodyReferences ly bodies u) = (res, s')"
    using run False by (simp add: clearSession_def ensureOpen_def rem u_def)
  have "visible ly u + tombs ly (re_cleanupQueue u) + tombs ly bodies \<le> usize_max" if E
    using room that by (simp add: roomy_def u r(5) visible_def hm_sum_def)
  from finish_ok [OF u(1) this go] have s': "core_ok E ly {} s'" "still u s'" by auto
  moreover have "rec_ok E ly u" using u ok by (intro empty_ok) (simp_all add: rec_ok_def)
  ultimately have "rec_ok E ly s'" using still_rec_ok by blast
  then show ?thesis using s'(2) u by (simp add: still_def)
qed

lemma closeRecording_ok:
  assumes ok: "rec_ok E ly s" and room: "roomy E ly s" and run: "closeRecording ly disk disk2 s = (res, s')"
  shows "rec_ok E ly s' \<and> re_recordingSessionId s' = re_recordingSessionId s \<and> (s' = s \<or> re_transactions s' = [] \<and> re_order s' = [] \<and> re_collectionVersion s' = saturating_add (re_collectionVersion s) 1)"
proof (cases "re_closed s")
  case True
  then show ?thesis using run ok by (simp add: closeRecording_def)
next
  case False
  obtain bodies t where rem: "removeAllTransactions ly s = (bodies, t)" by fastforce
  note r = removeAll_ok [OF ok rem]
  define u where "u = markCollectionChanged t"
  have u: "core_ok E ly {} u" "re_transactions u = []" "re_order u = []" "re_cleanupQueue u = re_cleanupQueue s" "re_limits u = re_limits s"
    "re_metadataMemoryBudgetBytes u = re_metadataMemoryBudgetBytes s" "re_totalBodyBytes u = 0" "re_collectionVersion u = saturating_add (re_collectionVersion s) 1"
    "re_recordingSessionId u = re_recordingSessionId s"
    using r by (simp_all add: u_def markCollectionChanged_def)
  obtain d v where d: "drainCleanupQueueLocked ly disk (notifyChanged (enqueueBodyReferences ly bodies u)) = (d, v)" by fastforce
  have go: "finishWithCleanup ly disk () (enqueueBodyReferences ly bodies u) = (and_then d (\<lambda>_. Ok ()), v)" by (simp add: finishWithCleanup_def d)
  have "visible ly u + tombs ly (re_cleanupQueue u) + tombs ly bodies \<le> usize_max" if E
    using room that by (simp add: roomy_def u r(5) visible_def hm_sum_def)
  from finish_ok [OF u(1) this go] have v: "core_ok E ly {} v" "still u v" by auto
  obtain e w where w: "clearDirectory disk2 v = (e, w)" by fastforce
  obtain os fs where w': "w = v\<lparr>re_orphanedSpills := os, re_files := fs\<rparr>" using clearDirectory_shape [OF w] by blast
  have "(res, s') = (case d of Ok _ \<Rightarrow> (case e of Some x \<Rightarrow> (Err (CaptureIo x), w) | None \<Rightarrow> (Ok (), w\<lparr>re_closed := True\<rparr>)) | _ \<Rightarrow> (d, v))"
    using run [symmetric] False unfolding closeRecording_def rem by (simp add: u_def [symmetric] d w split: outcome.split)
  then have st: "s' = snd (case d of Ok _ \<Rightarrow> (case e of Some x \<Rightarrow> (Err (CaptureIo x), w) | None \<Rightarrow> (Ok (), w\<lparr>re_closed := True\<rparr>)) | _ \<Rightarrow> (d, v))"
    by (metis snd_conv)
  have "core_ok E ly {} w" "still u w" "core_ok E ly {} (w\<lparr>re_closed := True\<rparr>)" "still u (w\<lparr>re_closed := True\<rparr>)"
    using v by (simp_all add: w' still_def)
  then have s': "core_ok E ly {} s'" "still u s'" unfolding st using v by (simp_all split: outcome.split option.split)
  moreover have "rec_ok E ly u" using u ok by (intro empty_ok) (simp_all add: rec_ok_def)
  ultimately have "rec_ok E ly s'" using still_rec_ok by blast
  then show ?thesis using s'(2) u by (simp add: still_def)
qed

section \<open>Steps\<close>

text \<open>
  One operation on the session. A transaction begins under an identifier that is new to the session (the code draws
  a UUID). With \<open>E = False\<close> there is no other restriction. With \<open>E = True\<close> the metadata stays
  addressable (\<open>roomy\<close>) and packets are stored only for records without spare capacity (\<open>tight\<close>): these are the
  runs in which the metadata total is exact, and \<open>packets_undercount\<close> shows a run outside them where it is not.
\<close>

inductive rec_step :: "bool \<Rightarrow> layout \<Rightarrow> (str \<Rightarrow> str) \<Rightarrow> RecordingStateInner \<Rightarrow> RecordingStateInner \<Rightarrow> bool" for E ly lower where
  step_begin: "roomy E ly s \<Longrightarrow> hm_get (re_transactions s) i = None \<Longrightarrow> beginTransaction ly lower disk disk2 input i s = (res, t) \<Longrightarrow> rec_step E ly lower s t"
| step_update: "roomy E ly s \<Longrightarrow> updateTransaction ly i update s = (done, t) \<Longrightarrow> rec_step E ly lower s t"
| step_progress: "updateProgress i progress s = (done, t) \<Longrightarrow> rec_step E ly lower s t"
| step_user: "roomy E ly s \<Longrightarrow> updateUserFields ly i user s = (done, t) \<Longrightarrow> rec_step E ly lower s t"
| step_commit: "roomy E ly s \<Longrightarrow> commitTransaction ly i completion s = (done, t) \<Longrightarrow> rec_step E ly lower s t"
| step_block: "roomy E ly s \<Longrightarrow> blockTransaction ly i completion s = (done, t) \<Longrightarrow> rec_step E ly lower s t"
| step_fail: "roomy E ly s \<Longrightarrow> failTransaction ly i fault endAt s = (done, t) \<Longrightarrow> rec_step E ly lower s t"
| step_cancel: "roomy E ly s \<Longrightarrow> cancelTransaction ly i fault endAt s = (done, t) \<Longrightarrow> rec_step E ly lower s t"
| step_headers: "roomy E ly s \<Longrightarrow> storeHeaders ly disk disk2 i side headers s = (done, t) \<Longrightarrow> rec_step E ly lower s t"
| step_spool: "createBodySpool disk pendingPath path i s = (spool, t) \<Longrightarrow> rec_step E ly lower s t"
| step_body: "roomy E ly s \<Longrightarrow> storeBody ly disk disk2 pendingPath path i side body s = (meta, t) \<Longrightarrow> rec_step E ly lower s t"
| step_spools: "roomy E ly s \<Longrightarrow> storeBodySpools ly disk disk2 disk3 i a b contentType encoding s = (metas, t) \<Longrightarrow> rec_step E ly lower s t"
| step_packets: "roomy E ly s \<Longrightarrow> (\<And>r. E \<Longrightarrow> hm_get (re_transactions s) i = Some r \<Longrightarrow> tight r) \<Longrightarrow> storeStreamPackets ly disk i side packets s = (done, t) \<Longrightarrow> rec_step E ly lower s t"
| step_cleanup: "cleanupPendingBodies ly disk s = (done, t) \<Longrightarrow> rec_step E ly lower s t"
| step_start: "startRecording s = (done, t) \<Longrightarrow> rec_step E ly lower s t"
| step_pause: "pauseRecording s = (done, t) \<Longrightarrow> rec_step E ly lower s t"
| step_ignore: "setIgnoreLocations patterns s = (done, t) \<Longrightarrow> rec_step E ly lower s t"
| step_tunnel: "setRecordTunnelMetadata enabled s = (done, t) \<Longrightarrow> rec_step E ly lower s t"
| step_settings: "updateSettings ly disk settings s = (done, t) \<Longrightarrow> rec_step E ly lower s t"

inductive rec_wipe :: "bool \<Rightarrow> layout \<Rightarrow> RecordingStateInner \<Rightarrow> RecordingStateInner \<Rightarrow> bool" for E ly where
  wipe_clear: "roomy E ly s \<Longrightarrow> clearSession ly disk s = (done, t) \<Longrightarrow> rec_wipe E ly s t"
| wipe_close: "roomy E ly s \<Longrightarrow> closeRecording ly disk disk2 s = (done, t) \<Longrightarrow> rec_wipe E ly s t"

inductive rec_reach :: "bool \<Rightarrow> layout \<Rightarrow> (str \<Rightarrow> str) \<Rightarrow> RecordingStateInner \<Rightarrow> RecordingStateInner \<Rightarrow> bool" for E ly lower s where
  reach_here: "rec_reach E ly lower s s"
| reach_op: "rec_reach E ly lower s t \<Longrightarrow> rec_step E ly lower t u \<Longrightarrow> rec_reach E ly lower s u"
| reach_wipe: "rec_reach E ly lower s t \<Longrightarrow> rec_wipe E ly t u \<Longrightarrow> rec_reach E ly lower s u"

lemma settings_kept:
  assumes ok: "rec_ok E ly s"
  shows "startRecording s = (d, t) \<Longrightarrow> kept E ly Y s t" "pauseRecording s = (d, t) \<Longrightarrow> kept E ly Y s t" "setIgnoreLocations ps s = (d, t) \<Longrightarrow> kept E ly Y s t"
    "setRecordTunnelMetadata b s = (d, t) \<Longrightarrow> kept E ly Y s t" "updateSettings ly disk settings s = (d, t) \<Longrightarrow> kept E ly Y s t"
    "cleanupPendingBodies ly disk s = (d, t) \<Longrightarrow> kept E ly Y s t" "createBodySpool disk pendingPath path i s = (spool, t) \<Longrightarrow> kept E ly Y s t"
proof -
  have core: "core_ok E ly {} s" using ok by (simp add: rec_ok_def)
  note same = kept_refl [OF ok, of Y]
  have state: "kept E ly Y s (s\<lparr>re_recordingState := q\<rparr>)" for q using core by (intro quiet_kept [OF ok]) (simp_all add: still_def)
  have ignore: "kept E ly Y s (s\<lparr>re_ignoreLocations := q\<rparr>)" for q using core by (intro quiet_kept [OF ok]) (simp_all add: still_def)
  have tunnel: "kept E ly Y s (s\<lparr>re_recordTunnelMetadata := q\<rparr>)" for q using core by (intro quiet_kept [OF ok]) (simp_all add: still_def)
  show "kept E ly Y s t" if "startRecording s = (d, t)" using that same state by (auto simp: startRecording_def ensureOpen_def split: if_splits)
  show "kept E ly Y s t" if "pauseRecording s = (d, t)" using that same state by (auto simp: pauseRecording_def ensureOpen_def split: if_splits)
  show "kept E ly Y s t" if "setIgnoreLocations ps s = (d, t)" using that same ignore by (auto simp: setIgnoreLocations_def ensureOpen_def split: if_splits outcome.splits)
  show "kept E ly Y s t" if "setRecordTunnelMetadata b s = (d, t)" using that same tunnel by (auto simp: setRecordTunnelMetadata_def ensureOpen_def split: if_splits)
  show "kept E ly Y s t" if "cleanupPendingBodies ly disk s = (d, t)"
  proof -
    obtain e u where e: "drainCleanupQueueLocked ly disk s = (e, u)" by fastforce
    have "kept E ly Y s u" by (rule drain_kept(1) [OF ok e])
    then show ?thesis using that same e by (cases e) (auto simp: cleanupPendingBodies_def ensureOpen_def split: if_splits)
  qed
  show "kept E ly Y s t" if "createBodySpool disk pendingPath path i s = (spool, t)"
    using that same by (auto simp: createBodySpool_def ensureOpen_def split: if_splits outcome.splits option.splits)
  have applied: "kept E ly Y s (applySettings settings s)"
  proof (rule quiet_kept [OF ok])
    show "still s (applySettings settings s)" by (simp add: applySettings_def Let_def still_def split: option.split)
    show "core_ok E ly {} (applySettings settings s)" using core by (simp add: applySettings_def Let_def split: option.split)
  qed
  show "kept E ly Y s t" if run: "updateSettings ly disk settings s = (d, t)"
  proof -
    have "t = s \<or> (\<exists>e. finishWithCleanup ly disk () (applySettings settings s) = (e, t))"
      using run by (auto simp: updateSettings_def ensureOpen_def split: if_splits outcome.splits)
    then show ?thesis
    proof
      assume "\<exists>e. finishWithCleanup ly disk () (applySettings settings s) = (e, t)"
      then obtain e where e: "finishWithCleanup ly disk () (applySettings settings s) = (e, t)" by blast
      have "rec_ok E ly (applySettings settings s)" using applied by (simp add: kept_def)
      from kept_trans [OF applied settle_kept [OF this e]] show ?thesis .
    qed (use same in simp)
  qed
qed

end
