(* ===== verification/RecordingProperties.thy ===== *)
theory RecordingProperties
  imports RecordingSteps LocationProperties "HOL-Library.Code_Target_Nat"
begin

text \<open>
  The recording session as a whole: exact accounting within the limits, an exact entity index, what steps may do
  to recorded transactions, pages, and the repayment of cleanup. Sessions start fresh and evolve by the steps of
  \<open>rec_step\<close> and the clearing operations \<open>rec_wipe\<close>.
\<close>

section \<open>Reachable sessions\<close>

lemma step_ok:
  assumes ok: "rec_ok E ly s" and step: "rec_step E ly lower s t"
  shows "rec_ok E ly t \<and> advances s t"
proof -
  have ended: "rec_ok E ly u \<and> advances s u" if "roomy E ly s" "ending final" "endTransaction ly i final s = (d, u)" for i final d u
  proof -
    note e = endTransaction_kept [OF ok that]
    show ?thesis
    proof (cases "u = s")
      case True
      then show ?thesis using kept_advances [OF kept_refl [OF ok]] by simp
    next
      case False
      then have "advances s u" using e by (intro evolves_advances [of "{i}"]) (auto simp: kept_def)
      then show ?thesis using e by (simp add: kept_def)
    qed
  qed
  from step show ?thesis
  proof cases
    case (step_begin i disk disk2 input res)
    then show ?thesis using beginTransaction_advances [OF ok] by blast
  next
    case (step_update i update d)
    then show ?thesis using kept_advances [OF updateTransaction_kept [OF ok]] by blast
  next
    case (step_progress i progress d)
    then show ?thesis using kept_advances [OF updateProgress_kept [OF ok]] by blast
  next
    case (step_user i user d)
    then show ?thesis using kept_advances [OF updateUserFields_kept [OF ok]] by blast
  next
    case (step_commit i completion d)
    show ?thesis by (rule ended [OF step_commit(1) endings(1) step_commit(2) [unfolded commitTransaction_def]]) simp
  next
    case (step_block i completion d)
    show ?thesis by (rule ended [OF step_block(1) endings(1) step_block(2) [unfolded blockTransaction_def]]) simp
  next
    case (step_fail i fault endAt d)
    show ?thesis by (rule ended [OF step_fail(1) endings(2) step_fail(2) [unfolded failTransaction_def]]) simp
  next
    case (step_cancel i fault endAt d)
    show ?thesis by (rule ended [OF step_cancel(1) endings(2) step_cancel(2) [unfolded cancelTransaction_def]]) simp
  next
    case (step_headers disk disk2 i side headers d)
    then show ?thesis using kept_advances [OF storeHeaders_kept [OF ok]] by blast
  next
    case (step_spool disk pendingPath path i spool)
    show ?thesis by (rule kept_advances [OF settings_kept(7) [OF ok step_spool]])
  next
    case (step_body disk disk2 pendingPath path i side body meta)
    then show ?thesis using kept_advances [OF storeBody_kept [OF ok]] by blast
  next
    case (step_spools disk disk2 disk3 i a b contentType encoding metas)
    then show ?thesis using kept_advances [OF storeBodySpools_kept [OF ok]] by blast
  next
    case (step_packets i disk side packets d)
    show ?thesis by (rule kept_advances [OF storeStreamPackets_kept [OF ok step_packets]])
  qed (rule kept_advances, erule settings_kept [OF ok])+
qed

lemma wipe_ok:
  assumes ok: "rec_ok E ly s" and wipe: "rec_wipe E ly s t"
  shows "rec_ok E ly t \<and> re_recordingSessionId t = re_recordingSessionId s \<and> re_collectionVersion s \<le> re_collectionVersion t
    \<and> (re_collectionVersion t = re_collectionVersion s \<and> re_collectionVersion s \<noteq> - 1 \<longrightarrow> prefix (re_order s) (re_order t))"
proof -
  from wipe have "rec_ok E ly t \<and> re_recordingSessionId t = re_recordingSessionId s
      \<and> (t = s \<or> re_transactions t = [] \<and> re_order t = [] \<and> re_collectionVersion t = saturating_add (re_collectionVersion s) 1)"
  proof cases
    case (wipe_clear disk d)
    then show ?thesis by (rule clearSession_ok [OF ok])
  next
    case (wipe_close disk disk2 d)
    then show ?thesis by (rule closeRecording_ok [OF ok])
  qed
  then show ?thesis using saturating_Suc [of "re_collectionVersion s"] by auto
qed

lemma reach_ok:
  assumes "rec_reach E ly lower s t" and "rec_ok E ly s"
  shows "rec_ok E ly t \<and> re_recordingSessionId t = re_recordingSessionId s \<and> re_collectionVersion s \<le> re_collectionVersion t
    \<and> (re_collectionVersion t = re_collectionVersion s \<and> re_collectionVersion s \<noteq> - 1 \<longrightarrow> prefix (re_order s) (re_order t))"
  using assms
proof induction
  case reach_here
  then show ?case by simp
next
  case (reach_op t u)
  note t = reach_op.IH [OF reach_op.prems]
  have u: "rec_ok E ly u \<and> advances t u" using step_ok [OF _ reach_op.hyps(2)] t by blast
  then have later: "re_collectionVersion t \<le> re_collectionVersion u" by (simp add: advances_def)
  have "prefix (re_order s) (re_order u)" if v: "re_collectionVersion u = re_collectionVersion s" "re_collectionVersion s \<noteq> - 1"
  proof -
    have "re_collectionVersion t = re_collectionVersion s" using later t v(1) by (intro order_antisym) simp_all
    then show ?thesis using t u v by (auto simp: advances_def intro: prefix_order.trans)
  qed
  then show ?case using t u later by (auto simp: advances_def intro: order_trans)
next
  case (reach_wipe t u)
  note t = reach_wipe.IH [OF reach_wipe.prems]
  have u: "rec_ok E ly u \<and> re_recordingSessionId u = re_recordingSessionId t \<and> re_collectionVersion t \<le> re_collectionVersion u
    \<and> (re_collectionVersion u = re_collectionVersion t \<and> re_collectionVersion t \<noteq> - 1 \<longrightarrow> prefix (re_order t) (re_order u))"
    using wipe_ok [OF _ reach_wipe.hyps(2)] t by blast
  have "prefix (re_order s) (re_order u)" if v: "re_collectionVersion u = re_collectionVersion s" "re_collectionVersion s \<noteq> - 1"
  proof -
    have "re_collectionVersion t = re_collectionVersion s" using u t v(1) by (intro order_antisym) simp_all
    then show ?thesis using t u v by (auto intro: prefix_order.trans)
  qed
  then show ?case using t u by (auto intro: order_trans)
qed

definition fresh_session :: "RecordingStateInner \<Rightarrow> bool" where
  "fresh_session s \<longleftrightarrow> (\<exists>configuration recordingSessionId now. RecordingSession_new configuration recordingSessionId now None = Ok s
     \<and> rf_metadataMemoryBudgetBytes configuration < usize_max \<and> li_maxTotalBodyBytes (rf_limits configuration) < usize_max)"

lemma fresh_ok: "fresh_session s \<Longrightarrow> rec_ok E ly s"
proof -
  assume "fresh_session s"
  then obtain configuration recordingSessionId now where new: "RecordingSession_new configuration recordingSessionId now None = Ok s"
    and bounds: "rf_metadataMemoryBudgetBytes configuration < usize_max" "li_maxTotalBodyBytes (rf_limits configuration) < usize_max" by (auto simp: fresh_session_def)
  obtain "re_transactions s = []" "re_order s = []" "re_responseEntityIndex s = []" "re_cleanupQueue s = []" "re_totalBodyBytes s = 0" "re_totalMetadataBytes s = 0"
    "re_limits s = rf_limits configuration" "re_metadataMemoryBudgetBytes s = rf_metadataMemoryBudgetBytes configuration"
    using new by (cases "validatePatterns (rf_ignoreLocations configuration)") (auto simp: RecordingSession_new_def split: if_splits)
  moreover from this have "core_ok E ly {} s"
    by (simp add: core_ok_def table_ok_def index_ok_def bodies_ok_def meta_ok_def visible_def tombs_def hm_sum_def hm_wf_def hm_get_def hm_entry_or_def entries_def)
  ultimately show ?thesis using bounds by (intro empty_ok) simp_all
qed

lemma reachable_ok: "fresh_session s0 \<Longrightarrow> rec_reach E ly lower s0 s \<Longrightarrow> rec_ok E ly s"
  using fresh_ok reach_ok by blast

section \<open>The entity index\<close>

lemma candidates_of_members:
  assumes index: "\<And>m. m \<in> set members \<Longrightarrow> \<exists>r c. hm_get transactions (snd m) = Some r \<and> responseRangeCandidate r = Some c \<and> (rx_sequence c, tx (rx_transactionId c)) = m"
  shows "map (\<lambda>c. (rx_sequence c, tx (rx_transactionId c)))
      (List.map_filter responseRangeCandidate (List.map_filter (\<lambda>m. hm_get transactions (snd m)) members)) = members"
  using assms
proof (induction members)
  case Nil
  then show ?case by (simp add: map_filter_simps)
next
  case (Cons m members)
  obtain r c where "hm_get transactions (snd m) = Some r" "responseRangeCandidate r = Some c" "(rx_sequence c, tx (rx_transactionId c)) = m"
    using Cons.prems [of m] by auto
  moreover have "map (\<lambda>c. (rx_sequence c, tx (rx_transactionId c)))
      (List.map_filter responseRangeCandidate (List.map_filter (\<lambda>m. hm_get transactions (snd m)) members)) = members"
    using Cons by simp
  ultimately show ?case by (simp add: map_filter_simps)
qed

definition range_key :: "str \<Rightarrow> str \<Rightarrow> nat \<Rightarrow> str \<Rightarrow> ResponseEntityIndexKey" where
  "range_key urlDisplay entityTag totalBytes contentEncoding = \<lparr>ik_urlDisplay = urlDisplay, ik_entityTag = entityTag, ik_totalBytes = totalBytes,
     ik_contentEncoding = to_ascii_lowercase contentEncoding\<rparr>"

text \<open>The candidates of a key, read off the table.\<close>

definition stored_ranges :: "ResponseEntityIndexKey \<Rightarrow> RecordingStateInner \<Rightarrow> ResponseRangeCandidate set" where
  "stored_ranges key s = {c. \<exists>i r. hm_get (re_transactions s) i = Some r \<and> responseEntityEntry r = Some (key, c)}"

lemma lookup_exact:
  assumes ok: "rec_ok E ly s" and closed: "\<not> re_closed s"
  shows "\<exists>found. findResponseRangeCandidates urlDisplay entityTag totalBytes contentEncoding s = Ok found
    \<and> set found = stored_ranges (range_key urlDisplay entityTag totalBytes contentEncoding) s
    \<and> sorted (map (\<lambda>c. (rx_sequence c, tx (rx_transactionId c))) found) \<and> distinct (map (\<lambda>c. (rx_sequence c, tx (rx_transactionId c))) found)"
proof -
  define key where "key = range_key urlDisplay entityTag totalBytes contentEncoding"
  define members where "members = hm_entry_or (re_responseEntityIndex s) key []"
  define found where "found = List.map_filter responseRangeCandidate (List.map_filter (\<lambda>m. hm_get (re_transactions s) (snd m)) members)"
  have index: "index_ok {} s" and table: "table_ok s" using ok by (auto simp: rec_ok_def core_ok_def)
  have members: "set members = entries (re_transactions s) key" "sorted members" "distinct members"
    using index unfolding index_ok_def members_def by (auto simp: hm_entry_or_def split: option.split)
  have run: "findResponseRangeCandidates urlDisplay entityTag totalBytes contentEncoding s = Ok found"
    using closed unfolding findResponseRangeCandidates_def range_key_def [symmetric] key_def [symmetric] found_def members_def
    by (cases "hm_get (re_responseEntityIndex s) key") (simp_all add: hm_entry_or_def map_filter_simps)
  have entry: "\<exists>r c. hm_get (re_transactions s) (snd m) = Some r \<and> responseEntityEntry r = Some (key, c) \<and> responseRangeCandidate r = Some c
      \<and> (rx_sequence c, tx (rx_transactionId c)) = m" if m: "m \<in> set members" for m
  proof -
    obtain r c where r: "hm_get (re_transactions s) (snd m) = Some r" "fst m = tn_sequence (rc_summary r)" "responseEntityEntry r = Some (key, c)"
      using m members(1) by (auto simp: entries_def has_key_def)
    then show ?thesis using entry_facts(1-3) [OF r(3)] table_okD(4) [OF table r(1)] by (auto simp: prod_eq_iff)
  qed
  then have keys: "map (\<lambda>c. (rx_sequence c, tx (rx_transactionId c))) found = members"
    unfolding found_def by (intro candidates_of_members) blast
  have "c \<in> set found \<longleftrightarrow> c \<in> stored_ranges key s" for c
  proof
    assume "c \<in> set found"
    then obtain m r where m: "m \<in> set members" "hm_get (re_transactions s) (snd m) = Some r" "responseRangeCandidate r = Some c"
      by (auto simp: found_def map_filter_def)
    then show "c \<in> stored_ranges key s" using entry [OF m(1)] by (auto simp: stored_ranges_def)
  next
    assume "c \<in> stored_ranges key s"
    then obtain i r where r: "hm_get (re_transactions s) i = Some r" "responseEntityEntry r = Some (key, c)" by (auto simp: stored_ranges_def)
    then have "(tn_sequence (rc_summary r), i) \<in> set members" unfolding members(1) by (auto simp: entries_def has_key_def)
    then show "c \<in> set found" using r entry_facts(3) [OF r(2)] unfolding found_def by (force simp: map_filter_def)
  qed
  then show ?thesis using run keys members(2,3) by (auto simp: key_def)
qed

section \<open>Pages\<close>

lemma page_identifiers:
  assumes table: "table_ok s" and sub: "set ids \<subseteq> set (re_order s)"
  shows "map (\<lambda>m. tx (tn_transactionId m))
    (List.map_filter (\<lambda>i. map_option (\<lambda>r. clone_summary (rc_summary r)) (hm_get (re_transactions s) i)) ids) = ids"
  using sub
proof (induction ids)
  case Nil
  then show ?case by (simp add: map_filter_simps)
next
  case (Cons i ids)
  then obtain r where r: "hm_get (re_transactions s) i = Some r" using table_okD(3) [OF table] hm_keys_iff [of i "re_transactions s"] by auto
  have "tx (tn_transactionId (rc_summary r)) = i" using table_okD(4) [OF table r] by simp
  then show ?case using Cons r by (simp add: map_filter_simps)
qed

lemma token_version: "collectionTokenFromState s = collectionTokenFromState t \<Longrightarrow> re_recordingSessionId s = re_recordingSessionId t
  \<Longrightarrow> re_collectionVersion s = re_collectionVersion t"
proof -
  assume "collectionTokenFromState s = collectionTokenFromState t" "re_recordingSessionId s = re_recordingSessionId t"
  then have "print_digits 10 (unat (re_collectionVersion s)) = print_digits 10 (unat (re_collectionVersion t))" by (simp add: collectionTokenFromState_def)
  then have "unat (re_collectionVersion s) = unat (re_collectionVersion t)" using digits_value_print by (metis option.inject)
  then show ?thesis by (rule word_unat_eq_iff [THEN iffD2])
qed

section \<open>Cleanup\<close>

definition healthy :: "disk \<Rightarrow> bool" where
  "healthy disk \<longleftrightarrow> (\<forall>path. dk_remove disk path = None) \<and> dk_clear disk = None"

lemma drainQueue_healthy:
  assumes "healthy disk" and "re_cleanupQueue s = queue"
  shows "\<exists>t. drainQueue ly disk queue s = (None, t) \<and> re_cleanupQueue t = []"
  using assms
proof (induction queue arbitrary: s)
  case (Cons b queue)
  obtain mid where "removeBody disk b s = (None, mid)"
    using Cons.prems(1) by (cases "bo_storage b") (auto simp: removeBody_def healthy_def)
  then show ?case using Cons.IH [OF Cons.prems(1), of "notifyChanged (mid\<lparr>re_cleanupQueue := queue,
      re_totalMetadataBytes := re_totalMetadataBytes mid - cleanupBodyReferenceMetadataBytes ly b\<rparr>)"] by (simp add: notifyChanged_def)
qed simp

lemma cleanupOrphans_healthy:
  assumes "healthy disk" and "re_orphanedSpills s = paths"
  shows "\<exists>t. cleanupOrphans disk paths s = (None, t) \<and> re_orphanedSpills t = []"
  using assms by (induction paths arbitrary: s) (auto simp: healthy_def)

lemma drain_healthy:
  assumes h: "healthy disk"
  shows "\<exists>t. drainCleanupQueueLocked ly disk s = (Ok (), t) \<and> re_cleanupQueue t = [] \<and> re_orphanedSpills t = [] \<and> \<not> re_directoryCleanupPending t"
proof -
  obtain s1 where q: "drainQueue ly disk (re_cleanupQueue s) s = (None, s1)" "re_cleanupQueue s1 = []" using drainQueue_healthy [OF h refl] by blast
  obtain s2 where o: "cleanupOrphans disk (re_orphanedSpills s1) s1 = (None, s2)" "re_orphanedSpills s2 = []" using cleanupOrphans_healthy [OF h refl] by blast
  have s2: "re_cleanupQueue s2 = []" using cleanupOrphans_shape [OF o(1)] q(2) by auto
  define s3 where "s3 = (if length (re_orphanedSpills s2) \<noteq> length (re_orphanedSpills s1) then notifyChanged s2 else s2)"
  have s3: "re_cleanupQueue s3 = []" "re_orphanedSpills s3 = []" using s2 o(2) by (simp_all add: s3_def notifyChanged_def)
  have run: "drainCleanupQueueLocked ly disk s = (if \<not> re_directoryCleanupPending s3 then (Ok (), s3)
      else (Ok (), notifyChanged (s3\<lparr>re_files := [], re_orphanedSpills := [], re_directoryCleanupPending := False\<rparr>)))"
    using h unfolding drainCleanupQueueLocked_def q(1) prod.case option.case o(1) Let_def s3_def [symmetric] by (simp add: clearDirectory_def healthy_def)
  show ?thesis
  proof (cases "re_directoryCleanupPending s3")
    case True
    then show ?thesis using run s3 by (simp add: notifyChanged_def)
  next
    case False
    then show ?thesis using run s3 by simp
  qed
qed

section \<open>An example session\<close>

definition demo_layout :: layout where
  "demo_layout = \<lparr>ly_String = 24, ly_StringPair = 48, ly_HeaderField = 48, ly_TransactionSummary = 480, ly_TransactionError = 72, ly_TransactionRecord = 800,
     ly_BodyRef = 128, ly_ResponseEntityIndexKey = 80, ly_IndexMember = 32, ly_StreamPacket = 72, ly_usize = 8\<rparr>"

definition demo_disk :: disk where
  "demo_disk = \<lparr>dk_remove = \<lambda>_. None, dk_write = None, dk_read = None, dk_clear = None\<rparr>"

definition demo_configuration :: RecordingConfiguration where
  "demo_configuration = \<lparr>rf_limits = \<lparr>li_maxTransactions = 1, li_maxBodyBytes = 16, li_maxTotalBodyBytes = 16\<rparr>, rf_ignoreLocations = [],
     rf_recordTunnelMetadata = True, rf_memoryBodyThreshold = 2, rf_metadataMemoryBudgetBytes = 65536\<rparr>"

definition demo_input :: BeginTransaction where
  "demo_input = \<lparr>bn_protocol = Http, bn_method = owned (lit ''GET''),
     bn_location = locate 1 2 0 16 \<lparr>rl_protocol = lit ''http'', rl_host = lit ''h'', rl_port = 80, rl_path = lit ''/f'', rl_query = [], rl_display = lit ''http://h/f''\<rparr>,
     bn_clientAddress = owned (lit ''c''), bn_clientProcessName = None, bn_clientProcessId = None, bn_contentType = owned [], bn_startAtMilliseconds = 5\<rparr>"

definition demo_headers :: "HeaderField list" where
  "demo_headers = [\<lparr>hf_name = owned (lit ''ETag''), hf_value = owned ([34] @ lit ''v1'' @ [34])\<rparr>,
     \<lparr>hf_name = owned (lit ''Content-Range''), hf_value = owned (lit ''bytes 2-5/10'')\<rparr>]"

definition demo_body :: BodyWrite where
  "demo_body = \<lparr>bw_bytes = [1, 2, 3, 4], bw_originalBytes = 4, bw_contentType = owned [], bw_encoding = owned []\<rparr>"

definition demo_summary :: "TransactionStatus \<Rightarrow> nat option \<Rightarrow> u64 option \<Rightarrow> u64 \<Rightarrow> nat \<Rightarrow> TransactionSummary" where
  "demo_summary status code endAt written display =
     \<lparr>tn_transactionId = owned (lit ''a''), tn_recordingSessionId = owned (lit ''s''), tn_sequence = 1,
      tn_protocol = Http, tn_method = owned (lit ''GET''), tn_host = owned (lit ''h''), tn_port = 80, tn_path = owned (lit ''/f''), tn_query = owned [],
      tn_urlDisplay = Text (lit ''http://h/f'') display, tn_status = status, tn_statusCode = code, tn_clientAddress = owned (lit ''c''),
      tn_clientProcessName = None, tn_clientProcessId = None, tn_contentType = owned [],
      tn_timings = \<lparr>ti_startAtMilliseconds = 5, ti_dnsEndAtMilliseconds = None, ti_connectEndAtMilliseconds = None,
        ti_tlsEndAtMilliseconds = None, ti_requestSentAtMilliseconds = None, ti_responseStartAtMilliseconds = None, ti_endAtMilliseconds = endAt\<rparr>,
      tn_sizes = \<lparr>tz_requestHeaderBytes = 0, tz_requestBodyBytes = 0, tz_responseHeaderBytes = 0, tz_responseBodyBytes = written\<rparr>,
      tn_flags = TransactionFlags_default, tn_error = None, tn_notes = owned [], tn_tags = vec_of [], tn_appliedTools = vec_of []\<rparr>"

definition demo_stored :: BodyRef where
  "demo_stored = \<lparr>bo_meta = \<lparr>bm_transactionId = owned (lit ''a''), bm_side = Response, bm_contentType = owned [], bm_encoding = owned [],
     bm_storedBytes = 4, bm_originalBytes = 4, bm_truncated = False\<rparr>, bo_storage = SpillBody (owned (lit ''p''))\<rparr>"

definition demo_record :: "TransactionSummary \<Rightarrow> nat \<Rightarrow> HeaderField list \<Rightarrow> BodyRef option \<Rightarrow> TransactionRecord" where
  "demo_record summary bytes headers body = \<lparr>rc_summary = summary, rc_summaryStorageBytes = bytes, rc_requestHeaders = vec_of [],
     rc_responseHeaders = vec_of headers, rc_requestBody = None, rc_responseBody = body, rc_requestPackets = vec_of [], rc_responsePackets = vec_of [],
     rc_requestHeadersTruncated = False, rc_responseHeadersTruncated = False\<rparr>"

definition demo_state :: "nat \<Rightarrow> nat \<Rightarrow> TransactionRecord \<Rightarrow> (ResponseEntityIndexKey, (u64 \<times> str) list) hashmap \<Rightarrow> (str, bytes) hashmap \<Rightarrow> u64 \<Rightarrow> RecordingStateInner" where
  "demo_state bodyBytes metadataBytes record index files revision =
     \<lparr>re_recordingState = Recording, re_recordingSessionId = lit ''s'', re_startedAtMilliseconds = 1,
      re_nextSequence = 2, re_droppedCount = 0, re_totalBodyBytes = bodyBytes, re_totalMetadataBytes = metadataBytes,
      re_metadataMemoryBudgetBytes = 65536, re_collectionVersion = 0, re_limits = rf_limits demo_configuration, re_ignoreLocations = [],
      re_recordTunnelMetadata = True, re_transactions = [(lit ''a'', record)], re_responseEntityIndex = index,
      re_order = [lit ''a''], re_cleanupQueue = [], re_directoryCleanupPending = False, re_closed = False,
      re_memoryThreshold = 2, re_files = files, re_orphanedSpills = [], re_revision = revision\<rparr>"

definition demo0 :: RecordingStateInner where
  "demo0 = (case RecordingSession_new demo_configuration (lit ''s'') 1 None of Ok s \<Rightarrow> s)"

definition demo1 :: RecordingStateInner where
  "demo1 = demo_state 0 891 (demo_record (demo_summary Pending None None 0 16) 505 [] None) [] [] 1"

definition demo2 :: RecordingStateInner where
  "demo2 = demo_state 0 1020 (demo_record (demo_summary Pending None None 0 16) 505 demo_headers None) [] [] 2"

definition demo3 :: RecordingStateInner where
  "demo3 = demo_state 4 1020 (demo_record (demo_summary Pending None None 4 16) 505 demo_headers (Some demo_stored)) [] [(lit ''p'', [1, 2, 3, 4])] 3"

definition demo4 :: RecordingStateInner where
  "demo4 = demo_state 4 1207 (demo_record (demo_summary Complete (Some 206) (Some 9) 4 10) 499 demo_headers (Some demo_stored))
     [(\<lparr>ik_urlDisplay = lit ''http://h/f'', ik_entityTag = [34] @ lit ''v1'' @ [34], ik_totalBytes = 10, ik_contentEncoding = []\<rparr>, [(1, lit ''a'')])]
     [(lit ''p'', [1, 2, 3, 4])] 4"



definition demo_broken :: disk where
  "demo_broken = demo_disk\<lparr>dk_remove := \<lambda>_. Some ''busy''\<rparr>"

definition demo5 :: RecordingStateInner where
  "demo5 = demo4\<lparr>re_transactions := [], re_order := [], re_responseEntityIndex := [], re_totalBodyBytes := 0, re_totalMetadataBytes := 130,
     re_cleanupQueue := [demo_stored], re_directoryCleanupPending := True, re_collectionVersion := 1, re_revision := 5\<rparr>"

lemma demo_fresh: "fresh_session demo0"
proof -
  have "RecordingSession_new demo_configuration (lit ''s'') 1 None = Ok demo0" by code_simp
  moreover have "rf_metadataMemoryBudgetBytes demo_configuration < usize_max" "li_maxTotalBodyBytes (rf_limits demo_configuration) < usize_max"
    by (simp_all add: demo_configuration_def usize_max_def)
  ultimately show ?thesis unfolding fresh_session_def by blast
qed

lemma demo_begin: "snd (beginTransaction demo_layout to_ascii_lowercase demo_disk demo_disk demo_input (lit ''a'') demo0) = demo1"
  by code_simp

lemma demo_store: "snd (storeHeaders demo_layout demo_disk demo_disk (lit ''a'') Response demo_headers demo1) = demo2"
  "snd (storeBody demo_layout demo_disk demo_disk (lit ''q'') (owned (lit ''p'')) (lit ''a'') Response demo_body demo2) = demo3"
  by code_simp+

definition demo_completion :: TransactionCompletion where
  "demo_completion = \<lparr>tc_statusCode = 206, tc_endAtMilliseconds = 9, tc_contentType = owned []\<rparr>"

lemma demo_commit: "commitTransaction demo_layout (lit ''a'') demo_completion demo3 = (Ok (), demo4)"
proof -
  define summary where "summary = demo_summary Complete (Some 206) (Some 9) 4 10"
  define mid where "mid = demo_state 4 1207 (demo_record (demo_summary Complete (Some 206) (Some 9) 4 10) 499 demo_headers (Some demo_stored)) [] [(lit ''p'', [1, 2, 3, 4])] 3"
  define entered where "entered = demo4\<lparr>re_revision := 3\<rparr>"
  have "replaceSummaryWithinMetadataBudget demo_layout (lit ''a'') summary 499 demo3 = Ok ([], mid)" unfolding summary_def mid_def by code_simp
  moreover have "enforceAllLimits demo_layout mid = ([], mid)" unfolding mid_def by code_simp
  moreover have "insertResponseEntityEntry (lit ''a'') mid = entered" unfolding mid_def entered_def by code_simp
  ultimately have fin: "finalizeSummaryWithinLimits demo_layout (lit ''a'') summary 499 demo3 = Ok ([], entered)"
    by (simp add: finalizeSummaryWithinLimits_def)
  define pending where "pending = demo_record (demo_summary Pending None None 4 16) 505 demo_headers (Some demo_stored)"
  have "pendingRecord (lit ''a'') demo3 = Ok pending" unfolding pending_def by code_simp
  moreover have "completed Complete demo_completion (clone_summary (rc_summary pending)) = summary" unfolding pending_def summary_def by code_simp
  moreover have "summaryStorageBytes demo_layout summary = 499" unfolding summary_def by code_simp
  moreover have "\<not> re_closed demo3" by code_simp
  moreover have "notifyChanged (enqueueBodyReferences demo_layout [] entered) = demo4" unfolding entered_def by code_simp
  ultimately show ?thesis using fin by (simp add: commitTransaction_def endTransaction_def ensureOpen_def replaced_def)
qed

lemma demo_clear: "snd (clearSession demo_layout demo_broken demo4) = demo5"
  by code_simp

lemma demo_roomy: "roomy True demo_layout demo0" "roomy True demo_layout demo1" "roomy True demo_layout demo2" "roomy True demo_layout demo3" "roomy True demo_layout demo4"
  by code_simp+

lemma demo_steps:
  "rec_step True demo_layout to_ascii_lowercase demo0 demo1" "rec_step True demo_layout to_ascii_lowercase demo1 demo2"
  "rec_step True demo_layout to_ascii_lowercase demo2 demo3" "rec_step True demo_layout to_ascii_lowercase demo3 demo4" "rec_wipe True demo_layout demo4 demo5"
proof -
  have "hm_get (re_transactions demo0) (lit ''a'') = None" by code_simp
  then show "rec_step True demo_layout to_ascii_lowercase demo0 demo1" using step_begin [OF demo_roomy(1)] demo_begin by (metis prod.collapse)
  show "rec_step True demo_layout to_ascii_lowercase demo1 demo2" using step_headers [OF demo_roomy(2)] demo_store(1) by (metis prod.collapse)
  show "rec_step True demo_layout to_ascii_lowercase demo2 demo3" using step_body [OF demo_roomy(3)] demo_store(2) by (metis prod.collapse)
  show "rec_step True demo_layout to_ascii_lowercase demo3 demo4" by (rule step_commit [OF demo_roomy(4) demo_commit])
  show "rec_wipe True demo_layout demo4 demo5" using wipe_clear [OF demo_roomy(5)] demo_clear by (metis prod.collapse)
qed

lemma demo_reach:
  "rec_reach True demo_layout to_ascii_lowercase demo0 demo1" "rec_reach True demo_layout to_ascii_lowercase demo0 demo3"
  "rec_reach True demo_layout to_ascii_lowercase demo0 demo4" "rec_reach True demo_layout to_ascii_lowercase demo0 demo5" "rec_reach True demo_layout to_ascii_lowercase demo1 demo4"
proof -
  note s = demo_steps
  show r1: "rec_reach True demo_layout to_ascii_lowercase demo0 demo1" by (rule reach_op [OF reach_here s(1)])
  show r3: "rec_reach True demo_layout to_ascii_lowercase demo0 demo3" by (rule reach_op [OF reach_op [OF r1 s(2)] s(3)])
  show r4: "rec_reach True demo_layout to_ascii_lowercase demo0 demo4" by (rule reach_op [OF r3 s(4)])
  show "rec_reach True demo_layout to_ascii_lowercase demo0 demo5" by (rule reach_wipe [OF r4 s(5)])
  show "rec_reach True demo_layout to_ascii_lowercase demo1 demo4" by (rule reach_op [OF reach_op [OF reach_op [OF reach_here s(2)] s(3)] s(4)])
qed

section \<open>Spare capacity\<close>

text \<open>
  The packets of a transaction are charged by the measure of a copy, which has no spare capacity, while the record
  that stays keeps its own. With a header name of spare capacity the metadata total falls below the sum of the
  sizes: the run below is one of \<open>rec_step False\<close>, and no run of \<open>rec_step True\<close>.
\<close>

definition spare_header :: HeaderField where
  "spare_header = \<lparr>hf_name = Text (lit ''x'') 50, hf_value = owned []\<rparr>"

definition spare_state :: RecordingStateInner where
  "spare_state = demo_state 0 989 (demo_record (demo_summary Pending None None 0 16) 505 [spare_header] None) [] [] 2"

lemma packets_undercount:
  "snd (storeHeaders demo_layout demo_disk demo_disk (lit ''a'') Response [spare_header] demo1) = spare_state"
  "re_totalMetadataBytes spare_state = hm_sum (transactionMetadataBytes demo_layout) (re_transactions spare_state)"
  "case storeStreamPackets demo_layout demo_disk (lit ''a'') Response (vec_of []) spare_state of
     (Ok _, t) \<Rightarrow> re_totalMetadataBytes t + 49 = hm_sum (transactionMetadataBytes demo_layout) (re_transactions t) | _ \<Rightarrow> False"
  by code_simp+

definition spare_end :: RecordingStateInner where
  "spare_end = snd (storeStreamPackets demo_layout demo_disk (lit ''a'') Response (vec_of []) spare_state)"

lemma spare_reach: "rec_reach False demo_layout to_ascii_lowercase demo0 spare_end"
proof -
  have roomy: "roomy False ly s" for ly s by (simp add: roomy_def)
  have "hm_get (re_transactions demo0) (lit ''a'') = None" by code_simp
  then have "rec_step False demo_layout to_ascii_lowercase demo0 demo1" using step_begin [OF roomy] demo_begin by (metis prod.collapse)
  moreover have "rec_step False demo_layout to_ascii_lowercase demo1 spare_state" using step_headers [OF roomy] packets_undercount(1) by (metis prod.collapse)
  moreover have "rec_step False demo_layout to_ascii_lowercase spare_state spare_end"
    unfolding spare_end_def by (rule step_packets [OF roomy _ prod.collapse [symmetric]]) simp
  ultimately show ?thesis using reach_here reach_op by metis
qed

section \<open>The session\<close>

text \<open>
  C9: the accounting of a recording session is exact and within its limits. In every state reachable by any sequence
  of operations on a session whose two budgets are below the largest \<open>usize\<close> (each transaction begun under a new
  identifier, as the UUIDs of the code are) the body total is the sum of the stored bodies and within its limit, the
  number of transactions is within its limit, and the order lists every transaction once. The metadata total needs
  more: in the runs with \<open>E\<close>, where packets are stored only for records without spare capacity and the metadata is
  always addressable, it is the sum of the sizes of the recorded transactions and of the bodies that still wait for
  their deletion, and the recorded transactions alone stay within the memory budget. Without \<open>E\<close> the metadata total
  can fall below that sum: the code charges packets by the size of a copy (\<open>packets_undercount\<close>).
\<close>

theorem recording_accounting:
  assumes "fresh_session s0" and "rec_reach E ly lower s0 s"
  shows "re_totalBodyBytes s = hm_sum transactionBodyBytes (re_transactions s) \<and> re_totalBodyBytes s \<le> li_maxTotalBodyBytes (re_limits s)
    \<and> length (re_transactions s) \<le> li_maxTransactions (re_limits s)
    \<and> distinct (re_order s) \<and> set (re_order s) = fst ` set (re_transactions s)
    \<and> (E \<longrightarrow> re_totalMetadataBytes s = hm_sum (transactionMetadataBytes ly) (re_transactions s) + sum_list (map (cleanupBodyReferenceMetadataBytes ly) (re_cleanupQueue s))
        \<and> hm_sum (transactionMetadataBytes ly) (re_transactions s) \<le> re_metadataMemoryBudgetBytes s)"
  using reachable_ok [OF assms]
  by (simp add: rec_ok_def core_ok_def table_ok_def bodies_ok_def meta_ok_def visible_def tombs_def)

theorem recording_accounting_witness:
  "fresh_session demo0 \<and> rec_reach True demo_layout to_ascii_lowercase demo0 demo4 \<and> length (re_transactions demo4) = 1
    \<and> re_totalMetadataBytes demo4 = hm_sum (transactionMetadataBytes demo_layout) (re_transactions demo4)
    \<and> re_totalBodyBytes demo4 = hm_sum transactionBodyBytes (re_transactions demo4)
    \<and> rec_reach False demo_layout to_ascii_lowercase demo0 spare_end \<and> re_totalBodyBytes spare_end = hm_sum transactionBodyBytes (re_transactions spare_end)"
  using recording_accounting [OF demo_fresh demo_reach(3)] recording_accounting [OF demo_fresh spare_reach] demo_fresh demo_reach(3) spare_reach
  by (simp add: demo4_def demo_state_def)

text \<open>
  C14: the index of partial responses answers exactly what the table holds. A lookup by address, strong entity tag,
  total length and encoding returns each complete range response with that key exactly once and nothing else, in the
  order in which the transactions began.
\<close>

theorem range_candidates_exact:
  assumes "fresh_session s0" and "rec_reach E ly lower s0 s" and "\<not> re_closed s"
  shows "\<exists>found. findResponseRangeCandidates urlDisplay entityTag totalBytes contentEncoding s = Ok found
    \<and> set found = {c. \<exists>i r. hm_get (re_transactions s) i = Some r
        \<and> responseEntityEntry r = Some (range_key urlDisplay entityTag totalBytes contentEncoding, c)}
    \<and> sorted (map (\<lambda>c. (rx_sequence c, tx (rx_transactionId c))) found) \<and> distinct (map (\<lambda>c. (rx_sequence c, tx (rx_transactionId c))) found)"
  using lookup_exact [OF reachable_ok [OF assms(1,2)] assms(3)] unfolding stored_ranges_def .

theorem range_candidates_exact_witness:
  "fresh_session demo0 \<and> rec_reach True demo_layout to_ascii_lowercase demo0 demo4 \<and> \<not> re_closed demo4
    \<and> (\<exists>found. findResponseRangeCandidates (lit ''http://h/f'') ([34] @ lit ''v1'' @ [34]) 10 [] demo4 = Ok found \<and> found \<noteq> []
      \<and> set found = {c. \<exists>i r. hm_get (re_transactions demo4) i = Some r
          \<and> responseEntityEntry r = Some (range_key (lit ''http://h/f'') ([34] @ lit ''v1'' @ [34]) 10 [], c)})"
proof -
  have open_session: "\<not> re_closed demo4" by code_simp
  have "case findResponseRangeCandidates (lit ''http://h/f'') ([34] @ lit ''v1'' @ [34]) 10 [] demo4 of Ok found \<Rightarrow> found \<noteq> [] | _ \<Rightarrow> False" by code_simp
  then show ?thesis
    using range_candidates_exact [OF demo_fresh demo_reach(3) open_session, of "lit ''http://h/f''" "[34] @ lit ''v1'' @ [34]" 10 "[]"] demo_fresh demo_reach(3) open_session
    by auto
qed

text \<open>
  C19: what happened to a transaction stays recorded. No operation but clearing or closing the session drops a pending
  transaction, whatever room is needed; and a transaction that has ended keeps its status, times, sizes, headers and
  bodies for as long as it is kept: only notes, tags, tools and packets may still change.
\<close>

theorem recorded_transactions_kept:
  assumes "fresh_session s0" and "rec_reach E ly lower s0 s" and "rec_step E ly lower s t" and "hm_get (re_transactions s) i = Some r"
  shows "if tn_status (rc_summary r) = Pending then hm_get (re_transactions t) i \<noteq> None
    else (case hm_get (re_transactions t) i of None \<Rightarrow> True | Some q \<Rightarrow> frozen r q)"
proof -
  have "advances s t" using step_ok [OF reachable_ok [OF assms(1,2)] assms(3)] by simp
  then show ?thesis using assms(4) by (simp add: advances_def)
qed

theorem recorded_transactions_kept_witness:
  "fresh_session demo0 \<and> rec_reach True demo_layout to_ascii_lowercase demo0 demo3 \<and> rec_step True demo_layout to_ascii_lowercase demo3 demo4
    \<and> (case hm_get (re_transactions demo3) (lit ''a'') of None \<Rightarrow> False | Some r \<Rightarrow> tn_status (rc_summary r) = Pending)
    \<and> hm_get (re_transactions demo4) (lit ''a'') \<noteq> None"
proof -
  define r where "r = demo_record (demo_summary Pending None None 4 16) 505 demo_headers (Some demo_stored)"
  have r: "hm_get (re_transactions demo3) (lit ''a'') = Some r" unfolding r_def by code_simp
  have "tn_status (rc_summary r) = Pending" by (simp add: r_def demo_record_def demo_summary_def)
  then show ?thesis using recorded_transactions_kept [OF demo_fresh demo_reach(2) demo_steps(4) r] demo_fresh demo_reach(2) demo_steps(4) r by simp
qed

text \<open>
  C27: pages under one token fit together. A page that is served under the token of an earlier state shows the
  transactions at the stated offset of an order that extends the earlier one: no transaction was removed or moved in
  between, as long as the version counter has not reached its maximum.
\<close>

theorem page_token_stable:
  assumes "fresh_session s0" and "rec_reach E ly lower s0 s" and "rec_reach E ly lower s t" and "re_collectionVersion s \<noteq> - 1"
    and page: "pageView (Some offset) limit (Some (collectionTokenFromState s)) t = Ok page"
  shows "prefix (re_order s) (re_order t) \<and> pv_collectionToken page = collectionTokenFromState s \<and> pv_total page = length (re_order t) \<and> pv_offset page = offset
    \<and> map (\<lambda>m. tx (tn_transactionId m)) (pv_transactions page) = take limit (drop offset (re_order t))"
proof -
  have s: "rec_ok E ly s" by (rule reachable_ok [OF assms(1,2)])
  note t = reach_ok [OF assms(3) s]
  have table: "table_ok t" using t by (simp add: rec_ok_def core_ok_def)
  have eq: "collectionTokenFromState s = collectionTokenFromState t" "pv_collectionToken page = collectionTokenFromState t" "pv_total page = length (re_order t)" "pv_offset page = offset"
    and shown: "pv_transactions page = List.map_filter (\<lambda>i. map_option (\<lambda>r. clone_summary (rc_summary r)) (hm_get (re_transactions t) i)) (take limit (drop (min offset (length (re_order t))) (re_order t)))"
    using page by (auto simp: pageView_def Let_def split: if_splits)
  have version: "re_collectionVersion t = re_collectionVersion s" using token_version [OF eq(1)] t by simp
  have "set (take limit (drop offset (re_order t))) \<subseteq> set (re_order t)" by (meson order_trans set_drop_subset set_take_subset)
  from page_identifiers [OF table this] have "map (\<lambda>m. tx (tn_transactionId m)) (pv_transactions page) = take limit (drop offset (re_order t))"
    unfolding shown by (simp add: min_def)
  then show ?thesis using t version assms(4) eq by simp
qed

theorem page_token_stable_witness:
  "fresh_session demo0 \<and> rec_reach True demo_layout to_ascii_lowercase demo0 demo1 \<and> rec_reach True demo_layout to_ascii_lowercase demo1 demo4
    \<and> re_collectionVersion demo1 \<noteq> - 1 \<and> prefix (re_order demo1) (re_order demo4)
    \<and> (case pageView (Some 0) 5 (Some (collectionTokenFromState demo1)) demo4 of
         Ok page \<Rightarrow> map (\<lambda>m. tx (tn_transactionId m)) (pv_transactions page) = [lit ''a''] | _ \<Rightarrow> False)"
proof -
  have v: "re_collectionVersion demo1 \<noteq> - 1" by code_simp
  have order: "re_order demo4 = [lit ''a'']" by code_simp
  have "case pageView (Some 0) 5 (Some (collectionTokenFromState demo1)) demo4 of Ok _ \<Rightarrow> True | _ \<Rightarrow> False" by code_simp
  then obtain page where page: "pageView (Some 0) 5 (Some (collectionTokenFromState demo1)) demo4 = Ok page"
    by (cases "pageView (Some 0) 5 (Some (collectionTokenFromState demo1)) demo4") auto
  show ?thesis using page_token_stable [OF demo_fresh demo_reach(1,5) v page] demo_fresh demo_reach(1,5) v page order by simp
qed

text \<open>
  C30: the debt of failed deletions is always repaid. In whatever state failed deletions have left a session that is
  not closed, one cleanup with a working disk succeeds: the queue, the orphans and the pending removal of the directory
  are gone and the recorded transactions are untouched. In the runs with \<open>E\<close> (packets stored only for records without
  spare capacity, metadata always addressable; see C9) the metadata total then counts the recorded transactions
  alone.
\<close>

theorem cleanup_repays:
  assumes "fresh_session s0" and "rec_reach E ly lower s0 s" and "\<not> re_closed s" and "healthy disk"
  shows "\<exists>t. cleanupPendingBodies ly disk s = (Ok (), t) \<and> re_cleanupQueue t = [] \<and> re_orphanedSpills t = [] \<and> \<not> re_directoryCleanupPending t
    \<and> re_transactions t = re_transactions s \<and> re_order t = re_order s
    \<and> re_totalBodyBytes t = re_totalBodyBytes s
    \<and> (E \<longrightarrow> re_totalMetadataBytes t = hm_sum (transactionMetadataBytes ly) (re_transactions s))"
proof -
  have ok: "rec_ok E ly s" by (rule reachable_ok [OF assms(1,2)])
  obtain t where t: "drainCleanupQueueLocked ly disk s = (Ok (), t)" "re_cleanupQueue t = []" "re_orphanedSpills t = []" "\<not> re_directoryCleanupPending t"
    using drain_healthy [OF assms(4)] by blast
  note k = drain_kept [OF ok t(1)]
  have "re_transactions t = re_transactions s" "re_order t = re_order s" "re_totalBodyBytes t = re_totalBodyBytes s" using k(2) by (simp_all add: quiet_def still_def)
  moreover have "E \<longrightarrow> re_totalMetadataBytes t = hm_sum (transactionMetadataBytes ly) (re_transactions t)"
    using k(1) [of "{}"] t(2) by (simp add: kept_def rec_ok_def core_ok_def meta_ok_def visible_def tombs_def)
  moreover have "cleanupPendingBodies ly disk s = (Ok (), notifyChanged t)" using assms(3) t(1) by (simp add: cleanupPendingBodies_def ensureOpen_def)
  ultimately show ?thesis using t by (simp add: notifyChanged_def)
qed

theorem cleanup_repays_witness:
  "fresh_session demo0 \<and> rec_reach True demo_layout to_ascii_lowercase demo0 demo5 \<and> \<not> re_closed demo5 \<and> healthy demo_disk \<and> re_cleanupQueue demo5 \<noteq> []
    \<and> (\<exists>t. cleanupPendingBodies demo_layout demo_disk demo5 = (Ok (), t) \<and> re_cleanupQueue t = [] \<and> re_totalMetadataBytes t = 0)"
proof -
  have facts: "\<not> re_closed demo5" "healthy demo_disk" "re_cleanupQueue demo5 \<noteq> []" "re_transactions demo5 = []"
    by (simp_all add: demo5_def demo4_def demo_state_def healthy_def demo_disk_def)
  then show ?thesis using cleanup_repays [OF demo_fresh demo_reach(4) facts(1,2)] demo_fresh demo_reach(4) by (auto simp: hm_sum_def)
qed

end
