(* ===== verification/Spec2Isabelle.thy ===== *)
theory Spec2Isabelle
  imports FlowProperties PacketProperties FragmentProperties SocksProtocol LocationProperties PacketFilterProperties
    AccountAccess RuleSetProperties StreamProperties RelayProperties RecordingProperties
begin

text \<open>
  \<^bold>\<open>Verification of SprakCapture.\<close> SprakCapture captures the network traffic of selected
  processes: a packet driver redirects their TCP connections to a local SOCKS5 proxy and observes their
  UDP datagrams; the proxy authenticates clients, against an account service where one is configured,
  relays and filters the traffic and hands it to the recording. This development models the parts of
  \<open>src/Server\<close> that carry that logic.

  \<^bold>\<open>Conventions\<close> (\<open>Prelude\<close>, \<open>Net\<close>, \<open>ByteStream\<close>, \<open>RustText\<close>). Machine integers are words where
  the code relies on their width, integers with the saturation written out where it uses saturating
  arithmetic. A fallible function returns an \<open>outcome\<close>: \<open>Ok\<close>, \<open>Err\<close> with the error of the code, or
  \<open>Panic\<close> for an index or slice out of range, so that the absence of panics is a theorem and not an
  assumption. Hash maps are association lists without duplicate keys; their order is the insertion
  order and no theorem depends on it. A method that holds a lock is one definition on the locked state.
  Clocks, random identifiers, DNS, password hashing, digests and Unicode case mapping are arguments.
  \<open>RustText\<close> models what the sources use of the text functions and address parsers of the Rust library.
  The shared interfaces are locales: \<open>wire_codec\<close> (self-delimiting codecs), \<open>kv_store\<close> (maps),
  \<open>safe_system\<close> (invariants of reachable states).

  \<^bold>\<open>Capture flow table\<close> (\<open>FlowTable\<close>, \<open>FlowIndex\<close>, \<open>FlowInvariant\<close>, \<open>FlowProperties\<close>; source
  \<open>Backend/ProcessCapture/src/flowTable.rs\<close>). \<open>FlowState\<close> is the state behind the write lock: the
  outbound index, the reflected index, the keys of every endpoint, the UDP bindings, retired UDP
  targets and fragment decisions. C1 and C2 are the invariants of every reachable table, C3 the
  refinement of closing an endpoint by a restriction of the flow map, C4, C6, C8 and C10 the behaviour of
  insertion, generations of reused five-tuples, attribution of first datagrams and selection changes; the
  theorem \<open>fragment_decisions\<close> describes the decisions on fragments.

  \<^bold>\<open>Packet rewriting\<close> (\<open>PacketRewrite\<close>, \<open>PacketProperties\<close>; \<open>packetRewrite.rs\<close>). Parsing of IPv4 and
  IPv6 packets with extension headers, redirection to the proxy and restoration of replies. C11: no
  panic, length kept; C12: the flow table decides what happens to an outbound packet, and a redirected one
  carries the tuple of its flow; C13: a redirected packet's reply is restored;
  \<open>parseUdpPacket_payload_bounds\<close> bounds the payload of a datagram.

  \<^bold>\<open>Fragment reassembly\<close> (\<open>UdpFragment\<close>, \<open>FragmentProperties\<close>; \<open>udpFragment.rs\<close>). The assembler with
  its three budgets. C15: the counters are the sums over the groups and stay within the budgets; C16:
  packets that may belong to a selected process are never lost silently, by no operation; C17: errors keep
  no copy; C18: the fragments of a datagram, pushed in any order and possibly repeated, are all accepted and
  the last missing one returns exactly the datagram; \<open>inspectUdpFragment_bounds\<close>: inspection stays inside the packet.

  \<^bold>\<open>SOCKS5\<close> (\<open>SocksAddress\<close>, \<open>SocksProtocol\<close>; \<open>Backend/Socks5/src/address.rs\<close>, \<open>protocol.rs\<close>). The
  handshake runs on an explicit pair of byte streams. C20: the address codec; C22: datagram headers; C23 and C24: the authentication decisions; C25: requests.

  \<^bold>\<open>Session registry\<close> (\<open>SessionRegistry\<close>, \<open>SessionCaptureLemmas\<close>, \<open>SessionProperties\<close>; \<open>Socks5/src/registry.rs\<close>,
  \<open>model.rs\<close>). Sessions, their counters and the captured bytes of both directions, kept in chunks that are
  reserved from a shared budget and returned when the last snapshot of a session is gone. C39: in every
  reachable registry the budget is the sum of the reservations, the packets slice the captured
  bytes, and recording a payload appends a prefix of it to its own direction only; the lemma
  \<open>closeSession_history\<close> describes which sessions the history keeps.

  \<^bold>\<open>Account lease client\<close> (\<open>LeaseClient\<close>, \<open>LeaseClientProperties\<close>; \<open>Socks5/src/accountService.rs\<close>). Leases and rate
  controllers are objects in stores, the tables hold their addresses. C7: the live leases of an account
  share one controller, which counts them; C21: the rate limit of a direction over all connections, in every
  window of time.

  \<^bold>\<open>Relays\<close> (\<open>Relay\<close>, \<open>RelayProperties\<close>; \<open>Socks5/src/relay.rs\<close>, \<open>udpRelay.rs\<close>). The loops run over the events they
  meet (reads, datagrams, clocks, failures, revocations); the plugin host is a parameter with its own
  state. C5: a UDP association talks only to its client and to the targets this client reached; C40: the TCP
  pump delivers what the plugins forward and bills what it delivers, composing the registry and the
  lease client.

  \<^bold>\<open>Plugin streams\<close> (\<open>StreamSession\<close>, \<open>StreamProperties\<close>; \<open>PluginHost/src/streamTransformer.rs\<close>). A session buffers
  the bytes that a stream plugin has not consumed. C36: buffers and output stay within their limits
  and every call ends, whatever the plugin decides.

  \<^bold>\<open>Locations and packet filters\<close> (\<open>Location\<close>, \<open>LocationProperties\<close>, \<open>PacketFilter\<close>,
  \<open>PacketFilterProperties\<close>; \<open>Backend/Location/src\<close>, \<open>PluginHost/src/packetFilters.rs\<close>,
  \<open>extensionDataPlane.rs\<close>, \<open>Backend/src/packetDataPlane.rs\<close>). C26: the wildcard loop decides globbing;
  C28: the match of a location; C29: an accepted configuration processes every packet to a result (the
  search loop is a \<open>partial_function\<close>, its termination part of the theorem). \<open>parsePortRanges_roundtrip\<close> and
  \<open>deriveWireByteModifications_exact\<close> show that port ranges are read back and that the derived modifications
  reproduce the filtered bytes.

  \<^bold>\<open>Account service\<close> (\<open>AccountModel\<close>, \<open>AccountLease\<close>, \<open>AccountStore\<close>, \<open>AccountService\<close>,
  \<open>AccountInvariant\<close>, \<open>AccountProperties\<close>, \<open>AccountUsage\<close>, \<open>AccountAccess\<close>; \<open>AccountService/src\<close>). The
  tables of the database, the lease registry and the operations of the domain service, each a step with
  arbitrary clocks and database failures. Registry operations that only narrow leases share the locale
  \<open>narrowing\<close>, both directions of traffic the locale \<open>usage_meter\<close>. C31: quotas hold in every reachable
  state; C32: usage is conserved; C33: batches are idempotent; C34: who obtains a lease; C35: revisions
  guard every change, with the exact effect of an accepted one. The steps carry a set \<open>U\<close> of accounts: only for
  these may reading back a committed change fail. C31 excepts them, and \<open>failed_reread_skips_reconciliation\<close> shows
  why; every other property of the service holds for any \<open>U\<close>.

  \<^bold>\<open>Routing rule sets\<close> (\<open>RuleSets\<close>, \<open>RuleTextProperties\<close>, \<open>RuleSetProperties\<close>;
  \<open>AccountService/src/ruleSetStore.rs\<close>). The check of rule texts and the transactions on the table. C37: at most one
  rule set is enabled after any operations, and it is the one clients download; C38: an accepted text
  is in normal form, and the migration leaves it alone.

  \<^bold>\<open>Recording session\<close> (\<open>RecordingModel\<close>, \<open>Recording\<close>, \<open>RecordingOperations\<close>, \<open>RecordingLemmas\<close>,
  \<open>RecordingEvolution\<close>, \<open>RecordingWrites\<close>, \<open>RecordingSteps\<close>, \<open>RecordingProperties\<close>; \<open>Backend/Capture/src\<close>:
  \<open>model.rs\<close>, \<open>metadataBudget.rs\<close>, \<open>responseEntity.rs\<close>, \<open>recordingSession.rs\<close>, \<open>bodyStore.rs\<close>). The accounting of the code
  counts allocated capacities, so strings and vectors carry theirs; the sizes of structs are a parameter. Every method is a
  step, file operations have arbitrary outcomes, and failed deletions stay queued. \<open>core_ok\<close> is what every part of an operation
  keeps, \<open>rec_ok\<close> adds the limits, \<open>evolves\<close> is what parts of an operation respect. C9: the counts and totals are exact
  and within the limits; C14: the index of partial responses is exact; C19: pending transactions are never evicted and
  ended ones never change; C27: pages under one token fit together; C30: one cleanup with a working disk repays
  all failed deletions. New identifiers are fresh. Runs are of two kinds: with \<open>E = False\<close> nothing else is assumed;
  with \<open>E = True\<close> the metadata stays addressable (\<open>roomy\<close>) and packets are stored only for records without spare
  capacity. All five properties hold for both kinds, but for the exact metadata total in C9 and C30, which needs \<open>E\<close>:
  \<open>packets_undercount\<close> is a run without it whose total is too small.

  \<^bold>\<open>Bounds and fuel.\<close> Loops over packets have measures on the remaining bytes; the port search runs
  its counter of 65535 rounds; no fuel is used. Where a loop of the code has no evident measure it is a
  \<open>partial_function\<close> and its totality is proved.

  \<^bold>\<open>Not modelled.\<close> The driver workers and the Windows runtime (system calls and threads), the HTTP and
  control interfaces (axum handlers and JSON), the HTTP proxy with its TLS handling, the tasks that feed
  the recording and its JSON export, the plugin runtimes, the MCP server, the client packager and the desktop shell; the
  listeners and task supervision of the SOCKS5 server; the management identity of the account service.
\<close>

end
